(* ===== verification/Go_Prelude.thy ===== *)
theory Go_Prelude
  imports Complex_Main "HOL-Library.Word" "HOL-Library.Sublist" "HOL-Library.List_Lexorder" "HOL-Library.Char_ord"
begin

text \<open>
  Shared ground of the development: Go's byte strings and the functions of the standard
  packages \<open>strings\<close>, \<open>strconv\<close> and \<open>fmt\<close> that the services use, with their laws, and the
  collections of rewrite rules that the component theories extend.

  A Go string is a sequence of bytes, so it is HOL's \<^typ>\<open>string\<close> (a list of 8-bit characters)
  and \<open>len(s)\<close> is \<^const>\<open>length\<close>. Case mapping (\<open>strings.ToLower\<close>, \<open>strings.EqualFold\<close>) is the
  ASCII branch of the Go functions: the code applies it to hexadecimal addresses, UUIDs, the
  word Bearer and role codes. \<open>strings.TrimSpace\<close> is modelled with all of Unicode's white space.
\<close>

named_theorems result_inv \<open>inversion of a successful outcome of an operation\<close>
named_theorems go_defs \<open>definitions unfolded by the proofs of a component\<close>

type_synonym byte = "8 word"
type_synonym u32 = "32 word"
type_synonym u64 = "64 word"
type_synonym 'a go_set = "'a list"

section \<open>Lists\<close>

fun find_first :: "('a \<Rightarrow> bool) \<Rightarrow> 'a list \<Rightarrow> 'a option" where
  "find_first p [] = None"
| "find_first p (x # xs) = (if p x then Some x else find_first p xs)"

lemma find_first_SomeD: "find_first p xs = Some x \<Longrightarrow> x \<in> set xs \<and> p x"
  by (induction xs) (auto split: if_splits)

lemma find_first_None_iff [simp]: "find_first p xs = None \<longleftrightarrow> (\<forall>x \<in> set xs. \<not> p x)"
  by (induction xs) auto

text \<open>Stable insertion sort, the order Go's \<open>sort.SliceStable\<close> produces for a strict weak order.\<close>

fun insort_by :: "('a \<Rightarrow> 'a \<Rightarrow> bool) \<Rightarrow> 'a \<Rightarrow> 'a list \<Rightarrow> 'a list" where
  "insort_by before x [] = [x]"
| "insort_by before x (y # ys) = (if before y x then y # insort_by before x ys else x # y # ys)"

definition sort_by :: "('a \<Rightarrow> 'a \<Rightarrow> bool) \<Rightarrow> 'a list \<Rightarrow> 'a list" where
  "sort_by before xs = foldr (insort_by before) xs []"

lemma set_insort_by [simp]: "set (insort_by before x xs) = insert x (set xs)"
  by (induction xs) auto

lemma length_insort_by [simp]: "length (insort_by before x xs) = Suc (length xs)"
  by (induction xs) auto

lemma distinct_insort_by [simp]: "distinct (insort_by before x xs) \<longleftrightarrow> x \<notin> set xs \<and> distinct xs"
  by (induction xs) auto

lemma set_sort_by [simp]: "set (sort_by before xs) = set xs"
  by (induction xs) (auto simp: sort_by_def)

lemma length_sort_by [simp]: "length (sort_by before xs) = length xs"
  by (induction xs) (auto simp: sort_by_def)

lemma distinct_sort_by [simp]: "distinct (sort_by before xs) \<longleftrightarrow> distinct xs"
proof (induction xs)
  case Nil
  then show ?case by (simp add: sort_by_def)
next
  case (Cons x xs)
  have "set (foldr (insort_by before) xs []) = set xs"
    using set_sort_by [of before xs] by (simp add: sort_by_def)
  with Cons show ?case by (simp add: sort_by_def)
qed

text \<open>
  The result is sorted for every comparison whose complement is a total preorder, which is what
  a \<open>less\<close> function handed to \<open>sort.Slice\<close> has to be.
\<close>

lemma sorted_insort_by:
  assumes tot: "\<And>a b. before a b \<Longrightarrow> \<not> before b a"
    and tra: "\<And>a b c. \<not> before b a \<Longrightarrow> \<not> before c b \<Longrightarrow> \<not> before c a"
    and s: "sorted_wrt (\<lambda>a b. \<not> before b a) xs"
  shows "sorted_wrt (\<lambda>a b. \<not> before b a) (insort_by before x xs)"
  using s
proof (induction xs)
  case Nil
  then show ?case by simp
next
  case (Cons y ys)
  show ?case
  proof (cases "before y x")
    case True
    then have "\<not> before x y" by (rule tot)
    with Cons True show ?thesis by auto
  next
    case False
    then have "\<And>z. z \<in> set ys \<Longrightarrow> \<not> before z x"
      using Cons.prems tra by (meson list.set_intros(1) sorted_wrt.simps(2))
    with Cons.prems False show ?thesis by auto
  qed
qed

lemma sorted_sort_by:
  assumes "\<And>a b. before a b \<Longrightarrow> \<not> before b a"
    and "\<And>a b c. \<not> before b a \<Longrightarrow> \<not> before c b \<Longrightarrow> \<not> before c a"
  shows "sorted_wrt (\<lambda>a b. \<not> before b a) (sort_by before xs)"
proof (induction xs)
  case Nil
  then show ?case by (simp add: sort_by_def)
next
  case (Cons x xs)
  have "sorted_wrt (\<lambda>a b. \<not> before b a) (insort_by before x (sort_by before xs))"
    using assms Cons by (rule sorted_insort_by)
  then show ?case by (simp add: sort_by_def)
qed

lemma strictly_sorted:
  "sorted_wrt (\<lambda>a b. \<not> b < a) xs \<Longrightarrow> distinct xs \<Longrightarrow> sorted_wrt (<) (xs :: 'a :: linorder list)"
  by (induction xs) (auto simp: not_less order_less_le)

lemma find_append: "find P (xs @ ys) = (case find P xs of None \<Rightarrow> find P ys | Some y \<Rightarrow> Some y)"
  by (induction xs) auto

section \<open>Go strings\<close>

definition has_prefix :: "string \<Rightarrow> string \<Rightarrow> bool" where
  "has_prefix s p \<longleftrightarrow> take (length p) s = p"

definition trim_prefix :: "string \<Rightarrow> string \<Rightarrow> string" where
  "trim_prefix s p = (if has_prefix s p then drop (length p) s else s)"

definition trim_right_char :: "char \<Rightarrow> string \<Rightarrow> string" where
  "trim_right_char c s = rev (dropWhile (\<lambda>x. x = c) (rev s))"

text \<open>
  The UTF-8 encodings of the white-space code points (\<open>unicode.IsSpace\<close>): the number of bytes
  of the space that \<open>s\<close> starts with, 0 for none.
\<close>

fun space_len :: "string \<Rightarrow> nat" where
  "space_len [] = 0"
| "space_len (a # s) =
    (if a \<in> {CHR 0x09, CHR 0x0A, CHR 0x0B, CHR 0x0C, CHR 0x0D, CHR 0x20} then 1
     else if a = CHR 0xC2 then
       (case s of b # _ \<Rightarrow> if b = CHR 0x85 \<or> b = CHR 0xA0 then 2 else 0 | [] \<Rightarrow> 0)
     else if a = CHR 0xE1 then
       (case s of b # c # _ \<Rightarrow> if b = CHR 0x9A \<and> c = CHR 0x80 then 3 else 0 | _ \<Rightarrow> 0)
     else if a = CHR 0xE2 then
       (case s of b # c # _ \<Rightarrow>
          if b = CHR 0x80 \<and> c \<in> {CHR 0x80, CHR 0x81, CHR 0x82, CHR 0x83, CHR 0x84, CHR 0x85,
               CHR 0x86, CHR 0x87, CHR 0x88, CHR 0x89, CHR 0x8A, CHR 0xA8, CHR 0xA9, CHR 0xAF}
             \<or> b = CHR 0x81 \<and> c = CHR 0x9F then 3 else 0
        | _ \<Rightarrow> 0)
     else if a = CHR 0xE3 then
       (case s of b # c # _ \<Rightarrow> if b = CHR 0x80 \<and> c = CHR 0x80 then 3 else 0 | _ \<Rightarrow> 0)
     else 0)"

function trim_left_space :: "string \<Rightarrow> string" where
  "trim_left_space s =
    (if s = [] \<or> space_len s = 0 then s else trim_left_space (drop (space_len s) s))"
  by pat_completeness auto
termination by (relation "measure length") auto

declare trim_left_space.simps [simp del]

definition ends_in_space :: "string \<Rightarrow> nat" where
  "ends_in_space s =
    (if length s \<ge> 1 \<and> space_len (drop (length s - 1) s) = 1 then 1
     else if length s \<ge> 2 \<and> space_len (drop (length s - 2) s) = 2 then 2
     else if length s \<ge> 3 \<and> space_len (drop (length s - 3) s) = 3 then 3 else 0)"

function trim_right_space :: "string \<Rightarrow> string" where
  "trim_right_space s =
    (if s = [] \<or> ends_in_space s = 0 then s
     else trim_right_space (take (length s - ends_in_space s) s))"
  by pat_completeness auto
termination by (relation "measure length") auto

declare trim_right_space.simps [simp del]

definition TrimSpace :: "string \<Rightarrow> string" where
  "TrimSpace s = trim_right_space (trim_left_space s)"

definition lower_char :: "char \<Rightarrow> char" where
  "lower_char c = (let n = (of_char c :: nat) in if 65 \<le> n \<and> n \<le> 90 then char_of (n + 32) else c)"

definition ToLower :: "string \<Rightarrow> string" where
  "ToLower s = map lower_char s"

definition EqualFold :: "string \<Rightarrow> string \<Rightarrow> bool" where
  "EqualFold s t \<longleftrightarrow> ToLower s = ToLower t"

text \<open>\<open>%q\<close> of a string without characters that need escaping.\<close>

definition go_quote :: "string \<Rightarrow> string" where
  "go_quote s = CHR 34 # s @ [CHR 34]"

definition replace_char :: "char \<Rightarrow> char \<Rightarrow> string \<Rightarrow> string" where
  "replace_char a b s = map (\<lambda>c. if c = a then b else c) s"

lemma trim_left_space_id: "space_len s = 0 \<Longrightarrow> trim_left_space s = s"
  by (subst trim_left_space.simps) simp

lemma trim_right_space_id: "ends_in_space s = 0 \<Longrightarrow> trim_right_space s = s"
  by (subst trim_right_space.simps) simp

lemma trim_left_space_stops: "space_len (trim_left_space s) = 0"
proof (induction s rule: trim_left_space.induct)
  case (1 s)
  show ?case
  proof (cases "s = [] \<or> space_len s = 0")
    case True
    then show ?thesis by (subst trim_left_space.simps) auto
  next
    case False
    with 1 show ?thesis by (subst trim_left_space.simps) auto
  qed
qed

lemma ends_in_space_Nil [simp]: "ends_in_space [] = 0"
  by (simp add: ends_in_space_def)

lemma trim_right_space_stops: "ends_in_space (trim_right_space s) = 0"
proof (induction s rule: trim_right_space.induct)
  case (1 s)
  show ?case
  proof (cases "s = [] \<or> ends_in_space s = 0")
    case True
    then show ?thesis by (subst trim_right_space.simps) auto
  next
    case False
    with 1 show ?thesis by (subst trim_right_space.simps) auto
  qed
qed

lemma TrimSpace_Nil [simp]: "TrimSpace [] = []"
  by (simp add: TrimSpace_def trim_left_space.simps trim_right_space.simps)

lemma TrimSpace_id: "space_len s = 0 \<Longrightarrow> ends_in_space s = 0 \<Longrightarrow> TrimSpace s = s"
  by (simp add: TrimSpace_def trim_left_space_id trim_right_space_id)

text \<open>A string whose first and last bytes are printable ASCII has nothing to trim.\<close>

definition plain_char :: "char \<Rightarrow> bool" where
  "plain_char c \<longleftrightarrow> 32 < (of_char c :: nat) \<and> (of_char c :: nat) < 127"

lemma plain_char_space_len:
  assumes "plain_char a"
  shows "space_len (a # s) = 0"
proof -
  have "a \<notin> {CHR 0x09, CHR 0x0A, CHR 0x0B, CHR 0x0C, CHR 0x0D, CHR 0x20}"
    and "a \<noteq> CHR 0xC2" "a \<noteq> CHR 0xE1" "a \<noteq> CHR 0xE2" "a \<noteq> CHR 0xE3"
    using assms by (auto simp: plain_char_def)
  then show ?thesis by (simp only: space_len.simps if_False)
qed

lemma space_len_all_plain:
  assumes "s \<noteq> []" "\<forall>c \<in> set s. plain_char c"
  shows "space_len s = 0"
  using assms by (cases s) (auto simp: plain_char_space_len simp del: space_len.simps)

lemma TrimSpace_plain:
  assumes "\<forall>c \<in> set s. plain_char c"
  shows "TrimSpace s = s"
proof (cases "s = []")
  case False
  have d: "space_len (drop n s) = 0" if "n < length s" for n
    using assms that in_set_dropD by (intro space_len_all_plain) (fastforce simp: not_le)+
  have "ends_in_space s = 0"
    using d False by (simp add: ends_in_space_def)
  moreover have "space_len s = 0"
    using space_len_all_plain [OF False assms] .
  ultimately show ?thesis by (simp add: TrimSpace_id)
qed simp

text \<open>Trimming is idempotent and does not depend on the case of letters.\<close>

lemma space_len_take: "space_len s = 0 \<Longrightarrow> space_len (take n s) = 0"
proof (cases s)
  case (Cons a t)
  assume z: "space_len s = 0"
  show ?thesis
  proof (cases n)
    case (Suc m)
    have "space_len (a # take m t) = 0"
      using z Cons
      by (cases t; cases "tl t"; cases m; cases "m - 1") (auto split: if_splits list.splits)
    with Cons Suc show ?thesis by (simp only: take_Suc_Cons)
  qed simp
qed simp

lemma trim_right_space_prefix: "\<exists>n. trim_right_space s = take n s"
proof (induction s rule: trim_right_space.induct)
  case (1 s)
  show ?case
  proof (cases "s = [] \<or> ends_in_space s = 0")
    case True
    then show ?thesis by (subst trim_right_space.simps) (metis take_all order_refl)
  next
    case False
    with 1 obtain n where "trim_right_space (take (length s - ends_in_space s) s)
        = take n (take (length s - ends_in_space s) s)" by blast
    with False show ?thesis by (subst trim_right_space.simps) (auto simp: min_def)
  qed
qed

lemma space_len_TrimSpace [simp]: "space_len (TrimSpace s) = 0"
  unfolding TrimSpace_def
  using trim_right_space_prefix [of "trim_left_space s"] trim_left_space_stops [of s] space_len_take
  by metis

lemma ends_in_space_TrimSpace [simp]: "ends_in_space (TrimSpace s) = 0"
  by (simp add: TrimSpace_def trim_right_space_stops)

lemma TrimSpace_idem [simp]: "TrimSpace (TrimSpace s) = TrimSpace s"
  by (rule TrimSpace_id) simp_all

definition ascii_letter :: "char \<Rightarrow> bool" where
  "ascii_letter c \<longleftrightarrow> (let n = (of_char c :: nat) in 65 \<le> n \<and> n \<le> 90 \<or> 97 \<le> n \<and> n \<le> 122)"

lemma lower_char_eq_iff:
  assumes "\<not> ascii_letter x"
  shows "lower_char c = x \<longleftrightarrow> c = x"
proof
  assume l: "lower_char c = x"
  show "c = x"
  proof (cases "65 \<le> (of_char c :: nat) \<and> (of_char c :: nat) \<le> 90")
    case True
    then have "(of_char (lower_char c) :: nat) = of_char c + 32"
      by (simp add: lower_char_def Let_def)
    with True l assms show ?thesis by (simp add: ascii_letter_def Let_def)
  next
    case False
    with l show ?thesis by (auto simp: lower_char_def Let_def)
  qed
next
  assume "c = x"
  with assms show "lower_char c = x"
    by (auto simp: lower_char_def ascii_letter_def Let_def)
qed

lemma lower_char_idem [simp]: "lower_char (lower_char c) = lower_char c"
proof (cases "65 \<le> (of_char c :: nat) \<and> (of_char c :: nat) \<le> 90")
  case True
  then have "(of_char (lower_char c) :: nat) = of_char c + 32"
    by (simp add: lower_char_def Let_def)
  with True show ?thesis by (simp add: lower_char_def [of "lower_char c"] Let_def)
qed (auto simp: lower_char_def Let_def)

lemma ToLower_idem [simp]: "ToLower (ToLower s) = ToLower s"
  by (simp add: ToLower_def)

lemma ToLower_Nil_iff [simp]: "ToLower s = [] \<longleftrightarrow> s = []"
  by (simp add: ToLower_def)

lemma length_ToLower [simp]: "length (ToLower s) = length s"
  by (simp add: ToLower_def)

lemma ToLower_drop: "ToLower (drop n s) = drop n (ToLower s)"
  by (simp add: ToLower_def drop_map)

lemma ToLower_take: "ToLower (take n s) = take n (ToLower s)"
  by (simp add: ToLower_def take_map)

lemma space_len_ToLower [simp]: "space_len (ToLower s) = space_len s"
proof -
  have n: "lower_char c = x \<longleftrightarrow> c = x" if "(of_char x :: nat) < 65 \<or> 122 < (of_char x :: nat)" for c x
    using that by (intro lower_char_eq_iff) (auto simp: ascii_letter_def Let_def)
  show ?thesis
    by (cases s; cases "tl s"; cases "tl (tl s)") (simp_all add: ToLower_def n)
qed

lemma ends_in_space_ToLower [simp]: "ends_in_space (ToLower s) = ends_in_space s"
  by (simp add: ends_in_space_def ToLower_drop [symmetric])

lemma trim_left_space_ToLower: "trim_left_space (ToLower s) = ToLower (trim_left_space s)"
proof (induction s rule: trim_left_space.induct)
  case (1 s)
  then show ?case
    by (cases "s = [] \<or> space_len s = 0")
      (auto simp: trim_left_space.simps [of s] trim_left_space.simps [of "ToLower s"]
        ToLower_drop [symmetric])
qed

lemma trim_right_space_ToLower: "trim_right_space (ToLower s) = ToLower (trim_right_space s)"
proof (induction s rule: trim_right_space.induct)
  case (1 s)
  then show ?case
    by (cases "s = [] \<or> ends_in_space s = 0")
      (auto simp: trim_right_space.simps [of s] trim_right_space.simps [of "ToLower s"]
        ToLower_take [symmetric])
qed

lemma TrimSpace_ToLower: "TrimSpace (ToLower s) = ToLower (TrimSpace s)"
  by (simp add: TrimSpace_def trim_left_space_ToLower trim_right_space_ToLower)

section \<open>Decimal numbers\<close>

definition digit_char :: "nat \<Rightarrow> char" where
  "digit_char n = char_of (48 + n)"

definition char_digit :: "char \<Rightarrow> nat" where
  "char_digit c = (of_char c :: nat) - 48"

definition is_digit :: "char \<Rightarrow> bool" where
  "is_digit c \<longleftrightarrow> 48 \<le> (of_char c :: nat) \<and> (of_char c :: nat) \<le> 57"

fun itoa :: "nat \<Rightarrow> string" where
  "itoa n = (if n < 10 then [digit_char n] else itoa (n div 10) @ [digit_char (n mod 10)])"

declare itoa.simps [simp del]

definition int_to_string :: "int \<Rightarrow> string" where
  "int_to_string i = (if i < 0 then CHR ''-'' # itoa (nat (- i)) else itoa (nat i))"

text \<open>\<open>fmt.Sprintf("%02d", n)\<close> for a natural number.\<close>

definition pad2 :: "nat \<Rightarrow> string" where
  "pad2 n = (if n < 10 then CHR ''0'' # itoa n else itoa n)"

definition digits_value :: "string \<Rightarrow> nat" where
  "digits_value s = foldl (\<lambda>a c. 10 * a + char_digit c) 0 s"

lemma of_char_digit [simp]: "n < 10 \<Longrightarrow> (of_char (digit_char n) :: nat) = 48 + n"
  by (simp add: digit_char_def)

lemma char_digit_digit_char [simp]: "n < 10 \<Longrightarrow> char_digit (digit_char n) = n"
  by (simp add: char_digit_def)

lemma is_digit_digit_char [simp]: "n < 10 \<Longrightarrow> is_digit (digit_char n)"
  by (simp add: is_digit_def)

lemma digit_char_char_digit: "is_digit c \<Longrightarrow> digit_char (char_digit c) = c"
  by (simp add: is_digit_def digit_char_def char_digit_def)

lemma digits_value_append [simp]:
  "digits_value (s @ t) = digits_value s * 10 ^ length t + digits_value t"
proof -
  have "foldl (\<lambda>a c. 10 * a + char_digit c) b t
      = b * 10 ^ length t + foldl (\<lambda>a c. 10 * a + char_digit c) 0 t" for b
  proof (induction t rule: rev_induct)
    case (snoc x xs)
    then show ?case by (simp add: algebra_simps)
  qed simp
  then show ?thesis unfolding digits_value_def foldl_append .
qed

lemma digits_value_Nil [simp]: "digits_value [] = 0"
  by (simp add: digits_value_def)

lemma digits_value_single [simp]: "digits_value [c] = char_digit c"
  by (simp add: digits_value_def)

lemma digits_value_Cons: "digits_value (c # s) = char_digit c * 10 ^ length s + digits_value s"
  using digits_value_append [of "[c]" s] by simp

lemma digits_value_itoa [simp]: "digits_value (itoa n) = n"
proof (induction n rule: itoa.induct)
  case (1 n)
  show ?case
  proof (cases "n < 10")
    case True
    then show ?thesis by (subst itoa.simps) simp
  next
    case False
    with 1 show ?thesis by (subst itoa.simps) simp
  qed
qed

lemma itoa_inj [simp]: "itoa m = itoa n \<longleftrightarrow> m = n"
  by (metis digits_value_itoa)

lemma itoa_nonempty [simp]: "itoa n \<noteq> []"
  by (subst itoa.simps) simp

lemma itoa_digits: "\<forall>c \<in> set (itoa n). is_digit c"
proof (induction n rule: itoa.induct)
  case (1 n)
  show ?case
  proof (cases "n < 10")
    case True
    then show ?thesis by (subst itoa.simps) simp
  next
    case False
    with 1 have "\<forall>c \<in> set (itoa (n div 10)). is_digit c" by simp
    with False show ?thesis by (subst itoa.simps) auto
  qed
qed

lemma is_digit_plain: "is_digit c \<Longrightarrow> plain_char c"
  by (auto simp: is_digit_def plain_char_def)

lemma itoa_hd: "0 < n \<Longrightarrow> hd (itoa n) \<noteq> CHR ''0''"
proof (induction n rule: itoa.induct)
  case (1 n)
  show ?case
  proof (cases "n < 10")
    case True
    have "digit_char n \<noteq> CHR ''0''"
    proof
      assume "digit_char n = CHR ''0''"
      then have "(of_char (digit_char n) :: nat) = 48" by simp
      with True 1 show False by simp
    qed
    with True show ?thesis by (subst itoa.simps) simp
  next
    case False
    with 1 show ?thesis by (subst itoa.simps) (simp add: hd_append)
  qed
qed

lemma itoa_length_less: "n < 10 ^ k \<Longrightarrow> 0 < k \<Longrightarrow> length (itoa n) \<le> k"
proof (induction n arbitrary: k rule: itoa.induct)
  case (1 n)
  show ?case
  proof (cases "n < 10")
    case True
    with 1 show ?thesis by (subst itoa.simps) simp
  next
    case False
    with 1(2) obtain j where k: "k = Suc j" and "0 < j"
      by (cases k; cases "k - 1") auto
    with False 1 have "length (itoa (n div 10)) \<le> j" by simp
    with k False show ?thesis by (subst itoa.simps) simp
  qed
qed

lemma int_to_string_inj [simp]: "int_to_string i = int_to_string j \<longleftrightarrow> i = j"
proof -
  have m: "CHR ''-'' # s \<noteq> itoa n" for s n
  proof
    assume "CHR ''-'' # s = itoa n"
    then have "CHR ''-'' \<in> set (itoa n)" by (metis list.set_intros(1))
    with itoa_digits [of n] have "is_digit (CHR ''-'')" by blast
    then show False by (simp add: is_digit_def)
  qed
  show ?thesis
    using m m [symmetric] by (auto simp: int_to_string_def)
qed

lemma pad2_inj: "m < 100 \<Longrightarrow> n < 100 \<Longrightarrow> pad2 m = pad2 n \<longleftrightarrow> m = n"
proof -
  have z: "digits_value (pad2 k) = k" for k
    using digits_value_append [of "''0''" "itoa k"] by (simp add: pad2_def char_digit_def)
  show ?thesis by (metis z)
qed

lemma digits_value_bound: "\<forall>c \<in> set s. is_digit c \<Longrightarrow> digits_value s < 10 ^ length s"
proof (induction s)
  case (Cons c s)
  then have "char_digit c \<le> 9" by (auto simp: is_digit_def char_digit_def)
  then have "char_digit c * 10 ^ length s \<le> 9 * 10 ^ length s" by simp
  moreover have "digits_value s < 10 ^ length s" using Cons by simp
  ultimately have "char_digit c * 10 ^ length s + digits_value s < 10 * 10 ^ length s"
    by linarith
  then show ?case by (simp add: digits_value_Cons)
qed simp


section \<open>Machine integers\<close>

text \<open>A value of type \<open>int\<close>: 64 bits, wrapping around.\<close>

definition go_int :: "int \<Rightarrow> int" where
  "go_int i = sint (word_of_int i :: 64 word)"

lemma go_int_id: "- (2 ^ 63) \<le> i \<Longrightarrow> i < 2 ^ 63 \<Longrightarrow> go_int i = i"
  by (simp add: go_int_def signed_of_int signed_take_bit_int_eq_self)


lemma sint_small: "unat w < 2 ^ 63 \<Longrightarrow> sint (w :: 64 word) = int (unat w)"
proof -
  assume "unat w < 2 ^ 63"
  then have "int (unat w) < 2 ^ 63" by (metis of_nat_less_iff of_nat_numeral of_nat_power)
  moreover have "- (2 ^ 63) \<le> int (unat w)" by (rule order.trans [of _ 0]) simp_all
  ultimately show ?thesis
    unfolding sint_uint uint_nat by (intro signed_take_bit_int_eq_self) (simp_all del: uint_nat)
qed

lemma unat_Suc_small: "unat (w :: 64 word) < 2 ^ 63 \<Longrightarrow> unat (w + 1) = Suc (unat w)"
  by (simp add: unat_word_ariths)

end
