(* ===== verification/App_Error.thy ===== *)
theory App_Error
  imports Go_Prelude
begin

text \<open>
  Go's \<open>error\<close> values and the business errors of \<open>web3/pkg/apperror/apperror.go\<close>.

  An \<open>error\<close> is a nullable interface: \<open>go_error option\<close>, with \<^const>\<open>None\<close> for \<open>nil\<close>. A business
  error is a pointer \<open>*apperror.Error\<close>, itself nullable: \<open>app_error option\<close>. Storing such a
  pointer in an \<open>error\<close> keeps its type, so a nil \<open>*Error\<close> becomes the non-nil interface value
  \<open>AppErr None\<close> (\<open>as_error\<close>); this difference decides what several callers do and is kept.
  Sentinel values of third-party packages are constructors; \<open>fmt.Errorf("...%w", e)\<close> is
  \<open>WrapErr\<close>, \<open>errors.Join\<close> is \<open>JoinErr\<close> and \<open>PermanentErr\<close> is the \<open>*PermanentError\<close> of the admin service's \<open>mq\<close> package. A function that dereferences a nil pointer yields
  \<open>Panicked\<close>.
\<close>

datatype 'a go_outcome = Panicked | Returned 'a

datatype code =
    CodeInvalidArgument | CodeUnauthorized | CodeForbidden | CodeNotFound | CodeConflict
  | CodeTooManyRequests | CodeInternal | CodeUnavailable | CodeTimeout | CodeOther string

datatype grpc_code =
    Codes_OK | Codes_Canceled | Codes_Unknown | Codes_InvalidArgument | Codes_DeadlineExceeded
  | Codes_NotFound | Codes_AlreadyExists | Codes_PermissionDenied | Codes_ResourceExhausted
  | Codes_FailedPrecondition | Codes_Aborted | Codes_OutOfRange | Codes_Unimplemented
  | Codes_Internal | Codes_Unavailable | Codes_DataLoss | Codes_Unauthenticated

text \<open>Package-level sentinel errors that the code compares with \<open>errors.Is\<close>.\<close>

datatype sentinel =
    ErrRecordNotFound | EthereumNotFound | RedisNil | ContextCanceled | ContextDeadlineExceeded
  | ErrDailyQueryLimit | ErrDailyAddressLimit | ErrDailyUpstreamLimit
  | ErrClientClosed | ErrConnectionClosed

datatype go_error =
    AppErr "app_error option"
  | StatusErr grpc_code string
  | Sentinel sentinel
  | WrapErr string go_error
  | JoinErr "go_error list"
  | PermanentErr "go_error option"
  | PlainErr string
and app_error =
  AppError (err_code: code) (err_message: string) (err_status: nat) (err_cause: "go_error option")

text \<open>The string behind each \<open>Code\<close> constant.\<close>

fun code_string :: "code \<Rightarrow> string" where
  "code_string CodeInvalidArgument = ''INVALID_ARGUMENT''"
| "code_string CodeUnauthorized = ''UNAUTHORIZED''"
| "code_string CodeForbidden = ''FORBIDDEN''"
| "code_string CodeNotFound = ''NOT_FOUND''"
| "code_string CodeConflict = ''CONFLICT''"
| "code_string CodeTooManyRequests = ''TOO_MANY_REQUESTS''"
| "code_string CodeInternal = ''INTERNAL_ERROR''"
| "code_string CodeUnavailable = ''SERVICE_UNAVAILABLE''"
| "code_string CodeTimeout = ''TIMEOUT''"
| "code_string (CodeOther s) = s"

text \<open>Storing a \<open>*Error\<close> in an \<open>error\<close>: the interface is non-nil even when the pointer is nil.\<close>

definition as_error :: "app_error option \<Rightarrow> go_error option" where
  "as_error p = Some (AppErr p)"

text \<open>\<open>(*Error).Error()\<close>; \<open>show\<close> prints the cause as \<open>%v\<close> does.\<close>

definition Error_Error :: "(go_error \<Rightarrow> string) \<Rightarrow> app_error option \<Rightarrow> string" where
  "Error_Error show_cause e =
    (case e of
       None \<Rightarrow> ''<nil>''
     | Some a \<Rightarrow>
        (case err_cause a of
           Some c \<Rightarrow> code_string (err_code a) @ '': '' @ err_message a @ '': '' @ show_cause c
         | None \<Rightarrow> code_string (err_code a) @ '': '' @ err_message a))"

definition Error_Unwrap :: "app_error option \<Rightarrow> go_error option" where
  "Error_Unwrap e = (case e of None \<Rightarrow> None | Some a \<Rightarrow> err_cause a)"

definition New :: "code \<Rightarrow> string \<Rightarrow> nat \<Rightarrow> app_error" where
  "New c message httpStatus = AppError c message httpStatus None"

definition Wrap :: "go_error option \<Rightarrow> code \<Rightarrow> string \<Rightarrow> nat \<Rightarrow> app_error option" where
  "Wrap err c message httpStatus =
    (case err of None \<Rightarrow> None | Some e \<Rightarrow> Some (AppError c message httpStatus (Some e)))"

definition InvalidArgument :: "string \<Rightarrow> go_error" where
  "InvalidArgument message = AppErr (Some (New CodeInvalidArgument message 400))"

definition Unauthorized :: "string \<Rightarrow> go_error" where
  "Unauthorized message = AppErr (Some (New CodeUnauthorized message 401))"

definition Forbidden :: "string \<Rightarrow> go_error" where
  "Forbidden message = AppErr (Some (New CodeForbidden message 403))"

definition NotFound :: "string \<Rightarrow> go_error" where
  "NotFound message = AppErr (Some (New CodeNotFound message 404))"

definition Conflict :: "string \<Rightarrow> go_error" where
  "Conflict message = AppErr (Some (New CodeConflict message 409))"

definition TooManyRequests :: "string \<Rightarrow> go_error" where
  "TooManyRequests message = AppErr (Some (New CodeTooManyRequests message 429))"

definition Unavailable :: "string \<Rightarrow> go_error" where
  "Unavailable message = AppErr (Some (New CodeUnavailable message 503))"

definition Timeout :: "string \<Rightarrow> go_error" where
  "Timeout message = AppErr (Some (New CodeTimeout message 504))"

lemmas app_error_defs = InvalidArgument_def Unauthorized_def Forbidden_def NotFound_def
  Conflict_def TooManyRequests_def Unavailable_def Timeout_def New_def

section \<open>Error chains: \<open>errors.Is\<close>, \<open>errors.As\<close>\<close>

text \<open>The pre-order traversal that \<open>errors.Is\<close> and \<open>errors.As\<close> make.\<close>

fun errors_chain :: "go_error \<Rightarrow> go_error list" where
  "errors_chain (AppErr None) = [AppErr None]"
| "errors_chain (AppErr (Some (AppError c m s None))) = [AppErr (Some (AppError c m s None))]"
| "errors_chain (AppErr (Some (AppError c m s (Some e)))) =
     AppErr (Some (AppError c m s (Some e))) # errors_chain e"
| "errors_chain (WrapErr m e) = WrapErr m e # errors_chain e"
| "errors_chain (JoinErr es) = JoinErr es # concat (map errors_chain es)"
| "errors_chain (PermanentErr None) = [PermanentErr None]"
| "errors_chain (PermanentErr (Some e)) = PermanentErr (Some e) # errors_chain e"
| "errors_chain (StatusErr c m) = [StatusErr c m]"
| "errors_chain (Sentinel s) = [Sentinel s]"
| "errors_chain (PlainErr m) = [PlainErr m]"

definition errors_Is :: "go_error \<Rightarrow> sentinel \<Rightarrow> bool" where
  "errors_Is e s \<longleftrightarrow> Sentinel s \<in> set (errors_chain e)"

fun is_app_err :: "go_error \<Rightarrow> bool" where
  "is_app_err (AppErr p) = True"
| "is_app_err e = False"

fun is_status_err :: "go_error \<Rightarrow> bool" where
  "is_status_err (StatusErr c m) = True"
| "is_status_err e = False"

text \<open>\<open>errors.As(err, &appErr)\<close>: the first \<open>*Error\<close> of the chain, which may be a nil pointer.\<close>

definition errors_As_app :: "go_error \<Rightarrow> app_error option option" where
  "errors_As_app e =
    (case find_first is_app_err (errors_chain e) of Some (AppErr p) \<Rightarrow> Some p | _ \<Rightarrow> None)"

text \<open>The \<open>ok\<close> of \<open>status.FromError\<close>: the chain holds an error with a gRPC status.\<close>

definition status_FromError :: "go_error \<Rightarrow> bool" where
  "status_FromError e \<longleftrightarrow> (\<exists>x \<in> set (errors_chain e). is_status_err x)"

text \<open>\<open>errors.Join\<close>: nil arguments are dropped, and the result is nil when nothing is left.\<close>

definition errors_Join :: "go_error option list \<Rightarrow> go_error option" where
  "errors_Join es =
    (let xs = map the (filter (\<lambda>e. e \<noteq> None) es) in if xs = [] then None else Some (JoinErr xs))"

section \<open>The gRPC boundary\<close>

definition As :: "go_error option \<Rightarrow> app_error option" where
  "As err =
    (case err of
       None \<Rightarrow> None
     | Some e \<Rightarrow>
        (case errors_As_app e of
           Some p \<Rightarrow> p
         | None \<Rightarrow> Some (AppError CodeInternal ''internal server error'' 500 (Some e))))"

fun grpcCode :: "code \<Rightarrow> grpc_code" where
  "grpcCode CodeInvalidArgument = Codes_InvalidArgument"
| "grpcCode CodeUnauthorized = Codes_Unauthenticated"
| "grpcCode CodeForbidden = Codes_PermissionDenied"
| "grpcCode CodeNotFound = Codes_NotFound"
| "grpcCode CodeConflict = Codes_AlreadyExists"
| "grpcCode CodeTooManyRequests = Codes_ResourceExhausted"
| "grpcCode CodeUnavailable = Codes_Unavailable"
| "grpcCode CodeTimeout = Codes_DeadlineExceeded"
| "grpcCode c = Codes_Internal"

text \<open>\<open>appErr.Code\<close> of a nil pointer panics.\<close>

definition ToGRPC :: "go_error option \<Rightarrow> go_error option go_outcome" where
  "ToGRPC err =
    (case err of
       None \<Rightarrow> Returned None
     | Some e \<Rightarrow>
        if status_FromError e then Returned (Some e)
        else if errors_Is e ContextCanceled then
          Returned (Some (StatusErr Codes_Canceled ''request canceled''))
        else if errors_Is e ContextDeadlineExceeded then
          Returned (Some (StatusErr Codes_DeadlineExceeded ''request timed out''))
        else
          (case errors_As_app e of
             None \<Rightarrow> Returned (Some (StatusErr Codes_Internal ''internal server error''))
           | Some None \<Rightarrow> Panicked
           | Some (Some appErr) \<Rightarrow>
               Returned (Some (StatusErr (grpcCode (err_code appErr)) (err_message appErr)))))"

lemma errors_chain_self [simp]: "e \<in> set (errors_chain e)"
  by (cases e rule: errors_chain.cases) auto

lemma errors_chain_app_None [simp]:
  "errors_chain (AppErr (Some (AppError c m s None))) = [AppErr (Some (AppError c m s None))]"
  by simp

lemma errors_Is_simps [simp]:
  "errors_Is (Sentinel t) s \<longleftrightarrow> t = s"
  "errors_Is (WrapErr m e) s \<longleftrightarrow> errors_Is e s"
  "errors_Is (StatusErr c m) s \<longleftrightarrow> False"
  "errors_Is (PlainErr m) s \<longleftrightarrow> False"
  "errors_Is (AppErr None) s \<longleftrightarrow> False"
  "errors_Is (AppErr (Some a)) s \<longleftrightarrow> (\<exists>e. err_cause a = Some e \<and> errors_Is e s)"
  by (cases a; cases "err_cause a"; auto simp: errors_Is_def)+

lemma errors_Is_constructors [simp]:
  "\<not> errors_Is (InvalidArgument m) s" "\<not> errors_Is (Unauthorized m) s" "\<not> errors_Is (Forbidden m) s"
  "\<not> errors_Is (NotFound m) s" "\<not> errors_Is (Conflict m) s" "\<not> errors_Is (TooManyRequests m) s"
  "\<not> errors_Is (Unavailable m) s" "\<not> errors_Is (Timeout m) s"
  by (simp_all add: app_error_defs)

lemma errors_As_app_AppErr [simp]: "errors_As_app (AppErr p) = Some p"
  by (cases "AppErr p" rule: errors_chain.cases) (auto simp: errors_As_app_def)

lemma errors_As_app_None_iff:
  "errors_As_app e = None \<longleftrightarrow> (\<forall>x \<in> set (errors_chain e). \<not> is_app_err x)"
proof (cases "find_first is_app_err (errors_chain e)")
  case None
  have "errors_As_app e = None" unfolding errors_As_app_def None by simp
  with None show ?thesis by simp
next
  case (Some x)
  then have "x \<in> set (errors_chain e)" "is_app_err x" by (auto dest: find_first_SomeD)
  with Some show ?thesis by (cases x) (auto simp: errors_As_app_def intro!: bexI [of _ x])
qed

lemma status_FromError_StatusErr [simp]: "status_FromError (StatusErr c m)"
  by (simp add: status_FromError_def)

lemma errors_Join_None_iff [simp]: "errors_Join es = None \<longleftrightarrow> (\<forall>e \<in> set es. e = None)"
  by (auto simp: errors_Join_def Let_def filter_empty_conv)

lemma Wrap_None [simp]: "Wrap None c m s = None"
  by (simp add: Wrap_def)

lemma Wrap_Some [simp]: "Wrap (Some e) c m s = Some (AppError c m s (Some e))"
  by (simp add: Wrap_def)

section \<open>Properties of the boundary\<close>

lemma ToGRPC_Returned_status:
  "ToGRPC (Some e) = Returned r \<Longrightarrow> \<exists>x. r = Some x \<and> status_FromError x"
  by (auto simp: ToGRPC_def split: option.splits if_splits)

lemma ToGRPC_status_id: "status_FromError e \<Longrightarrow> ToGRPC (Some e) = Returned (Some e)"
  by (simp add: ToGRPC_def)

lemma ToGRPC_no_panic:
  "errors_As_app e \<noteq> Some None \<Longrightarrow> \<exists>x. ToGRPC (Some e) = Returned (Some x) \<and> status_FromError x"
  by (auto simp: ToGRPC_def split: option.splits)





text \<open>A nil \<open>*Error\<close> returned by \<open>Wrap\<close> and stored in an \<open>error\<close> is not nil any more, and
  handing it to \<open>ToGRPC\<close> dereferences the nil pointer. The same conversion is harmless when
  the pointer is tested for nil before it is stored.\<close>

theorem ToGRPC_typed_nil_panics:
  "as_error (Wrap None c m httpStatus) \<noteq> None
   \<and> ToGRPC (as_error (Wrap None c m httpStatus)) = Panicked
   \<and> ToGRPC (map_option (\<lambda>a. AppErr (Some a)) (Wrap None c m httpStatus)) = Returned None"
  by (simp add: as_error_def ToGRPC_def status_FromError_def)

end
