(* ===== verification/Gorm.thy ===== *)
theory Gorm
  imports App_Error "HOL-Library.Multiset"
begin

text \<open>
  The database handle \<open>*gorm.DB\<close> that the repositories use. GORM and PostgreSQL are not part of the
  repository, so a handle is a parameter: a record of the operations the repositories call on one
  table, over an abstract database state. A \<open>Where\<close> clause is a predicate on rows, an \<open>Order\<close>
  clause (completed by GORM with the primary key for \<open>First\<close>) a relation, an \<open>Update\<close> a
  function on rows. \<open>g_first_for_update\<close> is \<open>First\<close> after \<open>Clauses(clause.Locking{Strength: "UPDATE"})\<close>: the same
  answer, and the row stays locked for other transactions until the own one ends; what that lock is good for is shown
  where transactions run step by step (\<open>Usage_Concurrency\<close>). \<open>g_transaction\<close> runs a Go closure; the local variables that the closure
  captures are passed through it and, as in Go, keep their values when it rolls back.

  The repositories rely on \<open>gorm_ok\<close>, the documented behaviour: an operation either fails and
  leaves the rows as they are, or does what the SQL says; \<open>ErrRecordNotFound\<close> means that there is
  no row; a failed transaction is rolled back; a row that conflicts with a unique index is not
  inserted. \<open>fill\<close> and \<open>touch\<close> are the automatic \<open>CreatedAt\<close> and \<open>UpdatedAt\<close> time stamps.
  (\<open>Create\<close> also writes them into the Go value it is given, which is therefore returned).
  \<open>list_gorm\<close> is a concrete handle that satisfies \<open>gorm_ok\<close>.
\<close>

type_synonym time = int

record ('db, 'r, 'v) gorm =
  g_create :: "'r \<Rightarrow> 'db \<Rightarrow> go_error option \<times> 'r \<times> 'db"
  g_count :: "('r \<Rightarrow> bool) \<Rightarrow> 'db \<Rightarrow> (go_error + nat) \<times> 'db"
  g_first :: "('r \<Rightarrow> bool) \<Rightarrow> ('r \<Rightarrow> 'r \<Rightarrow> bool) \<Rightarrow> 'db \<Rightarrow> (go_error + 'r) \<times> 'db"
  g_first_for_update :: "('r \<Rightarrow> bool) \<Rightarrow> ('r \<Rightarrow> 'r \<Rightarrow> bool) \<Rightarrow> 'db \<Rightarrow> (go_error + 'r) \<times> 'db"
  g_find :: "('r \<Rightarrow> bool) \<Rightarrow> ('r \<Rightarrow> 'r \<Rightarrow> bool) \<Rightarrow> 'db \<Rightarrow> (go_error + 'r list) \<times> 'db"
  g_update :: "('r \<Rightarrow> bool) \<Rightarrow> ('r \<Rightarrow> 'r) \<Rightarrow> 'db \<Rightarrow> (go_error + nat) \<times> 'db"
  g_advisory_lock :: "string \<Rightarrow> 'db \<Rightarrow> go_error option \<times> 'db"
  g_transaction :: "('v \<Rightarrow> 'db \<Rightarrow> go_error option \<times> 'v \<times> 'db) \<Rightarrow> 'v \<Rightarrow> 'db \<Rightarrow> go_error option \<times> 'v \<times> 'db"

definition not_found :: go_error where "not_found = Sentinel ErrRecordNotFound"

record ('db, 'r) table_spec =
  t_rows :: "'db \<Rightarrow> 'r list"
  t_conflict :: "'r \<Rightarrow> 'r \<Rightarrow> bool"
  t_fill :: "time \<Rightarrow> 'r \<Rightarrow> 'r"
  t_touch :: "time \<Rightarrow> 'r \<Rightarrow> 'r"

definition strict_weak :: "('r \<Rightarrow> 'r \<Rightarrow> bool) \<Rightarrow> bool" where
  "strict_weak before \<longleftrightarrow>
     (\<forall>a b. before a b \<longrightarrow> \<not> before b a) \<and> (\<forall>a b c. \<not> before b a \<longrightarrow> \<not> before c b \<longrightarrow> \<not> before c a)"

definition create_ok :: "('db, 'r, 'v) gorm \<Rightarrow> ('db, 'r) table_spec \<Rightarrow> bool" where
  "create_ok G T \<longleftrightarrow> (\<forall>r db e r' db'. g_create G r db = (e, r', db') \<longrightarrow>
     (\<exists>t. r' = t_fill T t r) \<and>
     (case e of
        None \<Rightarrow> t_rows T db' = t_rows T db @ [r'] \<and> (\<forall>x \<in> set (t_rows T db). \<not> t_conflict T x r')
      | Some _ \<Rightarrow> t_rows T db' = t_rows T db))"

definition count_ok :: "('db, 'r, 'v) gorm \<Rightarrow> ('db, 'r) table_spec \<Rightarrow> bool" where
  "count_ok G T \<longleftrightarrow> (\<forall>P db res db'. g_count G P db = (res, db') \<longrightarrow>
     t_rows T db' = t_rows T db \<and>
     (case res of Inl _ \<Rightarrow> True | Inr n \<Rightarrow> n = length (filter P (t_rows T db))))"

definition first_law :: "(('r \<Rightarrow> bool) \<Rightarrow> ('r \<Rightarrow> 'r \<Rightarrow> bool) \<Rightarrow> 'db \<Rightarrow> (go_error + 'r) \<times> 'db) \<Rightarrow> ('db, 'r) table_spec \<Rightarrow> bool" where
  "first_law first T \<longleftrightarrow> (\<forall>P before db res db'. first P before db = (res, db') \<longrightarrow>
     t_rows T db' = t_rows T db \<and>
     (case res of
        Inl e \<Rightarrow> (errors_Is e ErrRecordNotFound \<longrightarrow> (\<forall>x \<in> set (t_rows T db). \<not> P x))
      | Inr r \<Rightarrow> r \<in> set (t_rows T db) \<and> P r
          \<and> (strict_weak before \<longrightarrow> (\<forall>x \<in> set (t_rows T db). P x \<longrightarrow> \<not> before x r))))"

definition first_ok :: "('db, 'r, 'v) gorm \<Rightarrow> ('db, 'r) table_spec \<Rightarrow> bool" where
  "first_ok G T \<longleftrightarrow> first_law (g_first G) T \<and> first_law (g_first_for_update G) T"

definition find_ok :: "('db, 'r, 'v) gorm \<Rightarrow> ('db, 'r) table_spec \<Rightarrow> bool" where
  "find_ok G T \<longleftrightarrow> (\<forall>P before db res db'. g_find G P before db = (res, db') \<longrightarrow>
     t_rows T db' = t_rows T db \<and>
     (case res of
        Inl _ \<Rightarrow> True
      | Inr rs \<Rightarrow> mset rs = mset (filter P (t_rows T db))
          \<and> (strict_weak before \<longrightarrow> sorted_wrt (\<lambda>a b. \<not> before b a) rs)))"

definition update_ok :: "('db, 'r, 'v) gorm \<Rightarrow> ('db, 'r) table_spec \<Rightarrow> bool" where
  "update_ok G T \<longleftrightarrow> (\<forall>P f db res db'. g_update G P f db = (res, db') \<longrightarrow>
     (case res of
        Inl _ \<Rightarrow> t_rows T db' = t_rows T db
      | Inr n \<Rightarrow> n = length (filter P (t_rows T db))
          \<and> (\<exists>t. t_rows T db' = map (\<lambda>r. if P r then t_touch T t (f r) else r) (t_rows T db))))"

definition lock_ok :: "('db, 'r, 'v) gorm \<Rightarrow> ('db, 'r) table_spec \<Rightarrow> bool" where
  "lock_ok G T \<longleftrightarrow> (\<forall>k db e db'. g_advisory_lock G k db = (e, db') \<longrightarrow> t_rows T db' = t_rows T db)"

definition transaction_ok :: "('db, 'r, 'v) gorm \<Rightarrow> ('db, 'r) table_spec \<Rightarrow> bool" where
  "transaction_ok G T \<longleftrightarrow> (\<forall>body v db e v' db'. g_transaction G body v db = (e, v', db') \<longrightarrow>
     (e \<noteq> None \<and> v' = v \<and> t_rows T db' = t_rows T db) \<or>
     (\<exists>db1 e1 db2. t_rows T db1 = t_rows T db \<and> body v db1 = (e1, v', db2) \<and>
        (case e1 of
           Some _ \<Rightarrow> e = e1 \<and> t_rows T db' = t_rows T db
         | None \<Rightarrow> (if e = None then t_rows T db' = t_rows T db2 else t_rows T db' = t_rows T db))))"

definition gorm_ok :: "('db, 'r, 'v) gorm \<Rightarrow> ('db, 'r) table_spec \<Rightarrow> bool" where
  "gorm_ok G T \<longleftrightarrow> create_ok G T \<and> count_ok G T \<and> first_ok G T \<and> find_ok G T \<and> update_ok G T
     \<and> lock_ok G T \<and> transaction_ok G T"

text \<open>
  The idiom \<open>if err := f(); err != nil { return err }\<close> inside a closure with captured variables
  \<open>v\<close>: for operations that return only an error, and for those that return a value as well.
\<close>

definition check_err :: "go_error option \<times> 'db \<Rightarrow> 'v \<Rightarrow> ('db \<Rightarrow> go_error option \<times> 'v \<times> 'db)
    \<Rightarrow> go_error option \<times> 'v \<times> 'db" where
  "check_err r v k = (case r of (Some e, db) \<Rightarrow> (Some e, v, db) | (None, db) \<Rightarrow> k db)"

definition check_res :: "(go_error + 'a) \<times> 'db \<Rightarrow> 'v \<Rightarrow> ('a \<Rightarrow> 'db \<Rightarrow> go_error option \<times> 'v \<times> 'db)
    \<Rightarrow> go_error option \<times> 'v \<times> 'db" where
  "check_res r v k = (case r of (Inl e, db) \<Rightarrow> (Some e, v, db) | (Inr a, db) \<Rightarrow> k a db)"

lemma check_err_None [result_inv]:
  "check_err r v k = (None, v', db') \<longleftrightarrow> (\<exists>db1. r = (None, db1) \<and> k db1 = (None, v', db'))"
  by (cases r) (auto simp: check_err_def split: option.splits)

lemma check_res_None [result_inv]:
  "check_res r v k = (None, v', db') \<longleftrightarrow> (\<exists>a db1. r = (Inr a, db1) \<and> k a db1 = (None, v', db'))"
  by (cases r) (auto simp: check_res_def split: sum.splits)

text \<open>The error of an \<open>Update\<close>, its \<open>RowsAffected\<close> dropped.\<close>

definition update_error :: "(go_error + nat) \<times> 'db \<Rightarrow> go_error option \<times> 'db" where
  "update_error r = (case r of (Inl e, db) \<Rightarrow> (Some e, db) | (Inr _, db) \<Rightarrow> (None, db))"

lemma update_error_None [result_inv]:
  "update_error r = (None, db') \<longleftrightarrow> (\<exists>n. r = (Inr n, db'))"
  by (cases r) (auto simp: update_error_def split: sum.splits)

lemma update_error_Some [result_inv]:
  "update_error r = (Some e, db') \<longleftrightarrow> r = (Inl e, db')"
  by (cases r) (auto simp: update_error_def split: sum.splits)

section \<open>Consequences, one rule per operation\<close>

lemma create_None:
  assumes "gorm_ok G T" "g_create G r db = (None, r', db')"
  obtains t where "r' = t_fill T t r" "t_rows T db' = t_rows T db @ [r']"
    "\<forall>x \<in> set (t_rows T db). \<not> t_conflict T x r'"
  using assms by (fastforce simp: gorm_ok_def create_ok_def)

lemma create_Some:
  "gorm_ok G T \<Longrightarrow> g_create G r db = (Some e, r', db') \<Longrightarrow> t_rows T db' = t_rows T db"
  by (fastforce simp: gorm_ok_def create_ok_def)

lemma count_Inr:
  "gorm_ok G T \<Longrightarrow> g_count G P db = (Inr n, db') \<Longrightarrow>
    t_rows T db' = t_rows T db \<and> n = length (filter P (t_rows T db))"
  by (fastforce simp: gorm_ok_def count_ok_def)

lemma count_rows: "gorm_ok G T \<Longrightarrow> g_count G P db = (res, db') \<Longrightarrow> t_rows T db' = t_rows T db"
  by (fastforce simp: gorm_ok_def count_ok_def)

lemma first_Inr:
  "gorm_ok G T \<Longrightarrow> g_first G P before db = (Inr r, db') \<Longrightarrow>
    t_rows T db' = t_rows T db \<and> r \<in> set (t_rows T db) \<and> P r
      \<and> (strict_weak before \<longrightarrow> (\<forall>x \<in> set (t_rows T db). P x \<longrightarrow> \<not> before x r))"
  by (fastforce simp: gorm_ok_def first_ok_def first_law_def)

lemma first_rows: "gorm_ok G T \<Longrightarrow> g_first G P before db = (res, db') \<Longrightarrow> t_rows T db' = t_rows T db"
  by (fastforce simp: gorm_ok_def first_ok_def first_law_def)

lemma first_missing:
  "gorm_ok G T \<Longrightarrow> g_first G P before db = (Inl e, db') \<Longrightarrow> errors_Is e ErrRecordNotFound \<Longrightarrow> \<forall>x \<in> set (t_rows T db). \<not> P x"
  by (fastforce simp: gorm_ok_def first_ok_def first_law_def)

lemma first_not_found:
  "gorm_ok G T \<Longrightarrow> g_first G P before db = (Inl not_found, db') \<Longrightarrow> \<forall>x \<in> set (t_rows T db). \<not> P x"
  using first_missing [of G T P before db not_found db'] by (simp add: not_found_def errors_Is_def)

text \<open>The locking variant answers as the other one does.\<close>

lemma with_for_update: "gorm_ok G T \<Longrightarrow> gorm_ok (G\<lparr>g_first := g_first_for_update G\<rparr>) T"
  by (simp add: gorm_ok_def create_ok_def count_ok_def first_ok_def find_ok_def update_ok_def lock_ok_def transaction_ok_def)

lemma find_rows: "gorm_ok G T \<Longrightarrow> g_find G P before db = (res, db') \<Longrightarrow> t_rows T db' = t_rows T db"
  by (fastforce simp: gorm_ok_def find_ok_def)

lemma find_Inr:
  "gorm_ok G T \<Longrightarrow> g_find G P before db = (Inr rs, db') \<Longrightarrow>
    mset rs = mset (filter P (t_rows T db)) \<and> (strict_weak before \<longrightarrow> sorted_wrt (\<lambda>a b. \<not> before b a) rs)"
  by (fastforce simp: gorm_ok_def find_ok_def)

lemma update_Inl: "gorm_ok G T \<Longrightarrow> g_update G P f db = (Inl e, db') \<Longrightarrow> t_rows T db' = t_rows T db"
  by (fastforce simp: gorm_ok_def update_ok_def)

lemma update_Inr:
  assumes "gorm_ok G T" "g_update G P f db = (Inr n, db')"
  obtains t where "t_rows T db' = map (\<lambda>r. if P r then t_touch T t (f r) else r) (t_rows T db)"
    "n = length (filter P (t_rows T db))"
  using assms by (fastforce simp: gorm_ok_def update_ok_def)

lemma lock_rows: "gorm_ok G T \<Longrightarrow> g_advisory_lock G k db = (e, db') \<Longrightarrow> t_rows T db' = t_rows T db"
  by (fastforce simp: gorm_ok_def lock_ok_def)

text \<open>A transaction that failed changed nothing; one that succeeded is its body, run to the end.\<close>

lemma transaction_Some:
  assumes "gorm_ok G T" and "g_transaction G body v db = (Some e, v', db')"
  shows "t_rows T db' = t_rows T db"
  using assms by (fastforce simp: gorm_ok_def transaction_ok_def split: option.splits if_splits)

lemma transaction_None:
  assumes "gorm_ok G T" and "g_transaction G body v db = (None, v', db')"
  obtains db1 db2 where "t_rows T db1 = t_rows T db" "body v db1 = (None, v', db2)"
    "t_rows T db' = t_rows T db2"
proof -
  from assms(1) have "transaction_ok G T" by (simp add: gorm_ok_def)
  from this [unfolded transaction_ok_def, rule_format, OF assms(2)] obtain db1 e1 db2
    where *: "t_rows T db1 = t_rows T db" "body v db1 = (e1, v', db2)"
      "e1 = None \<and> t_rows T db' = t_rows T db2"
    by (auto split: option.splits)
  with that show thesis by simp
qed

section \<open>A concrete handle\<close>

text \<open>
  Rows in a list, no failures but those of the unique index, time stamp \<open>t\<close>. The list is a
  component of the world, read by \<open>get\<close> and replaced by \<open>put\<close>.
\<close>

definition list_first :: "('w \<Rightarrow> 'r list) \<Rightarrow> ('r \<Rightarrow> bool) \<Rightarrow> ('r \<Rightarrow> 'r \<Rightarrow> bool) \<Rightarrow> 'w \<Rightarrow> (go_error + 'r) \<times> 'w" where
  [simp]: "list_first get P before db =
    (case sort_by before (filter P (get db)) of [] \<Rightarrow> (Inl not_found, db) | r # _ \<Rightarrow> (Inr r, db))"

definition list_gorm ::
  "('w \<Rightarrow> 'r list) \<Rightarrow> ('r list \<Rightarrow> 'w \<Rightarrow> 'w) \<Rightarrow> time \<Rightarrow> ('w, 'r) table_spec \<Rightarrow> ('w, 'r, 'v) gorm" where
  "list_gorm get put t T =
    \<lparr>g_create = (\<lambda>r db. if list_ex (\<lambda>x. t_conflict T x (t_fill T t r)) (get db)
       then (Some (PlainErr ''duplicate key value violates unique constraint''), t_fill T t r, db)
       else (None, t_fill T t r, put (get db @ [t_fill T t r]) db)),
     g_count = (\<lambda>P db. (Inr (length (filter P (get db))), db)),
     g_first = list_first get, g_first_for_update = list_first get,
     g_find = (\<lambda>P before db. (Inr (sort_by before (filter P (get db))), db)),
     g_update = (\<lambda>P f db. (Inr (length (filter P (get db))),
       put (map (\<lambda>r. if P r then t_touch T t (f r) else r) (get db)) db)),
     g_advisory_lock = (\<lambda>k db. (None, db)),
     g_transaction = (\<lambda>body v db. (case body v db of
         (None, v', db') \<Rightarrow> (None, v', db')
       | (Some e, v', db') \<Rightarrow> (Some e, v', db)))\<rparr>"

text \<open>It behaves as a handle of the table whose rows are that list.\<close>

lemma mset_sort_by [simp]: "mset (sort_by before xs) = mset xs"
proof (induction xs)
  case (Cons x xs)
  have "mset (insort_by before x ys) = add_mset x (mset ys)" for ys
    by (induction ys) auto
  with Cons show ?case by (simp add: sort_by_def)
qed (simp add: sort_by_def)

lemma sorted_sort_by_strict_weak:
  assumes "strict_weak before"
  shows "sorted_wrt (\<lambda>a b. \<not> before b a) (sort_by before xs)"
proof (rule sorted_sort_by)
  show "\<not> before b a" if "before a b" for a b
    using assms that unfolding strict_weak_def by blast
  show "\<not> before c a" if "\<not> before b a" "\<not> before c b" for a b c
    using assms that unfolding strict_weak_def by blast
qed

lemma list_gorm_ok:
  assumes "t_rows T = get" and "\<And>rs db. get (put rs db) = rs"
  shows "gorm_ok (list_gorm get put t T) T"
proof -
  have "first_law (list_first get) T"
  proof (unfold first_law_def, intro allI impI)
    fix P before db res db'
    assume *: "list_first get P before db = (res, db')"
    have m: "set (sort_by before (filter P (get db))) = {x \<in> set (get db). P x}" by auto
    show "t_rows T db' = t_rows T db \<and> (case res of
        Inl e \<Rightarrow> (errors_Is e ErrRecordNotFound \<longrightarrow> (\<forall>x \<in> set (t_rows T db). \<not> P x))
      | Inr r \<Rightarrow> r \<in> set (t_rows T db) \<and> P r
          \<and> (strict_weak before \<longrightarrow> (\<forall>x \<in> set (t_rows T db). P x \<longrightarrow> \<not> before x r)))"
    proof (cases "sort_by before (filter P (get db))")
      case Nil
      then have "{x \<in> set (get db). P x} = {}" unfolding m [symmetric] by simp
      with * assms Nil show ?thesis by auto
    next
      case (Cons r rs)
      with * have r: "res = Inr r" "db' = db" by auto
      have "r \<in> set (get db) \<and> P r" using m Cons by auto
      moreover have "\<not> before x r" if "strict_weak before" "x \<in> set (get db)" "P x" for x
      proof -
        have "x = r \<or> x \<in> set rs" using m Cons that by auto
        moreover have "\<not> before r r" using that(1) unfolding strict_weak_def by blast
        ultimately show ?thesis using sorted_sort_by_strict_weak [OF that(1), of "filter P (get db)"] Cons by auto
      qed
      ultimately show ?thesis using r assms by auto
    qed
  qed
  then have "first_ok (list_gorm get put t T) T" by (simp add: first_ok_def list_gorm_def)
  moreover have "transaction_ok (list_gorm get put t T) T"
  proof (unfold transaction_ok_def, intro allI impI, rule disjI2)
    fix body v db e v' db'
    assume *: "g_transaction (list_gorm get put t T) body v db = (e, v', db')"
    obtain e1 v1 db1 where b: "body v db = (e1, v1, db1)" by (cases "body v db")
    have "body v db = (e1, v', db1) \<and> (case e1 of
        Some _ \<Rightarrow> e = e1 \<and> t_rows T db' = t_rows T db
      | None \<Rightarrow> (if e = None then t_rows T db' = t_rows T db1 else t_rows T db' = t_rows T db))"
      using * b by (cases e1) (auto simp: list_gorm_def)
    then show "\<exists>db1 e1 db2. t_rows T db1 = t_rows T db \<and> body v db1 = (e1, v', db2) \<and>
        (case e1 of
           Some _ \<Rightarrow> e = e1 \<and> t_rows T db' = t_rows T db
         | None \<Rightarrow> (if e = None then t_rows T db' = t_rows T db2 else t_rows T db' = t_rows T db))"
      by blast
  qed
  moreover have "find_ok (list_gorm get put t T) T"
    using assms by (simp add: find_ok_def list_gorm_def sorted_sort_by_strict_weak)
  moreover have "create_ok (list_gorm get put t T) T"
    using assms by (auto simp: create_ok_def list_gorm_def list_ex_iff)
  moreover have "count_ok (list_gorm get put t T) T" "lock_ok (list_gorm get put t T) T"
    using assms by (simp_all add: count_ok_def lock_ok_def list_gorm_def)
  moreover have "update_ok (list_gorm get put t T) T"
    using assms by (auto simp: update_ok_def list_gorm_def)
  ultimately show ?thesis by (simp add: gorm_ok_def)
qed

section \<open>The interface of a repository\<close>

text \<open>
  What a client relies on: every operation of the repository (a \<open>step\<close> of the database) keeps the
  table's invariant and keeps the identities of its rows (rows are never deleted or re-keyed). Both
  then hold over every interleaving of operations.
\<close>

locale table_repository =
  fixes ok :: "'repo \<Rightarrow> ('db \<Rightarrow> 'r list) \<Rightarrow> bool"
    and step :: "'repo \<Rightarrow> ('db \<Rightarrow> 'r list) \<Rightarrow> 'db \<Rightarrow> 'db \<Rightarrow> bool"
    and inv :: "'r list \<Rightarrow> bool"
    and key :: "'r \<Rightarrow> 'k"
  assumes step_inv: "ok r rows \<Longrightarrow> step r rows db db' \<Longrightarrow> inv (rows db) \<Longrightarrow> inv (rows db')"
    and step_keys: "ok r rows \<Longrightarrow> step r rows db db' \<Longrightarrow> inv (rows db)
      \<Longrightarrow> key ` set (rows db) \<subseteq> key ` set (rows db')"
begin

lemma steps_inv:
  assumes "(step r rows)\<^sup>*\<^sup>* db db'" "ok r rows" "inv (rows db)"
  shows "inv (rows db') \<and> key ` set (rows db) \<subseteq> key ` set (rows db')"
  using assms
proof (induction rule: rtranclp_induct)
  case base
  then show ?case by simp
next
  case (step db1 db2)
  then show ?case using step_inv [OF _ step.hyps(2)] step_keys [OF _ step.hyps(2)] by blast
qed

end

end
