(* ===== verification/Gorm_Upsert.thy ===== *)
theory Gorm_Upsert
  imports Gorm
begin

text \<open>
  The parts of the database handle that only the transaction, scanner and usage repositories use:
  \<open>Clauses(clause.OnConflict{...})\<close> with \<open>DoUpdates\<close> (\<open>g_upsert\<close>, whose arguments say when two rows
  conflict and how the existing row is updated) and with \<open>DoNothing\<close> (\<open>g_insert_ignore\<close>, with the
  \<open>RowsAffected\<close>), and \<open>Offset(...).Limit(...)\<close> (\<open>g_page\<close>). \<open>gorm_up_ok\<close> is their documented
  behaviour; \<open>list_gorm_up\<close> is a concrete handle.
\<close>

record ('db, 'r, 'v) gorm_up = "('db, 'r, 'v) gorm" +
  g_upsert :: "('r \<Rightarrow> 'r \<Rightarrow> bool) \<Rightarrow> ('r \<Rightarrow> 'r \<Rightarrow> 'r) \<Rightarrow> 'r \<Rightarrow> 'db \<Rightarrow> go_error option \<times> 'db"
  g_insert_ignore :: "'r \<Rightarrow> 'db \<Rightarrow> (go_error + nat) \<times> 'db"
  g_page :: "('r \<Rightarrow> bool) \<Rightarrow> ('r \<Rightarrow> 'r \<Rightarrow> bool) \<Rightarrow> int \<Rightarrow> int \<Rightarrow> 'db \<Rightarrow> (go_error + 'r list) \<times> 'db"

text \<open>The rows after an upsert of the filled row \<open>r\<close>.\<close>

definition upserted :: "('r \<Rightarrow> 'r \<Rightarrow> bool) \<Rightarrow> ('r \<Rightarrow> 'r \<Rightarrow> 'r) \<Rightarrow> 'r \<Rightarrow> 'r list \<Rightarrow> 'r list" where
  "upserted same assign r rs =
    (if list_ex (\<lambda>x. same x r) rs then map (\<lambda>x. if same x r then assign x r else x) rs else rs @ [r])"

definition upsert_ok :: "('db, 'r, 'v, 'z) gorm_up_scheme \<Rightarrow> ('db, 'r) table_spec \<Rightarrow> bool" where
  "upsert_ok G T \<longleftrightarrow> (\<forall>same assign r db e db'. g_upsert G same assign r db = (e, db') \<longrightarrow>
     (case e of None \<Rightarrow> \<exists>t. t_rows T db' = upserted same assign (t_fill T t r) (t_rows T db)
      | Some _ \<Rightarrow> t_rows T db' = t_rows T db))"

definition insert_ignore_ok :: "('db, 'r, 'v, 'z) gorm_up_scheme \<Rightarrow> ('db, 'r) table_spec \<Rightarrow> bool" where
  "insert_ignore_ok G T \<longleftrightarrow> (\<forall>r db res db'. g_insert_ignore G r db = (res, db') \<longrightarrow>
     (case res of Inl _ \<Rightarrow> t_rows T db' = t_rows T db
      | Inr n \<Rightarrow> \<exists>t. if \<exists>x \<in> set (t_rows T db). t_conflict T x (t_fill T t r)
          then n = 0 \<and> t_rows T db' = t_rows T db
          else n = 1 \<and> t_rows T db' = t_rows T db @ [t_fill T t r]))"

definition page_ok :: "('db, 'r, 'v, 'z) gorm_up_scheme \<Rightarrow> ('db, 'r) table_spec \<Rightarrow> bool" where
  "page_ok G T \<longleftrightarrow> (\<forall>P before off lmt db res db'. g_page G P before off lmt db = (res, db') \<longrightarrow>
     t_rows T db' = t_rows T db \<and>
     (case res of Inl _ \<Rightarrow> True
      | Inr rs \<Rightarrow> 0 \<le> off \<longrightarrow> 0 < lmt \<longrightarrow> (\<exists>ys. mset ys = mset (filter P (t_rows T db))
          \<and> (strict_weak before \<longrightarrow> sorted_wrt (\<lambda>a b. \<not> before b a) ys) \<and> rs = take (nat lmt) (drop (nat off) ys))))"

definition gorm_up_ok :: "('db, 'r, 'v) gorm_up \<Rightarrow> ('db, 'r) table_spec \<Rightarrow> bool" where
  "gorm_up_ok G T \<longleftrightarrow> gorm_ok (gorm.truncate G) T \<and> upsert_ok G T \<and> insert_ignore_ok G T \<and> page_ok G T"

text \<open>A transaction over several tables, all of which \<open>view\<close> reads, takes effect as a whole or not at all.\<close>

definition atomic_ok :: "(('v \<Rightarrow> 'db \<Rightarrow> go_error option \<times> 'v \<times> 'db) \<Rightarrow> 'v \<Rightarrow> 'db \<Rightarrow> go_error option \<times> 'v \<times> 'db)
    \<Rightarrow> ('db \<Rightarrow> 's) \<Rightarrow> bool" where
  "atomic_ok transaction view \<longleftrightarrow> (\<forall>body v db e v' db'. transaction body v db = (e, v', db') \<longrightarrow>
     (case e of Some _ \<Rightarrow> view db' = view db
      | None \<Rightarrow> \<exists>db1 db2. view db1 = view db \<and> body v db1 = (None, v', db2) \<and> view db' = view db2))"

lemma upsert_None:
  assumes "gorm_up_ok G T" "g_upsert G same assign r db = (None, db')"
  obtains t where "t_rows T db' = upserted same assign (t_fill T t r) (t_rows T db)"
proof -
  from assms(1) have "upsert_ok G T" by (simp add: gorm_up_ok_def)
  from this [unfolded upsert_ok_def, rule_format, OF assms(2)] that show thesis by auto
qed

lemma upsert_Some:
  "gorm_up_ok G T \<Longrightarrow> g_upsert G same assign r db = (Some e, db') \<Longrightarrow> t_rows T db' = t_rows T db"
  unfolding gorm_up_ok_def upsert_ok_def by fastforce

lemma insert_ignore_Inr:
  assumes "gorm_up_ok G T" "g_insert_ignore G r db = (Inr n, db')"
  obtains (present) t x where "n = 0" "t_rows T db' = t_rows T db" "x \<in> set (t_rows T db)" "t_conflict T x (t_fill T t r)"
  | (added) t where "n = 1" "t_rows T db' = t_rows T db @ [t_fill T t r]"
    "\<forall>x \<in> set (t_rows T db). \<not> t_conflict T x (t_fill T t r)"
proof -
  from assms obtain t where "if \<exists>x \<in> set (t_rows T db). t_conflict T x (t_fill T t r)
      then n = 0 \<and> t_rows T db' = t_rows T db else n = 1 \<and> t_rows T db' = t_rows T db @ [t_fill T t r]"
    unfolding gorm_up_ok_def insert_ignore_ok_def by fastforce
  then show thesis by (cases "\<exists>x \<in> set (t_rows T db). t_conflict T x (t_fill T t r)") (auto intro: that)
qed

lemma insert_ignore_Inl:
  "gorm_up_ok G T \<Longrightarrow> g_insert_ignore G r db = (Inl e, db') \<Longrightarrow> t_rows T db' = t_rows T db"
  unfolding gorm_up_ok_def insert_ignore_ok_def by fastforce

lemma page_rows: "gorm_up_ok G T \<Longrightarrow> g_page G P before off lmt db = (res, db') \<Longrightarrow> t_rows T db' = t_rows T db"
  unfolding gorm_up_ok_def page_ok_def by blast

lemma page_Inr:
  assumes "gorm_up_ok G T" "g_page G P before off lmt db = (Inr rs, db')" "0 \<le> off" "0 < lmt"
  obtains ys where "mset ys = mset (filter P (t_rows T db))" "strict_weak before \<Longrightarrow> sorted_wrt (\<lambda>a b. \<not> before b a) ys"
    "rs = take (nat lmt) (drop (nat off) ys)"
  using assms unfolding gorm_up_ok_def page_ok_def by fastforce

lemma up_truncate: "gorm_up_ok G T \<Longrightarrow> gorm_ok (gorm.truncate G) T"
  by (simp add: gorm_up_ok_def)

lemma truncate_ops [simp]:
  "g_create (gorm.truncate G) = g_create G" "g_count (gorm.truncate G) = g_count G"
  "g_first (gorm.truncate G) = g_first G" "g_find (gorm.truncate G) = g_find G"
  "g_update (gorm.truncate G) = g_update G" "g_advisory_lock (gorm.truncate G) = g_advisory_lock G"
  "g_transaction (gorm.truncate G) = g_transaction G" "g_first_for_update (gorm.truncate G) = g_first_for_update G"
  by (simp_all add: gorm.truncate_def)

section \<open>A concrete handle\<close>

definition list_gorm_up ::
  "('w \<Rightarrow> 'r list) \<Rightarrow> ('r list \<Rightarrow> 'w \<Rightarrow> 'w) \<Rightarrow> time \<Rightarrow> ('w, 'r) table_spec \<Rightarrow> ('w, 'r, 'v) gorm_up" where
  "list_gorm_up get put t T = gorm.extend (list_gorm get put t T) (gorm_up.fields
     (\<lambda>same assign r db. (None, put (upserted same assign (t_fill T t r) (get db)) db))
     (\<lambda>r db. if list_ex (\<lambda>x. t_conflict T x (t_fill T t r)) (get db) then (Inr 0, db)
        else (Inr 1, put (get db @ [t_fill T t r]) db))
     (\<lambda>P before off lmt db. (Inr (take (nat lmt) (drop (nat off) (sort_by before (filter P (get db))))), db)))"

lemma list_gorm_up_simps:
  "gorm.truncate (list_gorm_up get put t T) = list_gorm get put t T"
  "g_upsert (list_gorm_up get put t T) = (\<lambda>same assign r db. (None, put (upserted same assign (t_fill T t r) (get db)) db))"
  "g_insert_ignore (list_gorm_up get put t T) = (\<lambda>r db. if list_ex (\<lambda>x. t_conflict T x (t_fill T t r)) (get db) then (Inr 0, db)
        else (Inr 1, put (get db @ [t_fill T t r]) db))"
  "g_page (list_gorm_up get put t T) = (\<lambda>P before off lmt db.
     (Inr (take (nat lmt) (drop (nat off) (sort_by before (filter P (get db))))), db))"
  by (simp_all add: list_gorm_up_def gorm.extend_def gorm.truncate_def gorm_up.fields_def)

lemma list_gorm_up_ok:
  assumes "t_rows T = get" and "\<And>rs db. get (put rs db) = rs"
  shows "gorm_up_ok (list_gorm_up get put t T) T"
proof -
  have "gorm_ok (list_gorm get put t T) T" using assms by (rule list_gorm_ok)
  moreover have "upsert_ok (list_gorm_up get put t T) T"
    using assms by (auto simp: upsert_ok_def list_gorm_up_simps)
  moreover have "insert_ignore_ok (list_gorm_up get put t T) T"
    using assms by (auto simp: insert_ignore_ok_def list_gorm_up_simps list_ex_iff)
  moreover have "page_ok (list_gorm_up get put t T) T"
    unfolding page_ok_def list_gorm_up_simps
    using assms(1) by (auto intro!: exI [of _ "sort_by _ (filter _ _)"] sorted_sort_by_strict_weak)
  ultimately show ?thesis by (simp add: gorm_up_ok_def list_gorm_up_simps)
qed

end
