(* ===== verification/Wallet_Repo.thy ===== *)
theory Wallet_Repo
  imports Gorm
begin

text \<open>
  The table of wallet bindings (\<open>web3/internal/model/wallet.go\<close>) and its repository
  (\<open>web3/internal/repository/wallet.go\<close>), every operation over a database handle. The
  invariant \<open>wallet_inv\<close> says what the table promises: unique IDs, one binding per chain and
  address, a default wallet is active, and a user has at most one default wallet. Operations that
  run in a transaction take the per-user advisory lock and are atomic steps here; operations of
  different requests interleave freely (\<open>repo_steps\<close>).
\<close>

type_synonym WalletStatus = int

definition WalletStatusActive :: WalletStatus where "WalletStatusActive = 1"
definition WalletStatusDisabled :: WalletStatus where "WalletStatusDisabled = 2"

record Wallet =
  w_ID :: string
  w_UserSubject :: string
  w_ChainID :: u64
  w_Address :: string
  w_Label :: string
  w_Status :: WalletStatus
  w_IsDefault :: bool
  w_VerifiedAt :: time
  w_CreatedAt :: time
  w_UpdatedAt :: time

text \<open>Go's zero \<open>time.Time\<close> in nanoseconds since 1970, and the zero value of the struct.\<close>

definition zero_time :: time where "zero_time = - 62135596800000000000"

definition zero_wallet :: Wallet where
  "zero_wallet = \<lparr>w_ID = [], w_UserSubject = [], w_ChainID = 0, w_Address = [], w_Label = [], w_Status = 0,
     w_IsDefault = False, w_VerifiedAt = zero_time, w_CreatedAt = zero_time, w_UpdatedAt = zero_time\<rparr>"

definition wallet_table :: "('db \<Rightarrow> Wallet list) \<Rightarrow> ('db, Wallet) table_spec" where
  "wallet_table rows =
    \<lparr>t_rows = rows,
     t_conflict = (\<lambda>x y. w_ID x = w_ID y \<or> w_ChainID x = w_ChainID y \<and> w_Address x = w_Address y),
     t_fill = (\<lambda>t w. w\<lparr>w_CreatedAt := (if w_CreatedAt w = zero_time then t else w_CreatedAt w),
                       w_UpdatedAt := (if w_UpdatedAt w = zero_time then t else w_UpdatedAt w)\<rparr>),
     t_touch = (\<lambda>t w. w\<lparr>w_UpdatedAt := t\<rparr>)\<rparr>"

record 'db WalletRepository =
  wr_db :: "('db, Wallet, Wallet) gorm"

definition lockWalletOwner :: "('db, 'r, 'v) gorm \<Rightarrow> string \<Rightarrow> 'db \<Rightarrow> go_error option \<times> 'db" where
  "lockWalletOwner tx userSubject = g_advisory_lock tx userSubject"

section \<open>Operations\<close>

definition wr_Create :: "'db WalletRepository \<Rightarrow> Wallet \<Rightarrow> 'db \<Rightarrow> go_error option \<times> Wallet \<times> 'db" where
  "wr_Create r wallet db = g_create (wr_db r) wallet db"

text \<open>The condition of both default counts.\<close>

abbreviation is_default_of :: "string \<Rightarrow> Wallet \<Rightarrow> bool" where
  "is_default_of user w \<equiv> w_UserSubject w = user \<and> w_Status w = WalletStatusActive \<and> w_IsDefault w"

definition wr_CreateBoundWallet ::
  "'db WalletRepository \<Rightarrow> Wallet \<Rightarrow> 'db \<Rightarrow> go_error option \<times> Wallet \<times> 'db" where
  "wr_CreateBoundWallet r wallet db =
    g_transaction (wr_db r) (\<lambda>wallet tx.
      check_err (lockWalletOwner (wr_db r) (w_UserSubject wallet) tx) wallet (\<lambda>tx.
      check_res (g_count (wr_db r) (is_default_of (w_UserSubject wallet)) tx) wallet (\<lambda>defaultCount tx.
        let wallet = wallet\<lparr>w_IsDefault := (defaultCount = 0)\<rparr>
        in g_create (wr_db r) wallet tx))) wallet db"

definition wr_Reactivate ::
  "'db WalletRepository \<Rightarrow> Wallet \<Rightarrow> string \<Rightarrow> time \<Rightarrow> 'db \<Rightarrow> go_error option \<times> Wallet \<times> 'db" where
  "wr_Reactivate r wallet label verifiedAt db =
    g_transaction (wr_db r) (\<lambda>wallet tx.
      check_err (lockWalletOwner (wr_db r) (w_UserSubject wallet) tx) wallet (\<lambda>tx.
      check_res (g_count (wr_db r) (is_default_of (w_UserSubject wallet)) tx) wallet (\<lambda>defaultCount tx.
      check_err (update_error (g_update (wr_db r) (\<lambda>w. w_ID w = w_ID wallet)
          (\<lambda>w. w\<lparr>w_Status := WalletStatusActive, w_Label := label, w_VerifiedAt := verifiedAt,
                w_IsDefault := (defaultCount = 0)\<rparr>) tx)) wallet (\<lambda>tx.
        (None, wallet, tx))))) wallet db"

definition wr_FindByID :: "'db WalletRepository \<Rightarrow> string \<Rightarrow> string \<Rightarrow> 'db \<Rightarrow> (go_error + Wallet) \<times> 'db" where
  "wr_FindByID r userSubject walletID db =
    g_first (wr_db r) (\<lambda>w. w_ID w = walletID \<and> w_UserSubject w = userSubject) (\<lambda>_ _. False) db"

definition wr_FindByChainAddress ::
  "'db WalletRepository \<Rightarrow> u64 \<Rightarrow> string \<Rightarrow> 'db \<Rightarrow> (go_error + Wallet) \<times> 'db" where
  "wr_FindByChainAddress r chainID address db =
    g_first (wr_db r) (\<lambda>w. w_ChainID w = chainID \<and> w_Address w = address) (\<lambda>_ _. False) db"

text \<open>\<open>ORDER BY is_default DESC, created_at ASC\<close>\<close>

definition default_first :: "Wallet \<Rightarrow> Wallet \<Rightarrow> bool" where
  "default_first a b \<longleftrightarrow> (w_IsDefault a \<and> \<not> w_IsDefault b)
     \<or> (w_IsDefault a = w_IsDefault b \<and> w_CreatedAt a < w_CreatedAt b)"

definition created_first :: "Wallet \<Rightarrow> Wallet \<Rightarrow> bool" where
  "created_first a b \<longleftrightarrow> w_CreatedAt a < w_CreatedAt b"

definition wr_ListActiveByUser :: "'db WalletRepository \<Rightarrow> string \<Rightarrow> 'db \<Rightarrow> (go_error + Wallet list) \<times> 'db" where
  "wr_ListActiveByUser r userSubject db =
    g_find (wr_db r) (\<lambda>w. w_UserSubject w = userSubject \<and> w_Status w = WalletStatusActive) default_first db"

definition wr_ListActiveByChain :: "'db WalletRepository \<Rightarrow> u64 \<Rightarrow> 'db \<Rightarrow> (go_error + Wallet list) \<times> 'db" where
  "wr_ListActiveByChain r chainID db =
    g_find (wr_db r) (\<lambda>w. w_ChainID w = chainID \<and> w_Status w = WalletStatusActive) (\<lambda>_ _. False) db"

abbreviation active_wallet_of :: "string \<Rightarrow> string \<Rightarrow> Wallet \<Rightarrow> bool" where
  "active_wallet_of user wid w \<equiv> w_ID w = wid \<and> w_UserSubject w = user \<and> w_Status w = WalletStatusActive"

definition wr_UpdateLabel ::
  "'db WalletRepository \<Rightarrow> string \<Rightarrow> string \<Rightarrow> string \<Rightarrow> 'db \<Rightarrow> go_error option \<times> 'db" where
  "wr_UpdateLabel r userSubject walletID label db =
    (case g_update (wr_db r) (active_wallet_of userSubject walletID) (\<lambda>w. w\<lparr>w_Label := label\<rparr>) db of
       (Inl err, db) \<Rightarrow> (Some err, db)
     | (Inr rowsAffected, db) \<Rightarrow> if rowsAffected = 0 then (Some not_found, db) else (None, db))"

definition wr_SetDefault :: "'db WalletRepository \<Rightarrow> string \<Rightarrow> string \<Rightarrow> 'db \<Rightarrow> go_error option \<times> 'db" where
  "wr_SetDefault r userSubject walletID db =
    (case g_transaction (wr_db r) (\<lambda>v tx.
      check_err (lockWalletOwner (wr_db r) userSubject tx) v (\<lambda>tx.
      check_res (g_first_for_update (wr_db r) (active_wallet_of userSubject walletID) (\<lambda>_ _. False) tx) v (\<lambda>wallet tx.
      check_err (update_error (g_update (wr_db r) (\<lambda>w. w_UserSubject w = userSubject \<and> w_IsDefault w)
          (\<lambda>w. w\<lparr>w_IsDefault := False\<rparr>) tx)) v (\<lambda>tx.
      check_err (update_error (g_update (wr_db r) (\<lambda>w. w_ID w = walletID) (\<lambda>w. w\<lparr>w_IsDefault := True\<rparr>) tx)) v
        (\<lambda>tx. (None, v, tx)))))) zero_wallet db
     of (err, _, db) \<Rightarrow> (err, db))"

definition wr_UnsetDefault :: "'db WalletRepository \<Rightarrow> string \<Rightarrow> string \<Rightarrow> 'db \<Rightarrow> go_error option \<times> 'db" where
  "wr_UnsetDefault r userSubject walletID db =
    (case g_update (wr_db r) (active_wallet_of userSubject walletID) (\<lambda>w. w\<lparr>w_IsDefault := False\<rparr>) db of
       (Inl err, db) \<Rightarrow> (Some err, db)
     | (Inr rowsAffected, db) \<Rightarrow> if rowsAffected = 0 then (Some not_found, db) else (None, db))"

definition wr_Disable :: "'db WalletRepository \<Rightarrow> string \<Rightarrow> string \<Rightarrow> 'db \<Rightarrow> go_error option \<times> 'db" where
  "wr_Disable r userSubject walletID db =
    (case g_transaction (wr_db r) (\<lambda>v tx.
      check_err (lockWalletOwner (wr_db r) userSubject tx) v (\<lambda>tx.
      check_res (g_first_for_update (wr_db r) (active_wallet_of userSubject walletID) (\<lambda>_ _. False) tx) v (\<lambda>current tx.
      check_err (update_error (g_update (wr_db r) (\<lambda>w. w_ID w = walletID)
          (\<lambda>w. w\<lparr>w_Status := WalletStatusDisabled, w_IsDefault := False\<rparr>) tx)) v (\<lambda>tx.
        if \<not> w_IsDefault current then (None, v, tx)
        else
          (case g_first (wr_db r) (\<lambda>w. w_UserSubject w = userSubject \<and> w_Status w = WalletStatusActive)
              created_first tx of
             (Inl err, tx) \<Rightarrow> if err = not_found then (None, v, tx) else (Some err, v, tx)
           | (Inr replacement, tx) \<Rightarrow>
               check_err (update_error (g_update (wr_db r) (\<lambda>w. w_ID w = w_ID replacement)
                  (\<lambda>w. w\<lparr>w_IsDefault := True\<rparr>) tx)) v (\<lambda>tx. (None, v, tx))))))) zero_wallet db
     of (err, _, db) \<Rightarrow> (err, db))"

section \<open>The invariant of the table\<close>

definition wallet_inv :: "Wallet list \<Rightarrow> bool" where
  "wallet_inv ws \<longleftrightarrow>
     distinct (map w_ID ws) \<and> distinct (map (\<lambda>w. (w_ChainID w, w_Address w)) ws)
     \<and> (\<forall>w \<in> set ws. w_IsDefault w \<longrightarrow> w_Status w = WalletStatusActive)
     \<and> (\<forall>v \<in> set ws. \<forall>w \<in> set ws. w_IsDefault v \<longrightarrow> w_IsDefault w \<longrightarrow> w_UserSubject v = w_UserSubject w
          \<longrightarrow> w_ID v = w_ID w)"

definition repo_ok :: "'db WalletRepository \<Rightarrow> ('db \<Rightarrow> Wallet list) \<Rightarrow> bool" where
  "repo_ok r rows \<longleftrightarrow> gorm_ok (wr_db r) (wallet_table rows)"

lemma wallet_table_simps [simp]:
  "t_rows (wallet_table rows) = rows"
  "t_conflict (wallet_table rows) x y
    \<longleftrightarrow> w_ID x = w_ID y \<or> w_ChainID x = w_ChainID y \<and> w_Address x = w_Address y"
  "t_touch (wallet_table rows) t w = w\<lparr>w_UpdatedAt := t\<rparr>"
  by (simp_all add: wallet_table_def)

lemma wallet_fill [simp]:
  "w_ID (t_fill (wallet_table rows) t w) = w_ID w"
  "w_UserSubject (t_fill (wallet_table rows) t w) = w_UserSubject w"
  "w_ChainID (t_fill (wallet_table rows) t w) = w_ChainID w"
  "w_Address (t_fill (wallet_table rows) t w) = w_Address w"
  "w_Label (t_fill (wallet_table rows) t w) = w_Label w"
  "w_Status (t_fill (wallet_table rows) t w) = w_Status w"
  "w_IsDefault (t_fill (wallet_table rows) t w) = w_IsDefault w"
  "w_VerifiedAt (t_fill (wallet_table rows) t w) = w_VerifiedAt w"
  by (simp_all add: wallet_table_def)

text \<open>The keys of a table survive every row-wise change that keeps ID, chain, address and owner.\<close>

definition keeps_keys :: "(Wallet \<Rightarrow> Wallet) \<Rightarrow> bool" where
  "keeps_keys f \<longleftrightarrow> (\<forall>w. w_ID (f w) = w_ID w \<and> w_ChainID (f w) = w_ChainID w \<and> w_Address (f w) = w_Address w
     \<and> w_UserSubject (f w) = w_UserSubject w)"

lemma wallet_inv_map:
  assumes "wallet_inv ws" "keeps_keys f"
    and "\<And>w. w \<in> set ws \<Longrightarrow> w_IsDefault (f w) \<Longrightarrow> w_Status (f w) = WalletStatusActive"
    and "\<And>v w. v \<in> set ws \<Longrightarrow> w \<in> set ws \<Longrightarrow> w_IsDefault (f v) \<Longrightarrow> w_IsDefault (f w)
      \<Longrightarrow> w_UserSubject v = w_UserSubject w \<Longrightarrow> w_ID v = w_ID w"
  shows "wallet_inv (map f ws)"
proof -
  have k: "w_ID \<circ> f = w_ID" "(\<lambda>w. (w_ChainID w, w_Address w)) \<circ> f = (\<lambda>w. (w_ChainID w, w_Address w))"
    "\<And>w. w_UserSubject (f w) = w_UserSubject w" "\<And>w. w_ID (f w) = w_ID w"
    using assms(2) by (auto simp: keeps_keys_def)
  have "distinct (map w_ID (map f ws))" "distinct (map (\<lambda>w. (w_ChainID w, w_Address w)) (map f ws))"
    using assms(1) by (simp_all only: map_map k) (simp_all add: wallet_inv_def)
  moreover have "\<forall>w \<in> set (map f ws). w_IsDefault w \<longrightarrow> w_Status w = WalletStatusActive"
    using assms(3) by auto
  moreover have "\<forall>v \<in> set (map f ws). \<forall>w \<in> set (map f ws). w_IsDefault v \<longrightarrow> w_IsDefault w
      \<longrightarrow> w_UserSubject v = w_UserSubject w \<longrightarrow> w_ID v = w_ID w"
  proof (intro ballI impI)
    fix v w assume "v \<in> set (map f ws)" "w \<in> set (map f ws)" and d: "w_IsDefault v" "w_IsDefault w"
      and u: "w_UserSubject v = w_UserSubject w"
    then obtain x y where "x \<in> set ws" "v = f x" "y \<in> set ws" "w = f y" by auto
    with d u assms(4) [of x y] show "w_ID v = w_ID w" by (simp add: k(3,4))
  qed
  ultimately show ?thesis unfolding wallet_inv_def by blast
qed

lemma inv_default_active:
  "wallet_inv ws \<Longrightarrow> w \<in> set ws \<Longrightarrow> w_IsDefault w \<Longrightarrow> w_Status w = WalletStatusActive"
  unfolding wallet_inv_def by blast

lemma inv_one_default:
  "wallet_inv ws \<Longrightarrow> v \<in> set ws \<Longrightarrow> w \<in> set ws \<Longrightarrow> w_IsDefault v \<Longrightarrow> w_IsDefault w
    \<Longrightarrow> w_UserSubject v = w_UserSubject w \<Longrightarrow> w_ID v = w_ID w"
  unfolding wallet_inv_def by blast

lemma inv_keys:
  "wallet_inv ws \<Longrightarrow> distinct (map w_ID ws)"
  "wallet_inv ws \<Longrightarrow> distinct (map (\<lambda>w. (w_ChainID w, w_Address w)) ws)"
  unfolding wallet_inv_def by blast+

lemma inv_same_id:
  assumes "wallet_inv ws" "v \<in> set ws" "w \<in> set ws" "w_ID v = w_ID w"
  shows "v = w"
proof -
  have "inj_on w_ID (set ws)" using assms(1) by (simp add: wallet_inv_def distinct_map)
  with assms show ?thesis by (auto dest: inj_onD)
qed


section \<open>What each operation does to the rows\<close>

lemma filter_none: "length (filter P xs) = 0 \<longleftrightarrow> (\<forall>x \<in> set xs. \<not> P x)"
  by (auto simp: filter_empty_conv)

lemma wallet_update:
  assumes "repo_ok r rows" "g_update (wr_db r) P f db = (Inr n, db')"
  obtains t where "rows db' = map (\<lambda>x. if P x then (f x)\<lparr>w_UpdatedAt := t\<rparr> else x) (rows db)"
    "n = length (filter P (rows db))"
proof -
  obtain t where "t_rows (wallet_table rows) db'
      = map (\<lambda>x. if P x then t_touch (wallet_table rows) t (f x) else x) (t_rows (wallet_table rows) db)"
    "n = length (filter P (t_rows (wallet_table rows) db))"
    by (rule update_Inr [OF assms(1) [unfolded repo_ok_def] assms(2)])
  with that [of t] show thesis by simp
qed

lemma CreateBoundWallet_None:
  assumes ok: "repo_ok r rows" and eq: "wr_CreateBoundWallet r w db = (None, w', db')"
  obtains t where "w' = t_fill (wallet_table rows) t
      (w\<lparr>w_IsDefault := (\<forall>x \<in> set (rows db). \<not> is_default_of (w_UserSubject w) x)\<rparr>)"
    "rows db' = rows db @ [w']"
    "\<forall>x \<in> set (rows db). w_ID x \<noteq> w_ID w \<and> (w_ChainID x \<noteq> w_ChainID w \<or> w_Address x \<noteq> w_Address w)"
proof -
  note G = ok [unfolded repo_ok_def]
  obtain db1 db2
    where r1: "rows db1 = rows db" and r2: "rows db' = rows db2"
      and body: "check_err (lockWalletOwner (wr_db r) (w_UserSubject w) db1) w (\<lambda>tx.
      check_res (g_count (wr_db r) (is_default_of (w_UserSubject w)) tx) w (\<lambda>defaultCount tx.
        let wallet = w\<lparr>w_IsDefault := (defaultCount = 0)\<rparr> in g_create (wr_db r) wallet tx)) = (None, w', db2)"
    by (rule transaction_None [OF G eq [unfolded wr_CreateBoundWallet_def]]) auto
  from body obtain db3 db4 n where s: "lockWalletOwner (wr_db r) (w_UserSubject w) db1 = (None, db3)"
    "g_count (wr_db r) (is_default_of (w_UserSubject w)) db3 = (Inr n, db4)"
    "g_create (wr_db r) (w\<lparr>w_IsDefault := (n = 0)\<rparr>) db4 = (None, w', db2)"
    by (auto simp: result_inv)
  have r3: "rows db3 = rows db" using lock_rows [OF G s(1) [unfolded lockWalletOwner_def]] r1 by simp
  have r4: "rows db4 = rows db" "n = 0 \<longleftrightarrow> (\<forall>x \<in> set (rows db). \<not> is_default_of (w_UserSubject w) x)"
    using count_Inr [OF G s(2)] r3 filter_none [of "is_default_of (w_UserSubject w)" "rows db"] by simp_all
  obtain t where "w' = t_fill (wallet_table rows) t (w\<lparr>w_IsDefault := (n = 0)\<rparr>)"
    "rows db2 = rows db @ [w']" "\<forall>x \<in> set (rows db). \<not> t_conflict (wallet_table rows) x w'"
    by (rule create_None [OF G s(3)]) (auto simp: r4(1))
  with that [of t] r2 r4(2) show thesis by auto
qed

lemma CreateBoundWallet_Some:
  "repo_ok r rows \<Longrightarrow> wr_CreateBoundWallet r w db = (Some e, w', db') \<Longrightarrow> rows db' = rows db"
  unfolding repo_ok_def wr_CreateBoundWallet_def by (drule (1) transaction_Some) simp

lemma Reactivate_None:
  assumes ok: "repo_ok r rows" and eq: "wr_Reactivate r w label now db = (None, w', db')"
  obtains t where "rows db' = map (\<lambda>x. if w_ID x = w_ID w
      then x\<lparr>w_Status := WalletStatusActive, w_Label := label, w_VerifiedAt := now,
             w_IsDefault := (\<forall>y \<in> set (rows db). \<not> is_default_of (w_UserSubject w) y), w_UpdatedAt := t\<rparr>
      else x) (rows db)"
proof -
  note G = ok [unfolded repo_ok_def]
  obtain db1 db2
    where r1: "rows db1 = rows db" and r2: "rows db' = rows db2"
      and body: "check_err (lockWalletOwner (wr_db r) (w_UserSubject w) db1) w (\<lambda>tx.
      check_res (g_count (wr_db r) (is_default_of (w_UserSubject w)) tx) w (\<lambda>defaultCount tx.
      check_err (update_error (g_update (wr_db r) (\<lambda>x. w_ID x = w_ID w)
          (\<lambda>x. x\<lparr>w_Status := WalletStatusActive, w_Label := label, w_VerifiedAt := now,
                w_IsDefault := (defaultCount = 0)\<rparr>) tx)) w (\<lambda>tx. (None, w, tx)))) = (None, w', db2)"
    by (rule transaction_None [OF G eq [unfolded wr_Reactivate_def]]) auto
  from body obtain db3 db4 n k where s: "lockWalletOwner (wr_db r) (w_UserSubject w) db1 = (None, db3)"
    "g_count (wr_db r) (is_default_of (w_UserSubject w)) db3 = (Inr n, db4)"
    "g_update (wr_db r) (\<lambda>x. w_ID x = w_ID w)
          (\<lambda>x. x\<lparr>w_Status := WalletStatusActive, w_Label := label, w_VerifiedAt := now,
                w_IsDefault := (n = 0)\<rparr>) db4 = (Inr k, db2)"
    by (auto simp: result_inv)
  have r3: "rows db3 = rows db" using lock_rows [OF G s(1) [unfolded lockWalletOwner_def]] r1 by simp
  have r4: "rows db4 = rows db" "n = 0 \<longleftrightarrow> (\<forall>x \<in> set (rows db). \<not> is_default_of (w_UserSubject w) x)"
    using count_Inr [OF G s(2)] r3 filter_none [of "is_default_of (w_UserSubject w)" "rows db"] by simp_all
  obtain t where "rows db2 = map (\<lambda>x. if w_ID x = w_ID w
      then (x\<lparr>w_Status := WalletStatusActive, w_Label := label, w_VerifiedAt := now, w_IsDefault := (n = 0)\<rparr>)
        \<lparr>w_UpdatedAt := t\<rparr> else x) (rows db4)"
    by (rule wallet_update [OF ok s(3)])
  with r2 r4 that [of t] show thesis by simp
qed

lemma Reactivate_Some:
  "repo_ok r rows \<Longrightarrow> wr_Reactivate r w label now db = (Some e, w', db') \<Longrightarrow> rows db' = rows db"
  unfolding repo_ok_def wr_Reactivate_def by (drule (1) transaction_Some) simp

lemma UpdateLabel_rows:
  assumes ok: "repo_ok r rows" and eq: "wr_UpdateLabel r user wid label db = (e, db')"
  obtains (unchanged) "rows db' = rows db" "e \<noteq> None"
    | (labelled) t where "rows db' = map (\<lambda>x. if active_wallet_of user wid x
        then x\<lparr>w_Label := label, w_UpdatedAt := t\<rparr> else x) (rows db)"
        "e = (if \<exists>x \<in> set (rows db). active_wallet_of user wid x then None else Some not_found)"
proof -
  note G = ok [unfolded repo_ok_def]
  obtain res db1 where u: "g_update (wr_db r) (active_wallet_of user wid) (\<lambda>w. w\<lparr>w_Label := label\<rparr>) db = (res, db1)"
    by fastforce
  with eq have d: "db' = db1" by (auto simp: wr_UpdateLabel_def split: sum.splits if_splits)
  show thesis
  proof (cases res)
    case (Inl err)
    with u eq update_Inl [OF G] d show thesis by (intro unchanged) (auto simp: wr_UpdateLabel_def)
  next
    case (Inr n)
    obtain t where t: "rows db' = map (\<lambda>x. if active_wallet_of user wid x
        then (x\<lparr>w_Label := label\<rparr>)\<lparr>w_UpdatedAt := t\<rparr> else x) (rows db)"
      and n: "n = length (filter (active_wallet_of user wid) (rows db))"
      unfolding d by (rule wallet_update [OF ok u [unfolded Inr]])
    have "e = (if n = 0 then Some not_found else None)"
      using eq u Inr by (auto simp: wr_UpdateLabel_def split: if_splits)
    with n t show thesis using filter_none [of "active_wallet_of user wid" "rows db"]
      by (intro labelled [of t]) auto
  qed
qed

lemma UnsetDefault_rows:
  assumes ok: "repo_ok r rows" and eq: "wr_UnsetDefault r user wid db = (e, db')"
  obtains (unchanged) "rows db' = rows db" "e \<noteq> None"
    | (unset) t where "rows db' = map (\<lambda>x. if active_wallet_of user wid x
        then x\<lparr>w_IsDefault := False, w_UpdatedAt := t\<rparr> else x) (rows db)"
        "e = (if \<exists>x \<in> set (rows db). active_wallet_of user wid x then None else Some not_found)"
proof -
  note G = ok [unfolded repo_ok_def]
  obtain res db1 where u: "g_update (wr_db r) (active_wallet_of user wid) (\<lambda>w. w\<lparr>w_IsDefault := False\<rparr>) db = (res, db1)"
    by fastforce
  with eq have d: "db' = db1" by (auto simp: wr_UnsetDefault_def split: sum.splits if_splits)
  show thesis
  proof (cases res)
    case (Inl err)
    with u eq update_Inl [OF G] d show thesis by (intro unchanged) (auto simp: wr_UnsetDefault_def)
  next
    case (Inr n)
    obtain t where t: "rows db' = map (\<lambda>x. if active_wallet_of user wid x
        then (x\<lparr>w_IsDefault := False\<rparr>)\<lparr>w_UpdatedAt := t\<rparr> else x) (rows db)"
      and n: "n = length (filter (active_wallet_of user wid) (rows db))"
      unfolding d by (rule wallet_update [OF ok u [unfolded Inr]])
    have "e = (if n = 0 then Some not_found else None)"
      using eq u Inr by (auto simp: wr_UnsetDefault_def split: if_splits)
    with n t show thesis using filter_none [of "active_wallet_of user wid" "rows db"]
      by (intro unset [of t]) auto
  qed
qed

lemma wr_first:
  assumes "repo_ok r rows" "g_first (wr_db r) P before db = (Inr w, db')"
  shows "rows db' = rows db" "w \<in> set (rows db)" "P w"
    "strict_weak before \<Longrightarrow> x \<in> set (rows db) \<Longrightarrow> P x \<Longrightarrow> \<not> before x w"
  using first_Inr [OF assms(1) [unfolded repo_ok_def] assms(2)] by simp_all

lemma wr_first_for_update:
  assumes "repo_ok r rows" "g_first_for_update (wr_db r) P before db = (Inr w, db')"
  shows "rows db' = rows db" "w \<in> set (rows db)" "P w"
proof -
  have "g_first (wr_db r\<lparr>g_first := g_first_for_update (wr_db r)\<rparr>) P before db = (Inr w, db')" using assms(2) by simp
  from first_Inr [OF with_for_update [OF assms(1) [unfolded repo_ok_def]] this]
  show "rows db' = rows db" "w \<in> set (rows db)" "P w" by simp_all
qed

lemma SetDefault_None:
  assumes ok: "repo_ok r rows" and eq: "wr_SetDefault r user wid db = (None, db')"
  obtains t1 t2 where "\<exists>x \<in> set (rows db). active_wallet_of user wid x"
    "rows db' = map (\<lambda>x. if w_ID x = wid then x\<lparr>w_IsDefault := True, w_UpdatedAt := t2\<rparr> else x)
      (map (\<lambda>x. if w_UserSubject x = user \<and> w_IsDefault x
        then x\<lparr>w_IsDefault := False, w_UpdatedAt := t1\<rparr> else x) (rows db))"
proof -
  note G = ok [unfolded repo_ok_def]
  let ?body = "\<lambda>v tx.
      check_err (lockWalletOwner (wr_db r) user tx) v (\<lambda>tx.
      check_res (g_first_for_update (wr_db r) (active_wallet_of user wid) (\<lambda>_ _. False) tx) v (\<lambda>wallet tx.
      check_err (update_error (g_update (wr_db r) (\<lambda>w. w_UserSubject w = user \<and> w_IsDefault w)
          (\<lambda>w. w\<lparr>w_IsDefault := False\<rparr>) tx)) v (\<lambda>tx.
      check_err (update_error (g_update (wr_db r) (\<lambda>w. w_ID w = wid) (\<lambda>w. w\<lparr>w_IsDefault := True\<rparr>) tx)) v
        (\<lambda>tx. (None, v, tx)))))"
  obtain v where tx: "g_transaction (wr_db r) ?body zero_wallet db = (None, v, db')"
    using eq unfolding wr_SetDefault_def by (auto split: prod.splits)
  obtain db1 db2 where r1: "rows db1 = rows db" and b: "?body zero_wallet db1 = (None, v, db2)"
    and r2: "rows db' = rows db2"
    by (rule transaction_None [OF G tx]) simp
  from b obtain db3 w db4 n db5 k where
    s: "lockWalletOwner (wr_db r) user db1 = (None, db3)"
    "g_first_for_update (wr_db r) (active_wallet_of user wid) (\<lambda>_ _. False) db3 = (Inr w, db4)"
    "g_update (wr_db r) (\<lambda>w. w_UserSubject w = user \<and> w_IsDefault w) (\<lambda>w. w\<lparr>w_IsDefault := False\<rparr>) db4 = (Inr n, db5)"
    "g_update (wr_db r) (\<lambda>w. w_ID w = wid) (\<lambda>w. w\<lparr>w_IsDefault := True\<rparr>) db5 = (Inr k, db2)"
    by (auto simp: result_inv)
  have r3: "rows db3 = rows db" using lock_rows [OF G s(1) [unfolded lockWalletOwner_def]] r1 by simp
  note f = wr_first_for_update [OF ok s(2), unfolded r3]
  obtain t1 where t1: "rows db5 = map (\<lambda>x. if w_UserSubject x = user \<and> w_IsDefault x
        then x\<lparr>w_IsDefault := False, w_UpdatedAt := t1\<rparr> else x) (rows db4)"
    by (rule wallet_update [OF ok s(3)])
  obtain t2 where t2: "rows db2 = map (\<lambda>x. if w_ID x = wid then x\<lparr>w_IsDefault := True, w_UpdatedAt := t2\<rparr> else x) (rows db5)"
    by (rule wallet_update [OF ok s(4)])
  have "\<exists>x \<in> set (rows db). active_wallet_of user wid x" using f(2,3) by blast
  then show thesis by (rule that) (simp only: r2 t2 t1 f(1))
qed

lemma SetDefault_Some:
  "repo_ok r rows \<Longrightarrow> wr_SetDefault r user wid db = (Some e, db') \<Longrightarrow> rows db' = rows db"
  unfolding repo_ok_def wr_SetDefault_def by (auto split: prod.splits dest: transaction_Some)

text \<open>\<open>Disable\<close>: the rows after the unbinding, and after the choice of a new default wallet.\<close>

abbreviation disabled_rows :: "string \<Rightarrow> time \<Rightarrow> Wallet list \<Rightarrow> Wallet list" where
  "disabled_rows wid t \<equiv> map (\<lambda>x. if w_ID x = wid
     then x\<lparr>w_Status := WalletStatusDisabled, w_IsDefault := False, w_UpdatedAt := t\<rparr> else x)"

lemma strict_weak_created: "strict_weak created_first"
  unfolding strict_weak_def created_first_def by auto

lemma Disable_None:
  assumes ok: "repo_ok r rows" and eq: "wr_Disable r user wid db = (None, db')"
  obtains c t where "c \<in> set (rows db)" "active_wallet_of user wid c"
      "\<not> w_IsDefault c \<or> (\<forall>x \<in> set (disabled_rows wid t (rows db)).
          w_UserSubject x = user \<longrightarrow> w_Status x \<noteq> WalletStatusActive)"
      "rows db' = disabled_rows wid t (rows db)"
    | c t p t2 where "c \<in> set (rows db)" "active_wallet_of user wid c" "w_IsDefault c"
      "p \<in> set (disabled_rows wid t (rows db))" "w_UserSubject p = user" "w_Status p = WalletStatusActive"
      "\<forall>x \<in> set (disabled_rows wid t (rows db)).
          w_UserSubject x = user \<longrightarrow> w_Status x = WalletStatusActive \<longrightarrow> w_CreatedAt p \<le> w_CreatedAt x"
      "rows db' = map (\<lambda>x. if w_ID x = w_ID p then x\<lparr>w_IsDefault := True, w_UpdatedAt := t2\<rparr> else x)
        (disabled_rows wid t (rows db))"
proof -
  note G = ok [unfolded repo_ok_def]
  let ?rest = "\<lambda>v current tx. if \<not> w_IsDefault current then (None, v, tx)
        else (case g_first (wr_db r) (\<lambda>w. w_UserSubject w = user \<and> w_Status w = WalletStatusActive)
              created_first tx of
             (Inl err, tx) \<Rightarrow> if err = not_found then (None, v, tx) else (Some err, v, tx)
           | (Inr replacement, tx) \<Rightarrow>
               check_err (update_error (g_update (wr_db r) (\<lambda>w. w_ID w = w_ID replacement)
                  (\<lambda>w. w\<lparr>w_IsDefault := True\<rparr>) tx)) v (\<lambda>tx. (None, v, tx)))"
  let ?body = "\<lambda>v tx.
      check_err (lockWalletOwner (wr_db r) user tx) v (\<lambda>tx.
      check_res (g_first_for_update (wr_db r) (active_wallet_of user wid) (\<lambda>_ _. False) tx) v (\<lambda>current tx.
      check_err (update_error (g_update (wr_db r) (\<lambda>w. w_ID w = wid)
          (\<lambda>w. w\<lparr>w_Status := WalletStatusDisabled, w_IsDefault := False\<rparr>) tx)) v (\<lambda>tx. ?rest v current tx)))"
  obtain v where tx: "g_transaction (wr_db r) ?body zero_wallet db = (None, v, db')"
    using eq unfolding wr_Disable_def by (auto split: prod.splits)
  obtain db1 db2 where r1: "rows db1 = rows db" and b: "?body zero_wallet db1 = (None, v, db2)"
    and r2: "rows db' = rows db2"
    by (rule transaction_None [OF G tx]) simp
  from b obtain db3 c db4 n db5 where
    s: "lockWalletOwner (wr_db r) user db1 = (None, db3)"
    "g_first_for_update (wr_db r) (active_wallet_of user wid) (\<lambda>_ _. False) db3 = (Inr c, db4)"
    "g_update (wr_db r) (\<lambda>w. w_ID w = wid)
      (\<lambda>w. w\<lparr>w_Status := WalletStatusDisabled, w_IsDefault := False\<rparr>) db4 = (Inr n, db5)"
    and rest: "?rest zero_wallet c db5 = (None, v, db2)"
    unfolding check_err_None check_res_None update_error_None by blast
  have r3: "rows db3 = rows db" using lock_rows [OF G s(1) [unfolded lockWalletOwner_def]] r1 by simp
  note f = wr_first_for_update [OF ok s(2), unfolded r3]
  obtain t where t: "rows db5 = disabled_rows wid t (rows db)"
    by (rule wallet_update [OF ok s(3), unfolded f(1)])
  show thesis
  proof (cases "w_IsDefault c")
    case False
    with rest have "db2 = db5" by simp
    then have "rows db' = disabled_rows wid t (rows db)" by (simp only: r2 t)
    with f(2,3) disjI1 [OF False] show thesis by (rule that(1))
  next
    case True
    obtain res db6 where g: "g_first (wr_db r) (\<lambda>w. w_UserSubject w = user \<and> w_Status w = WalletStatusActive)
              created_first db5 = (res, db6)" by fastforce
    have r6: "rows db6 = disabled_rows wid t (rows db)" using first_rows [OF G g] t by simp
    show thesis
    proof (cases res)
      case (Inl err)
      with rest True g have "err = not_found" "db2 = db6" by (auto split: if_splits)
      with g Inl have "g_first (wr_db r) (\<lambda>w. w_UserSubject w = user \<and> w_Status w = WalletStatusActive)
          created_first db5 = (Inl not_found, db6)" by simp
      from first_not_found [OF G this] have
        "\<forall>x \<in> set (disabled_rows wid t (rows db)). w_UserSubject x = user \<longrightarrow> w_Status x \<noteq> WalletStatusActive"
        by (simp only: wallet_table_simps t) blast
      moreover have "rows db' = disabled_rows wid t (rows db)" by (simp only: r2 \<open>db2 = db6\<close> r6)
      ultimately show thesis using f(2,3) that(1) by blast
    next
      case (Inr p)
      with rest True g obtain k where
        u: "g_update (wr_db r) (\<lambda>w. w_ID w = w_ID p) (\<lambda>w. w\<lparr>w_IsDefault := True\<rparr>) db6 = (Inr k, db2)"
        by (auto simp: result_inv)
      obtain t2 where t2: "rows db2 = map (\<lambda>x. if w_ID x = w_ID p
          then x\<lparr>w_IsDefault := True, w_UpdatedAt := t2\<rparr> else x) (rows db6)"
        by (rule wallet_update [OF ok u])
      note fp = wr_first [OF ok g [unfolded Inr], unfolded t]
      have "\<forall>x \<in> set (disabled_rows wid t (rows db)). w_UserSubject x = user
          \<longrightarrow> w_Status x = WalletStatusActive \<longrightarrow> w_CreatedAt p \<le> w_CreatedAt x"
        using fp(4) [OF strict_weak_created] unfolding created_first_def by (meson not_le)
      moreover have "rows db' = map (\<lambda>x. if w_ID x = w_ID p
          then x\<lparr>w_IsDefault := True, w_UpdatedAt := t2\<rparr> else x) (disabled_rows wid t (rows db))"
        by (simp only: r2 t2 r6)
      ultimately show thesis using that(2) [OF f(2,3) True fp(2)] fp(3) by blast
    qed
  qed
qed

lemma Disable_Some:
  "repo_ok r rows \<Longrightarrow> wr_Disable r user wid db = (Some e, db') \<Longrightarrow> rows db' = rows db"
  unfolding repo_ok_def wr_Disable_def by (auto split: prod.splits dest: transaction_Some)

section \<open>Every operation keeps the invariant\<close>

lemma CreateBoundWallet_inv:
  assumes ok: "repo_ok r rows" and inv: "wallet_inv (rows db)"
    and eq: "wr_CreateBoundWallet r w db = (e, w', db')" and "w_Status w = WalletStatusActive"
  shows "wallet_inv (rows db')"
proof (cases e)
  case (Some err)
  with CreateBoundWallet_Some [OF ok] eq inv show ?thesis by metis
next
  case None
  obtain t where w': "w' = t_fill (wallet_table rows) t
      (w\<lparr>w_IsDefault := (\<forall>x \<in> set (rows db). \<not> is_default_of (w_UserSubject w) x)\<rparr>)"
    and r: "rows db' = rows db @ [w']"
    and new: "\<forall>x \<in> set (rows db). w_ID x \<noteq> w_ID w \<and> (w_ChainID x \<noteq> w_ChainID w \<or> w_Address x \<noteq> w_Address w)"
    by (rule CreateBoundWallet_None [OF ok eq [unfolded None]])
  have k: "w_ID w' = w_ID w" "w_ChainID w' = w_ChainID w" "w_Address w' = w_Address w"
    "w_UserSubject w' = w_UserSubject w" "w_Status w' = WalletStatusActive"
    "w_IsDefault w' \<longleftrightarrow> (\<forall>x \<in> set (rows db). \<not> is_default_of (w_UserSubject w) x)"
    using assms(4) by (simp_all add: w')
  have "distinct (map w_ID (rows db'))" "distinct (map (\<lambda>w. (w_ChainID w, w_Address w)) (rows db'))"
    using inv_keys [OF inv] new k(1,2,3) by (auto simp: r)
  moreover have "\<forall>x \<in> set (rows db'). w_IsDefault x \<longrightarrow> w_Status x = WalletStatusActive"
    using inv_default_active [OF inv] k(5) by (auto simp: r)
  moreover have "w_ID x = w_ID y" if "x \<in> set (rows db')" "y \<in> set (rows db')" "w_IsDefault x" "w_IsDefault y"
      "w_UserSubject x = w_UserSubject y" for x y
  proof -
    have d: "is_default_of (w_UserSubject z) z" if "z \<in> set (rows db)" "w_IsDefault z" for z
      using inv_default_active [OF inv that] that(2) by blast
    show ?thesis
    proof (cases "x \<in> set (rows db)"; cases "y \<in> set (rows db)")
      assume "x \<in> set (rows db)" "y \<in> set (rows db)"
      with inv_one_default [OF inv] that(3,4,5) show ?thesis by blast
    next
      assume "x \<in> set (rows db)" "y \<notin> set (rows db)"
      with that d k(4,6) r show ?thesis by (metis Un_iff empty_iff list.set(1) set_ConsD set_append)
    next
      assume "x \<notin> set (rows db)" "y \<in> set (rows db)"
      with that d k(4,6) r show ?thesis by (metis Un_iff empty_iff list.set(1) set_ConsD set_append)
    next
      assume "x \<notin> set (rows db)" "y \<notin> set (rows db)"
      with that r show ?thesis by simp
    qed
  qed
  ultimately show ?thesis unfolding wallet_inv_def by blast
qed

lemma Reactivate_inv:
  assumes ok: "repo_ok r rows" and inv: "wallet_inv (rows db)"
    and eq: "wr_Reactivate r w label now db = (e, w', db')"
    and own: "x \<in> set (rows db)" "w_ID x = w_ID w" "w_UserSubject x = w_UserSubject w"
  shows "wallet_inv (rows db')"
proof (cases e)
  case (Some err)
  with Reactivate_Some [OF ok] eq inv show ?thesis by metis
next
  case None
  let ?new = "\<forall>y \<in> set (rows db). \<not> is_default_of (w_UserSubject w) y"
  obtain t where r: "rows db' = map (\<lambda>x. if w_ID x = w_ID w
      then x\<lparr>w_Status := WalletStatusActive, w_Label := label, w_VerifiedAt := now,
             w_IsDefault := ?new, w_UpdatedAt := t\<rparr> else x) (rows db)"
    by (rule Reactivate_None [OF ok eq [unfolded None]])
  have d: "is_default_of (w_UserSubject z) z" if "z \<in> set (rows db)" "w_IsDefault z" for z
    using inv_default_active [OF inv that] that(2) by blast
  have u: "w_UserSubject z = w_UserSubject w" if "z \<in> set (rows db)" "w_ID z = w_ID w" for z
    using inv_same_id [OF inv that(1) own(1)] that(2) own by simp
  show ?thesis unfolding r
  proof (rule wallet_inv_map [OF inv])
    fix y z
    assume *: "y \<in> set (rows db)" "z \<in> set (rows db)" "w_UserSubject y = w_UserSubject z"
      "w_IsDefault (if w_ID y = w_ID w then y\<lparr>w_Status := WalletStatusActive, w_Label := label,
         w_VerifiedAt := now, w_IsDefault := ?new, w_UpdatedAt := t\<rparr> else y)"
      "w_IsDefault (if w_ID z = w_ID w then z\<lparr>w_Status := WalletStatusActive, w_Label := label,
         w_VerifiedAt := now, w_IsDefault := ?new, w_UpdatedAt := t\<rparr> else z)"
    show "w_ID y = w_ID z"
    proof (cases "w_ID y = w_ID w"; cases "w_ID z = w_ID w")
      assume "w_ID y \<noteq> w_ID w" "w_ID z \<noteq> w_ID w"
      with *(4,5) have "w_IsDefault y" "w_IsDefault z" by (simp_all only: if_False)
      then show ?thesis using inv_one_default [OF inv *(1,2)] *(3) by blast
    next
      assume "w_ID y \<noteq> w_ID w" "w_ID z = w_ID w"
      with * have "w_IsDefault y" and n: ?new by simp_all
      with d [OF *(1)] u [OF *(2)] *(1,3) \<open>w_ID z = w_ID w\<close> show ?thesis by metis
    next
      assume "w_ID y = w_ID w" "w_ID z \<noteq> w_ID w"
      with * have "w_IsDefault z" and n: ?new by simp_all
      with d [OF *(2)] u [OF *(1)] *(2,3) \<open>w_ID y = w_ID w\<close> show ?thesis by metis
    qed simp
  qed (use d in \<open>auto simp: keeps_keys_def split: if_splits\<close>)
qed

lemma map_weaken_inv:
  assumes "wallet_inv ws" "keeps_keys f" "\<And>w. w_IsDefault (f w) \<Longrightarrow> w_IsDefault w \<and> w_Status (f w) = w_Status w"
  shows "wallet_inv (map f ws)"
proof (rule wallet_inv_map [OF assms(1,2)])
  show "w_Status (f w) = WalletStatusActive" if "w \<in> set ws" "w_IsDefault (f w)" for w
    using inv_default_active [OF assms(1) that(1)] assms(3) [OF that(2)] by simp
  show "w_ID v = w_ID w" if "v \<in> set ws" "w \<in> set ws" "w_IsDefault (f v)" "w_IsDefault (f w)"
      "w_UserSubject v = w_UserSubject w" for v w
    using inv_one_default [OF assms(1) that(1,2)] assms(3) that(3,4,5) by simp
qed

lemma UpdateLabel_inv:
  assumes "repo_ok r rows" "wallet_inv (rows db)" "wr_UpdateLabel r user wid label db = (e, db')"
  shows "wallet_inv (rows db')"
  by (rule UpdateLabel_rows [OF assms(1,3)]) (auto simp: assms(2) keeps_keys_def split: if_splits intro!: map_weaken_inv)

lemma UnsetDefault_inv:
  assumes "repo_ok r rows" "wallet_inv (rows db)" "wr_UnsetDefault r user wid db = (e, db')"
  shows "wallet_inv (rows db')"
  by (rule UnsetDefault_rows [OF assms(1,3)])
    (auto simp: assms(2) keeps_keys_def split: if_splits intro!: map_weaken_inv)

text \<open>Making one active wallet of a user without a default wallet the default.\<close>

lemma promote_inv:
  assumes inv: "wallet_inv ws" and p: "p \<in> set ws" "w_Status p = WalletStatusActive"
    and no: "\<And>x. x \<in> set ws \<Longrightarrow> w_UserSubject x = w_UserSubject p \<Longrightarrow> \<not> w_IsDefault x"
  shows "wallet_inv (map (\<lambda>x. if w_ID x = w_ID p then x\<lparr>w_IsDefault := True, w_UpdatedAt := t\<rparr> else x) ws)"
proof (rule wallet_inv_map [OF inv])
  have same: "x = p" if "x \<in> set ws" "w_ID x = w_ID p" for x
    using inv_same_id [OF inv that(1) p(1) that(2)] .
  show "w_Status (if w_ID x = w_ID p then x\<lparr>w_IsDefault := True, w_UpdatedAt := t\<rparr> else x) = WalletStatusActive"
    if "x \<in> set ws" "w_IsDefault (if w_ID x = w_ID p then x\<lparr>w_IsDefault := True, w_UpdatedAt := t\<rparr> else x)" for x
    using that(2) same [OF that(1)] p(2) inv_default_active [OF inv that(1)] by (cases "w_ID x = w_ID p") auto
  show "w_ID x = w_ID y" if "x \<in> set ws" "y \<in> set ws" "w_UserSubject x = w_UserSubject y"
      "w_IsDefault (if w_ID x = w_ID p then x\<lparr>w_IsDefault := True, w_UpdatedAt := t\<rparr> else x)"
      "w_IsDefault (if w_ID y = w_ID p then y\<lparr>w_IsDefault := True, w_UpdatedAt := t\<rparr> else y)" for x y
  proof -
    have "w_ID z = w_ID p \<or> w_IsDefault z \<and> w_UserSubject z \<noteq> w_UserSubject p"
      if "z \<in> set ws" "w_IsDefault (if w_ID z = w_ID p then z\<lparr>w_IsDefault := True, w_UpdatedAt := t\<rparr> else z)" for z
      using that no by (auto split: if_splits)
    from this [OF that(1,4)] this [OF that(2,5)] show ?thesis
      using same [OF that(1)] same [OF that(2)] inv_one_default [OF inv that(1,2)] that(3) by auto
  qed
qed (simp add: keeps_keys_def)

lemma SetDefault_inv:
  assumes ok: "repo_ok r rows" and inv: "wallet_inv (rows db)" and eq: "wr_SetDefault r user wid db = (e, db')"
  shows "wallet_inv (rows db')"
proof (cases e)
  case (Some err)
  with SetDefault_Some [OF ok] eq inv show ?thesis by metis
next
  case None
  let ?f = "\<lambda>t x. if w_UserSubject x = user \<and> w_IsDefault x then x\<lparr>w_IsDefault := False, w_UpdatedAt := t\<rparr> else x"
  obtain t1 t2 where ex: "\<exists>x \<in> set (rows db). active_wallet_of user wid x"
    and r: "rows db' = map (\<lambda>x. if w_ID x = wid then x\<lparr>w_IsDefault := True, w_UpdatedAt := t2\<rparr> else x)
      (map (?f t1) (rows db))"
    by (rule SetDefault_None [OF ok eq [unfolded None]])
  from ex obtain c where c: "c \<in> set (rows db)" "active_wallet_of user wid c" by blast
  let ?c = "?f t1 c"
  have cleared: "wallet_inv (map (?f t1) (rows db))"
    by (rule map_weaken_inv [OF inv]) (auto simp: keeps_keys_def split: if_splits)
  have m: "?c \<in> set (map (?f t1) (rows db))" using c(1) by simp
  have f: "w_Status ?c = WalletStatusActive" "w_ID ?c = wid" "w_UserSubject ?c = user"
    using c(2) by simp_all
  have no: "\<not> w_IsDefault x" if "x \<in> set (map (?f t1) (rows db))" "w_UserSubject x = user" for x
  proof -
    from that(1) obtain y where "x = ?f t1 y" unfolding set_map by (rule imageE)
    with that(2) show ?thesis by (cases "w_UserSubject y = user \<and> w_IsDefault y") auto
  qed
  from promote_inv [OF cleared m f(1), of t2] no show ?thesis unfolding f(2,3) r by blast
qed

lemma Disable_inv:
  assumes ok: "repo_ok r rows" and inv: "wallet_inv (rows db)" and eq: "wr_Disable r user wid db = (e, db')"
  shows "wallet_inv (rows db')"
proof (cases e)
  case (Some err)
  with Disable_Some [OF ok] eq inv show ?thesis by metis
next
  case None
  have dis: "wallet_inv (disabled_rows wid t (rows db))" for t
    by (rule map_weaken_inv [OF inv]) (auto simp: keeps_keys_def split: if_splits)
  show ?thesis
  proof (rule Disable_None [OF ok eq [unfolded None]])
    fix c t assume "rows db' = disabled_rows wid t (rows db)"
    then show ?thesis using dis by simp
  next
    fix c t p t2
    assume c: "c \<in> set (rows db)" "active_wallet_of user wid c" "w_IsDefault c"
      and p: "p \<in> set (disabled_rows wid t (rows db))" "w_UserSubject p = user" "w_Status p = WalletStatusActive"
      and r: "rows db' = map (\<lambda>x. if w_ID x = w_ID p then x\<lparr>w_IsDefault := True, w_UpdatedAt := t2\<rparr> else x)
        (disabled_rows wid t (rows db))"
    have "\<not> w_IsDefault x" if "x \<in> set (disabled_rows wid t (rows db))" "w_UserSubject x = w_UserSubject p" for x
    proof
      assume d: "w_IsDefault x"
      with that(1) obtain y where y: "y \<in> set (rows db)" "w_ID y \<noteq> wid" "x = y" by (auto split: if_splits)
      have "w_ID y = w_ID c"
        by (rule inv_one_default [OF inv y(1) c(1)]) (use c d that(2) p(2) y(3) in simp_all)
      with c(2) y(2) show False by simp
    qed
    with promote_inv [OF dis p(1,3)] show ?thesis unfolding r by blast
  qed
qed

section \<open>Interleaved operations\<close>

text \<open>
  One operation of some request, on any arguments its callers may pass: a bound wallet is active,
  and a reactivated wallet is one that was read from the table (\<open>BindWallet\<close>).
\<close>

inductive repo_step :: "'db WalletRepository \<Rightarrow> ('db \<Rightarrow> Wallet list) \<Rightarrow> 'db \<Rightarrow> 'db \<Rightarrow> bool"
  for r rows where
  create: "w_Status w = WalletStatusActive \<Longrightarrow> wr_CreateBoundWallet r w db = (e, w', db') \<Longrightarrow> repo_step r rows db db'"
| reactivate: "x \<in> set (rows db) \<Longrightarrow> w_ID x = w_ID w \<Longrightarrow> w_UserSubject x = w_UserSubject w
    \<Longrightarrow> wr_Reactivate r w label now db = (e, w', db') \<Longrightarrow> repo_step r rows db db'"
| find_id: "wr_FindByID r user wid db = (res, db') \<Longrightarrow> repo_step r rows db db'"
| find_address: "wr_FindByChainAddress r chain addr db = (res, db') \<Longrightarrow> repo_step r rows db db'"
| list_user: "wr_ListActiveByUser r user db = (ress, db') \<Longrightarrow> repo_step r rows db db'"
| list_chain: "wr_ListActiveByChain r chain db = (ress, db') \<Longrightarrow> repo_step r rows db db'"
| label: "wr_UpdateLabel r user wid label db = (e, db') \<Longrightarrow> repo_step r rows db db'"
| set_default: "wr_SetDefault r user wid db = (e, db') \<Longrightarrow> repo_step r rows db db'"
| unset_default: "wr_UnsetDefault r user wid db = (e, db') \<Longrightarrow> repo_step r rows db db'"
| disable: "wr_Disable r user wid db = (e, db') \<Longrightarrow> repo_step r rows db db'"

lemma read_rows:
  assumes "repo_ok r rows"
  shows "wr_FindByID r user wid db = (res, db') \<Longrightarrow> rows db' = rows db"
    and "wr_FindByChainAddress r chain addr db = (res, db') \<Longrightarrow> rows db' = rows db"
    and "wr_ListActiveByUser r user db = (ress, db') \<Longrightarrow> rows db' = rows db"
    and "wr_ListActiveByChain r chain db = (ress, db') \<Longrightarrow> rows db' = rows db"
  using first_rows [OF assms [unfolded repo_ok_def]] find_rows [OF assms [unfolded repo_ok_def]]
  by (auto simp: wr_FindByID_def wr_FindByChainAddress_def wr_ListActiveByUser_def wr_ListActiveByChain_def)

lemma repo_step_inv:
  assumes "repo_ok r rows" "repo_step r rows db db'" "wallet_inv (rows db)"
  shows "wallet_inv (rows db')"
  using assms(2)
proof cases
  case (create w e w')
  then show ?thesis using CreateBoundWallet_inv [OF assms(1,3)] by blast
next
  case (reactivate x w label now e w')
  then show ?thesis using Reactivate_inv [OF assms(1,3)] by blast
qed (use assms read_rows [OF assms(1)] UpdateLabel_inv SetDefault_inv UnsetDefault_inv Disable_inv in \<open>metis+\<close>)

text \<open>The part of a row that no operation changes.\<close>

definition wallet_key :: "Wallet \<Rightarrow> string \<times> string \<times> u64 \<times> string" where
  "wallet_key w = (w_ID w, w_UserSubject w, w_ChainID w, w_Address w)"

lemma wallet_key_update [simp]:
  "wallet_key (w\<lparr>w_Label := l\<rparr>) = wallet_key w" "wallet_key (w\<lparr>w_Status := st\<rparr>) = wallet_key w"
  "wallet_key (w\<lparr>w_IsDefault := d\<rparr>) = wallet_key w" "wallet_key (w\<lparr>w_VerifiedAt := v\<rparr>) = wallet_key w"
  "wallet_key (w\<lparr>w_UpdatedAt := t\<rparr>) = wallet_key w"
  by (simp_all add: wallet_key_def)

lemma wallet_key_map: "(\<And>x. wallet_key (f x) = wallet_key x) \<Longrightarrow> wallet_key ` set (map f ws) = wallet_key ` set ws"
  by (auto simp: image_iff)

lemma repo_step_keys:
  assumes ok: "repo_ok r rows" and step: "repo_step r rows db db'"
  shows "wallet_key ` set (rows db) \<subseteq> wallet_key ` set (rows db')"
proof -
  have same: ?thesis if "rows db' = rows db" using that by simp
  have mapped: ?thesis if "rows db' = map f (rows db)" "\<And>x. wallet_key (f x) = wallet_key x" for f
    using wallet_key_map [of f "rows db"] that by simp
  from step show ?thesis
  proof cases
    case (create w e w')
    show ?thesis
    proof (cases e)
      case None
      show ?thesis by (rule CreateBoundWallet_None [OF ok create(2) [unfolded None]]) auto
    qed (use CreateBoundWallet_Some [OF ok] create(2) same in blast)
  next
    case (reactivate x w label now e w')
    show ?thesis
    proof (cases e)
      case None
      show ?thesis by (rule Reactivate_None [OF ok reactivate(4) [unfolded None]], erule mapped) auto
    qed (use Reactivate_Some [OF ok] reactivate(4) same in blast)
  next
    case (set_default user wid e)
    show ?thesis
    proof (cases e)
      case None
      show ?thesis
        by (rule SetDefault_None [OF ok set_default [unfolded None]], unfold map_map, erule mapped) auto
    qed (use SetDefault_Some [OF ok] set_default same in blast)
  next
    case (disable user wid e)
    show ?thesis
    proof (cases e)
      case None
      show ?thesis
      proof (rule Disable_None [OF ok disable [unfolded None]])
        fix t assume "rows db' = disabled_rows wid t (rows db)"
        then show ?thesis by (rule mapped) auto
      next
        fix t p t2
        assume "rows db' = map (\<lambda>x. if w_ID x = w_ID p then x\<lparr>w_IsDefault := True, w_UpdatedAt := t2\<rparr> else x)
          (disabled_rows wid t (rows db))"
        then show ?thesis by (unfold map_map) (erule mapped, auto)
      qed
    qed (use Disable_Some [OF ok] disable same in blast)
  next
    case (label user wid lab e)
    show ?thesis by (rule UpdateLabel_rows [OF ok label], erule same, erule mapped) auto
  next
    case (unset_default user wid e)
    show ?thesis by (rule UnsetDefault_rows [OF ok unset_default], erule same, erule mapped) auto
  qed (use read_rows [OF ok] same in blast)+
qed

interpretation wallets: table_repository repo_ok repo_step wallet_inv wallet_key
proof
  show "wallet_inv (rows db')" if "repo_ok r rows" "repo_step r rows db db'" "wallet_inv (rows db)"
    for r :: "'a WalletRepository" and rows db db'
    using that by (rule repo_step_inv)
  show "wallet_key ` set (rows db) \<subseteq> wallet_key ` set (rows db')" if "repo_ok r rows" "repo_step r rows db db'"
    for r :: "'a WalletRepository" and rows db db'
    using that by (rule repo_step_keys)
qed

section \<open>Properties\<close>

text \<open>Over any interleaving of repository operations, of any users and with any database errors,
  the table keeps its invariant: unique IDs, one binding per chain and address, default wallets are
  active, and at most one default wallet per user; and no binding changes its owner, chain or
  address or disappears.\<close>

theorem wallet_table_invariant:
  assumes "repo_ok r rows" and "wallet_inv (rows db)" and "(repo_step r rows)\<^sup>*\<^sup>* db db'"
  shows "wallet_inv (rows db') \<and> wallet_key ` set (rows db) \<subseteq> wallet_key ` set (rows db')"
  using wallets.steps_inv [OF assms(3,1,2)] .

text \<open>A repository over a list of rows, for the concrete instances.\<close>

definition list_repo :: "Wallet list WalletRepository" where
  "list_repo = \<lparr>wr_db = list_gorm id (\<lambda>rs _. rs) 7 (wallet_table id)\<rparr>"

lemma list_repo_ok: "repo_ok list_repo id"
  by (simp add: repo_ok_def list_repo_def list_gorm_ok)

definition sample_wallet :: "string \<Rightarrow> string \<Rightarrow> string \<Rightarrow> bool \<Rightarrow> time \<Rightarrow> Wallet" where
  "sample_wallet i user addr d t = zero_wallet\<lparr>w_ID := i, w_UserSubject := user, w_ChainID := 1, w_Address := addr,
     w_Status := WalletStatusActive, w_IsDefault := d, w_CreatedAt := t\<rparr>"

lemmas list_repo_simps = list_repo_def list_gorm_def wallet_table_def lockWalletOwner_def check_err_def
  check_res_def update_error_def sort_by_def sample_wallet_def zero_wallet_def zero_time_def
  WalletStatusActive_def WalletStatusDisabled_def not_found_def

theorem wallet_table_invariant_witness:
  "\<exists>db. (repo_step list_repo id)\<^sup>*\<^sup>* [sample_wallet ''a'' ''u'' ''x'' True 1, sample_wallet ''b'' ''u'' ''y'' False 2] db
     \<and> wallet_inv db \<and> map w_IsDefault db = [False, True]"
proof -
  let ?db = "[sample_wallet ''a'' ''u'' ''x'' True 1, sample_wallet ''b'' ''u'' ''y'' False 2]"
  obtain db e where d: "wr_Disable list_repo ''u'' ''a'' ?db = (e, db)" by fastforce
  then have "repo_step list_repo id ?db db" by (rule repo_step.disable)
  then have steps: "(repo_step list_repo id)\<^sup>*\<^sup>* ?db db" by blast
  have "wallet_inv (id ?db)" by (simp add: wallet_inv_def list_repo_simps)
  from wallet_table_invariant [OF list_repo_ok, OF this steps] have "wallet_inv db" by simp
  moreover have "map w_IsDefault (snd (wr_Disable list_repo ''u'' ''a'' ?db)) = [False, True]"
    by (simp add: wr_Disable_def list_repo_simps created_first_def)
  ultimately show ?thesis using steps d by (metis snd_conv)
qed

text \<open>What is left to a user without one wallet: the other active ones, and the oldest of them.\<close>

definition other_active :: "string \<Rightarrow> string \<Rightarrow> Wallet list \<Rightarrow> Wallet set" where
  "other_active user wid ws = {x \<in> set ws. w_ID x \<noteq> wid \<and> w_UserSubject x = user \<and> w_Status x = WalletStatusActive}"

definition oldest :: "Wallet set \<Rightarrow> Wallet \<Rightarrow> bool" where
  "oldest X p \<longleftrightarrow> p \<in> X \<and> (\<forall>x \<in> X. w_CreatedAt p \<le> w_CreatedAt x)"

text \<open>C13: unbinding a wallet disables exactly that wallet of that user. If it was the default and the user has
  other active wallets, the oldest of them gets the default mark (and its \<open>updated_at\<close>); every other row of the
  table, the user's own wallets included, stays as it is, field by field.\<close>

theorem Disable_reelects:
  assumes ok: "repo_ok r rows" and inv: "wallet_inv (rows db)"
    and eq: "wr_Disable r user wid db = (None, db')"
  shows "\<exists>c t. c \<in> set (rows db) \<and> active_wallet_of user wid c \<and> {x \<in> set (rows db). w_ID x = wid} = {c}
    \<and> (if w_IsDefault c \<and> other_active user wid (rows db) \<noteq> {}
       then \<exists>p t'. oldest (other_active user wid (rows db)) p
         \<and> rows db' = map (\<lambda>x. if x = c then x\<lparr>w_Status := WalletStatusDisabled, w_IsDefault := False, w_UpdatedAt := t\<rparr>
              else if x = p then x\<lparr>w_IsDefault := True, w_UpdatedAt := t'\<rparr> else x) (rows db)
       else rows db' = map (\<lambda>x. if x = c then x\<lparr>w_Status := WalletStatusDisabled, w_IsDefault := False, w_UpdatedAt := t\<rparr>
              else x) (rows db))"
proof (rule Disable_None [OF ok eq])
  fix c t
  assume c: "c \<in> set (rows db)" "active_wallet_of user wid c"
    and d: "\<not> w_IsDefault c \<or> (\<forall>x \<in> set (disabled_rows wid t (rows db)).
          w_UserSubject x = user \<longrightarrow> w_Status x \<noteq> WalletStatusActive)"
    and r: "rows db' = disabled_rows wid t (rows db)"
  have same: "w_ID x = wid \<longleftrightarrow> x = c" if "x \<in> set (rows db)" for x
    using inv_same_id [OF inv that c(1)] c(2) by auto
  have "\<not> (w_IsDefault c \<and> other_active user wid (rows db) \<noteq> {})"
  proof
    assume *: "w_IsDefault c \<and> other_active user wid (rows db) \<noteq> {}"
    then obtain x where x: "x \<in> set (rows db)" "w_ID x \<noteq> wid" "w_UserSubject x = user" "w_Status x = WalletStatusActive"
      unfolding other_active_def by blast
    have "x \<in> set (disabled_rows wid t (rows db))" unfolding set_map by (rule image_eqI [OF _ x(1)]) (simp add: x(2))
    with d * x(3,4) show False by blast
  qed
  moreover have "rows db' = map (\<lambda>x. if x = c then x\<lparr>w_Status := WalletStatusDisabled, w_IsDefault := False, w_UpdatedAt := t\<rparr>
      else x) (rows db)"
    unfolding r by (rule map_cong [OF refl]) (simp only: same)
  moreover have "{x \<in> set (rows db). w_ID x = wid} = {c}" using same c(1) by blast
  ultimately show ?thesis using c
    by (intro exI [of _ c] exI [of _ t] conjI) (assumption, simp_all only: if_not_P if_False)
next
  fix c p :: Wallet and t t2
  assume c: "c \<in> set (rows db)" "active_wallet_of user wid c" "w_IsDefault c"
    and p: "p \<in> set (disabled_rows wid t (rows db))" "w_UserSubject p = user" "w_Status p = WalletStatusActive"
    and old: "\<forall>x \<in> set (disabled_rows wid t (rows db)).
          w_UserSubject x = user \<longrightarrow> w_Status x = WalletStatusActive \<longrightarrow> w_CreatedAt p \<le> w_CreatedAt x"
    and r: "rows db' = map (\<lambda>x. if w_ID x = w_ID p then x\<lparr>w_IsDefault := True, w_UpdatedAt := t2\<rparr> else x)
        (disabled_rows wid t (rows db))"
  have same: "w_ID x = wid \<longleftrightarrow> x = c" if "x \<in> set (rows db)" for x
    using inv_same_id [OF inv that c(1)] c(2) by auto
  from p(1) obtain q where q: "q \<in> set (rows db)"
    "p = (if w_ID q = wid then q\<lparr>w_Status := WalletStatusDisabled, w_IsDefault := False, w_UpdatedAt := t\<rparr> else q)"
    unfolding set_map by (rule imageE)
  have qid: "w_ID q \<noteq> wid"
    using q(2) p(3) by (auto simp: WalletStatusActive_def WalletStatusDisabled_def split: if_splits)
  then have pq: "p = q" using q(2) by simp
  have same': "w_ID x = w_ID p \<longleftrightarrow> x = p" if "x \<in> set (rows db)" for x
    using inv_same_id [OF inv that q(1)] unfolding pq by auto
  have mem: "p \<in> other_active user wid (rows db)" using q(1) qid p(2,3) unfolding other_active_def pq by blast
  have "w_CreatedAt p \<le> w_CreatedAt x" if "x \<in> other_active user wid (rows db)" for x
  proof -
    have x: "x \<in> set (rows db)" "w_ID x \<noteq> wid" "w_UserSubject x = user" "w_Status x = WalletStatusActive"
      using that unfolding other_active_def by simp_all
    have "x \<in> set (disabled_rows wid t (rows db))" unfolding set_map by (rule image_eqI [OF _ x(1)]) (simp add: x(2))
    with old x(3,4) show ?thesis by blast
  qed
  with mem have oldest: "oldest (other_active user wid (rows db)) p" unfolding oldest_def by blast
  have rows: "rows db' = map (\<lambda>x. if x = c then x\<lparr>w_Status := WalletStatusDisabled, w_IsDefault := False, w_UpdatedAt := t\<rparr>
      else if x = p then x\<lparr>w_IsDefault := True, w_UpdatedAt := t2\<rparr> else x) (rows db)"
    unfolding r map_map
  proof (rule map_cong [OF refl])
    fix x assume x: "x \<in> set (rows db)"
    have "w_ID c \<noteq> w_ID p" using qid pq c(2) by simp
    then show "((\<lambda>x. if w_ID x = w_ID p then x\<lparr>w_IsDefault := True, w_UpdatedAt := t2\<rparr> else x)
        \<circ> (\<lambda>x. if w_ID x = wid then x\<lparr>w_Status := WalletStatusDisabled, w_IsDefault := False, w_UpdatedAt := t\<rparr> else x)) x
      = (if x = c then x\<lparr>w_Status := WalletStatusDisabled, w_IsDefault := False, w_UpdatedAt := t\<rparr>
        else if x = p then x\<lparr>w_IsDefault := True, w_UpdatedAt := t2\<rparr> else x)"
      using same [OF x] same' [OF x] by (cases "x = c") auto
  qed
  have "w_IsDefault c \<and> other_active user wid (rows db) \<noteq> {}" using c(3) mem by blast
  moreover have "{x \<in> set (rows db). w_ID x = wid} = {c}" using same c(1) by blast
  ultimately show ?thesis using c(1,2) oldest rows
    by (intro exI [of _ c] exI [of _ t] conjI) (assumption, simp_all only: if_P if_True simp_thms, blast)
qed

text \<open>The default \<open>a\<close> is unbound; of the three wallets left, the older one of the same user inherits the mark.\<close>

theorem Disable_reelects_witness:
  "\<exists>db' t. wr_Disable list_repo ''u'' ''a''
      [sample_wallet ''a'' ''u'' ''x'' True 1, sample_wallet ''b'' ''u'' ''y'' False 3,
       sample_wallet ''c'' ''u'' ''z'' False 2, sample_wallet ''d'' ''v'' ''w'' True 1] = (None, db')
    \<and> map w_IsDefault db' = [False, False, True, True] \<and> map w_Status db' = [2, 1, 1, 1]
    \<and> (sample_wallet ''a'' ''u'' ''x'' False 1)\<lparr>w_Status := WalletStatusDisabled, w_UpdatedAt := t\<rparr> \<in> set db'"
proof -
  let ?db = "[sample_wallet ''a'' ''u'' ''x'' True 1, sample_wallet ''b'' ''u'' ''y'' False 3,
       sample_wallet ''c'' ''u'' ''z'' False 2, sample_wallet ''d'' ''v'' ''w'' True 1]"
  let ?r = "wr_Disable list_repo ''u'' ''a'' ?db"
  have f: "fst ?r = None" "map w_IsDefault (snd ?r) = [False, False, True, True]" "map w_Status (snd ?r) = [2, 1, 1, 1]"
    by (simp_all add: wr_Disable_def list_repo_simps created_first_def)
  from f(1) have d: "?r = (None, snd ?r)" by (metis prod.collapse)
  have inv: "wallet_inv (id ?db)" by (simp add: wallet_inv_def list_repo_simps)
  from Disable_reelects [OF list_repo_ok, OF inv d, unfolded id_apply] obtain c t where
    c: "c \<in> set ?db" "active_wallet_of ''u'' ''a'' c"
    and e: "if w_IsDefault c \<and> other_active ''u'' ''a'' ?db \<noteq> {}
      then \<exists>p t'. oldest (other_active ''u'' ''a'' ?db) p
         \<and> snd ?r = map (\<lambda>x. if x = c then x\<lparr>w_Status := WalletStatusDisabled, w_IsDefault := False, w_UpdatedAt := t\<rparr>
              else if x = p then x\<lparr>w_IsDefault := True, w_UpdatedAt := t'\<rparr> else x) ?db
       else snd ?r = map (\<lambda>x. if x = c then x\<lparr>w_Status := WalletStatusDisabled, w_IsDefault := False, w_UpdatedAt := t\<rparr>
              else x) ?db" by blast
  have "c = sample_wallet ''a'' ''u'' ''x'' True 1" using c(1,2) by (auto simp: sample_wallet_def)
  then have "(sample_wallet ''a'' ''u'' ''x'' False 1)\<lparr>w_Status := WalletStatusDisabled, w_UpdatedAt := t\<rparr>
      = c\<lparr>w_Status := WalletStatusDisabled, w_IsDefault := False, w_UpdatedAt := t\<rparr>" by (simp add: sample_wallet_def)
  moreover have "c\<lparr>w_Status := WalletStatusDisabled, w_IsDefault := False, w_UpdatedAt := t\<rparr> \<in> set (snd ?r)"
  proof (cases "w_IsDefault c \<and> other_active ''u'' ''a'' ?db \<noteq> {}")
    case True
    with e obtain p t' where r: "snd ?r = map (\<lambda>x. if x = c then x\<lparr>w_Status := WalletStatusDisabled, w_IsDefault := False, w_UpdatedAt := t\<rparr>
        else if x = p then x\<lparr>w_IsDefault := True, w_UpdatedAt := t'\<rparr> else x) ?db" unfolding if_P [OF True] by blast
    show ?thesis unfolding r set_map by (rule image_eqI [OF _ c(1)]) (simp only: if_True simp_thms)
  next
    case False
    show ?thesis unfolding e [unfolded if_not_P [OF False]] set_map by (rule image_eqI [OF _ c(1)]) (simp only: if_True simp_thms)
  qed
  ultimately show ?thesis using d f by metis
qed

text \<open>After \<open>SetDefault\<close> succeeds, the chosen wallet is an active wallet of the user and is the
  user's only default wallet.\<close>

theorem SetDefault_exact:
  assumes ok: "repo_ok r rows" and inv: "wallet_inv (rows db)"
    and eq: "wr_SetDefault r user wid db = (None, db')"
  shows "\<exists>c \<in> set (rows db'). active_wallet_of user wid c
    \<and> {x \<in> set (rows db'). w_UserSubject x = user \<and> w_IsDefault x} = {c}"
proof -
  have inv': "wallet_inv (rows db')" by (rule SetDefault_inv [OF ok inv eq])
  obtain t1 t2 where ex: "\<exists>x \<in> set (rows db). active_wallet_of user wid x"
    and r: "rows db' = map (\<lambda>x. if w_ID x = wid then x\<lparr>w_IsDefault := True, w_UpdatedAt := t2\<rparr> else x)
      (map (\<lambda>x. if w_UserSubject x = user \<and> w_IsDefault x
        then x\<lparr>w_IsDefault := False, w_UpdatedAt := t1\<rparr> else x) (rows db))"
    by (rule SetDefault_None [OF ok eq])
  from ex obtain x where x: "x \<in> set (rows db)" "active_wallet_of user wid x" by blast
  let ?c = "(if w_IsDefault x then x\<lparr>w_IsDefault := False, w_UpdatedAt := t1\<rparr> else x)\<lparr>w_IsDefault := True, w_UpdatedAt := t2\<rparr>"
  have c: "?c \<in> set (rows db')" unfolding r set_map by (rule image_eqI [OF _ image_eqI [OF refl x(1)]]) (use x(2) in auto)
  have a: "active_wallet_of user wid ?c" "w_IsDefault ?c" using x(2) by auto
  have "y = ?c" if "y \<in> set (rows db')" "w_UserSubject y = user" "w_IsDefault y" for y
    using inv_same_id [OF inv' that(1) c] inv_one_default [OF inv' that(1) c that(3) a(2)] that(2) a(1) by simp
  with a c have "{y \<in> set (rows db'). w_UserSubject y = user \<and> w_IsDefault y} = {?c}" by blast
  with a(1) c show ?thesis by blast
qed

theorem SetDefault_exact_witness:
  "\<exists>db' c. wr_SetDefault list_repo ''u'' ''b''
      [sample_wallet ''a'' ''u'' ''x'' True 1, sample_wallet ''b'' ''u'' ''y'' False 2] = (None, db')
    \<and> w_ID c = ''b'' \<and> {x \<in> set db'. w_UserSubject x = ''u'' \<and> w_IsDefault x} = {c}"
proof -
  let ?db = "[sample_wallet ''a'' ''u'' ''x'' True 1, sample_wallet ''b'' ''u'' ''y'' False 2]"
  obtain db' where d: "wr_SetDefault list_repo ''u'' ''b'' ?db = (None, db')"
    by (simp add: wr_SetDefault_def list_repo_simps)
  have "wallet_inv (id ?db)" by (simp add: wallet_inv_def list_repo_simps)
  from SetDefault_exact [OF list_repo_ok, OF this d] d show ?thesis by auto
qed

text \<open>Reactivating a wallet that is active and default already (as when two requests to bind the
  same unbound wallet again run one after the other) takes its default mark away, and the user has
  no default wallet although \<open>Reactivate\<close> is documented to set one when there is none.\<close>

theorem Reactivate_clears_default:
  "\<exists>db1 w1 db2 w2. wr_Reactivate list_repo (sample_wallet ''a'' ''u'' ''x'' False 1) [] 5
      [(sample_wallet ''a'' ''u'' ''x'' False 1)\<lparr>w_Status := WalletStatusDisabled\<rparr>] = (None, w1, db1)
    \<and> map w_IsDefault db1 = [True]
    \<and> wr_Reactivate list_repo (sample_wallet ''a'' ''u'' ''x'' False 1) [] 5 db1 = (None, w2, db2)
    \<and> map w_IsDefault db2 = [False] \<and> map w_Status db2 = [WalletStatusActive]"
  by (simp add: wr_Reactivate_def list_repo_simps)

end
