(* ===== verification/Admin_Repo.thy ===== *)
theory Admin_Repo
  imports Gorm_Upsert Wallet_Repo
begin

text \<open>
  The administrators: \<open>admin/internal/model/admin.go\<close> and \<open>admin/internal/repository/admin.go\<close>. Rows are deleted softly, so
  every query skips rows with a \<open>DeletedAt\<close>, while the unique indexes cover all rows; \<open>ar_Delete\<close> is the soft deletion of the
  library, which sets that column alone, of the row with an ID. The roles are rows of other tables:
  \<open>ar_Preload\<close> reads them for the administrators that were found and \<open>ar_ReplaceRoles\<close> replaces the association. The
  table fills in the ID, the time stamps and, because GORM leaves zero values of columns with a default to the database,
  the default status.
\<close>

section \<open>Rows\<close>

definition AdminStatusDisabled :: int where "AdminStatusDisabled = 0"
definition AdminStatusEnabled :: int where "AdminStatusEnabled = 1"

record RoleModel =
  ro_ID :: u64
  ro_Name :: string
  ro_Code :: string
  ro_Desc :: string
  ro_Status :: int

record AdminModel =
  ad_ID :: u64
  ad_CreatedAt :: time
  ad_UpdatedAt :: time
  ad_DeletedAt :: "time option"
  ad_KeycloakSubject :: "string option"
  ad_Username :: string
  ad_PasswordHash :: string
  ad_Nickname :: string
  ad_Avatar :: string
  ad_Phone :: "string option"
  ad_Email :: "string option"
  ad_Status :: int
  ad_Roles :: "RoleModel list"

definition IsEnabled :: "AdminModel \<Rightarrow> bool" where
  "IsEnabled a \<longleftrightarrow> ad_Status a = AdminStatusEnabled"

text \<open>Null is equal to nothing in a unique index. \<open>ids t\<close> is the value of the sequence for a row inserted at \<open>t\<close>.\<close>

definition same_some :: "'a option \<Rightarrow> 'a option \<Rightarrow> bool" where
  "same_some a b \<longleftrightarrow> a \<noteq> None \<and> a = b"

definition admin_conflict :: "AdminModel \<Rightarrow> AdminModel \<Rightarrow> bool" where
  "admin_conflict x y \<longleftrightarrow> ad_ID x = ad_ID y \<or> same_some (ad_KeycloakSubject x) (ad_KeycloakSubject y)
     \<or> ad_Username x = ad_Username y \<or> same_some (ad_Phone x) (ad_Phone y) \<or> same_some (ad_Email x) (ad_Email y)"

definition admin_table :: "(time \<Rightarrow> u64) \<Rightarrow> ('db \<Rightarrow> AdminModel list) \<Rightarrow> ('db, AdminModel) table_spec" where
  "admin_table ids rows =
    \<lparr>t_rows = rows, t_conflict = admin_conflict,
     t_fill = (\<lambda>t x. x\<lparr>ad_ID := (if ad_ID x = 0 then ids t else ad_ID x),
                       ad_CreatedAt := (if ad_CreatedAt x = zero_time then t else ad_CreatedAt x),
                       ad_UpdatedAt := (if ad_UpdatedAt x = zero_time then t else ad_UpdatedAt x),
                       ad_Status := (if ad_Status x = 0 then 1 else ad_Status x)\<rparr>),
     t_touch = (\<lambda>t x. x\<lparr>ad_UpdatedAt := t\<rparr>)\<rparr>"

section \<open>Operations\<close>

record 'db AdminRepository =
  ar_admins :: "('db, AdminModel, unit) gorm_up"
  ar_Delete :: "u64 \<Rightarrow> 'db \<Rightarrow> (go_error + nat) \<times> 'db"
  ar_Preload :: "u64 list \<Rightarrow> 'db \<Rightarrow> (go_error + (u64 \<Rightarrow> RoleModel list)) \<times> 'db"
  ar_ReplaceRoles :: "u64 \<Rightarrow> u64 list \<Rightarrow> 'db \<Rightarrow> go_error option \<times> 'db"

definition live_admin :: "AdminModel \<Rightarrow> bool" where
  "live_admin x \<longleftrightarrow> ad_DeletedAt x = None"

definition by_id :: "AdminModel \<Rightarrow> AdminModel \<Rightarrow> bool" where
  "by_id x y \<longleftrightarrow> ad_ID x < ad_ID y"

definition Admin_Create :: "'db AdminRepository \<Rightarrow> AdminModel option \<Rightarrow> 'db \<Rightarrow> go_error option \<times> 'db" where
  "Admin_Create r admin db =
    (case admin of
       None \<Rightarrow> (Some (InvalidArgument ''admin is nil''), db)
     | Some a \<Rightarrow> (case g_create (ar_admins r) (a\<lparr>ad_Roles := []\<rparr>) db of (err, _, db) \<Rightarrow> (err, db)))"

text \<open>\<open>Preload("Roles")\<close> before \<open>First\<close>.\<close>

definition first_with_roles :: "'db AdminRepository \<Rightarrow> (AdminModel \<Rightarrow> bool) \<Rightarrow> 'db \<Rightarrow> (go_error + AdminModel) \<times> 'db" where
  "first_with_roles r P db =
    (case g_first (ar_admins r) (\<lambda>x. P x \<and> live_admin x) by_id db of
       (Inl err, db) \<Rightarrow> (Inl err, db)
     | (Inr a, db) \<Rightarrow>
         (case ar_Preload r [ad_ID a] db of
            (Inl err, db) \<Rightarrow> (Inl err, db)
          | (Inr roles, db) \<Rightarrow> (Inr (a\<lparr>ad_Roles := roles (ad_ID a)\<rparr>), db)))"

definition FindByKeycloakSubject :: "'db AdminRepository \<Rightarrow> string \<Rightarrow> 'db \<Rightarrow> (go_error + AdminModel) \<times> 'db" where
  "FindByKeycloakSubject r subject db =
    (let subject = TrimSpace subject
     in if subject = [] then (Inl (InvalidArgument ''Keycloak subject is required''), db)
        else first_with_roles r (\<lambda>x. ad_KeycloakSubject x = Some subject) db)"

definition Admin_FindByID :: "'db AdminRepository \<Rightarrow> u64 \<Rightarrow> 'db \<Rightarrow> (go_error + AdminModel) \<times> 'db" where
  "Admin_FindByID r i db =
    (if i = 0 then (Inl (InvalidArgument ''admin ID is required''), db) else first_with_roles r (\<lambda>x. ad_ID x = i) db)"

definition BindKeycloakSubject :: "'db AdminRepository \<Rightarrow> u64 \<Rightarrow> string \<Rightarrow> 'db \<Rightarrow> go_error option \<times> 'db" where
  "BindKeycloakSubject r adminID subject db =
    (let subject = TrimSpace subject
     in if adminID = 0 \<or> subject = [] then (Some (InvalidArgument ''admin ID and Keycloak subject are required''), db)
        else
          (case g_update (ar_admins r) (\<lambda>x. ad_ID x = adminID \<and> ad_KeycloakSubject x = None \<and> live_admin x)
                  (\<lambda>x. x\<lparr>ad_KeycloakSubject := Some subject\<rparr>) db of
             (Inl err, db) \<Rightarrow> (Some err, db)
           | (Inr n, db) \<Rightarrow> (if n = 0 then Some not_found else None, db)))"

definition Admin_FindByUsername :: "'db AdminRepository \<Rightarrow> string \<Rightarrow> 'db \<Rightarrow> (go_error + AdminModel) \<times> 'db" where
  "Admin_FindByUsername r username db =
    (let username = TrimSpace username
     in if username = [] then (Inl (InvalidArgument ''admin username is required''), db)
        else first_with_roles r (\<lambda>x. ad_Username x = username) db)"

definition Admin_List :: "'db AdminRepository \<Rightarrow> int \<Rightarrow> int \<Rightarrow> 'db \<Rightarrow> (go_error + AdminModel list \<times> nat) \<times> 'db" where
  "Admin_List r offset lmt db =
    (if offset < 0 then (Inl (InvalidArgument ''offset cannot be negative''), db)
     else if lmt < 1 \<or> 100 < lmt then (Inl (InvalidArgument ''limit must be between 1 and 100''), db)
     else
       (case g_count (ar_admins r) live_admin db of
          (Inl err, db) \<Rightarrow> (Inl err, db)
        | (Inr n, db) \<Rightarrow>
            (case g_page (ar_admins r) live_admin (\<lambda>x y. ad_ID y < ad_ID x) offset lmt db of
               (Inl err, db) \<Rightarrow> (Inl err, db)
             | (Inr found, db) \<Rightarrow>
                 if found = [] then (Inr ([], n), db)
                 else
                   (case ar_Preload r (map ad_ID found) db of
                      (Inl err, db) \<Rightarrow> (Inl err, db)
                    | (Inr roles, db) \<Rightarrow> (Inr (map (\<lambda>x. x\<lparr>ad_Roles := roles (ad_ID x)\<rparr>) found, n), db)))))"

text \<open>The columns that \<open>Select\<close> names are written even when they are zero.\<close>

definition Admin_Update :: "'db AdminRepository \<Rightarrow> AdminModel option \<Rightarrow> 'db \<Rightarrow> go_error option \<times> 'db" where
  "Admin_Update r admin db =
    (case admin of
       None \<Rightarrow> (Some (InvalidArgument ''admin with a valid ID is required''), db)
     | Some a \<Rightarrow>
         if ad_ID a = 0 then (Some (InvalidArgument ''admin with a valid ID is required''), db)
         else
           (case g_update (ar_admins r) (\<lambda>x. ad_ID x = ad_ID a \<and> live_admin x)
                   (\<lambda>x. x\<lparr>ad_Username := ad_Username a, ad_PasswordHash := ad_PasswordHash a, ad_Nickname := ad_Nickname a,
                     ad_Avatar := ad_Avatar a, ad_Phone := ad_Phone a, ad_Email := ad_Email a, ad_Status := ad_Status a\<rparr>) db of
              (Inl err, db) \<Rightarrow> (Some err, db)
            | (Inr n, db) \<Rightarrow> (if n = 0 then Some not_found else None, db)))"

definition Admin_Delete :: "'db AdminRepository \<Rightarrow> u64 \<Rightarrow> 'db \<Rightarrow> go_error option \<times> 'db" where
  "Admin_Delete r i db =
    (if i = 0 then (Some (InvalidArgument ''admin ID is required''), db)
     else
       (case ar_Delete r i db of
          (Inl err, db) \<Rightarrow> (Some err, db)
        | (Inr n, db) \<Rightarrow> (if n = 0 then Some not_found else None, db)))"

definition Admin_ReplaceRoles :: "'db AdminRepository \<Rightarrow> u64 \<Rightarrow> u64 list \<Rightarrow> 'db \<Rightarrow> go_error option \<times> 'db" where
  "Admin_ReplaceRoles r adminID roleIDs db =
    (if adminID = 0 then (Some (InvalidArgument ''admin ID is required''), db)
     else if 0 \<in> set roleIDs then (Some (InvalidArgument ''role ID is required''), db)
     else ar_ReplaceRoles r adminID roleIDs db)"

section \<open>The table under any interleaving\<close>

text \<open>The unique indexes hold.\<close>

definition admin_inv :: "AdminModel list \<Rightarrow> bool" where
  "admin_inv xs \<longleftrightarrow> sorted_wrt (\<lambda>x y. \<not> admin_conflict x y) xs"

text \<open>What the database promises: a unique index also refuses an update, and reading roles or replacing them leaves the
  administrators as they are. A failed \<open>Create\<close> inserts nothing.\<close>

definition admin_repo_ok :: "(time \<Rightarrow> u64) \<Rightarrow> ('db \<Rightarrow> AdminModel list) \<Rightarrow> 'db AdminRepository \<Rightarrow> bool" where
  "admin_repo_ok ids rows r \<longleftrightarrow> gorm_up_ok (ar_admins r) (admin_table ids rows)
     \<and> (\<forall>P f db n db'. g_update (ar_admins r) P f db = (Inr n, db') \<longrightarrow> admin_inv (rows db) \<longrightarrow> admin_inv (rows db'))
     \<and> (\<forall>i db res db'. ar_Delete r i db = (res, db') \<longrightarrow>
          (case res of Inl _ \<Rightarrow> rows db' = rows db
           | Inr n \<Rightarrow> n = length (filter (\<lambda>x. ad_ID x = i \<and> live_admin x) (rows db))
               \<and> (\<exists>t. rows db' = map (\<lambda>x. if ad_ID x = i \<and> live_admin x then x\<lparr>ad_DeletedAt := Some t\<rparr> else x) (rows db))))
     \<and> (\<forall>xs db res db'. ar_Preload r xs db = (res, db') \<longrightarrow> rows db' = rows db)
     \<and> (\<forall>i xs db e db'. ar_ReplaceRoles r i xs db = (e, db') \<longrightarrow> rows db' = rows db)"

inductive admin_step :: "'db AdminRepository \<Rightarrow> ('db \<Rightarrow> AdminModel list) \<Rightarrow> 'db \<Rightarrow> 'db \<Rightarrow> bool"
  for r rows where
  create: "Admin_Create r a db = (e, db') \<Longrightarrow> admin_step r rows db db'"
| find_subject: "FindByKeycloakSubject r s db = (res, db') \<Longrightarrow> admin_step r rows db db'"
| find_id: "Admin_FindByID r i db = (res, db') \<Longrightarrow> admin_step r rows db db'"
| find_name: "Admin_FindByUsername r s db = (res, db') \<Longrightarrow> admin_step r rows db db'"
| bind: "BindKeycloakSubject r i s db = (e, db') \<Longrightarrow> admin_step r rows db db'"
| list: "Admin_List r off lmt db = (ress, db') \<Longrightarrow> admin_step r rows db db'"
| update: "Admin_Update r a db = (e, db') \<Longrightarrow> admin_step r rows db db'"
| delete: "Admin_Delete r i db = (e, db') \<Longrightarrow> admin_step r rows db db'"
| roles: "Admin_ReplaceRoles r i xs db = (e, db') \<Longrightarrow> admin_step r rows db db'"

lemma admin_table_simps [simp]:
  "t_rows (admin_table ids rows) = rows" "t_conflict (admin_table ids rows) = admin_conflict"
  "ad_Status (t_fill (admin_table ids rows) t x) = (if ad_Status x = 0 then 1 else ad_Status x)"
  "ad_ID (t_touch (admin_table ids rows) t x) = ad_ID x"
  "ad_KeycloakSubject (t_touch (admin_table ids rows) t x) = ad_KeycloakSubject x"
  "ad_KeycloakSubject (t_fill (admin_table ids rows) t x) = ad_KeycloakSubject x"
  by (simp_all add: admin_table_def)

text \<open>What an operation does to the rows: nothing, one new row, or a change of rows that keeps IDs and subjects that are set.\<close>

definition keeps_admins :: "AdminModel list \<Rightarrow> AdminModel list \<Rightarrow> bool" where
  "keeps_admins xs ys \<longleftrightarrow> (\<forall>x \<in> set xs. \<exists>y \<in> set ys. ad_ID y = ad_ID x \<and> (ad_KeycloakSubject x \<noteq> None \<longrightarrow> ad_KeycloakSubject y = ad_KeycloakSubject x))"

lemma keeps_admins_refl [simp]: "keeps_admins xs xs" by (auto simp: keeps_admins_def)

lemma keeps_adminsD:
  assumes "keeps_admins xs ys" "x \<in> set xs"
  obtains y where "y \<in> set ys" "ad_ID y = ad_ID x" "ad_KeycloakSubject x \<noteq> None \<longrightarrow> ad_KeycloakSubject y = ad_KeycloakSubject x"
  using assms unfolding keeps_admins_def by blast

lemma keeps_admins_trans:
  assumes "keeps_admins xs ys" "keeps_admins ys zs"
  shows "keeps_admins xs zs"
  unfolding keeps_admins_def
proof
  fix x assume "x \<in> set xs"
  then obtain y where y: "y \<in> set ys" "ad_ID y = ad_ID x" "ad_KeycloakSubject x \<noteq> None \<longrightarrow> ad_KeycloakSubject y = ad_KeycloakSubject x"
    by (rule keeps_adminsD [OF assms(1)])
  obtain z where z: "z \<in> set zs" "ad_ID z = ad_ID y" "ad_KeycloakSubject y \<noteq> None \<longrightarrow> ad_KeycloakSubject z = ad_KeycloakSubject y"
    by (rule keeps_adminsD [OF assms(2) y(1)])
  from y z have "ad_ID z = ad_ID x \<and> (ad_KeycloakSubject x \<noteq> None \<longrightarrow> ad_KeycloakSubject z = ad_KeycloakSubject x)" by simp
  with z(1) show "\<exists>z \<in> set zs. ad_ID z = ad_ID x \<and> (ad_KeycloakSubject x \<noteq> None \<longrightarrow> ad_KeycloakSubject z = ad_KeycloakSubject x)" ..
qed

lemma keeps_admins_IDs:
  assumes "keeps_admins xs ys"
  shows "ad_ID ` set xs \<subseteq> ad_ID ` set ys"
proof
  fix i assume "i \<in> ad_ID ` set xs"
  then obtain x where x: "x \<in> set xs" "i = ad_ID x" ..
  obtain y where y: "y \<in> set ys" "ad_ID y = ad_ID x" by (rule keeps_adminsD [OF assms x(1)])
  have "i = ad_ID y" using x(2) y(2) by simp
  then show "i \<in> ad_ID ` set ys" using y(1) by (rule image_eqI)
qed

lemma admin_repo_okD:
  assumes "admin_repo_ok ids rows r"
  shows "gorm_ok (gorm.truncate (ar_admins r)) (admin_table ids rows)" "gorm_up_ok (ar_admins r) (admin_table ids rows)"
    "g_update (ar_admins r) P f db = (Inr n, db') \<Longrightarrow> admin_inv (rows db) \<Longrightarrow> admin_inv (rows db')"
    "ar_Preload r xs db = (pre, db') \<Longrightarrow> rows db' = rows db"
    "ar_ReplaceRoles r i xs db = (e, db') \<Longrightarrow> rows db' = rows db"
  using assms up_truncate unfolding admin_repo_ok_def by blast+

lemma Delete_rows:
  assumes "admin_repo_ok ids rows r" "ar_Delete r i db = (res, db')"
  shows "rows db' = rows db
    \<or> (\<exists>t. rows db' = map (\<lambda>x. if ad_ID x = i \<and> live_admin x then x\<lparr>ad_DeletedAt := Some t\<rparr> else x) (rows db))"
proof -
  have "case res of Inl _ \<Rightarrow> rows db' = rows db
    | Inr n \<Rightarrow> n = length (filter (\<lambda>x. ad_ID x = i \<and> live_admin x) (rows db))
        \<and> (\<exists>t. rows db' = map (\<lambda>x. if ad_ID x = i \<and> live_admin x then x\<lparr>ad_DeletedAt := Some t\<rparr> else x) (rows db))"
    using assms unfolding admin_repo_ok_def by blast
  then show ?thesis by (cases res) simp_all
qed

lemma first_with_roles_rows:
  assumes "admin_repo_ok ids rows r" "first_with_roles r P db = (res, db')"
  shows "rows db' = rows db"
    "res = Inr a \<Longrightarrow> \<exists>x rs. x \<in> set (rows db) \<and> P x \<and> live_admin x \<and> a = x\<lparr>ad_Roles := rs\<rparr>"
proof -
  obtain f db1 where f: "g_first (ar_admins r) (\<lambda>x. P x \<and> live_admin x) by_id db = (f, db1)" by fastforce
  note G = admin_repo_okD(1) [OF assms(1)]
  have rows1: "rows db1 = rows db" using first_rows [OF G] f by fastforce
  have found: "x \<in> set (rows db) \<and> P x \<and> live_admin x" if "f = Inr x" for x
    using first_Inr [OF G, of _ by_id db x db1] f that by fastforce
  show "rows db' = rows db"
    using assms(2) f rows1 admin_repo_okD(4) [OF assms(1)]
    by (auto simp: first_with_roles_def split: sum.splits prod.splits)
  show "\<exists>x rs. x \<in> set (rows db) \<and> P x \<and> live_admin x \<and> a = x\<lparr>ad_Roles := rs\<rparr>" if "res = Inr a"
    using assms(2) f found that by (auto simp: first_with_roles_def split: sum.splits prod.splits)
qed

lemma update_keeps:
  assumes ok: "admin_repo_ok ids rows r" and run: "g_update (ar_admins r) P f db = (res, db')"
    and f: "\<And>x. P x \<Longrightarrow> ad_ID (f x) = ad_ID x \<and> (ad_KeycloakSubject x \<noteq> None \<longrightarrow> ad_KeycloakSubject (f x) = ad_KeycloakSubject x)"
    and inv: "admin_inv (rows db)"
  shows "admin_inv (rows db')" "keeps_admins (rows db) (rows db')"
proof -
  note G = admin_repo_okD(1) [OF ok]
  have "admin_inv (rows db') \<and> keeps_admins (rows db) (rows db')"
  proof (cases res)
    case (Inl e)
    then have "rows db' = rows db" using update_Inl [OF G] run by fastforce
    with inv show ?thesis by simp
  next
    case (Inr n)
    have run': "g_update (gorm.truncate (ar_admins r)) P f db = (Inr n, db')" using run Inr by simp
    obtain t where t: "rows db' = map (\<lambda>x. if P x then t_touch (admin_table ids rows) t (f x) else x) (rows db)"
      using update_Inr [OF G run'] by auto
    have "keeps_admins (rows db) (rows db')"
      unfolding keeps_admins_def t
    proof
      fix x assume "x \<in> set (rows db)"
      with f show "\<exists>y \<in> set (map (\<lambda>x. if P x then t_touch (admin_table ids rows) t (f x) else x) (rows db)).
          ad_ID y = ad_ID x \<and> (ad_KeycloakSubject x \<noteq> None \<longrightarrow> ad_KeycloakSubject y = ad_KeycloakSubject x)"
        by (intro bexI [of _ "if P x then t_touch (admin_table ids rows) t (f x) else x"]) auto
    qed
    with admin_repo_okD(3) [OF ok] run Inr inv show ?thesis by blast
  qed
  then show "admin_inv (rows db')" "keeps_admins (rows db) (rows db')" by blast+
qed

lemma update_then:
  assumes "admin_repo_ok ids rows r" "admin_inv (rows db)"
    and "(case g_update (ar_admins r) P f db of (Inl err, db) \<Rightarrow> (Some err, db) | (Inr n, db) \<Rightarrow> (if n = 0 then Some not_found else None, db))
      = (e, db')"
    and "\<And>x. P x \<Longrightarrow> ad_ID (f x) = ad_ID x \<and> (ad_KeycloakSubject x \<noteq> None \<longrightarrow> ad_KeycloakSubject (f x) = ad_KeycloakSubject x)"
  shows "admin_inv (rows db') \<and> keeps_admins (rows db) (rows db')"
proof -
  obtain res db1 where run: "g_update (ar_admins r) P f db = (res, db1)" by fastforce
  with assms(3) have "db' = db1" by (auto split: sum.splits)
  with update_keeps [OF assms(1) run assms(4,2)] show ?thesis by simp
qed

lemma Create_keeps:
  assumes ok: "admin_repo_ok ids rows r" and run: "Admin_Create r (Some a) db = (e, db')" and inv: "admin_inv (rows db)"
  shows "admin_inv (rows db') \<and> keeps_admins (rows db) (rows db')"
proof -
  note G = admin_repo_okD(1) [OF ok]
  obtain a' where c: "g_create (gorm.truncate (ar_admins r)) (a\<lparr>ad_Roles := []\<rparr>) db = (e, a', db')"
    using run by (auto simp: Admin_Create_def split: prod.splits)
  show ?thesis
  proof (cases e)
    case None
    obtain t where "rows db' = rows db @ [a']" "\<forall>x \<in> set (rows db). \<not> admin_conflict x a'"
      using create_None [OF G c [unfolded None]] by (metis admin_table_simps(1,2))
    with inv show ?thesis by (auto simp: admin_inv_def keeps_admins_def sorted_wrt_append)
  next
    case (Some err)
    with create_Some [OF G] c inv show ?thesis by fastforce
  qed
qed

text \<open>Deletion keeps IDs and the columns with a unique index.\<close>

lemma deleted_keeps:
  assumes "admin_inv xs"
  shows "admin_inv (map (\<lambda>x. if P x then x\<lparr>ad_DeletedAt := Some t\<rparr> else x) xs)"
    "keeps_admins xs (map (\<lambda>x. if P x then x\<lparr>ad_DeletedAt := Some t\<rparr> else x) xs)"
proof -
  have "admin_conflict (if P x then x\<lparr>ad_DeletedAt := Some t\<rparr> else x) (if P y then y\<lparr>ad_DeletedAt := Some t\<rparr> else y) = admin_conflict x y" for x y
    by (simp add: admin_conflict_def)
  with assms show "admin_inv (map (\<lambda>x. if P x then x\<lparr>ad_DeletedAt := Some t\<rparr> else x) xs)"
    by (simp add: admin_inv_def sorted_wrt_map)
  show "keeps_admins xs (map (\<lambda>x. if P x then x\<lparr>ad_DeletedAt := Some t\<rparr> else x) xs)"
    unfolding keeps_admins_def
  proof
    fix x assume "x \<in> set xs"
    then show "\<exists>y \<in> set (map (\<lambda>x. if P x then x\<lparr>ad_DeletedAt := Some t\<rparr> else x) xs).
        ad_ID y = ad_ID x \<and> (ad_KeycloakSubject x \<noteq> None \<longrightarrow> ad_KeycloakSubject y = ad_KeycloakSubject x)"
      by (intro bexI [of _ "if P x then x\<lparr>ad_DeletedAt := Some t\<rparr> else x"]) auto
  qed
qed

lemma Delete_keeps:
  assumes ok: "admin_repo_ok ids rows r" and run: "Admin_Delete r i db = (e, db')" and inv: "admin_inv (rows db)"
  shows "admin_inv (rows db') \<and> keeps_admins (rows db) (rows db')"
proof (cases "i = 0")
  case False
  obtain res db1 where d: "ar_Delete r i db = (res, db1)" by fastforce
  have "db' = db1" using run False d by (auto simp: Admin_Delete_def split: sum.splits)
  with Delete_rows [OF ok d] deleted_keeps [OF inv] inv show ?thesis by auto
qed (use run inv in \<open>simp add: Admin_Delete_def\<close>)

lemma List_rows:
  assumes ok: "admin_repo_ok ids rows r" and run: "Admin_List r off lmt db = (res, db')"
  shows "rows db' = rows db"
proof -
  obtain n db1 where c: "g_count (ar_admins r) live_admin db = (n, db1)" by fastforce
  obtain f db2 where g: "g_page (ar_admins r) live_admin (\<lambda>x y. ad_ID y < ad_ID x) off lmt db1 = (f, db2)" by fastforce
  have "rows db1 = rows db" using count_rows [OF admin_repo_okD(1) [OF ok]] c by fastforce
  moreover have "rows db2 = rows db1" using page_rows [OF admin_repo_okD(2) [OF ok] g] by simp
  moreover have "db' = db \<or> db' = db1 \<or> db' = db2 \<or> (\<exists>xs pre. ar_Preload r xs db2 = (pre, db'))"
    using run by (simp add: Admin_List_def c g split: if_splits sum.splits prod.splits) blast+
  ultimately show ?thesis using admin_repo_okD(4) [OF ok] by metis
qed

lemma admin_step_keeps:
  assumes ok: "admin_repo_ok ids rows r" and step: "admin_step r rows db db'" and inv: "admin_inv (rows db)"
  shows "admin_inv (rows db') \<and> keeps_admins (rows db) (rows db')"
proof -
  have same: "rows db' = rows db \<Longrightarrow> ?thesis" using inv by simp
  note found = first_with_roles_rows(1) [OF ok]
  show ?thesis
    using step
  proof cases
    case (create a e)
    then show ?thesis using Create_keeps [OF ok _ inv] inv by (cases a) (auto simp: Admin_Create_def)
  next
    case (find_subject s res)
    then show ?thesis by (intro same) (auto simp: FindByKeycloakSubject_def Let_def found split: if_splits)
  next
    case (find_id i res)
    then show ?thesis by (intro same) (auto simp: Admin_FindByID_def found split: if_splits)
  next
    case (find_name s res)
    then show ?thesis by (intro same) (auto simp: Admin_FindByUsername_def Let_def found split: if_splits)
  next
    case (bind i s e)
    then show ?thesis
      using update_then [OF ok inv] inv by (fastforce simp: BindKeycloakSubject_def Let_def split: if_splits)
  next
    case (list off lmt ress)
    then show ?thesis using List_rows [OF ok] by (intro same) auto
  next
    case (update a e)
    then show ?thesis
      using update_then [OF ok inv] inv by (fastforce simp: Admin_Update_def split: option.splits if_splits)
  next
    case (delete i e)
    show ?thesis by (rule Delete_keeps [OF ok delete inv])
  next
    case (roles i xs e)
    then show ?thesis
      using admin_repo_okD(5) [OF ok] by (intro same) (auto simp: Admin_ReplaceRoles_def split: if_splits)
  qed
qed

text \<open>The repository meets the interface of a table whose rows keep their identity.\<close>

interpretation admins: table_repository "\<lambda>r rows. \<exists>ids. admin_repo_ok ids rows r" admin_step admin_inv ad_ID
proof
  show "admin_inv (rows db')" if "\<exists>ids. admin_repo_ok ids rows r" "admin_step r rows db db'" "admin_inv (rows db)"
    for r :: "'a AdminRepository" and rows db db'
    using that(1) admin_step_keeps [OF _ that(2,3)] by auto
  show "ad_ID ` set (rows db) \<subseteq> ad_ID ` set (rows db')"
    if "\<exists>ids. admin_repo_ok ids rows r" "admin_step r rows db db'" "admin_inv (rows db)"
    for r :: "'a AdminRepository" and rows db db'
  proof -
    have "keeps_admins (rows db) (rows db')" using that(1) admin_step_keeps [OF _ that(2,3)] by auto
    then show ?thesis by (rule keeps_admins_IDs)
  qed
qed

text \<open>What a sequence of operations keeps.\<close>

lemma admin_steps_keep:
  assumes ok: "admin_repo_ok ids rows r" and steps: "(admin_step r rows)\<^sup>*\<^sup>* db db'" and inv: "admin_inv (rows db)"
  shows "admin_inv (rows db') \<and> keeps_admins (rows db) (rows db')"
  using steps
proof (induction rule: rtranclp_induct)
  case (step db1 db2)
  have "admin_inv (rows db1)" using admins.steps_inv [OF step.hyps(1) _ inv] ok by blast
  with admin_step_keeps [OF ok step.hyps(2)] step.IH show ?case by (blast intro: keeps_admins_trans)
qed (simp add: inv)

section \<open>Properties\<close>

text \<open>C9: whatever operations of the repository run in whatever order, and whichever of them fail, the unique indexes hold and
  an administrator that is bound to a Keycloak subject stays in the table, bound to that subject, which no other row gets.\<close>

theorem identity_binding_permanent:
  assumes "admin_repo_ok ids rows r" "admin_inv (rows db)" "(admin_step r rows)\<^sup>*\<^sup>* db db'"
  shows "admin_inv (rows db')
    \<and> (\<forall>x \<in> set (rows db). \<forall>s. ad_KeycloakSubject x = Some s \<longrightarrow>
         (\<exists>y \<in> set (rows db'). ad_ID y = ad_ID x \<and> ad_KeycloakSubject y = Some s
            \<and> (\<forall>z \<in> set (rows db'). ad_KeycloakSubject z = Some s \<longrightarrow> z = y)))"
proof -
  have inv: "admin_inv (rows db')" and keeps: "keeps_admins (rows db) (rows db')"
    using admin_steps_keep [OF assms(1,3,2)] by blast+
  have unique: "z = y" if "admin_inv xs" "y \<in> set xs" "z \<in> set xs" "ad_KeycloakSubject y = Some s" "ad_KeycloakSubject z = Some s" for xs y z s
    using that by (induction xs) (auto simp: admin_inv_def admin_conflict_def same_some_def)
  show ?thesis
  proof (intro conjI ballI allI impI)
    fix x s assume x: "x \<in> set (rows db)" "ad_KeycloakSubject x = Some s"
    obtain y where y: "y \<in> set (rows db')" "ad_ID y = ad_ID x" "ad_KeycloakSubject x \<noteq> None \<longrightarrow> ad_KeycloakSubject y = ad_KeycloakSubject x"
      by (rule keeps_adminsD [OF keeps x(1)])
    have s: "ad_KeycloakSubject y = Some s" using x(2) y(3) by simp
    show "\<exists>y \<in> set (rows db'). ad_ID y = ad_ID x \<and> ad_KeycloakSubject y = Some s
        \<and> (\<forall>z \<in> set (rows db'). ad_KeycloakSubject z = Some s \<longrightarrow> z = y)"
      by (intro bexI [OF _ y(1)] conjI ballI impI y(2) s) (rule unique [OF inv y(1) _ s])
  qed (rule inv)
qed

section \<open>A concrete table\<close>

text \<open>A list of rows in a world, whose unique indexes also refuse updates; every administrator has the roles \<open>roles\<close>.\<close>

definition lab_admins :: "('w \<Rightarrow> AdminModel list) \<Rightarrow> (AdminModel list \<Rightarrow> 'w \<Rightarrow> 'w) \<Rightarrow> RoleModel list \<Rightarrow> 'w AdminRepository" where
  "lab_admins get put roles =
    (let T = admin_table (\<lambda>_. 7) get; G = list_gorm_up get put 5 T
     in \<lparr>ar_admins = G\<lparr>g_update := (\<lambda>P f db. let rs = map (\<lambda>x. if P x then t_touch T 5 (f x) else x) (get db)
            in if admin_inv rs then (Inr (length (filter P (get db))), put rs db) else (Inl (PlainErr ''duplicate key''), db))\<rparr>,
         ar_Delete = (\<lambda>i db. (Inr (length (filter (\<lambda>x. ad_ID x = i \<and> live_admin x) (get db))),
            put (map (\<lambda>x. if ad_ID x = i \<and> live_admin x then x\<lparr>ad_DeletedAt := Some 5\<rparr> else x) (get db)) db)),
         ar_Preload = (\<lambda>_ db. (Inr (\<lambda>_. roles), db)), ar_ReplaceRoles = (\<lambda>_ _ db. (None, db))\<rparr>)"

definition list_admins :: "AdminModel list AdminRepository" where
  "list_admins = lab_admins (\<lambda>xs. xs) (\<lambda>xs _. xs) []"

lemma gorm_up_ok_update:
  fixes G :: "('db, 'r, 'v) gorm_up"
  assumes "gorm_up_ok G T" "update_ok (gorm.truncate (G\<lparr>g_update := u\<rparr>)) T"
  shows "gorm_up_ok (G\<lparr>g_update := u\<rparr>) T"
proof -
  have eq: "gorm.truncate (G\<lparr>g_update := u\<rparr>) = (gorm.truncate G)\<lparr>g_update := u\<rparr>" by (simp add: gorm.truncate_def)
  from assms(1) have "gorm_ok ((gorm.truncate G)\<lparr>g_update := u\<rparr>) T"
    using assms(2) unfolding eq gorm_up_ok_def gorm_ok_def create_ok_def count_ok_def first_ok_def find_ok_def lock_ok_def transaction_ok_def
    by simp
  with assms(1) show ?thesis unfolding gorm_up_ok_def eq upsert_ok_def insert_ignore_ok_def page_ok_def by simp
qed

lemma lab_admins_ok:
  assumes "\<And>rs db. get (put rs db) = rs"
  shows "admin_repo_ok (\<lambda>_. 7) get (lab_admins get put roles)"
proof -
  have "gorm_up_ok (ar_admins (lab_admins get put roles)) (admin_table (\<lambda>_. 7) get)"
    unfolding lab_admins_def Let_def AdminRepository.simps
    by (rule gorm_up_ok_update) (auto intro: list_gorm_up_ok simp: update_ok_def assms)
  then show ?thesis by (auto simp: admin_repo_ok_def lab_admins_def Let_def assms split: if_splits)
qed

lemma list_admins_ok: "admin_repo_ok (\<lambda>_. 7) (\<lambda>xs. xs) list_admins"
  unfolding list_admins_def by (rule lab_admins_ok) simp

definition lab_admin :: "u64 \<Rightarrow> string option \<Rightarrow> string \<Rightarrow> int \<Rightarrow> AdminModel" where
  "lab_admin i subject name status = \<lparr>ad_ID = i, ad_CreatedAt = 1, ad_UpdatedAt = 1, ad_DeletedAt = None, ad_KeycloakSubject = subject,
     ad_Username = name, ad_PasswordHash = ''h'', ad_Nickname = [], ad_Avatar = [], ad_Phone = None, ad_Email = None,
     ad_Status = status, ad_Roles = []\<rparr>"

text \<open>Binding a second administrator to a subject that is taken fails, and so does binding the first one again.\<close>

theorem identity_binding_permanent_witness:
  "\<exists>db'. (admin_step list_admins (\<lambda>xs. xs))\<^sup>*\<^sup>* [lab_admin 1 (Some ''s'') ''a'' 1, lab_admin 2 None ''b'' 1] db'
     \<and> (\<exists>y \<in> set db'. ad_ID y = 1 \<and> ad_KeycloakSubject y = Some ''s'')
     \<and> fst (BindKeycloakSubject list_admins 2 ''s'' [lab_admin 1 (Some ''s'') ''a'' 1, lab_admin 2 None ''b'' 1]) \<noteq> None
     \<and> fst (BindKeycloakSubject list_admins 1 ''t'' [lab_admin 1 (Some ''s'') ''a'' 1, lab_admin 2 None ''b'' 1]) \<noteq> None"
proof -
  let ?db = "[lab_admin 1 (Some ''s'') ''a'' 1, lab_admin 2 None ''b'' 1]"
  obtain e db' where bind: "BindKeycloakSubject list_admins 2 ''t'' ?db = (e, db')" by fastforce
  have steps: "(admin_step list_admins (\<lambda>xs. xs))\<^sup>*\<^sup>* ?db db'" by (rule r_into_rtranclp, rule admin_step.bind [OF bind])
  have inv: "admin_inv ?db" by code_simp
  have one: "ad_ID (lab_admin 1 (Some ''s'') ''a'' 1) = 1" "ad_KeycloakSubject (lab_admin 1 (Some ''s'') ''a'' 1) = Some ''s''"
    by (simp_all add: lab_admin_def)
  from identity_binding_permanent [OF list_admins_ok inv steps] one
  have "\<exists>y \<in> set db'. ad_ID y = 1 \<and> ad_KeycloakSubject y = Some ''s''" by (metis list.set_intros(1))
  moreover have "fst (BindKeycloakSubject list_admins 2 ''s'' ?db) \<noteq> None" "fst (BindKeycloakSubject list_admins 1 ''t'' ?db) \<noteq> None"
    by code_simp+
  ultimately show ?thesis using steps by blast
qed

text \<open>An administrator that is created as disabled is stored as enabled.\<close>

lemma disabled_admin_created_enabled:
  assumes "admin_repo_ok ids rows r" "Admin_Create r (Some a) db = (None, db')" "ad_Status a = AdminStatusDisabled"
  shows "\<exists>x. rows db' = rows db @ [x] \<and> ad_Username x = ad_Username a \<and> IsEnabled x"
proof -
  obtain a' where c: "g_create (gorm.truncate (ar_admins r)) (a\<lparr>ad_Roles := []\<rparr>) db = (None, a', db')"
    using assms(2) by (auto simp: Admin_Create_def split: prod.splits)
  obtain t where "a' = t_fill (admin_table ids rows) t (a\<lparr>ad_Roles := []\<rparr>)" "rows db' = rows db @ [a']"
    using create_None [OF admin_repo_okD(1) [OF assms(1)] c] by (metis admin_table_simps(1))
  with assms(3) show ?thesis by (auto simp: admin_table_def IsEnabled_def AdminStatusDisabled_def AdminStatusEnabled_def)
qed

end
