(* ===== verification/Go_Monad.thy ===== *)
theory Go_Monad
  imports App_Error
begin

text \<open>
  Go functions with effects that return \<open>(T, error)\<close> and may panic: a state passing function whose
  outcome is \<open>Panicked\<close> or a result with the new state. \<open>go_bind\<close> is the idiom
  \<open>x, err := f(); if err != nil { return err }; ...\<close>, \<open>go_try\<close> hands the error to the code that
  follows, \<open>go_for\<close> is a \<open>for range\<close> loop whose body returns on the first error. \<open>keeps I m\<close> says
  that a run of \<open>m\<close> that returns, with or without an error, keeps \<open>I\<close>; its rules, one per
  combinator, are the collection \<open>keeps_intros\<close>.
\<close>

type_synonym ('st, 'a) go = "'st \<Rightarrow> ((go_error + 'a) \<times> 'st) go_outcome"

named_theorems keeps_intros \<open>rules for invariants of effectful functions\<close>

definition go_return :: "'a \<Rightarrow> ('st, 'a) go" where
  "go_return a st = Returned (Inr a, st)"

definition go_fail :: "go_error \<Rightarrow> ('st, 'a) go" where
  "go_fail e st = Returned (Inl e, st)"

definition go_panic :: "('st, 'a) go" where
  "go_panic st = Panicked"

definition go_try :: "('st, 'a) go \<Rightarrow> (go_error + 'a \<Rightarrow> ('st, 'b) go) \<Rightarrow> ('st, 'b) go" where
  "go_try m k st = (case m st of Panicked \<Rightarrow> Panicked | Returned (r, st) \<Rightarrow> k r st)"

definition go_bind :: "('st, 'a) go \<Rightarrow> ('a \<Rightarrow> ('st, 'b) go) \<Rightarrow> ('st, 'b) go" where
  "go_bind m f = go_try m (\<lambda>r. case r of Inl e \<Rightarrow> go_fail e | Inr a \<Rightarrow> f a)"

primrec go_for :: "'x list \<Rightarrow> ('x \<Rightarrow> ('st, unit) go) \<Rightarrow> ('st, unit) go" where
  "go_for [] f = go_return ()"
| "go_for (x # xs) f = go_bind (f x) (\<lambda>_. go_for xs f)"

text \<open>A call that returns a value, a call that returns \<open>(T, error)\<close> and a call that returns an \<open>error\<close>.\<close>

definition go_get :: "('st \<Rightarrow> 'a \<times> 'st) \<Rightarrow> ('st, 'a) go" where
  "go_get f st = (case f st of (a, st) \<Rightarrow> Returned (Inr a, st))"

definition go_call :: "('st \<Rightarrow> (go_error + 'a) \<times> 'st) \<Rightarrow> ('st, 'a) go" where
  "go_call f st = Returned (f st)"

definition go_call_err :: "('st \<Rightarrow> go_error option \<times> 'st) \<Rightarrow> ('st, unit) go" where
  "go_call_err f st = (case f st of (err, st) \<Rightarrow>
     Returned (case err of None \<Rightarrow> Inr () | Some e \<Rightarrow> Inl e, st))"

text \<open>\<open>return v\<close> of an \<open>(T, error)\<close> pair or an \<open>error\<close> that is already computed.\<close>

definition go_lift :: "go_error + 'a \<Rightarrow> ('st, 'a) go" where
  "go_lift r st = Returned (r, st)"

section \<open>Inversion\<close>

lemma go_return_eq [result_inv]: "go_return a st = Returned (r, st') \<longleftrightarrow> r = Inr a \<and> st' = st"
  by (auto simp: go_return_def)

lemma go_fail_eq [result_inv]: "go_fail e st = Returned (r, st') \<longleftrightarrow> r = Inl e \<and> st' = st"
  by (auto simp: go_fail_def)

lemma go_lift_eq [result_inv]: "go_lift x st = Returned (r, st') \<longleftrightarrow> r = x \<and> st' = st"
  by (auto simp: go_lift_def)

lemma go_panic_eq [simp]: "go_panic st = Panicked"
  by (simp add: go_panic_def)

lemma go_try_eq [result_inv]:
  "go_try m k st = Returned (r, st') \<longleftrightarrow> (\<exists>r1 st1. m st = Returned (r1, st1) \<and> k r1 st1 = Returned (r, st'))"
  by (auto simp: go_try_def split: go_outcome.splits)

lemma go_bind_Inr [result_inv]:
  "go_bind m f st = Returned (Inr b, st') \<longleftrightarrow> (\<exists>a st1. m st = Returned (Inr a, st1) \<and> f a st1 = Returned (Inr b, st'))"
  by (auto simp: go_bind_def go_try_def go_fail_def split: go_outcome.splits sum.splits)

lemma go_bind_Inl [result_inv]:
  "go_bind m f st = Returned (Inl e, st') \<longleftrightarrow>
    m st = Returned (Inl e, st') \<or> (\<exists>a st1. m st = Returned (Inr a, st1) \<and> f a st1 = Returned (Inl e, st'))"
  by (auto simp: go_bind_def go_try_def go_fail_def split: go_outcome.splits sum.splits)

lemma go_get_eq [result_inv]: "go_get f st = Returned (r, st') \<longleftrightarrow> (\<exists>a. r = Inr a \<and> f st = (a, st'))"
  by (auto simp: go_get_def split: prod.splits)

lemma go_call_eq [result_inv]: "go_call f st = Returned (r, st') \<longleftrightarrow> f st = (r, st')"
  by (simp add: go_call_def)

lemma go_call_err_Inr [result_inv]: "go_call_err f st = Returned (Inr u, st') \<longleftrightarrow> f st = (None, st')"
  by (auto simp: go_call_err_def split: prod.splits option.splits)

lemma go_call_err_Inl [result_inv]: "go_call_err f st = Returned (Inl e, st') \<longleftrightarrow> f st = (Some e, st')"
  by (auto simp: go_call_err_def split: prod.splits option.splits)

section \<open>Execution\<close>

text \<open>Computed steps, as simplification rules, and a step whose outcome is known.\<close>

lemma go_bind_lift [simp]:
  "go_bind (go_lift (Inr a)) f = f a" "go_bind (go_lift (Inl e)) f = go_fail e"
  "go_bind (go_return a) f = f a" "go_bind (go_fail e) f = go_fail e"
  by (auto simp: go_bind_def go_try_def go_lift_def go_return_def go_fail_def)

lemma go_try_step: "m st = Returned (r, st1) \<Longrightarrow> go_try m k st = k r st1"
  by (simp add: go_try_def)

lemma go_bind_step:
  "m st = Returned (Inr a, st1) \<Longrightarrow> go_bind m f st = f a st1"
  "m st = Returned (Inl e, st1) \<Longrightarrow> go_bind m f st = Returned (Inl e, st1)"
  "m st = Panicked \<Longrightarrow> go_bind m f st = Panicked"
  by (simp_all add: go_bind_def go_try_def go_fail_def)

section \<open>Invariants\<close>

definition keeps :: "('st \<Rightarrow> bool) \<Rightarrow> ('st, 'a) go \<Rightarrow> bool" where
  "keeps I m \<longleftrightarrow> (\<forall>st r st'. m st = Returned (r, st') \<longrightarrow> I st \<longrightarrow> I st')"

lemma keepsD: "keeps I m \<Longrightarrow> m st = Returned (r, st') \<Longrightarrow> I st \<Longrightarrow> I st'"
  by (auto simp: keeps_def)

lemma keeps_return [keeps_intros]: "keeps I (go_return a)"
  by (auto simp: keeps_def go_return_def)

lemma keeps_fail [keeps_intros]: "keeps I (go_fail e)"
  by (auto simp: keeps_def go_fail_def)

lemma keeps_lift [keeps_intros]: "keeps I (go_lift r)"
  by (auto simp: keeps_def go_lift_def)

lemma keeps_panic [keeps_intros]: "keeps I go_panic"
  by (simp add: keeps_def)

lemma keeps_try [keeps_intros]: "keeps I m \<Longrightarrow> (\<And>r. keeps I (k r)) \<Longrightarrow> keeps I (go_try m k)"
  unfolding keeps_def go_try_eq by blast

lemma keeps_bind [keeps_intros]: "keeps I m \<Longrightarrow> (\<And>a. keeps I (f a)) \<Longrightarrow> keeps I (go_bind m f)"
  unfolding go_bind_def by (rule keeps_try) (auto intro: keeps_fail split: sum.splits)

lemma keeps_for [keeps_intros]: "(\<And>x. x \<in> set xs \<Longrightarrow> keeps I (f x)) \<Longrightarrow> keeps I (go_for xs f)"
  by (induction xs) (auto intro!: keeps_return keeps_bind)

lemma keeps_if [keeps_intros]: "(c \<Longrightarrow> keeps I a) \<Longrightarrow> (\<not> c \<Longrightarrow> keeps I b) \<Longrightarrow> keeps I (if c then a else b)"
  by simp

lemma keeps_case_option [keeps_intros]:
  "keeps I a \<Longrightarrow> (\<And>x. keeps I (f x)) \<Longrightarrow> keeps I (case o' of None \<Rightarrow> a | Some x \<Rightarrow> f x)"
  by (cases o') auto

lemma keeps_case_sum [keeps_intros]:
  "(\<And>e. keeps I (a e)) \<Longrightarrow> (\<And>x. keeps I (f x)) \<Longrightarrow> keeps I (case s of Inl e \<Rightarrow> a e | Inr x \<Rightarrow> f x)"
  by (cases s) auto

lemma keeps_case_prod [keeps_intros]: "(\<And>a b. keeps I (f a b)) \<Longrightarrow> keeps I (case p of (a, b) \<Rightarrow> f a b)"
  by (cases p) auto

text \<open>A loop over a list that returns without an error ran its body, without an error, on every element.\<close>

lemma go_for_each:
  assumes "go_for xs f st = Returned (Inr u, st')" "x \<in> set xs"
  obtains st1 st2 where "f x st1 = Returned (Inr (), st2)"
  using assms by (induction xs arbitrary: st) (auto simp: result_inv)

end
