(* ===== verification/Snowflake.thy ===== *)
theory Snowflake
  imports App_Error
begin

unbundle bit_operations_syntax

text \<open>
  The ID generator of the User service, \<open>user/internal/idgen/snowflake.go\<close>. Go's \<open>int64\<close> is a
  64-bit word read with \<^const>\<open>sint\<close>. The system clock is an environment: an arbitrary sequence
  of readings of \<open>time.Now().UnixMilli()\<close> (it may stand still or jump back) and the position of
  the next reading. \<open>waitUntilNextMilli\<close> polls the clock and may never return, so \<open>NextID\<close>
  yields \<^const>\<open>None\<close> when it does not return. The interface \<open>idgen.Generator\<close> is the locale
  \<open>id_generator\<close>.
\<close>

type_synonym i64 = "64 word"

record clock =
  readings :: "nat \<Rightarrow> i64"
  position :: nat

definition clock_now :: "clock \<Rightarrow> i64 \<times> clock" where
  "clock_now c = (readings c (position c), c\<lparr>position := Suc (position c)\<rparr>)"

section \<open>The generator\<close>

definition maxNodeID :: int where "maxNodeID = 2 ^ 10 - 1"
definition sequenceMask :: i64 where "sequenceMask = 4095"
definition nodeShift :: nat where "nodeShift = 12"
definition timeShift :: nat where "timeShift = 10 + 12"
definition defaultEpochMillis :: i64 where "defaultEpochMillis = 1767225600000"

record Snowflake =
  sf_nodeID :: i64
  sf_epochMillis :: i64
  sf_lastMillis :: i64
  sf_sequence :: i64

definition NewSnowflake :: "i64 \<Rightarrow> go_error + Snowflake" where
  "NewSnowflake nodeID =
    (if sint nodeID < 0 \<or> maxNodeID < sint nodeID
     then Inl (PlainErr (''snowflake node ID '' @ int_to_string (sint nodeID) @ '' is outside 0..1023''))
     else Inr \<lparr>sf_nodeID = nodeID, sf_epochMillis = defaultEpochMillis,
               sf_lastMillis = - 1, sf_sequence = 0\<rparr>)"

partial_function (option) waitUntilNextMilli :: "i64 \<Rightarrow> clock \<Rightarrow> (i64 \<times> clock) option" where
  "waitUntilNextMilli lastMillis c =
    (let (nowMillis, c') = clock_now c
     in if sint lastMillis < sint nowMillis then Some (nowMillis, c')
        else waitUntilNextMilli lastMillis c')"

definition capacity_error :: go_error where
  "capacity_error = PlainErr ''snowflake timestamp capacity exhausted''"

definition NextID :: "clock \<Rightarrow> Snowflake \<Rightarrow> ((go_error + i64) \<times> Snowflake \<times> clock) option" where
  "NextID c s =
    (let (nowMillis, c) = clock_now c
     in if sint nowMillis < sint (sf_epochMillis s) then
          Some (Inl (PlainErr (''system time '' @ int_to_string (sint nowMillis)
            @ '' is earlier than snowflake epoch '' @ int_to_string (sint (sf_epochMillis s)))), s, c)
        else if sint nowMillis < sint (sf_lastMillis s) then
          Some (Inl (PlainErr (''system clock moved backwards by ''
            @ int_to_string (sint (sf_lastMillis s - nowMillis)) @ ''ms'')), s, c)
        else
          let advanced =
            (if nowMillis = sf_lastMillis s then
               let s = s\<lparr>sf_sequence := (sf_sequence s + 1) AND sequenceMask\<rparr>
               in if sf_sequence s = 0 then
                    map_option (\<lambda>(nowMillis, c). (nowMillis, s, c))
                      (waitUntilNextMilli (sf_lastMillis s) c)
                  else Some (nowMillis, s, c)
             else Some (nowMillis, s\<lparr>sf_sequence := 0\<rparr>, c))
          in (case advanced of
                None \<Rightarrow> None
              | Some (nowMillis, s, c) \<Rightarrow>
                  let timestamp = nowMillis - sf_epochMillis s
                  in if 2 ^ 41 \<le> sint timestamp then Some (Inl capacity_error, s, c)
                     else
                       let s = s\<lparr>sf_lastMillis := nowMillis\<rparr>
                       in Some (Inr (push_bit timeShift timestamp OR push_bit nodeShift (sf_nodeID s)
                                  OR sf_sequence s), s, c)))"

section \<open>The layout of an ID\<close>

lemma pack_nat:
  assumes "s < 2 ^ 12" and "n < 2 ^ 10"
  shows "push_bit 22 t OR (push_bit 12 n OR s) = t * 2 ^ 22 + n * 2 ^ 12 + (s :: nat)"
proof -
  have s: "\<not> bit s k" if "12 \<le> k" for k
    using assms(1) that by (metis bit_take_bit_iff not_less take_bit_nat_eq_self)
  have n: "\<not> bit n k" if "10 \<le> k" for k
    using assms(2) that by (metis bit_take_bit_iff not_less take_bit_nat_eq_self)
  have "push_bit 12 n OR s = push_bit 12 n + s"
    by (rule disjunctive_add [symmetric]) (auto simp: bit_simps s)
  moreover have "push_bit 22 t OR (push_bit 12 n OR s) = push_bit 22 t + (push_bit 12 n OR s)"
    by (rule disjunctive_add [symmetric]) (auto simp: bit_simps s n)
  ultimately show ?thesis by (simp add: push_bit_eq_mult)
qed

definition pack :: "nat \<Rightarrow> nat \<Rightarrow> nat \<Rightarrow> nat" where
  "pack t n s = t * 2 ^ 22 + n * 2 ^ 12 + s"

lemma pack_bound: "t < 2 ^ 41 \<Longrightarrow> n < 2 ^ 10 \<Longrightarrow> s < 2 ^ 12 \<Longrightarrow> pack t n s < 2 ^ 63"
  by (simp add: pack_def)

lemma pack_fields:
  assumes "n < 2 ^ 10" and "s < 2 ^ 12"
  shows "pack t n s div 2 ^ 12 mod 2 ^ 10 = n"
proof -
  have "pack t n s = s + (t * 2 ^ 10 + n) * 2 ^ 12" by (simp add: pack_def)
  then have "pack t n s div 2 ^ 12 = t * 2 ^ 10 + n" using assms(2) by simp
  with assms(1) show ?thesis by simp
qed

lemma pack_less: "t < t' \<Longrightarrow> n < 2 ^ 10 \<Longrightarrow> s < 2 ^ 12 \<Longrightarrow> pack t n s < pack t' n' s'"
  by (simp add: pack_def)

lemma pack_word:
  assumes "unat t < 2 ^ 41" "unat n < 2 ^ 10" "unat s < 2 ^ 12"
  shows "unat (push_bit 22 t OR push_bit 12 n OR s :: i64) = pack (unat t) (unat n) (unat s)"
proof -
  have "push_bit 22 (unat t) < 2 ^ 64" "push_bit 12 (unat n) < 2 ^ 64"
    using assms by (simp_all add: push_bit_eq_mult)
  then have "unat (push_bit 22 t OR push_bit 12 n OR s) = push_bit 22 (unat t) OR (push_bit 12 (unat n) OR unat s)"
    by (simp add: unsigned_or_eq unsigned_push_bit_eq take_bit_nat_eq_self or.assoc)
  then show ?thesis using pack_nat [OF assms(3,2)] by (simp add: pack_def)
qed

lemma unat_of_sint:
  assumes "0 \<le> sint w"
  shows "int (unat (w :: i64)) = sint w"
proof -
  have "sint w < 2 ^ 63" using sint_lt [of w] by simp
  with assms have "take_bit 64 (sint w) = sint w" by (simp add: take_bit_int_eq_self)
  moreover have "uint w = take_bit 64 (sint w)" using uint_sint [of w] by simp
  ultimately show ?thesis by simp
qed

section \<open>The polling loop\<close>

lemma wait_result:
  assumes "waitUntilNextMilli m c = Some r"
  shows "sint m < sint (fst r) \<and> readings (snd r) = readings c \<and> fst r \<in> range (readings c)"
proof (rule waitUntilNextMilli.raw_induct
    [where P = "\<lambda>m c r. sint m < sint (fst r) \<and> readings (snd r) = readings c \<and> fst r \<in> range (readings c)",
      OF _ assms])
  fix f m c r
  assume IH: "\<And>m c r. f m c = Some r \<Longrightarrow>
      sint m < sint (fst r) \<and> readings (snd r) = readings c \<and> fst r \<in> range (readings c)"
    and eq: "(let (nowMillis, c') = clock_now c
      in if sint m < sint nowMillis then Some (nowMillis, c') else f m c') = Some r"
  show "sint m < sint (fst r) \<and> readings (snd r) = readings c \<and> fst r \<in> range (readings c)"
  proof (cases "sint m < sint (readings c (position c))")
    case True
    with eq show ?thesis by (auto simp: clock_now_def)
  next
    case False
    with eq IH show ?thesis by (fastforce simp: clock_now_def)
  qed
qed

text \<open>The loop returns as soon as the clock passes \<open>m\<close> once at or after the current reading.\<close>

lemma wait_returns:
  assumes "sint m < sint (readings c k)" and "position c \<le> k"
  shows "\<exists>r. waitUntilNextMilli m c = Some r"
  using assms
proof (induction "k - position c" arbitrary: c)
  case 0
  then have "sint m < sint (readings c (position c))" by simp
  then show ?case by (simp add: waitUntilNextMilli.simps [of m c] clock_now_def)
next
  case (Suc d)
  show ?case
  proof (cases "sint m < sint (readings c (position c))")
    case True
    then show ?thesis by (simp add: waitUntilNextMilli.simps [of m c] clock_now_def)
  next
    case False
    let ?c = "c\<lparr>position := Suc (position c)\<rparr>"
    have "\<exists>r. waitUntilNextMilli m ?c = Some r"
      using Suc by (intro Suc.hyps(1)) auto
    with False show ?thesis by (simp add: waitUntilNextMilli.simps [of m c] clock_now_def)
  qed
qed

section \<open>The interface \<open>idgen.Generator\<close>\<close>

text \<open>
  \<open>mark s\<close> bounds every ID issued so far. Successful calls move it to the new ID, which is larger.
\<close>

locale id_generator =
  fixes gen_ok :: "'s \<Rightarrow> bool"
    and env_ok :: "'e \<Rightarrow> bool"
    and next_id :: "'e \<Rightarrow> 's \<Rightarrow> ((go_error + i64) \<times> 's \<times> 'e) option"
    and mark :: "'s \<Rightarrow> int"
  assumes next_ok: "gen_ok s \<Longrightarrow> env_ok c \<Longrightarrow> next_id c s = Some (r, s', c') \<Longrightarrow> gen_ok s' \<and> env_ok c'"
    and next_Inr: "gen_ok s \<Longrightarrow> env_ok c \<Longrightarrow> next_id c s = Some (Inr i, s', c')
      \<Longrightarrow> mark s < sint i \<and> mark s' = sint i"
    and next_Inl: "gen_ok s \<Longrightarrow> env_ok c \<Longrightarrow> next_id c s = Some (Inl err, s', c') \<Longrightarrow> mark s' = mark s"

text \<open>The IDs of \<open>n\<close> calls in a row; failed calls issue none.\<close>

fun issue_ids :: "('e \<Rightarrow> 's \<Rightarrow> ((go_error + i64) \<times> 's \<times> 'e) option) \<Rightarrow> nat \<Rightarrow> 'e \<Rightarrow> 's
    \<Rightarrow> (i64 list \<times> 's) option" where
  "issue_ids next_id 0 c s = Some ([], s)"
| "issue_ids next_id (Suc n) c s =
    (case next_id c s of
       None \<Rightarrow> None
     | Some (Inl err, s, c) \<Rightarrow> issue_ids next_id n c s
     | Some (Inr i, s, c) \<Rightarrow> map_option (\<lambda>(ids, s). (i # ids, s)) (issue_ids next_id n c s))"

context id_generator
begin

lemma issued_above:
  "gen_ok s \<Longrightarrow> env_ok c \<Longrightarrow> issue_ids next_id n c s = Some (ids, s')
    \<Longrightarrow> gen_ok s' \<and> sorted_wrt (<) (map sint ids) \<and> (\<forall>i \<in> set ids. mark s < sint i \<and> sint i \<le> mark s')
      \<and> mark s \<le> mark s'"
proof (induction n arbitrary: c s ids)
  case 0
  then show ?case by simp
next
  case (Suc n)
  then obtain r s1 c1 where step: "next_id c s = Some (r, s1, c1)"
    by (auto split: option.splits)
  note ok = next_ok [OF Suc.prems(1,2) step]
  show ?case
  proof (cases r)
    case (Inl err)
    with Suc.prems step have "issue_ids next_id n c1 s1 = Some (ids, s')" by simp
    with Suc.IH ok next_Inl [OF Suc.prems(1,2)] step Inl show ?thesis by metis
  next
    case (Inr i)
    with Suc.prems step obtain ids' where "issue_ids next_id n c1 s1 = Some (ids', s')"
      and ids: "ids = i # ids'" by auto
    with Suc.IH ok have "gen_ok s' \<and> sorted_wrt (<) (map sint ids')
        \<and> (\<forall>j \<in> set ids'. mark s1 < sint j \<and> sint j \<le> mark s') \<and> mark s1 \<le> mark s'" by blast
    with ids Inr next_Inr [OF Suc.prems(1,2)] step show ?thesis by fastforce
  qed
qed

lemma issued_distinct:
  "gen_ok s \<Longrightarrow> env_ok c \<Longrightarrow> issue_ids next_id n c s = Some (ids, s') \<Longrightarrow> distinct ids"
  using issued_above [of s c n ids s']
  by (metis distinct_map strict_sorted_iff)

end

section \<open>The generator implements the interface\<close>

abbreviation epoch :: int where "epoch \<equiv> 1767225600000"

definition snow_ok :: "Snowflake \<Rightarrow> bool" where
  "snow_ok s \<longleftrightarrow>
     sf_epochMillis s = defaultEpochMillis \<and> unat (sf_nodeID s) < 2 ^ 10 \<and> unat (sf_sequence s) < 2 ^ 12
       \<and> (sf_lastMillis s = - 1 \<or> epoch \<le> sint (sf_lastMillis s) \<and> sint (sf_lastMillis s) < epoch + 2 ^ 41)"

text \<open>A clock that stays below the capacity of the 41 timestamp bits (until September 2095).\<close>

definition clock_ok :: "clock \<Rightarrow> bool" where
  "clock_ok c \<longleftrightarrow> (\<forall>n. sint (readings c n) < epoch + 2 ^ 41)"

definition snow_id :: "i64 \<Rightarrow> i64 \<Rightarrow> i64 \<Rightarrow> int" where
  "snow_id millis node seq = int (pack (nat (sint millis - epoch)) (unat node) (unat seq))"

definition snow_mark :: "Snowflake \<Rightarrow> int" where
  "snow_mark s = (if sf_lastMillis s = - 1 then - 1
     else snow_id (sf_lastMillis s) (sf_nodeID s) (sf_sequence s))"

lemma sint_minus1 [simp]: "sint (- 1 :: i64) = - 1"
  by simp

lemma sint_epoch [simp]: "sint defaultEpochMillis = epoch"
  by (simp add: defaultEpochMillis_def)

lemma sint_timestamp:
  assumes "epoch \<le> sint now"
  shows "sint (now - defaultEpochMillis) = sint now - epoch"
proof -
  have "sint now < 2 ^ 63" using sint_lt [of now] by simp
  with assms have "signed_take_bit 63 (sint now - epoch) = sint now - epoch"
    by (intro signed_take_bit_int_eq_self) simp_all
  moreover have "sint (now - defaultEpochMillis) = signed_take_bit 63 (sint now - sint defaultEpochMillis)"
    by (simp add: sint_word_ariths del: sint_epoch)
  ultimately show ?thesis by simp
qed

lemma seq_step:
  assumes "unat seq < 2 ^ 12" and "(seq + 1) AND sequenceMask \<noteq> (0 :: i64)"
  shows "unat ((seq + 1) AND sequenceMask) = Suc (unat seq)"
proof -
  have m: "sequenceMask = mask 12" by (simp add: sequenceMask_def mask_eq_exp_minus_1)
  have u: "unat (seq + 1) = Suc (unat seq)"
    using assms(1) by (simp add: unat_word_ariths)
  have "(seq + 1) AND sequenceMask = take_bit 12 (seq + 1)" by (simp add: m take_bit_eq_mask)
  then have "unat ((seq + 1) AND sequenceMask) = take_bit 12 (unat (seq + 1))"
    by (simp only: unsigned_take_bit_eq)
  then have "unat ((seq + 1) AND sequenceMask) = Suc (unat seq) mod 2 ^ 12"
    by (simp only: u take_bit_eq_mod)
  moreover from this have "Suc (unat seq) \<noteq> 2 ^ 12"
    using assms(2) by (auto simp: word_unat_eq_iff)
  ultimately show ?thesis using assms(1) by simp
qed

lemma seq_bound: "unat ((seq + 1) AND sequenceMask :: i64) < 2 ^ 12"
proof -
  have "unat ((seq + 1) AND sequenceMask) \<le> unat sequenceMask"
    by (rule word_le_nat_alt [THEN iffD1]) (rule word_and_le1)
  then show ?thesis by (simp add: sequenceMask_def)
qed

text \<open>A successful call: the timestamp it uses, and the sequence number that goes with it.\<close>

lemma NextID_Inr:
  assumes ok: "snow_ok s" "clock_ok c" and eq: "NextID c s = Some (Inr i, s', c')"
  obtains now q where "epoch \<le> sint now" "sint now < epoch + 2 ^ 41"
    "s' = s\<lparr>sf_sequence := q, sf_lastMillis := now\<rparr>"
    "i = push_bit 22 (now - defaultEpochMillis) OR push_bit 12 (sf_nodeID s) OR q"
    "sint (sf_lastMillis s) < sint now \<and> q = 0
      \<or> now = sf_lastMillis s \<and> unat q = Suc (unat (sf_sequence s)) \<and> unat q < 2 ^ 12"
    "readings c' = readings c" "now \<in> range (readings c)"
proof -
  let ?now = "readings c (position c)"
  let ?q = "(sf_sequence s + 1) AND sequenceMask"
  have e: "sf_epochMillis s = defaultEpochMillis" using ok by (simp add: snow_ok_def)
  have lo: "epoch \<le> sint ?now" and last: "sint (sf_lastMillis s) \<le> sint ?now"
    using eq e by (auto simp: NextID_def clock_now_def split: if_splits)
  have cap: "sint w < epoch + 2 ^ 41" if "w \<in> range (readings c)" for w
    using ok(2) that by (auto simp: clock_ok_def)
  consider (wait) "?now = sf_lastMillis s" "?q = 0" | (same) "?now = sf_lastMillis s" "?q \<noteq> 0"
    | (later) "?now \<noteq> sf_lastMillis s" by blast
  then show thesis
  proof cases
    case wait
    with eq e lo last obtain now c1 where
      w: "waitUntilNextMilli (sf_lastMillis s) (c\<lparr>position := Suc (position c)\<rparr>) = Some (now, c1)"
      by (auto simp: NextID_def clock_now_def split: option.splits)
    from wait_result [OF w] have r: "sint (sf_lastMillis s) < sint now" "readings c1 = readings c"
      "now \<in> range (readings c)" by auto
    have "epoch \<le> sint now" using r(1) lo wait(1) by simp
    moreover have "s' = s\<lparr>sf_sequence := 0, sf_lastMillis := now\<rparr>" "c' = c1"
      "i = push_bit 22 (now - defaultEpochMillis) OR push_bit 12 (sf_nodeID s) OR 0"
      using eq e lo last wait w
      by (auto simp: NextID_def clock_now_def Let_def timeShift_def nodeShift_def split: if_splits)
    ultimately show thesis using r cap that by blast
  next
    case same
    have "s' = s\<lparr>sf_sequence := ?q, sf_lastMillis := ?now\<rparr>" "readings c' = readings c"
      "i = push_bit 22 (?now - defaultEpochMillis) OR push_bit 12 (sf_nodeID s) OR ?q"
      using eq e lo last same
      by (auto simp: NextID_def clock_now_def Let_def timeShift_def nodeShift_def split: if_splits)
    moreover have "unat ?q = Suc (unat (sf_sequence s))"
      using ok(1) same(2) by (intro seq_step) (simp_all add: snow_ok_def)
    ultimately show thesis using that lo same(1) cap seq_bound by (metis rangeI)
  next
    case later
    then have "sint (sf_lastMillis s) < sint ?now"
      using last by (metis order_le_less signed_word_eqI)
    moreover have "s' = s\<lparr>sf_sequence := 0, sf_lastMillis := ?now\<rparr>" "readings c' = readings c"
      "i = push_bit 22 (?now - defaultEpochMillis) OR push_bit 12 (sf_nodeID s) OR 0"
      using eq e lo last later
      by (auto simp: NextID_def clock_now_def Let_def timeShift_def nodeShift_def split: if_splits)
    ultimately show thesis using that lo cap by (metis rangeI)
  qed
qed

text \<open>The only errors below capacity are a clock before the epoch or behind the last millisecond.\<close>

lemma snowflake_no_error:
  assumes "snow_ok s" "clock_ok c" "NextID c s = Some (Inl err, s', c')"
  shows "sint (readings c (position c)) < epoch \<or> sint (readings c (position c)) < sint (sf_lastMillis s)"
proof (rule ccontr)
  assume n: "\<not> ?thesis"
  let ?now = "readings c (position c)"
  have e: "sf_epochMillis s = defaultEpochMillis" using assms by (simp add: snow_ok_def)
  have fit: "sint (now - defaultEpochMillis) < 2 ^ 41" if "epoch \<le> sint now" "now \<in> range (readings c)" for now
    using sint_timestamp [OF that(1)] assms(2) that(2) by (auto simp: clock_ok_def)
  have "sint (?now - defaultEpochMillis) < 2 ^ 41" using n by (intro fit) auto
  moreover have "sint (fst r - defaultEpochMillis) < 2 ^ 41"
    if "waitUntilNextMilli (sf_lastMillis s) (c\<lparr>position := Suc (position c)\<rparr>) = Some r"
      and "?now = sf_lastMillis s" for r
    using wait_result [OF that(1)] n that(2) by (intro fit) auto
  ultimately show False
    using assms(3) n e by (fastforce simp: NextID_def clock_now_def Let_def split: if_splits option.splits)
qed

lemma NextID_Inl:
  assumes ok: "snow_ok s" "clock_ok c" and eq: "NextID c s = Some (Inl err, s', c')"
  shows "s' = s \<and> readings c' = readings c"
  using snowflake_no_error [OF assms] eq ok(1)
  by (auto simp: NextID_def clock_now_def snow_ok_def split: if_splits)

lemma snow_id_value:
  assumes "epoch \<le> sint now" "sint now < epoch + 2 ^ 41" "unat node < 2 ^ 10" "unat q < 2 ^ 12"
  shows "sint (push_bit 22 (now - defaultEpochMillis) OR push_bit 12 node OR q) = snow_id now node q"
proof -
  let ?t = "now - defaultEpochMillis"
  have t: "int (unat ?t) = sint now - epoch"
    using assms(1) sint_timestamp [OF assms(1)] unat_of_sint [of ?t] by simp
  with assms(2) have "int (unat ?t) < 2 ^ 41" by simp
  then have "unat ?t < 2 ^ 41" by (metis of_nat_less_iff of_nat_numeral of_nat_power)
  note p = pack_word [OF this assms(3,4)]
  have "pack (unat ?t) (unat node) (unat q) < 2 ^ 63"
    using \<open>unat ?t < 2 ^ 41\<close> assms(3,4) by (rule pack_bound)
  with p have "sint (push_bit 22 ?t OR push_bit 12 node OR q) = int (pack (unat ?t) (unat node) (unat q))"
    by (metis sint_small)
  moreover have "unat ?t = nat (sint now - epoch)" using t by linarith
  ultimately show ?thesis by (simp add: snow_id_def)
qed

lemma snow_id_mono:
  assumes "epoch \<le> sint now" and "unat node < 2 ^ 10" and "unat q < 2 ^ 12"
    and "sint now < sint now' \<or> now = now' \<and> unat q < unat q'"
  shows "snow_id now node q < snow_id now' node q'"
proof (cases "now = now'")
  case True
  with assms(4) have "unat q < unat q'" by simp
  then have "pack t n (unat q) < pack t n (unat q')" for t n by (simp add: pack_def)
  with True show ?thesis by (simp only: snow_id_def of_nat_less_iff)
next
  case False
  with assms have "nat (sint now - epoch) < nat (sint now' - epoch)" by linarith
  with assms(2,3) have "pack (nat (sint now - epoch)) (unat node) (unat q)
      < pack (nat (sint now' - epoch)) (unat node) (unat q')" by (intro pack_less)
  then show ?thesis by (simp only: snow_id_def of_nat_less_iff)
qed

interpretation snowflake: id_generator snow_ok clock_ok NextID snow_mark
proof
  fix s s' :: Snowflake and c c' r i err
  assume ok: "snow_ok s" "clock_ok c"
  show "snow_ok s' \<and> clock_ok c'" if eq: "NextID c s = Some (r, s', c')"
  proof (cases r)
    case (Inl err)
    with NextID_Inl [OF ok] eq ok show ?thesis by (auto simp: clock_ok_def)
  next
    case (Inr i)
    with eq have eq: "NextID c s = Some (Inr i, s', c')" by simp
    from NextID_Inr [OF ok eq] ok show ?thesis
      by (cases) (auto simp: snow_ok_def clock_ok_def)
  qed
  show "snow_mark s < sint i \<and> snow_mark s' = sint i" if eq: "NextID c s = Some (Inr i, s', c')"
    using ok eq
  proof (rule NextID_Inr)
    fix now q
    assume now: "epoch \<le> sint now" "sint now < epoch + 2 ^ 41"
      and s': "s' = s\<lparr>sf_sequence := q, sf_lastMillis := now\<rparr>"
      and i: "i = push_bit 22 (now - defaultEpochMillis) OR push_bit 12 (sf_nodeID s) OR q"
      and step: "sint (sf_lastMillis s) < sint now \<and> q = 0
        \<or> now = sf_lastMillis s \<and> unat q = Suc (unat (sf_sequence s)) \<and> unat q < 2 ^ 12"
    have v: "sint i = snow_id now (sf_nodeID s) q"
      using ok now step unfolding i by (intro snow_id_value) (auto simp: snow_ok_def)
    have "now \<noteq> - 1" using now(1) by auto
    then have "snow_mark s' = sint i" using s' v by (simp add: snow_mark_def)
    moreover have "snow_mark s < sint i"
    proof (cases "sf_lastMillis s = - 1")
      case True
      with v show ?thesis by (simp add: snow_mark_def snow_id_def)
    next
      case False
      with ok step show ?thesis
        unfolding v by (auto simp: snow_mark_def snow_ok_def intro!: snow_id_mono)
    qed
    ultimately show ?thesis by simp
  qed
  show "snow_mark s' = snow_mark s" if "NextID c s = Some (Inl err, s', c')"
    using NextID_Inl [OF ok that] by simp
qed

section \<open>Properties\<close>

text \<open>The two ordinary steps: a later millisecond restarts the sequence, the same one advances it.\<close>

lemma NextID_later:
  assumes "snow_ok s" "epoch \<le> sint (r n)" "sint (r n) < epoch + 2 ^ 41" "sint (sf_lastMillis s) < sint (r n)"
  shows "NextID \<lparr>readings = r, position = n\<rparr> s =
    Some (Inr (push_bit 22 (r n - defaultEpochMillis) OR push_bit 12 (sf_nodeID s)),
      s\<lparr>sf_sequence := 0, sf_lastMillis := r n\<rparr>, \<lparr>readings = r, position = Suc n\<rparr>)"
proof -
  have "r n \<noteq> sf_lastMillis s" using assms(4) by auto
  then show ?thesis
    using assms sint_timestamp [OF assms(2)]
    by (simp add: NextID_def clock_now_def snow_ok_def timeShift_def nodeShift_def)
qed

lemma NextID_same:
  assumes "snow_ok s" "epoch \<le> sint (r n)" "sint (r n) < epoch + 2 ^ 41" "sf_lastMillis s = r n"
    and "(sf_sequence s + 1) AND sequenceMask \<noteq> 0"
  shows "NextID \<lparr>readings = r, position = n\<rparr> s =
    Some (Inr (push_bit 22 (r n - defaultEpochMillis) OR push_bit 12 (sf_nodeID s)
        OR ((sf_sequence s + 1) AND sequenceMask)),
      s\<lparr>sf_sequence := (sf_sequence s + 1) AND sequenceMask\<rparr>, \<lparr>readings = r, position = Suc n\<rparr>)"
  using assms sint_timestamp [OF assms(2)]
  by (simp add: NextID_def clock_now_def snow_ok_def timeShift_def nodeShift_def)

lemma NewSnowflake_ok:
  assumes "NewSnowflake nodeID = Inr g"
  shows "snow_ok g" "sf_nodeID g = nodeID" "snow_mark g = - 1"
proof -
  from assms have "0 \<le> sint nodeID" "sint nodeID \<le> 1023"
    and g: "g = \<lparr>sf_nodeID = nodeID, sf_epochMillis = defaultEpochMillis, sf_lastMillis = - 1, sf_sequence = 0\<rparr>"
    by (auto simp: NewSnowflake_def maxNodeID_def split: if_splits)
  then have "int (unat nodeID) < 2 ^ 10" using unat_of_sint [of nodeID] by simp
  then have "unat nodeID < 2 ^ 10" by (metis of_nat_less_iff of_nat_numeral of_nat_power)
  with g show "snow_ok g" "sf_nodeID g = nodeID" "snow_mark g = - 1"
    by (simp_all add: snow_ok_def snow_mark_def)
qed


abbreviation still_clock :: clock where
  "still_clock \<equiv> \<lparr>readings = (\<lambda>_. 1767225600123), position = 0\<rparr>"

lemma still_clock_ok: "clock_ok still_clock"
  by (simp add: clock_ok_def)

abbreviation fresh :: "i64 \<Rightarrow> Snowflake" where
  "fresh n \<equiv> \<lparr>sf_nodeID = n, sf_epochMillis = defaultEpochMillis, sf_lastMillis = - 1, sf_sequence = 0\<rparr>"

lemma fresh_first:
  assumes "unat n < 2 ^ 10"
  shows "NextID still_clock (fresh n) = Some (Inr (push_bit 22 123 OR push_bit 12 n),
    (fresh n)\<lparr>sf_lastMillis := 1767225600123\<rparr>, \<lparr>readings = (\<lambda>_. 1767225600123), position = 1\<rparr>)"
  using assms by (subst NextID_later) (simp_all add: snow_ok_def defaultEpochMillis_def)


text \<open>The node field of every issued ID is the generator's node.\<close>

lemma issued_node:
  "snow_ok s \<Longrightarrow> clock_ok c \<Longrightarrow> issue_ids NextID n c s = Some (ids, s')
    \<Longrightarrow> \<forall>i \<in> set ids. unat i div 2 ^ 12 mod 2 ^ 10 = unat (sf_nodeID s)"
proof (induction n arbitrary: c s ids)
  case 0
  then show ?case by simp
next
  case (Suc n)
  then obtain r s1 c1 where step: "NextID c s = Some (r, s1, c1)"
    by (auto split: option.splits)
  note ok = snowflake.next_ok [OF Suc.prems(1,2) step]
  show ?case
  proof (cases r)
    case (Inl err)
    with NextID_Inl [OF Suc.prems(1,2)] step have "s1 = s" by blast
    with Suc.IH [of s1 c1 ids] Suc.prems step Inl ok show ?thesis by simp
  next
    case (Inr i)
    with Suc.prems step obtain ids' where run: "issue_ids NextID n c1 s1 = Some (ids', s')"
      and ids: "ids = i # ids'" by auto
    from step Inr have "NextID c s = Some (Inr i, s1, c1)" by simp
    from NextID_Inr [OF Suc.prems(1,2) this] have node: "sf_nodeID s1 = sf_nodeID s
      \<and> unat i div 2 ^ 12 mod 2 ^ 10 = unat (sf_nodeID s)"
    proof cases
      case (1 now q)
      then have node: "sf_nodeID s1 = sf_nodeID s" by simp
      have q: "unat q < 2 ^ 12" using 1(5) by auto
      have t: "int (unat (now - defaultEpochMillis)) = sint now - epoch"
        using 1(1) sint_timestamp [OF 1(1)] unat_of_sint [of "now - defaultEpochMillis"] by simp
      with 1(2) have "int (unat (now - defaultEpochMillis)) < 2 ^ 41" by simp
      then have "unat (now - defaultEpochMillis) < 2 ^ 41" by (metis of_nat_less_iff of_nat_numeral of_nat_power)
      from Suc.prems(1) have n: "unat (sf_nodeID s) < 2 ^ 10" by (simp only: snow_ok_def)
      have "unat i = pack (unat (now - defaultEpochMillis)) (unat (sf_nodeID s)) (unat q)"
        using pack_word [OF \<open>unat (now - defaultEpochMillis) < 2 ^ 41\<close> n q] 1(4) by metis
      then show ?thesis using node pack_fields [OF n q] by metis
    qed
    moreover have "\<forall>j \<in> set ids'. unat j div 2 ^ 12 mod 2 ^ 10 = unat (sf_nodeID s1)"
      using ok Suc.IH [OF _ _ run] by blast
    ultimately show ?thesis unfolding ids by simp
  qed
qed

text \<open>C18: two service instances with different node IDs never issue the same ID, whatever their
  clocks show.\<close>

theorem snowflake_nodes_disjoint:
  assumes "NewSnowflake n1 = Inr g1" and "NewSnowflake n2 = Inr g2" and "n1 \<noteq> n2"
    and "clock_ok c1" and "clock_ok c2"
    and "issue_ids NextID k1 c1 g1 = Some (ids1, g1')" and "issue_ids NextID k2 c2 g2 = Some (ids2, g2')"
  shows "set ids1 \<inter> set ids2 = {}"
proof -
  note g1 = NewSnowflake_ok [OF assms(1)] and g2 = NewSnowflake_ok [OF assms(2)]
  have "unat n1 \<noteq> unat n2" using assms(3) by (simp only: word_unat_eq_iff simp_thms)
  then show ?thesis
    using issued_node [OF g1(1) assms(4,6)] issued_node [OF g2(1) assms(5,7)] g1(2) g2(2) by fastforce
qed

theorem snowflake_nodes_disjoint_witness:
  "\<exists>ids1 ids2. map_option fst (issue_ids NextID 1 still_clock (fresh 1)) = Some ids1
    \<and> map_option fst (issue_ids NextID 1 still_clock (fresh 2)) = Some ids2
    \<and> ids1 \<noteq> [] \<and> set ids1 \<inter> set ids2 = {}"
proof -
  have g: "NewSnowflake 1 = Inr (fresh 1)" "NewSnowflake 2 = Inr (fresh 2)"
    by (simp_all add: NewSnowflake_def maxNodeID_def)
  obtain ids1 g1' where r1: "issue_ids NextID 1 still_clock (fresh 1) = Some (ids1, g1')" "ids1 \<noteq> []"
    using fresh_first [of 1] by auto
  obtain ids2 g2' where r2: "issue_ids NextID 1 still_clock (fresh 2) = Some (ids2, g2')"
    using fresh_first [of 2] by auto
  have "set ids1 \<inter> set ids2 = {}"
    using snowflake_nodes_disjoint [OF g _ still_clock_ok still_clock_ok r1(1) r2] by simp
  with r1 r2 show ?thesis by auto
qed

text \<open>C19: \<open>NextID\<close> returns, and returns an ID, whenever the clock reading is at or after both the
  epoch and the last used millisecond and the clock later passes that millisecond; so an
  exhausted sequence only delays the caller.\<close>

theorem snowflake_returns:
  assumes "snow_ok s" and "clock_ok c"
    and "epoch \<le> sint (readings c (position c))"
    and "sint (sf_lastMillis s) \<le> sint (readings c (position c))"
    and "position c < k" and "sint (sf_lastMillis s) < sint (readings c k)"
  shows "\<exists>i s' c'. NextID c s = Some (Inr i, s', c')"
proof -
  have e: "sf_epochMillis s = defaultEpochMillis" using assms(1) by (simp add: snow_ok_def)
  obtain w where w: "waitUntilNextMilli (sf_lastMillis s) (c\<lparr>position := Suc (position c)\<rparr>) = Some w"
    using wait_returns [of "sf_lastMillis s" "c\<lparr>position := Suc (position c)\<rparr>" k] assms(5,6) by auto
  have "\<exists>r. NextID c s = Some r"
    using assms(3,4) e w by (cases w) (auto simp: NextID_def clock_now_def Let_def)
  then obtain r s' c' where r: "NextID c s = Some (r, s', c')" by auto
  have "r \<noteq> Inl err" for err
  proof
    assume "r = Inl err"
    then have "NextID c s = Some (Inl err, s', c')" using r by simp
    from snowflake_no_error [OF assms(1,2) this] assms(3,4) show False by linarith
  qed
  with r show ?thesis by (cases r) auto
qed

theorem snowflake_returns_witness:
  "\<exists>i s' c'. NextID \<lparr>readings = (\<lambda>n. if n < 3 then 1767225600123 else 1767225600124), position = 0\<rparr>
     \<lparr>sf_nodeID = 5, sf_epochMillis = defaultEpochMillis, sf_lastMillis = 1767225600123,
       sf_sequence = 4095\<rparr> = Some (Inr i, s', c')"
  by (rule snowflake_returns [where k = 3]) (simp_all add: snow_ok_def clock_ok_def)

text \<open>An ID need not be positive: in the epoch's first millisecond the generator of node 0
  issues the ID 0, although \<open>NextID\<close> is documented to return a positive ID.\<close>

theorem snowflake_first_id_zero:
  "\<exists>s'. map_option (\<lambda>(r, s, _). (r, s))
      (NextID \<lparr>readings = (\<lambda>_. 1767225600000), position = 0\<rparr> (fresh 0)) = Some (Inr 0, s')"
  by (subst NextID_later) (simp_all add: snow_ok_def defaultEpochMillis_def)

end
