(* ===== verification/Redis_Client.thy ===== *)
theory Redis_Client
  imports Snowflake Gorm
begin

text \<open>
  The Redis client of the Web3 service, \<open>web3/internal/redis/client.go\<close>, the database client of
  \<open>web3/internal/databases/client.go\<close> as far as it does not only configure the driver, and the
  dependency check of \<open>web3/internal/app/app.go\<close>. The \<open>go-redis\<close> library is a parameter: a record
  of its commands over an abstract world \<open>'w\<close> (server, network and time); \<open>goredis_ok\<close> is the
  documented behaviour of the commands on the key space: a failed command may or may not have been
  executed, and keys may expire at any moment, so the key space after a command is bounded above.
  A function with result type \<open>error\<close> that returns a \<open>*apperror.Error\<close> wraps the pointer with
  \<^const>\<open>as_error\<close>, as Go does.
\<close>

datatype redis_value = RedisInt int | RedisString string | RedisArray "redis_value list"

record 'w goredis =
  raw_Get :: "string \<Rightarrow> 'w \<Rightarrow> (go_error + string) \<times> 'w"
  raw_GetDel :: "string \<Rightarrow> 'w \<Rightarrow> (go_error + string) \<times> 'w"
  raw_Set :: "string \<Rightarrow> string \<Rightarrow> int \<Rightarrow> 'w \<Rightarrow> go_error option \<times> 'w"
  raw_SetNX :: "string \<Rightarrow> string \<Rightarrow> int \<Rightarrow> 'w \<Rightarrow> (go_error + bool) \<times> 'w"
  raw_Del :: "string list \<Rightarrow> 'w \<Rightarrow> go_error option \<times> 'w"
  raw_Exists :: "string list \<Rightarrow> 'w \<Rightarrow> (go_error + int) \<times> 'w"
  raw_Expire :: "string \<Rightarrow> int \<Rightarrow> 'w \<Rightarrow> (go_error + bool) \<times> 'w"
  raw_TTL :: "string \<Rightarrow> 'w \<Rightarrow> (go_error + int) \<times> 'w"
  raw_Incr :: "string \<Rightarrow> 'w \<Rightarrow> (go_error + int) \<times> 'w"
  raw_Eval :: "string \<Rightarrow> string list \<Rightarrow> string list \<Rightarrow> 'w \<Rightarrow> (go_error + redis_value) \<times> 'w"
  raw_Ping :: "'w \<Rightarrow> go_error option \<times> 'w"
  raw_Close :: "'w \<Rightarrow> go_error option \<times> 'w"

record 'w redis_client =
  rc_raw :: "'w goredis option"
  rc_keyPrefix :: string

section \<open>The client\<close>

definition rc_key :: "'w redis_client \<Rightarrow> string \<Rightarrow> string" where
  "rc_key c k = (if has_prefix k (rc_keyPrefix c) then k else rc_keyPrefix c @ k)"

definition rc_keys :: "'w redis_client \<Rightarrow> string list \<Rightarrow> string list" where
  "rc_keys c ks = map (rc_key c) ks"

definition redisError :: "go_error option \<Rightarrow> string \<Rightarrow> go_error option" where
  "redisError err message = as_error (Wrap err CodeUnavailable message 503)"

text \<open>
  The commands are called on a client that \<open>NewClient\<close> made, whose \<open>raw\<close> is never nil; only \<open>Close\<close>
  tests for it. \<open>raw_of\<close> is that field.
\<close>

abbreviation raw_of :: "'w redis_client \<Rightarrow> 'w goredis" where
  "raw_of c \<equiv> the (rc_raw c)"

text \<open>\<open>return zero, redisError(err, message)\<close> with a non-nil \<open>err\<close>.\<close>

definition fail_with :: "go_error \<Rightarrow> string \<Rightarrow> go_error" where
  "fail_with err message = AppErr (Wrap (Some err) CodeUnavailable message 503)"

definition rc_Get :: "'w redis_client \<Rightarrow> string \<Rightarrow> 'w \<Rightarrow> (go_error + string) \<times> 'w" where
  "rc_Get c k w =
    (case raw_Get (raw_of c) (rc_key c k) w of
       (Inl err, w) \<Rightarrow> if errors_Is err RedisNil then (Inr [], w)
         else (Inl (fail_with err ''failed to get Redis value''), w)
     | (Inr v, w) \<Rightarrow> (Inr v, w))"

definition rc_GetDel :: "'w redis_client \<Rightarrow> string \<Rightarrow> 'w \<Rightarrow> (go_error + string) \<times> 'w" where
  "rc_GetDel c k w =
    (case raw_GetDel (raw_of c) (rc_key c k) w of
       (Inl err, w) \<Rightarrow> if errors_Is err RedisNil then (Inr [], w)
         else (Inl (fail_with err ''failed to consume Redis value''), w)
     | (Inr v, w) \<Rightarrow> (Inr v, w))"

definition rc_Set :: "'w redis_client \<Rightarrow> string \<Rightarrow> string \<Rightarrow> int \<Rightarrow> 'w \<Rightarrow> go_error option \<times> 'w" where
  "rc_Set c k v expiration w =
    (case raw_Set (raw_of c) (rc_key c k) v expiration w of
       (err, w) \<Rightarrow> (redisError err ''failed to set Redis value'', w))"

definition rc_SetNX :: "'w redis_client \<Rightarrow> string \<Rightarrow> string \<Rightarrow> int \<Rightarrow> 'w \<Rightarrow> (go_error + bool) \<times> 'w" where
  "rc_SetNX c k v expiration w =
    (case raw_SetNX (raw_of c) (rc_key c k) v expiration w of
       (Inl err, w) \<Rightarrow> (Inl (fail_with err ''failed to create Redis value''), w)
     | (Inr created, w) \<Rightarrow> (Inr created, w))"

definition rc_Delete :: "'w redis_client \<Rightarrow> string list \<Rightarrow> 'w \<Rightarrow> go_error option \<times> 'w" where
  "rc_Delete c ks w =
    (if ks = [] then (None, w)
     else (case raw_Del (raw_of c) (rc_keys c ks) w of
       (err, w) \<Rightarrow> (redisError err ''failed to delete Redis value'', w)))"

definition rc_Exists :: "'w redis_client \<Rightarrow> string list \<Rightarrow> 'w \<Rightarrow> (go_error + bool) \<times> 'w" where
  "rc_Exists c ks w =
    (if ks = [] then (Inr False, w)
     else (case raw_Exists (raw_of c) (rc_keys c ks) w of
       (Inl err, w) \<Rightarrow> (Inl (fail_with err ''failed to check Redis value''), w)
     | (Inr n, w) \<Rightarrow> (Inr (0 < n), w)))"

definition rc_Expire :: "'w redis_client \<Rightarrow> string \<Rightarrow> int \<Rightarrow> 'w \<Rightarrow> (go_error + bool) \<times> 'w" where
  "rc_Expire c k expiration w =
    (case raw_Expire (raw_of c) (rc_key c k) expiration w of
       (Inl err, w) \<Rightarrow> (Inl (fail_with err ''failed to update Redis expiration''), w)
     | (Inr updated, w) \<Rightarrow> (Inr updated, w))"

definition rc_TTL :: "'w redis_client \<Rightarrow> string \<Rightarrow> 'w \<Rightarrow> (go_error + int) \<times> 'w" where
  "rc_TTL c k w =
    (case raw_TTL (raw_of c) (rc_key c k) w of
       (Inl err, w) \<Rightarrow> (Inl (fail_with err ''failed to get Redis expiration''), w)
     | (Inr ttl, w) \<Rightarrow> (Inr ttl, w))"

definition rc_Incr :: "'w redis_client \<Rightarrow> string \<Rightarrow> 'w \<Rightarrow> (go_error + int) \<times> 'w" where
  "rc_Incr c k w =
    (case raw_Incr (raw_of c) (rc_key c k) w of
       (Inl err, w) \<Rightarrow> (Inl (fail_with err ''failed to increment Redis value''), w)
     | (Inr v, w) \<Rightarrow> (Inr v, w))"

definition rc_Eval :: "'w redis_client \<Rightarrow> string \<Rightarrow> string list \<Rightarrow> string list \<Rightarrow> 'w \<Rightarrow> (go_error + redis_value) \<times> 'w" where
  "rc_Eval c script ks args w =
    (case raw_Eval (raw_of c) script (rc_keys c ks) args w of
       (Inl err, w) \<Rightarrow> (Inl (fail_with err ''failed to execute Redis script''), w)
     | (Inr v, w) \<Rightarrow> (Inr v, w))"

definition rc_Ping :: "'w redis_client \<Rightarrow> 'w \<Rightarrow> go_error option \<times> 'w" where
  "rc_Ping c w = (case raw_Ping (raw_of c) w of (err, w) \<Rightarrow> (redisError err ''Redis is unavailable'', w))"

definition rc_Close :: "'w redis_client option \<Rightarrow> 'w \<Rightarrow> go_error option \<times> 'w" where
  "rc_Close client w =
    (case client of
       None \<Rightarrow> (None, w)
     | Some c \<Rightarrow>
         (case rc_raw c of
            None \<Rightarrow> (None, w)
          | Some raw \<Rightarrow> (case raw_Close raw w of
              (err, w) \<Rightarrow> (as_error (Wrap err CodeInternal ''failed to close Redis client'' 500), w))))"

section \<open>The database client and the dependency check\<close>

record 'w sql_db =
  sql_Ping :: "'w \<Rightarrow> go_error option \<times> 'w"
  sql_Close :: "'w \<Rightarrow> go_error option \<times> 'w"

record 'w GormClient =
  gc_sqlDB :: "'w sql_db option"

definition gc_Ping :: "'w GormClient option \<Rightarrow> 'w \<Rightarrow> go_error option \<times> 'w" where
  "gc_Ping client w =
    (case client of
       None \<Rightarrow> (Some (Unavailable ''database client is not initialized''), w)
     | Some c \<Rightarrow>
         (case gc_sqlDB c of
            None \<Rightarrow> (Some (Unavailable ''database client is not initialized''), w)
          | Some db \<Rightarrow>
              (case sql_Ping db w of
                 (None, w) \<Rightarrow> (None, w)
               | (Some err, w) \<Rightarrow> (as_error (Wrap (Some err) CodeUnavailable ''database is unavailable'' 503), w))))"

definition gc_Close :: "'w GormClient option \<Rightarrow> 'w \<Rightarrow> go_error option \<times> 'w" where
  "gc_Close client w =
    (case client of
       None \<Rightarrow> (None, w)
     | Some c \<Rightarrow>
         (case gc_sqlDB c of
            None \<Rightarrow> (None, w)
          | Some db \<Rightarrow>
              (case sql_Close db w of
                 (err, w) \<Rightarrow> (as_error (Wrap err CodeInternal ''failed to close database client'' 500), w))))"

text \<open>\<open>err = errors.Join(database.Ping(checkCtx), redisClient.Ping(checkCtx))\<close> and the error \<open>Run\<close>
  returns for it.\<close>

definition check_dependencies :: "'w GormClient option \<Rightarrow> 'w redis_client \<Rightarrow> 'w \<Rightarrow> go_error option \<times> 'w" where
  "check_dependencies database redisClient w =
    (case gc_Ping database w of
       (dbErr, w) \<Rightarrow> (case rc_Ping redisClient w of
         (redisErr, w) \<Rightarrow>
           (map_option (WrapErr ''check Web3 dependencies: '') (errors_Join [dbErr, redisErr]), w)))"

section \<open>The key space\<close>

text \<open>\<open>store\<close> reads the key space of the server off the world.\<close>

definition goredis_ok :: "'w goredis \<Rightarrow> ('w \<Rightarrow> string \<rightharpoonup> string) \<Rightarrow> bool" where
  "goredis_ok raw store \<longleftrightarrow>
     (\<forall>k w res w'. raw_Get raw k w = (res, w') \<longrightarrow> store w' \<subseteq>\<^sub>m store w
        \<and> (case res of Inl err \<Rightarrow> errors_Is err RedisNil \<longrightarrow> store w' k = None | Inr v \<Rightarrow> store w k = Some v))
   \<and> (\<forall>k w res w'. raw_GetDel raw k w = (res, w') \<longrightarrow> store w' \<subseteq>\<^sub>m store w
        \<and> (case res of Inl err \<Rightarrow> errors_Is err RedisNil \<longrightarrow> store w' k = None
           | Inr v \<Rightarrow> store w k = Some v \<and> store w' k = None))
   \<and> (\<forall>k v t w res w'. raw_SetNX raw k v t w = (res, w') \<longrightarrow>
        (case res of Inr False \<Rightarrow> store w' \<subseteq>\<^sub>m store w | _ \<Rightarrow> store w' \<subseteq>\<^sub>m (store w)(k \<mapsto> v)))
   \<and> (\<forall>k v t w err w'. raw_Set raw k v t w = (err, w') \<longrightarrow>
        store w' \<subseteq>\<^sub>m (store w)(k \<mapsto> v) \<or> store w' \<subseteq>\<^sub>m store w)"

definition redis_ok :: "'w redis_client \<Rightarrow> ('w \<Rightarrow> string \<rightharpoonup> string) \<Rightarrow> bool" where
  "redis_ok c store \<longleftrightarrow> (\<exists>raw. rc_raw c = Some raw \<and> goredis_ok raw store)"

section \<open>Lemmas\<close>

lemma rc_key_idem [simp]: "rc_key c (rc_key c k) = rc_key c k"
  by (simp add: rc_key_def has_prefix_def)

lemma rc_GetDel_Inr:
  assumes "redis_ok c store" "rc_GetDel c k w = (Inr v, w')"
  shows "store w' \<subseteq>\<^sub>m store w" "store w' (rc_key c k) = None" "v \<noteq> [] \<Longrightarrow> store w (rc_key c k) = Some v"
proof -
  from assms(1) obtain raw where raw: "rc_raw c = Some raw" "goredis_ok raw store"
    by (auto simp: redis_ok_def)
  obtain res w1 where g: "raw_GetDel raw (rc_key c k) w = (res, w1)" by fastforce
  have "store w1 \<subseteq>\<^sub>m store w \<and> (case res of Inl err \<Rightarrow> errors_Is err RedisNil \<longrightarrow> store w1 (rc_key c k) = None
           | Inr v \<Rightarrow> store w (rc_key c k) = Some v \<and> store w1 (rc_key c k) = None)"
    using raw(2) g unfolding goredis_ok_def by blast
  with assms(2) g raw(1) show "store w' \<subseteq>\<^sub>m store w" "store w' (rc_key c k) = None"
    "v \<noteq> [] \<Longrightarrow> store w (rc_key c k) = Some v"
    by (auto simp: rc_GetDel_def split: sum.splits if_splits)
qed

lemma rc_GetDel_shrinks:
  assumes "redis_ok c store" "rc_GetDel c k w = (res, w')"
  shows "store w' \<subseteq>\<^sub>m store w"
proof -
  from assms(1) obtain raw where raw: "rc_raw c = Some raw" "goredis_ok raw store"
    by (auto simp: redis_ok_def)
  obtain r w1 where g: "raw_GetDel raw (rc_key c k) w = (r, w1)" by fastforce
  have "store w1 \<subseteq>\<^sub>m store w" using raw(2) g unfolding goredis_ok_def by blast
  with assms(2) g raw(1) show ?thesis by (auto simp: rc_GetDel_def split: sum.splits if_splits)
qed

lemma rc_SetNX_bound:
  assumes "redis_ok c store" "rc_SetNX c k v t w = (res, w')"
  shows "store w' \<subseteq>\<^sub>m (store w)(rc_key c k \<mapsto> v) \<or> store w' \<subseteq>\<^sub>m store w"
proof -
  from assms(1) obtain raw where raw: "rc_raw c = Some raw" "goredis_ok raw store"
    by (auto simp: redis_ok_def)
  obtain r w1 where g: "raw_SetNX raw (rc_key c k) v t w = (r, w1)" by fastforce
  have "case r of Inr False \<Rightarrow> store w1 \<subseteq>\<^sub>m store w | _ \<Rightarrow> store w1 \<subseteq>\<^sub>m (store w)(rc_key c k \<mapsto> v)"
    using raw(2) g unfolding goredis_ok_def by blast
  then have "store w1 \<subseteq>\<^sub>m (store w)(rc_key c k \<mapsto> v) \<or> store w1 \<subseteq>\<^sub>m store w"
    by (auto split: sum.splits bool.splits)
  moreover have "w' = w1" using assms(2) g raw(1) by (auto simp: rc_SetNX_def split: sum.splits)
  ultimately show ?thesis by simp
qed

lemma rc_SetNX_True:
  assumes "redis_ok c store" "rc_SetNX c k v t w = (Inr True, w')"
  shows "store w' (rc_key c k) \<in> {None, Some v}"
proof -
  from assms(1) obtain raw where raw: "rc_raw c = Some raw" "goredis_ok raw store"
    by (auto simp: redis_ok_def)
  from assms(2) raw(1) have g: "raw_SetNX raw (rc_key c k) v t w = (Inr True, w')"
    by (auto simp: rc_SetNX_def split: sum.splits prod.splits)
  have "case (Inr True :: go_error + bool) of Inr False \<Rightarrow> store w' \<subseteq>\<^sub>m store w | _ \<Rightarrow> store w' \<subseteq>\<^sub>m (store w)(rc_key c k \<mapsto> v)"
    using raw(2) g unfolding goredis_ok_def by blast
  then have "store w' \<subseteq>\<^sub>m (store w)(rc_key c k \<mapsto> v)" by simp
  then show ?thesis by (cases "store w' (rc_key c k)") (auto simp: map_le_def dom_def)
qed

lemma rc_Get_store:
  assumes "redis_ok c store" "rc_Get c k w = (res, w')"
  shows "store w' \<subseteq>\<^sub>m store w" "res = Inr v \<Longrightarrow> v \<noteq> [] \<Longrightarrow> store w (rc_key c k) = Some v"
proof -
  from assms(1) obtain raw where raw: "rc_raw c = Some raw" "goredis_ok raw store"
    by (auto simp: redis_ok_def)
  obtain r w1 where g: "raw_Get raw (rc_key c k) w = (r, w1)" by fastforce
  have "store w1 \<subseteq>\<^sub>m store w \<and> (case r of Inl err \<Rightarrow> errors_Is err RedisNil \<longrightarrow> store w1 (rc_key c k) = None
      | Inr v \<Rightarrow> store w (rc_key c k) = Some v)"
    using raw(2) g unfolding goredis_ok_def by blast
  with assms(2) g raw(1) show "store w' \<subseteq>\<^sub>m store w" "res = Inr v \<Longrightarrow> v \<noteq> [] \<Longrightarrow> store w (rc_key c k) = Some v"
    by (auto simp: rc_Get_def split: sum.splits if_splits)
qed

lemma rc_Set_bound:
  assumes "redis_ok c store" "rc_Set c k v t w = (res, w')"
  shows "store w' \<subseteq>\<^sub>m (store w)(rc_key c k \<mapsto> v) \<or> store w' \<subseteq>\<^sub>m store w"
proof -
  from assms(1) obtain raw where raw: "rc_raw c = Some raw" "goredis_ok raw store"
    by (auto simp: redis_ok_def)
  obtain r w1 where g: "raw_Set raw (rc_key c k) v t w = (r, w1)" by fastforce
  have "store w1 \<subseteq>\<^sub>m (store w)(rc_key c k \<mapsto> v) \<or> store w1 \<subseteq>\<^sub>m store w"
    using raw(2) g unfolding goredis_ok_def by blast
  with assms(2) g raw(1) show ?thesis by (auto simp: rc_Set_def)
qed

section \<open>A concrete server\<close>

text \<open>The key space in an association list, no failures, no expiry.\<close>

type_synonym mem_world = "(string \<times> string) list"

definition mem_drop :: "string \<Rightarrow> mem_world \<Rightarrow> mem_world" where
  "mem_drop k w = filter (\<lambda>e. fst e \<noteq> k) w"

definition mem_redis :: "mem_world goredis" where
  "mem_redis =
    \<lparr>raw_Get = (\<lambda>k w. (case map_of w k of None \<Rightarrow> Inl (Sentinel RedisNil) | Some v \<Rightarrow> Inr v, w)),
     raw_GetDel = (\<lambda>k w. (case map_of w k of None \<Rightarrow> (Inl (Sentinel RedisNil), w) | Some v \<Rightarrow> (Inr v, mem_drop k w))),
     raw_Set = (\<lambda>k v t w. (None, (k, v) # w)),
     raw_SetNX = (\<lambda>k v t w. (case map_of w k of None \<Rightarrow> (Inr True, (k, v) # w) | Some _ \<Rightarrow> (Inr False, w))),
     raw_Del = (\<lambda>ks w. (None, foldr mem_drop ks w)),
     raw_Exists = (\<lambda>ks w. (Inr (int (length (filter (\<lambda>k. map_of w k \<noteq> None) ks))), w)),
     raw_Expire = (\<lambda>k t w. (Inr (map_of w k \<noteq> None), w)),
     raw_TTL = (\<lambda>k w. (Inr 0, w)),
     raw_Incr = (\<lambda>k w. (Inr 0, w)),
     raw_Eval = (\<lambda>s ks as w. (Inr (RedisInt 0), w)),
     raw_Ping = (\<lambda>w. (None, w)),
     raw_Close = (\<lambda>w. (None, w))\<rparr>"

definition mem_client :: "mem_world redis_client" where
  "mem_client = \<lparr>rc_raw = Some mem_redis, rc_keyPrefix = ''web3:''\<rparr>"

lemma map_of_drop: "map_of (mem_drop k w) x = (if x = k then None else map_of w x)"
  by (induction w) (auto simp: mem_drop_def)

lemma mem_redis_ok: "goredis_ok mem_redis map_of"
proof -
  have "map_of (mem_drop k w) \<subseteq>\<^sub>m map_of w" for k w
    by (auto simp: map_le_def map_of_drop dom_def)
  then show ?thesis
    unfolding goredis_ok_def mem_redis_def
    by (auto simp: map_of_drop errors_Is_def split: option.splits)
qed

lemma mem_client_ok: "redis_ok mem_client map_of"
  by (simp add: redis_ok_def mem_client_def mem_redis_ok)

text \<open>The same server in a world with a second component.\<close>

definition on_fst :: "('a \<Rightarrow> 'r \<times> 'a) \<Rightarrow> 'a \<times> 'b \<Rightarrow> 'r \<times> 'a \<times> 'b" where
  "on_fst f w = (case f (fst w) of (r, a) \<Rightarrow> (r, (a, snd w)))"

definition lift_redis :: "'a goredis \<Rightarrow> ('a \<times> 'b) goredis" where
  "lift_redis R =
    \<lparr>raw_Get = (\<lambda>k. on_fst (raw_Get R k)), raw_GetDel = (\<lambda>k. on_fst (raw_GetDel R k)),
     raw_Set = (\<lambda>k v t. on_fst (raw_Set R k v t)), raw_SetNX = (\<lambda>k v t. on_fst (raw_SetNX R k v t)),
     raw_Del = (\<lambda>ks. on_fst (raw_Del R ks)), raw_Exists = (\<lambda>ks. on_fst (raw_Exists R ks)),
     raw_Expire = (\<lambda>k t. on_fst (raw_Expire R k t)), raw_TTL = (\<lambda>k. on_fst (raw_TTL R k)),
     raw_Incr = (\<lambda>k. on_fst (raw_Incr R k)), raw_Eval = (\<lambda>s ks as. on_fst (raw_Eval R s ks as)),
     raw_Ping = on_fst (raw_Ping R), raw_Close = on_fst (raw_Close R)\<rparr>"

definition lift_client :: "'a redis_client \<Rightarrow> ('a \<times> 'b) redis_client" where
  "lift_client c = \<lparr>rc_raw = map_option lift_redis (rc_raw c), rc_keyPrefix = rc_keyPrefix c\<rparr>"

lemma on_fst_eq: "on_fst f w = (r, w') \<longleftrightarrow> f (fst w) = (r, fst w') \<and> snd w' = snd w"
  by (cases w') (auto simp: on_fst_def split: prod.splits)

lemma lift_redis_ok:
  assumes "goredis_ok R store"
  shows "goredis_ok (lift_redis R) (\<lambda>w. store (fst w))"
proof -
  note parts = assms [unfolded goredis_ok_def]
  show ?thesis
    unfolding goredis_ok_def lift_redis_def goredis.simps on_fst_eq
    using parts by blast
qed

lemma lift_client_ok: "redis_ok c store \<Longrightarrow> redis_ok (lift_client c) (\<lambda>w. store (fst w))"
  by (auto simp: redis_ok_def lift_client_def intro: lift_redis_ok)

lemma rc_key_lift: "rc_key (lift_client c) k = rc_key c k"
  by (simp add: rc_key_def lift_client_def)

section \<open>Properties\<close>

text \<open>C22: the operations whose only result is an error never report success: when the server
  succeeds they return a non-nil \<open>error\<close> that holds a nil \<open>*apperror.Error\<close>.\<close>

theorem redis_success_is_an_error:
  "fst (rc_Set c k v t w) \<noteq> None \<and> fst (rc_Delete c (k # ks) w) \<noteq> None
   \<and> fst (rc_Ping c w) = Some (AppErr (Wrap (fst (raw_Ping (raw_of c) w)) CodeUnavailable ''Redis is unavailable'' 503))"
  by (simp add: rc_Set_def rc_Ping_def rc_Delete_def redisError_def as_error_def Wrap_def split: prod.splits)

text \<open>So the dependency check of the service fails in every state, also when the database and
  Redis are up: \<open>Run\<close> returns before it creates the service.\<close>

theorem dependency_check_never_passes:
  "\<exists>err w'. check_dependencies database c w = (Some err, w')"
  by (auto simp: check_dependencies_def rc_Ping_def redisError_def as_error_def errors_Join_def
      split: prod.splits option.splits)

end
