(* ===== verification/Web3_Config.thy ===== *)
theory Web3_Config
  imports Complex_Main App_Error
begin

text \<open>
  The configuration of the Web3 service, \<open>web3/internal/config/config.go\<close>: the structs as records
  (\<open>float64\<close> fields as rationals, NaN excluded), the environment overrides and \<open>Validate\<close>, one
  definition per section of its body. \<open>time.ParseDuration\<close> is the parameter \<open>pd\<close> (its fractions
  are computed in floating point) and \<open>os.Getenv\<close> the parameter \<open>getenv\<close>. Go iterates over a map
  literal in an unspecified order: \<open>perm\<close> is the order in which one is visited, so which of several
  invalid durations is reported depends on it.
\<close>

section \<open>The structs\<close>

record DatabaseConfig =
  db_Enabled :: bool
  db_Driver :: string
  db_Host :: string
  db_Port :: int
  db_Username :: string
  db_Password :: string
  db_DBName :: string
  db_SSLMode :: string
  db_TimeZone :: string
  db_ConnectTimeout :: string
  db_ReadWriteSplitEnabled :: bool
  db_ReplicaAddresses :: "string list"
  db_MaxIdleConns :: int
  db_MaxOpenConns :: int
  db_ConnMaxIdleTime :: string
  db_ConnMaxLifetime :: string

record RedisConfig =
  rd_Enabled :: bool
  rd_Host :: string
  rd_Port :: int
  rd_ClusterAddresses :: "string list"
  rd_Password :: string
  rd_DB :: int
  rd_KeyPrefix :: string
  rd_PoolSize :: int
  rd_MinIdleConns :: int
  rd_MaxIdleConns :: int
  rd_ConnMaxIdleTime :: string
  rd_ConnMaxLifetime :: string
  rd_DialTimeout :: string
  rd_ReadTimeout :: string
  rd_WriteTimeout :: string
  rd_PoolTimeout :: string
  rd_HealthRequired :: bool

record RabbitMQEventConfig =
  mqe_Exchange :: string
  mqe_ExchangeType :: string
  mqe_RoutingKey :: string
  mqe_Queue :: string
  mqe_RetryExchange :: string
  mqe_RetryRoutingKey :: string
  mqe_RetryQueue :: string
  mqe_RetryDelay :: string
  mqe_MaxRetries :: int
  mqe_DeadLetterExchange :: string
  mqe_DeadLetterRoutingKey :: string
  mqe_DeadLetterQueue :: string

record RabbitMQConfig =
  mq_Enabled :: bool
  mq_Host :: string
  mq_Port :: int
  mq_Username :: string
  mq_Password :: string
  mq_VHost :: string
  mq_ConnectionName :: string
  mq_Heartbeat :: string
  mq_DialTimeout :: string
  mq_ReconnectInterval :: string
  mq_PublishConfirmTimeout :: string
  mq_PrefetchCount :: int
  mq_ChainEvent :: RabbitMQEventConfig

record AccessTokenConfig =
  at_Issuer :: string
  at_Audience :: string
  at_Algorithm :: string
  at_JWKSURL :: string
  at_RolePriority :: "string list"

record AuthConfig =
  ac_AccessToken :: AccessTokenConfig

record GRPCHealthConfig =
  gh_Enabled :: bool
  gh_Service :: string

record GRPCConfig =
  gc_UseTLS :: bool
  gc_TLSServerName :: string
  gc_CertFile :: string
  gc_KeyFile :: string
  gc_ClientCAFile :: string
  gc_Health :: GRPCHealthConfig
  gc_MaxRecvMessageSize :: int
  gc_MaxSendMessageSize :: int

record RegistrationMaintenanceConfig =
  rm_Enabled :: bool
  rm_Interval :: string
  rm_MaxBackoff :: string

record ConsulConfig =
  cc_Enabled :: bool
  cc_Host :: string
  cc_Port :: int
  cc_Token :: string
  cc_Scheme :: string
  cc_CheckHost :: string
  cc_CheckInterval :: string
  cc_CheckTimeout :: string
  cc_DeregisterCriticalAfter :: string
  cc_RuntimeConfigKey :: string
  cc_RuntimeConfigRequired :: bool
  cc_RegistrationRequired :: bool
  cc_DeregisterOnShutdown :: bool
  cc_RegistrationMaintenance :: RegistrationMaintenanceConfig

record WalletSignatureConfig =
  wsc_Domain :: string
  wsc_URI :: string
  wsc_Statement :: string
  wsc_NonceTTL :: string
  wsc_NonceBytes :: int
  wsc_AllowedClockSkew :: string

record ScannerConfig =
  scan_Enabled :: bool
  scan_PollInterval :: string
  scan_BatchSize :: int
  scan_StartBlock :: u64

record BlockchainChainConfig =
  ch_ChainID :: u64
  ch_Name :: string
  ch_Enabled :: bool
  ch_RPCURLs :: "string list"
  ch_NativeSymbol :: string
  ch_NativeDecimals :: int
  ch_RequiredConfirmations :: u64

record BlockchainConfig =
  blk_RequestTimeout :: string
  blk_RetryCount :: int
  blk_BalanceCacheTTL :: string
  blk_Scanner :: ScannerConfig
  blk_Chains :: "BlockchainChainConfig list"

record TronApprovalConfig =
  ta_Enabled :: bool
  ta_TronScanBaseURL :: string
  ta_TronGridBaseURL :: string
  ta_APIKey :: string
  ta_USDTContract :: string
  ta_CacheTTL :: string
  ta_RequestTimeout :: string
  ta_PageSize :: int
  ta_MaxPages :: int
  ta_MaxSpenders :: int
  ta_VerifyWorkers :: int
  ta_UsageHMACKey :: string
  ta_DailyQueryLimit :: int
  ta_DailyAddressLimit :: int
  ta_DailyUpstreamCallLimit :: int

record LoggerConfig =
  lg_Level :: string
  lg_Format :: string
  lg_Filename :: string
  lg_MaxSize :: int
  lg_MaxBackups :: int
  lg_MaxAge :: int
  lg_Compress :: bool

record TracingConfig =
  tc_Enabled :: bool
  tc_ServiceName :: string
  tc_Endpoint :: string
  tc_SamplerType :: string
  tc_SamplerParam :: rat
  tc_UseTLS :: bool
  tc_CAFile :: string
  tc_CertFile :: string
  tc_KeyFile :: string
  tc_ServerName :: string

record RateLimitConfig =
  rl_Enabled :: bool
  rl_RequestsPerSecond :: rat
  rl_Burst :: int
  rl_MaxUnaryConcurrency :: int
  rl_MaxStreamConcurrency :: int

record PprofConfig =
  pp_Enabled :: bool
  pp_Host :: string
  pp_Port :: int
  pp_AllowRemote :: bool
  pp_BlockProfileRate :: int
  pp_MutexProfileFraction :: int

record ShutdownConfig =
  sd_Timeout :: string

record Config =
  cfg_Environment :: string
  cfg_Name :: string
  cfg_Version :: string
  cfg_Host :: string
  cfg_GRPCPort :: int
  cfg_AdvertiseHost :: string
  cfg_Database :: DatabaseConfig
  cfg_Redis :: RedisConfig
  cfg_RabbitMQ :: RabbitMQConfig
  cfg_Auth :: AuthConfig
  cfg_GRPC :: GRPCConfig
  cfg_Consul :: ConsulConfig
  cfg_WalletSignature :: WalletSignatureConfig
  cfg_Blockchain :: BlockchainConfig
  cfg_TronApprovals :: TronApprovalConfig
  cfg_Logger :: LoggerConfig
  cfg_Tracing :: TracingConfig
  cfg_RateLimit :: RateLimitConfig
  cfg_Pprof :: PprofConfig
  cfg_Shutdown :: ShutdownConfig


section \<open>Network addresses (package \<open>net\<close>)\<close>

definition JoinHostPort :: "string \<Rightarrow> string \<Rightarrow> string" where
  "JoinHostPort host port =
    (if CHR '':'' \<in> set host then ''['' @ host @ '']:'' @ port else host @ '':'' @ port)"

definition index_byte :: "string \<Rightarrow> char \<Rightarrow> nat option" where
  "index_byte s c = (if c \<in> set s then Some (length (takeWhile (\<lambda>x. x \<noteq> c) s)) else None)"

definition last_index_byte :: "string \<Rightarrow> char \<Rightarrow> nat option" where
  "last_index_byte s c =
    (if c \<in> set s then Some (length s - 1 - length (takeWhile (\<lambda>x. x \<noteq> c) (rev s))) else None)"

definition addr_error :: "string \<Rightarrow> string \<Rightarrow> go_error" where
  "addr_error addr why = PlainErr (''address '' @ addr @ '': '' @ why)"

definition SplitHostPort :: "string \<Rightarrow> go_error + string \<times> string" where
  "SplitHostPort hostport =
    (let missing = Inl (addr_error hostport ''missing port in address'');
         tooMany = Inl (addr_error hostport ''too many colons in address'');
         finish = (\<lambda>host j k i.
           if CHR ''['' \<in> set (drop j hostport) then Inl (addr_error hostport ''unexpected '[' in address'')
           else if CHR '']'' \<in> set (drop k hostport) then Inl (addr_error hostport ''unexpected ']' in address'')
           else Inr (host, drop (i + 1) hostport))
     in case last_index_byte hostport CHR '':'' of
          None \<Rightarrow> missing
        | Some i \<Rightarrow>
            if hd hostport = CHR ''['' then
              (case index_byte hostport CHR '']'' of
                 None \<Rightarrow> Inl (addr_error hostport ''missing ']' in address'')
               | Some e \<Rightarrow>
                   if e + 1 = length hostport then missing
                   else if e + 1 = i then finish (take (e - 1) (drop 1 hostport)) 1 (e + 1) i
                   else if hostport ! (e + 1) = CHR '':'' then tooMany else missing)
            else
              let host = take i hostport
              in if CHR '':'' \<in> set host then tooMany else finish host 0 0 i)"

definition db_Address :: "DatabaseConfig \<Rightarrow> string" where
  "db_Address c = JoinHostPort (db_Host c) (int_to_string (db_Port c))"

definition rd_GetAddresses :: "RedisConfig \<Rightarrow> string list" where
  "rd_GetAddresses c =
    (if 0 < length (rd_ClusterAddresses c) then rd_ClusterAddresses c
     else [JoinHostPort (rd_Host c) (int_to_string (rd_Port c))])"

definition cc_Address :: "ConsulConfig \<Rightarrow> string" where
  "cc_Address c = JoinHostPort (cc_Host c) (int_to_string (cc_Port c))"

section \<open>Environment overrides\<close>

definition env_or :: "(string \<Rightarrow> string) \<Rightarrow> string \<Rightarrow> string \<Rightarrow> string" where
  "env_or getenv key old = (if getenv key \<noteq> [] then getenv key else old)"

definition chain_env :: "(string \<Rightarrow> string) \<Rightarrow> BlockchainChainConfig \<Rightarrow> BlockchainChainConfig" where
  "chain_env getenv ch =
    (let v = getenv (''WEB3_CHAIN_'' @ itoa (unat (ch_ChainID ch)) @ ''_RPC_URL'')
     in if v \<noteq> [] then ch\<lparr>ch_RPCURLs := [v]\<rparr> else ch)"

definition applyEnvironment :: "(string \<Rightarrow> string) \<Rightarrow> Config \<Rightarrow> Config" where
  "applyEnvironment getenv c =
    c\<lparr>cfg_Environment := env_or getenv ''WEB3_ENVIRONMENT'' (cfg_Environment c),
      cfg_Database := (cfg_Database c)\<lparr>db_Password := env_or getenv ''WEB3_DB_PASSWORD'' (db_Password (cfg_Database c))\<rparr>,
      cfg_Redis := (cfg_Redis c)\<lparr>rd_Password := env_or getenv ''WEB3_REDIS_PASSWORD'' (rd_Password (cfg_Redis c))\<rparr>,
      cfg_RabbitMQ := (cfg_RabbitMQ c)\<lparr>mq_Password := env_or getenv ''WEB3_RABBITMQ_PASSWORD'' (mq_Password (cfg_RabbitMQ c))\<rparr>,
      cfg_Consul := (cfg_Consul c)\<lparr>cc_Token := env_or getenv ''WEB3_CONSUL_TOKEN'' (cc_Token (cfg_Consul c))\<rparr>,
      cfg_TronApprovals := (cfg_TronApprovals c)\<lparr>
        ta_APIKey := env_or getenv ''WEB3_TRON_API_KEY'' (ta_APIKey (cfg_TronApprovals c)),
        ta_UsageHMACKey := env_or getenv ''WEB3_TRON_USAGE_HMAC_KEY'' (ta_UsageHMACKey (cfg_TronApprovals c))\<rparr>,
      cfg_Blockchain := (cfg_Blockchain c)\<lparr>blk_Chains := map (chain_env getenv) (blk_Chains (cfg_Blockchain c))\<rparr>\<rparr>"

section \<open>Validation\<close>

text \<open>A sequence of checks with early return: the first error, if any.\<close>

fun first_error :: "go_error option list \<Rightarrow> go_error option" where
  "first_error [] = None"
| "first_error (Some e # es) = Some e"
| "first_error (None # es) = first_error es"

definition err_if :: "bool \<Rightarrow> string \<Rightarrow> go_error option" where
  "err_if b message = (if b then Some (PlainErr message) else None)"

definition blank :: "string \<Rightarrow> bool" where
  "blank s \<longleftrightarrow> TrimSpace s = []"

type_synonym parse_duration = "string \<Rightarrow> go_error + int"
type_synonym map_order = "(string \<times> string) list \<Rightarrow> (string \<times> string) list"

definition positiveDuration :: "parse_duration \<Rightarrow> string \<Rightarrow> string \<Rightarrow> go_error option" where
  "positiveDuration pd name v =
    (case pd v of
       Inl _ \<Rightarrow> Some (PlainErr (name @ '' must be a positive duration''))
     | Inr d \<Rightarrow> err_if (d \<le> 0) (name @ '' must be a positive duration''))"

definition validPort :: "string \<Rightarrow> int \<Rightarrow> go_error option" where
  "validPort name port =
    err_if (port < 1 \<or> 65535 < port) (name @ '' port '' @ int_to_string port @ '' is outside 1..65535'')"

text \<open>\<open>for name, value := range map[string]string{...}\<close>\<close>

definition durations :: "parse_duration \<Rightarrow> map_order \<Rightarrow> (string \<times> string) list \<Rightarrow> go_error option" where
  "durations pd perm kvs = first_error (map (\<lambda>(name, v). positiveDuration pd name v) (perm kvs))"

definition validate_identity :: "Config \<Rightarrow> go_error option" where
  "validate_identity c = first_error
    [err_if (blank (cfg_Name c)) ''Web3 service name is empty'',
     err_if (blank (cfg_Host c)) ''Web3 service host is empty'',
     validPort ''Web3 gRPC'' (cfg_GRPCPort c),
     err_if (blank (cfg_AdvertiseHost c) \<or> cfg_AdvertiseHost c = ''0.0.0.0'') ''Web3 advertise host must be reachable'']"

definition validate_database :: "parse_duration \<Rightarrow> map_order \<Rightarrow> DatabaseConfig \<Rightarrow> go_error option" where
  "validate_database pd perm d =
    (if db_Enabled d then first_error
      [err_if (ToLower (TrimSpace (db_Driver d)) \<noteq> ''postgres'') ''Web3 database driver must be postgres'',
       err_if (blank (db_Host d) \<or> blank (db_Username d) \<or> blank (db_DBName d)) ''Web3 database configuration is incomplete'',
       validPort ''database'' (db_Port d),
       err_if (db_MaxOpenConns d \<le> 0 \<or> db_MaxIdleConns d < 0 \<or> db_MaxOpenConns d < db_MaxIdleConns d)
         ''database connection pool configuration is invalid'',
       durations pd perm
         [(''database connect timeout'', db_ConnectTimeout d), (''database max idle time'', db_ConnMaxIdleTime d),
          (''database max lifetime'', db_ConnMaxLifetime d)],
       err_if (db_ReadWriteSplitEnabled d \<and> length (db_ReplicaAddresses d) = 0)
         ''database replicas are required when read/write splitting is enabled'']
     else None)"

definition redis_address_error :: "string \<Rightarrow> go_error option" where
  "redis_address_error address =
    (case SplitHostPort address of
       Inl err \<Rightarrow> Some (WrapErr (''invalid Redis address '' @ go_quote address @ '': '') err)
     | Inr _ \<Rightarrow> None)"

definition validate_redis :: "parse_duration \<Rightarrow> map_order \<Rightarrow> RedisConfig \<Rightarrow> go_error option" where
  "validate_redis pd perm r =
    (if rd_Enabled r then first_error
      [first_error (map redis_address_error (rd_GetAddresses r)),
       err_if (blank (rd_KeyPrefix r)) ''Redis key prefix is empty'',
       err_if (rd_PoolSize r \<le> 0 \<or> rd_MinIdleConns r < 0 \<or> rd_MaxIdleConns r < 0) ''Redis pool configuration is invalid'',
       durations pd perm
         [(''Redis dial timeout'', rd_DialTimeout r), (''Redis read timeout'', rd_ReadTimeout r),
          (''Redis write timeout'', rd_WriteTimeout r), (''Redis pool timeout'', rd_PoolTimeout r),
          (''Redis max idle time'', rd_ConnMaxIdleTime r), (''Redis max lifetime'', rd_ConnMaxLifetime r)]]
     else None)"

definition validate_rabbitmq :: "parse_duration \<Rightarrow> map_order \<Rightarrow> RabbitMQConfig \<Rightarrow> go_error option" where
  "validate_rabbitmq pd perm m =
    (if mq_Enabled m then first_error
      [err_if (blank (mq_Host m) \<or> blank (mq_Username m) \<or> blank (mq_VHost m)) ''RabbitMQ connection configuration is incomplete'',
       validPort ''RabbitMQ'' (mq_Port m),
       err_if (mq_PrefetchCount m \<le> 0) ''RabbitMQ prefetch count must be positive'',
       durations pd perm
         [(''RabbitMQ heartbeat'', mq_Heartbeat m), (''RabbitMQ dial timeout'', mq_DialTimeout m),
          (''RabbitMQ reconnect interval'', mq_ReconnectInterval m),
          (''RabbitMQ publish confirm timeout'', mq_PublishConfirmTimeout m),
          (''RabbitMQ retry delay'', mqe_RetryDelay (mq_ChainEvent m))]]
     else None)"

definition validate_auth :: "Config \<Rightarrow> go_error option" where
  "validate_auth c = (let t = ac_AccessToken (cfg_Auth c); g = cfg_GRPC c in first_error
    [err_if (blank (at_Issuer t) \<or> blank (at_Audience t) \<or> blank (at_JWKSURL t)) ''Web3 access-token configuration is incomplete'',
     err_if (at_Algorithm t \<noteq> ''RS256'') ''Web3 access-token algorithm must be RS256'',
     err_if (gc_UseTLS g \<and> (gc_CertFile g = [] \<or> gc_KeyFile g = []))
       ''gRPC certificate and private key are required when TLS is enabled''])"

definition validate_maintenance :: "parse_duration \<Rightarrow> RegistrationMaintenanceConfig \<Rightarrow> go_error option" where
  "validate_maintenance pd m =
    (if rm_Enabled m then
       (let bad = ''Consul registration maintenance interval must be positive'';
            short = ''Consul registration maintenance max backoff must not be shorter than its interval''
        in case pd (rm_Interval m) of
             Inl _ \<Rightarrow> Some (PlainErr bad)
           | Inr interval \<Rightarrow>
               if interval \<le> 0 then Some (PlainErr bad)
               else (case pd (rm_MaxBackoff m) of
                       Inl _ \<Rightarrow> Some (PlainErr short)
                     | Inr maxBackoff \<Rightarrow> err_if (maxBackoff < interval) short))
     else None)"

definition validate_consul :: "parse_duration \<Rightarrow> map_order \<Rightarrow> ConsulConfig \<Rightarrow> go_error option" where
  "validate_consul pd perm c =
    (if cc_Enabled c then (let scheme = ToLower (TrimSpace (cc_Scheme c)) in first_error
      [err_if (blank (cc_Host c)) ''Consul host is empty'',
       validPort ''Consul'' (cc_Port c),
       err_if (scheme \<noteq> ''http'' \<and> scheme \<noteq> ''https'') ''Consul scheme must be http or https'',
       durations pd perm
         [(''Consul check interval'', cc_CheckInterval c), (''Consul check timeout'', cc_CheckTimeout c),
          (''Consul critical deregister delay'', cc_DeregisterCriticalAfter c)],
       err_if (cc_RuntimeConfigRequired c \<and> blank (cc_RuntimeConfigKey c)) ''Consul runtime config key is required'',
       validate_maintenance pd (cc_RegistrationMaintenance c)])
     else None)"

definition validate_timing :: "parse_duration \<Rightarrow> map_order \<Rightarrow> Config \<Rightarrow> go_error option" where
  "validate_timing pd perm c =
    durations pd perm
      [(''wallet nonce TTL'', wsc_NonceTTL (cfg_WalletSignature c)),
       (''wallet clock skew'', wsc_AllowedClockSkew (cfg_WalletSignature c)),
       (''blockchain request timeout'', blk_RequestTimeout (cfg_Blockchain c)),
       (''balance cache TTL'', blk_BalanceCacheTTL (cfg_Blockchain c)),
       (''scanner poll interval'', scan_PollInterval (blk_Scanner (cfg_Blockchain c))),
       (''shutdown timeout'', sd_Timeout (cfg_Shutdown c))]"

definition validate_wallet :: "Config \<Rightarrow> go_error option" where
  "validate_wallet c = (let w = cfg_WalletSignature c; b = cfg_Blockchain c in first_error
    [err_if (blank (wsc_Domain w) \<or> blank (wsc_URI w) \<or> blank (wsc_Statement w))
       ''wallet signature domain, URI, and statement are required'',
     err_if (wsc_NonceBytes w < 16) ''wallet nonce must contain at least 16 random bytes'',
     err_if (blk_RetryCount b < 0) ''blockchain retry count cannot be negative'',
     err_if (scan_Enabled (blk_Scanner b) \<and> scan_BatchSize (blk_Scanner b) \<le> 0)
       ''blockchain scanner batch size must be positive''])"

definition validate_tron :: "parse_duration \<Rightarrow> TronApprovalConfig \<Rightarrow> go_error option" where
  "validate_tron pd t =
    (if ta_Enabled t then first_error
      [err_if (blank (ta_TronScanBaseURL t) \<or> blank (ta_TronGridBaseURL t) \<or> blank (ta_USDTContract t))
         ''TRON approval upstream configuration is incomplete'',
       err_if (blank (ta_APIKey t)) ''WEB3_TRON_API_KEY is required when TRON approval queries are enabled'',
       err_if (length (ta_UsageHMACKey t) < 32) ''WEB3_TRON_USAGE_HMAC_KEY must contain at least 32 characters'',
       positiveDuration pd ''TRON approval cache TTL'' (ta_CacheTTL t),
       positiveDuration pd ''TRON approval request timeout'' (ta_RequestTimeout t),
       err_if (ta_PageSize t < 1 \<or> 50 < ta_PageSize t \<or> ta_MaxPages t < 1 \<or> ta_MaxSpenders t < 1 \<or> ta_VerifyWorkers t < 1)
         ''TRON approval query limits are invalid'',
       err_if (ta_DailyQueryLimit t \<le> 0 \<or> ta_DailyAddressLimit t \<le> 0 \<or> ta_DailyQueryLimit t < ta_DailyAddressLimit t
           \<or> ta_DailyUpstreamCallLimit t \<le> 0)
         ''TRON approval daily budget limits are invalid'']
     else None)"

text \<open>The loop over the chains; \<open>seen\<close> holds the chain IDs of the chains before.\<close>

fun validate_chains :: "u64 list \<Rightarrow> BlockchainChainConfig list \<Rightarrow> go_error option" where
  "validate_chains seen [] = None"
| "validate_chains seen (ch # chs) =
    (if ch_ChainID ch = 0 \<or> blank (ch_Name ch) then Some (PlainErr ''blockchain chain identity is incomplete'')
     else if ch_ChainID ch \<in> set seen then
       Some (PlainErr (''duplicate blockchain chain ID '' @ itoa (unat (ch_ChainID ch))))
     else if ch_Enabled ch \<and> length (ch_RPCURLs ch) = 0 then
       Some (PlainErr (''enabled chain '' @ itoa (unat (ch_ChainID ch)) @ '' has no RPC URL''))
     else if ch_NativeDecimals ch < 0 \<or> 255 < ch_NativeDecimals ch then
       Some (PlainErr (''chain '' @ itoa (unat (ch_ChainID ch)) @ '' native decimals are invalid''))
     else validate_chains (ch_ChainID ch # seen) chs)"

definition validate_runtime :: "Config \<Rightarrow> go_error option" where
  "validate_runtime c = (let r = cfg_RateLimit c; p = cfg_Pprof c; t = cfg_Tracing c in first_error
    [err_if (rl_Enabled r \<and> (rl_RequestsPerSecond r \<le> 0 \<or> rl_Burst r \<le> 0 \<or> rl_MaxUnaryConcurrency r \<le> 0
        \<or> rl_MaxStreamConcurrency r \<le> 0)) ''Web3 rate-limit configuration is invalid'',
     (if pp_Enabled p then first_error
        [err_if (blank (pp_Host p)) ''pprof host is empty'',
         validPort ''pprof'' (pp_Port p),
         err_if (pp_BlockProfileRate p < 0 \<or> pp_MutexProfileFraction p < 0)
           ''pprof block and mutex sampling rates cannot be negative'']
      else None),
     (if tc_Enabled t then first_error
        [err_if (blank (tc_ServiceName t) \<or> blank (tc_Endpoint t)) ''Web3 tracing configuration is incomplete'',
         err_if (tc_SamplerParam t < 0 \<or> 1 < tc_SamplerParam t) ''tracing sampler parameter must be between 0 and 1'']
      else None)])"

definition Validate :: "parse_duration \<Rightarrow> map_order \<Rightarrow> Config \<Rightarrow> go_error option" where
  "Validate pd perm c = first_error
    [validate_identity c,
     validate_database pd perm (cfg_Database c),
     validate_redis pd perm (cfg_Redis c),
     validate_rabbitmq pd perm (cfg_RabbitMQ c),
     validate_auth c,
     validate_consul pd perm (cfg_Consul c),
     validate_timing pd perm c,
     validate_wallet c,
     validate_tron pd (cfg_TronApprovals c),
     validate_chains [] (blk_Chains (cfg_Blockchain c)),
     validate_runtime c]"

section \<open>What an accepted configuration satisfies\<close>

definition map_order_ok :: "map_order \<Rightarrow> bool" where
  "map_order_ok perm \<longleftrightarrow> (\<forall>kvs. set (perm kvs) = set kvs)"

definition positive_duration :: "parse_duration \<Rightarrow> string \<Rightarrow> bool" where
  "positive_duration pd v \<longleftrightarrow> (\<exists>d > 0. pd v = Inr d)"

lemma first_error_None [simp]: "first_error es = None \<longleftrightarrow> (\<forall>e \<in> set es. e = None)"
  by (induction es rule: first_error.induct) auto

lemma err_if_None [simp]: "err_if b m = None \<longleftrightarrow> \<not> b"
  by (simp add: err_if_def)

lemma positiveDuration_None [simp]: "positiveDuration pd name v = None \<longleftrightarrow> positive_duration pd v"
  by (cases "pd v") (auto simp: positiveDuration_def positive_duration_def not_le)

lemma durations_None: "map_order_ok perm \<Longrightarrow> durations pd perm kvs = None \<longleftrightarrow> (\<forall>kv \<in> set kvs. positive_duration pd (snd kv))"
  by (auto simp: durations_def map_order_ok_def)

lemma validate_chains_None:
  "validate_chains seen chs = None \<Longrightarrow>
    distinct (map ch_ChainID chs) \<and> set (map ch_ChainID chs) \<inter> set seen = {}
    \<and> (\<forall>ch \<in> set chs. ch_ChainID ch \<noteq> 0 \<and> \<not> blank (ch_Name ch) \<and> (ch_Enabled ch \<longrightarrow> ch_RPCURLs ch \<noteq> [])
        \<and> 0 \<le> ch_NativeDecimals ch \<and> ch_NativeDecimals ch \<le> 255)"
proof (induction seen chs rule: validate_chains.induct)
  case (2 seen ch chs)
  from "2.prems" have ok: "ch_ChainID ch \<noteq> 0" "\<not> blank (ch_Name ch)" "ch_ChainID ch \<notin> set seen"
    "ch_Enabled ch \<longrightarrow> ch_RPCURLs ch \<noteq> []" "0 \<le> ch_NativeDecimals ch" "ch_NativeDecimals ch \<le> 255"
    and rest: "validate_chains (ch_ChainID ch # seen) chs = None"
    unfolding validate_chains.simps by (simp_all split: if_split_asm)
  from "2.IH" ok rest have "distinct (map ch_ChainID chs)"
    "set (map ch_ChainID chs) \<inter> set (ch_ChainID ch # seen) = {}"
    "\<forall>ch \<in> set chs. ch_ChainID ch \<noteq> 0 \<and> \<not> blank (ch_Name ch) \<and> (ch_Enabled ch \<longrightarrow> ch_RPCURLs ch \<noteq> [])
        \<and> 0 \<le> ch_NativeDecimals ch \<and> ch_NativeDecimals ch \<le> 255"
    by auto
  with ok show ?case by simp
qed simp

end
