(* ===== verification/Nonce.thy ===== *)
theory Nonce
  imports Redis_Client Web3_Config
begin

text \<open>
  Wallet signing challenges, \<open>web3/internal/wallet/nonce.go\<close>, and the EIP-191 verifier,
  \<open>web3/internal/wallet/signature.go\<close>. What the code takes from its environment is a parameter:
  the clock, \<open>crypto/rand\<close>, the JSON codec and the RFC 3339 time format (record \<open>platform\<close>), and
  go-ethereum's address and signature functions (record \<open>ethereum\<close>), with the behaviour the code
  relies on in \<open>platform_ok\<close> and \<open>ethereum_ok\<close>.
\<close>

record BindingChallenge =
  bc_NonceID :: string
  bc_Message :: string
  bc_ExpiresAt :: time

record BindingNonce =
  bn_UserSubject :: string
  bn_ChainID :: u64
  bn_Address :: string
  bn_Nonce :: string
  bn_Message :: string
  bn_IssuedAt :: time
  bn_ExpiresAt :: time

record 'w platform =
  p_now :: "'w \<Rightarrow> time \<times> 'w"
  p_rand_Read :: "nat \<Rightarrow> 'w \<Rightarrow> (go_error + byte list) \<times> 'w"
  p_uuid :: "'w \<Rightarrow> string \<times> 'w"
  p_Marshal :: "BindingNonce \<Rightarrow> go_error + string"
  p_Unmarshal :: "string \<Rightarrow> go_error + BindingNonce"
  p_RFC3339 :: "time \<Rightarrow> string"
  p_ParseDuration :: "string \<Rightarrow> go_error + int"

record ethereum =
  eth_IsHexAddress :: "string \<Rightarrow> bool"
  eth_Hex :: "string \<Rightarrow> string"
  eth_Keccak256 :: "byte list \<Rightarrow> byte list"
  eth_SigToPub :: "byte list \<Rightarrow> byte list \<Rightarrow> go_error + byte list"
  eth_PubkeyHex :: "byte list \<Rightarrow> string"

text \<open>\<open>eth_Hex a\<close> is \<open>common.HexToAddress(a).Hex()\<close>, \<open>eth_PubkeyHex\<close> is \<open>crypto.PubkeyToAddress(k).Hex()\<close>.\<close>

section \<open>Hexadecimal text\<close>

definition hex_lower :: string where "hex_lower = ''0123456789abcdef''"

definition hex_EncodeToString :: "byte list \<Rightarrow> string" where
  "hex_EncodeToString bs =
    concat (map (\<lambda>b. [hex_lower ! (unat b div 16), hex_lower ! (unat b mod 16)]) bs)"

definition hex_value :: "char \<Rightarrow> nat option" where
  "hex_value c = (let n = of_char c :: nat in
     if 48 \<le> n \<and> n \<le> 57 then Some (n - 48)
     else if 97 \<le> n \<and> n \<le> 102 then Some (n - 87)
     else if 65 \<le> n \<and> n \<le> 70 then Some (n - 55) else None)"

fun hex_DecodeString :: "string \<Rightarrow> byte list option" where
  "hex_DecodeString [] = Some []"
| "hex_DecodeString [c] = None"
| "hex_DecodeString (a # b # cs) =
    (case (hex_value a, hex_value b, hex_DecodeString cs) of
       (Some x, Some y, Some bs) \<Rightarrow> Some (of_nat (16 * x + y) # bs)
     | _ \<Rightarrow> None)"

section \<open>Nonces\<close>

definition nonceKeyPrefix :: string where "nonceKeyPrefix = ''wallet:nonce:''"

record 'w NonceStore =
  ns_redis :: "'w redis_client"
  ns_domain :: string
  ns_uri :: string
  ns_statement :: string
  ns_ttl :: int
  ns_nonceBytes :: int

definition NewNonceStore :: "'w platform \<Rightarrow> 'w redis_client option \<Rightarrow> WalletSignatureConfig \<Rightarrow> go_error + 'w NonceStore" where
  "NewNonceStore P redis cfg =
    (case redis of
       None \<Rightarrow> Inl (InvalidArgument ''Redis client is nil'')
     | Some rc \<Rightarrow>
         (case p_ParseDuration P (wsc_NonceTTL cfg) of
            Inl _ \<Rightarrow> Inl (InvalidArgument ''wallet nonce TTL is invalid'')
          | Inr ttl \<Rightarrow>
              if ttl \<le> 0 then Inl (InvalidArgument ''wallet nonce TTL is invalid'')
              else Inr \<lparr>ns_redis = rc, ns_domain = TrimSpace (wsc_Domain cfg), ns_uri = TrimSpace (wsc_URI cfg),
                     ns_statement = TrimSpace (wsc_Statement cfg), ns_ttl = ttl,
                     ns_nonceBytes = wsc_NonceBytes cfg\<rparr>))"

definition NormalizeAddress :: "ethereum \<Rightarrow> string \<Rightarrow> go_error + string" where
  "NormalizeAddress E address =
    (let address = TrimSpace address
     in if \<not> eth_IsHexAddress E address then Inl (InvalidArgument ''invalid EVM wallet address'')
        else Inr (eth_Hex E address))"

definition randomHex :: "'w platform \<Rightarrow> int \<Rightarrow> 'w \<Rightarrow> (go_error + string) \<times> 'w" where
  "randomHex P byteCount w =
    (if byteCount \<le> 0 then (Inl (InvalidArgument ''random byte size must be positive''), w)
     else (case p_rand_Read P (nat byteCount) w of
       (Inl err, w) \<Rightarrow> (Inl (AppErr (Wrap (Some err) CodeInternal ''failed to generate secure random value'' 500)), w)
     | (Inr buffer, w) \<Rightarrow> (Inr (hex_EncodeToString buffer), w)))"

definition newline :: string where "newline = [CHR 10]"

definition buildMessage :: "'w platform \<Rightarrow> 'w NonceStore \<Rightarrow> string \<Rightarrow> u64 \<Rightarrow> string \<Rightarrow> time \<Rightarrow> time \<Rightarrow> string" where
  "buildMessage P s address chainID nonce issuedAt expiresAt =
    ns_domain s @ '' wants you to sign in with your Ethereum account:'' @ newline
    @ address @ newline @ newline
    @ ns_statement s @ newline @ newline
    @ ''URI: '' @ ns_uri s @ newline
    @ ''Version: 1'' @ newline
    @ ''Chain ID: '' @ itoa (unat chainID) @ newline
    @ ''Nonce: '' @ nonce @ newline
    @ ''Issued At: '' @ p_RFC3339 P issuedAt @ newline
    @ ''Expiration Time: '' @ p_RFC3339 P expiresAt"

text \<open>The loop \<open>for attempts := 0; attempts < 3; attempts++\<close>; the first argument counts the attempts left.\<close>

fun create_attempts :: "nat \<Rightarrow> 'w platform \<Rightarrow> 'w NonceStore \<Rightarrow> string \<Rightarrow> u64 \<Rightarrow> string \<Rightarrow> time \<Rightarrow> time \<Rightarrow> 'w
    \<Rightarrow> (go_error + BindingChallenge) \<times> 'w" where
  "create_attempts 0 P s userSubject chainID normalizedAddress issuedAt expiresAt w =
    (Inl (Unavailable ''failed to allocate a unique wallet nonce''), w)"
| "create_attempts (Suc n) P s userSubject chainID normalizedAddress issuedAt expiresAt w =
    (case randomHex P 16 w of
       (Inl err, w) \<Rightarrow> (Inl err, w)
     | (Inr nonceID, w) \<Rightarrow>
       (case randomHex P (ns_nonceBytes s) w of
          (Inl err, w) \<Rightarrow> (Inl err, w)
        | (Inr nonce, w) \<Rightarrow>
          (let message = buildMessage P s normalizedAddress chainID nonce issuedAt expiresAt;
               record = \<lparr>bn_UserSubject = userSubject, bn_ChainID = chainID, bn_Address = normalizedAddress,
                         bn_Nonce = nonce, bn_Message = message, bn_IssuedAt = issuedAt, bn_ExpiresAt = expiresAt\<rparr>
           in (case p_Marshal P record of
                 Inl err \<Rightarrow> (Inl (AppErr (Wrap (Some err) CodeInternal ''failed to encode wallet nonce'' 500)), w)
               | Inr payload \<Rightarrow>
                   (case rc_SetNX (ns_redis s) (nonceKeyPrefix @ nonceID) payload (ns_ttl s) w of
                      (Inl err, w) \<Rightarrow> (Inl err, w)
                    | (Inr created, w) \<Rightarrow>
                        if created then
                          (Inr \<lparr>bc_NonceID = nonceID, bc_Message = message, bc_ExpiresAt = expiresAt\<rparr>, w)
                        else create_attempts n P s userSubject chainID normalizedAddress issuedAt expiresAt w)))))"

definition ns_Create :: "'w platform \<Rightarrow> ethereum \<Rightarrow> 'w NonceStore \<Rightarrow> string \<Rightarrow> u64 \<Rightarrow> string \<Rightarrow> 'w
    \<Rightarrow> (go_error + BindingChallenge) \<times> 'w" where
  "ns_Create P E s userSubject chainID address w =
    (let userSubject = TrimSpace userSubject
     in if userSubject = [] \<or> chainID = 0 then
          (Inl (InvalidArgument ''wallet binding identity or chain ID is invalid''), w)
        else
          (case NormalizeAddress E address of
             Inl err \<Rightarrow> (Inl err, w)
           | Inr normalizedAddress \<Rightarrow>
               (case p_now P w of
                  (now, w) \<Rightarrow>
                    let issuedAt = now - now mod 1000000000;
                        expiresAt = issuedAt + ns_ttl s
                    in create_attempts 3 P s userSubject chainID normalizedAddress issuedAt expiresAt w)))"

definition ns_Consume :: "'w platform \<Rightarrow> 'w NonceStore \<Rightarrow> string \<Rightarrow> string \<Rightarrow> 'w \<Rightarrow> (go_error + BindingNonce) \<times> 'w" where
  "ns_Consume P s nonceID userSubject w =
    (let nonceID = TrimSpace nonceID; userSubject = TrimSpace userSubject
     in if nonceID = [] \<or> userSubject = [] then
          (Inl (InvalidArgument ''wallet nonce identity is incomplete''), w)
        else
          (case rc_GetDel (ns_redis s) (nonceKeyPrefix @ nonceID) w of
             (Inl err, w) \<Rightarrow> (Inl err, w)
           | (Inr payload, w) \<Rightarrow>
               if payload = [] then
                 (Inl (InvalidArgument ''wallet nonce is missing, expired, or already used''), w)
               else
                 (case p_Unmarshal P payload of
                    Inl err \<Rightarrow> (Inl (AppErr (Wrap (Some err) CodeInternal ''wallet nonce data is invalid'' 500)), w)
                  | Inr record \<Rightarrow>
                      if bn_UserSubject record \<noteq> userSubject then
                        (Inl (Forbidden ''wallet nonce does not belong to the current user''), w)
                      else
                        (case p_now P w of
                           (now, w) \<Rightarrow>
                             if bn_ExpiresAt record \<le> now then
                               (Inl (InvalidArgument ''wallet nonce has expired''), w)
                             else (Inr record, w)))))"

section \<open>The signature verifier\<close>

definition eip191_prefix :: "string \<Rightarrow> string" where
  "eip191_prefix message = CHR 25 # ''Ethereum Signed Message:'' @ newline @ itoa (length message)"

definition eip191Hash :: "ethereum \<Rightarrow> string \<Rightarrow> byte list" where
  "eip191Hash E message = eth_Keccak256 E (map of_char (eip191_prefix message @ message))"

definition RecoverAddress :: "ethereum \<Rightarrow> string \<Rightarrow> string \<Rightarrow> go_error + string" where
  "RecoverAddress E message signature =
    (let signature = trim_prefix (TrimSpace signature) ''0x''
     in case hex_DecodeString signature of
          None \<Rightarrow> Inl (InvalidArgument ''wallet signature must be a 65-byte hex value'')
        | Some decoded \<Rightarrow>
            if length decoded \<noteq> 65 then Inl (InvalidArgument ''wallet signature must be a 65-byte hex value'')
            else
              let decoded = (if decoded ! 64 = 27 \<or> decoded ! 64 = 28
                             then decoded[64 := decoded ! 64 - 27] else decoded)
              in if 1 < decoded ! 64 then Inl (InvalidArgument ''wallet signature recovery ID is invalid'')
                 else (case eth_SigToPub E (eip191Hash E message) decoded of
                         Inl _ \<Rightarrow> Inl (InvalidArgument ''wallet signature cannot be recovered'')
                       | Inr publicKey \<Rightarrow> Inr (eth_PubkeyHex E publicKey)))"

definition Verify :: "ethereum \<Rightarrow> string \<Rightarrow> string \<Rightarrow> string \<Rightarrow> go_error option" where
  "Verify E message signature expectedAddress =
    (case NormalizeAddress E expectedAddress of
       Inl err \<Rightarrow> Some err
     | Inr expectedAddress \<Rightarrow>
         (case RecoverAddress E message signature of
            Inl err \<Rightarrow> Some err
          | Inr recoveredAddress \<Rightarrow>
              if \<not> EqualFold recoveredAddress expectedAddress then
                Some (Unauthorized ''wallet signature does not match the requested address'')
              else None))"

section \<open>Behaviour the code relies on\<close>

text \<open>
  \<open>json.Unmarshal\<close> inverts \<open>json.Marshal\<close>, whose output is not empty; reading the clock or random
  bytes adds no Redis key (keys may expire meanwhile).
\<close>

definition platform_ok :: "'w platform \<Rightarrow> ('w \<Rightarrow> string \<rightharpoonup> string) \<Rightarrow> bool" where
  "platform_ok P store \<longleftrightarrow>
     (\<forall>r s. p_Marshal P r = Inr s \<longrightarrow> s \<noteq> [] \<and> p_Unmarshal P s = Inr r)
   \<and> (\<forall>w t w'. p_now P w = (t, w') \<longrightarrow> store w' \<subseteq>\<^sub>m store w)
   \<and> (\<forall>n w r w'. p_rand_Read P n w = (r, w') \<longrightarrow> store w' \<subseteq>\<^sub>m store w)"

text \<open>
  \<open>Hex()\<close> yields the EIP-55 form, which is a fixed point and does not depend on the case of its
  input; a recovered address is in that form.
\<close>

definition ethereum_ok :: "ethereum \<Rightarrow> bool" where
  "ethereum_ok E \<longleftrightarrow>
     (\<forall>a. eth_IsHexAddress E a \<longrightarrow> eth_IsHexAddress E (eth_Hex E a) \<and> eth_Hex E (eth_Hex E a) = eth_Hex E a
        \<and> TrimSpace (eth_Hex E a) = eth_Hex E a)
   \<and> (\<forall>a b. eth_IsHexAddress E a \<longrightarrow> EqualFold a b \<longrightarrow> eth_IsHexAddress E b \<and> eth_Hex E a = eth_Hex E b)
   \<and> (\<forall>k. eth_IsHexAddress E (eth_PubkeyHex E k) \<and> eth_Hex E (eth_PubkeyHex E k) = eth_PubkeyHex E k)"

lemma ethereum_okD:
  assumes "ethereum_ok E"
  shows "eth_IsHexAddress E a \<Longrightarrow> eth_IsHexAddress E (eth_Hex E a)"
    and "eth_IsHexAddress E a \<Longrightarrow> eth_Hex E (eth_Hex E a) = eth_Hex E a"
    and "eth_IsHexAddress E a \<Longrightarrow> TrimSpace (eth_Hex E a) = eth_Hex E a"
    and "eth_IsHexAddress E a \<Longrightarrow> EqualFold a b \<Longrightarrow> eth_Hex E a = eth_Hex E b"
    and "eth_IsHexAddress E (eth_PubkeyHex E k)"
    and "eth_Hex E (eth_PubkeyHex E k) = eth_PubkeyHex E k"
  using assms unfolding ethereum_ok_def by blast+

section \<open>The interface \<open>nonceManager\<close>\<close>

text \<open>
  \<open>slot s nonceID\<close> is the key of a challenge. A successful consumption empties it, no consumption
  fills any slot, and a challenge is only handed to its owner.
\<close>

locale nonce_manager =
  fixes ok :: "'s \<Rightarrow> ('w \<Rightarrow> string \<rightharpoonup> string) \<Rightarrow> bool"
    and consume :: "'s \<Rightarrow> string \<Rightarrow> string \<Rightarrow> 'w \<Rightarrow> (go_error + BindingNonce) \<times> 'w"
    and slot :: "'s \<Rightarrow> string \<Rightarrow> string"
  assumes consume_takes: "ok s store \<Longrightarrow> consume s i u w = (Inr rcd, w')
      \<Longrightarrow> store w (slot s i) \<noteq> None \<and> store w' (slot s i) = None"
    and consume_shrinks: "ok s store \<Longrightarrow> consume s i u w = (res, w') \<Longrightarrow> store w' \<subseteq>\<^sub>m store w"
    and consume_owner: "ok s store \<Longrightarrow> consume s i u w = (Inr rcd, w') \<Longrightarrow> bn_UserSubject rcd = TrimSpace u"
begin

lemma spent:
  assumes "ok s store" "store w (slot s i) = None" "slot s j = slot s i"
  shows "\<exists>err. fst (consume s j u w) = Inl err"
proof (cases "consume s j u w")
  case (Pair res w')
  show ?thesis
  proof (cases res)
    case (Inr rcd)
    with Pair consume_takes [OF assms(1)] assms(2,3) show ?thesis by metis
  qed (use Pair in simp)
qed

text \<open>Consuming keeps an empty slot empty.\<close>

lemma stays_empty:
  assumes "ok s store" "store w k = None" "consume s j u w = (res, w')"
  shows "store w' k = None"
  using consume_shrinks [OF assms(1,3)] assms(2) by (metis domIff map_le_implies_dom_le subsetD)

end

definition nonce_ok :: "'w platform \<times> 'w NonceStore \<Rightarrow> ('w \<Rightarrow> string \<rightharpoonup> string) \<Rightarrow> bool" where
  "nonce_ok s store \<longleftrightarrow> platform_ok (fst s) store \<and> redis_ok (ns_redis (snd s)) store"

definition nonce_slot :: "'w platform \<times> 'w NonceStore \<Rightarrow> string \<Rightarrow> string" where
  "nonce_slot s nonceID = rc_key (ns_redis (snd s)) (nonceKeyPrefix @ TrimSpace nonceID)"

lemma now_shrinks: "platform_ok P store \<Longrightarrow> p_now P w = (t, w') \<Longrightarrow> store w' \<subseteq>\<^sub>m store w"
  unfolding platform_ok_def by blast

lemma ns_Consume_Inr:
  assumes "ns_Consume P s i u w = (Inr rcd, w')"
  obtains payload w1 where "rc_GetDel (ns_redis s) (nonceKeyPrefix @ TrimSpace i) w = (Inr payload, w1)"
    "payload \<noteq> []" "p_Unmarshal P payload = Inr rcd" "bn_UserSubject rcd = TrimSpace u"
    "snd (p_now P w1) = w'" "fst (p_now P w1) < bn_ExpiresAt rcd"
  using assms
  by (auto simp: ns_Consume_def Let_def split: if_splits prod.splits sum.splits)

lemma ns_Consume_shrinks:
  assumes "nonce_ok (P, s) store" "ns_Consume P s i u w = (res, w')"
  shows "store w' \<subseteq>\<^sub>m store w"
proof (cases "TrimSpace i = [] \<or> TrimSpace u = []")
  case True
  with assms(2) show ?thesis by (auto simp: ns_Consume_def)
next
  case False
  obtain g w1 where g: "rc_GetDel (ns_redis s) (nonceKeyPrefix @ TrimSpace i) w = (g, w1)" by fastforce
  have s1: "store w1 \<subseteq>\<^sub>m store w"
    using rc_GetDel_shrinks [OF _ g] assms(1) by (simp add: nonce_ok_def)
  obtain t w2 where n: "p_now P w1 = (t, w2)" by fastforce
  have "store w2 \<subseteq>\<^sub>m store w1" using now_shrinks [OF _ n] assms(1) by (simp add: nonce_ok_def)
  moreover have "w' = w1 \<or> w' = w2"
    using assms(2) False g n by (auto simp: ns_Consume_def Let_def split: sum.splits if_splits)
  ultimately show ?thesis using s1 map_le_trans by blast
qed

interpretation nonces: nonce_manager nonce_ok "\<lambda>s. ns_Consume (fst s) (snd s)" nonce_slot
proof
  fix s :: "'w platform \<times> 'w NonceStore" and store i u w rcd w'
  assume ok: "nonce_ok s store" and eq: "ns_Consume (fst s) (snd s) i u w = (Inr rcd, w')"
  from eq obtain payload w1 where
    g: "rc_GetDel (ns_redis (snd s)) (nonceKeyPrefix @ TrimSpace i) w = (Inr payload, w1)" "payload \<noteq> []"
    and n: "snd (p_now (fst s) w1) = w'" and o: "bn_UserSubject rcd = TrimSpace u"
    by (rule ns_Consume_Inr)
  have r: "redis_ok (ns_redis (snd s)) store" using ok by (simp add: nonce_ok_def)
  have "store w' \<subseteq>\<^sub>m store w1"
    using now_shrinks [of "fst s" store w1] ok n by (metis nonce_ok_def prod.collapse)
  with rc_GetDel_Inr(2,3) [OF r g(1)] g(2) show "store w (nonce_slot s i) \<noteq> None \<and> store w' (nonce_slot s i) = None"
    unfolding nonce_slot_def by (metis domIff map_le_implies_dom_le option.discI subsetD)
  show "bn_UserSubject rcd = TrimSpace u" by (rule o)
next
  fix s :: "'w platform \<times> 'w NonceStore" and store i u w res w'
  assume "nonce_ok s store" "ns_Consume (fst s) (snd s) i u w = (res, w')"
  then show "store w' \<subseteq>\<^sub>m store w" using ns_Consume_shrinks by (metis prod.collapse)
qed

section \<open>Creation\<close>

lemma randomHex_shrinks:
  assumes "platform_ok P store" "randomHex P n w = (res, w')"
  shows "store w' \<subseteq>\<^sub>m store w"
proof -
  obtain r w1 where r: "p_rand_Read P (nat n) w = (r, w1)" by fastforce
  have "store w1 \<subseteq>\<^sub>m store w" using assms(1) r unfolding platform_ok_def by blast
  with assms(2) r show ?thesis by (auto simp: randomHex_def split: sum.splits if_splits)
qed

lemma hex_plain: "\<forall>c \<in> set (hex_EncodeToString bs). plain_char c"
proof -
  have "plain_char (hex_lower ! i)" if "i < 16" for i
  proof -
    have "list_all plain_char hex_lower" by (simp add: hex_lower_def plain_char_def)
    with that show ?thesis by (simp add: list_all_length hex_lower_def)
  qed
  moreover have "unat b div 16 < 16" for b :: byte
    using unsigned_less [of b, where ?'a = nat] by (simp add: less_mult_imp_div_less)
  ultimately show ?thesis by (induction bs) (auto simp: hex_EncodeToString_def)
qed

lemma randomHex_trim: "randomHex P n w = (Inr h, w') \<Longrightarrow> TrimSpace h = h"
  using hex_plain by (auto simp: randomHex_def intro!: TrimSpace_plain split: sum.splits if_splits prod.splits)

text \<open>A challenge that was handed out is stored, with its message, under its nonce ID.\<close>

lemma create_attempts_Inr:
  assumes "create_attempts n P s u chain addr iss ex w = (Inr ch, w')"
  obtains nonce payload w1 where "TrimSpace (bc_NonceID ch) = bc_NonceID ch"
    "bc_Message ch = buildMessage P s addr chain nonce iss ex" "bc_ExpiresAt ch = ex"
    "p_Marshal P \<lparr>bn_UserSubject = u, bn_ChainID = chain, bn_Address = addr, bn_Nonce = nonce,
       bn_Message = bc_Message ch, bn_IssuedAt = iss, bn_ExpiresAt = ex\<rparr> = Inr payload"
    "rc_SetNX (ns_redis s) (nonceKeyPrefix @ bc_NonceID ch) payload (ns_ttl s) w1 = (Inr True, w')"
  using assms
proof (induction n arbitrary: w)
  case 0
  then show ?case by simp
next
  case (Suc n)
  from Suc.prems(2) obtain i w1 nonce w2 where i: "randomHex P 16 w = (Inr i, w1)"
    and nn: "randomHex P (ns_nonceBytes s) w1 = (Inr nonce, w2)"
    by (auto split: prod.splits sum.splits)
  let ?m = "buildMessage P s addr chain nonce iss ex"
  from Suc.prems(2) i nn obtain payload where p: "p_Marshal P \<lparr>bn_UserSubject = u, bn_ChainID = chain,
      bn_Address = addr, bn_Nonce = nonce, bn_Message = ?m, bn_IssuedAt = iss, bn_ExpiresAt = ex\<rparr> = Inr payload"
    by (auto simp: Let_def split: sum.splits)
  obtain res w3 where x: "rc_SetNX (ns_redis s) (nonceKeyPrefix @ i) payload (ns_ttl s) w2 = (res, w3)" by fastforce
  show ?case
  proof (cases "res = Inr True")
    case True
    with Suc.prems(2) i nn p x have "ch = \<lparr>bc_NonceID = i, bc_Message = ?m, bc_ExpiresAt = ex\<rparr>" "w' = w3"
      by (simp_all add: Let_def)
    with Suc.prems(1) [of nonce payload w2] randomHex_trim [OF i] p x True show ?thesis by simp
  next
    case False
    with Suc.prems(2) i nn p x have "create_attempts n P s u chain addr iss ex w3 = (Inr ch, w')"
      by (auto simp: Let_def split: sum.splits if_splits)
    with Suc.IH Suc.prems(1) show ?thesis by blast
  qed
qed

lemma ns_Create_Inr:
  assumes "ns_Create P E s u chain address w = (Inr ch, w')"
  obtains addr now w1 where "TrimSpace u \<noteq> []" "chain \<noteq> 0" "NormalizeAddress E address = Inr addr" "p_now P w = (now, w1)"
    "create_attempts 3 P s (TrimSpace u) chain addr (now - now mod 1000000000)
       (now - now mod 1000000000 + ns_ttl s) w1 = (Inr ch, w')"
  using assms by (auto simp: ns_Create_def Let_def split: if_splits sum.splits prod.splits)

section \<open>Properties\<close>

text \<open>
  What may happen to the Redis keys between two uses of a nonce ID: other challenges are created
  (their random IDs differ, so the key \<open>k\<close> stays empty), challenges are consumed, keys expire.
\<close>

inductive nonce_step :: "'w platform \<Rightarrow> ethereum \<Rightarrow> 'w NonceStore \<Rightarrow> ('w \<Rightarrow> string \<rightharpoonup> string) \<Rightarrow> string \<Rightarrow> 'w \<Rightarrow> 'w \<Rightarrow> bool"
  for P E s store k where
  create: "ns_Create P E s u chain address w = (res, w') \<Longrightarrow> store w' k = None \<Longrightarrow> nonce_step P E s store k w w'"
| consume: "ns_Consume P s i u w = (res, w') \<Longrightarrow> nonce_step P E s store k w w'"
| elapse: "store w' \<subseteq>\<^sub>m store w \<Longrightarrow> nonce_step P E s store k w w'"

text \<open>C12: a challenge is consumed at most once: after a successful consumption, no consumption of the
  same nonce ID by any user succeeds again, whatever is created, consumed or expires in between
  (short of the ID being drawn again).\<close>

theorem nonce_single_use:
  assumes ok: "nonce_ok (P, s) store" and first: "ns_Consume P s i u w = (Inr rcd, w1)"
    and run: "(nonce_step P E s store (nonce_slot (P, s) i))\<^sup>*\<^sup>* w1 w2" and same: "TrimSpace j = TrimSpace i"
  shows "\<exists>err. fst (ns_Consume P s j v w2) = Inl err"
proof -
  have "store w1 (nonce_slot (P, s) i) = None"
    using nonces.consume_takes [OF ok, of i u w] first by simp
  from run this have "store w2 (nonce_slot (P, s) i) = None"
  proof (induction rule: rtranclp_induct)
    case (step w3 w4)
    from step(2) step(3)[OF step(4)] show ?case
    proof cases
      case (consume i' u' res)
      then show ?thesis using nonces.stays_empty [OF ok] step(3)[OF step(4)] by (metis fst_conv snd_conv)
    next
      case elapse
      then show ?thesis using step(3)[OF step(4)] by (metis domIff map_le_implies_dom_le subsetD)
    qed
  qed
  from nonces.spent [OF ok this, of j v] same show ?thesis by (simp add: nonce_slot_def)
qed

text \<open>C15: what a consumption returns for a nonce ID is the challenge that \<open>Create\<close> stored under it:
  the same user, chain, normalised address and signing text, before its expiry.\<close>

theorem nonce_round_trip:
  assumes ok: "nonce_ok (P, s) store"
    and create: "ns_Create P E s u chain address w = (Inr ch, w1)"
    and kept: "store w2 \<subseteq>\<^sub>m store w1"
    and consume: "ns_Consume P s (bc_NonceID ch) v w2 = (Inr rcd, w3)"
  shows "bn_UserSubject rcd = TrimSpace u \<and> TrimSpace v = TrimSpace u \<and> bn_ChainID rcd = chain
    \<and> NormalizeAddress E address = Inr (bn_Address rcd) \<and> bn_Message rcd = bc_Message ch
    \<and> bn_ExpiresAt rcd = bc_ExpiresAt ch"
proof -
  obtain addr now wa where a: "NormalizeAddress E address = Inr addr"
    and c: "create_attempts 3 P s (TrimSpace u) chain addr (now - now mod 1000000000)
       (now - now mod 1000000000 + ns_ttl s) wa = (Inr ch, w1)"
    by (rule ns_Create_Inr [OF create])
  from c obtain nonce payload wb where t: "TrimSpace (bc_NonceID ch) = bc_NonceID ch"
    and e: "bc_ExpiresAt ch = now - now mod 1000000000 + ns_ttl s"
    and m: "p_Marshal P \<lparr>bn_UserSubject = TrimSpace u, bn_ChainID = chain, bn_Address = addr, bn_Nonce = nonce,
       bn_Message = bc_Message ch, bn_IssuedAt = now - now mod 1000000000,
       bn_ExpiresAt = now - now mod 1000000000 + ns_ttl s\<rparr> = Inr payload"
    and x: "rc_SetNX (ns_redis s) (nonceKeyPrefix @ bc_NonceID ch) payload (ns_ttl s) wb = (Inr True, w1)"
    by (rule create_attempts_Inr)
  from consume obtain payload' w4 where
    g: "rc_GetDel (ns_redis s) (nonceKeyPrefix @ bc_NonceID ch) w2 = (Inr payload', w4)" "payload' \<noteq> []"
    and d: "p_Unmarshal P payload' = Inr rcd" "bn_UserSubject rcd = TrimSpace v"
    by (rule ns_Consume_Inr) (simp add: t)
  have r: "redis_ok (ns_redis s) store" and p: "platform_ok P store" using ok by (simp_all add: nonce_ok_def)
  let ?k = "rc_key (ns_redis s) (nonceKeyPrefix @ bc_NonceID ch)"
  have "store w2 ?k = Some payload'" by (rule rc_GetDel_Inr(3) [OF r g])
  with kept have "store w1 ?k = Some payload'" by (metis domI map_le_def)
  moreover have "store w1 ?k \<in> {None, Some payload}"
    by (rule rc_SetNX_True [OF r x])
  ultimately have "payload' = payload" by auto
  with m d p have "rcd = \<lparr>bn_UserSubject = TrimSpace u, bn_ChainID = chain, bn_Address = addr, bn_Nonce = nonce,
       bn_Message = bc_Message ch, bn_IssuedAt = now - now mod 1000000000,
       bn_ExpiresAt = now - now mod 1000000000 + ns_ttl s\<rparr>"
    unfolding platform_ok_def by (metis sum.inject(2))
  with d a e show ?thesis by simp
qed

lemma Verify_sound':
  assumes "ethereum_ok E" and "Verify E message signature expected = None"
  shows "\<exists>addr. RecoverAddress E message signature = Inr addr \<and> NormalizeAddress E expected = Inr addr"
proof -
  from assms(2) obtain e a where e: "NormalizeAddress E expected = Inr e"
    and a: "RecoverAddress E message signature = Inr a" and f: "EqualFold a e"
    by (auto simp: Verify_def split: sum.splits if_splits)
  from e have e': "e = eth_Hex E (TrimSpace expected)" "eth_IsHexAddress E (TrimSpace expected)"
    by (auto simp: NormalizeAddress_def Let_def split: if_splits)
  from a obtain k where k: "a = eth_PubkeyHex E k"
    by (auto simp: RecoverAddress_def Let_def split: option.splits if_splits sum.splits)
  have a1: "eth_Hex E a = a" and a2: "eth_IsHexAddress E a" unfolding k by (rule ethereum_okD [OF assms(1)])+
  have e1: "eth_Hex E e = e" unfolding e'(1) by (rule ethereum_okD(2) [OF assms(1) e'(2)])
  have "eth_Hex E a = eth_Hex E e" by (rule ethereum_okD(4) [OF assms(1) a2 f])
  then have "a = e" unfolding a1 e1 .
  with a e show ?thesis by blast
qed

text \<open>A signature that \<open>Verify\<close> accepts is one whose recovered signer is exactly the expected
  address, in its EIP-55 form.\<close>

theorem Verify_sound:
  assumes "ethereum_ok E" and "Verify E message signature expected = None"
  shows "\<exists>addr. RecoverAddress E message signature = Inr addr \<and> NormalizeAddress E expected = Inr addr"
  by (rule Verify_sound' [OF assms])

text \<open>A concrete environment: a fixed clock, fixed random bytes, a codec for one challenge, and
  addresses of three letters with one canonical form.\<close>

definition sample_rcd :: BindingNonce where
  "sample_rcd = \<lparr>bn_UserSubject = ''u'', bn_ChainID = 1, bn_Address = ''ABC'', bn_Nonce = ''07'',
     bn_Message = '' wants you to sign in with your Ethereum account:'' @ newline @ ''ABC'' @ newline @ newline
       @ newline @ newline @ ''URI: '' @ newline @ ''Version: 1'' @ newline @ ''Chain ID: 1'' @ newline
       @ ''Nonce: 07'' @ newline @ ''Issued At: '' @ newline @ ''Expiration Time: '',
     bn_IssuedAt = 0, bn_ExpiresAt = 60\<rparr>"

definition sample_platform :: "'w platform" where
  "sample_platform =
    \<lparr>p_now = (\<lambda>w. (5, w)), p_rand_Read = (\<lambda>n w. (Inr (replicate n 7), w)), p_uuid = (\<lambda>w. (''id'', w)),
     p_Marshal = (\<lambda>r. if r = sample_rcd then Inr ''{}'' else Inl (PlainErr [])),
     p_Unmarshal = (\<lambda>s. if s = ''{}'' then Inr sample_rcd else Inl (PlainErr [])),
     p_RFC3339 = (\<lambda>t. []), p_ParseDuration = (\<lambda>s. Inr 60)\<rparr>"

definition sample_store :: "'w redis_client \<Rightarrow> 'w NonceStore" where
  "sample_store c = \<lparr>ns_redis = c, ns_domain = [], ns_uri = [], ns_statement = [], ns_ttl = 60, ns_nonceBytes = 1\<rparr>"

definition sample_ethereum :: ethereum where
  "sample_ethereum =
    \<lparr>eth_IsHexAddress = (\<lambda>a. length a = 3), eth_Hex = (\<lambda>a. ''ABC''), eth_Keccak256 = (\<lambda>m. m),
     eth_SigToPub = (\<lambda>h s. Inr s), eth_PubkeyHex = (\<lambda>k. ''ABC'')\<rparr>"

lemma sample_nonce_ok: "redis_ok c store \<Longrightarrow> nonce_ok (sample_platform, sample_store c) store"
  by (simp add: nonce_ok_def platform_ok_def sample_platform_def sample_store_def)

lemma ABC_plain: "TrimSpace ''ABC'' = ''ABC''"
  by (rule TrimSpace_plain) (simp add: plain_char_def)

lemma sample_ethereum_ok: "ethereum_ok sample_ethereum"
proof -
  have "length a = length b" if "EqualFold a b" for a b
    using that unfolding EqualFold_def ToLower_def by (rule map_eq_imp_length_eq)
  then show ?thesis by (auto simp: ethereum_ok_def sample_ethereum_def ABC_plain)
qed

definition sample_id :: string where
  "sample_id = hex_EncodeToString (replicate 16 7)"

abbreviation sample_world :: mem_world where
  "sample_world \<equiv> [(''web3:'' @ nonceKeyPrefix @ sample_id, ''{}'')]"

lemma sample_trims: "TrimSpace ''u'' = ''u''" "TrimSpace sample_id = sample_id"
  using hex_plain by (auto simp: sample_id_def plain_char_def intro!: TrimSpace_plain)

lemma sample_key: "rc_key mem_client (nonceKeyPrefix @ sample_id) = ''web3:'' @ nonceKeyPrefix @ sample_id"
  by (simp add: rc_key_def mem_client_def has_prefix_def nonceKeyPrefix_def)

lemma sample_consume:
  "ns_Consume sample_platform (sample_store mem_client) sample_id ''u'' sample_world = (Inr sample_rcd, [])"
proof -
  have "sample_id \<noteq> []" by (simp add: sample_id_def hex_EncodeToString_def)
  moreover have "rc_GetDel mem_client (nonceKeyPrefix @ sample_id) sample_world = (Inr ''{}'', [])"
    unfolding rc_GetDel_def sample_key by (simp add: mem_client_def mem_redis_def mem_drop_def)
  ultimately show ?thesis
    by (simp add: ns_Consume_def sample_trims sample_store_def sample_platform_def sample_rcd_def)
qed

theorem nonce_single_use_witness:
  "fst (ns_Consume sample_platform (sample_store mem_client) sample_id ''u'' sample_world) = Inr sample_rcd
   \<and> (\<exists>err. fst (ns_Consume sample_platform (sample_store mem_client) sample_id ''u'' []) = Inl err)"
  using nonce_single_use [OF sample_nonce_ok [OF mem_client_ok] sample_consume rtranclp.rtrancl_refl refl, of "''u''"]
  by (simp only: sample_consume fst_conv simp_thms)

lemma sample_create:
  "ns_Create sample_platform sample_ethereum (sample_store mem_client) ''u'' 1 ''abc'' [] =
    (Inr \<lparr>bc_NonceID = sample_id, bc_Message = bn_Message sample_rcd, bc_ExpiresAt = 60\<rparr>, sample_world)"
proof -
  have abc: "TrimSpace ''abc'' = ''abc''" by (rule TrimSpace_plain) (simp add: plain_char_def)
  have d: "ns_domain (sample_store mem_client) = []" "ns_uri (sample_store mem_client) = []" "ns_statement (sample_store mem_client) = []"
    "ns_ttl (sample_store mem_client) = 60" "ns_nonceBytes (sample_store mem_client) = 1" "ns_redis (sample_store mem_client) = mem_client"
    by (simp_all add: sample_store_def)
  have r: "randomHex sample_platform 16 w = (Inr sample_id, w)" "randomHex sample_platform 1 w = (Inr ''07'', w)" for w
    by (simp_all add: randomHex_def sample_platform_def sample_id_def hex_EncodeToString_def hex_lower_def)
  have m: "buildMessage sample_platform (sample_store mem_client) ''ABC'' 1 ''07'' 0 60 = bn_Message sample_rcd"
  proof -
    have "itoa 1 = ''1''" by code_simp
    then show ?thesis by (simp add: buildMessage_def d sample_platform_def sample_rcd_def)
  qed
  have x: "rc_SetNX mem_client (nonceKeyPrefix @ sample_id) ''{}'' 60 [] = (Inr True, sample_world)"
    unfolding rc_SetNX_def sample_key by (simp add: mem_client_def mem_redis_def)
  have p: "p_Marshal sample_platform \<lparr>bn_UserSubject = ''u'', bn_ChainID = 1, bn_Address = ''ABC'', bn_Nonce = ''07'',
      bn_Message = bn_Message sample_rcd, bn_IssuedAt = 0, bn_ExpiresAt = 60\<rparr> = Inr ''{}''"
    by (simp add: sample_platform_def sample_rcd_def)
  have "create_attempts (Suc n) sample_platform (sample_store mem_client) ''u'' 1 ''ABC'' 0 60 [] =
      (Inr \<lparr>bc_NonceID = sample_id, bc_Message = bn_Message sample_rcd, bc_ExpiresAt = 60\<rparr>, sample_world)" for n
    by (simp add: d r m x p Let_def)
  from this [of 2] show ?thesis
    by (simp add: ns_Create_def sample_trims d NormalizeAddress_def abc sample_ethereum_def numeral_3_eq_3
        sample_platform_def)
qed

theorem nonce_round_trip_witness:
  "\<exists>ch w rcd w'. ns_Create sample_platform sample_ethereum (sample_store mem_client) ''u'' 1 ''abc'' [] = (Inr ch, w)
    \<and> ns_Consume sample_platform (sample_store mem_client) (bc_NonceID ch) ''u'' w = (Inr rcd, w')
    \<and> bn_UserSubject rcd = ''u'' \<and> bn_ChainID rcd = 1 \<and> bn_Message rcd = bc_Message ch"
proof -
  have "ns_Consume sample_platform (sample_store mem_client)
      (bc_NonceID \<lparr>bc_NonceID = sample_id, bc_Message = bn_Message sample_rcd, bc_ExpiresAt = 60\<rparr>) ''u'' sample_world
    = (Inr sample_rcd, [])"
    by (simp only: BindingChallenge.simps sample_consume)
  from nonce_round_trip [OF sample_nonce_ok [OF mem_client_ok] sample_create map_le_refl this] this sample_create
  show ?thesis by (auto simp: sample_trims)
qed

lemma sample_verify:
  assumes "TrimSpace a = a" "length a = 3"
  shows "Verify sample_ethereum m (replicate 130 CHR ''0'') a = None"
proof -
  let ?sig = "replicate 130 CHR ''0''"
  have t: "TrimSpace ?sig = ?sig"
    by (rule TrimSpace_plain) (simp add: plain_char_def)
  have "hex_DecodeString (replicate (2 * n) CHR ''0'') = Some (replicate n 0)" for n
    by (induction n) (simp_all add: hex_value_def)
  from this [of 65] have h: "hex_DecodeString ?sig = Some (replicate 65 0)" by simp
  have p: "trim_prefix ?sig ''0x'' = ?sig" by (simp add: trim_prefix_def has_prefix_def take_replicate numeral_eq_Suc)
  have "RecoverAddress sample_ethereum m ?sig = Inr ''ABC''"
    unfolding RecoverAddress_def t p Let_def h option.case by (simp add: sample_ethereum_def)
  then show ?thesis
    by (simp add: Verify_def NormalizeAddress_def assms sample_ethereum_def EqualFold_def)
qed

theorem Verify_sound_witness:
  "\<exists>sig. Verify sample_ethereum ''hi'' sig ''abc'' = None
    \<and> (\<exists>addr. RecoverAddress sample_ethereum ''hi'' sig = Inr addr \<and> NormalizeAddress sample_ethereum ''abc'' = Inr addr)"
proof -
  have "TrimSpace ''abc'' = ''abc''" by (rule TrimSpace_plain) (simp add: plain_char_def)
  then have v: "Verify sample_ethereum ''hi'' (replicate 130 CHR ''0'') ''abc'' = None" by (rule sample_verify) simp
  from Verify_sound [OF sample_ethereum_ok v] v show ?thesis by blast
qed

end
