(* ===== verification/Wallet_Service.thy ===== *)
theory Wallet_Service
  imports Nonce Wallet_Repo "HOL-Library.AList"
begin

text \<open>
  The wallet service, \<open>web3/internal/service/wallet.go\<close>, with the caller identity of
  \<open>web3/internal/auth/context.go\<close>. A \<open>context.Context\<close> is the identity that it carries, if any; a
  request pointer is an option. Database, Redis, clock and random source act on one world \<open>'w\<close>, and
  every handler threads it through its calls in the order of the source.
\<close>

section \<open>Identity\<close>

record Identity =
  id_Subject :: string
  id_Username :: string
  id_Email :: string
  id_Role :: string
  id_SessionID :: string
  id_TokenID :: string

type_synonym ctx = "Identity option"

definition zero_identity :: Identity where
  "zero_identity = \<lparr>id_Subject = [], id_Username = [], id_Email = [], id_Role = [], id_SessionID = [], id_TokenID = []\<rparr>"

definition NewContext :: "ctx \<Rightarrow> Identity \<Rightarrow> ctx" where
  "NewContext c identity = Some identity"

definition FromContext :: "ctx \<Rightarrow> Identity \<times> bool" where
  "FromContext c = (case c of Some identity \<Rightarrow> (identity, True) | None \<Rightarrow> (zero_identity, False))"

definition RequireIdentity :: "ctx \<Rightarrow> Identity \<times> bool" where
  "RequireIdentity c = (case FromContext c of (identity, ok) \<Rightarrow> (identity, ok \<and> id_Subject identity \<noteq> []))"

definition requireIdentity :: "ctx \<Rightarrow> go_error + Identity" where
  "requireIdentity c =
    (case RequireIdentity c of (identity, ok) \<Rightarrow>
       if \<not> ok then Inl (Unauthorized ''authenticated user identity is missing'') else Inr identity)"

definition normalizeNotFound :: "go_error \<Rightarrow> go_error" where
  "normalizeNotFound err = (if errors_Is err ErrRecordNotFound then NotFound ''wallet was not found'' else err)"

section \<open>Messages\<close>

record WalletInfo =
  wi_Id :: string
  wi_ChainId :: u64
  wi_Address :: string
  wi_Label :: string
  wi_Status :: int
  wi_VerifiedAt :: time
  wi_CreatedAt :: time
  wi_UpdatedAt :: time
  wi_IsDefault :: bool

record ChainInfo =
  ci_ChainId :: u64
  ci_Name :: string
  ci_NativeSymbol :: string
  ci_NativeDecimals :: u32
  ci_Enabled :: bool
  ci_RequiredConfirmations :: u64

record CreateBindingNonceRequest =
  cbn_ChainId :: u64
  cbn_Address :: string

record CreateBindingNonceResponse =
  cbr_NonceId :: string
  cbr_SigningMessage :: string
  cbr_ExpiresAt :: time

record BindWalletRequest =
  bw_ChainId :: u64
  bw_Address :: string
  bw_NonceId :: string
  bw_Signature :: string
  bw_Label :: string

record BindWalletResponse =
  br_Wallet :: "WalletInfo option"
  br_NewlyBound :: bool

record UpdateWalletRequest =
  uw_WalletId :: string
  uw_Label :: "string option"
  uw_IsDefault :: "bool option"

definition walletToProto :: "Wallet option \<Rightarrow> WalletInfo option" where
  "walletToProto v = (case v of None \<Rightarrow> None | Some w \<Rightarrow>
     Some \<lparr>wi_Id = w_ID w, wi_ChainId = w_ChainID w, wi_Address = w_Address w, wi_Label = w_Label w,
       wi_Status = w_Status w, wi_VerifiedAt = w_VerifiedAt w, wi_CreatedAt = w_CreatedAt w,
       wi_UpdatedAt = w_UpdatedAt w, wi_IsDefault = w_IsDefault w\<rparr>)"

section \<open>The service\<close>

record 'w WalletService =
  ws_repository :: "'w WalletRepository"
  ws_nonces :: "'w NonceStore"
  ws_chains :: "(u64 \<times> BlockchainChainConfig) list"

definition enabled_chains :: "BlockchainChainConfig list \<Rightarrow> (u64 \<times> BlockchainChainConfig) list" where
  "enabled_chains chs = fold (\<lambda>ch m. if ch_Enabled ch then AList.update (ch_ChainID ch) ch m else m) chs []"

definition NewWalletService :: "'w WalletRepository option \<Rightarrow> 'w NonceStore option \<Rightarrow> bool \<Rightarrow> BlockchainConfig
    \<Rightarrow> go_error + 'w WalletService" where
  "NewWalletService repository nonces verifier cfg =
    (case (repository, nonces, verifier) of
       (Some r, Some n, True) \<Rightarrow>
         Inr \<lparr>ws_repository = r, ws_nonces = n, ws_chains = enabled_chains (blk_Chains cfg)\<rparr>
     | _ \<Rightarrow> Inl (InvalidArgument ''wallet service dependencies are incomplete''))"

definition chain_info :: "BlockchainChainConfig \<Rightarrow> ChainInfo" where
  "chain_info chain =
    \<lparr>ci_ChainId = ch_ChainID chain, ci_Name = ch_Name chain, ci_NativeSymbol = ch_NativeSymbol chain,
     ci_NativeDecimals = of_int (ch_NativeDecimals chain), ci_Enabled = True,
     ci_RequiredConfirmations = ch_RequiredConfirmations chain\<rparr>"

definition GetSupportedChains :: "'w WalletService \<Rightarrow> ChainInfo list" where
  "GetSupportedChains s =
    (let chainIDs = sort_by (<) (map fst (ws_chains s))
     in map (\<lambda>chainID. chain_info (the (map_of (ws_chains s) chainID))) chainIDs)"

definition chainEnabled :: "'w WalletService \<Rightarrow> u64 \<Rightarrow> bool" where
  "chainEnabled s chainID \<longleftrightarrow> map_of (ws_chains s) chainID \<noteq> None"

definition CreateBindingNonce :: "'w platform \<Rightarrow> ethereum \<Rightarrow> 'w WalletService \<Rightarrow> ctx \<Rightarrow> CreateBindingNonceRequest option
    \<Rightarrow> 'w \<Rightarrow> (go_error + CreateBindingNonceResponse) \<times> 'w" where
  "CreateBindingNonce P E s c req w =
    (case requireIdentity c of
       Inl err \<Rightarrow> (Inl err, w)
     | Inr identity \<Rightarrow>
       (case req of
          None \<Rightarrow> (Inl (InvalidArgument ''unsupported or disabled blockchain''), w)
        | Some r \<Rightarrow>
          if \<not> chainEnabled s (cbn_ChainId r) then
            (Inl (InvalidArgument ''unsupported or disabled blockchain''), w)
          else
            (case ns_Create P E (ws_nonces s) (id_Subject identity) (cbn_ChainId r) (cbn_Address r) w of
               (Inl err, w) \<Rightarrow> (Inl err, w)
             | (Inr challenge, w) \<Rightarrow>
                 (Inr \<lparr>cbr_NonceId = bc_NonceID challenge, cbr_SigningMessage = bc_Message challenge,
                       cbr_ExpiresAt = bc_ExpiresAt challenge\<rparr>, w))))"

definition bind_response :: "Wallet \<Rightarrow> bool \<Rightarrow> BindWalletResponse" where
  "bind_response w newly = \<lparr>br_Wallet = walletToProto (Some w), br_NewlyBound = newly\<rparr>"

definition other_owner :: go_error where
  "other_owner = Conflict ''wallet is already bound to another user''"

text \<open>The end of \<open>BindWallet\<close>: no binding of the address exists yet.\<close>

definition create_binding :: "'w platform \<Rightarrow> 'w WalletService \<Rightarrow> string \<Rightarrow> BindWalletRequest \<Rightarrow> string \<Rightarrow> 'w
    \<Rightarrow> (go_error + BindWalletResponse) \<times> 'w" where
  "create_binding P s subject r address w =
    (case p_now P w of (now, w) \<Rightarrow>
     (case p_uuid P w of (uuid, w) \<Rightarrow>
      (let bound = \<lparr>w_ID = uuid, w_UserSubject = subject, w_ChainID = bw_ChainId r, w_Address = address,
             w_Label = bw_Label r, w_Status = WalletStatusActive, w_IsDefault = False, w_VerifiedAt = now,
             w_CreatedAt = now, w_UpdatedAt = now\<rparr>
       in (case wr_CreateBoundWallet (ws_repository s) bound w of
             (Some err, _, w) \<Rightarrow>
               (case wr_FindByChainAddress (ws_repository s) (bw_ChainId r) address w of
                  (Inr winner, w) \<Rightarrow>
                    if w_UserSubject winner = subject then (Inr (bind_response winner False), w)
                    else (Inl other_owner, w)
                | (Inl lookupErr, w) \<Rightarrow> (Inl err, w))
           | (None, bound, w) \<Rightarrow> (Inr (bind_response bound True), w)))))"

text \<open>The branch for an address that has a binding, \<open>existing\<close>.\<close>

definition rebind :: "'w platform \<Rightarrow> 'w WalletService \<Rightarrow> string \<Rightarrow> BindWalletRequest \<Rightarrow> Wallet \<Rightarrow> 'w
    \<Rightarrow> (go_error + BindWalletResponse) \<times> 'w" where
  "rebind P s subject r existing w =
    (if w_UserSubject existing \<noteq> subject then (Inl other_owner, w)
     else if w_Status existing = WalletStatusDisabled then
       (case p_now P w of (now, w) \<Rightarrow>
        (case wr_Reactivate (ws_repository s) existing (bw_Label r) now w of
           (Some err, _, w) \<Rightarrow> (Inl err, w)
         | (None, _, w) \<Rightarrow>
             (case wr_FindByID (ws_repository s) subject (w_ID existing) w of
                (Inl err, w) \<Rightarrow> (Inl err, w)
              | (Inr existing, w) \<Rightarrow> (Inr (bind_response existing False), w))))
     else (Inr (bind_response existing False), w))"

definition BindWallet :: "'w platform \<Rightarrow> ethereum \<Rightarrow> 'w WalletService \<Rightarrow> ctx \<Rightarrow> BindWalletRequest option \<Rightarrow> 'w
    \<Rightarrow> (go_error + BindWalletResponse) \<times> 'w" where
  "BindWallet P E s c req w =
    (case requireIdentity c of
       Inl err \<Rightarrow> (Inl err, w)
     | Inr identity \<Rightarrow>
       (case req of
          None \<Rightarrow> (Inl (InvalidArgument ''unsupported or disabled blockchain''), w)
        | Some r \<Rightarrow>
          if \<not> chainEnabled s (bw_ChainId r) then
            (Inl (InvalidArgument ''unsupported or disabled blockchain''), w)
          else if 128 < length (bw_Label r) then
            (Inl (InvalidArgument ''wallet label is too long''), w)
          else
            (case NormalizeAddress E (bw_Address r) of
               Inl err \<Rightarrow> (Inl err, w)
             | Inr address \<Rightarrow>
               (case ns_Consume P (ws_nonces s) (bw_NonceId r) (id_Subject identity) w of
                  (Inl err, w) \<Rightarrow> (Inl err, w)
                | (Inr challenge, w) \<Rightarrow>
                  if bn_ChainID challenge \<noteq> bw_ChainId r \<or> \<not> EqualFold (bn_Address challenge) address then
                    (Inl (InvalidArgument ''wallet binding request does not match the signed challenge''), w)
                  else
                    (case Verify E (bn_Message challenge) (bw_Signature r) address of
                       Some err \<Rightarrow> (Inl err, w)
                     | None \<Rightarrow>
                       (case wr_FindByChainAddress (ws_repository s) (bw_ChainId r) address w of
                          (Inr existing, w) \<Rightarrow> rebind P s (id_Subject identity) r existing w
                        | (Inl findErr, w) \<Rightarrow>
                            if \<not> errors_Is findErr ErrRecordNotFound then (Inl findErr, w)
                            else create_binding P s (id_Subject identity) r address w))))))"

definition UnbindWallet :: "'w WalletService \<Rightarrow> ctx \<Rightarrow> string option \<Rightarrow> 'w \<Rightarrow> go_error option \<times> 'w" where
  "UnbindWallet s c walletId w =
    (case requireIdentity c of
       Inl err \<Rightarrow> (Some err, w)
     | Inr identity \<Rightarrow>
       (case walletId of
          None \<Rightarrow> (Some (InvalidArgument ''wallet ID is empty''), w)
        | Some wid \<Rightarrow>
          if TrimSpace wid = [] then (Some (InvalidArgument ''wallet ID is empty''), w)
          else
            (case wr_Disable (ws_repository s) (id_Subject identity) wid w of
               (Some err, w) \<Rightarrow> (Some (normalizeNotFound err), w)
             | (None, w) \<Rightarrow> (None, w))))"

definition GetWallets :: "'w WalletService \<Rightarrow> ctx \<Rightarrow> 'w \<Rightarrow> (go_error + WalletInfo option list) \<times> 'w" where
  "GetWallets s c w =
    (case requireIdentity c of
       Inl err \<Rightarrow> (Inl err, w)
     | Inr identity \<Rightarrow>
       (case wr_ListActiveByUser (ws_repository s) (id_Subject identity) w of
          (Inl err, w) \<Rightarrow> (Inl err, w)
        | (Inr wallets, w) \<Rightarrow> (Inr (map (\<lambda>x. walletToProto (Some x)) wallets), w)))"

text \<open>The steps of \<open>UpdateWallet\<close>: the label, the default mark, and reading the result.\<close>

definition update_label :: "'w WalletService \<Rightarrow> string \<Rightarrow> UpdateWalletRequest \<Rightarrow> 'w \<Rightarrow> go_error option \<times> 'w" where
  "update_label s subject r w =
    (case uw_Label r of
       None \<Rightarrow> (None, w)
     | Some label \<Rightarrow>
         if 128 < length label then (Some (InvalidArgument ''wallet label is too long''), w)
         else (case wr_UpdateLabel (ws_repository s) subject (uw_WalletId r) label w of
           (Some err, w) \<Rightarrow> (Some (normalizeNotFound err), w)
         | (None, w) \<Rightarrow> (None, w)))"

definition update_default :: "'w WalletService \<Rightarrow> string \<Rightarrow> UpdateWalletRequest \<Rightarrow> 'w \<Rightarrow> go_error option \<times> 'w" where
  "update_default s subject r w =
    (case uw_IsDefault r of
       None \<Rightarrow> (None, w)
     | Some d \<Rightarrow>
         (case (if d then wr_SetDefault (ws_repository s) subject (uw_WalletId r) w
                else wr_UnsetDefault (ws_repository s) subject (uw_WalletId r) w) of
            (Some err, w) \<Rightarrow> (Some (normalizeNotFound err), w)
          | (None, w) \<Rightarrow> (None, w)))"

definition UpdateWallet :: "'w WalletService \<Rightarrow> ctx \<Rightarrow> UpdateWalletRequest option \<Rightarrow> 'w
    \<Rightarrow> (go_error + WalletInfo option) \<times> 'w" where
  "UpdateWallet s c req w =
    (case requireIdentity c of
       Inl err \<Rightarrow> (Inl err, w)
     | Inr identity \<Rightarrow>
       (case req of
          None \<Rightarrow> (Inl (InvalidArgument ''wallet ID is empty''), w)
        | Some r \<Rightarrow>
          if TrimSpace (uw_WalletId r) = [] then (Inl (InvalidArgument ''wallet ID is empty''), w)
          else
            (case update_label s (id_Subject identity) r w of
               (Some err, w) \<Rightarrow> (Inl err, w)
             | (None, w) \<Rightarrow>
               (case update_default s (id_Subject identity) r w of
                  (Some err, w) \<Rightarrow> (Inl err, w)
                | (None, w) \<Rightarrow>
                  (case wr_FindByID (ws_repository s) (id_Subject identity) (uw_WalletId r) w of
                     (Inl err, w) \<Rightarrow> (Inl (normalizeNotFound err), w)
                   | (Inr updated, w) \<Rightarrow> (Inr (walletToProto (Some updated)), w))))))"

section \<open>The chains of a service\<close>

lemma enabled_chains_fold:
  "map_of (fold (\<lambda>ch m. if ch_Enabled ch then AList.update (ch_ChainID ch) ch m else m) chs m) i =
    (case find (\<lambda>ch. ch_Enabled ch \<and> ch_ChainID ch = i) (rev chs) of Some ch \<Rightarrow> Some ch | None \<Rightarrow> map_of m i)"
proof (induction chs arbitrary: m)
  case (Cons ch chs)
  then show ?case by (auto simp: update_conv' find_append split: option.splits)
qed simp

lemma enabled_chains_lookup:
  "map_of (enabled_chains chs) i = find (\<lambda>ch. ch_Enabled ch \<and> ch_ChainID ch = i) (rev chs)"
  by (simp add: enabled_chains_def enabled_chains_fold split: option.splits)

lemma distinct_enabled_chains: "distinct (map fst (enabled_chains chs))"
proof -
  have "distinct (map fst m) \<Longrightarrow> distinct (map fst (fold (\<lambda>ch m. if ch_Enabled ch
      then AList.update (ch_ChainID ch) ch m else m) chs m))" for m
    by (induction chs arbitrary: m) (auto simp: distinct_update)
  then show ?thesis by (simp add: enabled_chains_def)
qed

lemma enabled_chains_keys: "fst ` set (enabled_chains chs) = ch_ChainID ` {ch \<in> set chs. ch_Enabled ch}"
proof -
  have "i \<in> fst ` set (enabled_chains chs) \<longleftrightarrow> map_of (enabled_chains chs) i \<noteq> None" for i
    by (metis dom_map_of_conv_image_fst domIff)
  moreover have "map_of (enabled_chains chs) i \<noteq> None \<longleftrightarrow> (\<exists>ch \<in> set chs. ch_Enabled ch \<and> ch_ChainID ch = i)" for i
    unfolding enabled_chains_lookup by (auto simp: find_None_iff)
  ultimately have "i \<in> fst ` set (enabled_chains chs) \<longleftrightarrow> (\<exists>ch \<in> set chs. ch_Enabled ch \<and> ch_ChainID ch = i)" for i
    by simp
  then show ?thesis by (intro set_eqI) (simp, blast)
qed

section \<open>What \<open>BindWallet\<close> checks before it touches the table\<close>

lemma requireIdentity_Inr [result_inv]:
  "requireIdentity c = Inr i \<longleftrightarrow> c = Some i \<and> id_Subject i \<noteq> []"
  by (auto simp: requireIdentity_def RequireIdentity_def FromContext_def split: option.splits if_splits)

lemma BindWallet_Inr:
  assumes "BindWallet P E s c (Some r) w = (Inr resp, w')"
  obtains identity address challenge w1 w2 where "c = Some identity" "id_Subject identity \<noteq> []"
    "chainEnabled s (bw_ChainId r)" "length (bw_Label r) \<le> 128" "NormalizeAddress E (bw_Address r) = Inr address"
    "ns_Consume P (ws_nonces s) (bw_NonceId r) (id_Subject identity) w = (Inr challenge, w1)"
    "bn_ChainID challenge = bw_ChainId r" "EqualFold (bn_Address challenge) address"
    "Verify E (bn_Message challenge) (bw_Signature r) address = None"
    "(\<exists>existing. wr_FindByChainAddress (ws_repository s) (bw_ChainId r) address w1 = (Inr existing, w2)
        \<and> rebind P s (id_Subject identity) r existing w2 = (Inr resp, w'))
      \<or> (\<exists>err. wr_FindByChainAddress (ws_repository s) (bw_ChainId r) address w1 = (Inl err, w2)
        \<and> create_binding P s (id_Subject identity) r address w2 = (Inr resp, w'))"
  using assms unfolding BindWallet_def
  by (auto simp: result_inv not_less split: sum.splits prod.splits option.splits if_splits)

lemma FindByID_row:
  assumes "repo_ok r rows" "wr_FindByID r user wid w = (Inr x, w')"
  shows "rows w' = rows w \<and> x \<in> set (rows w') \<and> w_ID x = wid \<and> w_UserSubject x = user"
  using wr_first(1,2,3) [OF assms(1) assms(2) [unfolded wr_FindByID_def]] by simp

lemma FindByChainAddress_row:
  assumes "repo_ok r rows" "wr_FindByChainAddress r chain addr w = (Inr x, w')"
  shows "rows w' = rows w \<and> x \<in> set (rows w') \<and> w_ChainID x = chain \<and> w_Address x = addr"
  using wr_first(1,2,3) [OF assms(1) assms(2) [unfolded wr_FindByChainAddress_def]] by simp

lemma rebind_row:
  assumes ok: "repo_ok (ws_repository s) rows" and "existing \<in> set (rows w)"
    and "rebind P s subject r existing w = (Inr resp, w')"
  obtains x where "x \<in> set (rows w')" "br_Wallet resp = walletToProto (Some x)" "w_UserSubject x = subject"
    "w_ID x = w_ID existing"
proof (cases "w_Status existing = WalletStatusDisabled")
  case True
  with assms(3) obtain x w2 where f: "wr_FindByID (ws_repository s) subject (w_ID existing) w2 = (Inr x, w')"
    and "resp = bind_response x False"
    by (auto simp: rebind_def split: if_splits prod.splits option.splits sum.splits)
  with FindByID_row [OF ok f] that [of x] show thesis by (auto simp: bind_response_def)
next
  case False
  with assms that [of existing] show thesis by (auto simp: rebind_def bind_response_def split: if_splits)
qed

lemma create_binding_row:
  assumes ok: "repo_ok (ws_repository s) rows" and "create_binding P s subject r address w = (Inr resp, w')"
  obtains x where "x \<in> set (rows w')" "br_Wallet resp = walletToProto (Some x)" "w_UserSubject x = subject"
    "w_ChainID x = bw_ChainId r" "w_Address x = address"
proof -
  obtain now w1 uuid w2 where n: "p_now P w = (now, w1)" "p_uuid P w1 = (uuid, w2)" by fastforce
  let ?b = "\<lparr>w_ID = uuid, w_UserSubject = subject, w_ChainID = bw_ChainId r, w_Address = address,
             w_Label = bw_Label r, w_Status = WalletStatusActive, w_IsDefault = False, w_VerifiedAt = now,
             w_CreatedAt = now, w_UpdatedAt = now\<rparr>"
  obtain e b w3 where c: "wr_CreateBoundWallet (ws_repository s) ?b w2 = (e, b, w3)" by (cases "wr_CreateBoundWallet (ws_repository s) ?b w2")
  show thesis
  proof (cases e)
    case None
    with assms(2) n c have "resp = bind_response b True" "w' = w3" by (simp_all add: create_binding_def)
    moreover obtain t where "b = t_fill (wallet_table rows) t
        (?b\<lparr>w_IsDefault := (\<forall>x \<in> set (rows w2). \<not> is_default_of (w_UserSubject ?b) x)\<rparr>)" "rows w3 = rows w2 @ [b]"
      by (rule CreateBoundWallet_None [OF ok c [unfolded None]])
    ultimately show thesis using that [of b] by (simp add: bind_response_def)
  next
    case (Some err)
    with assms(2) n c obtain x where f: "wr_FindByChainAddress (ws_repository s) (bw_ChainId r) address w3 = (Inr x, w')"
      and "w_UserSubject x = subject" "resp = bind_response x False"
      by (auto simp: create_binding_def split: sum.splits prod.splits if_splits)
    with FindByChainAddress_row [OF ok f] that [of x] show thesis by (auto simp: bind_response_def)
  qed
qed

section \<open>The table under the handlers\<close>

text \<open>Redis, the clock, the random source and \<open>uuid\<close> do not change the table.\<close>

definition frame_ok :: "'w platform \<Rightarrow> 'w redis_client \<Rightarrow> ('w \<Rightarrow> Wallet list) \<Rightarrow> bool" where
  "frame_ok P c rows \<longleftrightarrow>
     (\<forall>w t w'. p_now P w = (t, w') \<longrightarrow> rows w' = rows w)
   \<and> (\<forall>w u w'. p_uuid P w = (u, w') \<longrightarrow> rows w' = rows w)
   \<and> (\<forall>n w b w'. p_rand_Read P n w = (b, w') \<longrightarrow> rows w' = rows w)
   \<and> (\<forall>k w v w'. raw_GetDel (raw_of c) k w = (v, w') \<longrightarrow> rows w' = rows w)
   \<and> (\<forall>k v t w b w'. raw_SetNX (raw_of c) k v t w = (b, w') \<longrightarrow> rows w' = rows w)"

lemma frame_okD:
  assumes "frame_ok P c rows"
  shows "p_now P w = (t, w') \<Longrightarrow> rows w' = rows w" and "p_uuid P w = (u, w') \<Longrightarrow> rows w' = rows w"
    and "raw_GetDel (raw_of c) k w = (v, w') \<Longrightarrow> rows w' = rows w"
  using assms unfolding frame_ok_def by blast+

lemma Consume_rows:
  assumes "frame_ok P (ns_redis s) rows" "ns_Consume P s i u w = (res, w')"
  shows "rows w' = rows w"
proof (cases "TrimSpace i = [] \<or> TrimSpace u = []")
  case True
  with assms(2) show ?thesis by (auto simp: ns_Consume_def)
next
  case False
  obtain g w1 where raw: "raw_GetDel (raw_of (ns_redis s)) (rc_key (ns_redis s) (nonceKeyPrefix @ TrimSpace i)) w = (g, w1)"
    by fastforce
  have "snd (rc_GetDel (ns_redis s) (nonceKeyPrefix @ TrimSpace i) w) = w1"
    using raw by (auto simp: rc_GetDel_def split: sum.splits)
  then obtain r where g: "rc_GetDel (ns_redis s) (nonceKeyPrefix @ TrimSpace i) w = (r, w1)"
    by (metis prod.collapse)
  obtain t w2 where n: "p_now P w1 = (t, w2)" by fastforce
  have "w' = w1 \<or> w' = w2"
    using assms(2) False g n by (auto simp: ns_Consume_def Let_def split: sum.splits if_splits)
  with frame_okD [OF assms(1)] raw n show ?thesis by metis
qed

text \<open>\<open>kept K ws\<close>: the table satisfies its invariant and still has the bindings \<open>K\<close>.\<close>

definition kept :: "(string \<times> string \<times> u64 \<times> string) set \<Rightarrow> Wallet list \<Rightarrow> bool" where
  "kept K ws \<longleftrightarrow> wallet_inv ws \<and> K \<subseteq> wallet_key ` set ws"

lemma kept_step:
  assumes "repo_ok r rows" "repo_step r rows w w'" "kept K (rows w)"
  shows "kept K (rows w')"
  using repo_step_inv [OF assms(1,2)] repo_step_keys [OF assms(1,2)] assms(3) unfolding kept_def by blast

lemma rebind_kept:
  assumes ok: "repo_ok (ws_repository s) rows" and fr: "frame_ok P (ns_redis (ws_nonces s)) rows"
    and ex: "existing \<in> set (rows w)" and k: "kept K (rows w)"
    and eq: "rebind P s subject r existing w = (res, w')"
  shows "kept K (rows w')"
proof (cases "w_UserSubject existing = subject \<and> w_Status existing = WalletStatusDisabled")
  case False
  with eq k show ?thesis by (auto simp: rebind_def split: if_splits)
next
  case True
  obtain now w1 where n: "p_now P w = (now, w1)" by fastforce
  obtain e x w2 where r: "wr_Reactivate (ws_repository s) existing (bw_Label r) now w1 = (e, x, w2)"
    by (cases "wr_Reactivate (ws_repository s) existing (bw_Label r) now w1")
  have "rows w1 = rows w" by (rule frame_okD(1) [OF fr n])
  then have "kept K (rows w1)" "existing \<in> set (rows w1)" using k ex by simp_all
  then have k2: "kept K (rows w2)" using kept_step [OF ok] repo_step.reactivate [OF _ refl refl r] by blast
  show ?thesis
  proof (cases e)
    case (Some err)
    with eq True n r k2 show ?thesis by (auto simp: rebind_def)
  next
    case None
    obtain f w3 where f: "wr_FindByID (ws_repository s) subject (w_ID existing) w2 = (f, w3)" by fastforce
    from eq True n r None f have "w' = w3" by (auto simp: rebind_def split: sum.splits)
    with kept_step [OF ok repo_step.find_id [OF f] k2] show ?thesis by simp
  qed
qed

lemma create_binding_kept:
  assumes ok: "repo_ok (ws_repository s) rows" and fr: "frame_ok P (ns_redis (ws_nonces s)) rows"
    and k: "kept K (rows w)" and eq: "create_binding P s subject r address w = (res, w')"
  shows "kept K (rows w')"
proof -
  obtain now w1 uuid w2 where n: "p_now P w = (now, w1)" "p_uuid P w1 = (uuid, w2)" by fastforce
  let ?b = "\<lparr>w_ID = uuid, w_UserSubject = subject, w_ChainID = bw_ChainId r, w_Address = address,
             w_Label = bw_Label r, w_Status = WalletStatusActive, w_IsDefault = False, w_VerifiedAt = now,
             w_CreatedAt = now, w_UpdatedAt = now\<rparr>"
  obtain e b w3 where c: "wr_CreateBoundWallet (ws_repository s) ?b w2 = (e, b, w3)"
    by (cases "wr_CreateBoundWallet (ws_repository s) ?b w2")
  have "kept K (rows w2)" using k frame_okD(1) [OF fr n(1)] frame_okD(2) [OF fr n(2)] by simp
  then have k3: "kept K (rows w3)" by (intro kept_step [OF ok repo_step.create [OF _ c]]) simp_all
  show ?thesis
  proof (cases e)
    case None
    with eq n c k3 show ?thesis by (simp add: create_binding_def)
  next
    case (Some err)
    obtain f w4 where f: "wr_FindByChainAddress (ws_repository s) (bw_ChainId r) address w3 = (f, w4)" by fastforce
    from eq n c Some f have "w' = w4" by (auto simp: create_binding_def split: sum.splits if_splits)
    with kept_step [OF ok repo_step.find_address [OF f] k3] show ?thesis by simp
  qed
qed

lemma BindWallet_kept:
  assumes ok: "repo_ok (ws_repository s) rows" and fr: "frame_ok P (ns_redis (ws_nonces s)) rows"
    and k: "kept K (rows w)" and eq: "BindWallet P E s c req w = (res, w')"
  shows "kept K (rows w')"
proof -
  consider "w' = w" | (run) identity r address cres w1 where
      "c = Some identity" "req = Some r" "NormalizeAddress E (bw_Address r) = Inr address"
      "ns_Consume P (ws_nonces s) (bw_NonceId r) (id_Subject identity) w = (cres, w1)"
      "w' = w1 \<or> (\<exists>f w2. wr_FindByChainAddress (ws_repository s) (bw_ChainId r) address w1 = (f, w2) \<and>
         (w' = w2 \<or> (\<exists>x. f = Inr x \<and> rebind P s (id_Subject identity) r x w2 = (res, w'))
          \<or> (\<exists>err. f = Inl err \<and> create_binding P s (id_Subject identity) r address w2 = (res, w'))))"
    using eq unfolding BindWallet_def
    by (auto simp: result_inv split: sum.splits prod.splits option.splits if_splits)
  then show ?thesis
  proof cases
    case run
    have k1: "kept K (rows w1)" using Consume_rows [OF fr run(4)] k by simp
    from run(5) show ?thesis
    proof (elim disjE exE conjE)
      fix f w2 assume f: "wr_FindByChainAddress (ws_repository s) (bw_ChainId r) address w1 = (f, w2)"
      have k2: "kept K (rows w2)" by (rule kept_step [OF ok repo_step.find_address [OF f] k1])
      { assume "w' = w2" with k2 show ?thesis by simp }
      { fix x assume "f = Inr x" and rb: "rebind P s (id_Subject identity) r x w2 = (res, w')"
        with FindByChainAddress_row [OF ok] f have "x \<in> set (rows w2)" by blast
        from rebind_kept [OF ok fr this k2 rb] show ?thesis . }
      { assume "create_binding P s (id_Subject identity) r address w2 = (res, w')"
        from create_binding_kept [OF ok fr k2 this] show ?thesis . }
    qed (use k1 in simp)
  qed (use k in simp)
qed

lemma UnbindWallet_kept:
  assumes ok: "repo_ok (ws_repository s) rows" and k: "kept K (rows w)"
    and eq: "UnbindWallet s c wid w = (e, w')"
  shows "kept K (rows w')"
proof -
  consider "w' = w" | user i err where "wr_Disable (ws_repository s) user i w = (err, w')"
    using eq unfolding UnbindWallet_def by (auto split: sum.splits option.splits prod.splits if_splits)
  then show ?thesis
    by cases (use k kept_step [OF ok repo_step.disable] in blast)+
qed

lemma GetWallets_kept:
  assumes ok: "repo_ok (ws_repository s) rows" and k: "kept K (rows w)"
    and eq: "GetWallets s c w = (res, w')"
  shows "kept K (rows w')"
proof -
  consider "w' = w" | user l where "wr_ListActiveByUser (ws_repository s) user w = (l, w')"
    using eq unfolding GetWallets_def by (auto split: sum.splits prod.splits)
  then show ?thesis
    by cases (use k kept_step [OF ok repo_step.list_user] in blast)+
qed

lemma update_label_kept:
  assumes ok: "repo_ok (ws_repository s) rows" and k: "kept K (rows w)"
    and eq: "update_label s user r w = (e, w')"
  shows "kept K (rows w')"
proof -
  consider "w' = w" | label err where "wr_UpdateLabel (ws_repository s) user (uw_WalletId r) label w = (err, w')"
    using eq unfolding update_label_def by (auto split: option.splits prod.splits if_splits)
  then show ?thesis
    by cases (use k kept_step [OF ok repo_step.label] in blast)+
qed

lemma update_default_kept:
  assumes ok: "repo_ok (ws_repository s) rows" and k: "kept K (rows w)"
    and eq: "update_default s user r w = (e, w')"
  shows "kept K (rows w')"
proof -
  consider "w' = w" | err where "wr_SetDefault (ws_repository s) user (uw_WalletId r) w = (err, w')"
    | err where "wr_UnsetDefault (ws_repository s) user (uw_WalletId r) w = (err, w')"
    using eq unfolding update_default_def by (auto split: option.splits prod.splits if_splits)
  then show ?thesis
    by cases (use k kept_step [OF ok repo_step.set_default] kept_step [OF ok repo_step.unset_default] in blast)+
qed

lemma UpdateWallet_kept:
  assumes ok: "repo_ok (ws_repository s) rows" and k: "kept K (rows w)"
    and eq: "UpdateWallet s c req w = (res, w')"
  shows "kept K (rows w')"
proof -
  consider "w' = w" | user r e w1 e2 w2 where "update_label s user r w = (e, w1)"
      "w' = w1 \<or> update_default s user r w1 = (e2, w2)
        \<and> (w' = w2 \<or> (\<exists>f. wr_FindByID (ws_repository s) user (uw_WalletId r) w2 = (f, w')))"
    using eq unfolding UpdateWallet_def
    by (auto split: sum.splits option.splits prod.splits if_splits) blast+
  then show ?thesis
  proof cases
    case 2
    have k1: "kept K (rows w1)" by (rule update_label_kept [OF ok k 2(1)])
    from 2(2) show ?thesis
      using k1 update_default_kept [OF ok k1] kept_step [OF ok repo_step.find_id] by blast
  qed (use k in simp)
qed

text \<open>One request of any user to the wallet service.\<close>

inductive wallet_request :: "'w platform \<Rightarrow> ethereum \<Rightarrow> 'w WalletService \<Rightarrow> 'w \<Rightarrow> 'w \<Rightarrow> bool" for P E s where
  bind: "BindWallet P E s c req w = (res, w') \<Longrightarrow> wallet_request P E s w w'"
| unbind: "UnbindWallet s c wid w = (e, w') \<Longrightarrow> wallet_request P E s w w'"
| get: "GetWallets s c w = (lres, w') \<Longrightarrow> wallet_request P E s w w'"
| update: "UpdateWallet s c ureq w = (ures, w') \<Longrightarrow> wallet_request P E s w w'"

lemma wallet_request_kept:
  assumes "repo_ok (ws_repository s) rows" "frame_ok P (ns_redis (ws_nonces s)) rows"
    and "wallet_request P E s w w'" "kept K (rows w)"
  shows "kept K (rows w')"
  using assms(3)
proof cases
  case (bind c req res)
  then show ?thesis by (rule BindWallet_kept [OF assms(1,2,4)])
next
  case (unbind c wid e)
  then show ?thesis by (rule UnbindWallet_kept [OF assms(1,4)])
next
  case (get c lres)
  then show ?thesis by (rule GetWallets_kept [OF assms(1,4)])
next
  case (update c ureq ures)
  then show ?thesis by (rule UpdateWallet_kept [OF assms(1,4)])
qed

section \<open>Properties\<close>

text \<open>C1: a successful \<open>BindWallet\<close> proves ownership: the caller is authenticated, the chain is
  enabled, a challenge issued to this caller for this chain and address was consumed, the
  signature over its text recovers to exactly the bound address, and the returned wallet is a row
  of the table that belongs to the caller on that chain and address.\<close>

theorem BindWallet_sound:
  assumes E: "ethereum_ok E" and N: "nonce_ok (P, ws_nonces s) store" and R: "repo_ok (ws_repository s) rows"
    and K: "wallet_inv (rows w)" and F: "frame_ok P (ns_redis (ws_nonces s)) rows"
    and eq: "BindWallet P E s c (Some r) w = (Inr resp, w')"
  shows "\<exists>identity address challenge w1 x. c = Some identity \<and> id_Subject identity \<noteq> []
    \<and> chainEnabled s (bw_ChainId r) \<and> NormalizeAddress E (bw_Address r) = Inr address
    \<and> ns_Consume P (ws_nonces s) (bw_NonceId r) (id_Subject identity) w = (Inr challenge, w1)
    \<and> bn_UserSubject challenge = TrimSpace (id_Subject identity) \<and> bn_ChainID challenge = bw_ChainId r
    \<and> EqualFold (bn_Address challenge) address
    \<and> RecoverAddress E (bn_Message challenge) (bw_Signature r) = Inr address
    \<and> x \<in> set (rows w') \<and> br_Wallet resp = walletToProto (Some x)
    \<and> w_UserSubject x = id_Subject identity \<and> w_ChainID x = bw_ChainId r \<and> w_Address x = address"
proof -
  from eq obtain identity address challenge w1 w2 where
    c: "c = Some identity" "id_Subject identity \<noteq> []" "chainEnabled s (bw_ChainId r)"
      "NormalizeAddress E (bw_Address r) = Inr address"
    and n: "ns_Consume P (ws_nonces s) (bw_NonceId r) (id_Subject identity) w = (Inr challenge, w1)"
    and m: "bn_ChainID challenge = bw_ChainId r" "EqualFold (bn_Address challenge) address"
    and v: "Verify E (bn_Message challenge) (bw_Signature r) address = None"
    and cases: "(\<exists>existing. wr_FindByChainAddress (ws_repository s) (bw_ChainId r) address w1 = (Inr existing, w2)
        \<and> rebind P s (id_Subject identity) r existing w2 = (Inr resp, w'))
      \<or> (\<exists>err. wr_FindByChainAddress (ws_repository s) (bw_ChainId r) address w1 = (Inl err, w2)
        \<and> create_binding P s (id_Subject identity) r address w2 = (Inr resp, w'))"
    by (rule BindWallet_Inr)
  have o: "bn_UserSubject challenge = TrimSpace (id_Subject identity)"
    using nonces.consume_owner [OF N, of "bw_NonceId r" "id_Subject identity" w challenge w1] n by simp
  from c(4) have a: "address = eth_Hex E (TrimSpace (bw_Address r))" "eth_IsHexAddress E (TrimSpace (bw_Address r))"
    by (auto simp: NormalizeAddress_def Let_def split: if_splits)
  have canon: "NormalizeAddress E address = Inr address"
    unfolding a(1) using ethereum_okD(1,2,3) [OF E a(2)] by (simp add: NormalizeAddress_def)
  with Verify_sound' [OF E v] have rec: "RecoverAddress E (bn_Message challenge) (bw_Signature r) = Inr address" by auto
  have "\<exists>x \<in> set (rows w'). br_Wallet resp = walletToProto (Some x) \<and> w_UserSubject x = id_Subject identity
      \<and> w_ChainID x = bw_ChainId r \<and> w_Address x = address"
    using cases
  proof (elim disjE exE conjE)
    fix existing
    assume f: "wr_FindByChainAddress (ws_repository s) (bw_ChainId r) address w1 = (Inr existing, w2)"
      and rb: "rebind P s (id_Subject identity) r existing w2 = (Inr resp, w')"
    note ex = FindByChainAddress_row [OF R f]
    obtain x where x: "x \<in> set (rows w')" "br_Wallet resp = walletToProto (Some x)"
      "w_UserSubject x = id_Subject identity" "w_ID x = w_ID existing"
      by (rule rebind_row [OF R _ rb]) (use ex in blast)
    have "kept {wallet_key existing} (rows w2)" using K ex Consume_rows [OF F n] by (auto simp: kept_def)
    with rebind_kept [OF R F _ _ rb] ex have k: "kept {wallet_key existing} (rows w')" by blast
    then obtain y where y: "y \<in> set (rows w')" "wallet_key y = wallet_key existing" by (auto simp: kept_def)
    then have "y = x" using inv_same_id [of "rows w'" y x] k x(1,4) by (simp add: kept_def wallet_key_def)
    with y(2) have "w_ChainID x = w_ChainID existing" "w_Address x = w_Address existing"
      by (simp_all add: wallet_key_def)
    with ex x(1,2,3) show ?thesis by metis
  next
    fix err assume "create_binding P s (id_Subject identity) r address w2 = (Inr resp, w')"
    from create_binding_row [OF R this] show ?thesis by metis
  qed
  with c n o m rec show ?thesis by metis
qed

text \<open>A world with a Redis key space and a wallet table.\<close>

type_synonym sample_state = "mem_world \<times> Wallet list"

definition sample_service :: "sample_state WalletService" where
  "sample_service =
    \<lparr>ws_repository = \<lparr>wr_db = list_gorm snd (\<lambda>rs w. (fst w, rs)) 7 (wallet_table snd)\<rparr>,
     ws_nonces = sample_store (lift_client mem_client),
     ws_chains = [(1, \<lparr>ch_ChainID = 1, ch_Name = ''eth'', ch_Enabled = True, ch_RPCURLs = [''u''],
       ch_NativeSymbol = ''ETH'', ch_NativeDecimals = 18, ch_RequiredConfirmations = 12\<rparr>)]\<rparr>"

lemma sample_service_ok:
  "repo_ok (ws_repository sample_service) snd"
  "nonce_ok (sample_platform, ws_nonces sample_service) (\<lambda>w. map_of (fst w))"
  "frame_ok sample_platform (ns_redis (ws_nonces sample_service)) snd"
  subgoal by (simp add: repo_ok_def sample_service_def list_gorm_ok)
  subgoal by (simp add: sample_service_def sample_nonce_ok lift_client_ok mem_client_ok)
  subgoal by (auto simp: frame_ok_def sample_service_def sample_store_def sample_platform_def lift_client_def
      lift_redis_def mem_client_def on_fst_eq)
  done

definition sample_user :: Identity where
  "sample_user = zero_identity\<lparr>id_Subject := ''u''\<rparr>"

definition sample_bind :: BindWalletRequest where
  "sample_bind = \<lparr>bw_ChainId = 1, bw_Address = ''abc'', bw_NonceId = sample_id,
     bw_Signature = replicate 130 CHR ''0'', bw_Label = []\<rparr>"

definition bound_sample :: Wallet where
  "bound_sample = \<lparr>w_ID = ''id'', w_UserSubject = ''u'', w_ChainID = 1, w_Address = ''ABC'', w_Label = [],
     w_Status = WalletStatusActive, w_IsDefault = True, w_VerifiedAt = 5, w_CreatedAt = 5, w_UpdatedAt = 5\<rparr>"

lemma sample_consume_lifted:
  "ns_Consume sample_platform (ws_nonces sample_service) sample_id ''u'' (sample_world, []) = (Inr sample_rcd, ([], []))"
proof -
  have i: "sample_id \<noteq> []" by (simp add: sample_id_def hex_EncodeToString_def)
  have k: "rc_key (lift_client mem_client) (nonceKeyPrefix @ sample_id) = ''web3:'' @ nonceKeyPrefix @ sample_id"
    unfolding rc_key_lift by (rule sample_key)
  have g: "rc_GetDel (lift_client mem_client) (nonceKeyPrefix @ sample_id) (sample_world, []) = (Inr ''{}'', ([], []))"
    unfolding rc_GetDel_def k by (simp add: lift_client_def lift_redis_def mem_client_def mem_redis_def mem_drop_def on_fst_def)
  have ns: "ns_redis (ws_nonces sample_service) = lift_client mem_client"
    by (simp add: sample_service_def sample_store_def)
  have p: "p_Unmarshal sample_platform ''{}'' = Inr sample_rcd" "p_now sample_platform v = (5, v)" for v :: sample_state
    by (simp_all add: sample_platform_def)
  have r: "bn_UserSubject sample_rcd = ''u''" "bn_ExpiresAt sample_rcd = 60" by (simp_all add: sample_rcd_def)
  show ?thesis unfolding ns_Consume_def sample_trims Let_def ns g by (simp add: i p r)
qed

lemma sample_bind_result:
  "BindWallet sample_platform sample_ethereum sample_service (Some sample_user) (Some sample_bind) (sample_world, [])
    = (Inr (bind_response bound_sample True), ([], [bound_sample]))"
proof -
  have id: "requireIdentity (Some sample_user) = Inr sample_user" "id_Subject sample_user = ''u''"
    by (simp_all add: result_inv sample_user_def zero_identity_def)
  have b: "bw_ChainId sample_bind = 1" "bw_Address sample_bind = ''abc''" "bw_NonceId sample_bind = sample_id"
    "bw_Signature sample_bind = replicate 130 CHR ''0''" "bw_Label sample_bind = []"
    by (simp_all add: sample_bind_def)
  have ch: "chainEnabled sample_service 1" by (simp add: chainEnabled_def sample_service_def)
  have "TrimSpace ''abc'' = ''abc''" by (rule TrimSpace_plain) (simp add: plain_char_def)
  then have nz: "NormalizeAddress sample_ethereum ''abc'' = Inr ''ABC''"
    by (simp add: NormalizeAddress_def sample_ethereum_def)
  have r: "bn_ChainID sample_rcd = 1" "bn_Address sample_rcd = ''ABC''" by (simp_all add: sample_rcd_def)
  have v: "Verify sample_ethereum m (replicate 130 CHR ''0'') ''ABC'' = None" for m
    by (rule sample_verify [OF ABC_plain]) simp
  have f: "wr_FindByChainAddress (ws_repository sample_service) 1 ''ABC'' ([], []) = (Inl not_found, ([], []))"
    by (simp add: wr_FindByChainAddress_def sample_service_def list_gorm_def sort_by_def)
  have cb: "create_binding sample_platform sample_service ''u'' sample_bind ''ABC'' ([], [])
      = (Inr (bind_response bound_sample True), ([], [bound_sample]))"
  proof -
    have "wr_CreateBoundWallet (ws_repository sample_service) (bound_sample\<lparr>w_IsDefault := False\<rparr>) ([], [])
        = (None, bound_sample, ([], [bound_sample]))"
      by (simp add: sample_service_def wr_CreateBoundWallet_def list_gorm_def wallet_table_def lockWalletOwner_def
          check_err_def check_res_def zero_time_def bound_sample_def Let_def)
    moreover have "bound_sample\<lparr>w_IsDefault := False\<rparr> = \<lparr>w_ID = ''id'', w_UserSubject = ''u'', w_ChainID = 1,
        w_Address = ''ABC'', w_Label = [], w_Status = WalletStatusActive, w_IsDefault = False, w_VerifiedAt = 5,
        w_CreatedAt = 5, w_UpdatedAt = 5\<rparr>"
      by (simp add: bound_sample_def)
    ultimately show ?thesis by (simp add: create_binding_def b sample_platform_def)
  qed
  have nf: "errors_Is not_found ErrRecordNotFound" by (simp add: not_found_def errors_Is_def)
  show ?thesis
    unfolding BindWallet_def id sum.case option.case b nz sample_consume_lifted prod.case r v f
    by (simp add: ch EqualFold_def nf cb)
qed

theorem BindWallet_sound_witness:
  "\<exists>address challenge w1. ns_Consume sample_platform (ws_nonces sample_service) sample_id ''u'' (sample_world, []) = (Inr challenge, w1)
    \<and> RecoverAddress sample_ethereum (bn_Message challenge) (bw_Signature sample_bind) = Inr address
    \<and> snd (BindWallet sample_platform sample_ethereum sample_service (Some sample_user) (Some sample_bind) (sample_world, []))
       = ([], [bound_sample])"
proof -
  have inv: "wallet_inv (snd (sample_world, [] :: Wallet list))" by (simp add: wallet_inv_def)
  from BindWallet_sound [OF sample_ethereum_ok sample_service_ok(2,1) inv sample_service_ok(3) sample_bind_result]
  obtain identity address challenge w1 where "Some sample_user = Some identity"
    "ns_Consume sample_platform (ws_nonces sample_service) (bw_NonceId sample_bind) (id_Subject identity) (sample_world, []) = (Inr challenge, w1)"
    "RecoverAddress sample_ethereum (bn_Message challenge) (bw_Signature sample_bind) = Inr address"
    by blast
  moreover have "bw_NonceId sample_bind = sample_id" "id_Subject sample_user = ''u''"
    by (simp_all add: sample_bind_def sample_user_def zero_identity_def)
  ultimately show ?thesis by (simp only: sample_bind_result snd_conv option.inject) metis
qed

text \<open>C2: whatever requests users make in whatever order, and whichever of them fail, the wallet
  table keeps its invariant, and no binding disappears or changes its owner, chain or address.\<close>

theorem wallet_requests_keep_table:
  assumes "repo_ok (ws_repository s) rows" and "frame_ok P (ns_redis (ws_nonces s)) rows"
    and "wallet_inv (rows w)" and "(wallet_request P E s)\<^sup>*\<^sup>* w w'"
  shows "wallet_inv (rows w') \<and> wallet_key ` set (rows w) \<subseteq> wallet_key ` set (rows w')"
proof -
  have "kept (wallet_key ` set (rows w)) (rows w)" using assms(3) by (simp add: kept_def)
  with assms(4) have "kept (wallet_key ` set (rows w)) (rows w')"
    by (induction rule: rtranclp_induct) (use wallet_request_kept [OF assms(1,2)] in blast)+
  then show ?thesis by (simp add: kept_def)
qed

theorem wallet_requests_keep_table_witness:
  "\<exists>w'. (wallet_request sample_platform sample_ethereum sample_service)\<^sup>*\<^sup>* (sample_world, []) w'
     \<and> bound_sample \<in> set (snd w') \<and> wallet_inv (snd w')"
proof -
  have run: "(wallet_request sample_platform sample_ethereum sample_service)\<^sup>*\<^sup>* (sample_world, []) ([], [bound_sample])"
    using wallet_request.bind [OF sample_bind_result] by blast
  have inv: "wallet_inv (snd (sample_world, [] :: Wallet list))" by (simp add: wallet_inv_def)
  from wallet_requests_keep_table [OF sample_service_ok(1,3) inv run]
  have inv': "wallet_inv (snd ([] :: mem_world, [bound_sample]))" by blast
  show ?thesis
  proof (intro exI conjI)
    show "bound_sample \<in> set (snd ([] :: mem_world, [bound_sample]))" by simp
  qed (fact run inv')+
qed

lemma strict_weak_default_first: "strict_weak default_first"
  unfolding strict_weak_def default_first_def by auto

text \<open>\<open>GetWallets\<close> returns exactly the caller's active wallets, the default wallet first.\<close>

theorem GetWallets_own:
  assumes "repo_ok (ws_repository s) rows" and "GetWallets s c w = (Inr infos, w')"
  shows "\<exists>identity xs. c = Some identity \<and> infos = map (\<lambda>x. walletToProto (Some x)) xs
    \<and> mset xs = mset (filter (\<lambda>x. w_UserSubject x = id_Subject identity \<and> w_Status x = WalletStatusActive) (rows w))
    \<and> sorted_wrt (\<lambda>a b. w_IsDefault b \<longrightarrow> w_IsDefault a) xs"
proof -
  from assms(2) obtain identity xs where c: "c = Some identity" "infos = map (\<lambda>x. walletToProto (Some x)) xs"
    and l: "wr_ListActiveByUser (ws_repository s) (id_Subject identity) w = (Inr xs, w')"
    by (auto simp: GetWallets_def result_inv split: sum.splits prod.splits)
  from find_Inr [OF assms(1) [unfolded repo_ok_def] l [unfolded wr_ListActiveByUser_def]]
  have m: "mset xs = mset (filter (\<lambda>x. w_UserSubject x = id_Subject identity \<and> w_Status x = WalletStatusActive) (rows w))"
    and "sorted_wrt (\<lambda>a b. \<not> default_first b a) xs" using strict_weak_default_first by simp_all
  moreover have "w_IsDefault b \<longrightarrow> w_IsDefault a" if "\<not> default_first b a" for a b
    using that by (auto simp: default_first_def)
  ultimately show ?thesis using c sorted_wrt_mono_rel by (metis (no_types, lifting))
qed

theorem GetWallets_own_witness:
  "\<exists>infos. fst (GetWallets sample_service (Some sample_user) ([], [bound_sample])) = Inr infos \<and> length infos = 1"
proof -
  have r: "requireIdentity (Some sample_user) = Inr sample_user" "id_Subject sample_user = ''u''"
    by (simp_all add: result_inv sample_user_def zero_identity_def)
  obtain infos w' where g: "GetWallets sample_service (Some sample_user) ([], [bound_sample]) = (Inr infos, w')"
    by (simp add: GetWallets_def r wr_ListActiveByUser_def sample_service_def list_gorm_def)
  from GetWallets_own [OF sample_service_ok(1) g] obtain identity xs where i: "Some sample_user = Some identity"
    "infos = map (\<lambda>x. walletToProto (Some x)) xs"
    "mset xs = mset (filter (\<lambda>x. w_UserSubject x = id_Subject identity \<and> w_Status x = WalletStatusActive) [bound_sample])"
    by auto
  then have "mset xs = mset [bound_sample]" using r(2) by (simp add: bound_sample_def)
  then have "length xs = 1" by (metis length_Cons list.size(3) mset_eq_length One_nat_def)
  with g i show ?thesis by simp
qed

text \<open>\<open>GetSupportedChains\<close> lists every enabled chain once, in increasing order of chain ID.\<close>

theorem GetSupportedChains_sorted:
  assumes "NewWalletService repo nonces verifier cfg = Inr s"
  shows "sorted_wrt (<) (map ci_ChainId (GetSupportedChains s))
    \<and> set (map ci_ChainId (GetSupportedChains s)) = ch_ChainID ` {ch \<in> set (blk_Chains cfg). ch_Enabled ch}"
proof -
  from assms have s: "ws_chains s = enabled_chains (blk_Chains cfg)"
    by (auto simp: NewWalletService_def split: option.splits bool.splits)
  let ?ids = "sort_by (<) (map fst (enabled_chains (blk_Chains cfg)))"
  have "ci_ChainId (chain_info (the (map_of (ws_chains s) i))) = i" if "i \<in> set ?ids" for i
  proof -
    from that have "i \<in> fst ` set (enabled_chains (blk_Chains cfg))" by simp
    then have "map_of (ws_chains s) i \<noteq> None" unfolding s by (metis dom_map_of_conv_image_fst domIff)
    then obtain ch where "map_of (ws_chains s) i = Some ch" "ch_ChainID ch = i"
      unfolding s enabled_chains_lookup by (auto simp: find_Some_iff)
    then show ?thesis by (simp add: chain_info_def)
  qed
  then have "map (\<lambda>i. ci_ChainId (chain_info (the (map_of (ws_chains s) i)))) ?ids = ?ids"
    by (rule map_idI)
  then have ids: "map ci_ChainId (GetSupportedChains s) = ?ids"
    by (simp add: GetSupportedChains_def s comp_def)
  have "sorted_wrt (\<lambda>a b. \<not> b < a) ?ids" by (rule sorted_sort_by) auto
  moreover have "distinct ?ids" by (simp add: distinct_enabled_chains)
  ultimately have "sorted_wrt (<) ?ids" by (rule strictly_sorted)
  with ids show ?thesis by (simp add: enabled_chains_keys)
qed

definition sample_chain :: "u64 \<Rightarrow> BlockchainChainConfig" where
  "sample_chain i = \<lparr>ch_ChainID = i, ch_Name = ''eth'', ch_Enabled = True, ch_RPCURLs = [''u''],
     ch_NativeSymbol = ''ETH'', ch_NativeDecimals = 18, ch_RequiredConfirmations = 12\<rparr>"

definition sample_chains :: BlockchainConfig where
  "sample_chains = \<lparr>blk_RequestTimeout = ''1s'', blk_RetryCount = 0, blk_BalanceCacheTTL = ''1s'',
     blk_Scanner = \<lparr>scan_Enabled = False, scan_PollInterval = ''1s'', scan_BatchSize = 0, scan_StartBlock = 0\<rparr>,
     blk_Chains = [sample_chain 5, sample_chain 1]\<rparr>"

theorem GetSupportedChains_sorted_witness:
  "\<exists>s. NewWalletService (Some (ws_repository sample_service)) (Some (ws_nonces sample_service)) True sample_chains = Inr s
    \<and> sorted_wrt (<) (map ci_ChainId (GetSupportedChains s)) \<and> set (map ci_ChainId (GetSupportedChains s)) = {1, 5}"
proof -
  obtain s where s: "NewWalletService (Some (ws_repository sample_service)) (Some (ws_nonces sample_service)) True sample_chains = Inr s"
    by (simp add: NewWalletService_def)
  have "{ch \<in> set (blk_Chains sample_chains). ch_Enabled ch} = {sample_chain 5, sample_chain 1}"
    by (auto simp: sample_chains_def sample_chain_def)
  then have "ch_ChainID ` {ch \<in> set (blk_Chains sample_chains). ch_Enabled ch} = {1, 5}"
    by (auto simp: sample_chain_def)
  with GetSupportedChains_sorted [OF s] s show ?thesis by (intro exI [of _ s]) simp
qed

end
