(* ===== verification/Auth_Common.thy ===== *)
theory Auth_Common
  imports Go_Monad Wallet_Service
begin

text \<open>
  What the authentication interceptors of the services share. From the generated code and from
  libraries: the \<open>AuthRule\<close> of \<open>proto/common/v1/security.proto\<close>, gRPC metadata (whose keys are in
  lower case), the protobuf registry that holds the rule of a method, and the OIDC verifier, which
  returns a token whose claims may fail to decode. A server context has the incoming metadata and
  the identity that an interceptor stored; the state is the cache of rules and the world.
\<close>

section \<open>Library functions\<close>

text \<open>\<open>strings.Fields\<close> (\<open>acc\<close> is the field that has been started) and \<open>strings.Split\<close> at one byte.\<close>

function Fields_from :: "string \<Rightarrow> string \<Rightarrow> string list" where
  "Fields_from acc s =
    (case s of
       [] \<Rightarrow> (if acc = [] then [] else [acc])
     | a # t \<Rightarrow>
         if 0 < space_len s then (if acc = [] then [] else [acc]) @ Fields_from [] (drop (space_len s) s)
         else Fields_from (acc @ [a]) t)"
  by pat_completeness auto
termination by (relation "measure (\<lambda>(acc, s). length s)") auto

declare Fields_from.simps [simp del]

definition Fields :: "string \<Rightarrow> string list" where
  "Fields s = Fields_from [] s"

primrec Split :: "char \<Rightarrow> string \<Rightarrow> string list" where
  "Split c [] = [[]]"
| "Split c (a # s) = (if a = c then [] # Split c s else (case Split c s of [] \<Rightarrow> [[a]] | p # ps \<Rightarrow> (a # p) # ps))"

section \<open>Rules, claims and contexts\<close>

record AuthRule =
  ar_Public :: bool
  ar_Roles :: "string list"

record accessTokenClaims =
  tc_SessionID :: string
  tc_PreferredUsername :: string
  tc_Email :: string
  tc_Roles :: "string list"
  tc_Subject :: string
  tc_ID :: string

text \<open>A descriptor: not a method, a method without options, without or with the \<open>auth\<close> extension, which
  may be a nil rule.\<close>

datatype descriptor = OtherDescriptor | NoMethodOptions | NoAuthOption | AuthOption "AuthRule option"

record 'w auth_env =
  ae_registry :: "string \<Rightarrow> go_error + descriptor"
  ae_verify :: "string \<Rightarrow> 'w \<Rightarrow> (go_error + (go_error + accessTokenClaims)) \<times> 'w"

type_synonym metadata = "(string \<times> string list) list"

record 'i server_ctx =
  sc_metadata :: "metadata option"
  sc_identity :: "'i option"

definition md_Get :: "metadata \<Rightarrow> string \<Rightarrow> string list" where
  "md_Get md k = (case map_of md (ToLower k) of None \<Rightarrow> [] | Some vs \<Rightarrow> vs)"

type_synonym rule_cache = "(string \<times> AuthRule) list"
type_synonym 'w auth_state = "rule_cache \<times> 'w"

section \<open>Roles\<close>

text \<open>A role of a rule, a token or the configuration stands for all its spellings.\<close>

definition normal_role :: "string \<Rightarrow> string" where
  "normal_role role = replace_char (CHR ''_'') (CHR ''-'') (TrimSpace role)"

lemma space_len_replace: "space_len (replace_char (CHR ''_'') (CHR ''-'') s) = space_len s"
proof -
  define r where "r = (\<lambda>c. if c = CHR ''_'' then CHR ''-'' else c)"
  have n: "r c = x \<longleftrightarrow> c = x" if "x \<noteq> CHR ''_''" "x \<noteq> CHR ''-''" for c x
    using that by (auto simp: r_def)
  show ?thesis unfolding replace_char_def r_def [symmetric]
    by (cases s; cases "tl s"; cases "tl (tl s)") (simp_all add: n)
qed

lemma ends_in_space_replace: "ends_in_space (replace_char (CHR ''_'') (CHR ''-'') s) = ends_in_space s"
proof -
  have "drop n (replace_char (CHR ''_'') (CHR ''-'') s) = replace_char (CHR ''_'') (CHR ''-'') (drop n s)" for n
    by (simp add: replace_char_def drop_map)
  moreover have "length (replace_char (CHR ''_'') (CHR ''-'') s) = length s" by (simp add: replace_char_def)
  ultimately show ?thesis by (simp add: ends_in_space_def space_len_replace)
qed

lemma normal_role_idem [simp]: "normal_role (normal_role r) = normal_role r"
proof -
  have "TrimSpace (normal_role r) = normal_role r"
    by (rule TrimSpace_id) (simp_all add: normal_role_def space_len_replace ends_in_space_replace)
  moreover have "replace_char (CHR ''_'') (CHR ''-'') (normal_role r) = normal_role r"
    by (simp add: normal_role_def replace_char_def)
  ultimately show ?thesis by (simp add: normal_role_def)
qed

text \<open>The specification of the role of a caller: the first of the priorities that the token holds.\<close>

definition best_role :: "string list \<Rightarrow> string list \<Rightarrow> string option" where
  "best_role tokenRoles priority = find (\<lambda>r. normal_role r \<in> normal_role ` set tokenRoles) priority"

section \<open>The gate\<close>

text \<open>
  The shape of every \<open>authenticate\<close>: open methods, the rule of the method, the bearer token, its claims,
  and the decision on them. \<open>passes\<close> is who gets through, given the rule and the claims that the
  verifier finds.
\<close>

definition gate :: "bool \<Rightarrow> ('st, AuthRule) go \<Rightarrow> go_error + string \<Rightarrow> (string \<Rightarrow> ('st, accessTokenClaims) go)
    \<Rightarrow> (accessTokenClaims \<Rightarrow> AuthRule \<Rightarrow> go_error + 'i) \<Rightarrow> 'i server_ctx \<Rightarrow> ('st, 'i server_ctx) go" where
  "gate opened rule bearer validate decide ctx =
    (if opened then go_return ctx
     else
       go_bind rule (\<lambda>rule.
         if ar_Public rule then go_return ctx
         else
           go_bind (go_lift bearer) (\<lambda>token.
           go_bind (validate token) (\<lambda>claims.
             case decide claims rule of Inl err \<Rightarrow> go_fail err | Inr i \<Rightarrow> go_return (ctx\<lparr>sc_identity := Some i\<rparr>)))))"

definition passes :: "bool \<Rightarrow> go_error + AuthRule \<Rightarrow> go_error + string \<Rightarrow> (string \<Rightarrow> go_error + accessTokenClaims)
    \<Rightarrow> (accessTokenClaims \<Rightarrow> AuthRule \<Rightarrow> go_error + 'i) \<Rightarrow> 'i server_ctx \<Rightarrow> 'i server_ctx \<Rightarrow> bool" where
  "passes opened rule bearer claims_of decide c c' \<longleftrightarrow>
     (if opened then c' = c
      else (\<exists>r. rule = Inr r \<and> (if ar_Public r then c' = c
        else (\<exists>token claims i. bearer = Inr token \<and> claims_of token = Inr claims \<and> decide claims r = Inr i
          \<and> c' = c\<lparr>sc_identity := Some i\<rparr>))))"

lemma gate_passes:
  assumes rule: "\<exists>st1. rule st = Returned (ruleR, st1) \<and> good st1 \<and> (\<forall>token. \<exists>st2. validate token st1 = Returned (claims_of token, st2) \<and> good st2)"
    and good: "good st"
  shows "\<exists>r st'. gate opened rule bearer validate decide c st = Returned (r, st') \<and> good st'
    \<and> (\<forall>c'. r = Inr c' \<longleftrightarrow> passes opened ruleR bearer claims_of decide c c')"
proof (cases opened)
  case True
  with good show ?thesis by (auto simp: gate_def passes_def go_return_def)
next
  case closed: False
  obtain st1 where st1: "rule st = Returned (ruleR, st1)" "good st1"
    and val: "\<And>token. \<exists>st2. validate token st1 = Returned (claims_of token, st2) \<and> good st2" using rule by blast
  show ?thesis
  proof (cases ruleR)
    case (Inl e)
    with closed st1 show ?thesis by (auto simp: gate_def passes_def go_bind_step)
  next
    case rule: (Inr r)
    show ?thesis
    proof (cases "ar_Public r")
      case True
      with closed st1 rule show ?thesis by (auto simp: gate_def passes_def go_bind_step go_return_def)
    next
      case priv: False
      show ?thesis
      proof (cases bearer)
        case (Inl e)
        with closed st1 rule priv show ?thesis by (auto simp: gate_def passes_def go_bind_step go_fail_def)
      next
        case tok: (Inr token)
        obtain st2 where v: "validate token st1 = Returned (claims_of token, st2)" "good st2" using val by blast
        show ?thesis
        proof (cases "claims_of token")
          case (Inl e)
          with closed st1 rule priv tok v show ?thesis by (auto simp: gate_def passes_def go_bind_step)
        next
          case (Inr claims)
          with closed st1 rule priv tok v show ?thesis
            by (cases "decide claims r") (auto simp: gate_def passes_def go_bind_step go_fail_def go_return_def)
        qed
      qed
    qed
  qed
qed

section \<open>The code that the interceptors share\<close>

text \<open>
  The services have the same code for the cache of rules (\<open>LoadOrStore\<close> keeps a rule that another request
  has stored in the meantime), the bearer token and the claims of a token.
\<close>

definition cached_rule :: "(string \<Rightarrow> go_error + AuthRule) \<Rightarrow> string \<Rightarrow> ('w auth_state, AuthRule) go" where
  "cached_rule resolve fullMethod st =
    (case map_of (fst st) fullMethod of
       Some cached \<Rightarrow> Returned (Inr cached, st)
     | None \<Rightarrow>
         (case resolve fullMethod of
            Inl err \<Rightarrow> Returned (Inl err, st)
          | Inr rule \<Rightarrow>
              (case map_of (fst st) fullMethod of
                 Some actual \<Rightarrow> Returned (Inr actual, st)
               | None \<Rightarrow> Returned (Inr rule, ((fullMethod, rule) # fst st, snd st)))))"

definition bearerTokenFromMetadata :: "'i server_ctx \<Rightarrow> go_error + string" where
  "bearerTokenFromMetadata ctx =
    (case sc_metadata ctx of
       None \<Rightarrow> Inl (Unauthorized ''authorization metadata is missing'')
     | Some md \<Rightarrow>
         (case md_Get md ''authorization'' of
            [value] \<Rightarrow>
              (case Fields value of
                 [scheme, token] \<Rightarrow>
                   if \<not> EqualFold scheme ''Bearer'' \<or> token = []
                   then Inl (Unauthorized ''authorization metadata is invalid'') else Inr token
               | _ \<Rightarrow> Inl (Unauthorized ''authorization metadata is invalid''))
          | _ \<Rightarrow> Inl (Unauthorized ''authorization metadata must contain one value'')))"

definition validateJWT :: "'w auth_env \<Rightarrow> string \<Rightarrow> ('w auth_state, accessTokenClaims) go" where
  "validateJWT E rawToken st =
    (case ae_verify E rawToken (snd st) of
       (Inl err, w) \<Rightarrow>
         Returned (Inl (AppErr (Wrap (Some err) CodeUnauthorized ''invalid or expired access token'' 401)), (fst st, w))
     | (Inr token, w) \<Rightarrow>
         (case token of
            Inl err \<Rightarrow>
              Returned (Inl (AppErr (Wrap (Some err) CodeUnauthorized ''invalid access token claims'' 401)), (fst st, w))
          | Inr claims \<Rightarrow>
              if TrimSpace (tc_Subject claims) = [] \<or> TrimSpace (tc_ID claims) = []
              then Returned (Inl (Unauthorized ''access token subject or ID is empty''), (fst st, w))
              else Returned (Inr claims, (fst st, w))))"

text \<open>The cache holds resolved rules only.\<close>

definition rules_ok :: "(string \<Rightarrow> go_error + AuthRule) \<Rightarrow> 'w auth_state \<Rightarrow> bool" where
  "rules_ok resolve st \<longleftrightarrow> (\<forall>m rule. map_of (fst st) m = Some rule \<longrightarrow> resolve m = Inr rule)"

lemma rules_ok_start: "rules_ok resolve ([], w)"
  by (simp add: rules_ok_def)

lemma cached_rule_resolve:
  assumes "rules_ok resolve st"
  shows "\<exists>cache. cached_rule resolve m st = Returned (resolve m, (cache, snd st)) \<and> rules_ok resolve (cache, snd st)"
proof (cases "map_of (fst st) m")
  case (Some rule)
  with assms show ?thesis by (intro exI [of _ "fst st"]) (auto simp: cached_rule_def rules_ok_def)
next
  case None
  with assms show ?thesis by (cases st; cases "resolve m") (auto simp: cached_rule_def rules_ok_def)
qed

lemma cached_rule_returns: "\<exists>r cache w. cached_rule resolve m st = Returned (r, (cache, w))"
  by (cases st) (auto simp: cached_rule_def split: option.split sum.split)

text \<open>The outcome of \<open>validateJWT\<close> in a world.\<close>

definition valid_claims :: "'w auth_env \<Rightarrow> 'w \<Rightarrow> string \<Rightarrow> go_error + accessTokenClaims" where
  "valid_claims E w token = (case validateJWT E token ([], w) of Panicked \<Rightarrow> Inl (PlainErr []) | Returned (r, st) \<Rightarrow> r)"

lemma validateJWT_valid: "\<exists>w'. validateJWT E token (cache, w) = Returned (valid_claims E w token, (cache, w'))"
  by (auto simp: valid_claims_def validateJWT_def split: prod.splits sum.splits)

lemma valid_claims_Inr: "valid_claims E w token = Inr claims \<longleftrightarrow> fst (ae_verify E token w) = Inr (Inr claims)
    \<and> TrimSpace (tc_Subject claims) \<noteq> [] \<and> TrimSpace (tc_ID claims) \<noteq> []"
  by (auto simp: valid_claims_def validateJWT_def split: prod.splits sum.splits)

text \<open>A gate over that code, from any state and from a state with a sound cache.\<close>

lemma gate_returns:
  "\<exists>r st'. gate opened (cached_rule resolve m) (bearerTokenFromMetadata c) (validateJWT E) decide c st = Returned (r, st')"
proof -
  obtain r1 cache1 w1 where "cached_rule resolve m st = Returned (r1, (cache1, w1))" using cached_rule_returns [of resolve m st] by blast
  then have "\<exists>r st'. gate opened (cached_rule resolve m) (bearerTokenFromMetadata c) (validateJWT E) decide c st = Returned (r, st') \<and> True"
    using validateJWT_valid [of E _ cache1 w1]
      gate_passes [of "cached_rule resolve m" st r1 "\<lambda>_. True" "validateJWT E" "valid_claims E w1"] by blast
  then show ?thesis by blast
qed

lemma gate_sound_complete:
  assumes "rules_ok resolve st"
  shows "\<exists>r st'. gate opened (cached_rule resolve m) (bearerTokenFromMetadata c) (validateJWT E) decide c st = Returned (r, st')
    \<and> rules_ok resolve st'
    \<and> (\<forall>c'. r = Inr c' \<longleftrightarrow> passes opened (resolve m) (bearerTokenFromMetadata c) (valid_claims E (snd st)) decide c c')"
proof -
  obtain cache' where rule: "cached_rule resolve m st = Returned (resolve m, (cache', snd st))"
    and ok: "rules_ok resolve (cache', snd st)" using cached_rule_resolve [OF assms] by blast
  have "\<exists>st2. validateJWT E token (cache', snd st) = Returned (valid_claims E (snd st) token, st2) \<and> rules_ok resolve st2" for token
    using validateJWT_valid [of E token cache' "snd st"] ok by (auto simp: rules_ok_def)
  with rule ok show ?thesis by (intro gate_passes assms) blast
qed

section \<open>The interface of an interceptor\<close>

text \<open>
  An authenticator lets exactly the admitted calls through, with the context that the call is admitted
  with, and keeps its state \<open>good\<close>. An interceptor built on it runs a handler for admitted calls only.
\<close>

locale authenticator =
  fixes authenticate :: "string \<Rightarrow> 'c \<Rightarrow> ('st, 'c) go"
    and admits :: "'st \<Rightarrow> string \<Rightarrow> 'c \<Rightarrow> 'c \<Rightarrow> bool"
    and good :: "'st \<Rightarrow> bool"
  assumes returns: "\<exists>r st'. authenticate m c st = Returned (r, st')"
    and keeps_good: "good st \<Longrightarrow> authenticate m c st = Returned (r, st') \<Longrightarrow> good st'"
    and sound: "good st \<Longrightarrow> authenticate m c st = Returned (Inr c', st') \<Longrightarrow> admits st m c c'"
    and complete: "good st \<Longrightarrow> admits st m c c' \<Longrightarrow> \<exists>st'. authenticate m c st = Returned (Inr c', st')"
begin

lemma outcome:
  assumes "good st"
  shows "\<exists>r st'. authenticate m c st = Returned (r, st') \<and> good st' \<and> (\<forall>c'. r = Inr c' \<longleftrightarrow> admits st m c c')"
proof -
  obtain r st' where run: "authenticate m c st = Returned (r, st')" using returns by blast
  have "r = Inr c' \<longleftrightarrow> admits st m c c'" for c'
    using sound [OF assms, of m c c' st'] complete [OF assms, of m c c'] run by auto
  with run keeps_good [OF assms run] show ?thesis by blast
qed

text \<open>The two outcomes of a call: refused without running the handler, or handled in an admitted context.\<close>

lemma intercepted:
  assumes "good st"
  shows "(\<exists>c' st1. admits st m c c' \<and> good st1 \<and> go_bind (authenticate m c) (\<lambda>c'. handler c' req) st = handler c' req st1)
    \<or> (\<exists>e st1. (\<forall>c'. \<not> admits st m c c') \<and> good st1
        \<and> go_bind (authenticate m c) (\<lambda>c'. handler c' req) st = Returned (Inl e, st1))"
proof -
  obtain r st1 where run: "authenticate m c st = Returned (r, st1)" using returns by blast
  have g: "good st1" using keeps_good assms run by blast
  show ?thesis
  proof (cases r)
    case (Inl e)
    have "\<not> admits st m c c'" for c'
    proof
      assume "admits st m c c'"
      from complete [OF assms this] run Inl show False by simp
    qed
    with g run Inl show ?thesis by (auto simp: go_bind_step)
  next
    case (Inr c')
    with sound [OF assms] run have "admits st m c c'" by blast
    with g run Inr show ?thesis by (intro disjI1 exI [of _ c'] exI [of _ st1]) (simp add: go_bind_step)
  qed
qed

end

text \<open>Every interceptor with the shape of the gate and a cache of resolved rules is an authenticator.\<close>

lemma gate_authenticator:
  fixes E :: "'w auth_env" and auth :: "string \<Rightarrow> 'i server_ctx \<Rightarrow> ('w auth_state, 'i server_ctx) go"
  assumes eq: "\<And>m c. auth m c = gate (opened m) (cached_rule resolve m) (bearerTokenFromMetadata c) (validateJWT E) decide c"
    and adm: "\<And>m (st :: 'w auth_state) c c'. P \<Longrightarrow> passes (opened m) (resolve m) (bearerTokenFromMetadata c) (valid_claims E (snd st)) decide c c'
      \<longleftrightarrow> adm st m c c'"
  shows "authenticator auth adm (\<lambda>st. rules_ok resolve st \<and> P)"
proof unfold_locales
  show "\<exists>r st'. auth m c st = Returned (r, st')" for m c and st :: "'w auth_state" unfolding eq by (rule gate_returns)
next
  fix st :: "'w auth_state" and m c
  assume good: "rules_ok resolve st \<and> P"
  obtain r0 st0 where run: "auth m c st = Returned (r0, st0)" "rules_ok resolve st0"
    and pass: "\<And>c'. r0 = Inr c' \<longleftrightarrow> passes (opened m) (resolve m) (bearerTokenFromMetadata c) (valid_claims E (snd st)) decide c c'"
    using gate_sound_complete [OF conjunct1 [OF good], of "opened m" m c E decide] unfolding eq by metis
  have iff: "r0 = Inr c' \<longleftrightarrow> adm st m c c'" for c' using pass adm good by simp
  show "rules_ok resolve st' \<and> P" if "auth m c st = Returned (r, st')" for r st'
    using that run good by simp
  show "adm st m c c'" if "auth m c st = Returned (Inr c', st')" for c' st'
    using that run(1) iff by simp
  show "\<exists>st'. auth m c st = Returned (Inr c', st')" if "adm st m c c'" for c'
    using that run(1) iff by auto
qed

end
