(* ===== verification/Web3_Auth.thy ===== *)
theory Web3_Auth
  imports Auth_Common Web3_Config
begin

text \<open>
  The authentication interceptor of the Web3 service, \<open>web3/internal/middleware/auth.go\<close>. The OIDC
  verifier is a parameter; the interceptor keeps the role priority and the cache of rules.
\<close>

text \<open>Method names without an \<open>auth\<close> option get the empty rule: any identity, no role.\<close>

definition empty_rule :: AuthRule where
  "empty_rule = \<lparr>ar_Public = False, ar_Roles = []\<rparr>"

definition normalizeRole :: "string \<Rightarrow> string" where
  "normalizeRole role = replace_char (CHR ''_'') (CHR ''-'') (TrimSpace role)"

definition NewAuthInterceptor :: "AuthConfig \<Rightarrow> go_error + string list" where
  "NewAuthInterceptor cfg =
    (let access = ac_AccessToken cfg
     in if TrimSpace (at_Algorithm access) \<noteq> ''RS256''
        then Inl (PlainErr (''unsupported JWT algorithm '' @ go_quote (at_Algorithm access)))
        else if TrimSpace (at_Issuer access) = [] \<or> TrimSpace (at_Audience access) = [] \<or> TrimSpace (at_JWKSURL access) = []
        then Inl (PlainErr ''JWT issuer, audience, and JWKS URL are required'')
        else
          let roles = filter (\<lambda>r. r \<noteq> []) (map normalizeRole (at_RolePriority access))
          in if roles = [] then Inl (PlainErr ''JWT role priority is required'') else Inr roles)"

definition grpcMethodDescriptorName :: "string \<Rightarrow> go_error + string" where
  "grpcMethodDescriptorName fullMethod =
    (case Split (CHR ''/'') (trim_prefix fullMethod ''/'') of
       [service, meth] \<Rightarrow>
         if service = [] \<or> meth = []
         then Inl (PlainErr (''invalid gRPC full method name '' @ go_quote fullMethod))
         else Inr (service @ ''.'' @ meth)
     | _ \<Rightarrow> Inl (PlainErr (''invalid gRPC full method name '' @ go_quote fullMethod)))"

definition resolveAuthRule :: "(string \<Rightarrow> go_error + descriptor) \<Rightarrow> string \<Rightarrow> go_error + AuthRule" where
  "resolveAuthRule registry fullMethod =
    (case grpcMethodDescriptorName fullMethod of
       Inl err \<Rightarrow> Inl err
     | Inr descriptorName \<Rightarrow>
         (case registry descriptorName of
            Inl err \<Rightarrow> Inl err
          | Inr OtherDescriptor \<Rightarrow> Inl (PlainErr (''descriptor '' @ go_quote descriptorName @ '' is not a method''))
          | Inr NoMethodOptions \<Rightarrow> Inl (PlainErr (''descriptor '' @ go_quote descriptorName @ '' has no method options''))
          | Inr NoAuthOption \<Rightarrow> Inr empty_rule
          | Inr (AuthOption None) \<Rightarrow>
              Inl (PlainErr (''protobuf method '' @ go_quote descriptorName @ '' has an invalid auth option''))
          | Inr (AuthOption (Some rule)) \<Rightarrow> Inr rule))"

definition authRuleForMethod :: "'w auth_env \<Rightarrow> string \<Rightarrow> ('w auth_state, AuthRule) go" where
  "authRuleForMethod E fullMethod = cached_rule (resolveAuthRule (ae_registry E)) fullMethod"

definition primaryRole :: "string list \<Rightarrow> string list \<Rightarrow> string" where
  "primaryRole tokenRoles priority =
    (let available = map normalizeRole tokenRoles
     in case find_first (\<lambda>role. normalizeRole role \<in> set available) priority of
          Some role \<Rightarrow> normalizeRole role | None \<Rightarrow> [])"

definition roleAllowed :: "string \<Rightarrow> string list \<Rightarrow> bool" where
  "roleAllowed role allowedRoles =
    (if allowedRoles = [] then True
     else list_ex (\<lambda>allowed. normalizeRole role = normalizeRole allowed) allowedRoles)"

definition identity_of :: "accessTokenClaims \<Rightarrow> string \<Rightarrow> Identity" where
  "identity_of claims role =
    \<lparr>id_Subject = tc_Subject claims, id_Username = tc_PreferredUsername claims, id_Email = tc_Email claims,
     id_Role = role, id_SessionID = tc_SessionID claims, id_TokenID = tc_ID claims\<rparr>"

definition authenticate :: "'w auth_env \<Rightarrow> string list \<Rightarrow> string \<Rightarrow> Identity server_ctx \<Rightarrow> ('w auth_state, Identity server_ctx) go" where
  "authenticate E rolePriority fullMethod ctx =
    (if has_prefix fullMethod ''/grpc.health.v1.Health/'' then go_return ctx
     else
       go_bind (authRuleForMethod E fullMethod) (\<lambda>rule.
         if ar_Public rule then go_return ctx
         else
           go_bind (go_lift (bearerTokenFromMetadata ctx)) (\<lambda>rawToken.
           go_bind (validateJWT E rawToken) (\<lambda>claims.
             let role = primaryRole (tc_Roles claims) rolePriority
             in if role = [] then go_fail (Unauthorized ''access token has no application role'')
                else if \<not> roleAllowed role (ar_Roles rule)
                then go_fail (Forbidden ''the current role cannot access this method'')
                else go_return (ctx\<lparr>sc_identity := NewContext (sc_identity ctx) (identity_of claims role)\<rparr>)))))"

definition Unary :: "'w auth_env \<Rightarrow> string list \<Rightarrow> string \<Rightarrow> (Identity server_ctx \<Rightarrow> 'req \<Rightarrow> ('w auth_state, 'resp) go)
    \<Rightarrow> Identity server_ctx \<Rightarrow> 'req \<Rightarrow> ('w auth_state, 'resp) go" where
  "Unary E rolePriority fullMethod handler ctx req =
    go_bind (authenticate E rolePriority fullMethod ctx) (\<lambda>authenticatedCtx. handler authenticatedCtx req)"

text \<open>\<open>Stream\<close> also converts the errors, its own and the handler's.\<close>

definition Stream :: "'w auth_env \<Rightarrow> string list \<Rightarrow> string \<Rightarrow> (Identity server_ctx \<Rightarrow> ('w auth_state, unit) go)
    \<Rightarrow> Identity server_ctx \<Rightarrow> ('w auth_state, unit) go" where
  "Stream E rolePriority fullMethod handler ctx =
    go_try (go_bind (authenticate E rolePriority fullMethod ctx) handler) (\<lambda>res st.
      case ToGRPC (case res of Inl err \<Rightarrow> Some err | Inr u \<Rightarrow> None) of
        Panicked \<Rightarrow> Panicked
      | Returned err \<Rightarrow> Returned (case err of None \<Rightarrow> Inr () | Some e \<Rightarrow> Inl e, st))"

section \<open>Who is admitted\<close>

text \<open>The cache holds rules of the registry only; an interceptor's priorities are not blank.\<close>

abbreviation cache_ok :: "'w auth_env \<Rightarrow> 'w auth_state \<Rightarrow> bool" where
  "cache_ok E \<equiv> rules_ok (resolveAuthRule (ae_registry E))"

definition priority_ok :: "string list \<Rightarrow> bool" where
  "priority_ok roles \<longleftrightarrow> roles \<noteq> [] \<and> (\<forall>r \<in> set roles. normal_role r \<noteq> [])"

text \<open>A caller with these claims may call a method with this rule, as this identity.\<close>

definition entitled :: "string list \<Rightarrow> AuthRule \<Rightarrow> accessTokenClaims \<Rightarrow> Identity \<Rightarrow> bool" where
  "entitled priority rule claims i \<longleftrightarrow>
     TrimSpace (tc_Subject claims) \<noteq> [] \<and> TrimSpace (tc_ID claims) \<noteq> []
   \<and> (\<exists>role. best_role (tc_Roles claims) priority = Some role
        \<and> (ar_Roles rule = [] \<or> normal_role role \<in> normal_role ` set (ar_Roles rule))
        \<and> i = identity_of claims (normal_role role))"

definition admits :: "'w auth_env \<Rightarrow> string list \<Rightarrow> 'w auth_state \<Rightarrow> string \<Rightarrow> Identity server_ctx \<Rightarrow> Identity server_ctx \<Rightarrow> bool" where
  "admits E priority st m c c' \<longleftrightarrow>
     (if has_prefix m ''/grpc.health.v1.Health/'' then c' = c
      else (\<exists>rule. resolveAuthRule (ae_registry E) m = Inr rule
        \<and> (if ar_Public rule then c' = c
           else (\<exists>token claims i. bearerTokenFromMetadata c = Inr token \<and> fst (ae_verify E token (snd st)) = Inr (Inr claims)
             \<and> entitled priority rule claims i \<and> c' = c\<lparr>sc_identity := Some i\<rparr>))))"

lemma normalizeRole_normal: "normalizeRole = normal_role"
  by (simp add: normalizeRole_def [abs_def] normal_role_def [abs_def])

lemma find_first_find: "find_first P xs = find P xs"
  by (induction xs) auto

lemma primaryRole_best:
  assumes "priority_ok priority"
  shows "primaryRole tokens priority = (case best_role tokens priority of None \<Rightarrow> [] | Some r \<Rightarrow> normal_role r)"
    "best_role tokens priority = Some r \<Longrightarrow> normal_role r \<noteq> []"
proof -
  have "primaryRole tokens priority = (case find (\<lambda>r. normal_role r \<in> set (map normal_role tokens)) priority of
      None \<Rightarrow> [] | Some r \<Rightarrow> normal_role r)"
    by (simp add: primaryRole_def normalizeRole_normal find_first_find Let_def split: option.split)
  then show "primaryRole tokens priority = (case best_role tokens priority of None \<Rightarrow> [] | Some r \<Rightarrow> normal_role r)"
    by (simp only: best_role_def set_map)
  show "normal_role r \<noteq> []" if "best_role tokens priority = Some r"
    using that assms unfolding best_role_def priority_ok_def find_Some_iff by (metis nth_mem)
qed

lemma roleAllowed_iff: "roleAllowed r rs \<longleftrightarrow> rs = [] \<or> normal_role r \<in> normal_role ` set rs"
  by (auto simp: roleAllowed_def normalizeRole_normal list_ex_iff)

text \<open>The decision on the claims.\<close>

definition decide :: "string list \<Rightarrow> accessTokenClaims \<Rightarrow> AuthRule \<Rightarrow> go_error + Identity" where
  "decide priority claims rule =
    (let role = primaryRole (tc_Roles claims) priority
     in if role = [] then Inl (Unauthorized ''access token has no application role'')
        else if \<not> roleAllowed role (ar_Roles rule) then Inl (Forbidden ''the current role cannot access this method'')
        else Inr (identity_of claims role))"

lemma authenticate_gate: "authenticate E priority m c = gate (has_prefix m ''/grpc.health.v1.Health/'') (authRuleForMethod E m)
    (bearerTokenFromMetadata c) (validateJWT E) (decide priority) c"
  unfolding authenticate_def gate_def decide_def NewContext_def Let_def
  by (intro if_cong refl arg_cong2 [where f = go_bind] ext) simp_all

lemma admits_passes:
  assumes "priority_ok priority"
  shows "passes (has_prefix m ''/grpc.health.v1.Health/'') (resolveAuthRule (ae_registry E) m) (bearerTokenFromMetadata c)
    (valid_claims E (snd st)) (decide priority) c c' \<longleftrightarrow> admits E priority st m c c'"
proof -
  have eq: "decide priority claims rule = Inr i \<and> valid_claims E (snd st) token = Inr claims \<longleftrightarrow>
      fst (ae_verify E token (snd st)) = Inr (Inr claims) \<and> entitled priority rule claims i" for claims rule i token
    using primaryRole_best(2) [OF assms, of "tc_Roles claims"]
    by (auto simp: decide_def entitled_def valid_claims_Inr primaryRole_best(1) [OF assms] roleAllowed_iff Let_def
        split: option.splits if_splits)
  have "(\<exists>token claims i. bearerTokenFromMetadata c = Inr token \<and> valid_claims E (snd st) token = Inr claims
        \<and> decide priority claims rule = Inr i \<and> c' = c\<lparr>sc_identity := Some i\<rparr>)
    \<longleftrightarrow> (\<exists>token claims i. bearerTokenFromMetadata c = Inr token \<and> fst (ae_verify E token (snd st)) = Inr (Inr claims)
        \<and> entitled priority rule claims i \<and> c' = c\<lparr>sc_identity := Some i\<rparr>)" for rule
    by (intro iff_exI) (use eq in blast)
  then show ?thesis unfolding passes_def admits_def by simp
qed

text \<open>The interceptor is an authenticator of the library's interface, over the states with a sound cache.\<close>

interpretation web3_auth: authenticator "authenticate E priority" "admits E priority"
    "\<lambda>st. cache_ok E st \<and> priority_ok priority" for E :: "'w auth_env" and priority
  using admits_passes by (intro gate_authenticator) (simp_all add: authenticate_gate authRuleForMethod_def)

lemma NewAuthInterceptor_priority: "NewAuthInterceptor cfg = Inr priority \<Longrightarrow> priority_ok priority"
  by (auto simp: NewAuthInterceptor_def Let_def normalizeRole_normal priority_ok_def split: if_splits)

text \<open>C37: The handler of a unary call runs for admitted calls only, and for every admitted call: public methods,
  health checks, and callers whose verified token has a subject and an ID and whose best role the rule of
  the method allows; then the services find that subject as the identity of the call. Every other call is
  refused with an error.\<close>

theorem Unary_admitted_only:
  fixes E :: "'w auth_env" and handler :: "Identity server_ctx \<Rightarrow> 'req \<Rightarrow> ('w auth_state, 'resp) go"
  assumes new: "NewAuthInterceptor cfg = Inr priority" and cache: "cache_ok E st"
  shows "(\<exists>c' st1. admits E priority st m c c' \<and> cache_ok E st1 \<and> Unary E priority m handler c req st = handler c' req st1
      \<and> (c' = c \<or> (\<exists>i. sc_identity c' = Some i \<and> requireIdentity (sc_identity c') = Inr i)))
    \<or> (\<exists>e st1. (\<forall>c'. \<not> admits E priority st m c c') \<and> cache_ok E st1 \<and> Unary E priority m handler c req st = Returned (Inl e, st1))"
proof -
  have id: "c' = c \<or> (\<exists>i. sc_identity c' = Some i \<and> requireIdentity (sc_identity c') = Inr i)" if "admits E priority st m c c'" for c'
  proof (cases "c' = c")
    case False
    with that obtain i rule claims where c': "c' = c\<lparr>sc_identity := Some i\<rparr>" "entitled priority rule claims i"
      by (auto simp: admits_def split: if_splits)
    then have "id_Subject i \<noteq> []" by (auto simp: entitled_def identity_of_def)
    with c'(1) show ?thesis by (auto simp: requireIdentity_Inr)
  qed simp
  have "cache_ok E st \<and> priority_ok priority" using cache NewAuthInterceptor_priority [OF new] by simp
  from web3_auth.intercepted [OF this, of m c handler req] id show ?thesis unfolding Unary_def by blast
qed

definition sample_rule_env :: "unit auth_env" where
  "sample_rule_env =
    \<lparr>ae_registry = (\<lambda>n. if n = ''s.m'' then Inr (AuthOption (Some \<lparr>ar_Public = False, ar_Roles = [''admin'', ''super_admin'']\<rparr>))
       else Inl (PlainErr ''not found'')),
     ae_verify = (\<lambda>t w. (if t = ''tok'' then Inr (Inr \<lparr>tc_SessionID = [], tc_PreferredUsername = [], tc_Email = [],
       tc_Roles = [''super-admin''], tc_Subject = ''u'', tc_ID = ''j''\<rparr>) else Inl (PlainErr ''expired''), w))\<rparr>"

definition sample_auth_config :: AuthConfig where
  "sample_auth_config = \<lparr>ac_AccessToken = \<lparr>at_Issuer = ''i'', at_Audience = ''a'', at_Algorithm = ''RS256'', at_JWKSURL = ''k'',
     at_RolePriority = [''super_admin'', ''user'']\<rparr>\<rparr>"

definition sample_call :: "Identity server_ctx" where
  "sample_call = \<lparr>sc_metadata = Some [(''authorization'', [''bearer tok''])], sc_identity = None\<rparr>"

lemma sample_priority: "NewAuthInterceptor sample_auth_config = Inr [''super-admin'', ''user'']"
proof -
  have "TrimSpace ''RS256'' = ''RS256''" "TrimSpace ''i'' = ''i''" "TrimSpace ''a'' = ''a''" "TrimSpace ''k'' = ''k''"
    "TrimSpace ''super_admin'' = ''super_admin''" "TrimSpace ''user'' = ''user''"
    by (rule TrimSpace_plain; simp add: plain_char_def)+
  then show ?thesis by (simp add: NewAuthInterceptor_def sample_auth_config_def normalizeRole_def replace_char_def)
qed

theorem Unary_admitted_only_witness:
  "\<exists>(c' :: Identity server_ctx) st1. Unary sample_rule_env [''super-admin'', ''user''] ''/s/m'' (\<lambda>c req. go_return (id_Subject (the (sc_identity c)))) sample_call () ([], ())
      = Returned (Inr ''u'', st1) \<and> requireIdentity (sc_identity c') = Inr (the (sc_identity c')) \<and> id_Role (the (sc_identity c')) = ''super-admin''"
proof -
  let ?E = "sample_rule_env" and ?p = "[''super-admin'', ''user'']"
  let ?h = "\<lambda>c (req :: unit). go_return (id_Subject (the (sc_identity c))) :: (unit auth_state, string) go"
  let ?i = "\<lparr>id_Subject = ''u'', id_Username = [], id_Email = [], id_Role = ''super-admin'', id_SessionID = [], id_TokenID = ''j''\<rparr>"
  have t: "TrimSpace ''u'' = ''u''" "TrimSpace ''j'' = ''j''" "TrimSpace ''super-admin'' = ''super-admin''" "TrimSpace ''user'' = ''user''"
    "TrimSpace ''admin'' = ''admin''" "TrimSpace ''super_admin'' = ''super_admin''"
    by (rule TrimSpace_plain; simp add: plain_char_def)+
  have n: "normal_role ''super-admin'' = ''super-admin''" "normal_role ''super_admin'' = ''super-admin''" "normal_role ''user'' = ''user''"
    "normal_role ''admin'' = ''admin''"
    using t by (simp_all add: normal_role_def replace_char_def)
  have tok: "bearerTokenFromMetadata sample_call = Inr ''tok''" by code_simp
  have rule: "resolveAuthRule (ae_registry ?E) ''/s/m'' = Inr \<lparr>ar_Public = False, ar_Roles = [''admin'', ''super_admin'']\<rparr>"
    by code_simp
  have verify: "fst (ae_verify ?E ''tok'' ()) = Inr (Inr \<lparr>tc_SessionID = [], tc_PreferredUsername = [], tc_Email = [],
       tc_Roles = [''super-admin''], tc_Subject = ''u'', tc_ID = ''j''\<rparr>)"
    by (simp add: sample_rule_env_def)
  have adm: "admits ?E ?p ([], ()) ''/s/m'' sample_call c' \<longleftrightarrow> c' = sample_call\<lparr>sc_identity := Some ?i\<rparr>" for c'
    by (simp add: admits_def has_prefix_def rule tok verify entitled_def best_role_def n t identity_of_def)
  from Unary_admitted_only [OF sample_priority rules_ok_start, of ?E "()" "''/s/m''" sample_call ?h "()"]
  obtain c' st1 where c: "c' = sample_call\<lparr>sc_identity := Some ?i\<rparr>"
    and run: "Unary ?E ?p ''/s/m'' ?h sample_call () ([], ()) = ?h c' () st1"
    and i: "c' = sample_call \<or> (\<exists>i. sc_identity c' = Some i \<and> requireIdentity (sc_identity c') = Inr i)"
    unfolding adm by blast
  from c have "c' \<noteq> sample_call" "sc_identity c' = Some ?i" by (simp_all add: sample_call_def)
  with i run show ?thesis by (intro exI [of _ c'] exI [of _ st1]) (simp add: go_return_def)
qed

end
