(* ===== verification/Admin_Auth.thy ===== *)
theory Admin_Auth
  imports Web3_Auth
begin

text \<open>
  The authentication interceptor of the admin service, \<open>admin/internal/middleware/auth.go\<close>, with the identity of
  \<open>admin/internal/auth/context.go\<close>. It keeps the configured spelling of a role, like the user service, and compares the
  roles of a rule with underscores read as hyphens.
\<close>

record AuthInfo =
  ai_AdminID :: string
  ai_Username :: string
  ai_Role :: string
  ai_SessionID :: string
  ai_TokenID :: string

type_synonym admin_ctx = "AuthInfo server_ctx"

definition admin_NewContext :: "admin_ctx \<Rightarrow> AuthInfo \<Rightarrow> admin_ctx" where
  "admin_NewContext ctx authInfo = ctx\<lparr>sc_identity := Some authInfo\<rparr>"

definition admin_FromContext :: "admin_ctx \<Rightarrow> AuthInfo option" where
  "admin_FromContext ctx = sc_identity ctx"

definition admin_NewAuthInterceptor :: "AuthConfig \<Rightarrow> go_error + string list" where
  "admin_NewAuthInterceptor cfg =
    (let access = ac_AccessToken cfg
     in if TrimSpace (at_Algorithm access) \<noteq> ''RS256''
        then Inl (PlainErr (''unsupported JWT algorithm '' @ go_quote (at_Algorithm access)))
        else if TrimSpace (at_Issuer access) = [] \<or> TrimSpace (at_Audience access) = []
        then Inl (PlainErr ''JWT issuer and audience are required'')
        else if TrimSpace (at_JWKSURL access) = [] then Inl (PlainErr ''JWT JWKS URL is required'')
        else
          let roles = map TrimSpace (filter (\<lambda>role. TrimSpace role \<noteq> []) (at_RolePriority access))
          in if roles = [] then Inl (PlainErr ''JWT role priority is required'') else Inr roles)"

definition admin_grpcMethodDescriptorName :: "string \<Rightarrow> go_error + string" where
  "admin_grpcMethodDescriptorName fullMethod =
    (case Split (CHR ''/'') (trim_prefix fullMethod ''/'') of
       [service, meth] \<Rightarrow>
         if service = [] \<or> meth = [] then Inl (PlainErr (''invalid gRPC full method name '' @ go_quote fullMethod))
         else Inr (service @ ''.'' @ meth)
     | _ \<Rightarrow> Inl (PlainErr (''invalid gRPC full method name '' @ go_quote fullMethod)))"

definition admin_resolveAuthRule :: "(string \<Rightarrow> go_error + descriptor) \<Rightarrow> string \<Rightarrow> go_error + AuthRule" where
  "admin_resolveAuthRule registry fullMethod =
    (case admin_grpcMethodDescriptorName fullMethod of
       Inl err \<Rightarrow> Inl err
     | Inr descriptorName \<Rightarrow>
         (case registry descriptorName of
            Inl err \<Rightarrow> Inl err
          | Inr OtherDescriptor \<Rightarrow> Inl (PlainErr (''descriptor '' @ go_quote descriptorName @ '' is not a method''))
          | Inr NoMethodOptions \<Rightarrow> Inl (PlainErr (''descriptor '' @ go_quote descriptorName @ '' has no options''))
          | Inr NoAuthOption \<Rightarrow> Inr empty_rule
          | Inr (AuthOption None) \<Rightarrow>
              Inl (PlainErr (''protobuf method '' @ go_quote descriptorName @ '' has an invalid auth option''))
          | Inr (AuthOption (Some rule)) \<Rightarrow> Inr rule))"

definition admin_authRuleForMethod :: "'w auth_env \<Rightarrow> string \<Rightarrow> ('w auth_state, AuthRule) go" where
  "admin_authRuleForMethod E fullMethod = cached_rule (admin_resolveAuthRule (ae_registry E)) fullMethod"

definition admin_primaryRole :: "string list \<Rightarrow> string list \<Rightarrow> string" where
  "admin_primaryRole tokenRoles priority =
    (let available = map (\<lambda>role. replace_char (CHR ''_'') (CHR ''-'') (TrimSpace role)) tokenRoles
     in case find_first (\<lambda>role. replace_char (CHR ''_'') (CHR ''-'') (TrimSpace role) \<in> set available) priority of
          Some role \<Rightarrow> role | None \<Rightarrow> [])"

definition admin_roleAllowed :: "string \<Rightarrow> string list \<Rightarrow> bool" where
  "admin_roleAllowed role roles =
    (if length roles = 0 then True
     else
       let normalizedRole = replace_char (CHR ''_'') (CHR ''-'') role
       in list_ex (\<lambda>allowedRole. normalizedRole = replace_char (CHR ''_'') (CHR ''-'') allowedRole) roles)"

definition info_of :: "accessTokenClaims \<Rightarrow> string \<Rightarrow> AuthInfo" where
  "info_of claims role =
    \<lparr>ai_AdminID = tc_Subject claims, ai_Username = tc_PreferredUsername claims, ai_Role = role,
     ai_SessionID = tc_SessionID claims, ai_TokenID = tc_ID claims\<rparr>"

definition admin_authenticate :: "'w auth_env \<Rightarrow> string list \<Rightarrow> string \<Rightarrow> admin_ctx \<Rightarrow> ('w auth_state, admin_ctx) go" where
  "admin_authenticate E rolePriority fullMethod ctx =
    (if fullMethod = ''/grpc.health.v1.Health/Check'' then go_return ctx
     else
       go_bind (admin_authRuleForMethod E fullMethod) (\<lambda>rule.
         if ar_Public rule then go_return ctx
         else
           go_bind (go_lift (bearerTokenFromMetadata ctx)) (\<lambda>rawToken.
           go_bind (validateJWT E rawToken) (\<lambda>claims.
             let role = admin_primaryRole (tc_Roles claims) rolePriority
             in if role = [] then go_fail (Unauthorized ''access token has no application role'')
                else if \<not> admin_roleAllowed role (ar_Roles rule)
                then go_fail (Forbidden ''the current role cannot access this method'')
                else go_return (admin_NewContext ctx (info_of claims role))))))"

definition admin_Unary :: "'w auth_env \<Rightarrow> string list \<Rightarrow> string \<Rightarrow> (admin_ctx \<Rightarrow> 'req \<Rightarrow> ('w auth_state, 'resp) go)
    \<Rightarrow> admin_ctx \<Rightarrow> 'req \<Rightarrow> ('w auth_state, 'resp) go" where
  "admin_Unary E rolePriority fullMethod handler ctx req =
    go_bind (admin_authenticate E rolePriority fullMethod ctx) (\<lambda>authenticatedCtx. handler authenticatedCtx req)"

definition admin_Stream :: "'w auth_env \<Rightarrow> string list \<Rightarrow> string \<Rightarrow> (admin_ctx \<Rightarrow> ('w auth_state, unit) go)
    \<Rightarrow> admin_ctx \<Rightarrow> ('w auth_state, unit) go" where
  "admin_Stream E rolePriority fullMethod handler ctx =
    go_bind (admin_authenticate E rolePriority fullMethod ctx) handler"

section \<open>Who is admitted\<close>

abbreviation admin_cache_ok :: "'w auth_env \<Rightarrow> 'w auth_state \<Rightarrow> bool" where
  "admin_cache_ok E \<equiv> rules_ok (admin_resolveAuthRule (ae_registry E))"

definition admin_priority_ok :: "string list \<Rightarrow> bool" where
  "admin_priority_ok roles \<longleftrightarrow> roles \<noteq> [] \<and> (\<forall>r \<in> set roles. r \<noteq> [] \<and> TrimSpace r = r)"

text \<open>An administrator with these claims may call a method with this rule, as this identity.\<close>

definition hyphenated :: "string \<Rightarrow> string" where
  "hyphenated = replace_char (CHR ''_'') (CHR ''-'')"

definition admin_entitled :: "string list \<Rightarrow> AuthRule \<Rightarrow> accessTokenClaims \<Rightarrow> AuthInfo \<Rightarrow> bool" where
  "admin_entitled priority rule claims i \<longleftrightarrow>
     TrimSpace (tc_Subject claims) \<noteq> [] \<and> TrimSpace (tc_ID claims) \<noteq> []
   \<and> (\<exists>role. best_role (tc_Roles claims) priority = Some role
        \<and> (ar_Roles rule = [] \<or> hyphenated role \<in> hyphenated ` set (ar_Roles rule)) \<and> i = info_of claims role)"

definition admin_admits :: "'w auth_env \<Rightarrow> string list \<Rightarrow> 'w auth_state \<Rightarrow> string \<Rightarrow> admin_ctx \<Rightarrow> admin_ctx \<Rightarrow> bool" where
  "admin_admits E priority st m c c' \<longleftrightarrow>
     (if m = ''/grpc.health.v1.Health/Check'' then c' = c
      else (\<exists>rule. admin_resolveAuthRule (ae_registry E) m = Inr rule
        \<and> (if ar_Public rule then c' = c
           else (\<exists>token claims i. bearerTokenFromMetadata c = Inr token \<and> fst (ae_verify E token (snd st)) = Inr (Inr claims)
             \<and> admin_entitled priority rule claims i \<and> c' = c\<lparr>sc_identity := Some i\<rparr>))))"

definition admin_decide :: "string list \<Rightarrow> accessTokenClaims \<Rightarrow> AuthRule \<Rightarrow> go_error + AuthInfo" where
  "admin_decide priority claims rule =
    (let role = admin_primaryRole (tc_Roles claims) priority
     in if role = [] then Inl (Unauthorized ''access token has no application role'')
        else if \<not> admin_roleAllowed role (ar_Roles rule) then Inl (Forbidden ''the current role cannot access this method'')
        else Inr (info_of claims role))"

lemma admin_primaryRole_best:
  assumes "admin_priority_ok priority"
  shows "admin_primaryRole tokens priority = (case best_role tokens priority of None \<Rightarrow> [] | Some r \<Rightarrow> r)"
    "best_role tokens priority = Some r \<Longrightarrow> r \<noteq> []"
proof -
  have "admin_primaryRole tokens priority = (case find (\<lambda>r. normal_role r \<in> set (map normal_role tokens)) priority of
      None \<Rightarrow> [] | Some r \<Rightarrow> r)"
    by (simp add: admin_primaryRole_def normal_role_def [symmetric] find_first_find Let_def split: option.split)
  then show "admin_primaryRole tokens priority = (case best_role tokens priority of None \<Rightarrow> [] | Some r \<Rightarrow> r)"
    by (simp only: best_role_def set_map)
  show "r \<noteq> []" if "best_role tokens priority = Some r"
    using that assms unfolding best_role_def admin_priority_ok_def find_Some_iff by (metis nth_mem)
qed

lemma admin_roleAllowed_iff: "admin_roleAllowed role roles \<longleftrightarrow> roles = [] \<or> hyphenated role \<in> hyphenated ` set roles"
  by (auto simp: admin_roleAllowed_def hyphenated_def list_ex_iff)

lemma admin_authenticate_gate: "admin_authenticate E priority m c = gate (m = ''/grpc.health.v1.Health/Check'')
    (cached_rule (admin_resolveAuthRule (ae_registry E)) m) (bearerTokenFromMetadata c) (validateJWT E) (admin_decide priority) c"
  unfolding admin_authenticate_def gate_def admin_decide_def Let_def admin_authRuleForMethod_def admin_NewContext_def
  by (intro if_cong refl arg_cong2 [where f = go_bind] ext) simp_all

lemma admin_admits_passes:
  assumes "admin_priority_ok priority"
  shows "passes (m = ''/grpc.health.v1.Health/Check'') (admin_resolveAuthRule (ae_registry E) m) (bearerTokenFromMetadata c)
    (valid_claims E (snd st)) (admin_decide priority) c c' \<longleftrightarrow> admin_admits E priority st m c c'"
proof -
  have eq: "admin_decide priority claims rule = Inr i \<and> valid_claims E (snd st) token = Inr claims \<longleftrightarrow>
      fst (ae_verify E token (snd st)) = Inr (Inr claims) \<and> admin_entitled priority rule claims i" for claims rule i token
    using admin_primaryRole_best(2) [OF assms, of "tc_Roles claims"]
    by (auto simp: admin_decide_def admin_entitled_def valid_claims_Inr admin_primaryRole_best(1) [OF assms] admin_roleAllowed_iff
        Let_def split: option.splits if_splits)
  have "(\<exists>token claims i. bearerTokenFromMetadata c = Inr token \<and> valid_claims E (snd st) token = Inr claims
        \<and> admin_decide priority claims rule = Inr i \<and> c' = c\<lparr>sc_identity := Some i\<rparr>)
    \<longleftrightarrow> (\<exists>token claims i. bearerTokenFromMetadata c = Inr token \<and> fst (ae_verify E token (snd st)) = Inr (Inr claims)
        \<and> admin_entitled priority rule claims i \<and> c' = c\<lparr>sc_identity := Some i\<rparr>)" for rule
    by (intro iff_exI) (use eq in blast)
  then show ?thesis unfolding passes_def admin_admits_def by simp
qed

interpretation admin_auth: authenticator "admin_authenticate E priority" "admin_admits E priority"
    "\<lambda>st. admin_cache_ok E st \<and> admin_priority_ok priority" for E :: "'w auth_env" and priority
  using admin_admits_passes by (intro gate_authenticator) (simp_all add: admin_authenticate_gate)

lemma admin_NewAuthInterceptor_priority: "admin_NewAuthInterceptor cfg = Inr priority \<Longrightarrow> admin_priority_ok priority"
  by (auto simp: admin_NewAuthInterceptor_def Let_def admin_priority_ok_def split: if_splits)

text \<open>The identity of an admitted call of a method that is not public is that of a verified token.\<close>

lemma admin_admits_identity:
  assumes "admin_admits E priority st m c c'" "c' \<noteq> c"
  obtains i where "admin_FromContext c' = Some i" "TrimSpace (ai_AdminID i) \<noteq> []"
  using assms by (fastforce simp: admin_admits_def admin_FromContext_def admin_entitled_def info_of_def split: if_splits)

end
