(* ===== verification/Admin_Redis.thy ===== *)
theory Admin_Redis
  imports Redis_Client Web3_Config
begin

text \<open>
  The Redis client of the admin service, \<open>admin/internal/redis/redis.go\<close>, with the addresses of
  \<open>admin/internal/config/config.go\<close>. It has the operations of the Web3 client without a key prefix, and it returns a literal
  nil after a command that succeeded. The constructors of go-redis are the parameter \<open>redis_library\<close>.
\<close>

section \<open>Construction\<close>

record AdminRedisConfig =
  rdc_Host :: string
  rdc_Port :: int
  rdc_ClusterAddresses :: "string list"
  rdc_Password :: string
  rdc_DB :: int
  rdc_PoolSize :: int
  rdc_MinIdleConns :: int
  rdc_MaxIdleConns :: int
  rdc_ConnMaxIdleTime :: string
  rdc_ConnMaxLifetime :: string
  rdc_DialTimeout :: string
  rdc_ReadTimeout :: string
  rdc_WriteTimeout :: string
  rdc_PoolTimeout :: string
  rdc_HealthRequired :: bool

definition IsClusterMode :: "AdminRedisConfig \<Rightarrow> bool" where
  "IsClusterMode c \<longleftrightarrow> 0 < length (rdc_ClusterAddresses c)"

definition GetRedisAddress :: "AdminRedisConfig \<Rightarrow> string list" where
  "GetRedisAddress c =
    (if 0 < length (rdc_ClusterAddresses c) then rdc_ClusterAddresses c
     else [JoinHostPort (rdc_Host c) (int_to_string (rdc_Port c))])"

text \<open>The common fields of \<open>goredis.Options\<close> and \<open>goredis.ClusterOptions\<close>; only the former have a database.\<close>

record RedisOptions =
  opt_Addrs :: "string list"
  opt_Password :: string
  opt_DB :: int
  opt_PoolSize :: int
  opt_MinIdleConns :: int
  opt_MaxIdleConns :: int
  opt_ConnMaxIdleTime :: int
  opt_ConnMaxLifetime :: int
  opt_DialTimeout :: int
  opt_ReadTimeout :: int
  opt_WriteTimeout :: int
  opt_PoolTimeout :: int

record 'w redis_library =
  rl_NewClient :: "RedisOptions \<Rightarrow> 'w goredis"
  rl_NewClusterClient :: "RedisOptions \<Rightarrow> 'w goredis"

definition adr_parseDuration :: "parse_duration \<Rightarrow> string \<Rightarrow> int \<Rightarrow> int" where
  "adr_parseDuration pd v fallback =
    (if v = [] then fallback
     else (case pd v of Inl _ \<Rightarrow> fallback | Inr duration \<Rightarrow> if duration \<le> 0 then fallback else duration))"

definition positiveOrDefault :: "int \<Rightarrow> int \<Rightarrow> int" where
  "positiveOrDefault v fallback = (if v \<le> 0 then fallback else v)"

definition nonNegative :: "int \<Rightarrow> int" where
  "nonNegative v = (if v < 0 then 0 else v)"

definition newSingleClient :: "parse_duration \<Rightarrow> 'w redis_library \<Rightarrow> AdminRedisConfig \<Rightarrow> 'w goredis go_outcome" where
  "newSingleClient pd L cfg =
    (case GetRedisAddress cfg of
       [] \<Rightarrow> Panicked
     | address # _ \<Rightarrow> Returned (rl_NewClient L
         \<lparr>opt_Addrs = [address], opt_Password = rdc_Password cfg, opt_DB = rdc_DB cfg,
          opt_PoolSize = positiveOrDefault (rdc_PoolSize cfg) 100,
          opt_MinIdleConns = nonNegative (rdc_MinIdleConns cfg), opt_MaxIdleConns = nonNegative (rdc_MaxIdleConns cfg),
          opt_ConnMaxIdleTime = adr_parseDuration pd (rdc_ConnMaxIdleTime cfg) (30 * 60 * 1000000000),
          opt_ConnMaxLifetime = adr_parseDuration pd (rdc_ConnMaxLifetime cfg) (60 * 60 * 1000000000),
          opt_DialTimeout = adr_parseDuration pd (rdc_DialTimeout cfg) (5 * 1000000000),
          opt_ReadTimeout = adr_parseDuration pd (rdc_ReadTimeout cfg) (3 * 1000000000),
          opt_WriteTimeout = adr_parseDuration pd (rdc_WriteTimeout cfg) (3 * 1000000000),
          opt_PoolTimeout = adr_parseDuration pd (rdc_PoolTimeout cfg) (5 * 1000000000)\<rparr>))"

definition newClusterClient :: "parse_duration \<Rightarrow> 'w redis_library \<Rightarrow> AdminRedisConfig \<Rightarrow> 'w goredis go_outcome" where
  "newClusterClient pd L cfg =
    Returned (rl_NewClusterClient L
      \<lparr>opt_Addrs = GetRedisAddress cfg, opt_Password = rdc_Password cfg, opt_DB = 0,
       opt_PoolSize = positiveOrDefault (rdc_PoolSize cfg) 100,
       opt_MinIdleConns = nonNegative (rdc_MinIdleConns cfg), opt_MaxIdleConns = nonNegative (rdc_MaxIdleConns cfg),
       opt_ConnMaxIdleTime = adr_parseDuration pd (rdc_ConnMaxIdleTime cfg) (30 * 60 * 1000000000),
       opt_ConnMaxLifetime = adr_parseDuration pd (rdc_ConnMaxLifetime cfg) (60 * 60 * 1000000000),
       opt_DialTimeout = adr_parseDuration pd (rdc_DialTimeout cfg) (5 * 1000000000),
       opt_ReadTimeout = adr_parseDuration pd (rdc_ReadTimeout cfg) (3 * 1000000000),
       opt_WriteTimeout = adr_parseDuration pd (rdc_WriteTimeout cfg) (3 * 1000000000),
       opt_PoolTimeout = adr_parseDuration pd (rdc_PoolTimeout cfg) (4 * 1000000000)\<rparr>)"

definition NewRedisClient :: "parse_duration \<Rightarrow> 'w redis_library \<Rightarrow> AdminRedisConfig \<Rightarrow> 'w goredis go_outcome" where
  "NewRedisClient pd L cfg = (if IsClusterMode cfg then newClusterClient pd L cfg else newSingleClient pd L cfg)"

section \<open>Operations\<close>

definition adr_Get :: "'w goredis \<Rightarrow> string \<Rightarrow> 'w \<Rightarrow> (go_error + string) \<times> 'w" where
  "adr_Get raw k w =
    (case raw_Get raw k w of
       (Inl err, w) \<Rightarrow> if errors_Is err RedisNil then (Inr [], w)
         else (Inl (fail_with err ''failed to get value from Redis''), w)
     | (Inr v, w) \<Rightarrow> (Inr v, w))"

text \<open>\<open>if err != nil { return apperror.Wrap(...) }; return nil\<close>.\<close>

definition wrapped :: "string \<Rightarrow> go_error option \<times> 'w \<Rightarrow> go_error option \<times> 'w" where
  "wrapped message res = (map_option (\<lambda>err. fail_with err message) (fst res), snd res)"

definition wrapped_sum :: "string \<Rightarrow> (go_error + 'a) \<times> 'w \<Rightarrow> (go_error + 'a) \<times> 'w" where
  "wrapped_sum message res = (map_sum (\<lambda>err. fail_with err message) (\<lambda>v. v) (fst res), snd res)"

definition adr_Set :: "'w goredis \<Rightarrow> string \<Rightarrow> string \<Rightarrow> int \<Rightarrow> 'w \<Rightarrow> go_error option \<times> 'w" where
  "adr_Set raw k v expiration w = wrapped ''failed to set value in Redis'' (raw_Set raw k v expiration w)"

definition adr_SetNx :: "'w goredis \<Rightarrow> string \<Rightarrow> string \<Rightarrow> int \<Rightarrow> 'w \<Rightarrow> (go_error + bool) \<times> 'w" where
  "adr_SetNx raw k v expiration w = wrapped_sum ''failed to set value in Redis'' (raw_SetNX raw k v expiration w)"

definition adr_Delete :: "'w goredis \<Rightarrow> string list \<Rightarrow> 'w \<Rightarrow> go_error option \<times> 'w" where
  "adr_Delete raw ks w =
    (if length ks = 0 then (None, w) else wrapped ''failed to delete value from Redis'' (raw_Del raw ks w))"

definition adr_Exists :: "'w goredis \<Rightarrow> string list \<Rightarrow> 'w \<Rightarrow> (go_error + bool) \<times> 'w" where
  "adr_Exists raw ks w =
    (if length ks = 0 then (Inr False, w)
     else (case raw_Exists raw ks w of
       (Inl err, w) \<Rightarrow> (Inl (fail_with err ''failed to check value in Redis''), w)
     | (Inr n, w) \<Rightarrow> (Inr (0 < n), w)))"

definition adr_Expire :: "'w goredis \<Rightarrow> string \<Rightarrow> int \<Rightarrow> 'w \<Rightarrow> go_error option \<times> 'w" where
  "adr_Expire raw k expiration w =
    (case raw_Expire raw k expiration w of
       (Inl err, w) \<Rightarrow> (Some (fail_with err ''failed to update Redis expiration''), w)
     | (Inr _, w) \<Rightarrow> (None, w))"

definition adr_TTL :: "'w goredis \<Rightarrow> string \<Rightarrow> 'w \<Rightarrow> (go_error + int) \<times> 'w" where
  "adr_TTL raw k w = wrapped_sum ''failed to get Redis expiration'' (raw_TTL raw k w)"

definition adr_Incr :: "'w goredis \<Rightarrow> string \<Rightarrow> 'w \<Rightarrow> (go_error + int) \<times> 'w" where
  "adr_Incr raw k w = wrapped_sum ''failed to increment value in Redis'' (raw_Incr raw k w)"

definition adr_Ping :: "'w goredis \<Rightarrow> 'w \<Rightarrow> go_error option \<times> 'w" where
  "adr_Ping raw w = wrapped ''Redis is unavailable'' (raw_Ping raw w)"

text \<open>The client is a pointer to a record whose \<open>raw\<close> may be nil.\<close>

definition adr_Close :: "'w goredis option option \<Rightarrow> 'w \<Rightarrow> go_error option \<times> 'w" where
  "adr_Close client w =
    (case client of
       Some (Some raw) \<Rightarrow>
         (case raw_Close raw w of
            (Some err, w) \<Rightarrow> (Some (AppErr (Wrap (Some err) CodeInternal ''failed to close Redis client'' 500)), w)
          | (None, w) \<Rightarrow> (None, w))
     | _ \<Rightarrow> (None, w))"

definition adr_Raw :: "'w goredis \<Rightarrow> 'w goredis" where "adr_Raw raw = raw"

definition adr_Eval :: "'w goredis \<Rightarrow> string \<Rightarrow> string list \<Rightarrow> string list \<Rightarrow> 'w \<Rightarrow> (go_error + redis_value) \<times> 'w" where
  "adr_Eval raw script ks args w = wrapped_sum ''failed to execute script in Redis'' (raw_Eval raw script ks args w)"

section \<open>Lemmas\<close>

lemma durations_positive: "0 < fallback \<Longrightarrow> 0 < adr_parseDuration pd v fallback"
  by (simp add: adr_parseDuration_def split: sum.split)

text \<open>Whatever the configuration holds, a client is built, with an address and usable limits.\<close>

lemma NewRedisClient_options:
  obtains make opts where "NewRedisClient pd L cfg = Returned (make opts)"
    "make = (if IsClusterMode cfg then rl_NewClusterClient L else rl_NewClient L)"
    "opt_Addrs opts \<noteq> []" "0 < opt_PoolSize opts" "0 \<le> opt_MinIdleConns opts" "0 \<le> opt_MaxIdleConns opts"
    "0 < opt_ConnMaxIdleTime opts" "0 < opt_ConnMaxLifetime opts"
    "0 < opt_DialTimeout opts" "0 < opt_ReadTimeout opts" "0 < opt_WriteTimeout opts" "0 < opt_PoolTimeout opts"
proof (cases "IsClusterMode cfg")
  case True
  then have addrs: "GetRedisAddress cfg \<noteq> []" by (auto simp: GetRedisAddress_def IsClusterMode_def)
  have "NewRedisClient pd L cfg = newClusterClient pd L cfg" using True by (simp add: NewRedisClient_def)
  from trans [OF this newClusterClient_def] show ?thesis
    by (rule that) (simp_all add: True addrs durations_positive positiveOrDefault_def nonNegative_def)
next
  case False
  then have addrs: "GetRedisAddress cfg = [JoinHostPort (rdc_Host cfg) (int_to_string (rdc_Port cfg))]"
    by (simp add: GetRedisAddress_def IsClusterMode_def)
  have "NewRedisClient pd L cfg = newSingleClient pd L cfg" using False by (simp add: NewRedisClient_def)
  from trans [OF this newSingleClient_def [of pd L cfg, unfolded addrs list.case]] show ?thesis
    by (rule that) (simp_all add: False durations_positive positiveOrDefault_def nonNegative_def)
qed

text \<open>Unlike the client of the Web3 service, a command that succeeded reports no error.\<close>

lemma adr_success:
  "fst (raw_Set raw k v t w) = None \<Longrightarrow> fst (adr_Set raw k v t w) = None"
  "fst (raw_Del raw ks w) = None \<Longrightarrow> fst (adr_Delete raw ks w) = None"
  "fst (raw_Ping raw w) = None \<Longrightarrow> fst (adr_Ping raw w) = None"
  by (simp_all add: adr_Set_def adr_Delete_def adr_Ping_def wrapped_def)

lemma adr_Get_store:
  assumes "goredis_ok raw store" "adr_Get raw k w = (res, w')"
  shows "store w' \<subseteq>\<^sub>m store w" "res = Inr v \<Longrightarrow> v \<noteq> [] \<Longrightarrow> store w k = Some v"
proof -
  obtain r w1 where g: "raw_Get raw k w = (r, w1)" by fastforce
  have "store w1 \<subseteq>\<^sub>m store w \<and> (case r of Inl err \<Rightarrow> errors_Is err RedisNil \<longrightarrow> store w1 k = None | Inr v \<Rightarrow> store w k = Some v)"
    using assms(1) g unfolding goredis_ok_def by blast
  with assms(2) g show "store w' \<subseteq>\<^sub>m store w" "res = Inr v \<Longrightarrow> v \<noteq> [] \<Longrightarrow> store w k = Some v"
    by (auto simp: adr_Get_def split: sum.splits if_splits)
qed

lemma adr_Set_bound:
  assumes "goredis_ok raw store" "adr_Set raw k v t w = (res, w')"
  shows "store w' \<subseteq>\<^sub>m (store w)(k \<mapsto> v) \<or> store w' \<subseteq>\<^sub>m store w"
proof -
  obtain r w1 where g: "raw_Set raw k v t w = (r, w1)" by fastforce
  have "store w1 \<subseteq>\<^sub>m (store w)(k \<mapsto> v) \<or> store w1 \<subseteq>\<^sub>m store w" using assms(1) g unfolding goredis_ok_def by blast
  with assms(2) g show ?thesis by (auto simp: adr_Set_def wrapped_def)
qed

end
