(* ===== verification/Admin_Info.thy ===== *)
theory Admin_Info
  imports Admin_Repo Admin_Auth Admin_Redis
begin

text \<open>
  The administrator reads the own account: \<open>admin/internal/service/get_admin_info.go\<close> and
  \<open>admin/internal/service/admin_profile.go\<close> over the repository and the Redis client. The first request of a Keycloak
  identity binds an existing administrator of the same name. The JSON codec is a parameter; spans, log entries and the
  timeout of the context are left out, so a timeout is an error of the call it interrupts.
\<close>

section \<open>Messages and profiles\<close>

datatype AdminRole = ADMIN_ROLE_UNSPECIFIED | ADMIN_ROLE_SUPER_ADMIN | ADMIN_ROLE_ADMIN

record AdminMessage =
  am_Id :: string
  am_Username :: string
  am_Email :: string
  am_Role :: AdminRole

record GetAdminInfoResponse =
  gai_Success :: bool
  gai_Message :: string
  gai_AdminInfo :: AdminMessage

definition adminProfileKeyPrefix :: string where "adminProfileKeyPrefix = ''admin:profile:''"
definition roleCodeAdmin :: string where "roleCodeAdmin = ''admin''"
definition roleCodeSuperAdmin :: string where "roleCodeSuperAdmin = ''super_admin''"

record cachedAdminProfile =
  cp_ID :: string
  cp_Username :: string
  cp_Email :: string
  cp_Role :: AdminRole
  cp_RoleCode :: string

record profile_codec =
  pc_Marshal :: "cachedAdminProfile \<Rightarrow> go_error + string"
  pc_Unmarshal :: "string \<Rightarrow> go_error + cachedAdminProfile"

definition adminProfileRedisKey :: "string \<Rightarrow> string" where
  "adminProfileRedisKey subject = adminProfileKeyPrefix @ subject"

definition selectLoginRoleValues :: "RoleModel list \<Rightarrow> go_error + string \<times> AdminRole" where
  "selectLoginRoleValues roles =
    (if list_ex (\<lambda>x. ro_Status x = 1 \<and> EqualFold (TrimSpace (ro_Code x)) roleCodeSuperAdmin) roles
     then Inr (roleCodeSuperAdmin, ADMIN_ROLE_SUPER_ADMIN)
     else if list_ex (\<lambda>x. ro_Status x = 1 \<and> EqualFold (TrimSpace (ro_Code x)) roleCodeAdmin) roles
     then Inr (roleCodeAdmin, ADMIN_ROLE_ADMIN)
     else Inl (Forbidden ''admin has no available role''))"

definition stringValue :: "string option \<Rightarrow> string" where
  "stringValue v = (case v of None \<Rightarrow> [] | Some s \<Rightarrow> s)"

definition profileCacheTTL :: "parse_duration \<Rightarrow> string \<Rightarrow> int" where
  "profileCacheTTL pd configured =
    (case pd configured of Inl _ \<Rightarrow> 15 * 60 * 1000000000 | Inr ttl \<Rightarrow> if ttl \<le> 0 then 15 * 60 * 1000000000 else ttl)"

definition getAdminInfoResponse :: "cachedAdminProfile \<Rightarrow> GetAdminInfoResponse" where
  "getAdminInfoResponse profile =
    \<lparr>gai_Success = True, gai_Message = ''get admin information successfully'',
     gai_AdminInfo = \<lparr>am_Id = cp_ID profile, am_Username = cp_Username profile, am_Email = cp_Email profile, am_Role = cp_Role profile\<rparr>\<rparr>"

section \<open>The service\<close>

text \<open>The fields of the service context that the service needs; of the configuration, the lifetime of a cached profile.\<close>

record 'w admin_svc =
  as_Config :: "string option"
  as_DB :: "'w AdminRepository option"
  as_Redis :: "'w goredis option"

record 'w GetAdminInfoService =
  gi_ProfileCacheTTL :: string
  gi_adminModel :: "'w AdminRepository"
  gi_Redis :: "'w goredis"

definition NewGetAdminInfoService :: "'w admin_svc option \<Rightarrow> go_error + 'w GetAdminInfoService" where
  "NewGetAdminInfoService svcCtx =
    (case svcCtx of
       None \<Rightarrow> Inl (InvalidArgument ''service context dependencies are incomplete'')
     | Some c \<Rightarrow>
         (case (as_Config c, as_DB c, as_Redis c) of
            (Some ttl, Some db, Some redis) \<Rightarrow> Inr \<lparr>gi_ProfileCacheTTL = ttl, gi_adminModel = db, gi_Redis = redis\<rparr>
          | _ \<Rightarrow> Inl (InvalidArgument ''service context dependencies are incomplete'')))"

definition deleteProfileCache :: "'w GetAdminInfoService \<Rightarrow> string \<Rightarrow> 'w \<Rightarrow> go_error option \<times> 'w" where
  "deleteProfileCache s key w = adr_Delete (gi_Redis s) [key] w"

text \<open>A hit is \<open>Inr (Some profile)\<close>. An entry that cannot be used is deleted.\<close>

definition profileFromCache :: "profile_codec \<Rightarrow> 'w GetAdminInfoService \<Rightarrow> string \<Rightarrow> 'w
    \<Rightarrow> (go_error + cachedAdminProfile option) \<times> 'w" where
  "profileFromCache J s key w =
    (case adr_Get (gi_Redis s) key w of
       (Inl err, w) \<Rightarrow> (Inl err, w)
     | (Inr v, w) \<Rightarrow>
         if v = [] then (Inr None, w)
         else (case pc_Unmarshal J v of
            Inl err \<Rightarrow> (case deleteProfileCache s key w of (_, w) \<Rightarrow> (Inl err, w))
          | Inr profile \<Rightarrow>
              if cp_ID profile = [] then (case deleteProfileCache s key w of (_, w) \<Rightarrow> (Inr None, w))
              else (Inr (Some profile), w)))"

definition cacheProfile :: "parse_duration \<Rightarrow> profile_codec \<Rightarrow> 'w GetAdminInfoService \<Rightarrow> string \<Rightarrow> cachedAdminProfile \<Rightarrow> 'w
    \<Rightarrow> go_error option \<times> 'w" where
  "cacheProfile pd J s key profile w =
    (case pc_Marshal J profile of
       Inl err \<Rightarrow> (Some err, w)
     | Inr payload \<Rightarrow> adr_Set (gi_Redis s) key payload (profileCacheTTL pd (gi_ProfileCacheTTL s)) w)"

definition sessionActive :: "'w GetAdminInfoService \<Rightarrow> string \<Rightarrow> 'w \<Rightarrow> (go_error + bool) \<times> 'w" where
  "sessionActive s key w = adr_Exists (gi_Redis s) [key] w"

definition gi_findByID :: "'w GetAdminInfoService \<Rightarrow> u64 \<Rightarrow> 'w \<Rightarrow> (go_error + AdminModel) \<times> 'w" where
  "gi_findByID s i w = Admin_FindByID (gi_adminModel s) i w"

definition findAndBindAdmin :: "'w GetAdminInfoService \<Rightarrow> string \<Rightarrow> string \<Rightarrow> 'w \<Rightarrow> (go_error + AdminModel) \<times> 'w" where
  "findAndBindAdmin s subject username w =
    (case FindByKeycloakSubject (gi_adminModel s) subject w of
       (Inr admin, w) \<Rightarrow> (Inr admin, w)
     | (Inl err, w) \<Rightarrow>
         if \<not> errors_Is err ErrRecordNotFound then (Inl err, w)
         else
           (case Admin_FindByUsername (gi_adminModel s) username w of
              (Inl err, w) \<Rightarrow> (Inl err, w)
            | (Inr admin, w) \<Rightarrow>
                if ad_KeycloakSubject admin \<noteq> None
                then (Inl (Forbidden ''admin account is bound to another Keycloak identity''), w)
                else
                  (case BindKeycloakSubject (gi_adminModel s) (ad_ID admin) subject w of
                     (Some err, w) \<Rightarrow>
                       (case FindByKeycloakSubject (gi_adminModel s) subject w of
                          (Inr bound, w) \<Rightarrow> (Inr bound, w)
                        | (Inl _, w) \<Rightarrow> (Inl err, w))
                   | (None, w) \<Rightarrow> (Inr (admin\<lparr>ad_KeycloakSubject := Some subject\<rparr>), w))))"

text \<open>The request message has no fields.\<close>

definition GetAdminInfo :: "parse_duration \<Rightarrow> profile_codec \<Rightarrow> 'w GetAdminInfoService \<Rightarrow> admin_ctx \<Rightarrow> unit option \<Rightarrow> 'w
    \<Rightarrow> (go_error + GetAdminInfoResponse) \<times> 'w" where
  "GetAdminInfo pd J s ctx req w =
    (if req = None then (Inl (InvalidArgument ''request is nil''), w)
     else
       (case admin_FromContext ctx of
          None \<Rightarrow> (Inl (Unauthorized ''authentication information is missing''), w)
        | Some identity \<Rightarrow>
            let subject = TrimSpace (ai_AdminID identity); username = TrimSpace (ai_Username identity)
            in if subject = [] \<or> username = []
               then (Inl (Unauthorized ''Keycloak administrator identity is incomplete''), w)
               else
                 let profileKey = adminProfileRedisKey subject
                 in (case profileFromCache J s profileKey w of
                       (Inr (Some profile), w) \<Rightarrow> (Inr (getAdminInfoResponse profile), w)
                     | (_, w) \<Rightarrow>
                         (case findAndBindAdmin s subject username w of
                            (Inl _, w) \<Rightarrow> (Inl (Unauthorized ''admin account does not exist''), w)
                          | (Inr admin, w) \<Rightarrow>
                              if \<not> IsEnabled admin then (Inl (Forbidden ''admin account is disabled''), w)
                              else (case selectLoginRoleValues (ad_Roles admin) of
                                 Inl err \<Rightarrow> (Inl err, w)
                               | Inr (roleCode, roleValue) \<Rightarrow>
                                   let profile = \<lparr>cp_ID = subject, cp_Username = ad_Username admin, cp_Email = stringValue (ad_Email admin),
                                         cp_Role = roleValue, cp_RoleCode = roleCode\<rparr>
                                   in (case cacheProfile pd J s profileKey profile w of
                                         (_, w) \<Rightarrow> (Inr (getAdminInfoResponse profile), w)))))))"

section \<open>What the service relies on\<close>

text \<open>
  Redis and the database are apart: a command of Redis leaves the administrators as they are, and a query adds no key to
  Redis. \<open>DEL\<close> removes keys. JSON decoding inverts encoding, and no encoding is empty.
\<close>

definition admin_info_world :: "(time \<Rightarrow> u64) \<Rightarrow> ('w \<Rightarrow> AdminModel list) \<Rightarrow> ('w \<Rightarrow> string \<rightharpoonup> string) \<Rightarrow> 'w GetAdminInfoService \<Rightarrow> bool" where
  "admin_info_world ids rows store s \<longleftrightarrow> admin_repo_ok ids rows (gi_adminModel s) \<and> goredis_ok (gi_Redis s) store
     \<and> (\<forall>ks w err w'. raw_Del (gi_Redis s) ks w = (err, w') \<longrightarrow> store w' \<subseteq>\<^sub>m store w)
     \<and> (\<forall>k w. rows (snd (raw_Get (gi_Redis s) k w)) = rows w)
     \<and> (\<forall>ks w. rows (snd (raw_Del (gi_Redis s) ks w)) = rows w)
     \<and> (\<forall>k v t w. rows (snd (raw_Set (gi_Redis s) k v t w)) = rows w)
     \<and> (\<forall>subject w. store (snd (FindByKeycloakSubject (gi_adminModel s) subject w)) \<subseteq>\<^sub>m store w)
     \<and> (\<forall>username w. store (snd (Admin_FindByUsername (gi_adminModel s) username w)) \<subseteq>\<^sub>m store w)
     \<and> (\<forall>i subject w. store (snd (BindKeycloakSubject (gi_adminModel s) i subject w)) \<subseteq>\<^sub>m store w)"

definition profile_codec_ok :: "profile_codec \<Rightarrow> bool" where
  "profile_codec_ok J \<longleftrightarrow> (\<forall>v s. pc_Marshal J v = Inr s \<longrightarrow> s \<noteq> [] \<and> pc_Unmarshal J s = Inr v)"

text \<open>A usable entry of the cache is the profile of the subject in its key, with a role and the code of that role.\<close>

definition own_profile :: "string \<Rightarrow> cachedAdminProfile \<Rightarrow> bool" where
  "own_profile subject p \<longleftrightarrow> cp_ID p = subject
     \<and> (cp_RoleCode p, cp_Role p) \<in> {(roleCodeSuperAdmin, ADMIN_ROLE_SUPER_ADMIN), (roleCodeAdmin, ADMIN_ROLE_ADMIN)}"

definition profile_inv :: "profile_codec \<Rightarrow> (string \<rightharpoonup> string) \<Rightarrow> bool" where
  "profile_inv J kv \<longleftrightarrow> (\<forall>subject payload p. kv (adminProfileRedisKey subject) = Some payload \<longrightarrow> pc_Unmarshal J payload = Inr p
     \<longrightarrow> cp_ID p \<noteq> [] \<longrightarrow> own_profile subject p)"

text \<open>
  The administrator \<open>a\<close> that a request of a subject with a user name was answered for, between two states of the table: the
  row is bound to the subject, and it was before or had no subject and that name.
\<close>

definition bound_admin :: "AdminModel list \<Rightarrow> AdminModel list \<Rightarrow> string \<Rightarrow> string \<Rightarrow> AdminModel \<Rightarrow> bool" where
  "bound_admin xs ys subject username a \<longleftrightarrow>
     (\<exists>x \<in> set xs. \<exists>y \<in> set ys. ad_ID y = ad_ID x \<and> live_admin x \<and> live_admin y
        \<and> (ad_KeycloakSubject x = Some subject \<or> ad_KeycloakSubject x = None \<and> ad_Username x = username)
        \<and> ad_KeycloakSubject y = Some subject
        \<and> ad_Username a = ad_Username y \<and> ad_Email a = ad_Email y \<and> ad_Status a = ad_Status y)"

section \<open>Lemmas\<close>

lemma adminProfileRedisKey_inj [simp]: "adminProfileRedisKey s = adminProfileRedisKey t \<longleftrightarrow> s = t"
  by (simp add: adminProfileRedisKey_def)

lemma profile_inv_mono: "profile_inv J kv \<Longrightarrow> kv' \<subseteq>\<^sub>m kv \<Longrightarrow> profile_inv J kv'"
  unfolding profile_inv_def map_le_def by (metis domI)

lemma profile_inv_update:
  assumes "profile_inv J kv" "profile_codec_ok J" "pc_Marshal J p = Inr payload" "own_profile subject p"
  shows "profile_inv J (kv(adminProfileRedisKey subject \<mapsto> payload))"
  using assms unfolding profile_inv_def profile_codec_ok_def by auto

text \<open>The strongest active role is taken.\<close>

lemma selectLoginRoleValues_own:
  assumes "selectLoginRoleValues roles = Inr (code, role)"
  shows "(code, role) \<in> {(roleCodeSuperAdmin, ADMIN_ROLE_SUPER_ADMIN), (roleCodeAdmin, ADMIN_ROLE_ADMIN)}"
    "\<exists>x \<in> set roles. ro_Status x = 1 \<and> EqualFold (TrimSpace (ro_Code x)) code"
  using assms by (auto simp: selectLoginRoleValues_def list_ex_iff split: if_splits)

lemma selectLoginRoleValues_Inl: "selectLoginRoleValues roles = Inl e \<Longrightarrow> e = Forbidden ''admin has no available role''"
  by (auto simp: selectLoginRoleValues_def split: if_splits)

lemma admin_info_worldD:
  assumes "admin_info_world ids rows store s"
  shows "admin_repo_ok ids rows (gi_adminModel s)" "goredis_ok (gi_Redis s) store"
    "raw_Del (gi_Redis s) ks w = (err, w') \<Longrightarrow> store w' \<subseteq>\<^sub>m store w"
    "rows (snd (raw_Get (gi_Redis s) k w)) = rows w" "rows (snd (raw_Del (gi_Redis s) ks w)) = rows w"
    "rows (snd (raw_Set (gi_Redis s) k v t w)) = rows w"
    "store (snd (FindByKeycloakSubject (gi_adminModel s) subject w)) \<subseteq>\<^sub>m store w"
    "store (snd (Admin_FindByUsername (gi_adminModel s) username w)) \<subseteq>\<^sub>m store w"
    "store (snd (BindKeycloakSubject (gi_adminModel s) i subject w)) \<subseteq>\<^sub>m store w"
  using assms unfolding admin_info_world_def by blast+

lemma deleteProfileCache_frame:
  assumes "admin_info_world ids rows store s" "deleteProfileCache s key w = (e, w')"
  shows "rows w' = rows w" "store w' \<subseteq>\<^sub>m store w"
proof -
  obtain e1 where "raw_Del (gi_Redis s) [key] w = (e1, w')"
    using assms(2) by (cases "raw_Del (gi_Redis s) [key] w") (simp add: deleteProfileCache_def adr_Delete_def wrapped_def)
  with admin_info_worldD(3,5) [OF assms(1), of "[key]" w] show "rows w' = rows w" "store w' \<subseteq>\<^sub>m store w" by auto
qed

lemma adr_Get_rows:
  assumes "admin_info_world ids rows store s" "adr_Get (gi_Redis s) k w = (res, w')"
  shows "rows w' = rows w"
proof -
  obtain r where "raw_Get (gi_Redis s) k w = (r, w')"
    using assms(2) by (cases "raw_Get (gi_Redis s) k w") (auto simp: adr_Get_def split: sum.splits if_splits)
  with admin_info_worldD(4) [OF assms(1), of k w] show ?thesis by simp
qed

lemma profileFromCache_ok:
  assumes world: "admin_info_world ids rows store s" and run: "profileFromCache J s key w = (res, w')"
  shows "rows w' = rows w" "store w' \<subseteq>\<^sub>m store w"
    "res = Inr (Some p) \<Longrightarrow> cp_ID p \<noteq> [] \<and> (\<exists>payload. store w key = Some payload \<and> pc_Unmarshal J payload = Inr p)"
proof -
  obtain got w1 where g: "adr_Get (gi_Redis s) key w = (got, w1)" by fastforce
  note get = adr_Get_rows [OF world g] adr_Get_store [OF admin_info_worldD(2) [OF world] g]
  obtain e w2 where d: "deleteProfileCache s key w1 = (e, w2)" by fastforce
  note del = deleteProfileCache_frame [OF world d]
  have "w' = w1 \<or> w' = w2" using run by (auto simp: profileFromCache_def g d split: sum.splits if_splits)
  with get(1,2) del show "rows w' = rows w" "store w' \<subseteq>\<^sub>m store w" by (auto intro: map_le_trans)
  show "cp_ID p \<noteq> [] \<and> (\<exists>payload. store w key = Some payload \<and> pc_Unmarshal J payload = Inr p)" if "res = Inr (Some p)"
    using run that get(3) by (auto simp: profileFromCache_def g d split: sum.splits if_splits)
qed

lemma cacheProfile_ok:
  assumes world: "admin_info_world ids rows store s" and codec: "profile_codec_ok J"
    and run: "cacheProfile pd J s (adminProfileRedisKey subject) p w = (e, w')"
    and inv: "profile_inv J (store w)" and own: "own_profile subject p"
  shows "rows w' = rows w" "profile_inv J (store w')"
proof -
  have "rows w' = rows w \<and> profile_inv J (store w')"
  proof (cases "pc_Marshal J p")
    case (Inl err)
    with run inv show ?thesis by (simp add: cacheProfile_def)
  next
    case (Inr payload)
    with run have set: "adr_Set (gi_Redis s) (adminProfileRedisKey subject) payload (profileCacheTTL pd (gi_ProfileCacheTTL s)) w = (e, w')"
      by (simp add: cacheProfile_def)
    then have "rows w' = rows w" using admin_info_worldD(6) [OF world] by (auto simp: adr_Set_def wrapped_def)
    moreover have "profile_inv J (store w')"
      using adr_Set_bound [OF admin_info_worldD(2) [OF world] set] profile_inv_mono
        profile_inv_update [OF inv codec Inr own] inv by blast
    ultimately show ?thesis by blast
  qed
  then show "rows w' = rows w" "profile_inv J (store w')" by blast+
qed

text \<open>Binding: on success the row gets the subject, after a failure the table is as it was.\<close>

lemma Bind_rows:
  assumes ok: "admin_repo_ok ids rows r" and run: "BindKeycloakSubject r i subject db = (e, db')"
  shows "e = Some err \<Longrightarrow> rows db' = rows db"
    "e = None \<Longrightarrow> \<exists>t. rows db' = map (\<lambda>x. if ad_ID x = i \<and> ad_KeycloakSubject x = None \<and> live_admin x
        then t_touch (admin_table ids rows) t (x\<lparr>ad_KeycloakSubject := Some (TrimSpace subject)\<rparr>) else x) (rows db)"
proof -
  note G = admin_repo_okD(1) [OF ok]
  define P where "P = (\<lambda>x :: AdminModel. ad_ID x = i \<and> ad_KeycloakSubject x = None \<and> live_admin x)"
  define f where "f = (\<lambda>x :: AdminModel. x\<lparr>ad_KeycloakSubject := Some (TrimSpace subject)\<rparr>)"
  obtain res db1 where u: "g_update (ar_admins r) P f db = (res, db1)" by fastforce
  then have u': "g_update (gorm.truncate (ar_admins r)) P f db = (res, db1)" by simp
  have run': "(e, db') = (if i = 0 \<or> TrimSpace subject = [] then (Some (InvalidArgument ''admin ID and Keycloak subject are required''), db)
      else (case (res, db1) of (Inl err, db) \<Rightarrow> (Some err, db) | (Inr n, db) \<Rightarrow> (if n = 0 then Some not_found else None, db)))"
    using run unfolding BindKeycloakSubject_def Let_def P_def [symmetric] f_def [symmetric] u by simp
  have same: "rows db1 = rows db" if "res = Inl err" for err
    using update_Inl [OF G, of P f db err db1] u' that by simp
  have upd: "\<exists>t. rows db1 = map (\<lambda>x. if P x then t_touch (admin_table ids rows) t (f x) else x) (rows db)
      \<and> n = length (filter P (rows db))" if "res = Inr n" for n
    using update_Inr [OF G u' [unfolded that]] by (metis admin_table_simps(1))
  show "\<exists>t. rows db' = map (\<lambda>x. if ad_ID x = i \<and> ad_KeycloakSubject x = None \<and> live_admin x
      then t_touch (admin_table ids rows) t (x\<lparr>ad_KeycloakSubject := Some (TrimSpace subject)\<rparr>) else x) (rows db)" if "e = None"
    using run' that upd by (auto simp: P_def f_def split: if_splits sum.splits)
  show "rows db' = rows db" if "e = Some err"
  proof (cases "i = 0 \<or> TrimSpace subject = []")
    case False
    then have e: "(e, db') = (case res of Inl err \<Rightarrow> (Some err, db1) | Inr n \<Rightarrow> (if n = 0 then Some not_found else None, db1))"
      using run' by simp
    show ?thesis
    proof (cases res)
      case (Inr n)
      with e that have "n = 0" "db' = db1" by (auto split: if_splits)
      obtain t where t: "rows db1 = map (\<lambda>x. if P x then t_touch (admin_table ids rows) t (f x) else x) (rows db)"
        "n = length (filter P (rows db))" using upd [OF Inr] by blast
      from t(2) \<open>n = 0\<close> have none: "filter P (rows db) = []" by simp
      have "rows db1 = rows db"
        unfolding t(1) using none by (intro map_idI) (auto simp: filter_empty_conv)
      with \<open>db' = db1\<close> show ?thesis by simp
    qed (use e same in simp)
  qed (use run' in auto)
qed

lemma FindBySubject_bound:
  assumes ok: "admin_repo_ok ids rows r" and run: "FindByKeycloakSubject r subject db = (res, db')" and s: "TrimSpace subject = subject"
  shows "rows db' = rows db" "res = Inr a \<Longrightarrow> bound_admin (rows db) (rows db') subject username a"
proof -
  have first: "rows db' = rows db \<and> (\<forall>a. res = Inr a \<longrightarrow> bound_admin (rows db) (rows db) subject username a)"
  proof (cases "subject = []")
    case False
    with run s have f: "first_with_roles r (\<lambda>x. ad_KeycloakSubject x = Some subject) db = (res, db')"
      by (simp add: FindByKeycloakSubject_def)
    show ?thesis
    proof (intro conjI allI impI)
      fix a assume "res = Inr a"
      from first_with_roles_rows(2) [OF ok f this] obtain x rs
        where "x \<in> set (rows db)" "ad_KeycloakSubject x = Some subject" "live_admin x" "a = x\<lparr>ad_Roles := rs\<rparr>" by blast
      then show "bound_admin (rows db) (rows db) subject username a"
        unfolding bound_admin_def by (intro bexI [of _ x]) auto
    qed (rule first_with_roles_rows(1) [OF ok f])
  qed (use run in \<open>auto simp: FindByKeycloakSubject_def\<close>)
  then show "rows db' = rows db" "res = Inr a \<Longrightarrow> bound_admin (rows db) (rows db') subject username a" by simp_all
qed

lemma FindByUsername_row:
  assumes ok: "admin_repo_ok ids rows r" and run: "Admin_FindByUsername r username db = (res, db')" and u: "TrimSpace username = username"
  shows "rows db' = rows db"
    "res = Inr a \<Longrightarrow> \<exists>x rs. x \<in> set (rows db) \<and> ad_Username x = username \<and> live_admin x \<and> a = x\<lparr>ad_Roles := rs\<rparr>"
proof -
  have "rows db' = rows db \<and> (res = Inr a \<longrightarrow> (\<exists>x rs. x \<in> set (rows db) \<and> ad_Username x = username \<and> live_admin x \<and> a = x\<lparr>ad_Roles := rs\<rparr>))"
  proof (cases "username = []")
    case False
    with run u have f: "first_with_roles r (\<lambda>x. ad_Username x = username) db = (res, db')" by (simp add: Admin_FindByUsername_def)
    show ?thesis using first_with_roles_rows [OF ok f] by blast
  qed (use run in \<open>auto simp: Admin_FindByUsername_def\<close>)
  then show "rows db' = rows db"
    "res = Inr a \<Longrightarrow> \<exists>x rs. x \<in> set (rows db) \<and> ad_Username x = username \<and> live_admin x \<and> a = x\<lparr>ad_Roles := rs\<rparr>" by blast+
qed

text \<open>The row that a successful binding changes is the one that was found by its name.\<close>

lemma bound_by_name:
  assumes x: "x \<in> set (rows db)" "ad_Username x = username" "live_admin x" "ad_KeycloakSubject x = None"
    and rows': "rows db' = map (\<lambda>y. if ad_ID y = ad_ID x \<and> ad_KeycloakSubject y = None \<and> live_admin y
        then t_touch (admin_table ids rows) t (y\<lparr>ad_KeycloakSubject := Some subject\<rparr>) else y) (rows db)"
  shows "bound_admin (rows db) (rows db') subject username (x\<lparr>ad_Roles := rs, ad_KeycloakSubject := Some subject\<rparr>)"
proof -
  let ?y = "t_touch (admin_table ids rows) t (x\<lparr>ad_KeycloakSubject := Some subject\<rparr>)"
  have "?y = (if ad_ID x = ad_ID x \<and> ad_KeycloakSubject x = None \<and> live_admin x
      then t_touch (admin_table ids rows) t (x\<lparr>ad_KeycloakSubject := Some subject\<rparr>) else x)" using x by simp
  then have "?y \<in> set (rows db')" unfolding rows' set_map using x(1) by (rule image_eqI)
  moreover have "ad_ID ?y = ad_ID x" "live_admin ?y" "ad_KeycloakSubject ?y = Some subject" "ad_Username ?y = ad_Username x"
      "ad_Email ?y = ad_Email x" "ad_Status ?y = ad_Status x"
    using x(3) by (simp_all add: admin_table_def live_admin_def)
  ultimately show ?thesis unfolding bound_admin_def using x by (intro bexI [OF _ x(1)] bexI [of _ ?y]) simp_all
qed

text \<open>Finding and binding is a sequence of repository operations; what it finds is bound to the subject.\<close>

lemma findAndBind_ok:
  assumes world: "admin_info_world ids rows store s" and s: "TrimSpace subject = subject" and u: "TrimSpace username = username"
    and run: "findAndBindAdmin s subject username w = (res, w')"
  shows "(admin_step (gi_adminModel s) rows)\<^sup>*\<^sup>* w w' \<and> store w' \<subseteq>\<^sub>m store w
    \<and> (\<forall>a. res = Inr a \<longrightarrow> bound_admin (rows w) (rows w') subject username a)"
proof -
  note ok = admin_info_worldD(1) [OF world]
  obtain f w1 where f: "FindByKeycloakSubject (gi_adminModel s) subject w = (f, w1)" by fastforce
  obtain n w2 where n: "Admin_FindByUsername (gi_adminModel s) username w1 = (n, w2)" by fastforce
  have s1: "store w1 \<subseteq>\<^sub>m store w" using admin_info_worldD(7) [OF world, of subject w] f by simp
  have s2: "store w2 \<subseteq>\<^sub>m store w" using admin_info_worldD(8) [OF world, of username w1] n s1 by (auto intro: map_le_trans)
  note r1 = FindBySubject_bound(1) [OF ok f s] FindBySubject_bound(2) [OF ok f s, where username = username] and r2 = FindByUsername_row [OF ok n u]
  have step1: "(admin_step (gi_adminModel s) rows)\<^sup>*\<^sup>* w w1" by (rule r_into_rtranclp, rule admin_step.find_subject [OF f])
  from admin_step.find_name [OF n] step1 have step2: "(admin_step (gi_adminModel s) rows)\<^sup>*\<^sup>* w w2" by (rule rtranclp.rtrancl_into_rtrancl [rotated])
  show ?thesis
  proof (cases "\<exists>e. f = Inl e \<and> errors_Is e ErrRecordNotFound")
    case False
    with run f have "res = f" "w' = w1" by (auto simp: findAndBindAdmin_def split: sum.splits)
    with s1 step1 r1 show ?thesis by blast
  next
    case True
    show ?thesis
    proof (cases "\<exists>a. n = Inr a \<and> ad_KeycloakSubject a = None")
      case False
      with True run f n have "w' = w2" "\<And>a. res \<noteq> Inr a" by (auto simp: findAndBindAdmin_def split: sum.splits if_splits)
      with s2 step2 show ?thesis by blast
    next
      case name: True
      then obtain a where a: "n = Inr a" "ad_KeycloakSubject a = None" by blast
      obtain x rs where x: "x \<in> set (rows w1)" "ad_Username x = username" "live_admin x" "a = x\<lparr>ad_Roles := rs\<rparr>"
        using r2(2) [OF a(1)] by blast
      have x': "x \<in> set (rows w2)" "ad_KeycloakSubject x = None" "ad_ID a = ad_ID x" using x(1,4) r2(1) a(2) by simp_all
      have same: "rows w2 = rows w" using r1(1) r2(1) by simp
      obtain b w3 where b: "BindKeycloakSubject (gi_adminModel s) (ad_ID a) subject w2 = (b, w3)" by fastforce
      note r3 = Bind_rows [OF ok b, unfolded s x'(3)]
      have s3: "store w3 \<subseteq>\<^sub>m store w" using admin_info_worldD(9) [OF world, of "ad_ID a" subject w2] b s2 by (auto intro: map_le_trans)
      from admin_step.bind [OF b] step2 have step3: "(admin_step (gi_adminModel s) rows)\<^sup>*\<^sup>* w w3" by (rule rtranclp.rtrancl_into_rtrancl [rotated])
      show ?thesis
      proof (cases b)
        case None
        with True run f n a b have res: "res = Inr (a\<lparr>ad_KeycloakSubject := Some subject\<rparr>)" "w' = w3"
          by (auto simp: findAndBindAdmin_def)
        obtain t where t: "rows w3 = map (\<lambda>y. if ad_ID y = ad_ID x \<and> ad_KeycloakSubject y = None \<and> live_admin y
            then t_touch (admin_table ids rows) t (y\<lparr>ad_KeycloakSubject := Some subject\<rparr>) else y) (rows w2)"
          using r3(2) [OF None] by blast
        from bound_by_name [OF x'(1) x(2,3) x'(2) t] have "bound_admin (rows w2) (rows w3) subject username (a\<lparr>ad_KeycloakSubject := Some subject\<rparr>)"
          using x(4) by simp
        with res s3 step3 same show ?thesis by simp
      next
        case (Some err)
        obtain g w4 where g: "FindByKeycloakSubject (gi_adminModel s) subject w3 = (g, w4)" by fastforce
        have s4: "store w4 \<subseteq>\<^sub>m store w" using admin_info_worldD(7) [OF world, of subject w3] g s3 by (auto intro: map_le_trans)
        from admin_step.find_subject [OF g] step3 have step4: "(admin_step (gi_adminModel s) rows)\<^sup>*\<^sup>* w w4" by (rule rtranclp.rtrancl_into_rtrancl [rotated])
        have "w' = w4" "\<And>a. res = Inr a \<Longrightarrow> g = Inr a"
          using True run f n a b g Some by (auto simp: findAndBindAdmin_def split: sum.splits)
        moreover have "rows w3 = rows w" using r3(1) [OF Some] same by simp
        ultimately show ?thesis using s4 step4 FindBySubject_bound(2) [OF ok g s, where username = username] by simp
      qed
    qed
  qed
qed

section \<open>Properties\<close>

text \<open>The request after the checks of the caller, with the result of the cache.\<close>

lemma GetAdminInfo_cases:
  assumes run: "GetAdminInfo pd J s ctx req w = (res, w')"
  obtains (refused) e where "res = Inl e" "w' = w" "e \<in> {InvalidArgument ''request is nil'',
      Unauthorized ''authentication information is missing'', Unauthorized ''Keycloak administrator identity is incomplete''}"
  | (hit) i p where "admin_FromContext ctx = Some i" "TrimSpace (ai_AdminID i) \<noteq> []" "TrimSpace (ai_Username i) \<noteq> []"
      "profileFromCache J s (adminProfileRedisKey (TrimSpace (ai_AdminID i))) w = (Inr (Some p), w')" "res = Inr (getAdminInfoResponse p)"
  | (unknown) i c e w1 where "admin_FromContext ctx = Some i" "TrimSpace (ai_AdminID i) \<noteq> []" "TrimSpace (ai_Username i) \<noteq> []"
      "profileFromCache J s (adminProfileRedisKey (TrimSpace (ai_AdminID i))) w = (c, w1)"
      "findAndBindAdmin s (TrimSpace (ai_AdminID i)) (TrimSpace (ai_Username i)) w1 = (Inl e, w')"
      "res = Inl (Unauthorized ''admin account does not exist'')"
  | (found) i c a w1 w2 where "admin_FromContext ctx = Some i" "TrimSpace (ai_AdminID i) \<noteq> []" "TrimSpace (ai_Username i) \<noteq> []"
      "profileFromCache J s (adminProfileRedisKey (TrimSpace (ai_AdminID i))) w = (c, w1)" "\<And>p. c \<noteq> Inr (Some p)"
      "findAndBindAdmin s (TrimSpace (ai_AdminID i)) (TrimSpace (ai_Username i)) w1 = (Inr a, w2)"
      "(\<not> IsEnabled a \<and> res = Inl (Forbidden ''admin account is disabled'') \<and> w' = w2)
       \<or> (IsEnabled a \<and> (\<exists>e. selectLoginRoleValues (ad_Roles a) = Inl e \<and> res = Inl e \<and> w' = w2))
       \<or> (IsEnabled a \<and> (\<exists>code role p e. selectLoginRoleValues (ad_Roles a) = Inr (code, role) \<and> res = Inr (getAdminInfoResponse p)
            \<and> p = \<lparr>cp_ID = TrimSpace (ai_AdminID i), cp_Username = ad_Username a, cp_Email = stringValue (ad_Email a), cp_Role = role, cp_RoleCode = code\<rparr>
            \<and> cacheProfile pd J s (adminProfileRedisKey (TrimSpace (ai_AdminID i))) p w2 = (e, w')))"
proof (cases "req = None \<or> admin_FromContext ctx = None")
  case True
  with run that(1) show ?thesis by (auto simp: GetAdminInfo_def split: if_splits)
next
  case False
  then obtain i where i: "req \<noteq> None" "admin_FromContext ctx = Some i" by blast
  let ?s = "TrimSpace (ai_AdminID i)" and ?u = "TrimSpace (ai_Username i)"
  obtain c w1 where c: "profileFromCache J s (adminProfileRedisKey ?s) w = (c, w1)" by fastforce
  obtain f w2 where f: "findAndBindAdmin s ?s ?u w1 = (f, w2)" by fastforce
  show ?thesis
  proof (cases "?s = [] \<or> ?u = []")
    case True
    with run i have "res = Inl (Unauthorized ''Keycloak administrator identity is incomplete'')" "w' = w"
      by (auto simp: GetAdminInfo_def Let_def)
    then show ?thesis by (rule that(1)) simp
  next
    case ids: False
    note run' = run [unfolded GetAdminInfo_def Let_def i(2) option.case c]
    show ?thesis
    proof (cases "\<exists>p. c = Inr (Some p)")
      case True
      then obtain p where p: "c = Inr (Some p)" by blast
      with run' ids i have "res = Inr (getAdminInfoResponse p)" "w' = w1" by auto
      with that(2) i ids c p show ?thesis by simp
    next
      case miss: False
      have body: "(case f of Inl _ \<Rightarrow> (Inl (Unauthorized ''admin account does not exist''), w2)
          | Inr admin \<Rightarrow>
              if \<not> IsEnabled admin then (Inl (Forbidden ''admin account is disabled''), w2)
              else (case selectLoginRoleValues (ad_Roles admin) of
                 Inl err \<Rightarrow> (Inl err, w2)
               | Inr (roleCode, roleValue) \<Rightarrow>
                   let profile = \<lparr>cp_ID = ?s, cp_Username = ad_Username admin, cp_Email = stringValue (ad_Email admin),
                         cp_Role = roleValue, cp_RoleCode = roleCode\<rparr>
                   in (case cacheProfile pd J s (adminProfileRedisKey ?s) profile w2 of
                         (_, w) \<Rightarrow> (Inr (getAdminInfoResponse profile), w)))) = (res, w')"
        using run' ids i miss f by (cases c) (auto simp: Let_def split: option.splits sum.splits)
      show ?thesis
      proof (cases f)
        case (Inl e)
        with body that(3) i(2) ids c f show ?thesis by simp
      next
        case (Inr a)
        show ?thesis
        proof (rule that(4) [OF i(2) _ _ c _ f [unfolded Inr]])
          show "(\<not> IsEnabled a \<and> res = Inl (Forbidden ''admin account is disabled'') \<and> w' = w2)
            \<or> (IsEnabled a \<and> (\<exists>e. selectLoginRoleValues (ad_Roles a) = Inl e \<and> res = Inl e \<and> w' = w2))
            \<or> (IsEnabled a \<and> (\<exists>code role p e. selectLoginRoleValues (ad_Roles a) = Inr (code, role) \<and> res = Inr (getAdminInfoResponse p)
                 \<and> p = \<lparr>cp_ID = ?s, cp_Username = ad_Username a, cp_Email = stringValue (ad_Email a), cp_Role = role, cp_RoleCode = code\<rparr>
                 \<and> cacheProfile pd J s (adminProfileRedisKey ?s) p w2 = (e, w')))"
            using body Inr by (auto simp: Let_def split: if_splits sum.splits prod.splits)
        qed (use ids miss in auto)
      qed
    qed
  qed
qed

text \<open>C10: a request of administrator information is answered only for a caller with an identity, with the profile of its own subject
  and a role; unless the cache holds one, the answer shows the enabled administrator that is bound to the subject now and was
  bound to it before, or had no subject and the name of the caller. Failed requests are refused with one of six errors. The
  cache stays coherent, the unique indexes hold, and no administrator loses its subject.\<close>

theorem GetAdminInfo_own:
  assumes world: "admin_info_world ids rows store s" and codec: "profile_codec_ok J" and inv: "profile_inv J (store w)" "admin_inv (rows w)"
    and run: "GetAdminInfo pd J s ctx req w = (res, w')"
  shows "profile_inv J (store w') \<and> admin_inv (rows w') \<and> keeps_admins (rows w) (rows w')
    \<and> (case res of
         Inl e \<Rightarrow> e \<in> {InvalidArgument ''request is nil'', Unauthorized ''authentication information is missing'',
           Unauthorized ''Keycloak administrator identity is incomplete'', Unauthorized ''admin account does not exist'',
           Forbidden ''admin account is disabled'', Forbidden ''admin has no available role''}
       | Inr resp \<Rightarrow> (\<exists>i p. admin_FromContext ctx = Some i \<and> TrimSpace (ai_AdminID i) \<noteq> [] \<and> TrimSpace (ai_Username i) \<noteq> []
           \<and> resp = getAdminInfoResponse p \<and> own_profile (TrimSpace (ai_AdminID i)) p
           \<and> (store w (adminProfileRedisKey (TrimSpace (ai_AdminID i))) = None \<longrightarrow>
                (\<exists>a. bound_admin (rows w) (rows w') (TrimSpace (ai_AdminID i)) (TrimSpace (ai_Username i)) a
                   \<and> IsEnabled a \<and> cp_Username p = ad_Username a \<and> cp_Email p = stringValue (ad_Email a)))))"
  using run
proof (cases rule: GetAdminInfo_cases)
  case (refused e)
  with inv show ?thesis by auto
next
  case (hit i p)
  note c = profileFromCache_ok [OF world hit(4)]
  from c(3) obtain payload where payload: "cp_ID p \<noteq> []" "store w (adminProfileRedisKey (TrimSpace (ai_AdminID i))) = Some payload"
    "pc_Unmarshal J payload = Inr p" by blast
  with inv(1) have "own_profile (TrimSpace (ai_AdminID i)) p" unfolding profile_inv_def by blast
  with hit payload(2) c(1) inv(2) profile_inv_mono [OF inv(1) c(2)] show ?thesis by auto
next
  case (unknown i c e w1)
  note pc = profileFromCache_ok(1,2) [OF world unknown(4)]
  note fb = findAndBind_ok [OF world TrimSpace_idem TrimSpace_idem unknown(5)]
  from fb pc(2) have "profile_inv J (store w')" using profile_inv_mono [OF inv(1)] map_le_trans by blast
  moreover have "admin_inv (rows w') \<and> keeps_admins (rows w) (rows w')"
    using admin_steps_keep [OF admin_info_worldD(1) [OF world] conjunct1 [OF fb]] inv(2) pc(1) by simp
  ultimately show ?thesis using unknown(6) by simp
next
  case (found i c a w1 w2)
  let ?s = "TrimSpace (ai_AdminID i)" and ?u = "TrimSpace (ai_Username i)"
  note pc = profileFromCache_ok(1,2) [OF world found(4)]
  note fb = findAndBind_ok [OF world TrimSpace_idem TrimSpace_idem found(6)]
  from fb pc(2) have store2: "profile_inv J (store w2)" using profile_inv_mono [OF inv(1)] map_le_trans by blast
  have rows2: "admin_inv (rows w2) \<and> keeps_admins (rows w) (rows w2)"
    using admin_steps_keep [OF admin_info_worldD(1) [OF world] conjunct1 [OF fb]] inv(2) pc(1) by simp
  have bound: "bound_admin (rows w) (rows w2) ?s ?u a" using fb pc(1) by simp
  from found(7) show ?thesis
  proof (elim disjE conjE exE)
    fix e assume "selectLoginRoleValues (ad_Roles a) = Inl e" "res = Inl e" "w' = w2"
    with store2 rows2 selectLoginRoleValues_Inl [of "ad_Roles a" e] show ?thesis by simp
  next
    fix code role p e
    assume en: "IsEnabled a" and sel: "selectLoginRoleValues (ad_Roles a) = Inr (code, role)" and res: "res = Inr (getAdminInfoResponse p)"
      and p: "p = \<lparr>cp_ID = ?s, cp_Username = ad_Username a, cp_Email = stringValue (ad_Email a), cp_Role = role, cp_RoleCode = code\<rparr>"
      and set: "cacheProfile pd J s (adminProfileRedisKey ?s) p w2 = (e, w')"
    have own: "own_profile ?s p" using selectLoginRoleValues_own(1) [OF sel] by (simp add: own_profile_def p)
    note cached = cacheProfile_ok [OF world codec set store2 own]
    have "\<exists>a. bound_admin (rows w) (rows w') ?s ?u a \<and> IsEnabled a \<and> cp_Username p = ad_Username a \<and> cp_Email p = stringValue (ad_Email a)"
      using bound en cached(1) by (intro exI [of _ a]) (simp add: p)
    with own res found(1-3) rows2 cached show ?thesis by auto
  qed (use store2 rows2 in simp)
qed

section \<open>Errors\<close>

text \<open>Every error of the lookup is answered alike: also an outage of the database, and a name that is bound to another identity.\<close>

lemma lookup_errors_unauthorized:
  assumes "admin_FromContext ctx = Some i" "TrimSpace (ai_AdminID i) \<noteq> []" "TrimSpace (ai_Username i) \<noteq> []"
    and "profileFromCache J s (adminProfileRedisKey (TrimSpace (ai_AdminID i))) w = (Inr None, w1)"
    and "findAndBindAdmin s (TrimSpace (ai_AdminID i)) (TrimSpace (ai_Username i)) w1 = (Inl e, w2)"
  shows "GetAdminInfo pd J s ctx (Some ()) w = (Inl (Unauthorized ''admin account does not exist''), w2)"
  using assms by (simp add: GetAdminInfo_def Let_def)

lemma bound_elsewhere_unauthorized:
  assumes "admin_FromContext ctx = Some i" "TrimSpace (ai_AdminID i) \<noteq> []" "TrimSpace (ai_Username i) \<noteq> []"
    and "profileFromCache J s (adminProfileRedisKey (TrimSpace (ai_AdminID i))) w = (Inr None, w1)"
    and "FindByKeycloakSubject (gi_adminModel s) (TrimSpace (ai_AdminID i)) w1 = (Inl not_found, w2)"
    and "Admin_FindByUsername (gi_adminModel s) (TrimSpace (ai_Username i)) w2 = (Inr a, w3)" "ad_KeycloakSubject a \<noteq> None"
  shows "findAndBindAdmin s (TrimSpace (ai_AdminID i)) (TrimSpace (ai_Username i)) w1
        = (Inl (Forbidden ''admin account is bound to another Keycloak identity''), w3)
    \<and> GetAdminInfo pd J s ctx (Some ()) w = (Inl (Unauthorized ''admin account does not exist''), w3)"
proof
  show f: "findAndBindAdmin s (TrimSpace (ai_AdminID i)) (TrimSpace (ai_Username i)) w1
      = (Inl (Forbidden ''admin account is bound to another Keycloak identity''), w3)"
    using assms(5-7) by (simp add: findAndBindAdmin_def not_found_def errors_Is_def)
  show "GetAdminInfo pd J s ctx (Some ()) w = (Inl (Unauthorized ''admin account does not exist''), w3)"
    by (rule lookup_errors_unauthorized [OF assms(1-4) f])
qed

section \<open>A concrete world\<close>

text \<open>A Redis server and a table with an administrator that has not logged in yet.\<close>

definition lab_super :: RoleModel where
  "lab_super = \<lparr>ro_ID = 1, ro_Name = ''root'', ro_Code = ''Super_Admin'', ro_Desc = [], ro_Status = 1\<rparr>"

definition lab_info :: "(mem_world \<times> AdminModel list) GetAdminInfoService" where
  "lab_info = \<lparr>gi_ProfileCacheTTL = ''15m'', gi_adminModel = lab_admins snd (\<lambda>rs db. (fst db, rs)) [lab_super],
     gi_Redis = lift_redis mem_redis\<rparr>"

definition lab_profile :: cachedAdminProfile where
  "lab_profile = \<lparr>cp_ID = ''s'', cp_Username = ''a'', cp_Email = [], cp_Role = ADMIN_ROLE_SUPER_ADMIN, cp_RoleCode = roleCodeSuperAdmin\<rparr>"

definition lab_profiles :: profile_codec where
  "lab_profiles = \<lparr>pc_Marshal = (\<lambda>v. if v = lab_profile then Inr ''{}'' else Inl (PlainErr [])),
     pc_Unmarshal = (\<lambda>s. if s = ''{}'' then Inr lab_profile else Inl (PlainErr []))\<rparr>"

definition lab_caller :: admin_ctx where
  "lab_caller = \<lparr>sc_metadata = None, sc_identity = Some \<lparr>ai_AdminID = '' s'', ai_Username = ''a'', ai_Role = ''admin'',
     ai_SessionID = [], ai_TokenID = []\<rparr>\<rparr>"

lemma lab_info_ok: "admin_info_world (\<lambda>_. 7) snd (\<lambda>w. map_of (fst w)) lab_info" "profile_codec_ok lab_profiles"
proof -
  have drop: "map_of (foldr mem_drop ks w) \<subseteq>\<^sub>m map_of w" for ks w
    by (induction ks) (auto simp: map_le_def map_of_drop dom_def)
  have repo: "admin_repo_ok (\<lambda>_. 7) snd (gi_adminModel lab_info)" by (simp add: lab_info_def lab_admins_ok)
  have first: "snd (first_with_roles (gi_adminModel lab_info) P w) = w" for P w
    by (simp add: first_with_roles_def lab_info_def lab_admins_def Let_def list_gorm_up_def list_gorm_def gorm.extend_def gorm_up.fields_def
        split: list.split)
  have "fst (snd (BindKeycloakSubject (gi_adminModel lab_info) i subject w)) = fst w" for i subject w
    by (simp add: BindKeycloakSubject_def lab_info_def lab_admins_def Let_def)
  note bind = this
  have redis: "gi_Redis lab_info = lift_redis mem_redis" by (simp add: lab_info_def)
  have frames: "snd (snd (raw_Get (lift_redis mem_redis) k w)) = snd w" "snd (snd (raw_Del (lift_redis mem_redis) ks w)) = snd w"
      "snd (snd (raw_Set (lift_redis mem_redis) k v t w)) = snd w" "raw_Del (lift_redis mem_redis) ks w = (err, w') \<Longrightarrow> fst w' = foldr mem_drop ks (fst w)"
    for k v t ks w err w'
    by (auto simp: lift_redis_def mem_redis_def on_fst_def split: option.split)
  have del: "map_of (fst w') \<subseteq>\<^sub>m map_of (fst w)" if "raw_Del (lift_redis mem_redis) ks w = (err, w')" for ks w err w'
    unfolding frames(4) [OF that] by (rule drop)
  have finds: "snd (FindByKeycloakSubject (gi_adminModel lab_info) subject w) = w" "snd (Admin_FindByUsername (gi_adminModel lab_info) subject w) = w"
    for subject w by (simp_all add: FindByKeycloakSubject_def Admin_FindByUsername_def Let_def first)
  show "admin_info_world (\<lambda>_. 7) snd (\<lambda>w. map_of (fst w)) lab_info"
    unfolding admin_info_world_def redis finds bind frames(1-3)
    by (intro conjI allI impI repo lift_redis_ok mem_redis_ok) (erule del, simp_all)
  show "profile_codec_ok lab_profiles" by (simp add: profile_codec_ok_def lab_profiles_def)
qed

text \<open>The first request binds the administrator, caches the profile and answers with the role; the next one is a hit.\<close>

theorem GetAdminInfo_own_witness:
  "\<exists>w'. GetAdminInfo (\<lambda>_. Inr 60) lab_profiles lab_info lab_caller (Some ()) ([], [lab_admin 1 None ''a'' 1])
        = (Inr (getAdminInfoResponse lab_profile), w')
     \<and> profile_inv lab_profiles (map_of (fst w')) \<and> admin_inv (snd w') \<and> own_profile ''s'' lab_profile
     \<and> (\<exists>y \<in> set (snd w'). ad_KeycloakSubject y = Some ''s'')
     \<and> fst (GetAdminInfo (\<lambda>_. Inr 60) lab_profiles lab_info lab_caller (Some ()) w') = Inr (getAdminInfoResponse lab_profile)"
proof -
  let ?w = "([], [lab_admin 1 None ''a'' 1]) :: mem_world \<times> AdminModel list"
  obtain w' where w': "w' = snd (GetAdminInfo (\<lambda>_. Inr 60) lab_profiles lab_info lab_caller (Some ()) ?w)" by blast
  have "fst (GetAdminInfo (\<lambda>_. Inr 60) lab_profiles lab_info lab_caller (Some ()) ?w) = Inr (getAdminInfoResponse lab_profile)"
    by code_simp
  then have run: "GetAdminInfo (\<lambda>_. Inr 60) lab_profiles lab_info lab_caller (Some ()) ?w = (Inr (getAdminInfoResponse lab_profile), w')"
    by (simp add: w' prod_eq_iff)
  have inv: "profile_inv lab_profiles (map_of (fst ?w))" "admin_inv (snd ?w)"
    by (simp_all add: profile_inv_def admin_inv_def)
  have caller: "admin_FromContext lab_caller = Some i \<Longrightarrow> TrimSpace (ai_AdminID i) = ''s''" for i
  proof -
    assume "admin_FromContext lab_caller = Some i"
    then have "ai_AdminID i = '' s''" by (auto simp: admin_FromContext_def lab_caller_def)
    moreover have "TrimSpace '' s'' = ''s''" by code_simp
    ultimately show ?thesis by simp
  qed
  from GetAdminInfo_own [OF lab_info_ok inv run] have inv': "profile_inv lab_profiles (map_of (fst w'))" "admin_inv (snd w')"
    and own: "\<exists>i a. admin_FromContext lab_caller = Some i \<and> bound_admin (snd ?w) (snd w') (TrimSpace (ai_AdminID i)) (TrimSpace (ai_Username i)) a"
    by auto
  from own obtain y where "y \<in> set (snd w')" "ad_KeycloakSubject y = Some ''s''" using caller unfolding bound_admin_def by fastforce
  moreover have "own_profile ''s'' lab_profile" by code_simp
  moreover have "fst (GetAdminInfo (\<lambda>_. Inr 60) lab_profiles lab_info lab_caller (Some ()) w') = Inr (getAdminInfoResponse lab_profile)"
    unfolding w' by code_simp
  ultimately show ?thesis using run inv' by blast
qed

end
