(* ===== verification/Runtime_Config.thy ===== *)
theory Runtime_Config
  imports Gorm
begin

text \<open>
  The configuration that the admin service follows while it runs: \<open>admin/internal/config/runtime.go\<close> (parsing and
  validation) and \<open>admin/internal/runtimeconfig\<close> (the snapshot, the store that requests load it from, and the manager
  that watches Consul). The JSON decoder and \<open>time.ParseDuration\<close> are parameters. What the environment does in an
  iteration of the manager's loop (the state of the context, the answer of the watch, whether the timer fires before
  the context is done) is an \<open>iteration\<close>, and a run is a list of them.
\<close>

section \<open>Parsing\<close>

record RateLimitRule =
  rule_Limit :: int
  rule_Window :: string

record RateLimitConfig =
  rlc_Enabled :: bool
  rlc_RedisTimeout :: string
  rlc_KeyPrefix :: string
  rlc_Default :: RateLimitRule

record RuntimeConfig =
  rt_Version :: int
  rt_RateLimit :: "RateLimitConfig option"

text \<open>What the decoder finds behind the first JSON value.\<close>

datatype trailing = At_EOF | Another_value | Trailing_error go_error

record config_codec =
  cd_Decode :: "string \<Rightarrow> go_error + RuntimeConfig"
  cd_Trailing :: "string \<Rightarrow> trailing"
  cd_ParseDuration :: "string \<Rightarrow> go_error + time"

definition positive_duration :: "config_codec \<Rightarrow> string \<Rightarrow> bool" where
  "positive_duration C s = (case cd_ParseDuration C s of Inl err \<Rightarrow> False | Inr d \<Rightarrow> 0 < d)"

definition validateRuntimeRate :: "config_codec \<Rightarrow> string \<Rightarrow> RateLimitRule \<Rightarrow> go_error option" where
  "validateRuntimeRate C name rule =
    (if rule_Limit rule \<le> 0 then Some (PlainErr (''invalid rate limit rule: '' @ name))
     else if \<not> positive_duration C (rule_Window rule)
     then Some (PlainErr (name @ '' window '' @ go_quote (rule_Window rule) @ '' is invalid''))
     else None)"

definition validateRuntimeRateLimit :: "config_codec \<Rightarrow> RateLimitConfig \<Rightarrow> go_error option" where
  "validateRuntimeRateLimit C cfg =
    (if \<not> positive_duration C (rlc_RedisTimeout cfg)
     then Some (PlainErr (''rate_limit.redis_timeout '' @ go_quote (rlc_RedisTimeout cfg) @ '' is invalid''))
     else if TrimSpace (rlc_KeyPrefix cfg) = [] then Some (PlainErr ''rate_limit.key_prefix is empty'')
     else validateRuntimeRate C ''default'' (rlc_Default cfg))"

definition ParseRuntimeConfig :: "config_codec \<Rightarrow> string \<Rightarrow> go_error + RuntimeConfig" where
  "ParseRuntimeConfig C data =
    (if length (TrimSpace data) = 0 then Inl (PlainErr ''runtime config is empty'')
     else
       (case cd_Decode C data of
          Inl err \<Rightarrow> Inl (WrapErr ''decode Admin runtime config:'' err)
        | Inr cfg \<Rightarrow>
            (case cd_Trailing C data of
               Another_value \<Rightarrow> Inl (PlainErr ''runtime config contains multiple JSON values'')
             | Trailing_error err \<Rightarrow> Inl (WrapErr ''decode trailing runtime config data: '' err)
             | At_EOF \<Rightarrow>
                 if rt_Version cfg \<noteq> 1
                 then Inl (PlainErr (''invalid runtime config version: '' @ int_to_string (rt_Version cfg)))
                 else
                   (case rt_RateLimit cfg of
                      None \<Rightarrow> Inl (PlainErr ''rate_limit config is required'')
                    | Some rl \<Rightarrow>
                        (case validateRuntimeRateLimit C rl of
                           Some err \<Rightarrow> Inl (WrapErr ''invalid rate-LIMIT:'' err)
                         | None \<Rightarrow> Inr cfg)))))"

section \<open>The snapshot\<close>

record Rule =
  ru_Limit :: int
  ru_Window :: time

record RateLimitSnapshot =
  rs_Enabled :: bool
  rs_RedisTimeout :: time
  rs_KeyPrefix :: string
  rs_Default :: Rule

record Snapshot =
  sn_Version :: int
  sn_RetLimit :: RateLimitSnapshot

definition buildRule :: "config_codec \<Rightarrow> string \<Rightarrow> RateLimitRule \<Rightarrow> go_error + Rule" where
  "buildRule C name rule =
    (if rule_Limit rule \<le> 0
     then Inl (PlainErr (''invalid rate-limit '' @ name @ '' limit '' @ int_to_string (rule_Limit rule)))
     else
       (case cd_ParseDuration C (rule_Window rule) of
          Inl err \<Rightarrow> Inl (PlainErr (''invalid rate-limit '' @ name @ '' window '' @ go_quote (rule_Window rule)))
        | Inr window \<Rightarrow>
            if window \<le> 0
            then Inl (PlainErr (''invalid rate-limit '' @ name @ '' window '' @ go_quote (rule_Window rule)))
            else Inr \<lparr>ru_Limit = rule_Limit rule, ru_Window = window\<rparr>))"

definition BuildSnapshot :: "config_codec \<Rightarrow> RuntimeConfig option \<Rightarrow> go_error + Snapshot" where
  "BuildSnapshot C config =
    (case config of
       None \<Rightarrow> Inl (PlainErr ''runtime CORS or rate-limit config is nil'')
     | Some config \<Rightarrow>
         (case rt_RateLimit config of
            None \<Rightarrow> Inl (PlainErr ''runtime CORS or rate-limit config is nil'')
          | Some ratelimit \<Rightarrow>
              (case cd_ParseDuration C (rlc_RedisTimeout ratelimit) of
                 Inl err \<Rightarrow> Inl (PlainErr (''invalid rate-limit redis timeout '' @ go_quote (rlc_RedisTimeout ratelimit)))
               | Inr redisTimot \<Rightarrow>
                   if redisTimot \<le> 0
                   then Inl (PlainErr (''invalid rate-limit redis timeout '' @ go_quote (rlc_RedisTimeout ratelimit)))
                   else
                     let keyPrefix = TrimSpace (rlc_KeyPrefix ratelimit)
                     in if keyPrefix = []
                        then Inl (PlainErr (''invalid rate-limit key-prefix '' @ go_quote (rlc_KeyPrefix ratelimit)))
                        else
                          (case buildRule C ''default'' (rlc_Default ratelimit) of
                             Inl err \<Rightarrow> Inl err
                           | Inr defaultRule \<Rightarrow>
                               Inr \<lparr>sn_Version = rt_Version config,
                                 sn_RetLimit = \<lparr>rs_Enabled = rlc_Enabled ratelimit, rs_RedisTimeout = redisTimot,
                                   rs_KeyPrefix = keyPrefix, rs_Default = defaultRule\<rparr>\<rparr>))))"

section \<open>The store\<close>

text \<open>A pointer to a store, and in it the pointer to the current snapshot; either may be nil.\<close>

record Store =
  st_current :: "Snapshot option"

definition NewStore :: "Snapshot option \<Rightarrow> go_error + Store" where
  "NewStore init =
    (case init of None \<Rightarrow> Inl (PlainErr ''init runtime snapshot is nil'') | Some s \<Rightarrow> Inr \<lparr>st_current = Some s\<rparr>)"

definition Store_Load :: "Store option \<Rightarrow> Snapshot option" where
  "Store_Load s = (case s of None \<Rightarrow> None | Some s \<Rightarrow> st_current s)"

definition Store_Store :: "Store option \<Rightarrow> Snapshot option \<Rightarrow> go_error option \<times> Store option" where
  "Store_Store s snapshot =
    (case s of
       None \<Rightarrow> (Some (PlainErr ''store is nil''), s)
     | Some st \<Rightarrow>
         (case snapshot of
            None \<Rightarrow> (Some (PlainErr ''snapshot is nil''), s)
          | Some sn \<Rightarrow> (None, Some (st\<lparr>st_current := Some sn\<rparr>))))"

section \<open>The manager\<close>

text \<open>\<open>NewManager\<close> yields the key that is watched; the flags say which of the dependencies are there.\<close>

definition NewManager :: "string \<Rightarrow> Store option \<Rightarrow> bool \<Rightarrow> go_error + string" where
  "NewManager key store watcher =
    (let key = TrimSpace key
     in if key = [] \<or> \<not> watcher \<or> store = None
        then Inl (PlainErr ''runtime config manager dependencies are incomplete'') else Inr key)"

record iteration =
  it_ctx_done :: bool
  it_answer :: "go_error + string \<times> u64"
  it_done_after :: bool
  it_timer :: bool

record run_state =
  rn_store :: "Store option"
  rn_waitIndex :: u64
  rn_retryDelay :: time
  rn_slept :: "time list"

definition second :: time where
  "second = 1000000000"

definition waitRetry :: "iteration \<Rightarrow> time \<Rightarrow> bool" where
  "waitRetry it delay = it_timer it"

text \<open>One pass of the loop, and whether it returned. \<open>rn_slept\<close> records the waits, latest first.\<close>

definition Run_pass :: "config_codec \<Rightarrow> iteration \<Rightarrow> run_state \<Rightarrow> bool \<times> run_state" where
  "Run_pass C it st =
    (if it_ctx_done it then (True, st)
     else
       (case it_answer it of
          Inl err \<Rightarrow>
            if it_done_after it then (True, st)
            else
              let st = st\<lparr>rn_slept := rn_retryDelay st # rn_slept st\<rparr>
              in if \<not> waitRetry it (rn_retryDelay st) then (True, st)
                 else
                   let retryDelay = go_int (rn_retryDelay st * 2);
                       retryDelay = (if 30 * second < retryDelay then 30 * second else retryDelay)
                   in (False, st\<lparr>rn_retryDelay := retryDelay\<rparr>)
        | Inr (data, modifyIndex) \<Rightarrow>
            if modifyIndex \<le> rn_waitIndex st then (False, st)
            else
              let st = st\<lparr>rn_waitIndex := modifyIndex\<rparr>
              in (case ParseRuntimeConfig C data of
                    Inl err \<Rightarrow> (False, st)
                  | Inr parsed \<Rightarrow>
                      (case BuildSnapshot C (Some parsed) of
                         Inl err \<Rightarrow> (False, st)
                       | Inr snapshot \<Rightarrow>
                           (case Store_Store (rn_store st) (Some snapshot) of
                              (Some err, store) \<Rightarrow> (False, st\<lparr>rn_store := store\<rparr>)
                            | (None, store) \<Rightarrow> (False, st\<lparr>rn_store := store, rn_retryDelay := second\<rparr>))))))"

fun Run_loop :: "config_codec \<Rightarrow> iteration list \<Rightarrow> run_state \<Rightarrow> bool \<times> run_state" where
  "Run_loop C [] st = (False, st)"
| "Run_loop C (it # its) st =
     (case Run_pass C it st of (True, st) \<Rightarrow> (True, st) | (False, st) \<Rightarrow> Run_loop C its st)"

definition Manager_Run :: "config_codec \<Rightarrow> Store option \<Rightarrow> iteration list \<Rightarrow> bool \<times> run_state" where
  "Manager_Run C store its =
    Run_loop C its \<lparr>rn_store = store, rn_waitIndex = 0, rn_retryDelay = second, rn_slept = []\<rparr>"

section \<open>What the manager publishes\<close>

definition valid_rule :: "Rule \<Rightarrow> bool" where
  "valid_rule r \<longleftrightarrow> 0 < ru_Limit r \<and> 0 < ru_Window r"

definition valid_snapshot :: "Snapshot \<Rightarrow> bool" where
  "valid_snapshot s \<longleftrightarrow> valid_rule (rs_Default (sn_RetLimit s)) \<and> 0 < rs_RedisTimeout (sn_RetLimit s)
     \<and> rs_KeyPrefix (sn_RetLimit s) \<noteq> []"

text \<open>The snapshot that a configuration stands for.\<close>

definition snapshot_of :: "config_codec \<Rightarrow> string \<Rightarrow> Snapshot option" where
  "snapshot_of C data =
    (case ParseRuntimeConfig C data of
       Inl _ \<Rightarrow> None
     | Inr cfg \<Rightarrow> (case BuildSnapshot C (Some cfg) of Inl _ \<Rightarrow> None | Inr s \<Rightarrow> Some s))"

lemma BuildSnapshot_valid: "BuildSnapshot C cfg = Inr s \<Longrightarrow> valid_snapshot s"
  by (auto simp: BuildSnapshot_def buildRule_def valid_snapshot_def valid_rule_def Let_def
      split: option.splits sum.splits if_splits)

lemma snapshot_of_valid: "snapshot_of C data = Some s \<Longrightarrow> valid_snapshot s"
  by (auto simp: snapshot_of_def split: sum.splits dest: BuildSnapshot_valid)

text \<open>What passes the validation can be built: the second check of the manager never fails.\<close>

lemma parsed_builds:
  assumes "ParseRuntimeConfig C data = Inr cfg"
  shows "\<exists>s. BuildSnapshot C (Some cfg) = Inr s"
  using assms by (auto simp: ParseRuntimeConfig_def validateRuntimeRateLimit_def validateRuntimeRate_def positive_duration_def
      BuildSnapshot_def buildRule_def Let_def split: option.splits sum.splits if_splits trailing.splits)

text \<open>The answers of a watch that are newer than everything before.\<close>

fun advancing :: "u64 \<Rightarrow> (string \<times> u64) list \<Rightarrow> (string \<times> u64) list" where
  "advancing w [] = []"
| "advancing w ((data, i) # xs) = (if i \<le> w then advancing w xs else (data, i) # advancing i xs)"

definition answers :: "iteration list \<Rightarrow> (string \<times> u64) list" where
  "answers its = List.map_filter (\<lambda>it. case it_answer it of Inl _ \<Rightarrow> None | Inr a \<Rightarrow> Some a) its"

text \<open>A declarative reading of \<open>advancing\<close>: the indices increase strictly, and nothing in between was newer.\<close>

lemma advancing_above: "x \<in> set (advancing w xs) \<Longrightarrow> w < snd x"
proof (induction w xs rule: advancing.induct)
  case (2 w data i xs)
  then show ?case by (cases "i \<le> w") (auto simp: not_le dest: less_trans)
qed simp

lemma advancing_sorted: "sorted_wrt (<) (map snd (advancing w xs))"
  by (induction w xs rule: advancing.induct) (auto dest: advancing_above)

lemma advancing_subset: "set (advancing w xs) \<subseteq> set xs"
  by (induction w xs rule: advancing.induct) auto

lemma advancing_newest: "x \<in> set xs \<Longrightarrow> w < snd x \<Longrightarrow> \<exists>y \<in> set (advancing w xs). snd x \<le> snd y"
proof (induction w xs rule: advancing.induct)
  case (2 w data i xs)
  show ?case
  proof (cases "x \<in> set xs \<and> i < snd x")
    case True
    with 2 show ?thesis by (cases "i \<le> w") auto
  next
    case False
    with 2 show ?thesis by (cases "i \<le> w") (auto simp: not_less not_le)
  qed
qed simp

section \<open>A run of the manager\<close>

definition published :: "config_codec \<Rightarrow> Snapshot \<Rightarrow> u64 \<Rightarrow> iteration list \<Rightarrow> Snapshot" where
  "published C s w its = last (s # List.map_filter (snapshot_of C \<circ> fst) (advancing w (answers its)))"

lemma published_Nil [simp]: "published C s w [] = s"
  by (simp add: published_def answers_def map_filter_simps)

lemma published_failed [simp]: "it_answer it = Inl err \<Longrightarrow> published C s w (it # its) = published C s w its"
  by (simp add: published_def answers_def map_filter_simps)

lemma published_old [simp]: "it_answer it = Inr (data, i) \<Longrightarrow> i \<le> w \<Longrightarrow> published C s w (it # its) = published C s w its"
  by (simp add: published_def answers_def map_filter_simps)

lemma published_new:
  "it_answer it = Inr (data, i) \<Longrightarrow> w < i \<Longrightarrow> published C s w (it # its) =
    published C (case snapshot_of C data of None \<Rightarrow> s | Some s' \<Rightarrow> s') i its"
  by (simp add: published_def answers_def map_filter_simps not_le split: option.split)

definition delays_ok :: "run_state \<Rightarrow> bool" where
  "delays_ok st \<longleftrightarrow> (\<forall>d \<in> insert (rn_retryDelay st) (set (rn_slept st)). second \<le> d \<and> d \<le> 30 * second)"

lemma Run_pass_delays: "delays_ok st \<Longrightarrow> delays_ok (snd (Run_pass C it st))"
proof -
  assume ok: "delays_ok st"
  then have "go_int (rn_retryDelay st * 2) = rn_retryDelay st * 2"
    by (intro go_int_id) (auto simp: delays_ok_def second_def)
  with ok show ?thesis
    by (auto simp: Run_pass_def delays_ok_def second_def Let_def split: sum.split prod.split option.split)
qed

lemma Run_pass_publishes:
  assumes "rn_store st = Some \<lparr>st_current = Some s\<rparr>"
  shows "case Run_pass C it st of
      (True, st') \<Rightarrow> rn_store st' = rn_store st
    | (False, st') \<Rightarrow> \<exists>s'. rn_store st' = Some \<lparr>st_current = Some s'\<rparr>
        \<and> (\<forall>its. published C s (rn_waitIndex st) (it # its) = published C s' (rn_waitIndex st') its)"
proof (cases "it_answer it")
  case (Inl err)
  with assms show ?thesis by (auto simp: Run_pass_def Let_def)
next
  case (Inr a)
  obtain data i where a: "a = (data, i)" by fastforce
  show ?thesis
  proof (cases "it_ctx_done it \<or> i \<le> rn_waitIndex st")
    case True
    with assms Inr a show ?thesis by (auto simp: Run_pass_def)
  next
    case False
    then have new: "rn_waitIndex st < i" by (simp add: not_le)
    show ?thesis
      using assms False Inr a published_new [OF Inr [unfolded a] new]
      by (auto simp: Run_pass_def snapshot_of_def Store_Store_def not_le Let_def split: sum.split)
  qed
qed

lemma Run_loop_publishes:
  assumes "rn_store st = Some \<lparr>st_current = Some s\<rparr>" "Run_loop C its st = (ret, st')"
  shows "\<exists>n \<le> length its. (\<not> ret \<longrightarrow> n = length its)
    \<and> rn_store st' = Some \<lparr>st_current = Some (published C s (rn_waitIndex st) (take n its))\<rparr>"
  using assms
proof (induction its arbitrary: st s)
  case Nil
  then show ?case by simp
next
  case (Cons it its)
  obtain r st1 where pass: "Run_pass C it st = (r, st1)" by fastforce
  note one = Run_pass_publishes [OF Cons.prems(1), of C it, unfolded pass prod.case]
  show ?case
  proof (cases r)
    case True
    with pass one Cons.prems show ?thesis by (intro exI [of _ 0]) auto
  next
    case False
    then obtain s' where s': "rn_store st1 = Some \<lparr>st_current = Some s'\<rparr>"
        "\<And>its. published C s (rn_waitIndex st) (it # its) = published C s' (rn_waitIndex st1) its"
      using one by auto
    have "Run_loop C its st1 = (ret, st')" using Cons.prems(2) pass False by simp
    from Cons.IH [OF s'(1) this] obtain n where "n \<le> length its" "\<not> ret \<longrightarrow> n = length its"
        "rn_store st' = Some \<lparr>st_current = Some (published C s' (rn_waitIndex st1) (take n its))\<rparr>" by blast
    then show ?thesis using s'(2) by (intro exI [of _ "Suc n"]) auto
  qed
qed

lemma Run_loop_delays: "delays_ok st \<Longrightarrow> delays_ok (snd (Run_loop C its st))"
proof (induction its arbitrary: st)
  case (Cons it its)
  obtain r st1 where pass: "Run_pass C it st = (r, st1)" by fastforce
  with Run_pass_delays [OF Cons.prems, of C it] have "delays_ok st1" by simp
  with pass Cons.IH show ?case by (cases r) auto
qed simp

lemma published_valid: "valid_snapshot s \<Longrightarrow> valid_snapshot (published C s w its)"
proof -
  assume s: "valid_snapshot s"
  have "published C s w its \<in> set (s # List.map_filter (snapshot_of C \<circ> fst) (advancing w (answers its)))"
    unfolding published_def by (rule last_in_set) simp
  then show ?thesis using s snapshot_of_valid by (auto simp: map_filter_def)
qed

text \<open>C14: The manager that follows the configuration in Consul never leaves a request without a valid one. Started with a
  valid snapshot, after any behaviour of Consul, the timers and the context, the store holds the last acceptable
  configuration among the answers whose index was larger than all before, and the first snapshot if there was none; it
  waits between one and thirty seconds after an error.\<close>

theorem Manager_publishes_last_valid:
  assumes "NewStore (Some s0) = Inr store" "valid_snapshot s0" "Manager_Run C (Some store) its = (ret, st)"
  shows "(\<exists>n \<le> length its. (\<not> ret \<longrightarrow> n = length its)
      \<and> (\<exists>s. Store_Load (rn_store st) = Some s \<and> valid_snapshot s
          \<and> s = last (s0 # List.map_filter (snapshot_of C \<circ> fst) (advancing 0 (answers (take n its))))))
    \<and> (\<forall>d \<in> set (rn_slept st). second \<le> d \<and> d \<le> 30 * second)"
proof -
  let ?st = "\<lparr>rn_store = Some store, rn_waitIndex = 0, rn_retryDelay = second, rn_slept = []\<rparr>"
  have start: "rn_store ?st = Some \<lparr>st_current = Some s0\<rparr>" using assms(1) by (simp add: NewStore_def)
  have run: "Run_loop C its ?st = (ret, st)" using assms(3) by (simp add: Manager_Run_def)
  have "delays_ok ?st" by (simp add: delays_ok_def second_def)
  then have "delays_ok st" using Run_loop_delays [of ?st C its] run by simp
  moreover obtain n where "n \<le> length its" "\<not> ret \<longrightarrow> n = length its"
      "rn_store st = Some \<lparr>st_current = Some (published C s0 0 (take n its))\<rparr>"
    using Run_loop_publishes [OF start run] by auto
  ultimately show ?thesis using published_valid [OF assms(2), of C 0 "take n its"]
    by (auto simp: delays_ok_def Store_Load_def published_def)
qed

text \<open>A configuration whose index is not larger than the largest one so far is never published, however often Consul
  answers it: after Consul has lost its state and counts from the start again, updates are ignored until the index has
  caught up. \<open>WatchGRPCService\<close> of the same registry resets its index in that case.\<close>

lemma lower_index_ignored:
  assumes "rn_store st = Some \<lparr>st_current = Some s\<rparr>" "Run_loop C its st = (ret, st')"
    and "\<forall>it \<in> set its. \<forall>data i. it_answer it = Inr (data, i) \<longrightarrow> i \<le> rn_waitIndex st"
  shows "Store_Load (rn_store st') = Some s"
proof -
  have "advancing (rn_waitIndex st) (answers (take n its)) = []" for n
  proof -
    have "\<forall>x \<in> set (answers (take n its)). snd x \<le> rn_waitIndex st"
      using assms(3) by (auto simp: answers_def map_filter_def dest: in_set_takeD split: sum.splits)
    moreover have "\<forall>x \<in> set xs. snd x \<le> w \<Longrightarrow> advancing w xs = []" for w :: u64 and xs :: "(string \<times> u64) list"
      by (induction w xs rule: advancing.induct) auto
    ultimately show ?thesis by blast
  qed
  then show ?thesis using Run_loop_publishes [OF assms(1,2)] by (auto simp: published_def Store_Load_def map_filter_simps)
qed

section \<open>A concrete run\<close>

text \<open>A codec that knows one document, and a run with a new version, an error, an old version and a broken one.\<close>

definition demo_codec :: config_codec where
  "demo_codec = \<lparr>cd_Decode = (\<lambda>s. if s = ''good''
       then Inr \<lparr>rt_Version = 1, rt_RateLimit = Some \<lparr>rlc_Enabled = True, rlc_RedisTimeout = ''300ms'', rlc_KeyPrefix = ''admin'',
         rlc_Default = \<lparr>rule_Limit = 5, rule_Window = ''1s''\<rparr>\<rparr>\<rparr>
       else Inl (PlainErr ''syntax'')),
     cd_Trailing = (\<lambda>s. At_EOF), cd_ParseDuration = (\<lambda>s. if s = ''1s'' then Inr 1000000000 else Inr 300000000)\<rparr>"

definition demo_first :: Snapshot where
  "demo_first = \<lparr>sn_Version = 1, sn_RetLimit = \<lparr>rs_Enabled = False, rs_RedisTimeout = 1, rs_KeyPrefix = ''k'',
     rs_Default = \<lparr>ru_Limit = 1, ru_Window = 1000000000\<rparr>\<rparr>\<rparr>"

definition demo_iteration :: "go_error + string \<times> u64 \<Rightarrow> iteration" where
  "demo_iteration a = \<lparr>it_ctx_done = False, it_answer = a, it_done_after = False, it_timer = True\<rparr>"

definition demo_iterations :: "iteration list" where
  "demo_iterations = map demo_iteration [Inr (''good'', 5), Inl (PlainErr ''timeout''), Inr (''old'', 3), Inr (''broken'', 7)]"

lemma Manager_publishes_last_valid_witness:
  "\<exists>ret st s. Manager_Run demo_codec (Some \<lparr>st_current = Some demo_first\<rparr>) demo_iterations = (ret, st)
     \<and> Store_Load (rn_store st) = Some s \<and> valid_snapshot s \<and> (\<forall>d \<in> set (rn_slept st). second \<le> d)"
proof -
  obtain ret st where run: "Manager_Run demo_codec (Some \<lparr>st_current = Some demo_first\<rparr>) demo_iterations = (ret, st)" by fastforce
  have "NewStore (Some demo_first) = Inr \<lparr>st_current = Some demo_first\<rparr>" by (simp add: NewStore_def)
  moreover have "valid_snapshot demo_first" by (simp add: valid_snapshot_def valid_rule_def demo_first_def)
  ultimately show ?thesis using Manager_publishes_last_valid [OF _ _ run] run by blast
qed

lemma demo_published:
  "Store_Load (rn_store (snd (Manager_Run demo_codec (Some \<lparr>st_current = Some demo_first\<rparr>) demo_iterations)))
     = snapshot_of demo_codec ''good''"
  "snapshot_of demo_codec ''good'' \<noteq> None"
  by code_simp+

end
