(* ===== verification/Sliding_Window.thy ===== *)
theory Sliding_Window
  imports App_Error Gorm
begin

text \<open>
  The sliding-window rate limiter of the admin service, \<open>admin/internal/ratelimit/limiter.go\<close> and \<open>redis.go\<close> with the Lua
  script in it. The commands that the script calls, \<open>Eval\<close>, the clock and the UUIDs are parameters; Redis runs a script
  as one step. \<open>zset_ok\<close> is the documented behaviour of the commands on the sorted set of a key: a map from members to
  scores. Times in the script are milliseconds.
\<close>

section \<open>The script\<close>

record 'w zset_commands =
  zc_ZREMRANGEBYSCORE :: "string \<Rightarrow> int \<Rightarrow> 'w \<Rightarrow> 'w"
  zc_ZCARD :: "string \<Rightarrow> 'w \<Rightarrow> int \<times> 'w"
  zc_ZRANGE_first :: "string \<Rightarrow> 'w \<Rightarrow> (string \<times> int) option \<times> 'w"
  zc_ZADD :: "string \<Rightarrow> int \<Rightarrow> string \<Rightarrow> 'w \<Rightarrow> 'w"
  zc_PEXPIRE :: "string \<Rightarrow> int \<Rightarrow> 'w \<Rightarrow> 'w"

text \<open>A reply of Redis as go-redis returns it.\<close>

datatype redis_reply = Reply_int int | Reply_list "redis_reply list" | Reply_other

text \<open>\<open>ZRANGE key 0 0 WITHSCORES\<close> yields the member and the score of the oldest entry, if there is one; \<open>oldest[2]\<close> is the score.\<close>

definition slidingWindowScript :: "'w zset_commands \<Rightarrow> string \<Rightarrow> int \<Rightarrow> int \<Rightarrow> int \<Rightarrow> string \<Rightarrow> 'w \<Rightarrow> redis_reply \<times> 'w" where
  "slidingWindowScript Z key now window lmt requestID w =
    (let windowStart = now - window;
         w = zc_ZREMRANGEBYSCORE Z key windowStart w
     in case zc_ZCARD Z key w of
          (current, w) \<Rightarrow>
            if lmt \<le> current then
              (case zc_ZRANGE_first Z key w of
                 (oldest, w) \<Rightarrow>
                   let retryAfter =
                     (case oldest of
                        None \<Rightarrow> window
                      | Some (_, score) \<Rightarrow>
                          let retryAfter = window - (now - score) in if retryAfter < 0 then 0 else retryAfter)
                   in (Reply_list [Reply_int 0, Reply_int current, Reply_int retryAfter], w))
            else
              let w = zc_ZADD Z key now requestID w;
                  w = zc_PEXPIRE Z key window w
              in (Reply_list [Reply_int 1, Reply_int (current + 1), Reply_int 0], w))"

section \<open>The limiter\<close>

record RateResult =
  rr_Allowed :: bool
  rr_Limit :: int
  rr_Remaining :: int
  rr_RetryAfter :: time

record 'w RedisSlidingWindow =
  rl_commands :: "'w zset_commands"
  rl_Eval :: "('w \<Rightarrow> redis_reply \<times> 'w) \<Rightarrow> 'w \<Rightarrow> (go_error + redis_reply) \<times> 'w"
  rl_UnixMilli :: "'w \<Rightarrow> int \<times> 'w"
  rl_uuid :: "'w \<Rightarrow> string \<times> 'w"

definition NewRedisSlidingWindow :: "'w RedisSlidingWindow option \<Rightarrow> go_error + 'w RedisSlidingWindow" where
  "NewRedisSlidingWindow redisClient =
    (case redisClient of None \<Rightarrow> Inl (PlainErr ''redis client is nil'') | Some r \<Rightarrow> Inr r)"

definition reply_error :: go_error where
  "reply_error = PlainErr ''unexpected Redis rate-limit result''"

text \<open>The type assertions on the reply; the text of their errors names the type only.\<close>

definition rate_result :: "int \<Rightarrow> redis_reply \<Rightarrow> go_error + RateResult" where
  "rate_result lmt value =
    (case value of
       Reply_list [Reply_int allowed, Reply_int current, Reply_int retryMilliseconds] \<Rightarrow>
         let remaining = go_int (lmt - current);
             remaining = (if remaining < 0 then 0 else remaining)
         in Inr \<lparr>rr_Allowed = (allowed = 1), rr_Limit = lmt, rr_Remaining = remaining,
                 rr_RetryAfter = go_int (retryMilliseconds * 1000000)\<rparr>
     | _ \<Rightarrow> Inl reply_error)"

text \<open>\<open>window.Milliseconds()\<close> rounds towards zero.\<close>

definition Allow :: "'w RedisSlidingWindow \<Rightarrow> string \<Rightarrow> int \<Rightarrow> time \<Rightarrow> 'w \<Rightarrow> (go_error + RateResult) \<times> 'w" where
  "Allow l key lmt window w =
    (if key = [] then (Inl (InvalidArgument ''rate-limit key is empty''), w)
     else if lmt \<le> 0 then (Inl (InvalidArgument ''rate-limit limit is invalid''), w)
     else if window \<le> 0 then (Inl (InvalidArgument ''rate-limit window is invalid''), w)
     else
       (case rl_UnixMilli l w of
          (now, w) \<Rightarrow>
            (case rl_uuid l w of
               (requestID, w) \<Rightarrow>
                 (case rl_Eval l (slidingWindowScript (rl_commands l) key now (window div 1000000) lmt requestID) w of
                    (Inl err, w) \<Rightarrow> (Inl err, w)
                  | (Inr value, w) \<Rightarrow> (rate_result lmt value, w)))))"

section \<open>What Redis promises\<close>

definition zset_ok :: "'w zset_commands \<Rightarrow> ('w \<Rightarrow> string \<Rightarrow> string \<rightharpoonup> int) \<Rightarrow> bool" where
  "zset_ok Z zs \<longleftrightarrow>
     (\<forall>w k. finite (dom (zs w k)))
   \<and> (\<forall>k m w. zs (zc_ZREMRANGEBYSCORE Z k m w) k = (\<lambda>x. case zs w k x of Some s \<Rightarrow> if s \<le> m then None else Some s | None \<Rightarrow> None))
   \<and> (\<forall>k w n w'. zc_ZCARD Z k w = (n, w') \<longrightarrow> n = int (card (dom (zs w k))) \<and> zs w' k = zs w k)
   \<and> (\<forall>k w. zs (snd (zc_ZRANGE_first Z k w)) k = zs w k)
   \<and> (\<forall>k s m w. zs (zc_ZADD Z k s m w) k = (zs w k)(m \<mapsto> s))
   \<and> (\<forall>k t w. 0 < t \<longrightarrow> zs (zc_PEXPIRE Z k t w) k = zs w k)"

text \<open>A failed \<open>Eval\<close> has or has not run the script. Reading the clock and making a UUID change no set, and a UUID is new.\<close>

definition limiter_ok :: "'w RedisSlidingWindow \<Rightarrow> ('w \<Rightarrow> string \<Rightarrow> string \<rightharpoonup> int) \<Rightarrow> bool" where
  "limiter_ok l zs \<longleftrightarrow> zset_ok (rl_commands l) zs
   \<and> (\<forall>script w res w'. rl_Eval l script w = (res, w') \<longrightarrow>
        (case res of Inr v \<Rightarrow> script w = (v, w') | Inl e \<Rightarrow> w' = w \<or> w' = snd (script w)))
   \<and> (\<forall>w n w'. rl_UnixMilli l w = (n, w') \<longrightarrow> zs w' = zs w)
   \<and> (\<forall>w u w' k. rl_uuid l w = (u, w') \<longrightarrow> zs w' = zs w \<and> u \<notin> dom (zs w k))"

text \<open>
  What may happen to the set of a key before the script runs at the server time \<open>time\<close>: Redis drops it when a window has
  passed since the last entry. The entries that disappear are at least a window old.
\<close>

definition idle :: "('w \<Rightarrow> string \<Rightarrow> string \<rightharpoonup> int) \<Rightarrow> string \<Rightarrow> int \<Rightarrow> int \<Rightarrow> 'w \<Rightarrow> 'w \<Rightarrow> bool" where
  "idle zs key window time w w' \<longleftrightarrow> zs w' key \<subseteq>\<^sub>m zs w key
     \<and> (\<forall>x s. zs w key x = Some s \<longrightarrow> zs w' key x = None \<longrightarrow> s \<le> time - window)"

section \<open>Any number of calls\<close>

text \<open>
  The calls of a key in the order in which Redis runs their scripts, latest first: the reading of the clock that the call
  made, and whether it was allowed. The code reads the clock before it calls \<open>Eval\<close>, so concurrent calls may reach Redis in
  another order than they read the clock: the scripts run at times \<open>time\<close> that do not go back, and each reading is
  at most \<open>lag\<close> milliseconds older than that. In between anything may happen that keeps to \<open>idle\<close>.
\<close>

inductive limiter_run :: "'w RedisSlidingWindow \<Rightarrow> ('w \<Rightarrow> string \<Rightarrow> string \<rightharpoonup> int) \<Rightarrow> string \<Rightarrow> int \<Rightarrow> time \<Rightarrow> int \<Rightarrow> 'w
    \<Rightarrow> int \<Rightarrow> (int \<times> bool) list \<Rightarrow> 'w \<Rightarrow> bool" for l zs key lmt window lag w0 where
  start: "limiter_run l zs key lmt window lag w0 time [] w0"
| call: "limiter_run l zs key lmt window lag w0 before (trace :: (int \<times> bool) list) w \<Longrightarrow> before \<le> time
    \<Longrightarrow> idle zs key (window div 1000000) time w w1
    \<Longrightarrow> fst (rl_UnixMilli l w1) = now \<Longrightarrow> now \<le> time \<Longrightarrow> time - lag \<le> now
    \<Longrightarrow> Allow l key lmt window w1 = (res, w2)
    \<Longrightarrow> limiter_run l zs key lmt window lag w0 time
          ((now, case res of Inr r \<Rightarrow> rr_Allowed r | Inl _ \<Rightarrow> False) # trace) w2"

definition allowed_in :: "int \<Rightarrow> int \<Rightarrow> (int \<times> bool) list \<Rightarrow> nat" where
  "allowed_in from to trace = length (filter (\<lambda>(t, a). a \<and> from < t \<and> t \<le> to) trace)"

section \<open>The bound\<close>

definition recent :: "int \<Rightarrow> (string \<rightharpoonup> int) \<Rightarrow> (string \<rightharpoonup> int)" where
  "recent m f = (\<lambda>x. case f x of Some s \<Rightarrow> if s \<le> m then None else Some s | None \<Rightarrow> None)"

lemma recent_Some [simp]: "recent m f x = Some s \<longleftrightarrow> f x = Some s \<and> m < s"
  by (auto simp: recent_def split: option.splits)

lemma script_effect:
  assumes z: "zset_ok Z zs" and "0 < window" and run: "slidingWindowScript Z key now window lmt i w = (reply, w')"
  obtains (accepted) n where "reply = Reply_list [Reply_int 1, Reply_int n, Reply_int 0]"
      "int (card (dom (recent (now - window) (zs w key)))) < lmt" "zs w' key = (recent (now - window) (zs w key))(i \<mapsto> now)"
  | (refused) n k where "reply = Reply_list [Reply_int 0, Reply_int n, Reply_int k]" "zs w' key = recent (now - window) (zs w key)"
proof -
  let ?w1 = "zc_ZREMRANGEBYSCORE Z key (now - window) w"
  have w1: "zs ?w1 key = recent (now - window) (zs w key)" using z by (simp add: zset_ok_def recent_def)
  obtain n w2 where n: "zc_ZCARD Z key ?w1 = (n, w2)" by fastforce
  have w2: "n = int (card (dom (zs ?w1 key)))" "zs w2 key = zs ?w1 key" using z n unfolding zset_ok_def by blast+
  show thesis
  proof (cases "lmt \<le> n")
    case True
    obtain oldest w3 where o: "zc_ZRANGE_first Z key w2 = (oldest, w3)" by fastforce
    have "zs w3 key = zs w2 key" using z o unfolding zset_ok_def by (metis snd_conv)
    with run n o True w1 w2 show thesis by (auto simp: slidingWindowScript_def Let_def intro: refused)
  next
    case False
    have "zs (zc_PEXPIRE Z key window (zc_ZADD Z key now i w2)) key = (zs w2 key)(i \<mapsto> now)"
      using z assms(2) by (simp add: zset_ok_def)
    with run n False w1 w2 show thesis by (intro accepted) (auto simp: slidingWindowScript_def Let_def)
  qed
qed

text \<open>What a call does to the set of its key; only an accepted call is answered with \<open>Allowed\<close>.\<close>

lemma Allow_effect:
  assumes ok: "limiter_ok l zs" and "0 < window div 1000000" and run: "Allow l key lmt window w = (res, w')" and now: "fst (rl_UnixMilli l w) = now"
  defines "m \<equiv> recent (now - window div 1000000) (zs w key)"
  obtains (not_allowed) "\<forall>r. res \<noteq> Inr r \<or> \<not> rr_Allowed r" "zs w' key = zs w key \<or> zs w' key = m"
  | (entered) i where "i \<notin> dom (zs w key)" "zs w' key = m(i \<mapsto> now)"
      "(\<exists>r. res = Inr r \<and> rr_Allowed r) \<longrightarrow> int (card (dom m)) < lmt"
proof -
  obtain w1 where w1: "rl_UnixMilli l w = (now, w1)" using now by (metis prod.collapse)
  obtain i w2 where w2: "rl_uuid l w1 = (i, w2)" by fastforce
  have same: "zs w2 = zs w" and fresh: "i \<notin> dom (zs w key)"
    using ok w1 w2 unfolding limiter_ok_def by metis+
  let ?script = "slidingWindowScript (rl_commands l) key now (window div 1000000) lmt i"
  obtain v0 w3 where script: "?script w2 = (v0, w3)" by fastforce
  have z: "zset_ok (rl_commands l) zs" using ok by (simp add: limiter_ok_def)
  show thesis
  proof (cases "key = [] \<or> lmt \<le> 0 \<or> window \<le> 0")
    case True
    with run have "\<forall>r. res \<noteq> Inr r" "w' = w" by (auto simp: Allow_def split: if_splits)
    then show thesis using not_allowed by simp
  next
    case False
    obtain ev w4 where ev: "rl_Eval l ?script w2 = (ev, w4)" by fastforce
    with False run w1 w2 have w': "w' = w4" and res: "res = (case ev of Inl e \<Rightarrow> Inl e | Inr v \<Rightarrow> rate_result lmt v)"
      by (auto simp: Allow_def split: sum.splits)
    have step: "case ev of Inr v \<Rightarrow> ?script w2 = (v, w4) | Inl e \<Rightarrow> w4 = w2 \<or> w4 = snd (?script w2)"
      using ok ev unfolding limiter_ok_def by blast
    show thesis
    proof (cases "ev = Inr v0 \<and> w4 = w3 \<or> (\<exists>e. ev = Inl e) \<and> w4 = w3")
      case True
      from script_effect [OF z assms(2) script] show thesis
      proof cases
        case (1 n)
        have "zs w' key = m(i \<mapsto> now)" "int (card (dom m)) < lmt" using 1 True w' same by (auto simp: m_def)
        then show thesis using entered [OF fresh] by simp
      next
        case (2 n k)
        with True w' same res have "\<forall>r. res \<noteq> Inr r \<or> \<not> rr_Allowed r" "zs w' key = m" by (auto simp: m_def rate_result_def Let_def)
        then show thesis using not_allowed by simp
      qed
    next
      case False
      have "\<exists>e. ev = Inl e" "w4 = w2" using step script False by (cases ev; auto)+
      with w' same res have "\<forall>r. res \<noteq> Inr r" "zs w' key = zs w key" by auto
      then show thesis using not_allowed by simp
    qed
  qed
qed

text \<open>
  Every allowed call of the last window but \<open>lag\<close> has its entry, and no such window holds more than the limit. Later scripts
  run at \<open>time\<close> or after it, so their readings are at least \<open>time - lag\<close>.
\<close>

definition allowed_since :: "int \<Rightarrow> (int \<times> bool) list \<Rightarrow> nat" where
  "allowed_since from trace = length (filter (\<lambda>(t, a). a \<and> from < t) trace)"

definition entered :: "(string \<rightharpoonup> int) \<Rightarrow> int \<Rightarrow> (int \<times> bool) list \<Rightarrow> bool" where
  "entered f from trace \<longleftrightarrow>
     (\<exists>ids. distinct ids \<and> length ids = allowed_since from trace \<and> (\<forall>i \<in> set ids. \<exists>t. f i = Some t \<and> from < t))"

definition window_inv :: "(string \<rightharpoonup> int) \<Rightarrow> int \<Rightarrow> int \<Rightarrow> int \<Rightarrow> int \<Rightarrow> (int \<times> bool) list \<Rightarrow> bool" where
  "window_inv f width lag lmt time trace \<longleftrightarrow>
     (\<forall>T. allowed_in (T - width) T trace \<le> nat lmt) \<and> (\<forall>now \<ge> time - lag. entered f (now - width) trace)"

lemma allowed_refused [simp]:
  "allowed_in m n ((t, False) # trace) = allowed_in m n trace" "allowed_since m ((t, False) # trace) = allowed_since m trace"
  by (simp_all add: allowed_in_def allowed_since_def)

lemma allowed_Cons:
  "allowed_in m n ((t, True) # trace) = (if m < t \<and> t \<le> n then Suc (allowed_in m n trace) else allowed_in m n trace)"
  "allowed_since m ((t, True) # trace) = (if m < t then Suc (allowed_since m trace) else allowed_since m trace)"
  by (simp_all add: allowed_in_def allowed_since_def)

lemma allowed_in_since: "m' \<le> m \<Longrightarrow> allowed_in m n trace \<le> allowed_since m' trace"
  by (induction trace) (auto simp: allowed_in_def allowed_since_def)

lemma entered_keeps:
  assumes "entered f from trace" "\<And>i t. f i = Some t \<Longrightarrow> from < t \<Longrightarrow> g i = Some t"
  shows "entered g from trace"
  using assms unfolding entered_def by meson

lemma entered_card:
  assumes "entered f from trace" "finite (dom f)"
  shows "allowed_since from trace \<le> card (dom f)"
proof -
  obtain ids where ids: "distinct ids" "length ids = allowed_since from trace" "\<forall>i \<in> set ids. \<exists>t. f i = Some t \<and> from < t"
    using assms(1) unfolding entered_def by blast
  then have "set ids \<subseteq> dom f" by blast
  then show ?thesis using ids assms(2) by (metis card_mono distinct_card)
qed

lemma entered_new:
  assumes "entered f from trace" "f i = None \<or> (\<exists>t. f i = Some t \<and> t \<le> from)"
  shows "entered (f(i \<mapsto> now)) from ((now, True) # trace)"
proof -
  obtain ids where ids: "distinct ids" "length ids = allowed_since from trace" "\<forall>i \<in> set ids. \<exists>t. f i = Some t \<and> from < t"
    using assms(1) unfolding entered_def by blast
  have i: "i \<notin> set ids" using ids(3) assms(2) by fastforce
  then have kept: "\<forall>j \<in> set ids. \<exists>t. (f(i \<mapsto> now)) j = Some t \<and> from < t" using ids(3) by (metis fun_upd_other)
  show ?thesis
  proof (cases "from < now")
    case True
    with ids i kept show ?thesis unfolding entered_def allowed_Cons by (intro exI [of _ "i # ids"]) simp
  next
    case False
    with ids kept show ?thesis unfolding entered_def allowed_Cons by (intro exI [of _ ids]) simp
  qed
qed

text \<open>A call that was not allowed.\<close>

lemma window_inv_refused:
  assumes inv: "window_inv f width lag lmt before trace" and "before \<le> time"
    and keeps: "\<And>i t. f i = Some t \<Longrightarrow> time - lag - width < t \<Longrightarrow> g i = Some t"
  shows "window_inv g width lag lmt time ((now, False) # trace)"
  unfolding window_inv_def
proof (intro conjI allI impI)
  show "allowed_in (T - width) T ((now, False) # trace) \<le> nat lmt" for T using inv by (simp add: window_inv_def)
next
  fix T assume T: "time - lag \<le> T"
  then have "entered f (T - width) trace" using inv assms(2) by (simp add: window_inv_def)
  then have "entered g (T - width) trace" by (rule entered_keeps) (use T in \<open>auto intro: keeps\<close>)
  then show "entered g (T - width) ((now, False) # trace)" by (simp add: entered_def)
qed

text \<open>A call that was allowed, with the set \<open>g\<close> that the script counted.\<close>

lemma window_inv_allowed:
  assumes inv: "window_inv f width lag lmt before trace" and times: "before \<le> time" "time - lag \<le> now"
    and keeps: "\<And>j t. f j = Some t \<Longrightarrow> time - lag - width < t \<Longrightarrow> g j = Some t"
    and room: "finite (dom g)" "int (card (dom g)) < lmt"
    and fresh: "g i = None \<or> (\<exists>t. g i = Some t \<and> t \<le> time - lag - width)"
  shows "window_inv (g(i \<mapsto> now)) width lag lmt time ((now, True) # trace)"
  unfolding window_inv_def
proof (intro conjI allI impI)
  have g: "entered g (T - width) trace" if "time - lag \<le> T" for T
  proof -
    have "entered f (T - width) trace" using inv times(1) that by (simp add: window_inv_def)
    then show ?thesis by (rule entered_keeps) (use that in \<open>auto intro: keeps\<close>)
  qed
  fix T
  have "allowed_since (now - width) trace < nat lmt" using entered_card [OF g [OF times(2)] room(1)] room(2) by linarith
  moreover have "allowed_in (T - width) T trace \<le> allowed_since (now - width) trace" if "now \<le> T"
    by (rule allowed_in_since) (use that in simp)
  moreover have "allowed_in (T - width) T trace \<le> nat lmt" using inv by (simp add: window_inv_def)
  ultimately show "allowed_in (T - width) T ((now, True) # trace) \<le> nat lmt" by (auto simp: allowed_Cons)
  assume T: "time - lag \<le> T"
  show "entered (g(i \<mapsto> now)) (T - width) ((now, True) # trace)"
    by (rule entered_new [OF g [OF T]]) (use fresh T in fastforce)
qed

lemma limiter_run_inv:
  assumes "limiter_run l zs key lmt window lag w0 time trace w" and ok: "limiter_ok l zs" and "0 < window div 1000000"
  shows "window_inv (zs w key) (window div 1000000 - lag) lag lmt time trace"
  using assms(1)
proof induction
  case (start time)
  show ?case by (auto simp: window_inv_def allowed_in_def entered_def allowed_since_def)
next
  case (call before trace w time w1 now res w2)
  let ?width = "window div 1000000" and ?m = "recent (now - window div 1000000) (zs w1 key)"
  have idle: "zs w1 key x = Some t" if "zs w key x = Some t" "time - ?width < t" for x t
    using call.hyps(3) that unfolding idle_def map_le_def by (metis domI not_le option.exhaust option.inject)
  have keeps: "?m x = Some t" if "zs w key x = Some t" "time - lag - (?width - lag) < t" for x t
    using idle [of x t] that call.hyps(5) by simp
  have fin: "finite (dom ?m)"
  proof (rule finite_subset)
    show "dom ?m \<subseteq> dom (zs w1 key)" by auto
    show "finite (dom (zs w1 key))" using ok by (simp add: limiter_ok_def zset_ok_def)
  qed
  from ok assms(3) call.hyps(7,4) show ?case
  proof (cases rule: Allow_effect)
    case not_allowed
    then have no: "(case res of Inr r \<Rightarrow> rr_Allowed r | Inl _ \<Rightarrow> False) = False" by (simp split: sum.splits)
    have "zs w2 key x = Some t" if "zs w key x = Some t" "time - lag - (?width - lag) < t" for x t
      using not_allowed(2) idle [of x t] keeps [of x t] that by auto
    then show ?thesis unfolding no by (rule window_inv_refused [OF call.IH call.hyps(2)])
  next
    case (entered i)
    show ?thesis
    proof (cases "\<exists>r. res = Inr r \<and> rr_Allowed r")
      case False
      then have no: "(case res of Inr r \<Rightarrow> rr_Allowed r | Inl _ \<Rightarrow> False) = False" by (simp split: sum.splits)
      have "zs w2 key x = Some t" if "zs w key x = Some t" "time - lag - (?width - lag) < t" for x t
        using entered(1,2) idle [of x t] keeps [of x t] that by (auto simp: domIff)
      then show ?thesis unfolding no by (rule window_inv_refused [OF call.IH call.hyps(2)])
    next
      case True
      then have yes: "(case res of Inr r \<Rightarrow> rr_Allowed r | Inl _ \<Rightarrow> False) = True" by auto
      have "?m i = None" using entered(1) by (auto simp: recent_def domIff)
      then show ?thesis unfolding yes entered(2)
        using window_inv_allowed [OF call.IH call.hyps(2,6) keeps fin] entered(3) True by blast
    qed
  qed
qed

lemma limiter_run_bound:
  assumes "limiter_run l zs key lmt window lag w0 time trace w" "limiter_ok l zs" "0 \<le> lag"
  shows "allowed_in (T - (window div 1000000 - lag)) T trace \<le> nat lmt"
proof (cases "0 < window div 1000000")
  case True
  from limiter_run_inv [OF assms(1,2) this] show ?thesis by (simp add: window_inv_def)
next
  case False
  with assms(3) show ?thesis unfolding allowed_in_def by (subst filter_False) auto
qed


text \<open>The configuration accepts every positive window, but a window below a millisecond is one of no milliseconds for the
  script: all entries are too old, and every call that Redis answers is allowed, whatever the limit.\<close>

lemma sub_millisecond_never_limits:
  assumes ok: "limiter_ok l zs" and args: "key \<noteq> []" "0 < lmt" "0 < window" "window < 1000000"
    and past: "\<forall>s \<in> ran (zs w key). s \<le> fst (rl_UnixMilli l w)"
    and answered: "Allow l key lmt window w = (res, w')" "rl_Eval l = (\<lambda>script w. case script w of (v, w) \<Rightarrow> (Inr v, w))"
  shows "\<exists>r. res = Inr r \<and> rr_Allowed r"
proof -
  obtain now w1 where w1: "rl_UnixMilli l w = (now, w1)" by fastforce
  obtain i w2 where w2: "rl_uuid l w1 = (i, w2)" by fastforce
  have same: "zs w2 = zs w" using ok w1 w2 unfolding limiter_ok_def by metis
  have z: "zset_ok (rl_commands l) zs" using ok by (simp add: limiter_ok_def)
  let ?w3 = "zc_ZREMRANGEBYSCORE (rl_commands l) key now w2"
  have empty: "zs ?w3 key = Map.empty"
  proof -
    have "zs ?w3 key = recent now (zs w2 key)" using z by (simp add: zset_ok_def recent_def)
    also have "\<dots> = Map.empty" using past w1 by (auto simp: recent_def same ran_def fun_eq_iff split: option.split)
    finally show ?thesis .
  qed
  obtain n w4 where n: "zc_ZCARD (rl_commands l) key ?w3 = (n, w4)" by fastforce
  have "n = int (card (dom (zs ?w3 key)))" using z n unfolding zset_ok_def by blast
  then have "n = 0" by (simp add: empty)
  then obtain w5 where script: "slidingWindowScript (rl_commands l) key now 0 lmt i w2
      = (Reply_list [Reply_int 1, Reply_int 1, Reply_int 0], w5)"
    using n args(2) by (simp add: slidingWindowScript_def Let_def)
  have zero: "window div 1000000 = 0" using args(3,4) by simp
  have "Allow l key lmt window w = (rate_result lmt (Reply_list [Reply_int 1, Reply_int 1, Reply_int 0]), w5)"
    unfolding Allow_def answered(2) zero using args w1 w2 script by simp
  with answered(1) show ?thesis by (auto simp: rate_result_def Let_def)
qed

section \<open>A concrete Redis\<close>

text \<open>The sorted sets as a list of scored pairs of key and member, with a clock that advances by ten milliseconds.\<close>

type_synonym zworld = "((string \<times> string) \<times> int) list \<times> int"

definition zview :: "zworld \<Rightarrow> string \<Rightarrow> string \<rightharpoonup> int" where
  "zview w k = (\<lambda>i. map_of (fst w) (k, i))"

definition zdemo :: "zworld zset_commands" where
  "zdemo = \<lparr>
     zc_ZREMRANGEBYSCORE = (\<lambda>k m (xs, t).
       (filter (\<lambda>(x, _). \<not> (fst x = k \<and> (case map_of xs x of Some s \<Rightarrow> s \<le> m | None \<Rightarrow> False))) xs, t)),
     zc_ZCARD = (\<lambda>k (xs, t). (int (length (remdups (map snd (filter (\<lambda>x. fst x = k) (map fst xs))))), (xs, t))),
     zc_ZRANGE_first = (\<lambda>k (xs, t).
       (case sort_key snd (map (\<lambda>(x, s). (snd x, s)) (filter (\<lambda>(x, _). fst x = k) xs)) of [] \<Rightarrow> None | e # _ \<Rightarrow> Some e, (xs, t))),
     zc_ZADD = (\<lambda>k s i (xs, t). (((k, i), s) # xs, t)),
     zc_PEXPIRE = (\<lambda>k ms (xs, t). (if ms \<le> 0 then filter (\<lambda>(x, _). fst x \<noteq> k) xs else xs, t))\<rparr>"

definition limiter_demo :: "zworld RedisSlidingWindow" where
  "limiter_demo = \<lparr>rl_commands = zdemo, rl_Eval = (\<lambda>script w. case script w of (v, w') \<Rightarrow> (Inr v, w')),
     rl_UnixMilli = (\<lambda>(xs, t). (t, (xs, t + 10))),
     rl_uuid = (\<lambda>(xs, t). (replicate (Suc (sum_list (map (\<lambda>(x, _). length (snd x)) xs))) CHR ''a'', (xs, t)))\<rparr>"

lemma map_of_filter_key: "map_of (filter (\<lambda>(x, _). P x) xs) y = (if P y then map_of xs y else None)"
  by (induction xs) auto

lemma zdemo_ok: "zset_ok zdemo zview"
proof -
  have dom_view: "dom (zview (xs, t) k) = set (map snd (filter (\<lambda>x. fst x = k) (map fst xs)))" for xs t k
    by (force simp: zview_def dom_def map_of_eq_None_iff image_iff simp flip: not_None_eq)
  have "finite (dom (zview w k))" for w k using dom_view [of "fst w" "snd w"] by simp
  moreover have "zview (zc_ZREMRANGEBYSCORE zdemo k m w) k
      = (\<lambda>x. case zview w k x of Some s \<Rightarrow> if s \<le> m then None else Some s | None \<Rightarrow> None)" for k m w
    by (cases w) (auto simp: zdemo_def zview_def map_of_filter_key fun_eq_iff split: option.splits)
  moreover have "n = int (card (dom (zview w k))) \<and> zview w' k = zview w k" if "zc_ZCARD zdemo k w = (n, w')" for k w n w'
  proof (cases w)
    case (Pair xs t)
    with that show ?thesis by (auto simp: zdemo_def dom_view length_remdups_card_conv)
  qed
  ultimately show ?thesis unfolding zset_ok_def
    by (auto simp: zdemo_def zview_def split: prod.splits)
qed

lemma limiter_demo_ok: "limiter_ok limiter_demo zview"
proof -
  have fresh: "(k, replicate (Suc (sum_list (map (\<lambda>(x, _). length (snd x)) xs))) CHR ''a'') \<notin> fst ` set xs"
    for k and xs :: "((string \<times> string) \<times> int) list"
  proof
    assume "(k, replicate (Suc (sum_list (map (\<lambda>(x, _). length (snd x)) xs))) CHR ''a'') \<in> fst ` set xs"
    then obtain s where "((k, replicate (Suc (sum_list (map (\<lambda>(x, _). length (snd x)) xs))) CHR ''a''), s) \<in> set xs" by force
    then have "Suc (sum_list (map (\<lambda>(x, _). length (snd x)) xs)) \<in> set (map (\<lambda>(x, _). length (snd x)) xs)" by force
    from member_le_sum_list [OF this] show False by simp
  qed
  show ?thesis unfolding limiter_ok_def
    using zdemo_ok fresh by (auto simp: limiter_demo_def zview_def domIff map_of_eq_None_iff split: prod.splits)
qed

lemma idle_refl: "idle zs key m now w w"
  by (simp add: idle_def)

lemma demo_calls:
  "Allow limiter_demo ''key'' 2 1000000000 ([], 0)
     = (Inr \<lparr>rr_Allowed = True, rr_Limit = 2, rr_Remaining = 1, rr_RetryAfter = 0\<rparr>, ([((''key'', ''a''), 0)], 10))"
  "Allow limiter_demo ''key'' 2 1000000000 ([((''key'', ''a''), 0)], 10)
     = (Inr \<lparr>rr_Allowed = True, rr_Limit = 2, rr_Remaining = 0, rr_RetryAfter = 0\<rparr>,
        ([((''key'', ''aa''), 10), ((''key'', ''a''), 0)], 20))"
  "Allow limiter_demo ''key'' 2 1000000000 ([((''key'', ''aa''), 10), ((''key'', ''a''), 0)], 20)
     = (Inr \<lparr>rr_Allowed = False, rr_Limit = 2, rr_Remaining = 0, rr_RetryAfter = 980000000\<rparr>,
        ([((''key'', ''aa''), 10), ((''key'', ''a''), 0)], 30))"
  by code_simp+

lemma demo_run:
  "limiter_run limiter_demo zview ''key'' 2 1000000000 5 ([], 0) 24 [(20, False), (10, True), (0, True)]
     ([((''key'', ''aa''), 10), ((''key'', ''a''), 0)], 30)"
proof -
  note step = limiter_run.call [OF _ _ idle_refl _ _ _ demo_calls(1)]
    limiter_run.call [OF _ _ idle_refl _ _ _ demo_calls(2)] limiter_run.call [OF _ _ idle_refl _ _ _ demo_calls(3)]
  have clock: "fst (rl_UnixMilli limiter_demo (xs, t)) = t" for xs t by (simp add: limiter_demo_def)
  let ?run = "limiter_run limiter_demo zview ''key'' 2 1000000000 5 ([], 0)"
  have "?run 3 [(0, True)] ([((''key'', ''a''), 0)], 10)"
    using step(1) [OF limiter_run.start _ clock, of 3 3 5] by simp
  from step(2) [OF this _ clock, of 10] have "?run 10 [(10, True), (0, True)] ([((''key'', ''aa''), 10), ((''key'', ''a''), 0)], 20)"
    by simp
  from step(3) [OF this _ clock, of 24] show ?thesis by simp
qed


end
