(* ===== verification/Sharding.thy ===== *)
theory Sharding
  imports App_Error
begin

unbundle bit_operations_syntax

text \<open>
  Routing of rows to fixed shards: \<open>web3/internal/sharding/router.go\<close> (wallet transactions, routed
  by the FNV-1a hash of the wallet ID) and \<open>user/internal/sharding/router.go\<close> (users, wallets and
  fund transactions, routed by the numeric user ID). Both routers satisfy one interface, the
  locale \<open>shard_router\<close>, from which the facts the repositories rely on follow.
\<close>

section \<open>FNV-1a (package \<open>hash/fnv\<close>)\<close>

definition go_bytes :: "string \<Rightarrow> byte list" where
  "go_bytes s = map of_char s"

definition fnv_offset64 :: u64 where "fnv_offset64 = 14695981039346656037"
definition fnv_prime64 :: u64 where "fnv_prime64 = 1099511628211"

definition fnv64a :: "byte list \<Rightarrow> u64" where
  "fnv64a bs = foldl (\<lambda>h b. (h XOR ucast b) * fnv_prime64) fnv_offset64 bs"

section \<open>The transaction router of the Web3 service\<close>

definition transactionTableCount :: nat where "transactionTableCount = 8"
definition transactionTablePrefix :: string where "transactionTablePrefix = ''wallet_transactions_''"

record TransactionRouter =
  tr_tableNames :: "string list"

definition NewTransactionRouter :: TransactionRouter where
  "NewTransactionRouter =
     \<lparr>tr_tableNames = map (\<lambda>index. transactionTablePrefix @ pad2 index) [0..<transactionTableCount]\<rparr>"

definition tr_TableIndex :: "TransactionRouter \<Rightarrow> string \<Rightarrow> go_error + nat" where
  "tr_TableIndex r walletID =
    (let walletID = ToLower (TrimSpace walletID)
     in if walletID = [] then Inl (PlainErr ''wallet ID is empty'')
        else Inr (unat (fnv64a (go_bytes walletID) mod of_nat transactionTableCount)))"

definition tr_TableName :: "TransactionRouter \<Rightarrow> string \<Rightarrow> go_error + string" where
  "tr_TableName r walletID =
    (case tr_TableIndex r walletID of
       Inl err \<Rightarrow> Inl err
     | Inr index \<Rightarrow> Inr (tr_tableNames r ! index))"

definition shard_range_error :: "string \<Rightarrow> int \<Rightarrow> nat \<Rightarrow> go_error" where
  "shard_range_error what index n =
    PlainErr (what @ '' index '' @ int_to_string index @ '' is outside 0..'' @ int_to_string (int n - 1))"

definition tr_TableNameByIndex :: "TransactionRouter \<Rightarrow> int \<Rightarrow> go_error + string" where
  "tr_TableNameByIndex r index =
    (if index < 0 \<or> index \<ge> int (length (tr_tableNames r))
     then Inl (shard_range_error ''transaction shard'' index (length (tr_tableNames r)))
     else Inr (tr_tableNames r ! nat index))"

definition tr_TableNames :: "TransactionRouter \<Rightarrow> string list" where
  "tr_TableNames r = tr_tableNames r"

section \<open>The router of the User service\<close>

record ShardingConfig =
  sc_Enabled :: bool
  sc_TableCount :: int
  sc_TablePrefix :: string

definition userWalletTablePrefix :: string where "userWalletTablePrefix = ''user_wallets_''"
definition userFundTransactionTablePrefix :: string where
  "userFundTransactionTablePrefix = ''user_fund_transactions_''"

text \<open>The regular expression \<open>^[a-z][a-z0-9_]*_$\<close>.\<close>

definition prefix_char :: "char \<Rightarrow> bool" where
  "prefix_char c \<longleftrightarrow>
    (let n = (of_char c :: nat) in 97 \<le> n \<and> n \<le> 122 \<or> 48 \<le> n \<and> n \<le> 57 \<or> n = 95)"

definition validTablePrefix :: "string \<Rightarrow> bool" where
  "validTablePrefix s \<longleftrightarrow>
     2 \<le> length s \<and> 97 \<le> (of_char (hd s) :: nat) \<and> (of_char (hd s) :: nat) \<le> 122
       \<and> (\<forall>c \<in> set (tl s). prefix_char c) \<and> last s = CHR ''_''"

record UserRouter =
  ur_tableCount :: u64
  ur_tableNames :: "string list"

definition NewUserRouter :: "ShardingConfig \<Rightarrow> go_error + UserRouter" where
  "NewUserRouter cfg =
    (if \<not> sc_Enabled cfg then Inl (PlainErr ''user sharding is disabled'')
     else if sc_TableCount cfg \<noteq> 8 then Inl (PlainErr ''user shard table count must be 8'')
     else if \<not> validTablePrefix (sc_TablePrefix cfg) then
       Inl (PlainErr (''invalid user shard table prefix '' @ go_quote (sc_TablePrefix cfg)))
     else
       Inr \<lparr>ur_tableCount = of_int (sc_TableCount cfg),
            ur_tableNames = map (\<lambda>index. sc_TablePrefix cfg @ pad2 index) [0..<nat (sc_TableCount cfg)]\<rparr>)"

text \<open>A user ID is an \<open>int64\<close>; \<open>uint64(userID)\<close> is the same 64 bits.\<close>

definition ur_TableIndex :: "UserRouter \<Rightarrow> u64 \<Rightarrow> go_error + nat" where
  "ur_TableIndex r userID =
    (if sint userID \<le> 0 then Inl (PlainErr ''user ID must be positive'')
     else Inr (unat (userID mod ur_tableCount r)))"

definition ur_TableName :: "UserRouter \<Rightarrow> u64 \<Rightarrow> go_error + string" where
  "ur_TableName r userID =
    (case ur_TableIndex r userID of
       Inl err \<Rightarrow> Inl err
     | Inr index \<Rightarrow> Inr (ur_tableNames r ! index))"

definition ur_TableNameByIndex :: "UserRouter \<Rightarrow> int \<Rightarrow> go_error + string" where
  "ur_TableNameByIndex r index =
    (if index < 0 \<or> index \<ge> int (length (ur_tableNames r))
     then Inl (shard_range_error ''user shard table'' index (length (ur_tableNames r)))
     else Inr (ur_tableNames r ! nat index))"

definition ur_TableNames :: "UserRouter \<Rightarrow> string list" where
  "ur_TableNames r = ur_tableNames r"

definition ur_WalletTableName :: "UserRouter \<Rightarrow> u64 \<Rightarrow> go_error + string" where
  "ur_WalletTableName r userID =
    (case ur_TableIndex r userID of
       Inl err \<Rightarrow> Inl err
     | Inr index \<Rightarrow> Inr (userWalletTablePrefix @ pad2 index))"

definition ur_FundTransactionTableName :: "UserRouter \<Rightarrow> u64 \<Rightarrow> go_error + string" where
  "ur_FundTransactionTableName r userID =
    (case ur_TableIndex r userID of
       Inl err \<Rightarrow> Inl err
     | Inr index \<Rightarrow> Inr (userFundTransactionTablePrefix @ pad2 index))"

definition ur_WalletTableNameByIndex :: "UserRouter \<Rightarrow> int \<Rightarrow> go_error + string" where
  "ur_WalletTableNameByIndex r index =
    (case ur_TableNameByIndex r index of
       Inl err \<Rightarrow> Inl err
     | Inr _ \<Rightarrow> Inr (userWalletTablePrefix @ pad2 (nat index)))"

definition ur_FundTransactionTableNameByIndex :: "UserRouter \<Rightarrow> int \<Rightarrow> go_error + string" where
  "ur_FundTransactionTableNameByIndex r index =
    (case ur_TableNameByIndex r index of
       Inl err \<Rightarrow> Inl err
     | Inr _ \<Rightarrow> Inr (userFundTransactionTablePrefix @ pad2 (nat index)))"

section \<open>The interface of a router\<close>

text \<open>
  What the repositories use of a router \<open>r\<close>: an index for a key, the table name of a key or of an
  index, and the list of all tables.
\<close>

locale shard_router =
  fixes router_ok :: "'r \<Rightarrow> bool"
    and table_index :: "'r \<Rightarrow> 'k \<Rightarrow> go_error + nat"
    and table_name :: "'r \<Rightarrow> 'k \<Rightarrow> go_error + string"
    and table_name_by_index :: "'r \<Rightarrow> int \<Rightarrow> go_error + string"
    and table_names :: "'r \<Rightarrow> string list"
  assumes index_bound: "router_ok r \<Longrightarrow> table_index r k = Inr i \<Longrightarrow> i < length (table_names r)"
    and name_of_index: "table_index r k = Inr i \<Longrightarrow> table_name r k = Inr (table_names r ! i)"
    and name_of_error: "table_index r k = Inl err \<Longrightarrow> table_name r k = Inl err"
    and by_index: "0 \<le> j \<Longrightarrow> j < int (length (table_names r))
      \<Longrightarrow> table_name_by_index r j = Inr (table_names r ! nat j)"
    and by_index_out: "j < 0 \<or> j \<ge> int (length (table_names r))
      \<Longrightarrow> \<exists>err. table_name_by_index r j = Inl err"
    and names_distinct: "router_ok r \<Longrightarrow> distinct (table_names r)"
begin

lemma name_in_tables: "router_ok r \<Longrightarrow> table_name r k = Inr t \<Longrightarrow> t \<in> set (table_names r)"
  using index_bound name_of_index name_of_error
  by (cases "table_index r k") (auto simp: nth_mem)

text \<open>An index stored with a row leads back to the table the row was written to.\<close>

lemma stored_index: "router_ok r \<Longrightarrow> table_index r k = Inr i
    \<Longrightarrow> table_name_by_index r (int i) = table_name r k"
  using index_bound [of r k i] by (simp add: by_index name_of_index)

text \<open>Two keys share a table exactly when they share an index.\<close>

lemma same_table:
  "router_ok r \<Longrightarrow> table_index r k = Inr i \<Longrightarrow> table_index r k' = Inr i'
    \<Longrightarrow> table_name r k = table_name r k' \<longleftrightarrow> i = i'"
  using index_bound [of r k i] index_bound [of r k' i'] names_distinct [of r]
  by (auto simp: name_of_index nth_eq_iff_index_eq)

lemma every_table_indexed: "router_ok r \<Longrightarrow> t \<in> set (table_names r)
    \<Longrightarrow> \<exists>j. table_name_by_index r j = Inr t"
  by (metis by_index in_set_conv_nth nat_int of_nat_0_le_iff of_nat_less_iff)

end

definition tr_ok :: "TransactionRouter \<Rightarrow> bool" where
  "tr_ok r \<longleftrightarrow> r = NewTransactionRouter"

definition ur_ok :: "UserRouter \<Rightarrow> bool" where
  "ur_ok r \<longleftrightarrow> (\<exists>cfg. NewUserRouter cfg = Inr r)"

lemma distinct_pad2_names: "n \<le> 100 \<Longrightarrow> distinct (map (\<lambda>i. p @ pad2 i) [0..<n])"
  by (auto simp: distinct_map inj_on_def pad2_inj)

lemma length_tr_tables [simp]: "length (tr_tableNames NewTransactionRouter) = 8"
  by (simp add: NewTransactionRouter_def transactionTableCount_def)

lemma tr_index_bound: "tr_TableIndex r k = Inr i \<Longrightarrow> i < 8"
proof -
  assume "tr_TableIndex r k = Inr i"
  then have "i = unat (fnv64a (go_bytes (ToLower (TrimSpace k)))) mod 8"
    by (simp add: tr_TableIndex_def Let_def transactionTableCount_def unat_mod split: if_splits)
  then show ?thesis by simp
qed

lemma NewUserRouter_Inr:
  assumes "NewUserRouter cfg = Inr r"
  shows "ur_tableCount r = 8" "length (ur_tableNames r) = 8" "distinct (ur_tableNames r)"
    "ur_tableNames r = map (\<lambda>index. sc_TablePrefix cfg @ pad2 index) [0..<8]"
  using assms by (auto simp: NewUserRouter_def distinct_pad2_names split: if_splits)

lemma ur_index_bound: "ur_ok r \<Longrightarrow> ur_TableIndex r k = Inr i \<Longrightarrow> i < 8"
  by (auto simp: ur_ok_def ur_TableIndex_def unat_mod dest!: NewUserRouter_Inr(1) split: if_splits)

interpretation wallet_shards: shard_router tr_ok tr_TableIndex tr_TableName tr_TableNameByIndex tr_TableNames
proof
  fix r :: TransactionRouter and k i
  show "tr_ok r \<Longrightarrow> tr_TableIndex r k = Inr i \<Longrightarrow> i < length (tr_TableNames r)"
    using tr_index_bound by (simp add: tr_ok_def tr_TableNames_def)
  show "tr_ok r \<Longrightarrow> distinct (tr_TableNames r)"
    by (simp add: tr_ok_def tr_TableNames_def NewTransactionRouter_def distinct_pad2_names
        transactionTableCount_def del: upt_conv_Cons)
qed (auto simp: tr_TableName_def tr_TableNameByIndex_def tr_TableNames_def)

interpretation user_shards: shard_router ur_ok ur_TableIndex ur_TableName ur_TableNameByIndex ur_TableNames
proof
  fix r :: UserRouter and k i
  show "ur_ok r \<Longrightarrow> ur_TableIndex r k = Inr i \<Longrightarrow> i < length (ur_TableNames r)"
    using ur_index_bound [of r k i] by (auto simp: ur_ok_def ur_TableNames_def NewUserRouter_Inr)
  show "ur_ok r \<Longrightarrow> distinct (ur_TableNames r)"
    by (auto simp: ur_ok_def ur_TableNames_def dest: NewUserRouter_Inr(3))
qed (auto simp: ur_TableName_def ur_TableNameByIndex_def ur_TableNames_def)

section \<open>Properties\<close>

lemma tr_TableIndex_normal: "tr_TableIndex r (ToLower (TrimSpace k)) = tr_TableIndex r k"
  by (simp add: tr_TableIndex_def TrimSpace_ToLower)

text \<open>Every wallet ID that is not blank is routed to one of the eight transaction tables, the
  table found from its index is the table found from the ID, and spelling the ID with other
  letter case or surrounding white space does not move it.\<close>

theorem wallet_routing:
  assumes "TrimSpace walletID \<noteq> []"
  shows "\<exists>i. i < 8 \<and> tr_TableIndex NewTransactionRouter walletID = Inr i
    \<and> tr_TableName NewTransactionRouter walletID = tr_TableNameByIndex NewTransactionRouter (int i)
    \<and> tr_TableName NewTransactionRouter walletID \<in> Inr ` set (tr_TableNames NewTransactionRouter)
    \<and> tr_TableName NewTransactionRouter (ToLower (TrimSpace walletID))
        = tr_TableName NewTransactionRouter walletID"
proof -
  have ok: "tr_ok NewTransactionRouter" by (simp add: tr_ok_def)
  obtain i where i: "tr_TableIndex NewTransactionRouter walletID = Inr i"
    using assms by (auto simp: tr_TableIndex_def Let_def)
  have "tr_TableName NewTransactionRouter walletID \<in> Inr ` set (tr_TableNames NewTransactionRouter)"
    using wallet_shards.name_in_tables [OF ok] wallet_shards.name_of_index [OF i] by blast
  moreover have "tr_TableName NewTransactionRouter (ToLower (TrimSpace walletID))
      = tr_TableName NewTransactionRouter walletID"
    by (simp add: tr_TableName_def tr_TableIndex_normal)
  ultimately show ?thesis
    using i tr_index_bound [OF i] wallet_shards.stored_index [OF ok i] by auto
qed

theorem wallet_routing_witness:
  "\<exists>i. i < 8 \<and> tr_TableIndex NewTransactionRouter '' Wallet-1'' = Inr i
    \<and> tr_TableName NewTransactionRouter '' Wallet-1'' = tr_TableNameByIndex NewTransactionRouter (int i)
    \<and> tr_TableName NewTransactionRouter '' Wallet-1'' \<in> Inr ` set (tr_TableNames NewTransactionRouter)
    \<and> tr_TableName NewTransactionRouter (ToLower (TrimSpace '' Wallet-1''))
        = tr_TableName NewTransactionRouter '' Wallet-1''"
  by (rule wallet_routing) (simp add: TrimSpace_def trim_left_space.simps trim_right_space.simps
      ends_in_space_def)

text \<open>A router that the User service was able to create routes every positive user ID to one of
  its eight tables, finds that table again from the index kept in the identity index, and two
  users share a table exactly when their IDs agree modulo 8.\<close>

theorem user_routing:
  assumes "NewUserRouter cfg = Inr r" and "0 < sint userID" and "0 < sint userID'"
  shows "ur_TableName r userID \<in> Inr ` set (ur_TableNames r)
    \<and> ur_TableNameByIndex r (int (unat userID mod 8)) = ur_TableName r userID
    \<and> (ur_TableName r userID = ur_TableName r userID' \<longleftrightarrow> unat userID mod 8 = unat userID' mod 8)"
proof -
  have ok: "ur_ok r" using assms(1) by (auto simp: ur_ok_def)
  have i: "ur_TableIndex r u = Inr (unat u mod 8)" if "0 < sint u" for u
    using that NewUserRouter_Inr(1) [OF assms(1)] by (simp add: ur_TableIndex_def unat_mod)
  have "ur_TableName r userID \<in> Inr ` set (ur_TableNames r)"
    using user_shards.name_in_tables [OF ok] user_shards.name_of_index [OF i [OF assms(2)]] by blast
  then show ?thesis
    using user_shards.stored_index [OF ok i [OF assms(2)]]
      user_shards.same_table [OF ok i [OF assms(2)] i [OF assms(3)]] by blast
qed

theorem user_routing_witness:
  "\<exists>r. NewUserRouter \<lparr>sc_Enabled = True, sc_TableCount = 8, sc_TablePrefix = ''users_''\<rparr> = Inr r
    \<and> ur_TableName r 42 \<in> Inr ` set (ur_TableNames r)
    \<and> ur_TableNameByIndex r (int (unat (42::u64) mod 8)) = ur_TableName r 42
    \<and> (ur_TableName r 42 = ur_TableName r 10 \<longleftrightarrow> unat (42::u64) mod 8 = unat (10::u64) mod 8)"
proof -
  obtain r where r: "NewUserRouter \<lparr>sc_Enabled = True, sc_TableCount = 8, sc_TablePrefix = ''users_''\<rparr> = Inr r"
    by (simp add: NewUserRouter_def validTablePrefix_def prefix_char_def)
  then show ?thesis
    using user_routing [OF r, of 42 10] by auto
qed

end
