(* ===== verification/Tron_Address.thy ===== *)
theory Tron_Address
  imports Sharding
begin

text \<open>
  The TRON address codec, \<open>web3/internal/tron/address.go\<close>, over Go's \<open>crypto/sha256\<close>, which is
  defined here in full (FIPS 180-4, byte messages). \<open>math/big\<close> integers are naturals and
  \<open>value.Bytes()\<close> is the minimal big-endian byte list \<open>big_bytes\<close>. The source iterates over the
  runes of the address; a non-ASCII rune is never in the alphabet, so the model iterates over the
  bytes. The abstract specification is \<open>EncodeAddress\<close>: the accepted strings are exactly the
  Base58Check encodings of 21-byte payloads with the mainnet prefix.
\<close>

unbundle bit_operations_syntax

section \<open>SHA-256\<close>

definition sha_k :: "u32 list" where
  "sha_k = [
   0x428a2f98, 0x71374491, 0xb5c0fbcf, 0xe9b5dba5,
   0x3956c25b, 0x59f111f1, 0x923f82a4, 0xab1c5ed5,
   0xd807aa98, 0x12835b01, 0x243185be, 0x550c7dc3,
   0x72be5d74, 0x80deb1fe, 0x9bdc06a7, 0xc19bf174,
   0xe49b69c1, 0xefbe4786, 0x0fc19dc6, 0x240ca1cc,
   0x2de92c6f, 0x4a7484aa, 0x5cb0a9dc, 0x76f988da,
   0x983e5152, 0xa831c66d, 0xb00327c8, 0xbf597fc7,
   0xc6e00bf3, 0xd5a79147, 0x06ca6351, 0x14292967,
   0x27b70a85, 0x2e1b2138, 0x4d2c6dfc, 0x53380d13,
   0x650a7354, 0x766a0abb, 0x81c2c92e, 0x92722c85,
   0xa2bfe8a1, 0xa81a664b, 0xc24b8b70, 0xc76c51a3,
   0xd192e819, 0xd6990624, 0xf40e3585, 0x106aa070,
   0x19a4c116, 0x1e376c08, 0x2748774c, 0x34b0bcb5,
   0x391c0cb3, 0x4ed8aa4a, 0x5b9cca4f, 0x682e6ff3,
   0x748f82ee, 0x78a5636f, 0x84c87814, 0x8cc70208,
   0x90befffa, 0xa4506ceb, 0xbef9a3f7, 0xc67178f2]"

type_synonym sha_state = "u32 \<times> u32 \<times> u32 \<times> u32 \<times> u32 \<times> u32 \<times> u32 \<times> u32"

definition sha_h0 :: sha_state where
  "sha_h0 =
    (0x6a09e667, 0xbb67ae85, 0x3c6ef372, 0xa54ff53a,
     0x510e527f, 0x9b05688c, 0x1f83d9ab, 0x5be0cd19)"

definition be_word :: "byte list \<Rightarrow> u32" where
  "be_word bs = foldl (\<lambda>w b. push_bit 8 w OR ucast b) 0 bs"

definition word_be :: "u32 \<Rightarrow> byte list" where
  "word_be w = [ucast (drop_bit 24 w), ucast (drop_bit 16 w), ucast (drop_bit 8 w), ucast w]"

fun be_words :: "nat \<Rightarrow> byte list \<Rightarrow> u32 list" where
  "be_words 0 bs = []"
| "be_words (Suc k) bs = be_word (take 4 bs) # be_words k (drop 4 bs)"

text \<open>The message schedule; the list holds the words so far, newest first.\<close>

fun sha_schedule :: "nat \<Rightarrow> u32 list \<Rightarrow> u32 list" where
  "sha_schedule 0 ws = rev ws"
| "sha_schedule (Suc k) ws =
    (let w15 = ws ! 14; w2 = ws ! 1;
         s0 = word_rotr 7 w15 XOR word_rotr 18 w15 XOR drop_bit 3 w15;
         s1 = word_rotr 17 w2 XOR word_rotr 19 w2 XOR drop_bit 10 w2
     in sha_schedule k ((ws ! 15 + s0 + ws ! 6 + s1) # ws))"

fun sha_round :: "u32 \<times> u32 \<Rightarrow> sha_state \<Rightarrow> sha_state" where
  "sha_round (k, w) (a, b, c, d, e, f, g, h) =
    (let s1 = word_rotr 6 e XOR word_rotr 11 e XOR word_rotr 25 e;
         ch = (e AND f) XOR (NOT e AND g);
         t1 = h + s1 + ch + k + w;
         s0 = word_rotr 2 a XOR word_rotr 13 a XOR word_rotr 22 a;
         maj = (a AND b) XOR (a AND c) XOR (b AND c)
     in (t1 + (s0 + maj), a, b, c, d + t1, e, f, g))"

fun sha_add :: "sha_state \<Rightarrow> sha_state \<Rightarrow> sha_state" where
  "sha_add (a, b, c, d, e, f, g, h) (a', b', c', d', e', f', g', h') =
    (a + a', b + b', c + c', d + d', e + e', f + f', g + g', h + h')"

fun sha_list :: "sha_state \<Rightarrow> u32 list" where
  "sha_list (a, b, c, d, e, f, g, h) = [a, b, c, d, e, f, g, h]"

definition sha_block :: "sha_state \<Rightarrow> byte list \<Rightarrow> sha_state" where
  "sha_block st block =
    sha_add st (fold sha_round (zip sha_k (sha_schedule 48 (rev (be_words 16 block)))) st)"

definition sha_pad :: "byte list \<Rightarrow> byte list" where
  "sha_pad m =
    (let n = length m; z = (119 - n mod 64) mod 64; bits = of_nat (8 * n) :: u64
     in m @ [0x80] @ replicate z 0 @ map (\<lambda>k. ucast (drop_bit (56 - 8 * k) bits)) [0..<8])"

fun sha_blocks :: "nat \<Rightarrow> sha_state \<Rightarrow> byte list \<Rightarrow> sha_state" where
  "sha_blocks 0 st bs = st"
| "sha_blocks (Suc k) st bs = sha_blocks k (sha_block st (take 64 bs)) (drop 64 bs)"

definition Sum256 :: "byte list \<Rightarrow> byte list" where
  "Sum256 m = (let p = sha_pad m in concat (map word_be (sha_list (sha_blocks (length p div 64) sha_h0 p))))"

lemma length_Sum256 [simp]: "length (Sum256 m) = 32"
proof -
  have "length (concat (map word_be (sha_list st))) = 32" for st
    by (induction st rule: sha_list.induct) (simp add: word_be_def)
  then show ?thesis by (simp only: Sum256_def Let_def)
qed

section \<open>The codec\<close>

definition base58Alphabet :: string where
  "base58Alphabet = ''123456789ABCDEFGHJKLMNPQRSTUVWXYZabcdefghijkmnopqrstuvwxyz''"

fun IndexRune :: "string \<Rightarrow> char \<Rightarrow> nat option" where
  "IndexRune [] c = None"
| "IndexRune (x # xs) c = (if x = c then Some 0 else map_option Suc (IndexRune xs c))"

text \<open>The digit loop of \<open>DecodeMainnetAddress\<close>.\<close>

fun base58_value :: "nat \<Rightarrow> string \<Rightarrow> nat option" where
  "base58_value v [] = Some v"
| "base58_value v (c # cs) =
    (case IndexRune base58Alphabet c of
       None \<Rightarrow> None
     | Some i \<Rightarrow> base58_value (v * 58 + i) cs)"

fun big_bytes :: "nat \<Rightarrow> byte list" where
  "big_bytes n = (if n = 0 then [] else big_bytes (n div 256) @ [of_nat (n mod 256)])"

declare big_bytes.simps [simp del]

definition DecodeMainnetAddress :: "string \<Rightarrow> go_error + byte list" where
  "DecodeMainnetAddress address =
    (let address = TrimSpace address
     in if length address \<noteq> 34 \<or> \<not> has_prefix address ''T'' then
          Inl (PlainErr ''TRON address must be a 34-character Base58Check string starting with T'')
        else
          (case base58_value 0 address of
             None \<Rightarrow> Inl (PlainErr ''TRON address contains invalid Base58 characters'')
           | Some value \<Rightarrow>
               let decoded = big_bytes value;
                   leadingZeros = length (takeWhile (\<lambda>c. c = CHR ''1'') address);
                   decoded = (if 0 < leadingZeros then replicate leadingZeros 0 @ decoded else decoded)
               in if length decoded \<noteq> 25 then
                    Inl (PlainErr ''TRON address has an invalid decoded length'')
                  else
                    let payload = take 21 decoded; checksum = drop 21 decoded;
                        first = Sum256 payload; second = Sum256 first
                    in if checksum \<noteq> take 4 second then
                         Inl (PlainErr ''TRON address checksum is invalid'')
                       else if payload ! 0 \<noteq> 0x41 then
                         Inl (PlainErr ''TRON address is not a mainnet address'')
                       else Inr payload))"

definition hex_digits :: string where "hex_digits = ''0123456789ABCDEF''"

definition bytesToUpperHex :: "byte list \<Rightarrow> string" where
  "bytesToUpperHex value =
    concat (map (\<lambda>b. [hex_digits ! unat (drop_bit 4 b), hex_digits ! unat (b AND 0x0f)]) value)"

definition string_bytes :: "string \<Rightarrow> byte list" where
  "string_bytes = map (\<lambda>c. of_nat (of_char c))"

definition lower_hex :: "byte list \<Rightarrow> string" where
  "lower_hex bs = ToLower (bytesToUpperHex bs)"

definition ABIAddressParameter :: "string \<Rightarrow> go_error + string" where
  "ABIAddressParameter address =
    (case DecodeMainnetAddress address of
       Inl err \<Rightarrow> Inl err
     | Inr payload \<Rightarrow> Inr (replicate 24 CHR ''0'' @ bytesToUpperHex (tl payload)))"

section \<open>Specification: Base58Check\<close>

definition bytes_value :: "byte list \<Rightarrow> nat" where
  "bytes_value bs = foldl (\<lambda>v b. v * 256 + unat b) 0 bs"

fun base58 :: "nat \<Rightarrow> nat \<Rightarrow> string" where
  "base58 0 n = []"
| "base58 (Suc k) n = base58 k (n div 58) @ [base58Alphabet ! (n mod 58)]"

definition EncodeAddress :: "byte list \<Rightarrow> string" where
  "EncodeAddress payload = base58 34 (bytes_value (payload @ take 4 (Sum256 (Sum256 payload))))"

definition mainnet_payload :: "byte list \<Rightarrow> bool" where
  "mainnet_payload p \<longleftrightarrow> length p = 21 \<and> p ! 0 = 0x41"

section \<open>Lemmas\<close>

lemma IndexRune_Some: "IndexRune xs c = Some i \<Longrightarrow> i < length xs \<and> xs ! i = c"
  by (induction xs arbitrary: i) (auto split: if_splits)

lemma IndexRune_nth: "distinct xs \<Longrightarrow> i < length xs \<Longrightarrow> IndexRune xs (xs ! i) = Some i"
proof (induction xs arbitrary: i)
  case (Cons x xs)
  then show ?case by (cases i) (auto simp: nth_mem)
qed simp

lemma alphabet [simp]: "distinct base58Alphabet" "length base58Alphabet = 58"
  by (simp_all add: base58Alphabet_def)

lemma base58_value_append:
  "base58_value v (xs @ [c]) =
    (case base58_value v xs of None \<Rightarrow> None
     | Some w \<Rightarrow> map_option (\<lambda>i. w * 58 + i) (IndexRune base58Alphabet c))"
  by (induction v xs rule: base58_value.induct) (auto split: option.splits)

lemma base58_decode: "n < 58 ^ k \<Longrightarrow> base58_value 0 (base58 k n) = Some n"
proof (induction k arbitrary: n)
  case (Suc k)
  have "n div 58 < 58 ^ k" using Suc.prems by (simp add: less_mult_imp_div_less mult.commute)
  moreover have "IndexRune base58Alphabet (base58Alphabet ! (n mod 58)) = Some (n mod 58)"
    by (rule IndexRune_nth) simp_all
  ultimately show ?case by (simp add: base58_value_append Suc.IH)
qed simp

lemma base58_encode: "base58_value 0 s = Some n \<Longrightarrow> n < 58 ^ length s \<and> base58 (length s) n = s"
proof (induction s arbitrary: n rule: rev_induct)
  case (snoc c s)
  then obtain w i where w: "base58_value 0 s = Some w" and i: "IndexRune base58Alphabet c = Some i"
    and n: "n = w * 58 + i"
    by (auto simp: base58_value_append split: option.splits)
  from IndexRune_Some [OF i] have "i < 58" "base58Alphabet ! i = c" by simp_all
  with snoc.IH [OF w] n show ?case by simp
qed simp

lemma length_base58 [simp]: "length (base58 k n) = k"
  by (induction k arbitrary: n) simp_all

lemma hd_base58: "base58 (Suc k) n = base58Alphabet ! (n div 58 ^ k mod 58) # tl (base58 (Suc k) n)"
proof (induction k arbitrary: n)
  case (Suc k)
  have "base58 (Suc (Suc k)) n = base58 (Suc k) (n div 58) @ [base58Alphabet ! (n mod 58)]" by simp
  also have "hd \<dots> = base58Alphabet ! (n div 58 div 58 ^ k mod 58)"
    by (subst Suc.IH) simp
  finally show ?case by (cases "base58 (Suc (Suc k)) n") (simp_all add: div_mult2_eq)
qed simp

lemma byte_bound: "unat (b :: byte) < 256"
  using unsigned_less [of b, where ?'a = nat] by simp

lemma bytes_value_append: "bytes_value (xs @ [b]) = bytes_value xs * 256 + unat b"
  by (simp add: bytes_value_def)

lemma bytes_value_big: "bytes_value (big_bytes n) = n"
proof (induction n rule: big_bytes.induct)
  case (1 n)
  then show ?case
    by (subst big_bytes.simps) (auto simp: bytes_value_append bytes_value_def unat_of_nat)
qed

lemma big_bytes_value: "bs = [] \<or> hd bs \<noteq> 0 \<Longrightarrow> big_bytes (bytes_value bs) = bs"
proof (induction bs rule: rev_induct)
  case Nil
  then show ?case by (simp add: bytes_value_def big_bytes.simps)
next
  case (snoc b bs)
  have b: "unat b < 256" by (rule byte_bound)
  show ?case
  proof (cases "bs = []")
    case True
    with snoc.prems b have "unat b \<noteq> 0" by (simp add: unat_eq_zero)
    with True b show ?thesis by (subst big_bytes.simps) (simp add: bytes_value_def big_bytes.simps)
  next
    case False
    with snoc have IH: "big_bytes (bytes_value bs) = bs" by simp
    with False have "bytes_value bs \<noteq> 0" using big_bytes.simps [of 0] by metis
    with b IH show ?thesis by (subst big_bytes.simps) (simp add: bytes_value_append)
  qed
qed

lemma bytes_value_bounds:
  "hd bs = b \<Longrightarrow> bs \<noteq> [] \<Longrightarrow>
    unat b * 256 ^ (length bs - 1) \<le> bytes_value bs \<and> bytes_value bs < Suc (unat b) * 256 ^ (length bs - 1)"
proof (induction bs rule: rev_induct)
  case (snoc x bs)
  have x: "unat x < 256" by (rule byte_bound)
  show ?case
  proof (cases bs)
    case Nil
    with snoc.prems x show ?thesis by (simp add: bytes_value_def)
  next
    case (Cons y ys)
    let ?p = "256 ^ length ys :: nat"
    have IH: "unat b * ?p \<le> bytes_value bs" "bytes_value bs < Suc (unat b) * ?p"
      using snoc Cons by simp_all
    from IH(2) have "bytes_value bs + 1 \<le> Suc (unat b) * ?p" by simp
    then have "(bytes_value bs + 1) * 256 \<le> Suc (unat b) * ?p * 256" by (rule mult_right_mono) simp
    moreover have "unat b * ?p * 256 \<le> bytes_value bs * 256" using IH(1) by simp
    ultimately show ?thesis using x bytes_value_append [of bs x] Cons by (simp add: algebra_simps)
  qed
qed simp

lemma first_letter:
  assumes "0x41 * 256 ^ 24 \<le> n" "n < 0x42 * 256 ^ 24"
  shows "n < 58 ^ 34" "\<exists>cs. base58 34 n = CHR ''T'' # cs"
proof -
  have "26 * 58 ^ 33 \<le> n" "n < 27 * 58 ^ 33" using assms by simp_all
  then have "n div 58 ^ 33 = 26" by (intro div_nat_eqI) simp_all
  then have "n div 58 ^ 33 mod 58 = 26" by (simp only:) simp
  then have "base58 (Suc 33) n = base58Alphabet ! 26 # tl (base58 (Suc 33) n)"
    by (subst hd_base58) (simp only:)
  then have "base58 34 n = CHR ''T'' # tl (base58 34 n)"
    by (simp add: base58Alphabet_def del: base58.simps)
  then show "\<exists>cs. base58 34 n = CHR ''T'' # cs" by blast
  show "n < 58 ^ 34" using \<open>n < 27 * 58 ^ 33\<close> by simp
qed

lemma check_value:
  assumes "mainnet_payload p"
  defines "d \<equiv> p @ take 4 (Sum256 (Sum256 p))"
  shows "length d = 25" "hd d = 0x41" "big_bytes (bytes_value d) = d"
    "0x41 * 256 ^ 24 \<le> bytes_value d" "bytes_value d < 0x42 * 256 ^ 24"
proof -
  from assms(1) have p: "length p = 21" "p ! 0 = 0x41" by (simp_all add: mainnet_payload_def)
  then have "p \<noteq> []" by auto
  with p show l: "length d = 25" and h: "hd d = 0x41" by (simp_all add: d_def hd_conv_nth nth_append)
  then have "d \<noteq> []" by auto
  with l bytes_value_bounds [OF h] show "0x41 * 256 ^ 24 \<le> bytes_value d"
    "bytes_value d < 0x42 * 256 ^ 24" by simp_all
  show "big_bytes (bytes_value d) = d" by (rule big_bytes_value) (simp add: h)
qed

lemma decode_encode:
  assumes "TrimSpace a = EncodeAddress p" and "mainnet_payload p"
  shows "DecodeMainnetAddress a = Inr p"
proof -
  define d where "d = p @ take 4 (Sum256 (Sum256 p))"
  note d = check_value [OF assms(2), folded d_def]
  note f = first_letter [OF d(4,5)]
  have a: "TrimSpace a = base58 34 (bytes_value d)" using assms(1) by (simp add: EncodeAddress_def d_def)
  then have v: "base58_value 0 (TrimSpace a) = Some (bytes_value d)" using base58_decode [OF f(1)] by simp
  from a f(2) have "length (TrimSpace a) = 34" and t: "has_prefix (TrimSpace a) ''T''"
    "takeWhile (\<lambda>c. c = CHR ''1'') (TrimSpace a) = []"
    by (auto simp: has_prefix_def simp del: base58.simps)
  moreover have "take 21 d = p" "drop 21 d = take 4 (Sum256 (Sum256 p))" "p ! 0 = 0x41"
    using assms(2) by (simp_all add: d_def mainnet_payload_def)
  ultimately show ?thesis using v d(1,3) by (simp add: DecodeMainnetAddress_def Let_def)
qed

lemma decode_sound:
  assumes "DecodeMainnetAddress a = Inr p"
  shows "mainnet_payload p \<and> TrimSpace a = EncodeAddress p"
proof -
  let ?a = "TrimSpace a"
  from assms have len: "length ?a = 34" and t: "has_prefix ?a ''T''"
    by (auto simp: DecodeMainnetAddress_def Let_def split: if_splits)
  from t have z: "takeWhile (\<lambda>c. c = CHR ''1'') ?a = []" by (cases ?a) (auto simp: has_prefix_def)
  from assms len t z obtain v where v: "base58_value 0 ?a = Some v"
    by (auto simp: DecodeMainnetAddress_def Let_def split: if_splits option.splits)
  with assms len t z have d: "length (big_bytes v) = 25" "p = take 21 (big_bytes v)"
    "drop 21 (big_bytes v) = take 4 (Sum256 (Sum256 p))" "p ! 0 = 0x41"
    by (auto simp: DecodeMainnetAddress_def Let_def split: if_splits)
  then have "big_bytes v = p @ take 4 (Sum256 (Sum256 p))" by (metis append_take_drop_id)
  moreover from base58_encode [OF v] len have "?a = base58 34 v" by simp
  ultimately have "?a = EncodeAddress p" using bytes_value_big [of v] by (simp add: EncodeAddress_def)
  with d show ?thesis by (simp add: mainnet_payload_def)
qed

text \<open>Upper-case hexadecimal text has two digits per byte and determines the bytes.\<close>

fun hex_decode :: "string \<Rightarrow> byte list" where
  "hex_decode (a # b # cs) =
    of_nat (16 * the (IndexRune hex_digits a) + the (IndexRune hex_digits b)) # hex_decode cs"
| "hex_decode _ = []"

lemma hex_digit_index: "i < 16 \<Longrightarrow> IndexRune hex_digits (hex_digits ! i) = Some i"
  by (rule IndexRune_nth) (simp_all add: hex_digits_def)

lemma hex_round_trip: "hex_decode (bytesToUpperHex bs) = bs"
proof (induction bs)
  case (Cons b bs)
  have hi: "unat (drop_bit 4 b) = unat b div 16"
    by (simp add: drop_bit_eq_div unat_div_distrib)
  have "b AND 0x0f = take_bit 4 b" by (simp add: take_bit_eq_mask mask_eq_exp_minus_1)
  then have lo: "unat (b AND 0x0f) = unat b mod 16"
    by (simp only: unsigned_take_bit_eq) (simp add: take_bit_eq_mod)
  have "unat b div 16 < 16" using byte_bound [of b] by (simp add: less_mult_imp_div_less)
  then have "hex_decode (bytesToUpperHex (b # bs)) = of_nat (16 * (unat b div 16) + unat b mod 16) # bs"
    using Cons by (simp add: bytesToUpperHex_def hi lo hex_digit_index)
  then show ?case by simp
qed (simp add: bytesToUpperHex_def)

lemma length_bytesToUpperHex: "length (bytesToUpperHex bs) = 2 * length bs"
  by (induction bs) (simp_all add: bytesToUpperHex_def)

section \<open>Properties\<close>

text \<open>C16: \<open>DecodeMainnetAddress\<close> accepts exactly the Base58Check encodings of mainnet payloads
  (21 bytes that start with 0x41), up to surrounding white space, and returns the payload.\<close>

theorem DecodeMainnetAddress_iff:
  "DecodeMainnetAddress a = Inr p \<longleftrightarrow> mainnet_payload p \<and> TrimSpace a = EncodeAddress p"
  using decode_encode decode_sound by blast

text \<open>Two accepted addresses have the same payload exactly when they are the same string up to
  surrounding white space: an account has one spelling.\<close>

theorem DecodeMainnetAddress_unique:
  assumes "DecodeMainnetAddress a = Inr p" and "DecodeMainnetAddress b = Inr q"
  shows "p = q \<longleftrightarrow> TrimSpace a = TrimSpace b"
proof
  assume "p = q"
  with decode_sound [OF assms(1)] decode_sound [OF assms(2)] show "TrimSpace a = TrimSpace b" by simp
next
  assume "TrimSpace a = TrimSpace b"
  with decode_sound [OF assms(1)] decode_encode [of b p] assms(2) show "p = q" by simp
qed

lemma EncodeAddress_plain:
  assumes "mainnet_payload p"
  shows "TrimSpace (EncodeAddress p) = EncodeAddress p"
proof -
  have "plain_char (base58Alphabet ! i)" if "i < 58" for i
  proof -
    have "list_all plain_char base58Alphabet" by (simp add: base58Alphabet_def plain_char_def)
    with that show ?thesis by (simp add: list_all_length)
  qed
  then have "\<forall>c \<in> set (base58 k n). plain_char c" for k n
    by (induction k arbitrary: n) auto
  then show ?thesis by (intro TrimSpace_plain) (simp add: EncodeAddress_def)
qed

theorem DecodeMainnetAddress_unique_witness:
  "\<exists>a p q. DecodeMainnetAddress a = Inr p \<and> DecodeMainnetAddress (CHR '' '' # a) = Inr q \<and> p = q"
proof -
  let ?p = "0x41 # replicate 20 7 :: byte list"
  let ?a = "EncodeAddress ?p"
  have p: "mainnet_payload ?p" by (simp add: mainnet_payload_def)
  have t: "TrimSpace (CHR '' '' # ?a) = TrimSpace ?a"
    by (simp add: TrimSpace_def trim_left_space.simps [of "CHR '' '' # ?a"])
  have a: "DecodeMainnetAddress ?a = Inr ?p" by (rule decode_encode [OF EncodeAddress_plain [OF p] p])
  have b: "DecodeMainnetAddress (CHR '' '' # ?a) = Inr ?p"
    by (rule decode_encode [OF _ p]) (simp add: t EncodeAddress_plain [OF p])
  with a DecodeMainnetAddress_unique [OF a b] show ?thesis by blast
qed

text \<open>The ABI argument of an accepted address is a 64-digit slot: 24 zeros and the 20 account
  bytes (the payload without its network prefix) in hexadecimal, from which the account can be read
  back.\<close>

theorem ABIAddressParameter_slot:
  assumes "ABIAddressParameter a = Inr s"
  shows "\<exists>p. DecodeMainnetAddress a = Inr p \<and> length s = 64 \<and> hex_decode s = replicate 12 0 @ tl p"
proof -
  from assms obtain p where p: "DecodeMainnetAddress a = Inr p"
    and s: "s = replicate 24 CHR ''0'' @ bytesToUpperHex (tl p)"
    by (auto simp: ABIAddressParameter_def split: sum.splits)
  have z: "bytesToUpperHex (replicate 12 0) = replicate 24 CHR ''0''"
    by (simp add: bytesToUpperHex_def hex_digits_def numeral_eq_Suc)
  have "s = bytesToUpperHex (replicate 12 0 @ tl p)"
    unfolding s z [symmetric] by (simp add: bytesToUpperHex_def)
  moreover have "length (tl p) = 20" using decode_sound [OF p] by (simp add: mainnet_payload_def)
  ultimately show ?thesis using p by (simp add: hex_round_trip length_bytesToUpperHex)
qed

theorem ABIAddressParameter_slot_witness:
  "\<exists>a s. ABIAddressParameter a = Inr s \<and> length s = 64 \<and> hex_decode s = replicate 12 0 @ replicate 20 7"
proof -
  let ?p = "0x41 # replicate 20 7 :: byte list"
  have p: "mainnet_payload ?p" by (simp add: mainnet_payload_def)
  have a: "DecodeMainnetAddress (EncodeAddress ?p) = Inr ?p"
    by (rule decode_encode [OF EncodeAddress_plain [OF p] p])
  then obtain s where s: "ABIAddressParameter (EncodeAddress ?p) = Inr s"
    by (simp add: ABIAddressParameter_def)
  from ABIAddressParameter_slot [OF s] a s show ?thesis by force
qed

end
