(* ===== verification/Admin_Limit.thy ===== *)
theory Admin_Limit
  imports Runtime_Config Sliding_Window Admin_Auth Tron_Address
begin

text \<open>
  The rate-limit interceptor of the admin service, \<open>admin/internal/middleware/rate_limit.go\<close>: every call but the health
  check loads the current snapshot once, and under an enabled limit asks the sliding-window limiter with a key made of
  the administrator and the method. The store is read from the world, so that the manager may publish between calls.
  The deadline of the Redis call only decides whether \<open>Eval\<close> fails; spans and log entries are left out.
\<close>

section \<open>Printing a duration\<close>

text \<open>\<open>Duration.Round\<close> and, for a rounded duration, \<open>Duration.String\<close>.\<close>

definition Duration_Round :: "time \<Rightarrow> time \<Rightarrow> time" where
  "Duration_Round d m =
    (if m \<le> 0 then d
     else
       let r = \<bar>d\<bar> mod m
       in if d < 0 then
            (if 2 * r < m then d + r else if - (2 ^ 63) \<le> d - m + r then d - m + r else - (2 ^ 63))
          else
            (if 2 * r < m then d - r else if d + m - r < 2 ^ 63 then d + m - r else 2 ^ 63 - 1))"

definition Duration_String :: "time \<Rightarrow> string" where
  "Duration_String d =
    (let u = nat \<bar>d\<bar>; secs = u div 1000000000; frac = itoa (u mod 1000000000);
         digits = rev (dropWhile (\<lambda>c. c = CHR ''0'') (rev (replicate (9 - length frac) (CHR ''0'') @ frac)));
         secondsPart = itoa (secs mod 60) @ (if u mod 1000000000 = 0 then [] else ''.'' @ digits) @ ''s'';
         minutes = secs div 60; hours = minutes div 60
     in (if d < 0 then ''-'' else []) @ (if 0 < hours then itoa hours @ ''h'' else [])
        @ (if 0 < minutes then itoa (minutes mod 60) @ ''m'' else []) @ secondsPart)"

lemma Duration_examples:
  "Duration_String (Duration_Round 980000000 second) = ''1s''"
  "Duration_String (Duration_Round 400000000 second) = ''0s''"
  "Duration_String (Duration_Round 3661499999999 second) = ''1h1m1s''"
proof -
  have "itoa 0 = ''0''" "itoa 1 = ''1''" by code_simp+
  then show "Duration_String (Duration_Round 980000000 second) = ''1s''"
    "Duration_String (Duration_Round 400000000 second) = ''0s''"
    "Duration_String (Duration_Round 3661499999999 second) = ''1h1m1s''"
    by (simp_all add: Duration_Round_def Duration_String_def second_def Let_def)
qed

section \<open>The interceptor\<close>

record 'w RateLimitInterceptor =
  li_limiter :: "'w RedisSlidingWindow"
  li_store :: "'w \<Rightarrow> Store option"

definition NewRateLimitInterceptor :: "'w RedisSlidingWindow option \<Rightarrow> bool \<Rightarrow> ('w \<Rightarrow> Store option) option
    \<Rightarrow> go_error + 'w RateLimitInterceptor" where
  "NewRateLimitInterceptor limiter logger store =
    (case limiter of
       None \<Rightarrow> Inl (PlainErr ''rate-limit limiter is nil'')
     | Some l \<Rightarrow>
         (case store of
            None \<Rightarrow> Inl (PlainErr ''rate-limit store is nil'')
          | Some s \<Rightarrow>
              if \<not> logger then Inl (PlainErr ''rate-limit logger is nil'') else Inr \<lparr>li_limiter = l, li_store = s\<rparr>))"

definition makeKey :: "string \<Rightarrow> string \<Rightarrow> string \<Rightarrow> string \<Rightarrow> string" where
  "makeKey keyPrefix dimension identity fullMethod =
    (let sum = Sum256 (string_bytes (identity @ ''|'' @ fullMethod))
     in keyPrefix @ '':'' @ dimension @ '':'' @ lower_hex (take 16 sum))"

definition ruleAndKey :: "admin_ctx \<Rightarrow> string \<Rightarrow> RateLimitSnapshot \<Rightarrow> go_error + string \<times> Rule" where
  "ruleAndKey ctx fullMethod cfg =
    (case admin_FromContext ctx of
       None \<Rightarrow> Inl (StatusErr Codes_Unauthenticated ''authenticated admin identity is missing'')
     | Some authInfo \<Rightarrow>
         if TrimSpace (ai_AdminID authInfo) = []
         then Inl (StatusErr Codes_Unauthenticated ''authenticated admin identity is missing'')
         else Inr (makeKey (rs_KeyPrefix cfg) ''admin'' (ai_AdminID authInfo) fullMethod, rs_Default cfg))"

definition limit_check :: "'w RateLimitInterceptor \<Rightarrow> string \<Rightarrow> Rule \<Rightarrow> 'w \<Rightarrow> (go_error + RateResult) \<times> 'w" where
  "limit_check I key rule = Allow (li_limiter I) key (ru_Limit rule) (ru_Window rule)"

text \<open>What \<open>Unary\<close> and \<open>Stream\<close> do before they run the handler, but for the text of a refusal.\<close>

definition limit_decide :: "'w RateLimitInterceptor \<Rightarrow> string \<Rightarrow> string \<Rightarrow> admin_ctx \<Rightarrow> 'w \<Rightarrow> go_error option \<times> 'w" where
  "limit_decide I refusal fullMethod ctx w =
    (if fullMethod = ''/grpc.health.v1.Health/Check'' then (None, w)
     else
       (case Store_Load (li_store I w) of
          None \<Rightarrow> (Some (StatusErr Codes_Unavailable ''rate-limit snapshot is nil''), w)
        | Some snapshot \<Rightarrow>
            if \<not> rs_Enabled (sn_RetLimit snapshot) then (None, w)
            else
              (case ruleAndKey ctx fullMethod (sn_RetLimit snapshot) of
                 Inl err \<Rightarrow> (Some err, w)
               | Inr (key, rule) \<Rightarrow>
                   (case limit_check I key rule w of
                      (Inl err, w) \<Rightarrow> (Some (StatusErr Codes_Unavailable ''rate-limit Redis operation failed''), w)
                    | (Inr result, w) \<Rightarrow>
                        if \<not> rr_Allowed result
                        then (Some (StatusErr Codes_ResourceExhausted
                               (refusal @ Duration_String (Duration_Round (rr_RetryAfter result) second))), w)
                        else (None, w)))))"

definition limit_Unary :: "'w RateLimitInterceptor \<Rightarrow> string \<Rightarrow> (admin_ctx \<Rightarrow> 'req \<Rightarrow> ('w, 'resp) go)
    \<Rightarrow> admin_ctx \<Rightarrow> 'req \<Rightarrow> ('w, 'resp) go" where
  "limit_Unary I fullMethod handler ctx req w =
    (case limit_decide I ''too many requests; retry after '' fullMethod ctx w of
       (Some err, w) \<Rightarrow> Returned (Inl err, w)
     | (None, w) \<Rightarrow> handler ctx req w)"

definition limit_Stream :: "'w RateLimitInterceptor \<Rightarrow> string \<Rightarrow> (admin_ctx \<Rightarrow> ('w, unit) go) \<Rightarrow> admin_ctx \<Rightarrow> ('w, unit) go" where
  "limit_Stream I fullMethod handler ctx w =
    (case limit_decide I ''too many stream requests; retry after '' fullMethod ctx w of
       (Some err, w) \<Rightarrow> Returned (Inl err, w)
     | (None, w) \<Rightarrow> handler ctx w)"

section \<open>The calls of an administrator to a method\<close>

text \<open>
  What the interceptor does with a handler is what it does with one that only says that it ran: the handler runs exactly
  where that one does, in the same world, and otherwise the refusal is the answer.
\<close>

definition ran :: "admin_ctx \<Rightarrow> unit \<Rightarrow> ('w, unit) go" where
  "ran ctx req w = Returned (Inr (), w)"

lemma limit_Unary_runs:
  "limit_Unary I m handler ctx req w = (case limit_Unary I m ran ctx () w of
     Returned (Inr _, w) \<Rightarrow> handler ctx req w | Returned (Inl e, w) \<Rightarrow> Returned (Inl e, w) | Panicked \<Rightarrow> Panicked)"
  by (simp add: limit_Unary_def ran_def split: prod.splits option.splits)

text \<open>
  Any number of unary or streaming calls while an enabled snapshot is published, in the order in which Redis runs their
  scripts, latest first: the reading of the clock, and whether the interceptor ran the handler. As in \<open>limiter_run\<close> a
  reading is at most \<open>lag\<close> milliseconds old when its script runs. Between two scripts, and while handlers run, anything
  may happen that keeps the entries of the last window.
\<close>

inductive method_run :: "'w RateLimitInterceptor \<Rightarrow> ('w \<Rightarrow> string \<Rightarrow> string \<rightharpoonup> int) \<Rightarrow> RateLimitSnapshot \<Rightarrow> AuthInfo \<Rightarrow> string \<Rightarrow> int
    \<Rightarrow> 'w \<Rightarrow> int \<Rightarrow> (int \<times> bool) list \<Rightarrow> 'w \<Rightarrow> bool" for I zs cfg admin fullMethod lag w0 where
  start: "method_run I zs cfg admin fullMethod lag w0 time [] w0"
| call: "method_run I zs cfg admin fullMethod lag w0 before (trace :: (int \<times> bool) list) w \<Longrightarrow> before \<le> time
    \<Longrightarrow> idle zs (makeKey (rs_KeyPrefix cfg) ''admin'' (ai_AdminID admin) fullMethod) (ru_Window (rs_Default cfg) div 1000000) time w w1
    \<Longrightarrow> Store_Load (li_store I w1) = Some sn \<Longrightarrow> sn_RetLimit sn = cfg \<Longrightarrow> admin_FromContext ctx = Some admin
    \<Longrightarrow> fst (rl_UnixMilli (li_limiter I) w1) = now \<Longrightarrow> now \<le> time \<Longrightarrow> time - lag \<le> now
    \<Longrightarrow> limit_Unary I fullMethod ran ctx () w1 = Returned (res, w2) \<or> limit_Stream I fullMethod (\<lambda>ctx. ran ctx ()) ctx w1 = Returned (res, w2)
    \<Longrightarrow> method_run I zs cfg admin fullMethod lag w0 time ((now, res = Inr ()) # trace) w2"

lemma limit_decide_enabled:
  assumes "Store_Load (li_store I w) = Some sn" "rs_Enabled (sn_RetLimit sn)" "fullMethod \<noteq> ''/grpc.health.v1.Health/Check''"
    and "admin_FromContext ctx = Some admin" "TrimSpace (ai_AdminID admin) \<noteq> []"
    and run: "limit_decide I refusal fullMethod ctx w = (e, w')"
  obtains res where "Allow (li_limiter I) (makeKey (rs_KeyPrefix (sn_RetLimit sn)) ''admin'' (ai_AdminID admin) fullMethod)
      (ru_Limit (rs_Default (sn_RetLimit sn))) (ru_Window (rs_Default (sn_RetLimit sn))) w = (res, w')"
    "e = None \<longleftrightarrow> (case res of Inr r \<Rightarrow> rr_Allowed r | Inl _ \<Rightarrow> False)"
  using assms by (auto simp: limit_decide_def ruleAndKey_def limit_check_def split: prod.splits sum.splits if_splits)

lemma limit_call:
  assumes "limit_Unary I m ran ctx () w = Returned (res, w') \<or> limit_Stream I m (\<lambda>ctx. ran ctx ()) ctx w = Returned (res, w')"
  obtains refusal e where "limit_decide I refusal m ctx w = (e, w')" "res = Inr () \<longleftrightarrow> e = None"
  using assms unfolding limit_Unary_def limit_Stream_def ran_def by (fastforce split: prod.splits option.splits)

lemma method_run_limiter:
  assumes "method_run I zs cfg admin m lag w0 time trace w" and "rs_Enabled cfg" "m \<noteq> ''/grpc.health.v1.Health/Check''"
    "TrimSpace (ai_AdminID admin) \<noteq> []"
  shows "limiter_run (li_limiter I) zs (makeKey (rs_KeyPrefix cfg) ''admin'' (ai_AdminID admin) m) (ru_Limit (rs_Default cfg))
    (ru_Window (rs_Default cfg)) lag w0 time trace w"
  using assms(1)
proof induction
  case (start time)
  show ?case by (rule limiter_run.start)
next
  case (call before trace w time w1 sn ctx now res w2)
  obtain refusal e where e: "limit_decide I refusal m ctx w1 = (e, w2)" "res = Inr () \<longleftrightarrow> e = None"
    by (rule limit_call [OF call.hyps(10)])
  have "rs_Enabled (sn_RetLimit sn)" using call.hyps(5) assms(2) by simp
  from limit_decide_enabled [OF call.hyps(4) this assms(3) call.hyps(6) assms(4) e(1)] call.hyps(5)
  obtain a where "Allow (li_limiter I) (makeKey (rs_KeyPrefix cfg) ''admin'' (ai_AdminID admin) m) (ru_Limit (rs_Default cfg))
      (ru_Window (rs_Default cfg)) w1 = (a, w2)" "(e = None) = (case a of Inr r \<Rightarrow> rr_Allowed r | Inl _ \<Rightarrow> False)" by metis
  with limiter_run.call [OF call.IH call.hyps(2,3,7,8,9)] e(2) show ?case by simp
qed

lemma limit_decide_status: "limit_decide I refusal m ctx w = (Some e, w') \<Longrightarrow> is_status_err e"
  by (auto simp: limit_decide_def ruleAndKey_def split: if_splits option.splits sum.splits prod.splits)


section \<open>A concrete interceptor\<close>

definition demo_limit :: RateLimitSnapshot where
  "demo_limit = \<lparr>rs_Enabled = True, rs_RedisTimeout = 300000000, rs_KeyPrefix = ''admin'',
     rs_Default = \<lparr>ru_Limit = 1, ru_Window = 1000000000\<rparr>\<rparr>"

definition demo_interceptor :: "zworld RateLimitInterceptor" where
  "demo_interceptor = \<lparr>li_limiter = limiter_demo,
     li_store = (\<lambda>w. Some \<lparr>st_current = Some \<lparr>sn_Version = 1, sn_RetLimit = demo_limit\<rparr>\<rparr>)\<rparr>"

definition demo_admin :: AuthInfo where
  "demo_admin = \<lparr>ai_AdminID = ''id'', ai_Username = ''root'', ai_Role = ''admin'', ai_SessionID = [], ai_TokenID = ''t''\<rparr>"

lemma demo_key_calls:
  assumes "k \<noteq> []"
  shows "Allow limiter_demo k 1 1000000000 ([], 0)
     = (Inr \<lparr>rr_Allowed = True, rr_Limit = 1, rr_Remaining = 0, rr_RetryAfter = 0\<rparr>, ([((k, ''a''), 0)], 10))"
   "Allow limiter_demo k 1 1000000000 ([((k, ''a''), 0)], 10)
     = (Inr \<lparr>rr_Allowed = False, rr_Limit = 1, rr_Remaining = 0, rr_RetryAfter = 990000000\<rparr>, ([((k, ''a''), 0)], 20))"
  using assms
  by (simp_all add: Allow_def limiter_demo_def zdemo_def slidingWindowScript_def rate_result_def go_int_id Let_def)

lemma demo_method_run:
  "\<exists>w. method_run demo_interceptor zview demo_limit demo_admin ''/s/m'' 0 ([], 0) 10 [(10, False), (0, True)] w"
proof -
  let ?k = "makeKey ''admin'' ''admin'' ''id'' ''/s/m''" and ?ctx = "\<lparr>sc_metadata = None, sc_identity = Some demo_admin\<rparr>"
  have k: "?k \<noteq> []" by (simp add: makeKey_def Let_def)
  have id: "TrimSpace ''id'' = ''id''" by (rule TrimSpace_plain) (simp add: plain_char_def)
  have decide: "limit_decide demo_interceptor t ''/s/m'' ?ctx w
      = (case Allow limiter_demo ?k 1 1000000000 w of
           (Inl err, w) \<Rightarrow> (Some (StatusErr Codes_Unavailable ''rate-limit Redis operation failed''), w)
         | (Inr result, w) \<Rightarrow> if \<not> rr_Allowed result
             then (Some (StatusErr Codes_ResourceExhausted (t @ Duration_String (Duration_Round (rr_RetryAfter result) second))), w)
             else (None, w))" for t w
    by (simp add: limit_decide_def demo_interceptor_def Store_Load_def demo_limit_def ruleAndKey_def admin_FromContext_def
        demo_admin_def id limit_check_def)
  have clock: "fst (rl_UnixMilli (li_limiter demo_interceptor) (xs, t)) = t" for xs t
    by (simp add: demo_interceptor_def limiter_demo_def)
  have load: "Store_Load (li_store demo_interceptor w) = Some \<lparr>sn_Version = 1, sn_RetLimit = demo_limit\<rparr>" for w
    by (simp add: demo_interceptor_def Store_Load_def)
  let ?run = "method_run demo_interceptor zview demo_limit demo_admin ''/s/m'' 0 ([], 0)"
  note call = method_run.call [where I = demo_interceptor and zs = zview and cfg = demo_limit and admin = demo_admin
      and fullMethod = "''/s/m''" and lag = 0 and ctx = ?ctx and ?w0.0 = "([], 0)"]
  have id': "admin_FromContext ?ctx = Some demo_admin" by (simp add: admin_FromContext_def)
  have one: "limit_Unary demo_interceptor ''/s/m'' ran ?ctx () ([], 0) = Returned (Inr (), ([((?k, ''a''), 0)], 10))"
    by (simp add: limit_Unary_def ran_def decide demo_key_calls(1) [OF k])
  have "?run 0 [(0, True)] ([((?k, ''a''), 0)], 10)"
    by (rule call [where before = 0 and time = 0 and now = 0 and res = "Inr ()", simplified, OF method_run.start idle_refl load _ id' clock one [THEN disjI1]])
      simp
  moreover have two: "limit_Stream demo_interceptor ''/s/m'' (\<lambda>ctx. ran ctx ()) ?ctx ([((?k, ''a''), 0)], 10)
      = Returned (Inl (StatusErr Codes_ResourceExhausted (''too many stream requests; retry after ''
          @ Duration_String (Duration_Round 990000000 second))), ([((?k, ''a''), 0)], 20))"
    by (simp add: limit_Stream_def decide demo_key_calls(2) [OF k])
  ultimately have "?run 10 [(10, False), (0, True)] ([((?k, ''a''), 0)], 20)"
    using call [OF _ _ idle_refl load _ id' clock _ _ disjI2 [OF two], where before = 0 and time = 10] by simp
  then show ?thesis by blast
qed


end
