(* ===== verification/Client_Manager.thy ===== *)
theory Client_Manager
  imports App_Error "HOL-Library.AList"
begin

text \<open>
  The manager of the gRPC connections that a service shares, \<open>gateway/internal/grpc/client.go\<close>, with the same file of the
  user service (\<open>user/internal/grpc/client.go\<close>), which differs in how a finished creation is stored. Goroutines run
  \<open>GetClient\<close> and \<open>Close\<close> together: a call is a phase that a step advances from one critical section to the next, and a
  run is a sequence of steps of any calls. A step is given what it observes: the state of its context, the case that a
  \<open>select\<close> takes, and the answers of the file system, the TLS library and \<open>grpc.NewClient\<close>. Connections are handles, of
  which the open ones are recorded.
\<close>

section \<open>Creating a connection\<close>

record GrpcConfig =
  gf_UseTLS :: bool
  gf_InsecureSkipVerify :: bool
  gf_CertFile :: string
  gf_KeyFile :: string
  gf_CaFile :: string
  gf_ServerName :: string

record tls_config =
  tl_ServerName :: string
  tl_InsecureSkipVerify :: bool
  tl_Certificate :: "string option"
  tl_RootCAs :: "string option"

datatype creds = Insecure | TLS tls_config

text \<open>What a call observes. \<open>ob_AppendCertsFromPEM\<close> says whether a text holds a certificate.\<close>

record observed =
  ob_ctx_Err :: "sentinel option"
  ob_take_done :: bool
  ob_LoadX509KeyPair :: "string \<Rightarrow> string \<Rightarrow> go_error + string"
  ob_ReadFile :: "string \<Rightarrow> go_error + string"
  ob_AppendCertsFromPEM :: "string \<Rightarrow> bool"
  ob_NewClient :: "string \<Rightarrow> creds \<Rightarrow> go_error option"

definition loadCertPool :: "observed \<Rightarrow> string \<Rightarrow> go_error + string" where
  "loadCertPool ob path =
    (case ob_ReadFile ob path of
       Inl err \<Rightarrow> Inl (WrapErr (''read CA certificate '' @ go_quote path @ '': '') err)
     | Inr pem \<Rightarrow>
         if \<not> ob_AppendCertsFromPEM ob pem
         then Inl (InvalidArgument ''CA certificate does not contain a valid PEM certificate'') else Inr pem)"

definition createTransportCredentials :: "observed \<Rightarrow> GrpcConfig option \<Rightarrow> go_error + creds" where
  "createTransportCredentials ob config =
    (case config of
       None \<Rightarrow> Inr Insecure
     | Some cfg \<Rightarrow>
         if \<not> gf_UseTLS cfg then Inr Insecure
         else
           let hasCert = (TrimSpace (gf_CertFile cfg) \<noteq> []); hasKey = (TrimSpace (gf_KeyFile cfg) \<noteq> [])
           in if hasCert \<noteq> hasKey
              then Inl (InvalidArgument ''client certificate and private key must be configured together'')
              else
                (case (if hasCert then map_sum id Some (ob_LoadX509KeyPair ob (gf_CertFile cfg) (gf_KeyFile cfg)) else Inr None) of
                   Inl err \<Rightarrow> Inl (WrapErr ''load client certificate: '' err)
                 | Inr cert \<Rightarrow>
                     (case (if TrimSpace (gf_CaFile cfg) \<noteq> [] then map_sum id Some (loadCertPool ob (gf_CaFile cfg)) else Inr None) of
                        Inl err \<Rightarrow> Inl err
                      | Inr roots \<Rightarrow>
                          Inr (TLS \<lparr>tl_ServerName = TrimSpace (gf_ServerName cfg),
                            tl_InsecureSkipVerify = gf_InsecureSkipVerify cfg, tl_Certificate = cert, tl_RootCAs = roots\<rparr>))))"

definition newClient :: "observed \<Rightarrow> GrpcConfig option \<Rightarrow> string \<Rightarrow> go_error + unit" where
  "newClient ob config serviceName =
    (case createTransportCredentials ob config of
       Inl err \<Rightarrow> Inl err
     | Inr creds \<Rightarrow>
         (case ob_NewClient ob (''consul:///'' @ serviceName @ ''-grpc'') creds of
            Some err \<Rightarrow> Inl (WrapErr (''create gRPC client for '' @ go_quote serviceName @ '': '') err)
          | None \<Rightarrow> Inr ()))"

section \<open>The manager\<close>

type_synonym handle = nat

text \<open>\<open>gm_done\<close> are the pending connections whose channel is closed; \<open>gm_open\<close> and \<open>gm_next\<close> belong to the library.\<close>

record ClientManager =
  gm_registry :: bool
  gm_config :: "GrpcConfig option"
  gm_conns :: "(string \<times> handle option) list"
  gm_pending :: "string \<rightharpoonup> nat"
  gm_closed :: bool
  gm_next_pending :: nat
  gm_done :: "nat \<rightharpoonup> handle option \<times> go_error option"
  gm_open :: "handle list"
  gm_next :: handle

definition NewClientManager :: "bool \<Rightarrow> GrpcConfig option \<Rightarrow> ClientManager" where
  "NewClientManager registry config =
    (let cfg = (case config of None \<Rightarrow> \<lparr>gf_UseTLS = False, gf_InsecureSkipVerify = False, gf_CertFile = [], gf_KeyFile = [],
           gf_CaFile = [], gf_ServerName = []\<rparr> | Some c \<Rightarrow> c)
     in \<lparr>gm_registry = registry, gm_config = Some cfg, gm_conns = [], gm_pending = Map.empty, gm_closed = False,
         gm_next_pending = 0, gm_done = Map.empty, gm_open = [], gm_next = 0\<rparr>)"

text \<open>A call of \<open>GetClient\<close> between its critical sections; \<open>Got\<close> is the pair it returns.\<close>

datatype phase =
    Fast string
  | Slow string
  | Waiting string nat
  | Dialing string nat
  | Dialed string nat "handle option" "go_error option"
  | Got string "handle option" "go_error option"
  | Crashed

definition to_grpc :: "string \<Rightarrow> go_error \<Rightarrow> phase" where
  "to_grpc name err = (case ToGRPC (Some err) of Panicked \<Rightarrow> Crashed | Returned e \<Rightarrow> Got name None e)"

definition GetClient :: "ClientManager \<Rightarrow> bool \<Rightarrow> string \<Rightarrow> phase" where
  "GetClient cm has_ctx serviceName =
    (if \<not> has_ctx then to_grpc serviceName (InvalidArgument ''context is nil'')
     else
       let serviceName = TrimSpace serviceName
       in if serviceName = [] then to_grpc serviceName (InvalidArgument ''service name is empty'')
          else if \<not> gm_registry cm then to_grpc serviceName (Unavailable ''service registry is unavailable'')
          else Fast serviceName)"

definition cached_conn :: "ClientManager \<Rightarrow> string \<Rightarrow> handle option" where
  "cached_conn cm name = (case map_of (gm_conns cm) name of Some conn \<Rightarrow> conn | None \<Rightarrow> None)"

text \<open>The last critical section of a creation, here and in the user service.\<close>

definition finish_dial :: "string \<Rightarrow> handle option \<Rightarrow> go_error option \<Rightarrow> ClientManager
    \<Rightarrow> (handle option \<times> go_error option) \<times> ClientManager" where
  "finish_dial name conn err cm =
    (case (gm_closed cm, conn) of
       (True, Some c) \<Rightarrow>
         ((None, Some (StatusErr Codes_Unavailable ''gRPC client manager is closed'')), cm\<lparr>gm_open := removeAll c (gm_open cm)\<rparr>)
     | _ \<Rightarrow>
         if err = None then ((conn, err), cm\<lparr>gm_conns := AList.update name conn (gm_conns cm)\<rparr>) else ((conn, err), cm))"

definition user_finish_dial :: "string \<Rightarrow> handle option \<Rightarrow> go_error option \<Rightarrow> ClientManager
    \<Rightarrow> (handle option \<times> go_error option) \<times> ClientManager" where
  "user_finish_dial name conn err cm =
    (case (gm_closed cm, conn) of
       (True, Some c) \<Rightarrow>
         ((None, Some (StatusErr Codes_Unavailable ''gRPC client manager is closed'')), cm\<lparr>gm_open := removeAll c (gm_open cm)\<rparr>)
     | _ \<Rightarrow> ((conn, err), cm\<lparr>gm_conns := AList.update name conn (gm_conns cm)\<rparr>))"

text \<open>A step of a call.\<close>

definition get_step :: "(string \<Rightarrow> handle option \<Rightarrow> go_error option \<Rightarrow> ClientManager \<Rightarrow> (handle option \<times> go_error option) \<times> ClientManager)
    \<Rightarrow> observed \<Rightarrow> phase \<Rightarrow> ClientManager \<Rightarrow> phase \<times> ClientManager" where
  "get_step finish ob p cm =
    (case p of
       Fast name \<Rightarrow>
         if gm_closed cm then (to_grpc name (Unavailable ''gRPC client manager is closed''), cm)
         else (case cached_conn cm name of Some c \<Rightarrow> (Got name (Some c) None, cm) | None \<Rightarrow> (Slow name, cm))
     | Slow name \<Rightarrow>
         if gm_closed cm then (to_grpc name (Unavailable ''gRPC client manager is closed''), cm)
         else
           (case cached_conn cm name of
              Some c \<Rightarrow> (Got name (Some c) None, cm)
            | None \<Rightarrow>
                (case gm_pending cm name of
                   Some pid \<Rightarrow> (Waiting name pid, cm)
                 | None \<Rightarrow>
                     let pid = gm_next_pending cm
                     in (Dialing name pid, cm\<lparr>gm_pending := (gm_pending cm)(name \<mapsto> pid), gm_next_pending := Suc pid\<rparr>)))
     | Waiting name pid \<Rightarrow>
         (case (gm_done cm pid, ob_ctx_Err ob) of
            (Some (conn, err), None) \<Rightarrow> (Got name conn err, cm)
          | (Some (conn, err), Some e) \<Rightarrow> if ob_take_done ob then (Got name conn err, cm) else (to_grpc name (Sentinel e), cm)
          | (None, Some e) \<Rightarrow> (to_grpc name (Sentinel e), cm)
          | (None, None) \<Rightarrow> (Waiting name pid, cm))
     | Dialing name pid \<Rightarrow>
         (case newClient ob (gm_config cm) name of
            Inl err \<Rightarrow> (case ToGRPC (Some err) of Panicked \<Rightarrow> (Crashed, cm) | Returned e \<Rightarrow> (Dialed name pid None e, cm))
          | Inr _ \<Rightarrow> (Dialed name pid (Some (gm_next cm)) None,
              cm\<lparr>gm_open := gm_next cm # gm_open cm, gm_next := Suc (gm_next cm)\<rparr>))
     | Dialed name pid conn err \<Rightarrow>
         (case finish name conn err (cm\<lparr>gm_pending := (gm_pending cm)(name := None)\<rparr>) of
            ((conn, err), cm) \<Rightarrow> (Got name conn err, cm\<lparr>gm_done := (gm_done cm)(pid \<mapsto> (conn, err))\<rparr>))
     | Got _ _ _ \<Rightarrow> (p, cm)
     | Crashed \<Rightarrow> (p, cm))"

text \<open>A call of \<open>Close\<close>: it takes the connections out under the lock and closes them afterwards, in the order that Go
  visits the map in. \<open>conn.Close\<close> of a nil connection dereferences it.\<close>

datatype close_phase = Closing_lock | Closing "handle option list" | Close_done | Close_crashed

definition close_step :: "nat \<Rightarrow> close_phase \<Rightarrow> ClientManager \<Rightarrow> close_phase \<times> ClientManager" where
  "close_step i p cm =
    (case p of
       Closing_lock \<Rightarrow>
         if gm_closed cm then (Close_done, cm)
         else (Closing (map snd (gm_conns cm)), cm\<lparr>gm_closed := True, gm_conns := []\<rparr>)
     | Closing conns \<Rightarrow>
         if conns = [] then (Close_done, cm)
         else
           let i = i mod length conns
           in (case conns ! i of
                 None \<Rightarrow> (Close_crashed, cm)
               | Some c \<Rightarrow> (Closing (take i conns @ drop (Suc i) conns), cm\<lparr>gm_open := removeAll c (gm_open cm)\<rparr>))
     | Close_done \<Rightarrow> (p, cm)
     | Close_crashed \<Rightarrow> (p, cm))"

section \<open>Runs\<close>

record manager_state =
  ms_manager :: ClientManager
  ms_gets :: "phase list"
  ms_closes :: "close_phase list"

datatype event = Call bool string | Call_Close | Step nat observed | Close_step nat nat

definition manager_step :: "(string \<Rightarrow> handle option \<Rightarrow> go_error option \<Rightarrow> ClientManager \<Rightarrow> (handle option \<times> go_error option) \<times> ClientManager)
    \<Rightarrow> event \<Rightarrow> manager_state \<Rightarrow> manager_state" where
  "manager_step finish e st =
    (case e of
       Call has_ctx name \<Rightarrow> st\<lparr>ms_gets := ms_gets st @ [GetClient (ms_manager st) has_ctx name]\<rparr>
     | Call_Close \<Rightarrow> st\<lparr>ms_closes := ms_closes st @ [Closing_lock]\<rparr>
     | Step t ob \<Rightarrow>
         if t < length (ms_gets st) then
           (case get_step finish ob (ms_gets st ! t) (ms_manager st) of
              (p, cm) \<Rightarrow> st\<lparr>ms_gets := (ms_gets st)[t := p], ms_manager := cm\<rparr>)
         else st
     | Close_step t i \<Rightarrow>
         if t < length (ms_closes st) then
           (case close_step i (ms_closes st ! t) (ms_manager st) of
              (p, cm) \<Rightarrow> st\<lparr>ms_closes := (ms_closes st)[t := p], ms_manager := cm\<rparr>)
         else st)"

definition manager_run :: "(string \<Rightarrow> handle option \<Rightarrow> go_error option \<Rightarrow> ClientManager \<Rightarrow> (handle option \<times> go_error option) \<times> ClientManager)
    \<Rightarrow> bool \<Rightarrow> GrpcConfig option \<Rightarrow> event list \<Rightarrow> manager_state" where
  "manager_run finish registry config es =
    fold (manager_step finish) es \<lparr>ms_manager = NewClientManager registry config, ms_gets = [], ms_closes = []\<rparr>"

section \<open>The invariant\<close>

text \<open>Errors of the libraries hold no nil \<open>*Error\<close>.\<close>

definition observed_ok :: "observed \<Rightarrow> bool" where
  "observed_ok ob \<longleftrightarrow>
     (\<forall>a b e. ob_LoadX509KeyPair ob a b = Inl e \<longrightarrow> errors_As_app e \<noteq> Some None)
   \<and> (\<forall>a e. ob_ReadFile ob a = Inl e \<longrightarrow> errors_As_app e \<noteq> Some None)
   \<and> (\<forall>a b e. ob_NewClient ob a b = Some e \<longrightarrow> errors_As_app e \<noteq> Some None)"

fun event_ok :: "event \<Rightarrow> bool" where
  "event_ok (Step t ob) = observed_ok ob"
| "event_ok _ = True"

fun busy_at :: "string \<Rightarrow> nat \<Rightarrow> phase \<Rightarrow> nat" where
  "busy_at n pid (Dialing m q) = (if m = n \<and> q = pid then 1 else 0)"
| "busy_at n pid (Dialed m q c e) = (if m = n \<and> q = pid then 1 else 0)"
| "busy_at n pid _ = 0"

fun holds_at :: "handle \<Rightarrow> phase \<Rightarrow> nat" where
  "holds_at c (Dialed m q (Some c') e) = (if c' = c then 1 else 0)"
| "holds_at c _ = 0"

fun closing_at :: "handle \<Rightarrow> close_phase \<Rightarrow> nat" where
  "closing_at c (Closing l) = count_list l (Some c)"
| "closing_at c _ = 0"

text \<open>An answer for a service, given the connection that the service was granted.\<close>

definition fair :: "(string \<rightharpoonup> handle) \<Rightarrow> string \<Rightarrow> handle option \<times> go_error option \<Rightarrow> bool" where
  "fair g n r \<longleftrightarrow> (fst r = None \<longleftrightarrow> snd r \<noteq> None) \<and> (\<forall>c. fst r = Some c \<longrightarrow> g n = Some c)"

definition pending_inv :: "ClientManager \<Rightarrow> phase list \<Rightarrow> bool" where
  "pending_inv cm ps \<longleftrightarrow>
     (\<forall>n pid. sum_list (map (busy_at n pid) ps) = (if gm_pending cm n = Some pid then 1 else 0))
   \<and> (\<forall>n pid. gm_pending cm n = Some pid \<longrightarrow> pid < gm_next_pending cm \<and> gm_done cm pid = None)
   \<and> (\<forall>pid. gm_done cm pid \<noteq> None \<longrightarrow> pid < gm_next_pending cm)
   \<and> (\<forall>n m pid. gm_pending cm n = Some pid \<longrightarrow> gm_pending cm m = Some pid \<longrightarrow> n = m)
   \<and> (\<forall>n pid. Waiting n pid \<in> set ps \<longrightarrow> gm_pending cm n = Some pid \<or> gm_done cm pid \<noteq> None)"

fun phase_fair :: "(string \<rightharpoonup> handle) \<Rightarrow> ClientManager \<Rightarrow> phase \<Rightarrow> bool" where
  "phase_fair g cm (Got n v e) \<longleftrightarrow> fair g n (v, e)"
| "phase_fair g cm (Waiting n pid) \<longleftrightarrow> (\<forall>r. gm_done cm pid = Some r \<longrightarrow> fair g n r)"
| "phase_fair g cm (Dialed n pid v e) \<longleftrightarrow> (v = None \<longleftrightarrow> e \<noteq> None)"
| "phase_fair g cm Crashed \<longleftrightarrow> False"
| "phase_fair g cm _ \<longleftrightarrow> True"

definition grant_inv :: "(string \<rightharpoonup> handle) \<Rightarrow> ClientManager \<Rightarrow> phase list \<Rightarrow> bool" where
  "grant_inv g cm ps \<longleftrightarrow>
     (\<forall>n c. cached_conn cm n = Some c \<longrightarrow> g n = Some c)
   \<and> (\<not> gm_closed cm \<longrightarrow> (\<forall>n. g n = cached_conn cm n \<and> (gm_pending cm n \<noteq> None \<longrightarrow> g n = None)))
   \<and> (\<forall>p \<in> set ps. phase_fair g cm p)"

definition open_inv :: "ClientManager \<Rightarrow> phase list \<Rightarrow> close_phase list \<Rightarrow> bool" where
  "open_inv cm ps cs \<longleftrightarrow>
     (\<forall>c. count_list (map snd (gm_conns cm)) (Some c) + sum_list (map (holds_at c) ps) + sum_list (map (closing_at c) cs)
        = (if c \<in> set (gm_open cm) then 1 else 0))
   \<and> (\<forall>c \<in> set (gm_open cm). c < gm_next cm)
   \<and> None \<notin> set (map snd (gm_conns cm)) \<and> distinct (map fst (gm_conns cm)) \<and> (gm_closed cm \<longrightarrow> gm_conns cm = [])
   \<and> (\<forall>l. Closing l \<in> set cs \<longrightarrow> None \<notin> set l) \<and> Close_crashed \<notin> set cs"

lemma sum_list_map_update:
  "t < length xs \<Longrightarrow> sum_list (map f (xs[t := y])) + f (xs ! t) = sum_list (map f xs) + (f y :: nat)"
proof (induction xs arbitrary: t)
  case (Cons x xs)
  show ?case
  proof (cases t)
    case (Suc t')
    with Cons.IH [of t'] Cons.prems show ?thesis by simp
  qed simp
qed simp

lemma update_fresh: "k \<notin> fst ` set xs \<Longrightarrow> AList.update k v xs = xs @ [(k, v)]"
  by (induction xs) auto

lemma newClient_errors:
  assumes "observed_ok ob" "newClient ob config name = Inl err"
  obtains x where "ToGRPC (Some err) = Returned (Some x)"
proof -
  have wrap: "errors_As_app (WrapErr s e) = errors_As_app e" for s e by (simp add: errors_As_app_def)
  have own: "errors_As_app (InvalidArgument s) \<noteq> Some None" for s by (simp add: errors_As_app_def app_error_defs)
  have sum: "map_sum id h x = Inl e \<longleftrightarrow> x = Inl e" for h :: "string \<Rightarrow> string option" and x and e :: go_error
    by (cases x) auto
  have "errors_As_app err \<noteq> Some None"
    using assms by (auto simp: newClient_def createTransportCredentials_def loadCertPool_def observed_ok_def Let_def wrap own sum
        split: option.splits sum.splits if_splits)
  from ToGRPC_no_panic [OF this] that show thesis by blast
qed

lemma to_grpc_Got:
  "to_grpc n (InvalidArgument s) = Got n None (Some (StatusErr Codes_InvalidArgument s))"
  "to_grpc n (Unavailable s) = Got n None (Some (StatusErr Codes_Unavailable s))"
  "\<exists>e. to_grpc n (Sentinel x) = Got n None (Some e)"
  using ToGRPC_no_panic [of "Sentinel x"]
  by (auto simp: to_grpc_def ToGRPC_def status_FromError_def errors_Is_def errors_As_app_def app_error_defs)

section \<open>Steps of calls\<close>

text \<open>The steps of \<open>GetClient\<close>, by what they do to the manager.\<close>

inductive get_moves :: "phase \<Rightarrow> ClientManager \<Rightarrow> phase \<Rightarrow> ClientManager \<Rightarrow> bool" where
  stay: "get_moves p cm p cm"
| answer: "(case p of Fast m \<Rightarrow> m = n | Slow m \<Rightarrow> m = n | Waiting m pid \<Rightarrow> m = n | _ \<Rightarrow> False)
    \<Longrightarrow> v = None \<and> e \<noteq> None \<or> (\<exists>c. v = Some c \<and> e = None \<and> cached_conn cm n = Some c)
      \<or> (\<exists>pid. p = Waiting n pid \<and> gm_done cm pid = Some (v, e)) \<Longrightarrow> get_moves p cm (Got n v e) cm"
| missed: "get_moves (Fast n) cm (Slow n) cm"
| wait: "gm_pending cm n = Some pid \<Longrightarrow> get_moves (Slow n) cm (Waiting n pid) cm"
| create: "\<not> gm_closed cm \<Longrightarrow> cached_conn cm n = None \<Longrightarrow> gm_pending cm n = None \<Longrightarrow> pid = gm_next_pending cm
    \<Longrightarrow> get_moves (Slow n) cm (Dialing n pid) (cm\<lparr>gm_pending := (gm_pending cm)(n \<mapsto> pid), gm_next_pending := Suc pid\<rparr>)"
| failed: "get_moves (Dialing n pid) cm (Dialed n pid None (Some err)) cm"
| opened: "c = gm_next cm \<Longrightarrow> get_moves (Dialing n pid) cm (Dialed n pid (Some c) None)
    (cm\<lparr>gm_open := c # gm_open cm, gm_next := Suc c\<rparr>)"
| finish: "finish_dial n v e (cm\<lparr>gm_pending := (gm_pending cm)(n := None)\<rparr>) = ((v', e'), cm')
    \<Longrightarrow> get_moves (Dialed n pid v e) cm (Got n v' e') (cm'\<lparr>gm_done := (gm_done cm')(pid \<mapsto> (v', e'))\<rparr>)"

lemma get_step_moves:
  assumes "observed_ok ob" "get_step finish_dial ob p cm = (p', cm')"
  shows "get_moves p cm p' cm'"
proof (cases p)
  case (Fast n)
  with assms(2) show ?thesis
    by (auto simp: get_step_def to_grpc_Got split: if_splits option.splits intro: get_moves.intros)
next
  case (Slow n)
  with assms(2) show ?thesis
    by (auto simp: get_step_def to_grpc_Got Let_def split: if_splits option.splits intro: get_moves.intros)
next
  case (Waiting n pid)
  obtain e where e: "to_grpc n (Sentinel x) = Got n None (Some (e x))" for x using to_grpc_Got(3) by metis
  from Waiting assms(2) show ?thesis
    by (auto simp: get_step_def e split: if_splits option.splits prod.splits intro: get_moves.intros)
next
  case (Dialing n pid)
  show ?thesis
  proof (cases "newClient ob (gm_config cm) n")
    case (Inl err)
    obtain x where "ToGRPC (Some err) = Returned (Some x)" using newClient_errors [OF assms(1) Inl] .
    with Dialing Inl assms(2) show ?thesis by (auto simp: get_step_def intro: get_moves.intros)
  next
    case (Inr u)
    with Dialing assms(2) show ?thesis by (auto simp: get_step_def intro: get_moves.intros)
  qed
next
  case (Dialed n pid v e)
  with assms(2) show ?thesis by (auto simp: get_step_def split: prod.splits intro: get_moves.finish)
qed (use assms(2) in \<open>auto simp: get_step_def intro: get_moves.intros\<close>)

lemma finish_dial_frame:
  "finish_dial n v e cm = (r, cm') \<Longrightarrow> gm_pending cm' = gm_pending cm \<and> gm_next_pending cm' = gm_next_pending cm
    \<and> gm_done cm' = gm_done cm \<and> gm_closed cm' = gm_closed cm \<and> gm_next cm' = gm_next cm"
  by (auto simp: finish_dial_def split: bool.splits option.splits if_splits)

text \<open>What a step leaves as it was.\<close>

lemma pending_inv_same:
  assumes "pending_inv cm ps" "t < length ps" "gm_pending cm' = gm_pending cm" "gm_next_pending cm' = gm_next_pending cm"
    and "gm_done cm' = gm_done cm" "\<And>n pid. busy_at n pid p' = busy_at n pid (ps ! t)"
    and "\<And>n pid. p' = Waiting n pid \<Longrightarrow> gm_pending cm n = Some pid \<or> gm_done cm pid \<noteq> None"
  shows "pending_inv cm' (ps[t := p'])"
proof -
  have "sum_list (map (busy_at n pid) (ps[t := p'])) = sum_list (map (busy_at n pid) ps)" for n pid
    using sum_list_map_update [OF assms(2), of "busy_at n pid" p'] assms(6) by simp
  then show ?thesis using assms(1,3-5,7) set_update_subset_insert [of ps t p']
    unfolding pending_inv_def by (simp add: subset_iff) blast
qed

lemma busy_pending:
  assumes "pending_inv cm ps" "t < length ps" "busy_at n pid (ps ! t) = 1"
  shows "gm_pending cm n = Some pid"
proof -
  have "busy_at n pid (ps ! t) \<le> sum_list (map (busy_at n pid) ps)"
    using assms(2) by (intro member_le_sum_list) auto
  with assms show ?thesis by (auto simp: pending_inv_def split: if_splits)
qed

lemma pending_inv_move:
  assumes inv: "pending_inv cm ps" and t: "t < length ps" and move: "get_moves (ps ! t) cm p' cm'"
  shows "pending_inv cm' (ps[t := p'])"
  using move
proof cases
  case (create n pid)
  have sum: "sum_list (map (busy_at m q) (ps[t := p'])) = sum_list (map (busy_at m q) ps) + (if m = n \<and> q = pid then 1 else 0)" for m q
    using sum_list_map_update [OF t, of "busy_at m q" p'] create(1,2) by auto
  have fresh: "gm_pending cm m \<noteq> Some pid" "gm_done cm pid = None" for m
    using inv create(7) unfolding pending_inv_def by (metis less_irrefl)+
  have set: "x \<in> set (ps[t := p']) \<Longrightarrow> x = p' \<or> x \<in> set ps" for x using set_update_subset_insert [of ps t p'] by auto
  show ?thesis unfolding pending_inv_def
  proof (intro conjI allI impI)
    fix m q
    have cm': "gm_pending cm' = (gm_pending cm)(n \<mapsto> pid)" using create(3) by simp
    have "sum_list (map (busy_at m q) ps) = (if gm_pending cm m = Some q then 1 else 0)"
      using inv by (simp add: pending_inv_def)
    with sum [of m q] create(6) show "sum_list (map (busy_at m q) (ps[t := p'])) = (if gm_pending cm' m = Some q then 1 else 0)"
      by (auto simp: cm')
    show "q < gm_next_pending cm'" "gm_done cm' q = None" if "gm_pending cm' m = Some q"
      using that inv create fresh by (auto simp: pending_inv_def less_Suc_eq split: if_splits)
    show "gm_pending cm' m = Some q \<or> gm_done cm' q \<noteq> None" if "Waiting m q \<in> set (ps[t := p'])"
    proof -
      have "Waiting m q \<in> set ps" using set [OF that] create(2) by auto
      then have "gm_pending cm m = Some q \<or> gm_done cm q \<noteq> None" using inv unfolding pending_inv_def by blast
      then show ?thesis using create(3,6) by (cases "m = n") auto
    qed
  next
    fix q assume "gm_done cm' q \<noteq> None"
    with inv create show "q < gm_next_pending cm'" by (auto simp: pending_inv_def less_Suc_eq)
  next
    fix m m' q assume "gm_pending cm' m = Some q" "gm_pending cm' m' = Some q"
    with inv create fresh show "m = m'" by (auto simp: pending_inv_def split: if_splits)
  qed
next
  case (finish n v e v' e' cm1 pid)
  have pid: "gm_pending cm n = Some pid" using busy_pending [OF inv t, of n pid] finish(1) by simp
  have sum: "sum_list (map (busy_at m q) (ps[t := p'])) + (if m = n \<and> q = pid then 1 else 0) = sum_list (map (busy_at m q) ps)" for m q
    using sum_list_map_update [OF t, of "busy_at m q" p'] finish(1,2) by auto
  have set: "x \<in> set (ps[t := p']) \<Longrightarrow> x = p' \<or> x \<in> set ps" for x using set_update_subset_insert [of ps t p'] by auto
  have cm': "gm_pending cm' = (gm_pending cm)(n := None)" "gm_next_pending cm' = gm_next_pending cm"
      "gm_done cm' = (gm_done cm)(pid \<mapsto> (v', e'))"
    using finish_dial_frame [OF finish(4)] finish(3) by simp_all
  show ?thesis unfolding pending_inv_def
  proof (intro conjI allI impI)
    fix m q
    have "sum_list (map (busy_at m q) ps) = (if gm_pending cm m = Some q then 1 else 0)"
      using inv by (simp add: pending_inv_def)
    with sum [of m q] pid show "sum_list (map (busy_at m q) (ps[t := p'])) = (if gm_pending cm' m = Some q then 1 else 0)"
      by (auto simp: cm' split: if_splits)
    show "q < gm_next_pending cm'" "gm_done cm' q = None" if "gm_pending cm' m = Some q"
      using that inv pid unfolding cm' pending_inv_def by (auto split: if_splits)
    show "gm_pending cm' m = Some q \<or> gm_done cm' q \<noteq> None" if "Waiting m q \<in> set (ps[t := p'])"
    proof -
      have "Waiting m q \<in> set ps" using set [OF that] finish(2) by auto
      then have "gm_pending cm m = Some q \<or> gm_done cm q \<noteq> None" using inv unfolding pending_inv_def by blast
      then show ?thesis using pid unfolding cm' by (cases "m = n") auto
    qed
  next
    fix q assume "gm_done cm' q \<noteq> None"
    with inv pid show "q < gm_next_pending cm'" unfolding cm' pending_inv_def by (auto split: if_splits)
  next
    fix m m' q assume "gm_pending cm' m = Some q" "gm_pending cm' m' = Some q"
    with inv show "m = m'" unfolding cm' pending_inv_def by (auto split: if_splits)
  qed
qed (use inv t in \<open>auto intro!: pending_inv_same split: phase.splits\<close>)

text \<open>A service is granted at most one connection.\<close>

lemma fair_mono: "fair g n r \<Longrightarrow> g \<subseteq>\<^sub>m g' \<Longrightarrow> fair g' n r"
  unfolding fair_def map_le_def by (metis domI)

lemma fair_error: "e \<noteq> None \<Longrightarrow> fair g n (None, e)"
  by (simp add: fair_def)

lemma phase_fair_mono:
  assumes "phase_fair g cm p" "g \<subseteq>\<^sub>m g'" "\<And>n pid r. p = Waiting n pid \<Longrightarrow> gm_done cm' pid = Some r \<Longrightarrow> gm_done cm pid = Some r \<or> fair g' n r"
  shows "phase_fair g' cm' p"
proof (cases p)
  case (Waiting n pid)
  have "fair g' n r" if "gm_done cm' pid = Some r" for r
    using assms(3) [OF Waiting that] assms(1) fair_mono [OF _ assms(2)] Waiting by (cases r) auto
  with Waiting show ?thesis by simp
qed (use assms in \<open>auto intro: fair_mono\<close>)

lemma grant_inv_same:
  assumes "grant_inv g cm ps" "gm_conns cm' = gm_conns cm" "gm_closed cm' = gm_closed cm" "gm_pending cm' = gm_pending cm"
    and "gm_done cm' = gm_done cm" "phase_fair g cm p'"
  shows "grant_inv g cm' (ps[t := p'])"
proof -
  have "phase_fair g cm p \<Longrightarrow> phase_fair g cm' p" for p
    by (rule phase_fair_mono) (use assms(5) in auto)
  with assms set_update_subset_insert [of ps t p'] show ?thesis by (auto simp: grant_inv_def cached_conn_def)
qed

lemma finish_dial_cases:
  assumes "finish_dial n v e cm = ((v', e'), cm')" "v = None \<longleftrightarrow> e \<noteq> None"
  obtains (closed) c where "gm_closed cm" "v = Some c" "v' = None" "e' \<noteq> None" "cm' = cm\<lparr>gm_open := removeAll c (gm_open cm)\<rparr>"
    | (stored) c where "\<not> gm_closed cm" "v = Some c" "v' = Some c" "e' = None"
        "cm' = cm\<lparr>gm_conns := AList.update n (Some c) (gm_conns cm)\<rparr>"
    | (failed) "v = None" "v' = None" "e' \<noteq> None" "cm' = cm"
  using assms by (auto simp: finish_dial_def split: bool.splits option.splits if_splits)

lemma grant_inv_finish:
  assumes inv: "grant_inv g cm ps" "pending_inv cm ps" and t: "t < length ps" "ps ! t = Dialed n pid v e"
    and fin: "finish_dial n v e (cm\<lparr>gm_pending := (gm_pending cm)(n := None)\<rparr>) = ((v', e'), cm')"
  shows "\<exists>g'. grant_inv g' (cm'\<lparr>gm_done := (gm_done cm')(pid \<mapsto> (v', e'))\<rparr>) (ps[t := Got n v' e'])"
proof -
  have pid: "gm_pending cm n = Some pid" using busy_pending [OF inv(2) t(1), of n pid] t(2) by simp
  have done_pid: "gm_done cm pid = None" using inv(2) pid unfolding pending_inv_def by blast
  have "phase_fair g cm (ps ! t)" using inv(1) t unfolding grant_inv_def by (metis nth_mem)
  then have ve: "v = None \<longleftrightarrow> e \<noteq> None" using t(2) by simp
  define g' where "g' = (if \<not> gm_closed cm \<and> v' \<noteq> None then g(n := v') else g)"
  have le: "g \<subseteq>\<^sub>m g'"
    using inv(1) pid unfolding g'_def grant_inv_def map_le_def by auto
  have fair: "fair g' n (v', e')"
    using fin ve by (cases rule: finish_dial_cases) (auto simp: fair_def g'_def)
  have "phase_fair g' (cm'\<lparr>gm_done := (gm_done cm')(pid \<mapsto> (v', e'))\<rparr>) p" if "p \<in> set ps" for p
  proof (rule phase_fair_mono [OF _ le])
    show "phase_fair g cm p" using inv(1) that by (simp add: grant_inv_def)
    fix m q r
    assume w: "p = Waiting m q" and d: "gm_done (cm'\<lparr>gm_done := (gm_done cm')(pid \<mapsto> (v', e'))\<rparr>) q = Some r"
    have "q = pid \<Longrightarrow> m = n"
      using inv(2) w that pid done_pid unfolding pending_inv_def by blast
    with d fair show "gm_done cm q = Some r \<or> fair g' m r"
      using finish_dial_frame [OF fin] by (auto split: if_splits)
  qed
  with fair have phases: "\<forall>p \<in> set (ps[t := Got n v' e']). phase_fair g' (cm'\<lparr>gm_done := (gm_done cm')(pid \<mapsto> (v', e'))\<rparr>) p"
    using set_update_subset_insert [of ps t "Got n v' e'"] by auto
  have "grant_inv g' (cm'\<lparr>gm_done := (gm_done cm')(pid \<mapsto> (v', e'))\<rparr>) (ps[t := Got n v' e'])"
    using fin ve
  proof (cases rule: finish_dial_cases)
    case (stored c)
    have "\<not> gm_closed cm" using stored(1) by simp
    then have g: "g m = cached_conn cm m" "gm_pending cm m \<noteq> None \<Longrightarrow> g m = None" for m
      using inv(1) by (auto simp: grant_inv_def)
    have conns: "cached_conn (cm'\<lparr>gm_done := (gm_done cm')(pid \<mapsto> (v', e'))\<rparr>) = g'"
      using stored g by (auto simp: g'_def cached_conn_def update_conv')
    show ?thesis unfolding grant_inv_def conns using phases stored g by (auto simp: g'_def)
  qed (use phases inv(1) in \<open>auto simp: grant_inv_def g'_def cached_conn_def\<close>)
  then show ?thesis by blast
qed

lemma grant_inv_move:
  assumes inv: "grant_inv g cm ps" "pending_inv cm ps" and t: "t < length ps" and move: "get_moves (ps ! t) cm p' cm'"
  shows "\<exists>g'. grant_inv g' cm' (ps[t := p'])"
  using move
proof cases
  case stay
  have "phase_fair g cm p'" using inv(1) t stay by (auto simp: grant_inv_def)
  with inv(1) stay show ?thesis by (intro exI grant_inv_same) auto
next
  case (answer n v e)
  have "phase_fair g cm (ps ! t)" using inv(1) t by (auto simp: grant_inv_def)
  with answer inv(1) have "phase_fair g cm p'" by (auto simp: fair_def grant_inv_def)
  with inv(1) answer show ?thesis by (intro exI grant_inv_same) auto
next
  case (wait n pid)
  with inv(2) have "gm_done cm pid = None" unfolding pending_inv_def by blast
  with inv(1) wait show ?thesis by (intro exI grant_inv_same) auto
next
  case (create n pid)
  have "phase_fair g cm' p" if "p \<in> set ps" for p
    by (rule phase_fair_mono) (use inv(1) that create in \<open>auto simp: grant_inv_def\<close>)
  with inv(1) create set_update_subset_insert [of ps t p'] show ?thesis
    by (intro exI [of _ g]) (auto simp: grant_inv_def cached_conn_def)
next
  case (finish n v e v' e' cm1 pid)
  from grant_inv_finish [OF inv t finish(1,4)] show ?thesis unfolding finish(2,3) .
qed (use inv(1) in \<open>auto intro!: exI grant_inv_same\<close>)

text \<open>Every open connection has one owner.\<close>

lemma owner_removed:
  assumes "(a :: nat) = (if x \<in> set l then 1 else 0)" "b + (if x = c then 1 else 0) = a"
  shows "b = (if x \<in> set (removeAll c l) then 1 else 0)"
  using assms by (cases "x = c") (auto split: if_splits)

lemma open_inv_same:
  assumes "open_inv cm ps cs" "t < length ps" "gm_conns cm' = gm_conns cm" "gm_closed cm' = gm_closed cm" "gm_open cm' = gm_open cm"
    and "gm_next cm' = gm_next cm" "\<And>c. holds_at c p' = holds_at c (ps ! t)"
  shows "open_inv cm' (ps[t := p']) cs"
proof -
  have "sum_list (map (holds_at c) (ps[t := p'])) = sum_list (map (holds_at c) ps)" for c
    using sum_list_map_update [OF assms(2), of "holds_at c" p'] assms(7) by simp
  with assms(1,3-6) show ?thesis by (simp add: open_inv_def)
qed

lemma open_inv_finish:
  assumes inv: "open_inv cm ps cs" "grant_inv g cm ps" "pending_inv cm ps" and t: "t < length ps" "ps ! t = Dialed n pid v e"
    and fin: "finish_dial n v e (cm\<lparr>gm_pending := (gm_pending cm)(n := None)\<rparr>) = ((v', e'), cm')"
  shows "open_inv (cm'\<lparr>gm_done := d\<rparr>) (ps[t := Got n v' e']) cs"
proof -
  have "phase_fair g cm (ps ! t)" using inv(2) t unfolding grant_inv_def by (metis nth_mem)
  then have ve: "v = None \<longleftrightarrow> e \<noteq> None" using t(2) by simp
  have sum: "sum_list (map (holds_at c) (ps[t := Got n v' e'])) + (if v = Some c then 1 else 0) = sum_list (map (holds_at c) ps)" for c
    using sum_list_map_update [OF t(1), of "holds_at c" "Got n v' e'"] t(2) by (cases v) auto
  show ?thesis using fin ve
  proof (cases rule: finish_dial_cases)
    case (closed c)
    have conns: "gm_conns cm = []" using inv(1) closed by (simp add: open_inv_def)
    have owner: "sum_list (map (holds_at x) ps) + sum_list (map (closing_at x) cs) = (if x \<in> set (gm_open cm) then 1 else 0)" for x
      using inv(1) conns unfolding open_inv_def by simp
    have "sum_list (map (holds_at x) (ps[t := Got n v' e'])) + sum_list (map (closing_at x) cs)
        = (if x \<in> set (removeAll c (gm_open cm)) then 1 else 0)" for x
      by (rule owner_removed [OF owner]) (use sum [of x] closed(2) in \<open>simp add: eq_commute [of x]\<close>)
    with inv(1) closed conns show ?thesis unfolding open_inv_def by simp
  next
    case (stored c)
    have pid: "gm_pending cm n = Some pid" using busy_pending [OF inv(3) t(1), of n pid] t(2) by simp
    have "cached_conn cm n = None" using inv(2) pid stored by (auto simp: grant_inv_def)
    then have fresh: "n \<notin> fst ` set (gm_conns cm)"
      using inv(1) unfolding open_inv_def cached_conn_def
      by (auto split: option.splits dest!: map_of_SomeD simp: map_of_eq_None_iff) (metis image_eqI snd_conv)
    have owner: "count_list (map snd (AList.update n (Some c) (gm_conns cm))) (Some x)
        + sum_list (map (holds_at x) (ps[t := Got n v' e'])) + sum_list (map (closing_at x) cs)
        = (if x \<in> set (gm_open cm) then 1 else 0)" for x
    proof -
      have "sum_list (map (holds_at x) (ps[t := Got n v' e'])) + (if x = c then 1 else 0) = sum_list (map (holds_at x) ps)"
        using sum [of x] stored(2) by (simp add: eq_commute [of x])
      moreover have "count_list (map snd (AList.update n (Some c) (gm_conns cm))) (Some x)
          = count_list (map snd (gm_conns cm)) (Some x) + (if x = c then 1 else 0)"
        by (simp add: update_fresh [OF fresh])
      moreover have "count_list (map snd (gm_conns cm)) (Some x) + sum_list (map (holds_at x) ps) + sum_list (map (closing_at x) cs)
          = (if x \<in> set (gm_open cm) then 1 else 0)"
        using inv(1) unfolding open_inv_def by simp
      ultimately show ?thesis by linarith
    qed
    have "None \<notin> set (map snd (AList.update n (Some c) (gm_conns cm)))" "distinct (map fst (AList.update n (Some c) (gm_conns cm)))"
      using inv(1) fresh unfolding open_inv_def by (auto simp: update_fresh [OF fresh])
    with inv(1) stored owner show ?thesis unfolding open_inv_def by simp
  next
    case failed
    with inv(1) sum show ?thesis unfolding open_inv_def by simp
  qed
qed

lemma open_inv_move:
  assumes inv: "open_inv cm ps cs" "grant_inv g cm ps" "pending_inv cm ps" and t: "t < length ps" and move: "get_moves (ps ! t) cm p' cm'"
  shows "open_inv cm' (ps[t := p']) cs"
  using move
proof cases
  case (opened c n pid)
  have "sum_list (map (holds_at x) (ps[t := p'])) = sum_list (map (holds_at x) ps) + (if x = c then 1 else 0)" for x
    using sum_list_map_update [OF t, of "holds_at x" p'] opened by auto
  moreover have "c \<notin> set (gm_open cm)" using inv(1) opened unfolding open_inv_def by auto
  ultimately show ?thesis using inv(1) opened unfolding open_inv_def by (auto split: if_splits)
next
  case (finish n v e v' e' cm1 pid)
  from open_inv_finish [OF inv t finish(1,4)] show ?thesis unfolding finish(2,3) .
qed (use inv(1) t in \<open>auto intro!: open_inv_same split: phase.splits\<close>)

lemma open_inv_closes:
  assumes "open_inv cm ps cs"
    and "\<And>x. count_list (map snd (gm_conns cm')) (Some x) + sum_list (map (holds_at x) ps) + sum_list (map (closing_at x) (cs[t := p']))
      = (if x \<in> set (gm_open cm') then 1 else 0)"
    and "gm_conns cm' = gm_conns cm \<and> gm_closed cm' = gm_closed cm \<or> gm_conns cm' = []"
    and "set (gm_open cm') \<subseteq> set (gm_open cm)" "gm_next cm' = gm_next cm"
    and "p' \<noteq> Close_crashed" "\<And>l. p' = Closing l \<Longrightarrow> None \<notin> set l"
  shows "open_inv cm' ps (cs[t := p'])"
proof -
  have set: "p = p' \<or> p \<in> set cs" if "p \<in> set (cs[t := p'])" for p
    using that set_update_subset_insert [of cs t p'] by auto
  have "None \<notin> set l" if "Closing l \<in> set (cs[t := p'])" for l
    using set [OF that] assms(1,7) unfolding open_inv_def by metis
  moreover have "Close_crashed \<notin> set (cs[t := p'])" using set assms(1,6) unfolding open_inv_def by blast
  ultimately show ?thesis using assms(1,3-5) unfolding open_inv_def by (auto simp: assms(2) simp del: sum_list_eq_0_iff)
qed

lemma open_inv_close_one:
  assumes inv: "open_inv cm ps cs" and t: "t < length cs" and at: "cs ! t = Closing l" and j: "j < length l" "l ! j = Some c"
  shows "open_inv (cm\<lparr>gm_open := removeAll c (gm_open cm)\<rparr>) ps (cs[t := Closing (take j l @ drop (Suc j) l)])"
proof (rule open_inv_closes [OF inv])
  let ?p = "Closing (take j l @ drop (Suc j) l)"
  fix x
  have "count_list l (Some x) = count_list (take j l @ Some c # drop (Suc j) l) (Some x)"
    using id_take_nth_drop [OF j(1)] j(2) by simp
  also have "\<dots> = count_list (take j l @ drop (Suc j) l) (Some x) + (if x = c then 1 else 0)" by simp
  finally have "count_list l (Some x) = count_list (take j l @ drop (Suc j) l) (Some x) + (if x = c then 1 else 0)" .
  with sum_list_map_update [OF t, of "closing_at x" ?p] at
  have less: "sum_list (map (closing_at x) (cs[t := ?p])) + (if x = c then 1 else 0) = sum_list (map (closing_at x) cs)"
    by simp
  have "count_list (map snd (gm_conns cm)) (Some x) + sum_list (map (holds_at x) ps) + sum_list (map (closing_at x) cs)
      = (if x \<in> set (gm_open cm) then 1 else 0)"
    using inv unfolding open_inv_def by simp
  then have "count_list (map snd (gm_conns cm)) (Some x) + sum_list (map (holds_at x) ps) + sum_list (map (closing_at x) (cs[t := ?p]))
      = (if x \<in> set (removeAll c (gm_open cm)) then 1 else 0)"
    by (rule owner_removed) (use less in linarith)
  then show "count_list (map snd (gm_conns (cm\<lparr>gm_open := removeAll c (gm_open cm)\<rparr>))) (Some x) + sum_list (map (holds_at x) ps)
      + sum_list (map (closing_at x) (cs[t := ?p]))
    = (if x \<in> set (gm_open (cm\<lparr>gm_open := removeAll c (gm_open cm)\<rparr>)) then 1 else 0)"
    by simp
next
  fix l' assume "Closing (take j l @ drop (Suc j) l) = Closing l'"
  moreover have "None \<notin> set l" using inv t at unfolding open_inv_def by (metis nth_mem)
  ultimately show "None \<notin> set l'" by (auto dest: in_set_takeD in_set_dropD)
qed auto

lemma open_inv_close:
  assumes inv: "open_inv cm ps cs" and t: "t < length cs" and step: "close_step i (cs ! t) cm = (p', cm')"
  shows "open_inv cm' ps (cs[t := p'])"
proof -
  have owner: "count_list (map snd (gm_conns cm)) (Some x) + sum_list (map (holds_at x) ps) + sum_list (map (closing_at x) cs)
      = (if x \<in> set (gm_open cm) then 1 else 0)" for x
    using inv unfolding open_inv_def by simp
  have sum: "sum_list (map (closing_at x) (cs[t := p'])) + closing_at x (cs ! t) = sum_list (map (closing_at x) cs) + closing_at x p'" for x
    using sum_list_map_update [OF t] .
  have ok: "cs ! t \<noteq> Close_crashed" "cs ! t = Closing l \<Longrightarrow> None \<notin> set l" for l
    using inv t unfolding open_inv_def by (metis nth_mem)+
  consider (same) "cm' = cm" "p' = Close_done" "\<And>x. closing_at x (cs ! t) = 0"
    | (locked) "cs ! t = Closing_lock" "p' = Closing (map snd (gm_conns cm))" "cm' = cm\<lparr>gm_closed := True, gm_conns := []\<rparr>"
    | (one) l where "cs ! t = Closing l" "l \<noteq> []"
  proof (cases "cs ! t")
    case Closing_lock
    show thesis
    proof (cases "gm_closed cm")
      case True
      show thesis by (rule that(1)) (use True Closing_lock step in \<open>simp_all add: close_step_def\<close>)
    next
      case False
      show thesis by (rule that(2)) (use False Closing_lock step in \<open>simp_all add: close_step_def\<close>)
    qed
  next
    case (Closing l)
    show thesis
    proof (cases "l = []")
      case True
      show thesis by (rule that(1)) (use True Closing step in \<open>simp_all add: close_step_def\<close>)
    qed (rule that(3) [OF Closing])
  next
    case Close_done
    show thesis by (rule that(1)) (use Close_done step in \<open>simp_all add: close_step_def\<close>)
  qed (use ok(1) in simp)
  then show ?thesis
  proof cases
    case same
    have "sum_list (map (closing_at x) (cs[t := p'])) = sum_list (map (closing_at x) cs)" for x
      using sum [of x] same by simp
    with owner show ?thesis unfolding same(1,2) by (intro open_inv_closes [OF inv]) simp_all
  next
    case locked
    have more: "sum_list (map (closing_at x) (cs[t := p'])) = count_list (map snd (gm_conns cm)) (Some x) + sum_list (map (closing_at x) cs)" for x
      using sum [of x] locked by simp
    have "sum_list (map (holds_at x) ps) + sum_list (map (closing_at x) (cs[t := p'])) = (if x \<in> set (gm_open cm) then 1 else 0)" for x
      using owner [of x] more [of x] by linarith
    moreover have "None \<notin> set (map snd (gm_conns cm))" using inv unfolding open_inv_def by blast
    ultimately show ?thesis unfolding locked(2,3) by (intro open_inv_closes [OF inv]) (simp_all, force)
  next
    case (one l)
    have j: "i mod length l < length l" using one by simp
    with ok(2) [OF one(1)] obtain c where c: "l ! (i mod length l) = Some c" by (metis nth_mem option.exhaust)
    from open_inv_close_one [OF inv t one(1) j c] step one c show ?thesis by (auto simp: close_step_def Let_def)
  qed
qed

section \<open>Every run\<close>

definition manager_inv :: "manager_state \<Rightarrow> bool" where
  "manager_inv st \<longleftrightarrow> (\<exists>g. grant_inv g (ms_manager st) (ms_gets st)) \<and> pending_inv (ms_manager st) (ms_gets st)
     \<and> open_inv (ms_manager st) (ms_gets st) (ms_closes st)"

lemma close_step_frame:
  assumes "close_step i p cm = (p', cm')" "grant_inv g cm ps" "pending_inv cm ps"
  shows "grant_inv g cm' ps" "pending_inv cm' ps"
proof -
  have "cm' = cm \<or> cm' = cm\<lparr>gm_closed := True, gm_conns := []\<rparr> \<or> (\<exists>l. cm' = cm\<lparr>gm_open := l\<rparr>)"
    using assms(1) by (auto simp: close_step_def Let_def split: close_phase.splits if_splits option.splits)
  then have cm': "gm_pending cm' = gm_pending cm" "gm_next_pending cm' = gm_next_pending cm" "gm_done cm' = gm_done cm"
      "gm_closed cm' = gm_closed cm \<and> gm_conns cm' = gm_conns cm \<or> gm_closed cm' \<and> gm_conns cm' = []"
    by auto
  from assms(3) show "pending_inv cm' ps" by (simp add: pending_inv_def cm')
  have "phase_fair g cm' p = phase_fair g cm p" for p by (cases p) (simp_all add: cm')
  note fair = this
  from cm'(4) show "grant_inv g cm' ps"
  proof
    assume "gm_closed cm' = gm_closed cm \<and> gm_conns cm' = gm_conns cm"
    then have "gm_closed cm' = gm_closed cm" "cached_conn cm' = cached_conn cm" by (auto simp: cached_conn_def)
    with assms(2) show ?thesis unfolding grant_inv_def cm'(1) fair by metis
  next
    assume "gm_closed cm' \<and> gm_conns cm' = []"
    with assms(2) show ?thesis by (simp add: grant_inv_def cached_conn_def fair)
  qed
qed

lemma GetClient_cases:
  "(\<exists>n. GetClient cm has_ctx name = Fast n) \<or> (\<exists>n e. GetClient cm has_ctx name = Got n None (Some e))"
  by (auto simp: GetClient_def to_grpc_Got Let_def)

lemma manager_step_inv:
  assumes inv: "manager_inv st" and ok: "event_ok e"
  shows "manager_inv (manager_step finish_dial e st)"
proof (cases e)
  case (Call has_ctx name)
  define p where "p = GetClient (ms_manager st) has_ctx name"
  have p: "busy_at n pid p = 0" "holds_at c p = 0" "Waiting n pid \<noteq> p" "phase_fair g cm p" for n pid c g cm
    using GetClient_cases [of "ms_manager st" has_ctx name] by (auto simp: p_def fair_def)
  have st: "manager_step finish_dial e st = st\<lparr>ms_gets := ms_gets st @ [p]\<rparr>" by (simp add: Call manager_step_def p_def)
  obtain g where "grant_inv g (ms_manager st) (ms_gets st)" using inv unfolding manager_inv_def by blast
  then have "grant_inv g (ms_manager st) (ms_gets st @ [p])" unfolding grant_inv_def using p(4) by auto
  moreover have "pending_inv (ms_manager st) (ms_gets st @ [p])" "open_inv (ms_manager st) (ms_gets st @ [p]) (ms_closes st)"
    using inv p(1-3) unfolding manager_inv_def by (simp_all add: pending_inv_def open_inv_def)
  ultimately show ?thesis unfolding st manager_inv_def by auto
next
  case Call_Close
  with inv show ?thesis
    by (auto simp: manager_step_def manager_inv_def open_inv_def simp del: sum_list_eq_0_iff)
next
  case (Step t ob)
  obtain p cm where step: "get_step finish_dial ob (ms_gets st ! t) (ms_manager st) = (p, cm)" by fastforce
  have ob: "observed_ok ob" using ok Step by simp
  obtain g where g: "grant_inv g (ms_manager st) (ms_gets st)" using inv unfolding manager_inv_def by blast
  have rest: "pending_inv (ms_manager st) (ms_gets st)" "open_inv (ms_manager st) (ms_gets st) (ms_closes st)"
    using inv unfolding manager_inv_def by blast+
  note move = get_step_moves [OF ob step]
  show ?thesis
    using Step step inv grant_inv_move [OF g rest(1) _ move] pending_inv_move [OF rest(1) _ move] open_inv_move [OF rest(2) g rest(1) _ move]
    by (simp add: manager_step_def manager_inv_def)
next
  case (Close_step t i)
  obtain p cm where step: "close_step i (ms_closes st ! t) (ms_manager st) = (p, cm)" by fastforce
  obtain g where g: "grant_inv g (ms_manager st) (ms_gets st)" using inv unfolding manager_inv_def by blast
  have rest: "pending_inv (ms_manager st) (ms_gets st)" "open_inv (ms_manager st) (ms_gets st) (ms_closes st)"
    using inv unfolding manager_inv_def by blast+
  show ?thesis
    using Close_step step inv close_step_frame [OF step g rest(1)] open_inv_close [OF rest(2) _ step]
    by (auto simp: manager_step_def manager_inv_def)
qed

lemma manager_run_inv:
  assumes "\<forall>e \<in> set es. event_ok e"
  shows "manager_inv (manager_run finish_dial registry config es)"
proof -
  have "manager_inv \<lparr>ms_manager = NewClientManager registry config, ms_gets = [], ms_closes = []\<rparr>"
    by (auto simp: manager_inv_def grant_inv_def pending_inv_def open_inv_def NewClientManager_def cached_conn_def Let_def
        intro!: exI [of _ Map.empty])
  moreover have "manager_inv st \<Longrightarrow> \<forall>e \<in> set es. event_ok e \<Longrightarrow> manager_inv (fold (manager_step finish_dial) es st)" for st
    by (induction es arbitrary: st) (auto intro: manager_step_inv)
  ultimately show ?thesis using assms by (simp add: manager_run_def)
qed

text \<open>A call that is creating the connection of a service.\<close>

fun creating :: "string \<Rightarrow> phase \<Rightarrow> bool" where
  "creating n (Dialing m pid) \<longleftrightarrow> m = n"
| "creating n (Dialed m pid v e) \<longleftrightarrow> m = n"
| "creating n _ \<longleftrightarrow> False"

lemma creating_busy: "creating n p \<longleftrightarrow> (\<exists>pid. busy_at n pid p = 1)"
  by (cases p) auto

lemma creating_once:
  assumes inv: "pending_inv cm ps"
  shows "length (filter (creating n) ps) \<le> 1"
proof -
  have pid: "gm_pending cm n = Some pid" if "p \<in> set ps" "busy_at n pid p = 1" for p pid
    using that busy_pending [OF inv] by (auto simp: in_set_conv_nth)
  show ?thesis
  proof (cases "gm_pending cm n")
    case None
    then have "\<not> creating n p" if "p \<in> set ps" for p
      using pid [OF that] unfolding creating_busy by auto
    then have "filter (creating n) ps = []" by (simp add: filter_empty_conv)
    then show ?thesis by simp
  next
    case (Some q)
    have same: "(\<forall>p \<in> set qs. creating n p \<longrightarrow> busy_at n q p = 1) \<Longrightarrow> length (filter (creating n) qs) = sum_list (map (busy_at n q) qs)" for qs
    proof (induction qs)
      case (Cons p qs)
      moreover have "\<not> creating n p \<Longrightarrow> busy_at n q p = 0" by (cases p) auto
      ultimately show ?case by auto
    qed simp
    have "creating n p \<longrightarrow> busy_at n q p = 1" if "p \<in> set ps" for p
      using pid [OF that] Some unfolding creating_busy by auto
    with same [of ps] inv Some show ?thesis by (simp add: pending_inv_def)
  qed
qed

text \<open>C5: whatever calls of \<open>GetClient\<close> and \<open>Close\<close> run together and however their critical sections interleave: no call
  panics, a call that returned has exactly one of a connection and an error, two calls that returned a connection for one
  service returned the same one, which is open as long as the manager is not closed, at most one call at a time is creating the
  connection of a service, and a call that waits has its answer already or waits for a call that is still creating.\<close>

theorem clients_share_a_connection:
  assumes "\<forall>e \<in> set es. event_ok e" and "st = manager_run finish_dial registry config es"
  shows "Crashed \<notin> set (ms_gets st)
    \<and> (\<forall>n v e. Got n v e \<in> set (ms_gets st) \<longrightarrow> (v = None \<longleftrightarrow> e \<noteq> None))
    \<and> (\<forall>n c c' e e'. Got n (Some c) e \<in> set (ms_gets st) \<longrightarrow> Got n (Some c') e' \<in> set (ms_gets st) \<longrightarrow> c = c')
    \<and> (\<forall>n c e. Got n (Some c) e \<in> set (ms_gets st) \<longrightarrow> \<not> gm_closed (ms_manager st) \<longrightarrow> c \<in> set (gm_open (ms_manager st)))
    \<and> (\<forall>n. length (filter (creating n) (ms_gets st)) \<le> 1)
    \<and> (\<forall>n pid. Waiting n pid \<in> set (ms_gets st) \<longrightarrow> gm_done (ms_manager st) pid \<noteq> None \<or> (\<exists>p \<in> set (ms_gets st). creating n p))"
proof -
  have inv: "manager_inv st" using manager_run_inv [OF assms(1)] assms(2) by simp
  then obtain g where g: "grant_inv g (ms_manager st) (ms_gets st)" by (auto simp: manager_inv_def)
  have pending: "pending_inv (ms_manager st) (ms_gets st)" and opened: "open_inv (ms_manager st) (ms_gets st) (ms_closes st)"
    using inv by (simp_all add: manager_inv_def)
  have fair: "phase_fair g (ms_manager st) p" if "p \<in> set (ms_gets st)" for p using g that by (simp add: grant_inv_def)
  have got: "(v = None \<longleftrightarrow> e \<noteq> None) \<and> (\<forall>c. v = Some c \<longrightarrow> g n = Some c)" if "Got n v e \<in> set (ms_gets st)" for n v e
    using fair [OF that] by (simp add: fair_def)
  have opened: "c \<in> set (gm_open (ms_manager st))" if "Got n (Some c) e \<in> set (ms_gets st)" "\<not> gm_closed (ms_manager st)" for n c e
  proof -
    have "cached_conn (ms_manager st) n = Some c" using g got [OF that(1)] that(2) unfolding grant_inv_def by metis
    then have "Some c \<in> set (map snd (gm_conns (ms_manager st)))"
      by (force simp: cached_conn_def split: option.splits dest!: map_of_SomeD)
    then have "count_list (map snd (gm_conns (ms_manager st))) (Some c) \<noteq> 0" by (simp add: count_list_0_iff)
    with opened show ?thesis unfolding open_inv_def by (metis add_is_0)
  qed
  have waits: "\<exists>p \<in> set (ms_gets st). creating n p" if "Waiting n pid \<in> set (ms_gets st)" "gm_done (ms_manager st) pid = None" for n pid
  proof -
    have "gm_pending (ms_manager st) n = Some pid" using pending that unfolding pending_inv_def by blast
    with pending have "\<not> sum_list (map (busy_at n pid) (ms_gets st)) = 0" by (simp add: pending_inv_def del: sum_list_eq_0_iff)
    then obtain p where "p \<in> set (ms_gets st)" "busy_at n pid p \<noteq> 0" unfolding sum_list_eq_0_iff by auto
    moreover have "busy_at n pid p \<noteq> 0 \<Longrightarrow> creating n p" for p by (cases p) (auto split: if_splits)
    ultimately show ?thesis by blast
  qed
  have "Crashed \<notin> set (ms_gets st)" using fair by fastforce
  moreover have "\<forall>n v e. Got n v e \<in> set (ms_gets st) \<longrightarrow> (v = None \<longleftrightarrow> e \<noteq> None)" using got by blast
  moreover have "\<forall>n c c' e e'. Got n (Some c) e \<in> set (ms_gets st) \<longrightarrow> Got n (Some c') e' \<in> set (ms_gets st) \<longrightarrow> c = c'"
  proof (intro allI impI)
    fix n c c' e e' assume "Got n (Some c) e \<in> set (ms_gets st)" "Got n (Some c') e' \<in> set (ms_gets st)"
    from this [THEN got] show "c = c'" by simp
  qed
  ultimately show ?thesis using opened waits creating_once [OF pending] by (intro conjI) (assumption | blast)+
qed

text \<open>C6: a connection is never leaked and never closed through nil: no call of \<open>Close\<close> panics, and once the manager is
  closed, its calls of \<open>Close\<close> have returned and no call of \<open>GetClient\<close> is still creating a connection, no connection
  that the manager ever created is open, the ones whose creation overlapped with the closing included.\<close>

theorem Close_leaves_none_open:
  assumes "\<forall>e \<in> set es. event_ok e" and "st = manager_run finish_dial registry config es"
  shows "Close_crashed \<notin> set (ms_closes st)
    \<and> (gm_closed (ms_manager st) \<longrightarrow> set (ms_closes st) \<subseteq> {Close_done} \<longrightarrow> (\<forall>n. \<forall>p \<in> set (ms_gets st). \<not> creating n p)
         \<longrightarrow> gm_open (ms_manager st) = [])"
proof -
  have inv: "open_inv (ms_manager st) (ms_gets st) (ms_closes st)"
    using manager_run_inv [OF assms(1)] assms(2) by (simp add: manager_inv_def)
  have "c \<notin> set (gm_open (ms_manager st))" if closed: "gm_closed (ms_manager st)" "set (ms_closes st) \<subseteq> {Close_done}"
    and quiet: "\<forall>n. \<forall>p \<in> set (ms_gets st). \<not> creating n p" for c
  proof -
    have "holds_at c p = 0 \<or> (\<exists>n. creating n p)" for p
      by (cases p) auto
    with quiet have "\<forall>p \<in> set (ms_gets st). holds_at c p = 0" by blast
    then have "sum_list (map (holds_at c) (ms_gets st)) = 0" by simp
    moreover have "sum_list (map (closing_at c) (ms_closes st)) = 0" using closed(2) by auto
    moreover have "gm_conns (ms_manager st) = []" using inv closed(1) unfolding open_inv_def by blast
    ultimately show ?thesis using inv unfolding open_inv_def by (metis add_is_0 count_list.simps(1) list.simps(8) zero_neq_one)
  qed
  moreover have "Close_crashed \<notin> set (ms_closes st)" using inv unfolding open_inv_def by blast
  ultimately show ?thesis by (metis list.set_intros(1) neq_Nil_conv)
qed

section \<open>Concrete runs\<close>

definition lab :: "go_error option \<Rightarrow> observed" where
  "lab err = \<lparr>ob_ctx_Err = None, ob_take_done = True, ob_LoadX509KeyPair = (\<lambda>_ _. Inr []), ob_ReadFile = (\<lambda>_. Inr []),
     ob_AppendCertsFromPEM = (\<lambda>_. True), ob_NewClient = (\<lambda>_ _. err)\<rparr>"

lemma lab_ok: "observed_ok (lab None)" "observed_ok (lab (Some (PlainErr s)))"
  by (auto simp: observed_ok_def lab_def errors_As_app_def)

text \<open>Two calls for one service, of which one waits; the third comes when the manager is being closed.\<close>

definition demo_run :: "event list" where
  "demo_run = [Call True ''user'', Call True '' user'', Step 0 (lab None), Step 0 (lab None), Step 1 (lab None), Step 1 (lab None),
     Step 0 (lab None), Step 0 (lab None), Step 1 (lab None), Call True ''llm'', Step 2 (lab None), Step 2 (lab None), Step 2 (lab None),
     Call_Close, Close_step 0 0, Step 2 (lab None), Close_step 0 0, Close_step 0 0]"

lemma demo_run_ok: "\<forall>e \<in> set demo_run. event_ok e"
  by (simp add: demo_run_def lab_ok)

lemma demo_run_result:
  "ms_gets (manager_run finish_dial True None demo_run) = [Got ''user'' (Some 0) None, Got ''user'' (Some 0) None,
     Got ''llm'' None (Some (StatusErr Codes_Unavailable ''gRPC client manager is closed''))]"
  "ms_closes (manager_run finish_dial True None demo_run) = [Close_done]"
  "gm_closed (ms_manager (manager_run finish_dial True None demo_run))"
  by code_simp+

theorem clients_share_a_connection_witness:
  "Got ''user'' (Some 0) None \<in> set (ms_gets (manager_run finish_dial True None demo_run))
   \<and> (\<forall>n. length (filter (creating n) (ms_gets (manager_run finish_dial True None demo_run))) \<le> 1)"
  using clients_share_a_connection [OF demo_run_ok refl] by (simp add: demo_run_result)

theorem Close_leaves_none_open_witness: "gm_open (ms_manager (manager_run finish_dial True None demo_run)) = []"
  using Close_leaves_none_open [OF demo_run_ok refl, of True None] by (simp add: demo_run_result)

text \<open>The user service stores the nil connection of a failed creation, and its \<open>Close\<close> calls a method of it.\<close>

definition failed_run :: "event list" where
  "failed_run = [Call True ''llm'', Step 0 (lab (Some (PlainErr ''x''))), Step 0 (lab (Some (PlainErr ''x''))),
     Step 0 (lab (Some (PlainErr ''x''))), Step 0 (lab (Some (PlainErr ''x''))), Call_Close, Close_step 0 0, Close_step 0 0]"

lemma user_Close_panics:
  "(\<forall>e \<in> set failed_run. event_ok e) \<and> ms_closes (manager_run user_finish_dial True None failed_run) = [Close_crashed]
   \<and> ms_closes (manager_run finish_dial True None failed_run) = [Close_done]"
proof -
  have "ms_closes (manager_run user_finish_dial True None failed_run) = [Close_crashed]" by code_simp
  moreover have "ms_closes (manager_run finish_dial True None failed_run) = [Close_done]" by code_simp
  moreover have "\<forall>e \<in> set failed_run. event_ok e" by (simp add: failed_run_def lab_ok)
  ultimately show ?thesis by blast
qed

end
