(* ===== verification/Gateway_Runtime.thy ===== *)
theory Gateway_Runtime
  imports App_Error
begin

text \<open>
  The policies that the gateway takes from Consul, \<open>gateway/internal/config/runtime.go\<close> and
  \<open>gateway/internal/runtimeconfig/snapshot.go\<close>, and the choice of the origin in \<open>gateway/internal/middleware/cors.go\<close>.
  Decoding JSON and parsing durations are arguments. The store and the manager that watches Consul are the code of the
  admin service.
\<close>

section \<open>The configuration\<close>

record CORSConfig =
  co_AllowOrigins :: "string list"
  co_AllowMethods :: "string list"
  co_AllowHeaders :: "string list"
  co_ExposeHeaders :: "string list"
  co_AllowCredentials :: bool
  co_MaxAge :: int

record RateLimitConfig =
  rc_Enabled :: bool
  rc_Limit :: int
  rc_Window :: string
  rc_RedisTimeout :: string
  rc_FailClosed :: bool

record CircuitBreakerConfig =
  cb_Enabled :: bool
  cb_MaxFailures :: u32
  cb_Timeout :: string
  cb_MinRequests :: u32
  cb_Interval :: string

record RuntimeAntiReplay =
  ar_Enabled :: bool
  ar_TimestampToleranceSecond :: int
  ar_NonceExpireSecond :: int
  ar_NonceCacheSize :: int
  ar_FallbackToLocal :: bool

record RuntimeConfig =
  gw_Version :: int
  gw_CORS :: "CORSConfig option"
  gw_RateLimit :: "RateLimitConfig option"
  gw_CircuitBreaker :: "CircuitBreakerConfig option"
  gw_AntiReplay :: "RuntimeAntiReplay option"

record gateway_codec =
  gd_Decode :: "string \<Rightarrow> go_error + RuntimeConfig"
  gd_ParseDuration :: "string \<Rightarrow> go_error + int"

definition validateRuntimeCORS :: "CORSConfig \<Rightarrow> go_error option" where
  "validateRuntimeCORS cfg =
    (if co_AllowOrigins cfg = [] \<or> co_AllowMethods cfg = []
     then Some (PlainErr ''allow_origins and allow_methods must not be empty'')
     else if co_MaxAge cfg < 0 then Some (PlainErr ''max_age must not be negative'')
     else if list_ex (\<lambda>origin. TrimSpace origin = ''*'' \<and> co_AllowCredentials cfg) (co_AllowOrigins cfg)
     then Some (PlainErr ''wildcard origin cannot be combined with credentials'')
     else None)"

definition positive :: "gateway_codec \<Rightarrow> string \<Rightarrow> bool" where
  "positive C raw = (case gd_ParseDuration C raw of Inl err \<Rightarrow> False | Inr d \<Rightarrow> 0 < d)"

definition validateRuntimeRateLimit :: "gateway_codec \<Rightarrow> RateLimitConfig \<Rightarrow> go_error option" where
  "validateRuntimeRateLimit C cfg =
    (if rc_Limit cfg \<le> 0 then Some (PlainErr ''limit must be positive'')
     else if \<not> positive C (rc_Window cfg) then Some (PlainErr (''window '' @ go_quote (rc_Window cfg) @ '' is invalid''))
     else if \<not> positive C (rc_RedisTimeout cfg)
     then Some (PlainErr (''redis_timeout '' @ go_quote (rc_RedisTimeout cfg) @ '' is invalid''))
     else None)"

text \<open>The two durations are visited in the order of a map, which decides only which of two errors is reported.\<close>

definition validateRuntimeCircuitBreaker :: "gateway_codec \<Rightarrow> (string \<times> string) list \<Rightarrow> CircuitBreakerConfig \<Rightarrow> go_error option" where
  "validateRuntimeCircuitBreaker C visited cfg =
    (if cb_MaxFailures cfg = 0 \<or> cb_MinRequests cfg = 0 then Some (PlainErr ''max_failures and min_requests must be positive'')
     else
       (case find (\<lambda>(name, raw). \<not> positive C raw) visited of
          Some (name, raw) \<Rightarrow> Some (PlainErr (name @ '' '' @ go_quote raw @ '' is invalid''))
        | None \<Rightarrow> None))"

definition breaker_durations :: "bool \<Rightarrow> CircuitBreakerConfig \<Rightarrow> (string \<times> string) list" where
  "breaker_durations timeout_first cfg =
    (let t = (''timeout'', cb_Timeout cfg); i = (''interval'', cb_Interval cfg) in if timeout_first then [t, i] else [i, t])"

definition ParseRuntimeConfig :: "gateway_codec \<Rightarrow> bool \<Rightarrow> string \<Rightarrow> go_error + RuntimeConfig" where
  "ParseRuntimeConfig C timeout_first data =
    (case gd_Decode C data of
       Inl err \<Rightarrow> Inl (WrapErr ''decode JSON: '' err)
     | Inr cfg \<Rightarrow>
         if gw_Version cfg \<le> 0 then Inl (PlainErr ''version must be positive'')
         else
           (case (gw_CORS cfg, gw_RateLimit cfg, gw_CircuitBreaker cfg, gw_AntiReplay cfg) of
              (Some cors, Some rate, Some breaker, Some replay) \<Rightarrow>
                (case validateRuntimeCORS cors of
                   Some err \<Rightarrow> Inl (WrapErr ''invalid cors: '' err)
                 | None \<Rightarrow>
                     (case validateRuntimeRateLimit C rate of
                        Some err \<Rightarrow> Inl (WrapErr ''invalid rate_limit: '' err)
                      | None \<Rightarrow>
                          (case validateRuntimeCircuitBreaker C (breaker_durations timeout_first breaker) breaker of
                             Some err \<Rightarrow> Inl (WrapErr ''invalid circuit_breaker: '' err)
                           | None \<Rightarrow>
                               if ar_TimestampToleranceSecond replay \<le> 0 \<or> ar_NonceExpireSecond replay \<le> 0 \<or> ar_NonceCacheSize replay \<le> 0
                               then Inl (PlainErr ''invalid anti_replay: timeout and cache values must be positive'')
                               else Inr cfg)))
            | _ \<Rightarrow> Inl (PlainErr ''cors, rate_limit, circuit_breaker and anti_replay are required'')))"

section \<open>The snapshot\<close>

record CORSRule =
  cr_AllowOrigins :: "string list"
  cr_AllowMethods :: "string list"
  cr_AllowHeaders :: "string list"
  cr_ExposeHeaders :: "string list"
  cr_AllowCredentials :: bool
  cr_MaxAge :: int

record RateLimitRule =
  rr_Enabled :: bool
  rl_Limit :: int
  rl_Window :: int
  rl_RedisTimeout :: int
  rl_FailClosed :: bool

record Snapshot =
  ss_Version :: int
  ss_CORS :: CORSRule
  ss_RateLimit :: RateLimitRule

definition BuildSnapshot :: "gateway_codec \<Rightarrow> RuntimeConfig option \<Rightarrow> go_error + Snapshot" where
  "BuildSnapshot C config =
    (case config of
       None \<Rightarrow> Inl (PlainErr ''runtime CORS or rate-limit config is nil'')
     | Some cfg \<Rightarrow>
         (case (gw_CORS cfg, gw_RateLimit cfg) of
            (Some cors, Some rate) \<Rightarrow>
              (case gd_ParseDuration C (rc_Window rate) of
                 Inl err \<Rightarrow> Inl (PlainErr (''invalid rate-limit window '' @ go_quote (rc_Window rate)))
               | Inr window \<Rightarrow>
                   if window \<le> 0 then Inl (PlainErr (''invalid rate-limit window '' @ go_quote (rc_Window rate)))
                   else
                     (case gd_ParseDuration C (rc_RedisTimeout rate) of
                        Inl err \<Rightarrow> Inl (PlainErr (''invalid rate-limit Redis timeout '' @ go_quote (rc_RedisTimeout rate)))
                      | Inr redisTimeout \<Rightarrow>
                          if redisTimeout \<le> 0
                          then Inl (PlainErr (''invalid rate-limit Redis timeout '' @ go_quote (rc_RedisTimeout rate)))
                          else Inr \<lparr>ss_Version = gw_Version cfg,
                            ss_CORS = \<lparr>cr_AllowOrigins = co_AllowOrigins cors, cr_AllowMethods = co_AllowMethods cors,
                              cr_AllowHeaders = co_AllowHeaders cors, cr_ExposeHeaders = co_ExposeHeaders cors,
                              cr_AllowCredentials = co_AllowCredentials cors, cr_MaxAge = co_MaxAge cors\<rparr>,
                            ss_RateLimit = \<lparr>rr_Enabled = rc_Enabled rate, rl_Limit = rc_Limit rate, rl_Window = window,
                              rl_RedisTimeout = redisTimeout, rl_FailClosed = rc_FailClosed rate\<rparr>\<rparr>))
          | _ \<Rightarrow> Inl (PlainErr ''runtime CORS or rate-limit config is nil'')))"

fun resolve_origins :: "string \<Rightarrow> bool \<Rightarrow> string list \<Rightarrow> string" where
  "resolve_origins origin credentials [] = []"
| "resolve_origins origin credentials (allowed # rest) =
     (if allowed = ''*'' then (if credentials then origin else ''*'')
      else if allowed = origin then origin
      else resolve_origins origin credentials rest)"

definition resolveAllowedOrigin :: "string \<Rightarrow> CORSRule \<Rightarrow> string" where
  "resolveAllowedOrigin origin cfg =
    (if origin = [] then [] else resolve_origins origin (cr_AllowCredentials cfg) (cr_AllowOrigins cfg))"

section \<open>What a published snapshot guarantees\<close>

text \<open>The snapshots that the manager may publish: those of accepted configurations.\<close>

definition acceptable :: "gateway_codec \<Rightarrow> Snapshot \<Rightarrow> bool" where
  "acceptable C s \<longleftrightarrow> (\<exists>first data cfg. ParseRuntimeConfig C first data = Inr cfg \<and> BuildSnapshot C (Some cfg) = Inr s)"

lemma ParseRuntimeConfig_valid:
  assumes "ParseRuntimeConfig C first data = Inr cfg"
  obtains cors rate where "gw_CORS cfg = Some cors" "gw_RateLimit cfg = Some rate" "validateRuntimeCORS cors = None"
    "validateRuntimeRateLimit C rate = None" "0 < gw_Version cfg"
  using assms by (auto simp: ParseRuntimeConfig_def split: sum.splits option.splits if_splits)

text \<open>An accepted configuration always has a snapshot, with a positive limit and window.\<close>

lemma parsed_config_builds:
  assumes "ParseRuntimeConfig C first data = Inr cfg"
  shows "\<exists>s. BuildSnapshot C (Some cfg) = Inr s \<and> 0 < rl_Limit (ss_RateLimit s) \<and> 0 < rl_Window (ss_RateLimit s)
    \<and> 0 < rl_RedisTimeout (ss_RateLimit s) \<and> ss_Version s = gw_Version cfg"
proof -
  obtain cors rate where cfg: "gw_CORS cfg = Some cors" "gw_RateLimit cfg = Some rate" "validateRuntimeRateLimit C rate = None"
    using ParseRuntimeConfig_valid [OF assms] .
  then show ?thesis
    by (auto simp: BuildSnapshot_def validateRuntimeRateLimit_def positive_def not_le split: sum.splits if_splits)
qed

lemma resolve_origins_allowed:
  assumes "resolve_origins origin credentials allowed \<noteq> []" "''*'' \<notin> set allowed"
  shows "resolve_origins origin credentials allowed = origin \<and> origin \<in> set allowed"
  using assms by (induction allowed) (auto split: if_splits)

lemma resolve_origins_wildcard: "resolve_origins origin False allowed \<in> {[], ''*'', origin}"
  by (induction allowed) auto

text \<open>With credentials, an accepted configuration lets a response name only an origin that it lists, and never the wildcard.\<close>

lemma credentials_need_listed_origin:
  assumes "acceptable C s" "cr_AllowCredentials (ss_CORS s)" "resolveAllowedOrigin origin (ss_CORS s) \<noteq> []"
  shows "resolveAllowedOrigin origin (ss_CORS s) = origin \<and> origin \<in> set (cr_AllowOrigins (ss_CORS s)) \<and> origin \<noteq> ''*''"
proof -
  obtain first data cfg where parse: "ParseRuntimeConfig C first data = Inr cfg" and build: "BuildSnapshot C (Some cfg) = Inr s"
    using assms(1) by (auto simp: acceptable_def)
  obtain cors rate where cors: "gw_CORS cfg = Some cors" "gw_RateLimit cfg = Some rate" "validateRuntimeCORS cors = None"
    using ParseRuntimeConfig_valid [OF parse] .
  have s: "cr_AllowOrigins (ss_CORS s) = co_AllowOrigins cors" "cr_AllowCredentials (ss_CORS s) = co_AllowCredentials cors"
    using build cors by (auto simp: BuildSnapshot_def split: sum.splits if_splits)
  have "TrimSpace ''*'' = ''*''" by code_simp
  with cors(3) assms(2) s have "''*'' \<notin> set (cr_AllowOrigins (ss_CORS s))"
    by (auto simp: validateRuntimeCORS_def list_ex_iff split: if_splits)
  with assms(3) resolve_origins_allowed [of origin "cr_AllowCredentials (ss_CORS s)"] show ?thesis
    by (auto simp: resolveAllowedOrigin_def split: if_splits)
qed

end
