(* ===== verification/Gateway_Http.thy ===== *)
theory Gateway_Http
  imports Gateway_Runtime Sliding_Window Auth_Common Tron_Address
begin

text \<open>
  A request through the HTTP server of the gateway: the middlewares of \<open>gateway/internal/middleware\<close>, the adapter to gRPC
  of \<open>gateway/internal/handler/grpc_handler.go\<close>, and the order in which \<open>gateway/internal/server\<close> puts them. A handler of
  the gin library gets the context and returns it with a flag that tells whether it panicked; \<open>c.Next\<close> is a call of the
  rest of the chain, and a middleware that does not call it has aborted. Logging and tracing are left out. The clock, the
  UUIDs, the verifier of tokens, the limiter and the services behind the gateway are arguments over a world.
\<close>

section \<open>The context of a request\<close>

record AccessTokenClaims =
  tc_Subject :: string
  tc_ID :: string
  tc_SessionID :: string
  tc_PreferredUsername :: string
  tc_Roles :: "string list"

datatype 'r body = ErrorBody code string string | MessageBody string | ResponseBody 'r | No_body

record 'r gin =
  gc_Method :: string
  gc_Header :: "string \<Rightarrow> string"
  gc_Body :: string
  gc_ClientIP :: string
  gc_FullPath :: string
  gc_Path :: string
  gc_Keys :: "string \<rightharpoonup> string"
  gc_Claims :: "AccessTokenClaims option"
  gc_Errors :: "go_error list"
  gc_written :: "(nat \<times> 'r body) option"
  gc_out :: "string \<rightharpoonup> string"
  gc_calls :: "(string \<times> string) list list"

type_synonym ('r, 'w) handler = "'r gin \<Rightarrow> 'w \<Rightarrow> (bool \<times> 'r gin) \<times> 'w"

definition GetString :: "'r gin \<Rightarrow> string \<Rightarrow> string" where
  "GetString c key = (case gc_Keys c key of None \<Rightarrow> [] | Some v \<Rightarrow> v)"

definition set_header :: "string \<Rightarrow> string \<Rightarrow> 'r gin \<Rightarrow> 'r gin" where
  "set_header k v c = c\<lparr>gc_out := (gc_out c)(k \<mapsto> v)\<rparr>"

text \<open>Only the first status of a response is sent.\<close>

definition write_response :: "nat \<Rightarrow> 'r body \<Rightarrow> 'r gin \<Rightarrow> 'r gin" where
  "write_response status b c = (if gc_written c = None then c\<lparr>gc_written := Some (status, b)\<rparr> else c)"

definition Fail :: "'r gin \<Rightarrow> go_error \<Rightarrow> 'w \<Rightarrow> (bool \<times> 'r gin) \<times> 'w" where
  "Fail c err w = ((False, c\<lparr>gc_Errors := gc_Errors c @ [err]\<rparr>), w)"

section \<open>Errors: \<open>middleware/error.go\<close>\<close>

text \<open>\<open>status.FromError\<close>: the message of a wrapped status is the text of the whole error.\<close>

definition status_of :: "(go_error \<Rightarrow> string) \<Rightarrow> go_error \<Rightarrow> (grpc_code \<times> string) option" where
  "status_of show_error e =
    (case e of
       StatusErr c m \<Rightarrow> Some (c, m)
     | _ \<Rightarrow> (case find_first is_status_err (errors_chain e) of Some (StatusErr c m) \<Rightarrow> Some (c, show_error e) | _ \<Rightarrow> None))"

fun status_app :: "go_error \<Rightarrow> string \<Rightarrow> grpc_code \<Rightarrow> app_error option" where
  "status_app err m Codes_InvalidArgument = Wrap (Some err) CodeInvalidArgument m 400"
| "status_app err m Codes_Unauthenticated = Wrap (Some err) CodeUnauthorized m 401"
| "status_app err m Codes_PermissionDenied = Wrap (Some err) CodeForbidden m 403"
| "status_app err m Codes_NotFound = Wrap (Some err) CodeNotFound m 404"
| "status_app err m Codes_AlreadyExists = Wrap (Some err) CodeConflict m 409"
| "status_app err m Codes_Aborted = Wrap (Some err) CodeConflict m 409"
| "status_app err m Codes_ResourceExhausted = Wrap (Some err) CodeTooManyRequests m 429"
| "status_app err m Codes_DeadlineExceeded = Wrap (Some err) CodeTimeout ''request timed out'' 504"
| "status_app err m Codes_Canceled = Wrap (Some err) CodeTimeout ''request canceled'' 408"
| "status_app err m Codes_Unavailable = Wrap (Some err) CodeUnavailable ''service is unavailable'' 503"
| "status_app err m Codes_Unimplemented = Wrap (Some err) CodeInternal ''service method is not implemented'' 501"
| "status_app err m _ = Wrap (Some err) CodeInternal ''internal server error'' 500"

definition FromGRPCError :: "(go_error \<Rightarrow> string) \<Rightarrow> go_error option \<Rightarrow> app_error option" where
  "FromGRPCError show_error err =
    (case err of
       None \<Rightarrow> None
     | Some e \<Rightarrow>
         (case errors_As_app e of
            Some appErr \<Rightarrow> appErr
          | None \<Rightarrow> (case status_of show_error e of None \<Rightarrow> As (Some e) | Some (code, message) \<Rightarrow> status_app e message code)))"

text \<open>Names of headers are in their canonical form.\<close>

definition RequestIDHeader :: string where "RequestIDHeader = ''X-Request-Id''"

definition WriteError :: "(go_error \<Rightarrow> string) \<Rightarrow> go_error \<Rightarrow> 'r gin \<Rightarrow> 'r gin" where
  "WriteError show_error err c =
    (case FromGRPCError show_error (Some err) of
       None \<Rightarrow> c
     | Some appErr \<Rightarrow>
         let status = (if err_status appErr < 400 \<or> 599 < err_status appErr then 500 else err_status appErr)
         in write_response status (ErrorBody (err_code appErr) (err_message appErr) (gc_Header c RequestIDHeader))
              (set_header ''Content-Type'' ''application/json; charset=utf-8'' c))"

definition ErrorHandler :: "(go_error \<Rightarrow> string) \<Rightarrow> ('r, 'w) handler \<Rightarrow> ('r, 'w) handler" where
  "ErrorHandler show_error Next c w =
    (case Next c w of
       ((True, c), w) \<Rightarrow>
         ((False, if gc_written c = None
            then WriteError show_error (AppErr (Some (New CodeInternal ''internal server error'' 500))) c else c), w)
     | ((False, c), w) \<Rightarrow>
         if gc_Errors c = [] then ((False, c), w)
         else ((False, if gc_written c = None then WriteError show_error (last (gc_Errors c)) c else c), w))"

section \<open>Request ID and CORS\<close>

definition RequestIDKey :: string where "RequestIDKey = ''request_id''"

definition RequestID :: "('w \<Rightarrow> string \<times> 'w) \<Rightarrow> ('r, 'w) handler \<Rightarrow> ('r, 'w) handler" where
  "RequestID NewString Next c w =
    (let requestID = TrimSpace (gc_Header c RequestIDHeader);
         (requestID, w) = (if requestID = [] \<or> 128 < length requestID then NewString w else (requestID, w))
     in Next (set_header RequestIDHeader requestID (c\<lparr>gc_Keys := (gc_Keys c)(RequestIDKey \<mapsto> requestID),
          gc_Header := (gc_Header c)(RequestIDHeader := requestID)\<rparr>)) w)"

text \<open>\<open>strings.Join(_, ", ")\<close>\<close>

fun join_comma :: "string list \<Rightarrow> string" where
  "join_comma [] = []"
| "join_comma [s] = s"
| "join_comma (s # t # ss) = s @ '', '' @ join_comma (t # ss)"

definition header_if :: "bool \<Rightarrow> string \<Rightarrow> string \<Rightarrow> 'r gin \<Rightarrow> 'r gin" where
  "header_if b k v c = c\<lparr>gc_out := (if b then (gc_out c)(k \<mapsto> v) else gc_out c)\<rparr>"

definition cors_headers :: "CORSRule \<Rightarrow> 'r gin \<Rightarrow> 'r gin" where
  "cors_headers cfg c =
    (let origin = gc_Header c ''Origin'';
         allowedOrigin = resolveAllowedOrigin origin cfg;
         c = header_if (origin \<noteq> []) ''Vary'' ''Origin'' c;
         c = header_if (allowedOrigin \<noteq> []) ''Access-Control-Allow-Origin'' allowedOrigin c;
         c = header_if (cr_AllowMethods cfg \<noteq> []) ''Access-Control-Allow-Methods'' (join_comma (cr_AllowMethods cfg)) c;
         c = header_if (cr_AllowHeaders cfg \<noteq> []) ''Access-Control-Allow-Headers'' (join_comma (cr_AllowHeaders cfg)) c;
         c = header_if (cr_ExposeHeaders cfg \<noteq> []) ''Access-Control-Expose-Headers'' (join_comma (cr_ExposeHeaders cfg)) c;
         c = header_if (cr_AllowCredentials cfg) ''Access-Control-Allow-Credentials'' ''true'' c
     in header_if (0 < cr_MaxAge cfg) ''Access-Control-Max-Age'' (int_to_string (cr_MaxAge cfg)) c)"

definition Cors_Handle :: "('w \<Rightarrow> Snapshot option) \<Rightarrow> ('r, 'w) handler \<Rightarrow> ('r, 'w) handler" where
  "Cors_Handle Load Next c w =
    (case Load w of
       None \<Rightarrow> Fail c (PlainErr ''runtime config is unavailable'') w
     | Some snapshot \<Rightarrow>
         let c = cors_headers (ss_CORS snapshot) c
         in if gc_Method c = ''OPTIONS'' then ((False, write_response 204 No_body c), w) else Next c w)"

section \<open>Authentication\<close>

record AccessTokenConfig =
  at_Issuers :: "string list"
  at_Audience :: string
  at_Algorithm :: string
  at_JWKSURL :: string
  at_RolePriority :: "string list"

text \<open>\<open>regexp\<close>: \<open>(^|-)name$\<close> matches the name itself and what ends in a hyphen and the name.\<close>

definition RolesMatching :: "AccessTokenConfig \<Rightarrow> string \<Rightarrow> string list" where
  "RolesMatching a name =
    (let name = TrimSpace name
     in if name = [] then []
        else filter (\<lambda>role. role \<noteq> [] \<and> (role = name \<or> suffix (''-'' @ name) role)) (map TrimSpace (at_RolePriority a)))"

definition NewJWTMiddleware :: "AccessTokenConfig \<Rightarrow> go_error + string list" where
  "NewJWTMiddleware cfg =
    (if at_Algorithm cfg \<noteq> ''RS256'' then Inl (PlainErr (''unsupported JWT algorithm '' @ go_quote (at_Algorithm cfg)))
     else if TrimSpace (at_Audience cfg) = [] then Inl (PlainErr ''access token audience is empty'')
     else if length (at_Issuers cfg) \<noteq> 1 \<or> TrimSpace (at_Issuers cfg ! 0) = []
     then Inl (PlainErr ''exactly one access token issuer is required'')
     else if TrimSpace (at_JWKSURL cfg) = [] then Inl (PlainErr ''access token JWKS URL is empty'')
     else
       let rolePriority = filter (\<lambda>role. role \<noteq> []) (map TrimSpace (at_RolePriority cfg))
       in if rolePriority = [] then Inl (PlainErr ''access token role priority is empty'') else Inr rolePriority)"

definition PrimaryRole :: "AccessTokenClaims \<Rightarrow> string list \<Rightarrow> string" where
  "PrimaryRole c priority = (case find (\<lambda>role. role \<in> set (tc_Roles c)) priority of None \<Rightarrow> [] | Some role \<Rightarrow> role)"

definition extractBearerToken :: "string \<Rightarrow> go_error + string" where
  "extractBearerToken authorization =
    (let parts = Fields authorization
     in if length parts \<noteq> 2 \<or> \<not> EqualFold (parts ! 0) ''Bearer''
        then Inl (Unauthorized ''missing or invalid Authorization header'')
        else if parts ! 1 = [] then Inl (Unauthorized ''access token is empty'') else Inr (parts ! 1))"

definition extractRequestToken :: "'r gin \<Rightarrow> go_error + string" where
  "extractRequestToken c =
    (let authorization = TrimSpace (gc_Header c ''Authorization'')
     in if authorization \<noteq> [] then extractBearerToken authorization
        else
          let token = TrimSpace (gc_Header c ''X-Forwarded-Access-Token'')
          in if token \<noteq> [] then Inr token else Inl (Unauthorized ''access token is missing''))"

text \<open>The verifier returns the claims of the token, whose decoding may fail.\<close>

definition validateJWT :: "(string \<Rightarrow> go_error + (go_error + AccessTokenClaims)) \<Rightarrow> string list \<Rightarrow> string
    \<Rightarrow> go_error + AccessTokenClaims" where
  "validateJWT verify rolePriority tokenString =
    (case verify tokenString of
       Inl err \<Rightarrow> Inl (AppErr (Wrap (Some err) CodeUnauthorized ''invalid or expired access token'' 401))
     | Inr (Inl err) \<Rightarrow> Inl (AppErr (Wrap (Some err) CodeUnauthorized ''invalid access token claims'' 401))
     | Inr (Inr claims) \<Rightarrow>
         if TrimSpace (tc_Subject claims) = [] then Inl (Unauthorized ''access token subject is empty'')
         else if TrimSpace (tc_ID claims) = [] then Inl (Unauthorized ''access token ID is empty'')
         else if PrimaryRole claims rolePriority = [] then Inl (Unauthorized ''access token has no application role'')
         else Inr claims)"

definition JWT_Handle :: "('w \<Rightarrow> string \<Rightarrow> go_error + (go_error + AccessTokenClaims)) \<Rightarrow> string list
    \<Rightarrow> ('r, 'w) handler \<Rightarrow> ('r, 'w) handler" where
  "JWT_Handle verify rolePriority Next c w =
    (case extractRequestToken c of
       Inl err \<Rightarrow> Fail c err w
     | Inr tokenString \<Rightarrow>
         (case validateJWT (verify w) rolePriority tokenString of
            Inl err \<Rightarrow> Fail c err w
          | Inr claims \<Rightarrow>
              Next (c\<lparr>gc_Keys := (gc_Keys c)(''auth.user_id'' \<mapsto> tc_Subject claims, ''auth.username'' \<mapsto> tc_PreferredUsername claims,
                ''auth.role'' \<mapsto> PrimaryRole claims rolePriority, ''auth.session_id'' \<mapsto> tc_SessionID claims,
                ''auth.token_id'' \<mapsto> tc_ID claims, ''auth.access_token'' \<mapsto> tokenString), gc_Claims := Some claims\<rparr>) w))"

definition RequireAnyRole :: "string list \<Rightarrow> ('r, 'w) handler \<Rightarrow> ('r, 'w) handler" where
  "RequireAnyRole roles Next c w =
    (let allowed = filter (\<lambda>role. role \<noteq> []) (map TrimSpace roles)
     in (case gc_Claims c of
           None \<Rightarrow> Fail c (Unauthorized ''authentication claims are missing'') w
         | Some claims \<Rightarrow>
             if list_ex (\<lambda>role. role \<in> set allowed) (tc_Roles claims) then Next c w
             else Fail c (Forbidden ''insufficient permissions'') w))"

section \<open>Rate limit\<close>

definition rateLimitKey :: "'r gin \<Rightarrow> string" where
  "rateLimitKey c =
    (let userID = TrimSpace (GetString c ''auth.user_id'');
         (dimension, identity) = (if userID \<noteq> [] then (''user'', userID) else (''ip'', TrimSpace (gc_ClientIP c)));
         route = (if gc_FullPath c = [] then gc_Path c else gc_FullPath c);
         sum = Sum256 (string_bytes (identity @ ''|'' @ route))
     in ''gateway:rate_limit:'' @ dimension @ '':'' @ lower_hex (take 16 sum))"

definition retryAfterSecods :: "int \<Rightarrow> int" where
  "retryAfterSecods duration =
    (if duration \<le> 0 then 1
     else
       let n = go_int (duration + 1000000000 - 1); seconds = (if n < 0 then - ((- n) div 1000000000) else n div 1000000000)
       in if seconds < 1 then 1 else seconds)"

definition handleResult :: "('r, 'w) handler \<Rightarrow> RateResult \<Rightarrow> ('r, 'w) handler" where
  "handleResult Next result c w =
    (let c = set_header ''X-RateLimit-Remaining'' (int_to_string (rr_Remaining result))
               (set_header ''X-RateLimit-Limit'' (int_to_string (rr_Limit result)) c)
     in if rr_Allowed result then Next c w
        else Fail (set_header ''Retry-After'' (int_to_string (retryAfterSecods (rr_RetryAfter result))) c)
               (AppErr (Some (New CodeTooManyRequests ''too many requests'' 429))) w)"

definition RateLimit_Handle :: "('w \<Rightarrow> Snapshot option) \<Rightarrow> (string \<Rightarrow> int \<Rightarrow> int \<Rightarrow> 'w \<Rightarrow> (go_error + RateResult) \<times> 'w)
    \<Rightarrow> ('r, 'w) handler \<Rightarrow> ('r, 'w) handler" where
  "RateLimit_Handle Load allow Next c w =
    (case Load w of
       None \<Rightarrow> Fail c (Unavailable ''runtime config is unavailable'') w
     | Some snapshot \<Rightarrow>
         let rule = ss_RateLimit snapshot
         in if \<not> rr_Enabled rule then Next c w
            else
              (case allow (rateLimitKey c) (rl_Limit rule) (rl_Window rule) w of
                 (Inr result, w) \<Rightarrow> handleResult Next result c w
               | (Inl err, w) \<Rightarrow>
                   if rl_FailClosed rule
                   then Fail c (AppErr (Some (New CodeUnavailable ''rate-limit service is unavailable'' 503))) w
                   else Next (set_header ''X-RateLimit-Status'' ''unavailable'' c) w))"

section \<open>The adapter to gRPC\<close>

definition WithMetadata :: "'r gin \<Rightarrow> (string \<times> string) list" where
  "WithMetadata c =
    (let requestID = GetString c RequestIDKey; userID = GetString c ''auth.user_id''
     in (if requestID \<noteq> [] then [(''x-request-id'', requestID)] else []) @
        (if userID \<noteq> []
         then [(''x-user-id'', userID), (''x-user-name'', GetString c ''auth.username''), (''x-user-role'', GetString c ''auth.role''),
           (''x-session-id'', GetString c ''auth.session_id''), (''x-token-id'', GetString c ''auth.token_id''),
           (''authorization'', ''Bearer '' @ GetString c ''auth.access_token'')]
         else []))"

fun http_status :: "grpc_code \<Rightarrow> nat" where
  "http_status Codes_InvalidArgument = 400"
| "http_status Codes_Unauthenticated = 401"
| "http_status Codes_PermissionDenied = 403"
| "http_status Codes_NotFound = 404"
| "http_status Codes_ResourceExhausted = 429"
| "http_status Codes_Unavailable = 503"
| "http_status _ = 500"

definition writeGrpcError :: "(go_error \<Rightarrow> string) \<Rightarrow> go_error \<Rightarrow> 'r gin \<Rightarrow> 'r gin" where
  "writeGrpcError show_error err c =
    (case status_of show_error err of
       None \<Rightarrow> write_response 500 (MessageBody (show_error err)) c
     | Some (code, message) \<Rightarrow> write_response (http_status code) (MessageBody message) c)"

datatype 'q bound = Bound 'q | Bind_EOF 'q | Bind_failed string

record ('q, 'r, 'w) endpoint =
  ep_bind :: "string \<Rightarrow> 'q bound"
  ep_call :: "(string \<times> string) list \<Rightarrow> 'q \<Rightarrow> 'w \<Rightarrow> (go_error + 'r) go_outcome \<times> 'w"

definition call_endpoint :: "(go_error \<Rightarrow> string) \<Rightarrow> ('q, 'r, 'w) endpoint \<Rightarrow> 'q \<Rightarrow> ('r, 'w) handler" where
  "call_endpoint show_error ep req c w =
    (let md = WithMetadata c; c = c\<lparr>gc_calls := gc_calls c @ [md]\<rparr>
     in (case ep_call ep md req w of
           (Panicked, w) \<Rightarrow> ((True, c), w)
         | (Returned (Inl err), w) \<Rightarrow> ((False, writeGrpcError show_error err c), w)
         | (Returned (Inr resp), w) \<Rightarrow> ((False, write_response 200 (ResponseBody resp) c), w)))"

definition Grpc_Handle :: "(go_error \<Rightarrow> string) \<Rightarrow> ('q, 'r, 'w) endpoint \<Rightarrow> ('r, 'w) handler" where
  "Grpc_Handle show_error ep c w =
    (case ep_bind ep (gc_Body c) of
       Bind_failed err \<Rightarrow> ((False, write_response 400 (MessageBody err) c), w)
     | Bind_EOF req \<Rightarrow> call_endpoint show_error ep req c w
     | Bound req \<Rightarrow> call_endpoint show_error ep req c w)"

section \<open>Routes\<close>

record 'w http_server =
  hs_config :: AccessTokenConfig
  hs_rolePriority :: "string list"
  hs_NewString :: "'w \<Rightarrow> string \<times> 'w"
  hs_Load :: "'w \<Rightarrow> Snapshot option"
  hs_Verify :: "'w \<Rightarrow> string \<Rightarrow> go_error + (go_error + AccessTokenClaims)"
  hs_Allow :: "string \<Rightarrow> int \<Rightarrow> int \<Rightarrow> 'w \<Rightarrow> (go_error + RateResult) \<times> 'w"
  hs_show :: "go_error \<Rightarrow> string"

definition engine_Use :: "'w http_server \<Rightarrow> ('r, 'w) handler \<Rightarrow> ('r, 'w) handler" where
  "engine_Use S h = ErrorHandler (hs_show S) (RequestID (hs_NewString S) (Cors_Handle (hs_Load S) h))"

definition protected_Use :: "'w http_server \<Rightarrow> string list \<Rightarrow> ('r, 'w) handler \<Rightarrow> ('r, 'w) handler" where
  "protected_Use S roles h =
    JWT_Handle (hs_Verify S) (hs_rolePriority S) (RequireAnyRole roles (RateLimit_Handle (hs_Load S) (hs_Allow S) h))"

definition user_route :: "'w http_server \<Rightarrow> ('q, 'r, 'w) endpoint \<Rightarrow> ('r, 'w) handler" where
  "user_route S ep = engine_Use S (protected_Use S (at_RolePriority (hs_config S)) (Grpc_Handle (hs_show S) ep))"

definition admin_route :: "'w http_server \<Rightarrow> ('q, 'r, 'w) endpoint \<Rightarrow> ('r, 'w) handler" where
  "admin_route S ep = engine_Use S (protected_Use S (RolesMatching (hs_config S) ''admin'') (Grpc_Handle (hs_show S) ep))"

definition public_route :: "'w http_server \<Rightarrow> ('q, 'r, 'w) endpoint \<Rightarrow> ('r, 'w) handler" where
  "public_route S ep = engine_Use S (RateLimit_Handle (hs_Load S) (hs_Allow S) (Grpc_Handle (hs_show S) ep))"

section \<open>What reaches a service\<close>

text \<open>The end of a chain: the request was refused before any service was called, or one service was called.\<close>

definition untouched :: "'r gin \<Rightarrow> bool" where
  "untouched c \<longleftrightarrow> gc_Errors c = [] \<and> gc_written c = None \<and> gc_calls c = []"

definition refused :: "(go_error \<Rightarrow> string) \<Rightarrow> bool \<times> 'r gin \<Rightarrow> bool" where
  "refused sh r \<longleftrightarrow> \<not> fst r \<and> gc_calls (snd r) = []
     \<and> ((\<exists>e a. gc_Errors (snd r) = [e] \<and> gc_written (snd r) = None \<and> FromGRPCError sh (Some e) = Some a
           \<and> err_status a \<in> {401, 403, 429, 500, 503})
        \<or> gc_Errors (snd r) = [] \<and> (\<exists>st b. gc_written (snd r) = Some (st, b) \<and> st \<in> {204, 400}))"

definition forwarded :: "(string \<times> string) list \<Rightarrow> bool \<times> 'r gin \<Rightarrow> bool" where
  "forwarded md r \<longleftrightarrow> gc_calls (snd r) = [md] \<and> gc_Errors (snd r) = [] \<and> (gc_written (snd r) = None \<longleftrightarrow> fst r)"

definition admitted :: "'w http_server \<Rightarrow> string \<Rightarrow> 'w \<Rightarrow> bool" where
  "admitted S key w \<longleftrightarrow>
     (case hs_Load S w of
        None \<Rightarrow> False
      | Some s \<Rightarrow>
          let rule = ss_RateLimit s
          in \<not> rr_Enabled rule \<or>
             (case fst (hs_Allow S key (rl_Limit rule) (rl_Window rule) w) of
                Inl err \<Rightarrow> \<not> rl_FailClosed rule | Inr result \<Rightarrow> rr_Allowed result))"

lemma untouched_frame [simp]:
  "untouched (set_header k v c) = untouched c" "untouched (c\<lparr>gc_Keys := ks\<rparr>) = untouched c"
  "untouched (c\<lparr>gc_Claims := cl\<rparr>) = untouched c" "untouched (c\<lparr>gc_Header := h\<rparr>) = untouched c"
  "untouched (c\<lparr>gc_out := out\<rparr>) = untouched c"
  by (simp_all add: untouched_def set_header_def)

lemma FromGRPCError_app [simp]:
  "FromGRPCError sh (Some (AppErr (Some a))) = Some a"
proof (cases a)
  case (AppError c m s cause)
  then have "errors_chain (AppErr (Some a)) = AppErr (Some a) # (case cause of None \<Rightarrow> [] | Some e \<Rightarrow> errors_chain e)"
    by (cases cause) auto
  then show ?thesis by (simp add: FromGRPCError_def errors_As_app_def)
qed

lemma Fail_refused:
  assumes "untouched c" "FromGRPCError sh (Some err) = Some a" "err_status a \<in> {401, 403, 429, 500, 503}" "Fail c err w = (r, w')"
  shows "refused sh r"
  using assms by (auto simp: refused_def untouched_def Fail_def)

lemma Fail_app_refused:
  assumes "untouched c" "err_status a \<in> {401, 403, 429, 500, 503}" "Fail c (AppErr (Some a)) w = (r, w')"
  shows "refused sh r"
  using assms by (intro Fail_refused [where err = "AppErr (Some a)"]) auto

lemma Grpc_Handle_outcome:
  assumes "untouched c" "Grpc_Handle sh ep c w = (r, w')"
  shows "refused sh r \<or> forwarded (WithMetadata c) r"
proof -
  have "forwarded (WithMetadata c) r" if "call_endpoint sh ep req c w = (r, w')" for req
    using assms(1) that
    by (auto simp: call_endpoint_def forwarded_def untouched_def writeGrpcError_def write_response_def Let_def
        split: prod.splits go_outcome.splits sum.splits option.splits)
  with assms show ?thesis
    by (auto simp: Grpc_Handle_def refused_def untouched_def write_response_def split: bound.splits)
qed

lemma RateLimit_outcome:
  assumes "untouched c" "RateLimit_Handle (hs_Load S) (hs_Allow S) H c w = (r, w')"
  shows "refused sh r \<or> (\<exists>out w1. admitted S (rateLimitKey c) w \<and> H (c\<lparr>gc_out := out\<rparr>) w1 = (r, w'))"
proof (cases "hs_Load S w")
  case None
  with assms show ?thesis
    by (intro disjI1 Fail_app_refused [OF assms(1)]) (auto simp: RateLimit_Handle_def Unavailable_def New_def)
next
  case (Some s)
  define rule where "rule = ss_RateLimit s"
  obtain a w1 where allow: "hs_Allow S (rateLimitKey c) (rl_Limit rule) (rl_Window rule) w = (a, w1)" by fastforce
  have key: "admitted S (rateLimitKey c) w \<longleftrightarrow> \<not> rr_Enabled rule \<or> (case a of Inl err \<Rightarrow> \<not> rl_FailClosed rule | Inr result \<Rightarrow> rr_Allowed result)"
    using Some allow by (simp add: admitted_def rule_def [symmetric] Let_def)
  have frame: "c = c\<lparr>gc_out := gc_out c\<rparr>" by simp
  show ?thesis
  proof (cases "rr_Enabled rule")
    case False
    with assms(2) Some key have "admitted S (rateLimitKey c) w" "H (c\<lparr>gc_out := gc_out c\<rparr>) w = (r, w')"
      by (simp_all add: RateLimit_Handle_def rule_def Let_def)
    then show ?thesis by blast
  next
    case True
    show ?thesis
    proof (cases a)
      case (Inl err)
      show ?thesis
      proof (cases "rl_FailClosed rule")
        case True
        with assms Some allow Inl \<open>rr_Enabled rule\<close> show ?thesis
          by (intro disjI1 Fail_app_refused [OF assms(1)]) (auto simp: RateLimit_Handle_def rule_def New_def)
      next
        case False
        with assms(2) Some allow Inl \<open>rr_Enabled rule\<close> key show ?thesis
          by (auto simp: RateLimit_Handle_def rule_def set_header_def)
      qed
    next
      case (Inr result)
      show ?thesis
      proof (cases "rr_Allowed result")
        case True
        with assms(2) Some allow Inr \<open>rr_Enabled rule\<close> key show ?thesis
          by (auto simp: RateLimit_Handle_def handleResult_def rule_def set_header_def Let_def)
      next
        case False
        with assms Some allow Inr \<open>rr_Enabled rule\<close> have "Fail (set_header ''Retry-After'' (int_to_string (retryAfterSecods (rr_RetryAfter result)))
            (set_header ''X-RateLimit-Remaining'' (int_to_string (rr_Remaining result))
              (set_header ''X-RateLimit-Limit'' (int_to_string (rr_Limit result)) c)))
            (AppErr (Some (New CodeTooManyRequests ''too many requests'' 429))) w1 = (r, w')"
          by (simp add: RateLimit_Handle_def handleResult_def rule_def Let_def)
        from Fail_app_refused [OF _ _ this] assms(1) show ?thesis by (simp add: New_def)
      qed
    qed
  qed
qed

lemma RequireAnyRole_outcome:
  assumes "untouched c" "RequireAnyRole roles H c w = (r, w')" "gc_Claims c = Some claims"
  shows "refused sh r \<or> (\<exists>role \<in> set (tc_Roles claims). role \<noteq> [] \<and> role \<in> TrimSpace ` set roles) \<and> H c w = (r, w')"
proof (cases "list_ex (\<lambda>role. role \<in> set (filter (\<lambda>role. role \<noteq> []) (map TrimSpace roles))) (tc_Roles claims)")
  case True
  then have "\<exists>role \<in> set (tc_Roles claims). role \<noteq> [] \<and> role \<in> TrimSpace ` set roles" by (auto simp: list_ex_iff)
  with True assms show ?thesis by (simp add: RequireAnyRole_def)
next
  case False
  with assms have "Fail c (AppErr (Some (New CodeForbidden ''insufficient permissions'' 403))) w = (r, w')"
    by (simp add: RequireAnyRole_def Forbidden_def)
  from Fail_app_refused [OF assms(1) _ this] show ?thesis by (simp add: New_def)
qed

lemma extract_errors: "extractRequestToken c = Inl err \<Longrightarrow> \<exists>m. err = Unauthorized m"
  by (auto simp: extractRequestToken_def extractBearerToken_def Let_def split: if_splits)

lemma validateJWT_Inl: "validateJWT V prio token = Inl err \<Longrightarrow> \<exists>a. err = AppErr (Some a) \<and> err_status a = 401"
  by (auto simp: validateJWT_def Unauthorized_def New_def Wrap_def split: sum.splits if_splits)

lemma validateJWT_Inr:
  "validateJWT V prio token = Inr claims \<Longrightarrow>
    V token = Inr (Inr claims) \<and> TrimSpace (tc_Subject claims) \<noteq> [] \<and> TrimSpace (tc_ID claims) \<noteq> [] \<and> PrimaryRole claims prio \<noteq> []"
  by (auto simp: validateJWT_def split: sum.splits if_splits)

text \<open>The metadata of an authenticated request.\<close>

definition identity_of :: "string list \<Rightarrow> string \<Rightarrow> AccessTokenClaims \<Rightarrow> (string \<times> string) list" where
  "identity_of prio token claims =
    [(''x-user-id'', tc_Subject claims), (''x-user-name'', tc_PreferredUsername claims), (''x-user-role'', PrimaryRole claims prio),
     (''x-session-id'', tc_SessionID claims), (''x-token-id'', tc_ID claims), (''authorization'', ''Bearer '' @ token)]"

definition user_key :: "'r gin \<Rightarrow> string \<Rightarrow> string" where
  "user_key c subject = rateLimitKey (c\<lparr>gc_Keys := [''auth.user_id'' \<mapsto> subject]\<rparr>)"

lemma JWT_outcome:
  assumes "untouched c" "JWT_Handle verify prio H c w = (r, w')"
  shows "refused sh r \<or> (\<exists>token claims ks. extractRequestToken c = Inr token \<and> verify w token = Inr (Inr claims)
    \<and> TrimSpace (tc_Subject claims) \<noteq> [] \<and> TrimSpace (tc_ID claims) \<noteq> [] \<and> PrimaryRole claims prio \<noteq> []
    \<and> H (c\<lparr>gc_Keys := ks, gc_Claims := Some claims\<rparr>) w = (r, w')
    \<and> (\<forall>out. rateLimitKey (c\<lparr>gc_Keys := ks, gc_Claims := Some claims\<rparr>) = user_key c (tc_Subject claims)
       \<and> WithMetadata (c\<lparr>gc_Keys := ks, gc_Claims := Some claims, gc_out := out\<rparr>)
         = (case gc_Keys c RequestIDKey of Some i \<Rightarrow> if i = [] then [] else [(''x-request-id'', i)] | None \<Rightarrow> []) @ identity_of prio token claims))"
proof (cases "extractRequestToken c")
  case (Inl err)
  then obtain m where "err = Unauthorized m" using extract_errors by blast
  with Inl assms show ?thesis
    by (intro disjI1 Fail_app_refused [OF assms(1)]) (auto simp: JWT_Handle_def Unauthorized_def New_def)
next
  case (Inr token)
  show ?thesis
  proof (cases "validateJWT (verify w) prio token")
    case (Inl err)
    then obtain a where "err = AppErr (Some a)" "err_status a = 401" using validateJWT_Inl by blast
    with Inl Inr assms show ?thesis by (intro disjI1 Fail_app_refused [OF assms(1)]) (auto simp: JWT_Handle_def)
  next
    case ok: (Inr claims)
    define ks where "ks = (gc_Keys c)(''auth.user_id'' \<mapsto> tc_Subject claims, ''auth.username'' \<mapsto> tc_PreferredUsername claims,
      ''auth.role'' \<mapsto> PrimaryRole claims prio, ''auth.session_id'' \<mapsto> tc_SessionID claims,
      ''auth.token_id'' \<mapsto> tc_ID claims, ''auth.access_token'' \<mapsto> token)"
    have run: "H (c\<lparr>gc_Keys := ks, gc_Claims := Some claims\<rparr>) w = (r, w')"
      using assms(2) Inr ok by (simp add: JWT_Handle_def ks_def)
    have sub: "tc_Subject claims \<noteq> []" using validateJWT_Inr [OF ok] by auto
    have keys: "ks ''auth.user_id'' = Some (tc_Subject claims)" "ks ''auth.username'' = Some (tc_PreferredUsername claims)"
        "ks ''auth.role'' = Some (PrimaryRole claims prio)" "ks ''auth.session_id'' = Some (tc_SessionID claims)"
        "ks ''auth.token_id'' = Some (tc_ID claims)" "ks ''auth.access_token'' = Some token" "ks RequestIDKey = gc_Keys c RequestIDKey"
      by (simp_all add: ks_def RequestIDKey_def)
    have "rateLimitKey (c\<lparr>gc_Keys := ks, gc_Claims := Some claims\<rparr>) = user_key c (tc_Subject claims)"
      by (simp add: rateLimitKey_def user_key_def GetString_def keys Let_def)
    moreover have "WithMetadata (c\<lparr>gc_Keys := ks, gc_Claims := Some claims, gc_out := out\<rparr>)
         = (case gc_Keys c RequestIDKey of Some i \<Rightarrow> if i = [] then [] else [(''x-request-id'', i)] | None \<Rightarrow> []) @ identity_of prio token claims" for out
      using sub by (auto simp: WithMetadata_def GetString_def keys identity_of_def split: option.split)
    ultimately show ?thesis using Inr validateJWT_Inr [OF ok] run by blast
  qed
qed

lemma Cors_outcome:
  assumes "untouched c" "Cors_Handle Load H c w = (r, w')"
  shows "refused sh r \<or> (\<exists>out. H (c\<lparr>gc_out := out\<rparr>) w = (r, w'))"
proof (cases "Load w")
  case None
  have "FromGRPCError sh (Some (PlainErr ''runtime config is unavailable''))
      = Some (AppError CodeInternal ''internal server error'' 500 (Some (PlainErr ''runtime config is unavailable'')))"
    by (simp add: FromGRPCError_def errors_As_app_def status_of_def As_def)
  moreover have "Fail c (PlainErr ''runtime config is unavailable'') w = (r, w')"
    using None assms(2) by (simp add: Cors_Handle_def)
  ultimately have "refused sh r" by (intro Fail_refused [OF assms(1)]) (assumption | simp)+
  then show ?thesis ..
next
  case (Some snapshot)
  obtain out where out: "cors_headers (ss_CORS snapshot) c = c\<lparr>gc_out := out\<rparr>"
    by (simp add: cors_headers_def header_if_def Let_def)
  show ?thesis
  proof (cases "gc_Method c = ''OPTIONS''")
    case True
    with assms Some out have "r = (False, write_response 204 No_body (c\<lparr>gc_out := out\<rparr>))" by (simp add: Cors_Handle_def)
    with assms(1) show ?thesis by (simp add: refused_def untouched_def write_response_def)
  next
    case False
    with assms(2) Some out have "H (c\<lparr>gc_out := out\<rparr>) w = (r, w')" by (simp add: Cors_Handle_def)
    then show ?thesis by blast
  qed
qed

lemma RequestID_outcome:
  assumes "RequestID NewString H c w = (r, w')"
  shows "\<exists>i out w1. H (c\<lparr>gc_Keys := (gc_Keys c)(RequestIDKey \<mapsto> i), gc_Header := (gc_Header c)(RequestIDHeader := i), gc_out := out\<rparr>) w1 = (r, w')"
  using assms by (auto simp: RequestID_def set_header_def Let_def split: if_splits prod.splits)

lemma ErrorHandler_answers:
  assumes "ErrorHandler sh H c w = ((p, c'), w')" "H c w = (r, w1)" "refused sh r \<or> forwarded md r"
  shows "\<not> p \<and> (\<exists>st b. gc_written c' = Some (st, b) \<and> (gc_calls c' = [] \<longrightarrow> st \<in> {204, 400, 401, 403, 429, 500, 503}))
    \<and> (gc_calls c' \<noteq> [] \<longrightarrow> forwarded md r \<and> gc_calls c' = [md])"
proof -
  obtain q c1 where r: "r = (q, c1)" by fastforce
  show ?thesis
  proof (cases "refused sh r")
    case True
    with assms(1,2) r show ?thesis
      by (auto simp: ErrorHandler_def refused_def WriteError_def write_response_def set_header_def Let_def)
  next
    case False
    with assms r show ?thesis
      by (auto simp: ErrorHandler_def forwarded_def WriteError_def write_response_def set_header_def Let_def New_def
          split: bool.splits)
  qed
qed

definition request_id_md :: "'r gin \<Rightarrow> (string \<times> string) list" where
  "request_id_md c = (case gc_Keys c RequestIDKey of Some i \<Rightarrow> if i = [] then [] else [(''x-request-id'', i)] | None \<Rightarrow> [])"

lemma protected_outcome:
  assumes "untouched c" "protected_Use S roles (Grpc_Handle (hs_show S) ep) c w = (r, w')"
  shows "refused (hs_show S) r \<or> (\<exists>token claims. extractRequestToken c = Inr token \<and> hs_Verify S w token = Inr (Inr claims)
    \<and> TrimSpace (tc_Subject claims) \<noteq> [] \<and> TrimSpace (tc_ID claims) \<noteq> [] \<and> PrimaryRole claims (hs_rolePriority S) \<noteq> []
    \<and> (\<exists>role \<in> set (tc_Roles claims). role \<noteq> [] \<and> role \<in> TrimSpace ` set roles)
    \<and> admitted S (user_key c (tc_Subject claims)) w
    \<and> forwarded (request_id_md c @ identity_of (hs_rolePriority S) token claims) r)"
proof (cases "refused (hs_show S) r")
  case False
  let ?H3 = "RateLimit_Handle (hs_Load S) (hs_Allow S) (Grpc_Handle (hs_show S) ep)"
  have jwt: "JWT_Handle (hs_Verify S) (hs_rolePriority S) (RequireAnyRole roles ?H3) c w = (r, w')"
    using assms(2) by (simp add: protected_Use_def)
  obtain token claims ks where token: "extractRequestToken c = Inr token"
      "hs_Verify S w token = Inr (Inr claims)" "TrimSpace (tc_Subject claims) \<noteq> []" "TrimSpace (tc_ID claims) \<noteq> []"
      "PrimaryRole claims (hs_rolePriority S) \<noteq> []"
    and roles: "RequireAnyRole roles ?H3 (c\<lparr>gc_Keys := ks, gc_Claims := Some claims\<rparr>) w = (r, w')"
    and keys: "rateLimitKey (c\<lparr>gc_Keys := ks, gc_Claims := Some claims\<rparr>) = user_key c (tc_Subject claims)"
      "\<And>out. WithMetadata (c\<lparr>gc_Keys := ks, gc_Claims := Some claims, gc_out := out\<rparr>)
        = request_id_md c @ identity_of (hs_rolePriority S) token claims"
    using JWT_outcome [OF assms(1) jwt, where sh = "hs_show S"] False unfolding request_id_md_def by blast
  let ?c2 = "c\<lparr>gc_Keys := ks, gc_Claims := Some claims\<rparr>"
  have c2: "untouched ?c2" using assms(1) by simp
  have role: "\<exists>role \<in> set (tc_Roles claims). role \<noteq> [] \<and> role \<in> TrimSpace ` set roles" and limit: "?H3 ?c2 w = (r, w')"
    using RequireAnyRole_outcome [OF c2 roles, where sh = "hs_show S" and claims = claims] False by auto
  obtain out2 w2 where adm: "admitted S (rateLimitKey ?c2) w" and grpc: "Grpc_Handle (hs_show S) ep (?c2\<lparr>gc_out := out2\<rparr>) w2 = (r, w')"
    using RateLimit_outcome [OF c2 limit, where sh = "hs_show S"] False by auto
  have "untouched (?c2\<lparr>gc_out := out2\<rparr>)" using c2 by simp
  from Grpc_Handle_outcome [OF this grpc] False have "forwarded (WithMetadata (?c2\<lparr>gc_out := out2\<rparr>)) r" by simp
  with keys token role adm show ?thesis by auto
qed simp

definition answered_with :: "(string \<times> string) list \<Rightarrow> bool \<times> 'r gin \<Rightarrow> bool \<Rightarrow> 'r gin \<Rightarrow> bool" where
  "answered_with md r p c' \<longleftrightarrow> \<not> p \<and> (\<exists>st b. gc_written c' = Some (st, b) \<and> (gc_calls c' = [] \<longrightarrow> st \<in> {204, 400, 401, 403, 429, 500, 503}))
     \<and> (gc_calls c' \<noteq> [] \<longrightarrow> forwarded md r \<and> gc_calls c' = [md])"

lemma engine_outcome:
  assumes "engine_Use S H c w = ((p, c'), w')" "untouched c"
  obtains c1 r w1 where "untouched c1" "extractRequestToken c1 = extractRequestToken c" "user_key c1 = user_key c"
    "length (request_id_md c1) \<le> 1" "\<And>k. k \<noteq> RequestIDKey \<Longrightarrow> gc_Keys c1 k = gc_Keys c k"
    "refused (hs_show S) r \<or> (\<exists>w2. H c1 w1 = (r, w2))"
    "\<And>md. refused (hs_show S) r \<or> forwarded md r \<Longrightarrow> answered_with md r p c'"
proof -
  let ?H = "RequestID (hs_NewString S) (Cors_Handle (hs_Load S) H)"
  obtain r w5 where r: "?H c w = (r, w5)" by fastforce
  have run: "ErrorHandler (hs_show S) ?H c w = ((p, c'), w')" using assms(1) by (simp add: engine_Use_def)
  obtain i out w1 where cors: "Cors_Handle (hs_Load S) H (c\<lparr>gc_Keys := (gc_Keys c)(RequestIDKey \<mapsto> i),
      gc_Header := (gc_Header c)(RequestIDHeader := i), gc_out := out\<rparr>) w1 = (r, w5)"
    using RequestID_outcome [OF r] by blast
  let ?c = "\<lambda>out. c\<lparr>gc_Keys := (gc_Keys c)(RequestIDKey \<mapsto> i), gc_Header := (gc_Header c)(RequestIDHeader := i), gc_out := out\<rparr>"
  have "untouched (?c out)" using assms(2) by simp
  from Cors_outcome [OF this cors, where sh = "hs_show S"]
  obtain out1 where next_step: "refused (hs_show S) r \<or> (\<exists>w2. H (?c out1) w1 = (r, w2))" by auto
  have keep: "extractRequestToken (?c out1) = extractRequestToken c" "user_key (?c out1) = user_key c"
      "length (request_id_md (?c out1)) \<le> 1"
    by (simp_all add: extractRequestToken_def RequestIDHeader_def user_key_def rateLimitKey_def GetString_def request_id_md_def Let_def fun_eq_iff)
  have keys: "gc_Keys (?c out1) k = gc_Keys c k" if "k \<noteq> RequestIDKey" for k using that by simp
  have ans: "answered_with md r p c'" if "refused (hs_show S) r \<or> forwarded md r" for md
    using ErrorHandler_answers [OF run r that] unfolding answered_with_def .
  have c1: "untouched (?c out1)" using assms(2) by simp
  show thesis by (rule that [OF c1 keep keys next_step ans])
qed

text \<open>C7: through the user and the administrator routes of the gateway, a service is called at most once, and only for a
  request whose token the verifier accepted, with a subject, a token identifier, an application role and one of the roles
  of the route, while the rate limit of that subject admits it; the metadata of the call are then exactly the request identifier
  and the identity in that token. Every request is answered exactly once, also when a service call panics, and a request that
  reaches no service is answered with an error or as a preflight.\<close>

theorem routes_call_only_for_verified:
  fixes ep :: "('q, 'r, 'w) endpoint"
  assumes "(route, roles) \<in> {(user_route S ep, at_RolePriority (hs_config S)), (admin_route S ep, RolesMatching (hs_config S) ''admin'')}"
    and "gc_Errors c = []" "gc_written c = None" "gc_calls c = []" and "route c w = ((p, c'), w')"
  shows "\<not> p \<and> (\<exists>st b. gc_written c' = Some (st, b) \<and> (gc_calls c' = [] \<longrightarrow> st \<in> {204, 400, 401, 403, 429, 500, 503}))
    \<and> (gc_calls c' \<noteq> [] \<longrightarrow> (\<exists>token claims requestID w1. extractRequestToken c = Inr token \<and> hs_Verify S w1 token = Inr (Inr claims)
         \<and> TrimSpace (tc_Subject claims) \<noteq> [] \<and> TrimSpace (tc_ID claims) \<noteq> [] \<and> PrimaryRole claims (hs_rolePriority S) \<noteq> []
         \<and> (\<exists>role \<in> set (tc_Roles claims). role \<noteq> [] \<and> role \<in> TrimSpace ` set roles)
         \<and> admitted S (user_key c (tc_Subject claims)) w1
         \<and> gc_calls c' = [requestID @ identity_of (hs_rolePriority S) token claims] \<and> length requestID \<le> 1))"
proof -
  let ?H = "protected_Use S roles (Grpc_Handle (hs_show S) ep)"
  have run: "engine_Use S ?H c w = ((p, c'), w')"
    using assms(1,5) by (auto simp: user_route_def admin_route_def)
  have c: "untouched c" using assms(2-4) by (simp add: untouched_def)
  obtain c1 r w1 where c1: "untouched c1" "extractRequestToken c1 = extractRequestToken c" "user_key c1 = user_key c"
      "length (request_id_md c1) \<le> 1" "\<And>k. k \<noteq> RequestIDKey \<Longrightarrow> gc_Keys c1 k = gc_Keys c k"
    and rest: "refused (hs_show S) r \<or> (\<exists>w2. ?H c1 w1 = (r, w2))"
    and ans: "\<And>md. refused (hs_show S) r \<or> forwarded md r \<Longrightarrow> answered_with md r p c'"
    by (rule engine_outcome [OF run c], rule that)
  show ?thesis
  proof (cases "refused (hs_show S) r")
    case True
    then have "answered_with [] r p c'" "\<not> forwarded [] r" using ans by (auto simp: refused_def forwarded_def)
    then show ?thesis unfolding answered_with_def by blast
  next
    case False
    with rest obtain w2 where grpc: "?H c1 w1 = (r, w2)" by blast
    from protected_outcome [OF c1(1) grpc] False obtain token claims where out: "extractRequestToken c1 = Inr token"
        "hs_Verify S w1 token = Inr (Inr claims)" "TrimSpace (tc_Subject claims) \<noteq> []" "TrimSpace (tc_ID claims) \<noteq> []"
        "PrimaryRole claims (hs_rolePriority S) \<noteq> []" "\<exists>role \<in> set (tc_Roles claims). role \<noteq> [] \<and> role \<in> TrimSpace ` set roles"
        "admitted S (user_key c1 (tc_Subject claims)) w1"
        "forwarded (request_id_md c1 @ identity_of (hs_rolePriority S) token claims) r"
      by blast
    from ans [OF disjI2 [OF out(8)]] have fin: "\<not> p" "\<exists>st b. gc_written c' = Some (st, b) \<and> (gc_calls c' = [] \<longrightarrow> st \<in> {204, 400, 401, 403, 429, 500, 503})"
        "gc_calls c' \<noteq> [] \<longrightarrow> gc_calls c' = [request_id_md c1 @ identity_of (hs_rolePriority S) token claims]"
      unfolding answered_with_def by blast+
    have "extractRequestToken c = Inr token" "admitted S (user_key c (tc_Subject claims)) w1" using out c1 by simp_all
    with fin out(2-6) c1(4) show ?thesis by blast
  qed
qed

text \<open>The public route calls its service without any identity.\<close>

lemma public_route_anonymous:
  assumes "untouched c" "gc_Keys c = Map.empty" "public_route S ep c w = ((p, c'), w')"
  shows "gc_calls c' = [] \<or> (\<exists>md. gc_calls c' = [md] \<and> length md \<le> 1 \<and> (\<forall>k v. (k, v) \<in> set md \<longrightarrow> k = ''x-request-id''))"
proof -
  let ?H = "RateLimit_Handle (hs_Load S) (hs_Allow S) (Grpc_Handle (hs_show S) ep)"
  have run: "engine_Use S ?H c w = ((p, c'), w')" using assms(3) by (simp add: public_route_def)
  obtain c1 r w1 where c1: "untouched c1" "\<And>k. k \<noteq> RequestIDKey \<Longrightarrow> gc_Keys c1 k = gc_Keys c k"
    and rest: "refused (hs_show S) r \<or> (\<exists>w2. ?H c1 w1 = (r, w2))"
    and ans: "\<And>md. refused (hs_show S) r \<or> forwarded md r \<Longrightarrow> answered_with md r p c'"
    by (rule engine_outcome [OF run assms(1)], rule that)
  show ?thesis
  proof (cases "refused (hs_show S) r")
    case True
    then have "answered_with [] r p c'" "\<not> forwarded [] r" using ans by (auto simp: refused_def forwarded_def)
    then show ?thesis unfolding answered_with_def by blast
  next
    case False
    with rest obtain w2 where "?H c1 w1 = (r, w2)" by blast
    from RateLimit_outcome [OF c1(1) this, where sh = "hs_show S"] False
    obtain out w3 where grpc: "Grpc_Handle (hs_show S) ep (c1\<lparr>gc_out := out\<rparr>) w3 = (r, w2)" by blast
    have "untouched (c1\<lparr>gc_out := out\<rparr>)" using c1(1) by simp
    from Grpc_Handle_outcome [OF this grpc] False have fwd: "forwarded (WithMetadata (c1\<lparr>gc_out := out\<rparr>)) r" by simp
    have "GetString (c1\<lparr>gc_out := out\<rparr>) ''auth.user_id'' = []"
      using c1(2) [of "''auth.user_id''"] assms(2) by (simp add: GetString_def RequestIDKey_def)
    then have "length (WithMetadata (c1\<lparr>gc_out := out\<rparr>)) \<le> 1
        \<and> (\<forall>k v. (k, v) \<in> set (WithMetadata (c1\<lparr>gc_out := out\<rparr>)) \<longrightarrow> k = ''x-request-id'')"
      by (simp add: WithMetadata_def Let_def)
    with ans [OF disjI2 [OF fwd]] show ?thesis unfolding answered_with_def by blast
  qed
qed

text \<open>An error of a service keeps its status, but for the ones that the adapter does not list: a conflict or an expired
  deadline is answered as an internal error, although \<open>FromGRPCError\<close> of the same gateway knows them.\<close>

lemma conflict_becomes_internal:
  assumes "ToGRPC (Some (Conflict m)) = Returned (Some err)" "gc_written c = None"
  shows "gc_written (writeGrpcError sh err c) = Some (500, MessageBody m)
    \<and> (\<exists>a. FromGRPCError sh (Some err) = Some a \<and> err_code a = CodeConflict \<and> err_status a = 409)"
proof -
  have "err = StatusErr Codes_AlreadyExists m"
    using assms(1) by (auto simp: ToGRPC_def status_FromError_def errors_Is_def errors_As_app_def app_error_defs)
  with assms(2) show ?thesis
    by (simp add: writeGrpcError_def write_response_def status_of_def FromGRPCError_def errors_As_app_def Wrap_def)
qed

lemma service_status_kept:
  assumes "ToGRPC (Some (AppErr (Some (AppError code m st cause)))) = Returned (Some err)" "gc_written c = None"
    and "\<not> status_FromError (AppErr (Some (AppError code m st cause)))"
      "\<not> errors_Is (AppErr (Some (AppError code m st cause))) ContextCanceled"
      "\<not> errors_Is (AppErr (Some (AppError code m st cause))) ContextDeadlineExceeded"
    and "(code, n) \<in> {(CodeInvalidArgument, 400), (CodeUnauthorized, 401), (CodeForbidden, 403), (CodeNotFound, 404),
      (CodeTooManyRequests, 429), (CodeUnavailable, 503), (CodeInternal, 500)}"
  shows "gc_written (writeGrpcError sh err c) = Some (n, MessageBody m)"
proof -
  have "errors_As_app (AppErr (Some (AppError code m st cause))) = Some (Some (AppError code m st cause))"
    by (cases cause) (simp_all add: errors_As_app_def)
  with assms(1,3-5) have "err = StatusErr (grpcCode code) m" by (simp add: ToGRPC_def del: errors_Is_simps)
  with assms(2,6) show ?thesis by (auto simp: writeGrpcError_def write_response_def status_of_def)
qed

section \<open>A concrete gateway\<close>

definition lab_server :: "unit http_server" where
  "lab_server = \<lparr>hs_config = \<lparr>at_Issuers = [''i''], at_Audience = ''a'', at_Algorithm = ''RS256'', at_JWKSURL = ''u'',
       at_RolePriority = [''super-admin'', '' user '']\<rparr>,
     hs_rolePriority = [''super-admin'', ''user''], hs_NewString = (\<lambda>w. (''id'', w)),
     hs_Load = (\<lambda>w. Some \<lparr>ss_Version = 1, ss_CORS = \<lparr>cr_AllowOrigins = [''https://a''], cr_AllowMethods = [''POST''], cr_AllowHeaders = [],
       cr_ExposeHeaders = [], cr_AllowCredentials = True, cr_MaxAge = 10\<rparr>,
       ss_RateLimit = \<lparr>rr_Enabled = False, rl_Limit = 1, rl_Window = 1, rl_RedisTimeout = 1, rl_FailClosed = True\<rparr>\<rparr>),
     hs_Verify = (\<lambda>w t. if t = ''t'' then Inr (Inr \<lparr>tc_Subject = ''s'', tc_ID = ''j'', tc_SessionID = ''n'', tc_PreferredUsername = ''bob'',
       tc_Roles = [''user'', ''other'']\<rparr>) else Inl (PlainErr ''bad'')),
     hs_Allow = (\<lambda>k l d w. (Inl (PlainErr ''down''), w)), hs_show = (\<lambda>e. ''error'')\<rparr>"

definition lab_endpoint :: "(string, string, unit) endpoint" where
  "lab_endpoint = \<lparr>ep_bind = Bound, ep_call = (\<lambda>md q w. (Returned (Inr q), w))\<rparr>"

definition lab_request :: "string \<Rightarrow> string gin" where
  "lab_request auth = \<lparr>gc_Method = ''POST'', gc_Header = (\<lambda>h. if h = ''Authorization'' then auth else []), gc_Body = ''{}'',
     gc_ClientIP = ''::1'', gc_FullPath = ''/user/info'', gc_Path = ''/user/info'', gc_Keys = Map.empty, gc_Claims = None,
     gc_Errors = [], gc_written = None, gc_out = Map.empty, gc_calls = []\<rparr>"

text \<open>The configured priority is the one that the constructor computes; administrators are the roles that end in the name.\<close>

lemma lab_server_config:
  "NewJWTMiddleware (hs_config lab_server) = Inr (hs_rolePriority lab_server)"
  "RolesMatching (hs_config lab_server) ''admin'' = [''super-admin'']"
  by code_simp+

theorem routes_call_only_for_verified_witness:
  "gc_calls (snd (fst (user_route lab_server lab_endpoint (lab_request ''bearer t'') ()))) =
     [[(''x-request-id'', ''id''), (''x-user-id'', ''s''), (''x-user-name'', ''bob''), (''x-user-role'', ''user''),
       (''x-session-id'', ''n''), (''x-token-id'', ''j''), (''authorization'', ''Bearer t'')]]
   \<and> (\<exists>b. gc_written (snd (fst (admin_route lab_server lab_endpoint (lab_request ''bearer t'') ()))) = Some (403, b))
   \<and> \<not> fst (fst (user_route lab_server lab_endpoint (lab_request ''bearer t'') ()))"
proof -
  obtain p c w where run: "user_route lab_server lab_endpoint (lab_request ''bearer t'') () = ((p, c), w)"
    by (metis prod.collapse)
  have fresh: "gc_Errors (lab_request a) = []" "gc_written (lab_request a) = None" "gc_calls (lab_request a) = []" for a
    by (simp_all add: lab_request_def)
  have "(user_route lab_server lab_endpoint, at_RolePriority (hs_config lab_server))
      \<in> {(user_route lab_server lab_endpoint, at_RolePriority (hs_config lab_server)),
          (admin_route lab_server lab_endpoint, RolesMatching (hs_config lab_server) ''admin'')}" by simp
  from routes_call_only_for_verified [OF this fresh run] have "\<not> p" by blast
  moreover have "gc_calls (snd (fst (user_route lab_server lab_endpoint (lab_request ''bearer t'') ()))) =
     [[(''x-request-id'', ''id''), (''x-user-id'', ''s''), (''x-user-name'', ''bob''), (''x-user-role'', ''user''),
       (''x-session-id'', ''n''), (''x-token-id'', ''j''), (''authorization'', ''Bearer t'')]]"
    by code_simp
  moreover have "map_option fst (gc_written (snd (fst (admin_route lab_server lab_endpoint (lab_request ''bearer t'') ())))) = Some 403"
    by code_simp
  ultimately show ?thesis using run by auto
qed

end
