(* ===== verification/Grpc_Discovery.thy ===== *)
theory Grpc_Discovery
  imports App_Error
begin

text \<open>
  The discovery of the instances of a service, \<open>gateway/internal/consul/grpc_discovery.go\<close> with \<open>WatchGRPCService\<close> of
  \<open>gateway/internal/consul/consul.go\<close> (the admin and Web3 services have the same code; the user service has its own
  choice of the host, \<open>user/internal/consul/discovery.go\<close>). The two nested loops are a list of answers of Consul: each
  says what the query returned, what the connection answers to an update, whether the resolver is closed then, and
  whether its timer fired.
\<close>

section \<open>Addresses\<close>

record AgentService =
  sv_Address :: string
  sv_Port :: int

record ServiceEntry =
  se_Service :: "AgentService option"
  se_Node :: "string option"

text \<open>\<open>net.JoinHostPort\<close>.\<close>

definition JoinHostPort :: "string \<Rightarrow> string \<Rightarrow> string" where
  "JoinHostPort host port = (if CHR '':'' \<in> set host then ''['' @ host @ '']:'' @ port else host @ '':'' @ port)"

definition entry_address :: "ServiceEntry option \<Rightarrow> string option" where
  "entry_address entry =
    (case entry of
       None \<Rightarrow> None
     | Some e \<Rightarrow>
         (case se_Service e of
            None \<Rightarrow> None
          | Some s \<Rightarrow>
              if sv_Port s \<le> 0 \<or> 65535 < sv_Port s then None
              else
                let host = TrimSpace (sv_Address s);
                    host = (case (host, se_Node e) of ([], Some node) \<Rightarrow> TrimSpace node | _ \<Rightarrow> host)
                in if host = [] then None else Some (JoinHostPort host (int_to_string (sv_Port s)))))"

definition add_address :: "string option \<Rightarrow> string list \<Rightarrow> string list" where
  "add_address a addresses =
    (case a of None \<Rightarrow> addresses | Some address \<Rightarrow> if address \<in> set addresses then addresses else addresses @ [address])"

definition grpcResolverAddresses :: "ServiceEntry option list \<Rightarrow> string list" where
  "grpcResolverAddresses entries = sort_by (<) (fold (\<lambda>entry. add_address (entry_address entry)) entries [])"

text \<open>The user service: \<open>entry.Node.Address\<close> is read whenever there is a node or no host, and a nil node panics.\<close>

definition user_entry_address :: "ServiceEntry option \<Rightarrow> string option go_outcome" where
  "user_entry_address entry =
    (case entry of
       None \<Rightarrow> Returned None
     | Some e \<Rightarrow>
         (case se_Service e of
            None \<Rightarrow> Returned None
          | Some s \<Rightarrow>
              if sv_Port s \<le> 0 \<or> 65535 < sv_Port s then Returned None
              else
                let host = TrimSpace (sv_Address s); port = int_to_string (sv_Port s)
                in if host = [] \<or> se_Node e \<noteq> None
                   then (case se_Node e of
                           None \<Rightarrow> Panicked
                         | Some node \<Rightarrow>
                             let host = TrimSpace node in Returned (if host = [] then None else Some (JoinHostPort host port)))
                   else Returned (Some (JoinHostPort host port))))"

fun user_addresses :: "ServiceEntry option list \<Rightarrow> string list \<Rightarrow> string list go_outcome" where
  "user_addresses [] addresses = Returned (sort_by (<) addresses)"
| "user_addresses (entry # entries) addresses =
     (case user_entry_address entry of Panicked \<Rightarrow> Panicked | Returned a \<Rightarrow> user_addresses entries (add_address a addresses))"

lemma add_address_set: "distinct xs \<Longrightarrow> distinct (add_address a xs) \<and> set (add_address a xs) = set_option a \<union> set xs"
  by (auto simp: add_address_def split: option.split)

lemma fold_add_address:
  "distinct xs \<Longrightarrow> distinct (fold (\<lambda>e. add_address (f e)) es xs) \<and>
     set (fold (\<lambda>e. add_address (f e)) es xs) = {a. Some a \<in> f ` set es} \<union> set xs"
proof (induction es arbitrary: xs)
  case (Cons e es)
  from Cons.IH [of "add_address (f e) xs"] add_address_set [OF Cons.prems, of "f e"] show ?case
    by (cases "f e") auto
qed simp

text \<open>The addresses are the valid ones of the entries, each once, in order: they do not depend on the order of Consul.\<close>

lemma grpcResolverAddresses_canonical:
  "grpcResolverAddresses es = sorted_list_of_set {a. Some a \<in> entry_address ` set es}"
proof (rule sorted_distinct_set_unique)
  let ?xs = "fold (\<lambda>entry. add_address (entry_address entry)) es []"
  have xs: "distinct ?xs" "set ?xs = {a. Some a \<in> entry_address ` set es}"
    using fold_add_address [of "[]" entry_address es] by simp_all
  have "finite {a. Some a \<in> entry_address ` set es}" unfolding xs(2) [symmetric] by simp
  then show "set (grpcResolverAddresses es) = set (sorted_list_of_set {a. Some a \<in> entry_address ` set es})"
    using xs(2) by (simp add: grpcResolverAddresses_def)
  have "sorted_wrt (\<lambda>a b. \<not> b < a) (grpcResolverAddresses es)"
    unfolding grpcResolverAddresses_def by (rule sorted_sort_by) (auto simp: not_less)
  then show "sorted (grpcResolverAddresses es)" by (simp add: not_less)
  show "distinct (grpcResolverAddresses es)" using xs(1) by (simp add: grpcResolverAddresses_def)
qed simp_all

text \<open>Where the comment prefers the address of the service, the user service takes the address of the node.\<close>

lemma user_prefers_node:
  assumes "TrimSpace s \<noteq> []" "TrimSpace n \<noteq> []" "0 < p" "p \<le> 65535"
  shows "user_entry_address (Some \<lparr>se_Service = Some \<lparr>sv_Address = s, sv_Port = p\<rparr>, se_Node = Some n\<rparr>)
      = Returned (Some (JoinHostPort (TrimSpace n) (int_to_string p)))
    \<and> entry_address (Some \<lparr>se_Service = Some \<lparr>sv_Address = s, sv_Port = p\<rparr>, se_Node = Some n\<rparr>)
      = Some (JoinHostPort (TrimSpace s) (int_to_string p))
    \<and> user_entry_address (Some \<lparr>se_Service = Some \<lparr>sv_Address = [], sv_Port = p\<rparr>, se_Node = None\<rparr>) = Panicked"
  using assms by (cases "TrimSpace s") (simp_all add: user_entry_address_def entry_address_def Let_def)

section \<open>The resolver\<close>

record grpcResolver =
  gr_lastAddresses :: "string list"
  gr_lastIndex :: u64
  gr_updated :: bool
  gr_retryDelay :: int
  gr_delivered :: "string list list"
  gr_reported :: "go_error list"

record consul_answer =
  ca_query :: "go_error + ServiceEntry option list \<times> u64"
  ca_UpdateState :: "string list \<Rightarrow> go_error option"
  ca_ctx_done :: bool
  ca_timer :: bool

definition half_second :: int where
  "half_second = 500000000"

definition new_resolver :: grpcResolver where
  "new_resolver = \<lparr>gr_lastAddresses = [], gr_lastIndex = 0, gr_updated = False, gr_retryDelay = half_second, gr_delivered = [],
     gr_reported = []\<rparr>"

definition Build :: "bool \<Rightarrow> string \<Rightarrow> go_error + string \<times> grpcResolver" where
  "Build watcher endpoint =
    (if \<not> watcher then Inl (PlainErr ''Consul service watcher is nil'')
     else
       let serviceName = TrimSpace endpoint
       in if serviceName = [] then Inl (PlainErr ''gRPC resolver service name is empty'') else Inr (serviceName, new_resolver))"

definition updateAddresses :: "string \<Rightarrow> consul_answer \<Rightarrow> ServiceEntry option list \<Rightarrow> grpcResolver \<Rightarrow> go_error option \<times> grpcResolver" where
  "updateAddresses serviceName a entries r =
    (let addresses = grpcResolverAddresses entries
     in if gr_lastAddresses r = addresses then (None, r)
        else
          let r = r\<lparr>gr_delivered := addresses # gr_delivered r\<rparr>
          in (case ca_UpdateState a addresses of
                Some err \<Rightarrow>
                  (Some (WrapErr (''update gRPC resolver state for '' @ go_quote serviceName @ '': '') err), r\<lparr>gr_lastAddresses := []\<rparr>)
              | None \<Rightarrow> (None, r\<lparr>gr_lastAddresses := addresses\<rparr>)))"

text \<open>\<open>WatchGRPCService\<close> has returned \<open>err\<close>: the rest of the body of the outer loop.\<close>

definition watch_returned :: "string \<Rightarrow> consul_answer \<Rightarrow> go_error \<Rightarrow> grpcResolver \<Rightarrow> bool \<times> grpcResolver" where
  "watch_returned serviceName a err r =
    (if ca_ctx_done a then (True, r)
     else
       let retryDelay = (if gr_updated r then half_second else gr_retryDelay r);
           r = r\<lparr>gr_reported := WrapErr (''watch gRPC service '' @ go_quote serviceName @ '': '') err # gr_reported r,
             gr_retryDelay := retryDelay\<rparr>
       in if \<not> ca_timer a then (True, r)
          else
            let retryDelay = go_int (retryDelay * 2);
                retryDelay = (if 15 * 1000000000 < retryDelay then 15 * 1000000000 else retryDelay)
            in (False, r\<lparr>gr_retryDelay := retryDelay, gr_updated := False, gr_lastIndex := 0\<rparr>))"

text \<open>One answer of Consul in the inner loop.\<close>

definition watch_step :: "string \<Rightarrow> consul_answer \<Rightarrow> grpcResolver \<Rightarrow> bool \<times> grpcResolver" where
  "watch_step serviceName a r =
    (case ca_query a of
       Inl err \<Rightarrow> watch_returned serviceName a err r
     | Inr (entries, newIndex) \<Rightarrow>
         if newIndex < gr_lastIndex r then (False, r\<lparr>gr_lastIndex := 0\<rparr>)
         else
           let newIndex = (if newIndex = 0 then 1 else newIndex)
           in (case updateAddresses serviceName a entries r of
                 (Some err, r) \<Rightarrow> watch_returned serviceName a err r
               | (None, r) \<Rightarrow> (False, r\<lparr>gr_updated := True, gr_lastIndex := newIndex\<rparr>)))"

fun resolver_watch :: "string \<Rightarrow> consul_answer list \<Rightarrow> grpcResolver \<Rightarrow> bool \<times> grpcResolver" where
  "resolver_watch serviceName [] r = (False, r)"
| "resolver_watch serviceName (a # as) r =
     (case watch_step serviceName a r of (True, r) \<Rightarrow> (True, r) | (False, r) \<Rightarrow> resolver_watch serviceName as r)"

section \<open>What the connection is told\<close>

text \<open>The lists that a sequence of answers justifies.\<close>

definition answered :: "consul_answer list \<Rightarrow> string list set" where
  "answered as = {grpcResolverAddresses es | es a i. a \<in> set as \<and> ca_query a = Inr (es, i)}"

definition resolver_inv :: "consul_answer list \<Rightarrow> grpcResolver \<Rightarrow> bool" where
  "resolver_inv as r \<longleftrightarrow>
     (gr_lastAddresses r \<noteq> [] \<longrightarrow> (\<exists>ds. gr_delivered r = gr_lastAddresses r # ds))
   \<and> set (gr_delivered r) \<subseteq> answered as
   \<and> half_second \<le> gr_retryDelay r \<and> gr_retryDelay r \<le> 15 * 1000000000"

lemma answered_mono: "set as \<subseteq> set bs \<Longrightarrow> answered as \<subseteq> answered bs"
  by (auto simp: answered_def)

lemma updateAddresses_inv:
  assumes "resolver_inv as r" "updateAddresses n a es r = (err, r')" "grpcResolverAddresses es \<in> answered as"
  shows "resolver_inv as r'"
  using assms by (auto simp: updateAddresses_def resolver_inv_def Let_def split: if_splits option.splits)

lemma watch_returned_inv:
  assumes "resolver_inv as r" "watch_returned n a err r = (ret, r')"
  shows "resolver_inv as r'"
proof -
  have "go_int (d * 2) = d * 2" if "half_second \<le> d" "d \<le> 15 * 1000000000" for d
    using that by (intro go_int_id) (auto simp: half_second_def)
  with assms show ?thesis
    by (auto simp: watch_returned_def resolver_inv_def Let_def half_second_def split: if_splits)
qed

lemma watch_step_inv:
  assumes "resolver_inv as r" "watch_step n a r = (ret, r')" "a \<in> set as"
  shows "resolver_inv as r'"
proof (cases "ca_query a")
  case (Inl err)
  with assms watch_returned_inv show ?thesis by (simp add: watch_step_def)
next
  case (Inr ans)
  obtain es i where ans: "ans = (es, i)" by fastforce
  obtain err r1 where up: "updateAddresses n a es r = (err, r1)" by fastforce
  have "grpcResolverAddresses es \<in> answered as" using assms(3) Inr ans unfolding answered_def by blast
  then have inv1: "resolver_inv as r1" by (rule updateAddresses_inv [OF assms(1) up])
  have idx: "resolver_inv as (r\<lparr>gr_lastIndex := j\<rparr>)" "resolver_inv as (r1\<lparr>gr_updated := True, gr_lastIndex := j\<rparr>)" for j
    using assms(1) inv1 by (simp_all add: resolver_inv_def)
  show ?thesis
  proof (cases "i < gr_lastIndex r")
    case True
    with assms(2) Inr ans idx(1) show ?thesis by (auto simp: watch_step_def)
  next
    case False
    show ?thesis
    proof (cases err)
      case None
      with assms(2) False Inr ans up idx(2) show ?thesis by (auto simp: watch_step_def)
    next
      case (Some e)
      with assms(2) False Inr ans up have "watch_returned n a e r1 = (ret, r')" by (simp add: watch_step_def)
      then show ?thesis by (rule watch_returned_inv [OF inv1])
    qed
  qed
qed

lemma resolver_watch_inv:
  assumes "resolver_inv as r" "resolver_watch n bs r = (ret, r')" "set bs \<subseteq> set as"
  shows "resolver_inv as r'"
  using assms
proof (induction bs arbitrary: r)
  case (Cons a bs)
  obtain t r1 where step: "watch_step n a r = (t, r1)" by fastforce
  have inv1: "resolver_inv as r1" using watch_step_inv [OF Cons.prems(1) step] Cons.prems(3) by simp
  with Cons step show ?case by (cases t) auto
qed simp

text \<open>C8: after any answers of Consul, an answer that is not older than the last one and lists at least one valid instance
  leaves the connection with exactly the addresses of its valid instances, each once and in an order that does not depend on the
  answer, unless the connection refuses them; every list that was ever handed to the connection belongs to some answer, and the
  resolver waits between half a second and fifteen seconds after a failure.\<close>

theorem resolver_follows_consul:
  assumes "resolver_watch n as new_resolver = (False, r)" "ca_query a = Inr (es, i)" "gr_lastIndex r \<le> i"
    and "{x. Some x \<in> entry_address ` set es} \<noteq> {}" "ca_UpdateState a (grpcResolverAddresses es) = None"
  shows "\<exists>r'. resolver_watch n (as @ [a]) new_resolver = (False, r')
    \<and> (\<exists>ds. gr_delivered r' = sorted_list_of_set {x. Some x \<in> entry_address ` set es} # ds)
    \<and> (\<forall>l \<in> set (gr_delivered r'). \<exists>b \<in> set (as @ [a]). \<exists>fs j. ca_query b = Inr (fs, j) \<and> l = grpcResolverAddresses fs)
    \<and> half_second \<le> gr_retryDelay r' \<and> gr_retryDelay r' \<le> 15 * 1000000000"
proof -
  have start: "resolver_inv (as @ [a]) new_resolver"
    by (simp add: resolver_inv_def new_resolver_def half_second_def)
  have inv: "resolver_inv (as @ [a]) r" using resolver_watch_inv [OF start assms(1)] by auto
  obtain err r1 where up: "updateAddresses n a es r = (err, r1)" by fastforce
  have "finite {x. Some x \<in> entry_address ` set es}"
    using finite_vimageI [of "entry_address ` set es" Some] by (simp add: vimage_def)
  then have ne: "grpcResolverAddresses es \<noteq> []" using assms(4) by (simp add: grpcResolverAddresses_canonical)
  have r1: "err = None" "\<exists>ds. gr_delivered r1 = grpcResolverAddresses es # ds"
    using up assms(5) inv ne by (auto simp: updateAddresses_def resolver_inv_def Let_def split: if_splits)
  have step: "watch_step n a r = (False, r1\<lparr>gr_updated := True, gr_lastIndex := (if i = 0 then 1 else i)\<rparr>)"
    using assms(2,3) up r1(1) by (simp add: watch_step_def not_less)
  have app: "resolver_watch n (bs @ [a]) q = (case resolver_watch n bs q of (True, q) \<Rightarrow> (True, q) | (False, q) \<Rightarrow> watch_step n a q)" for bs q
    by (induction bs arbitrary: q) (auto split: prod.split bool.split)
  have run: "resolver_watch n (as @ [a]) new_resolver = (False, r1\<lparr>gr_updated := True, gr_lastIndex := (if i = 0 then 1 else i)\<rparr>)"
    by (simp add: app assms(1) step)
  have fin: "resolver_inv (as @ [a]) r1" using resolver_watch_inv [OF start run] by (simp add: resolver_inv_def)
  then have "\<forall>l \<in> set (gr_delivered r1). \<exists>b \<in> set (as @ [a]). \<exists>fs j. ca_query b = Inr (fs, j) \<and> l = grpcResolverAddresses fs"
    unfolding resolver_inv_def answered_def by blast
  moreover have "half_second \<le> gr_retryDelay r1 \<and> gr_retryDelay r1 \<le> 15 * 1000000000" using fin unfolding resolver_inv_def by blast
  ultimately show ?thesis
    using r1(2) by (intro exI [of _ "r1\<lparr>gr_updated := True, gr_lastIndex := (if i = 0 then 1 else i)\<rparr>"])
      (simp add: run grpcResolverAddresses_canonical [symmetric])
qed

text \<open>Three instances, of which one is listed twice and one has no valid port; then one of them is gone.\<close>

definition lab_entry :: "string \<Rightarrow> int \<Rightarrow> ServiceEntry option" where
  "lab_entry host port = Some \<lparr>se_Service = Some \<lparr>sv_Address = host, sv_Port = port\<rparr>, se_Node = Some ''10.0.0.9''\<rparr>"

definition lab_answer :: "ServiceEntry option list \<Rightarrow> u64 \<Rightarrow> consul_answer" where
  "lab_answer es i = \<lparr>ca_query = Inr (es, i), ca_UpdateState = (\<lambda>_. None), ca_ctx_done = False, ca_timer = True\<rparr>"

definition lab_last :: "ServiceEntry option list" where
  "lab_last = [None, lab_entry ''b'' 90, lab_entry [] 70000, lab_entry ''::1'' 80]"

lemma lab_run: "\<exists>r. resolver_watch ''user-grpc''
    [lab_answer [lab_entry ''b'' 90, lab_entry '' a '' 80, lab_entry ''b'' 90] 7] new_resolver = (False, r) \<and> gr_lastIndex r \<le> 9"
proof -
  have "case resolver_watch ''user-grpc'' [lab_answer [lab_entry ''b'' 90, lab_entry '' a '' 80, lab_entry ''b'' 90] 7] new_resolver
      of (ret, r) \<Rightarrow> \<not> ret \<and> gr_lastIndex r \<le> 9" by code_simp
  then show ?thesis by auto
qed

theorem resolver_follows_consul_witness: "\<exists>r ds. resolver_watch ''user-grpc''
    [lab_answer [lab_entry ''b'' 90, lab_entry '' a '' 80, lab_entry ''b'' 90] 7, lab_answer lab_last 9] new_resolver = (False, r)
    \<and> gr_delivered r = grpcResolverAddresses lab_last # ds \<and> grpcResolverAddresses lab_last = [''[::1]:80'', ''b:90'']"
proof -
  obtain r where r: "resolver_watch ''user-grpc''
      [lab_answer [lab_entry ''b'' 90, lab_entry '' a '' 80, lab_entry ''b'' 90] 7] new_resolver = (False, r)" "gr_lastIndex r \<le> 9"
    using lab_run by auto
  have last: "grpcResolverAddresses lab_last = [''[::1]:80'', ''b:90'']" by code_simp
  have "entry_address (lab_entry ''b'' 90) = Some ''b:90''" by code_simp
  then have ne: "{x. Some x \<in> entry_address ` set lab_last} \<noteq> {}" by (force simp: lab_last_def)
  have q: "ca_query (lab_answer lab_last 9) = Inr (lab_last, 9)" "ca_UpdateState (lab_answer lab_last 9) l = None" for l
    by (simp_all add: lab_answer_def)
  from resolver_follows_consul [OF r(1) q(1) r(2) ne q(2)] last show ?thesis
    by (auto simp: grpcResolverAddresses_canonical [symmetric])
qed

end
