(* ===== verification/Operation_Log.thy ===== *)
theory Operation_Log
  imports Gorm_Upsert Wallet_Repo
begin

text \<open>
  The operation log of the admin service: the messages (\<open>admin/internal/mq/message.go\<close>, \<open>errors.go\<close>), the
  table (\<open>admin/internal/model/operation_log.go\<close>, \<open>admin/internal/repository/operation_log.go\<close>) and the
  handler between them (\<open>admin/internal/mqhandler/operation_log.go\<close>). JSON is a parameter: like
  \<open>json.Unmarshal\<close>, \<open>j_Unmarshal\<close> may fill fields of the event and report an error as well. The rows are
  deleted softly, so every query but the unique index skips rows with a \<open>DeletedAt\<close>. The table fills in
  what GORM and PostgreSQL fill in: the ID of the sequence, the time stamps and, because GORM leaves zero
  values of columns with a default to the database, the default status. The associated administrator
  (\<open>Preload\<close>) is left out. \<open>admin/pkg/apperorr\<close> has the constructors of \<open>App_Error\<close>.
\<close>

section \<open>Messages\<close>

record OperationLogEvent =
  ev_EventID :: string
  ev_EventType :: string
  ev_SchemaVersion :: int
  ev_OccurredAt :: time
  ev_AdminID :: u64
  ev_AdminName :: string
  ev_Module :: string
  ev_Action :: string
  ev_Description :: string
  ev_Success :: bool
  ev_ErrorCode :: string
  ev_RequestID :: string
  ev_TraceID :: string
  ev_Method :: string
  ev_Path :: string
  ev_ClientIP :: string
  ev_UserAgent :: string

definition OperationLogEventType :: string where "OperationLogEventType = ''admin.operation_log.created''"
definition OperationLogSchemaVersion :: int where "OperationLogSchemaVersion = 1"
definition retryCountHeader :: string where "retryCountHeader = ''x-retry-count''"

definition ev_Validate :: "OperationLogEvent \<Rightarrow> go_error option" where
  "ev_Validate e =
    (if TrimSpace (ev_EventID e) = [] then Some (PlainErr ''event_id is required'')
     else if ev_EventType e \<noteq> OperationLogEventType then
       Some (PlainErr (''unsupported event_type '' @ go_quote (ev_EventType e)))
     else if ev_SchemaVersion e \<noteq> OperationLogSchemaVersion then
       Some (PlainErr (''unsupported schema_version '' @ int_to_string (ev_SchemaVersion e)))
     else if ev_OccurredAt e = zero_time then Some (PlainErr ''occurred_at is required'')
     else if ev_AdminID e = 0 then Some (PlainErr ''admin_id is required'')
     else if TrimSpace (ev_Module e) = [] then Some (PlainErr ''module is required'')
     else if TrimSpace (ev_Action e) = [] then Some (PlainErr ''action is required'')
     else None)"

record event_codec =
  j_Marshal :: "OperationLogEvent \<Rightarrow> go_error + string"
  j_Unmarshal :: "string \<Rightarrow> OperationLogEvent \<times> go_error option"

definition encodeOperationLog :: "event_codec \<Rightarrow> OperationLogEvent \<Rightarrow> go_error + string" where
  "encodeOperationLog J event =
    (case ev_Validate event of
       Some err \<Rightarrow> Inl err
     | None \<Rightarrow>
         (case j_Marshal J event of
            Inl err \<Rightarrow> Inl (WrapErr ''encode operation-log event: '' err)
          | Inr body \<Rightarrow> Inr body))"

text \<open>The event is returned beside the error.\<close>

definition decodeOperationLog :: "event_codec \<Rightarrow> string \<Rightarrow> OperationLogEvent \<times> go_error option" where
  "decodeOperationLog J body =
    (case j_Unmarshal J body of
       (event, Some err) \<Rightarrow> (event, Some (WrapErr ''decode operation-log event: '' err))
     | (event, None) \<Rightarrow>
         (case ev_Validate event of
            Some err \<Rightarrow> (event, Some (WrapErr ''validate operation-log event: '' err))
          | None \<Rightarrow> (event, None)))"

text \<open>The values of an \<open>amqp.Table\<close> that the code tells apart, and the conversions to \<open>int\<close>.\<close>

datatype amqp_value =
    V_int int | V_int8 "8 word" | V_int16 "16 word" | V_int32 "32 word" | V_int64 "64 word"
  | V_uint u64 | V_uint8 "8 word" | V_uint16 "16 word" | V_uint32 u32 | V_uint64 u64
  | V_text string | V_other

type_synonym amqp_table = "string \<rightharpoonup> amqp_value"

definition cloneHeaders :: "amqp_table option \<Rightarrow> amqp_table" where
  "cloneHeaders source = (case source of None \<Rightarrow> Map.empty | Some h \<Rightarrow> h)"

definition retryCount :: "amqp_table option \<Rightarrow> int" where
  "retryCount headers =
    (case headers of
       None \<Rightarrow> 0
     | Some h \<Rightarrow>
         (case h retryCountHeader of
            Some (V_int value) \<Rightarrow> value
          | Some (V_int8 value) \<Rightarrow> sint value
          | Some (V_int16 value) \<Rightarrow> sint value
          | Some (V_int32 value) \<Rightarrow> sint value
          | Some (V_int64 value) \<Rightarrow> sint value
          | Some (V_uint value) \<Rightarrow> sint value
          | Some (V_uint8 value) \<Rightarrow> uint value
          | Some (V_uint16 value) \<Rightarrow> uint value
          | Some (V_uint32 value) \<Rightarrow> uint value
          | Some (V_uint64 value) \<Rightarrow> sint value
          | _ \<Rightarrow> 0))"

definition MarkPermanent :: "go_error option \<Rightarrow> go_error option" where
  "MarkPermanent err = (case err of None \<Rightarrow> None | Some e \<Rightarrow> Some (PermanentErr (Some e)))"

fun is_permanent_err :: "go_error \<Rightarrow> bool" where
  "is_permanent_err (PermanentErr e) = True"
| "is_permanent_err e = False"

definition isPermanent :: "go_error option \<Rightarrow> bool" where
  "isPermanent err = (case err of None \<Rightarrow> False | Some e \<Rightarrow> list_ex is_permanent_err (errors_chain e))"

section \<open>The table\<close>

record OperationLogModel =
  ol_ID :: u64
  ol_CreatedAt :: time
  ol_UpdatedAt :: time
  ol_DeletedAt :: "time option"
  ol_EventID :: string
  ol_AdminID :: u64
  ol_AdminName :: string
  ol_Module :: string
  ol_OperType :: string
  ol_OperDesc :: string
  ol_RequestURL :: string
  ol_Method :: string
  ol_IP :: string
  ol_UserAgent :: string
  ol_Params :: string
  ol_Result :: string
  ol_Status :: int

text \<open>\<open>ids t\<close> is the value of the sequence for a row inserted at \<open>t\<close>. No operation updates rows but soft deletion, which sets no time stamp.\<close>

definition log_table :: "(time \<Rightarrow> u64) \<Rightarrow> ('db \<Rightarrow> OperationLogModel list) \<Rightarrow> ('db, OperationLogModel) table_spec" where
  "log_table ids rows =
    \<lparr>t_rows = rows, t_conflict = (\<lambda>x y. ol_EventID x = ol_EventID y),
     t_fill = (\<lambda>t x. x\<lparr>ol_ID := (if ol_ID x = 0 then ids t else ol_ID x),
                       ol_CreatedAt := (if ol_CreatedAt x = zero_time then t else ol_CreatedAt x),
                       ol_UpdatedAt := (if ol_UpdatedAt x = zero_time then t else ol_UpdatedAt x),
                       ol_Status := (if ol_Status x = 0 then 1 else ol_Status x)\<rparr>),
     t_touch = (\<lambda>t x. x)\<rparr>"

record OperationLogFilter =
  lf_AdminID :: u64
  lf_Module :: string
  lf_OperType :: string
  lf_Status :: "int option"
  lf_StartAt :: "time option"
  lf_EndAt :: "time option"

record 'db OperationLogRepository =
  lr_logs :: "('db, OperationLogModel, unit) gorm_up"
  lr_now :: "'db \<Rightarrow> time \<times> 'db"

definition live :: "OperationLogModel \<Rightarrow> bool" where
  "live x \<longleftrightarrow> ol_DeletedAt x = None"

definition lr_Create :: "'db OperationLogRepository \<Rightarrow> OperationLogModel option \<Rightarrow> 'db \<Rightarrow> go_error option \<times> 'db" where
  "lr_Create r entry db =
    (case entry of
       None \<Rightarrow> (Some (InvalidArgument ''operation log is nil''), db)
     | Some log_entry \<Rightarrow> update_error (g_insert_ignore (lr_logs r) log_entry db))"

definition lr_FindByID :: "'db OperationLogRepository \<Rightarrow> u64 \<Rightarrow> 'db \<Rightarrow> (go_error + OperationLogModel) \<times> 'db" where
  "lr_FindByID r i db =
    (if i = 0 then (Inl (InvalidArgument ''operation log ID is required''), db)
     else g_first (lr_logs r) (\<lambda>x. ol_ID x = i \<and> live x) (\<lambda>x y. ol_ID x < ol_ID y) db)"

text \<open>The conditions that the filter adds one after the other.\<close>

definition log_matches :: "OperationLogFilter \<Rightarrow> OperationLogModel \<Rightarrow> bool" where
  "log_matches f x \<longleftrightarrow>
    (lf_AdminID f \<noteq> 0 \<longrightarrow> ol_AdminID x = lf_AdminID f) \<and>
    (lf_Module f \<noteq> [] \<longrightarrow> ol_Module x = lf_Module f) \<and>
    (lf_OperType f \<noteq> [] \<longrightarrow> ol_OperType x = lf_OperType f) \<and>
    (case lf_Status f of None \<Rightarrow> True | Some s \<Rightarrow> ol_Status x = s) \<and>
    (case lf_StartAt f of None \<Rightarrow> True | Some t \<Rightarrow> t \<le> ol_CreatedAt x) \<and>
    (case lf_EndAt f of None \<Rightarrow> True | Some t \<Rightarrow> ol_CreatedAt x \<le> t)"

definition lr_List :: "'db OperationLogRepository \<Rightarrow> OperationLogFilter \<Rightarrow> int \<Rightarrow> int \<Rightarrow> 'db
    \<Rightarrow> (go_error + OperationLogModel list \<times> nat) \<times> 'db" where
  "lr_List r f offset lmt db =
    (if offset < 0 \<or> lmt < 1 \<or> 100 < lmt then (Inl (InvalidArgument ''invalid pagination parameters''), db)
     else
       (case g_count (lr_logs r) (\<lambda>x. log_matches f x \<and> live x) db of
          (Inl err, db) \<Rightarrow> (Inl err, db)
        | (Inr n, db) \<Rightarrow>
            (case g_page (lr_logs r) (\<lambda>x. log_matches f x \<and> live x) (\<lambda>x y. ol_ID y < ol_ID x) offset lmt db of
               (Inl err, db) \<Rightarrow> (Inl err, db)
             | (Inr found, db) \<Rightarrow> (Inr (found, n), db))))"

text \<open>The number of rows is zero beside an error.\<close>

definition lr_DeleteBefore :: "'db OperationLogRepository \<Rightarrow> time \<Rightarrow> 'db \<Rightarrow> (nat \<times> go_error option) \<times> 'db" where
  "lr_DeleteBefore r before db =
    (case lr_now r db of (now, db) \<Rightarrow>
       (case g_update (lr_logs r) (\<lambda>x. ol_CreatedAt x < before \<and> live x) (\<lambda>x. x\<lparr>ol_DeletedAt := Some now\<rparr>) db of
          (Inl err, db) \<Rightarrow> ((0, Some err), db)
        | (Inr n, db) \<Rightarrow> ((n, None), db)))"

section \<open>The handler of the consumer\<close>

definition log_of_event :: "OperationLogEvent \<Rightarrow> OperationLogModel" where
  "log_of_event e =
    \<lparr>ol_ID = 0, ol_CreatedAt = zero_time, ol_UpdatedAt = zero_time, ol_DeletedAt = None,
     ol_EventID = ev_EventID e, ol_AdminID = ev_AdminID e, ol_AdminName = ev_AdminName e, ol_Module = ev_Module e,
     ol_OperType = ev_Action e, ol_OperDesc = ev_Description e, ol_RequestURL = ev_Path e, ol_Method = ev_Method e,
     ol_IP = ev_ClientIP e, ol_UserAgent = ev_UserAgent e, ol_Params = [], ol_Result = [],
     ol_Status = (if ev_Success e then 1 else 0)\<rparr>"

definition NewOperationLog :: "'db OperationLogRepository option \<Rightarrow> go_error + 'db OperationLogRepository" where
  "NewOperationLog repository =
    (case repository of
       None \<Rightarrow> Inl (PlainErr ''operation-log repository is nil'')
     | Some r \<Rightarrow> Inr r)"

definition Handle :: "'db OperationLogRepository \<Rightarrow> OperationLogEvent \<Rightarrow> 'db \<Rightarrow> go_error option \<times> 'db" where
  "Handle h event db =
    (case ev_Validate event of
       Some err \<Rightarrow> (MarkPermanent (Some err), db)
     | None \<Rightarrow>
         if (- 1 :: u64) < ev_AdminID event then (MarkPermanent (Some (PlainErr ''admin_id exceeds uint range'')), db)
         else lr_Create h (Some (log_of_event event)) db)"

section \<open>What the table promises\<close>

text \<open>At most one row per event, deleted rows included.\<close>

definition log_inv :: "OperationLogModel list \<Rightarrow> bool" where
  "log_inv rs \<longleftrightarrow> distinct (map ol_EventID rs)"

lemma log_table_simps [simp]:
  "t_rows (log_table ids rows) = rows"
  "t_conflict (log_table ids rows) x y \<longleftrightarrow> ol_EventID x = ol_EventID y"
  "ol_EventID (t_fill (log_table ids rows) t x) = ol_EventID x"
  "t_touch (log_table ids rows) t x = x"
  by (simp_all add: log_table_def)

lemma log_of_event_EventID [simp]: "ol_EventID (log_of_event e) = ev_EventID e"
  by (simp add: log_of_event_def)

definition log_repo_ok :: "(time \<Rightarrow> u64) \<Rightarrow> ('db \<Rightarrow> OperationLogModel list) \<Rightarrow> 'db OperationLogRepository \<Rightarrow> bool" where
  "log_repo_ok ids rows r \<longleftrightarrow> gorm_up_ok (lr_logs r) (log_table ids rows)
     \<and> (\<forall>db. rows (snd (lr_now r db)) = rows db)"

text \<open>An insertion that reports success leaves exactly one row of the event, whether it is new or not; the others stay.\<close>

lemma Create_rows:
  assumes "log_repo_ok ids rows r" "lr_Create r (Some x) db = (e, db')"
  shows "rows db' = rows db \<or> ol_EventID x \<notin> ol_EventID ` set (rows db)
      \<and> (\<exists>t. rows db' = rows db @ [t_fill (log_table ids rows) t x])"
    and "e = None \<Longrightarrow> ol_EventID x \<in> ol_EventID ` set (rows db')"
proof -
  have up: "gorm_up_ok (lr_logs r) (log_table ids rows)" using assms(1) by (simp add: log_repo_ok_def)
  obtain res where g: "g_insert_ignore (lr_logs r) x db = (res, db')"
    using assms(2) by (auto simp: lr_Create_def update_error_def split: prod.splits sum.splits)
  have "(rows db' = rows db \<or> ol_EventID x \<notin> ol_EventID ` set (rows db)
      \<and> (\<exists>t. rows db' = rows db @ [t_fill (log_table ids rows) t x]))
    \<and> (e = None \<longrightarrow> ol_EventID x \<in> ol_EventID ` set (rows db'))"
  proof (cases res)
    case (Inl err)
    then show ?thesis
      using insert_ignore_Inl [OF up g [unfolded Inl]] assms(2) g by (auto simp: lr_Create_def update_error_def)
  next
    case (Inr n)
    from up g [unfolded Inr] show ?thesis
    proof (cases rule: insert_ignore_Inr)
      case (present t y)
      then show ?thesis by (metis image_eqI log_table_simps(1-3))
    next
      case (added t)
      then show ?thesis by (auto 0 3 simp: image_iff)
    qed
  qed
  then show "rows db' = rows db \<or> ol_EventID x \<notin> ol_EventID ` set (rows db)
      \<and> (\<exists>t. rows db' = rows db @ [t_fill (log_table ids rows) t x])"
    and "e = None \<Longrightarrow> ol_EventID x \<in> ol_EventID ` set (rows db')" by blast+
qed

section \<open>The default status\<close>

text \<open>C39: an event that reports a failed operation is stored with the status of a successful one: the handler sets the
  status 0, which is the zero value of the field, and for a column with a default GORM writes the default, 1, instead.\<close>
theorem failed_operation_recorded_as_success:
  assumes "log_repo_ok ids rows r" "Handle r event db = (None, db')" "\<not> ev_Success event"
    and "ev_EventID event \<notin> ol_EventID ` set (rows db)"
  shows "\<exists>x \<in> set (rows db'). ol_EventID x = ev_EventID event \<and> ol_Status x = 1"
proof -
  from assms(2) have lc: "lr_Create r (Some (log_of_event event)) db = (None, db')"
    by (auto simp: Handle_def MarkPermanent_def split: option.splits if_splits)
  have "rows db' \<noteq> rows db" using Create_rows(2) [OF assms(1) lc] assms(4) by auto
  with Create_rows(1) [OF assms(1) lc] obtain t where
    "rows db' = rows db @ [t_fill (log_table ids rows) t (log_of_event event)]" by blast
  then show ?thesis using assms(3) by (simp add: log_table_def log_of_event_def)
qed

definition failed_event :: OperationLogEvent where
  "failed_event = \<lparr>ev_EventID = ''e1'', ev_EventType = ''admin.operation_log.created'', ev_SchemaVersion = 1, ev_OccurredAt = 7,
     ev_AdminID = 3, ev_AdminName = ''root'', ev_Module = ''admin'', ev_Action = ''delete'', ev_Description = [], ev_Success = False,
     ev_ErrorCode = [], ev_RequestID = [], ev_TraceID = [], ev_Method = [], ev_Path = [], ev_ClientIP = [], ev_UserAgent = []\<rparr>"

definition list_log_repo :: "OperationLogModel list OperationLogRepository" where
  "list_log_repo = \<lparr>lr_logs = list_gorm_up (\<lambda>rs. rs) (\<lambda>rs _. rs) 5 (log_table (\<lambda>_. 1) (\<lambda>rs. rs)), lr_now = (\<lambda>w. (5, w))\<rparr>"

lemma list_log_repo_ok: "log_repo_ok (\<lambda>_. 1) (\<lambda>rs. rs) list_log_repo"
  by (simp add: log_repo_ok_def list_log_repo_def list_gorm_up_ok)

lemma failed_event_handled: "fst (Handle list_log_repo failed_event []) = None"
  by code_simp

theorem failed_operation_recorded_as_success_witness:
  "\<exists>x \<in> set (snd (Handle list_log_repo failed_event [])). ol_EventID x = ev_EventID failed_event \<and> ol_Status x = 1"
proof (rule failed_operation_recorded_as_success [OF list_log_repo_ok])
  show "Handle list_log_repo failed_event [] = (None, snd (Handle list_log_repo failed_event []))"
    using failed_event_handled by (metis prod.collapse)
qed (simp_all add: failed_event_def)

end
