(* ===== verification/Rabbit_Client.thy ===== *)
theory Rabbit_Client
  imports Operation_Log Go_Monad Web3_Config
begin

text \<open>
  The RabbitMQ connection of the admin service: \<open>admin/internal/mq/client.go\<close>, \<open>topology.go\<close> and
  \<open>publisher.go\<close>. The AMQP library, the propagator of trace contexts and the context of the calls are parameters
  (record \<open>amqp\<close>); connections, channels and confirmations are handles. The state of the connection and of the
  publisher, which the consumer and the request handlers share, is \<open>mq_state\<close>; a mutex makes every
  operation one step of it. Contexts are not nil, and spans are left out.
\<close>

section \<open>Configuration and library\<close>

record RabbitMQOperationLog =
  ro_Exchange :: string
  ro_ExchangeType :: string
  ro_RoutingKey :: string
  ro_Queue :: string
  ro_RetryExchange :: string
  ro_RetryRoutingKey :: string
  ro_RetryQueue :: string
  ro_RetryDelay :: string
  ro_MaxRetries :: int
  ro_DeadLetterExchange :: string
  ro_DeadLetterRoutingKey :: string
  ro_DeadLetterQueue :: string

record AdminRabbitMQConfig =
  rq_Enabled :: bool
  rq_Host :: string
  rq_Port :: int
  rq_Username :: string
  rq_Password :: string
  rq_VHost :: string
  rq_ConnectionName :: string
  rq_Heartbeat :: string
  rq_DialTimeout :: string
  rq_ReconnectInterval :: string
  rq_PublishConfirmTimeout :: string
  rq_PrefetchCount :: int
  rq_OperationLog :: RabbitMQOperationLog

definition MqAddress :: "AdminRabbitMQConfig \<Rightarrow> string" where
  "MqAddress m = JoinHostPort (TrimSpace (rq_Host m)) (int_to_string (rq_Port m))"

type_synonym handle = nat

record amqp_dial =
  da_Username :: string
  da_Password :: string
  da_Vhost :: string
  da_Heartbeat :: time
  da_Locale :: string
  da_DialTimeout :: time
  da_connection_name :: string

record Publishing =
  pb_Headers :: amqp_table
  pb_ContentType :: string
  pb_ContentEncoding :: string
  pb_DeliveryMode :: byte
  pb_Priority :: byte
  pb_CorrelationId :: string
  pb_ReplyTo :: string
  pb_MessageId :: string
  pb_Timestamp :: time
  pb_Type :: string
  pb_UserId :: string
  pb_AppId :: string
  pb_Body :: string

text \<open>A delivery is identified by its channel and its tag.\<close>

record delivery =
  dl_Channel :: handle
  dl_Tag :: u64
  dl_Headers :: "amqp_table option"
  dl_ContentType :: string
  dl_ContentEncoding :: string
  dl_Priority :: byte
  dl_CorrelationId :: string
  dl_ReplyTo :: string
  dl_MessageId :: string
  dl_Timestamp :: time
  dl_Type :: string
  dl_UserId :: string
  dl_AppId :: string
  dl_Body :: string

datatype select_event = Ctx_Done | Delivered delivery | Deliveries_closed

record 'w amqp =
  am_DialConfig :: "string \<Rightarrow> amqp_dial \<Rightarrow> 'w \<Rightarrow> (go_error + handle) \<times> 'w"
  am_conn_IsClosed :: "handle \<Rightarrow> 'w \<Rightarrow> bool \<times> 'w"
  am_conn_Channel :: "handle \<Rightarrow> 'w \<Rightarrow> (go_error + handle) \<times> 'w"
  am_conn_Close :: "handle \<Rightarrow> 'w \<Rightarrow> go_error option \<times> 'w"
  am_ch_IsClosed :: "handle \<Rightarrow> 'w \<Rightarrow> bool \<times> 'w"
  am_ch_Close :: "handle \<Rightarrow> 'w \<Rightarrow> go_error option \<times> 'w"
  am_ExchangeDeclare :: "handle \<Rightarrow> string \<Rightarrow> string \<Rightarrow> bool \<Rightarrow> bool \<Rightarrow> bool \<Rightarrow> bool \<Rightarrow> amqp_table option \<Rightarrow> 'w \<Rightarrow> go_error option \<times> 'w"
  am_QueueDeclare :: "handle \<Rightarrow> string \<Rightarrow> bool \<Rightarrow> bool \<Rightarrow> bool \<Rightarrow> bool \<Rightarrow> amqp_table option \<Rightarrow> 'w \<Rightarrow> go_error option \<times> 'w"
  am_QueueBind :: "handle \<Rightarrow> string \<Rightarrow> string \<Rightarrow> string \<Rightarrow> bool \<Rightarrow> amqp_table option \<Rightarrow> 'w \<Rightarrow> go_error option \<times> 'w"
  am_Confirm :: "handle \<Rightarrow> bool \<Rightarrow> 'w \<Rightarrow> go_error option \<times> 'w"
  am_Publish :: "handle \<Rightarrow> string \<Rightarrow> string \<Rightarrow> bool \<Rightarrow> bool \<Rightarrow> Publishing \<Rightarrow> 'w \<Rightarrow> (go_error + handle option) \<times> 'w"
  am_WaitContext :: "handle \<Rightarrow> time \<Rightarrow> 'w \<Rightarrow> (go_error + bool) \<times> 'w"
  am_Qos :: "handle \<Rightarrow> int \<Rightarrow> int \<Rightarrow> bool \<Rightarrow> 'w \<Rightarrow> go_error option \<times> 'w"
  am_Consume :: "handle \<Rightarrow> string \<Rightarrow> string \<Rightarrow> bool \<Rightarrow> bool \<Rightarrow> bool \<Rightarrow> bool \<Rightarrow> amqp_table option \<Rightarrow> 'w \<Rightarrow> go_error option \<times> 'w"
  am_select :: "handle \<Rightarrow> 'w \<Rightarrow> select_event \<times> 'w"
  am_Ack :: "delivery \<Rightarrow> bool \<Rightarrow> 'w \<Rightarrow> go_error option \<times> 'w"
  am_Nack :: "delivery \<Rightarrow> bool \<Rightarrow> bool \<Rightarrow> 'w \<Rightarrow> go_error option \<times> 'w"
  am_inject :: "amqp_table \<Rightarrow> 'w \<Rightarrow> amqp_table"
  am_ctx_Err :: "'w \<Rightarrow> go_error option \<times> 'w"
  am_waitContext :: "time \<Rightarrow> 'w \<Rightarrow> go_error option \<times> 'w"
  am_ParseDuration :: "string \<Rightarrow> go_error + time"

section \<open>The state and calls that only touch the world\<close>

record 'w mq_state =
  mq_conn :: "handle option"
  mq_closed :: bool
  pub_channel :: "handle option"
  pub_closed :: bool
  mq_world :: 'w

type_synonym ('w, 'a) mq = "('w mq_state, 'a) go"

definition on_mq :: "('w \<Rightarrow> 'a \<times> 'w) \<Rightarrow> 'w mq_state \<Rightarrow> 'a \<times> 'w mq_state" where
  "on_mq f st = (case f (mq_world st) of (a, w) \<Rightarrow> (a, st\<lparr>mq_world := w\<rparr>))"

definition get_state :: "('w, 'w mq_state) mq" where
  "get_state st = Returned (Inr st, st)"

definition put_state :: "('w mq_state \<Rightarrow> 'w mq_state) \<Rightarrow> ('w, unit) mq" where
  "put_state f st = Returned (Inr (), f st)"

text \<open>\<open>fmt.Errorf("...: %w", err)\<close> around a call, and a call whose error is discarded.\<close>

definition wrapping :: "string \<Rightarrow> ('st, 'a) go \<Rightarrow> ('st, 'a) go" where
  "wrapping message m = go_try m (\<lambda>r. case r of Inl err \<Rightarrow> go_fail (WrapErr message err) | Inr a \<Rightarrow> go_return a)"

definition discarding :: "('st, unit) go \<Rightarrow> ('st, unit) go" where
  "discarding m = go_try m (\<lambda>_. go_return ())"

section \<open>The client\<close>

definition dial :: "'w amqp \<Rightarrow> AdminRabbitMQConfig \<Rightarrow> ('w, handle) mq" where
  "dial A cfg =
    go_bind (wrapping ''parse RabbitMQ heartbeat: '' (go_lift (am_ParseDuration A (rq_Heartbeat cfg)))) (\<lambda>heartbeat.
    go_bind (wrapping ''parse RabbitMQ dial timeout: '' (go_lift (am_ParseDuration A (rq_DialTimeout cfg)))) (\<lambda>dialTimeout.
    wrapping (''connect RabbitMQ at '' @ MqAddress cfg @ '': '')
      (go_call (on_mq (am_DialConfig A (''amqp://'' @ MqAddress cfg @ ''/'')
        \<lparr>da_Username = rq_Username cfg, da_Password = rq_Password cfg, da_Vhost = rq_VHost cfg, da_Heartbeat = heartbeat,
         da_Locale = ''en_US'', da_DialTimeout = dialTimeout, da_connection_name = rq_ConnectionName cfg\<rparr>)))))"

definition mq_NewClient :: "'w amqp \<Rightarrow> AdminRabbitMQConfig \<Rightarrow> ('w, unit) mq" where
  "mq_NewClient A cfg = go_bind (dial A cfg) (\<lambda>conn. put_state (\<lambda>st. st\<lparr>mq_conn := Some conn, mq_closed := False\<rparr>))"

text \<open>\<open>c.conn == nil || c.conn.IsClosed()\<close>.\<close>

definition conn_gone :: "'w amqp \<Rightarrow> ('w, bool) mq" where
  "conn_gone A = go_bind get_state (\<lambda>st. case mq_conn st of
     None \<Rightarrow> go_return True
   | Some conn \<Rightarrow> go_get (on_mq (am_conn_IsClosed A conn)))"

definition OpenChannel :: "'w amqp \<Rightarrow> ('w, handle) mq" where
  "OpenChannel A = go_bind get_state (\<lambda>st.
     if mq_closed st then go_fail (Sentinel ErrClientClosed)
     else go_bind (conn_gone A) (\<lambda>gone.
       if gone then go_fail (Sentinel ErrConnectionClosed)
       else case mq_conn st of
          None \<Rightarrow> go_panic
        | Some conn \<Rightarrow> wrapping ''open RabbitMQ channel: '' (go_call (on_mq (am_conn_Channel A conn)))))"

definition mq_IsClosed :: "'w amqp \<Rightarrow> ('w, bool) mq" where
  "mq_IsClosed A = go_bind get_state (\<lambda>st. if mq_closed st then go_return True else conn_gone A)"

text \<open>Closing a connection that is not closed yet; the result of \<open>Close\<close> is returned.\<close>

definition close_open_conn :: "'w amqp \<Rightarrow> handle option \<Rightarrow> ('w, unit) mq" where
  "close_open_conn A conn = (case conn of
     None \<Rightarrow> go_return ()
   | Some c \<Rightarrow> go_bind (go_get (on_mq (am_conn_IsClosed A c))) (\<lambda>closed.
       if closed then go_return () else go_call_err (on_mq (am_conn_Close A c))))"

definition mq_Reconnect :: "'w amqp \<Rightarrow> AdminRabbitMQConfig \<Rightarrow> ('w, unit) mq" where
  "mq_Reconnect A cfg = go_bind get_state (\<lambda>st.
     if mq_closed st then go_fail (Sentinel ErrClientClosed)
     else go_bind (conn_gone A) (\<lambda>gone.
       if \<not> gone then go_return ()
       else go_bind (go_call_err (on_mq (am_ctx_Err A))) (\<lambda>_.
            go_bind (dial A cfg) (\<lambda>conn.
            go_bind get_state (\<lambda>st.
              if mq_closed st then
                go_bind (discarding (go_call_err (on_mq (am_conn_Close A conn)))) (\<lambda>_. go_fail (Sentinel ErrClientClosed))
              else
                go_bind (put_state (\<lambda>st. st\<lparr>mq_conn := Some conn\<rparr>)) (\<lambda>_.
                  discarding (close_open_conn A (mq_conn st))))))))"

definition mq_Ping :: "'w amqp \<Rightarrow> ('w, unit) mq" where
  "mq_Ping A =
    go_bind (go_call_err (on_mq (am_ctx_Err A))) (\<lambda>_.
    go_bind (OpenChannel A) (\<lambda>channel. go_call_err (on_mq (am_ch_Close A channel))))"

definition mq_Close :: "'w amqp \<Rightarrow> ('w, unit) mq" where
  "mq_Close A = go_bind get_state (\<lambda>st.
     if mq_closed st then go_return ()
     else go_bind (put_state (\<lambda>st. st\<lparr>mq_closed := True, mq_conn := None\<rparr>)) (\<lambda>_.
       close_open_conn A (mq_conn st)))"

section \<open>The topology\<close>

definition declare_queue :: "'w amqp \<Rightarrow> handle \<Rightarrow> string \<Rightarrow> string \<Rightarrow> string \<Rightarrow> string \<Rightarrow> amqp_table option \<Rightarrow> ('w, unit) mq" where
  "declare_queue A channel kind queue key exchange args =
    go_bind (wrapping (''declare '' @ kind @ ''queue '' @ queue @ '': '')
      (go_call_err (on_mq (am_QueueDeclare A channel queue True False False False args)))) (\<lambda>_.
    wrapping (''bind '' @ kind @ ''queue '' @ queue @ '': '')
      (go_call_err (on_mq (am_QueueBind A channel queue key exchange False None))))"

definition DeclareOperationLogTopology :: "'w amqp \<Rightarrow> handle option \<Rightarrow> RabbitMQOperationLog \<Rightarrow> ('w, unit) mq" where
  "DeclareOperationLogTopology A channel cfg = (case channel of
     None \<Rightarrow> go_fail (PlainErr ''declare RabbitMQ topology: channel is nil'')
   | Some ch \<Rightarrow>
       go_bind (wrapping (''parse RabbitMQ retry delay '' @ go_quote (ro_RetryDelay cfg) @ '': '')
         (go_lift (am_ParseDuration A (ro_RetryDelay cfg)))) (\<lambda>retryDelay.
       if retryDelay \<le> 0 then go_fail (PlainErr ''RabbitMQ retry delay must be positive'')
       else
         go_bind (go_for [(ro_Exchange cfg, ro_ExchangeType cfg), (ro_RetryExchange cfg, ''direct''),
             (ro_DeadLetterExchange cfg, ''direct'')]
           (\<lambda>(name, kind). wrapping (''declare exchange '' @ name @ '': '')
             (go_call_err (on_mq (am_ExchangeDeclare A ch name kind True False False False None))))) (\<lambda>_.
         go_bind (declare_queue A ch '''' (ro_Queue cfg) (ro_RoutingKey cfg) (ro_Exchange cfg)
           (Some [''x-dead-letter-exchange'' \<mapsto> V_text (ro_DeadLetterExchange cfg),
                  ''x-dead-letter-routing-key'' \<mapsto> V_text (ro_DeadLetterRoutingKey cfg)])) (\<lambda>_.
         go_bind (declare_queue A ch ''retry '' (ro_RetryQueue cfg) (ro_RetryRoutingKey cfg) (ro_RetryExchange cfg)
           (Some [''x-message-ttl'' \<mapsto> V_int64 (word_of_int (retryDelay div 1000000)),
                  ''x-dead-letter-exchange'' \<mapsto> V_text (ro_Exchange cfg),
                  ''x-dead-letter-routing-key'' \<mapsto> V_text (ro_RoutingKey cfg)])) (\<lambda>_.
           declare_queue A ch ''dead-letter '' (ro_DeadLetterQueue cfg) (ro_DeadLetterRoutingKey cfg)
             (ro_DeadLetterExchange cfg) None)))))"

section \<open>The publisher\<close>

record Publisher =
  pb_config :: AdminRabbitMQConfig
  pb_confirmTimeout :: time

text \<open>\<open>if err := m; err != nil { _ = channel.Close(); return f(err) }\<close>.\<close>

definition or_close :: "'w amqp \<Rightarrow> handle \<Rightarrow> (go_error \<Rightarrow> go_error) \<Rightarrow> ('w, 'a) mq \<Rightarrow> ('a \<Rightarrow> ('w, 'b) mq) \<Rightarrow> ('w, 'b) mq" where
  "or_close A channel f m k = go_try m (\<lambda>r. case r of
     Inl err \<Rightarrow> go_bind (discarding (go_call_err (on_mq (am_ch_Close A channel)))) (\<lambda>_. go_fail (f err))
   | Inr a \<Rightarrow> k a)"

definition openChannelLocked :: "'w amqp \<Rightarrow> Publisher \<Rightarrow> ('w, unit) mq" where
  "openChannelLocked A p = go_bind (OpenChannel A) (\<lambda>channel.
     or_close A channel (\<lambda>err. err) (DeclareOperationLogTopology A (Some channel) (rq_OperationLog (pb_config p))) (\<lambda>_.
     or_close A channel (WrapErr ''enable RabbitMQ publisher confirms: '') (go_call_err (on_mq (am_Confirm A channel False)))
       (\<lambda>_. put_state (\<lambda>st. st\<lparr>pub_channel := Some channel\<rparr>))))"

definition closeChannelLocked :: "'w amqp \<Rightarrow> ('w, unit) mq" where
  "closeChannelLocked A = go_bind get_state (\<lambda>st. case pub_channel st of
     None \<Rightarrow> go_return ()
   | Some channel \<Rightarrow>
       go_bind (put_state (\<lambda>st. st\<lparr>pub_channel := None\<rparr>)) (\<lambda>_.
       go_bind (go_get (on_mq (am_ch_IsClosed A channel))) (\<lambda>closed.
         if closed then go_return () else go_call_err (on_mq (am_ch_Close A channel)))))"

definition recoverChannelLocked :: "'w amqp \<Rightarrow> Publisher \<Rightarrow> ('w, unit) mq" where
  "recoverChannelLocked A p =
    go_bind (discarding (closeChannelLocked A)) (\<lambda>_.
    go_bind (mq_IsClosed A) (\<lambda>closed.
    go_bind (if closed then wrapping ''reconnect RabbitMQ publisher: '' (mq_Reconnect A (pb_config p)) else go_return ()) (\<lambda>_.
      openChannelLocked A p)))"

definition NewPublisher :: "'w amqp \<Rightarrow> AdminRabbitMQConfig \<Rightarrow> ('w, Publisher) mq" where
  "NewPublisher A cfg = (case am_ParseDuration A (rq_PublishConfirmTimeout cfg) of
     Inl _ \<Rightarrow> go_fail (PlainErr (''invalid publish confirm timeout '' @ go_quote (rq_PublishConfirmTimeout cfg)))
   | Inr confirmTimeout \<Rightarrow>
       if confirmTimeout \<le> 0 then
         go_fail (PlainErr (''invalid publish confirm timeout '' @ go_quote (rq_PublishConfirmTimeout cfg)))
       else
         let p = \<lparr>pb_config = cfg, pb_confirmTimeout = confirmTimeout\<rparr>
         in go_bind (put_state (\<lambda>st. st\<lparr>pub_channel := None, pub_closed := False\<rparr>)) (\<lambda>_.
            go_bind (openChannelLocked A p) (\<lambda>_. go_return p)))"

text \<open>\<open>publish\<close> from the point where the channel is usable.\<close>

definition publish_on :: "'w amqp \<Rightarrow> Publisher \<Rightarrow> string \<Rightarrow> string \<Rightarrow> Publishing \<Rightarrow> ('w, unit) mq" where
  "publish_on A p exchange routingKey message = go_bind get_state (\<lambda>st. case pub_channel st of
     None \<Rightarrow> go_panic
   | Some channel \<Rightarrow>
       go_try (go_call (on_mq (am_Publish A channel exchange routingKey False False message))) (\<lambda>r. case r of
          Inl err \<Rightarrow> go_bind (discarding (closeChannelLocked A)) (\<lambda>_. go_fail (WrapErr ''publish RabbitMQ message: '' err))
        | Inr None \<Rightarrow> go_fail (PlainErr ''RabbitMQ publisher confirm is not enabled'')
        | Inr (Some confirmation) \<Rightarrow>
            go_bind (wrapping ''wait for RabbitMQ publisher confirm: ''
              (go_call (on_mq (am_WaitContext A confirmation (pb_confirmTimeout p))))) (\<lambda>acked.
              if \<not> acked then go_fail (PlainErr ''RabbitMQ broker negatively acknowledged message'') else go_return ())))"

definition publish :: "'w amqp \<Rightarrow> Publisher \<Rightarrow> string \<Rightarrow> string \<Rightarrow> Publishing \<Rightarrow> ('w, unit) mq" where
  "publish A p exchange routingKey message = go_bind get_state (\<lambda>st.
     if pub_closed st then go_fail (PlainErr ''RabbitMQ publisher is closed'')
     else
       go_bind (case pub_channel st of
          None \<Rightarrow> go_return True
        | Some channel \<Rightarrow> go_get (on_mq (am_ch_IsClosed A channel))) (\<lambda>broken.
       go_bind (if broken then recoverChannelLocked A p else go_return ()) (\<lambda>_.
         publish_on A p exchange routingKey message)))"

definition Publish :: "'w amqp \<Rightarrow> event_codec \<Rightarrow> Publisher \<Rightarrow> OperationLogEvent \<Rightarrow> ('w, unit) mq" where
  "Publish A J p event =
    go_bind (wrapping ''build operation-log message: '' (go_lift (encodeOperationLog J event))) (\<lambda>body.
    go_bind get_state (\<lambda>st.
      publish A p (ro_Exchange (rq_OperationLog (pb_config p))) (ro_RoutingKey (rq_OperationLog (pb_config p)))
        \<lparr>pb_Headers = am_inject A Map.empty (mq_world st), pb_ContentType = ''application/json'', pb_ContentEncoding = [],
         pb_DeliveryMode = 2, pb_Priority = 0, pb_CorrelationId = [], pb_ReplyTo = [], pb_MessageId = ev_EventID event,
         pb_Timestamp = ev_OccurredAt event, pb_Type = ev_EventType event, pb_UserId = [],
         pb_AppId = rq_ConnectionName (pb_config p), pb_Body = body\<rparr>))"

text \<open>A delivery published again: the headers are replaced, everything else is kept.\<close>

definition republished :: "delivery \<Rightarrow> amqp_table \<Rightarrow> Publishing" where
  "republished d headers =
    \<lparr>pb_Headers = headers, pb_ContentType = dl_ContentType d, pb_ContentEncoding = dl_ContentEncoding d,
     pb_DeliveryMode = 2, pb_Priority = dl_Priority d, pb_CorrelationId = dl_CorrelationId d, pb_ReplyTo = dl_ReplyTo d,
     pb_MessageId = dl_MessageId d, pb_Timestamp = dl_Timestamp d, pb_Type = dl_Type d, pb_UserId = dl_UserId d,
     pb_AppId = dl_AppId d, pb_Body = dl_Body d\<rparr>"

definition Republish :: "'w amqp \<Rightarrow> Publisher \<Rightarrow> string \<Rightarrow> string \<Rightarrow> delivery \<Rightarrow> amqp_table option \<Rightarrow> ('w, unit) mq" where
  "Republish A p exchange routingKey d headers = go_bind get_state (\<lambda>st.
     publish A p exchange routingKey (republished d (am_inject A (case headers of None \<Rightarrow> Map.empty | Some h \<Rightarrow> h) (mq_world st))))"

definition pub_Close :: "'w amqp \<Rightarrow> ('w, unit) mq" where
  "pub_Close A = go_bind get_state (\<lambda>st.
     if pub_closed st then go_return ()
     else go_bind (put_state (\<lambda>st. st\<lparr>pub_closed := True\<rparr>)) (\<lambda>_. closeChannelLocked A))"

end
