(* ===== verification/Log_Consumer.thy ===== *)
theory Log_Consumer
  imports Rabbit_Client
begin

text \<open>
  The consumer of the operation log, \<open>admin/internal/mq/consumer.go\<close>. Its two loops may run for ever: they have the
  number of steps as an argument and yield \<open>Running\<close> when it is used up, so what holds for every number of steps
  holds at every moment of the run. The handler and the publisher are interfaces in the code; \<open>log_consumer\<close>
  states what the consumer relies on, and is interpreted on \<open>Handle\<close> and \<open>Republish\<close>.
\<close>

section \<open>The code\<close>

text \<open>\<open>Error()\<close> of an error; \<open>lib\<close> gives the text of the errors of libraries.\<close>

fun error_text :: "(go_error \<Rightarrow> string) \<Rightarrow> go_error \<Rightarrow> string" where
  "error_text lib (AppErr None) = ''<nil>''"
| "error_text lib (AppErr (Some (AppError c m s None))) = code_string c @ '': '' @ m"
| "error_text lib (AppErr (Some (AppError c m s (Some e)))) = code_string c @ '': '' @ m @ '': '' @ error_text lib e"
| "error_text lib (WrapErr m e) = m @ error_text lib e"
| "error_text lib (PermanentErr None) = ''permanent message error''"
| "error_text lib (PermanentErr (Some e)) = error_text lib e"
| "error_text lib (PlainErr m) = m"
| "error_text lib e = lib e"

record 'w Consumer =
  co_config :: AdminRabbitMQConfig
  co_handler :: "OperationLogEvent \<Rightarrow> 'w \<Rightarrow> go_error option \<times> 'w"
  co_republish :: "string \<Rightarrow> string \<Rightarrow> delivery \<Rightarrow> amqp_table option \<Rightarrow> ('w, unit) mq"
  co_reconnectInterval :: time

text \<open>The arguments that are interfaces may be nil.\<close>

definition NewConsumer :: "'w amqp \<Rightarrow> unit option \<Rightarrow> AdminRabbitMQConfig
    \<Rightarrow> (OperationLogEvent \<Rightarrow> 'w \<Rightarrow> go_error option \<times> 'w) option
    \<Rightarrow> (string \<Rightarrow> string \<Rightarrow> delivery \<Rightarrow> amqp_table option \<Rightarrow> ('w, unit) mq) option \<Rightarrow> unit option
    \<Rightarrow> go_error + 'w Consumer" where
  "NewConsumer A client cfg handler publisher logger =
    (case client of None \<Rightarrow> Inl (PlainErr ''RabbitMQ consumer client is nil'') | Some _ \<Rightarrow>
     case handler of None \<Rightarrow> Inl (PlainErr ''operation-log handler is nil'') | Some h \<Rightarrow>
     case publisher of None \<Rightarrow> Inl (PlainErr ''RabbitMQ retry publisher is nil'') | Some r \<Rightarrow>
     case logger of None \<Rightarrow> Inl (PlainErr ''RabbitMQ consumer logger is nil'') | Some _ \<Rightarrow>
     (case am_ParseDuration A (rq_ReconnectInterval cfg) of
        Inl _ \<Rightarrow> Inl (PlainErr (''invalid RabbitMQ reconnect interval '' @ go_quote (rq_ReconnectInterval cfg)))
      | Inr interval \<Rightarrow>
          if interval \<le> 0 then Inl (PlainErr (''invalid RabbitMQ reconnect interval '' @ go_quote (rq_ReconnectInterval cfg)))
          else Inr \<lparr>co_config = cfg, co_handler = h, co_republish = r, co_reconnectInterval = interval\<rparr>))"

text \<open>A delivery is acknowledged once its copy is published, and put back into the queue when that failed.\<close>

definition settle :: "'w amqp \<Rightarrow> delivery \<Rightarrow> ('w, unit) mq \<Rightarrow> ('w, unit) mq" where
  "settle A d republish = go_try republish (\<lambda>r. case r of
     Inl err \<Rightarrow> discarding (go_call_err (on_mq (am_Nack A d False True)))
   | Inr _ \<Rightarrow> discarding (go_call_err (on_mq (am_Ack A d False))))"

definition moveToDeadLetter :: "'w amqp \<Rightarrow> (go_error \<Rightarrow> string) \<Rightarrow> 'w Consumer \<Rightarrow> delivery \<Rightarrow> go_error \<Rightarrow> ('w, unit) mq" where
  "moveToDeadLetter A lib c d cause =
    (let headers = (cloneHeaders (dl_Headers d))(''x-error'' \<mapsto> V_text (error_text lib cause));
         cfg = rq_OperationLog (co_config c)
     in settle A d (co_republish c (ro_DeadLetterExchange cfg) (ro_DeadLetterRoutingKey cfg) d (Some headers)))"

definition retryOrDeadLetter :: "'w amqp \<Rightarrow> (go_error \<Rightarrow> string) \<Rightarrow> 'w Consumer \<Rightarrow> delivery \<Rightarrow> go_error \<Rightarrow> ('w, unit) mq" where
  "retryOrDeadLetter A lib c d cause =
    (let count = retryCount (dl_Headers d); cfg = rq_OperationLog (co_config c)
     in if ro_MaxRetries cfg \<le> count then moveToDeadLetter A lib c d cause
        else
          let headers = (cloneHeaders (dl_Headers d))(retryCountHeader \<mapsto> V_int32 (word_of_int (count + 1)))
          in settle A d (co_republish c (ro_RetryExchange cfg) (ro_RetryRoutingKey cfg) d (Some headers)))"

definition handleDelivery :: "'w amqp \<Rightarrow> event_codec \<Rightarrow> (go_error \<Rightarrow> string) \<Rightarrow> 'w Consumer \<Rightarrow> delivery \<Rightarrow> ('w, unit) mq" where
  "handleDelivery A J lib c d =
    (case decodeOperationLog J (dl_Body d) of (event, decodeErr) \<Rightarrow>
       go_try (case decodeErr of Some err \<Rightarrow> go_fail err | None \<Rightarrow> go_call_err (on_mq (co_handler c event))) (\<lambda>r. case r of
          Inr _ \<Rightarrow> discarding (go_call_err (on_mq (am_Ack A d False)))
        | Inl err \<Rightarrow>
            if ev_Validate event \<noteq> None \<or> isPermanent (Some err) then moveToDeadLetter A lib c d err
            else retryOrDeadLetter A lib c d err))"

datatype progress = Finished | Running

primrec consume_loop :: "nat \<Rightarrow> 'w amqp \<Rightarrow> event_codec \<Rightarrow> (go_error \<Rightarrow> string) \<Rightarrow> 'w Consumer \<Rightarrow> handle \<Rightarrow> ('w, progress) mq" where
  "consume_loop 0 A J lib c channel = go_return Running"
| "consume_loop (Suc n) A J lib c channel = go_bind (go_get (on_mq (am_select A channel))) (\<lambda>event. case event of
     Ctx_Done \<Rightarrow> go_return Finished
   | Deliveries_closed \<Rightarrow> go_fail (PlainErr ''RabbitMQ delivery channel closed'')
   | Delivered d \<Rightarrow> go_bind (handleDelivery A J lib c d) (\<lambda>_. consume_loop n A J lib c channel))"

text \<open>The deferred \<open>channel.Close\<close> runs when \<open>consume\<close> returns.\<close>

definition consume :: "nat \<Rightarrow> 'w amqp \<Rightarrow> event_codec \<Rightarrow> (go_error \<Rightarrow> string) \<Rightarrow> 'w Consumer \<Rightarrow> ('w, progress) mq" where
  "consume n A J lib c = go_bind (OpenChannel A) (\<lambda>channel.
     go_try
       (go_bind (DeclareOperationLogTopology A (Some channel) (rq_OperationLog (co_config c))) (\<lambda>_.
        go_bind (wrapping ''set RabbitMQ consumer QoS: ''
          (go_call_err (on_mq (am_Qos A channel (rq_PrefetchCount (co_config c)) 0 False)))) (\<lambda>_.
        go_bind (wrapping ''start RabbitMQ consumer: ''
          (go_call_err (on_mq (am_Consume A channel (ro_Queue (rq_OperationLog (co_config c)))
            (rq_ConnectionName (co_config c) @ ''-operation-log'') False False False False None)))) (\<lambda>_.
          consume_loop n A J lib c channel))))
       (\<lambda>r. if r = Inr Running then go_return Running
         else go_bind (discarding (go_call_err (on_mq (am_ch_Close A channel)))) (\<lambda>_. go_lift r)))"

text \<open>\<open>k\<close> bounds the rounds of the outer loop and \<open>n\<close> the deliveries of one round.\<close>

primrec Start :: "nat \<Rightarrow> nat \<Rightarrow> 'w amqp \<Rightarrow> event_codec \<Rightarrow> (go_error \<Rightarrow> string) \<Rightarrow> 'w Consumer \<Rightarrow> ('w, progress) mq" where
  "Start 0 n A J lib c = go_return Running"
| "Start (Suc k) n A J lib c = go_try (consume n A J lib c) (\<lambda>r.
     if r = Inr Running then go_return Running
     else go_try (go_call_err (on_mq (am_ctx_Err A))) (\<lambda>r. case r of
       Inl _ \<Rightarrow> go_return Finished
     | Inr _ \<Rightarrow>
         go_try (go_call_err (on_mq (am_waitContext A (co_reconnectInterval c)))) (\<lambda>r. case r of
            Inl _ \<Rightarrow> go_return Finished
          | Inr _ \<Rightarrow>
              go_try (mq_Reconnect A (co_config c)) (\<lambda>r. case r of
                 Inl err \<Rightarrow> if errors_Is err ErrClientClosed then go_fail err else Start k n A J lib c
               | Inr _ \<Rightarrow> Start k n A J lib c))))"

section \<open>What the broker and the library promise\<close>

text \<open>
  Of the broker the statements see the acknowledged deliveries, the messages it has accepted, the message
  behind a confirmation and the deliveries made so far; of the database, the rows of the log. \<open>moves V S w w'\<close>
  says that at most the deliveries with a key in \<open>S\<close> were acknowledged, that accepted messages and rows
  stay, and that the table keeps its key.
\<close>

record 'w broker_view =
  bv_acked :: "'w \<Rightarrow> (handle \<times> u64) set"
  bv_accepted :: "'w \<Rightarrow> (string \<times> string \<times> Publishing) set"
  bv_sent :: "'w \<Rightarrow> handle \<Rightarrow> (string \<times> string \<times> Publishing) option"
  bv_delivered :: "'w \<Rightarrow> delivery set"
  bv_rows :: "'w \<Rightarrow> OperationLogModel list"

definition delivery_key :: "delivery \<Rightarrow> handle \<times> u64" where
  "delivery_key d = (dl_Channel d, dl_Tag d)"

definition moves :: "'w broker_view \<Rightarrow> (handle \<times> u64) set \<Rightarrow> 'w \<Rightarrow> 'w \<Rightarrow> bool" where
  "moves V S w w' \<longleftrightarrow> bv_acked V w' \<subseteq> bv_acked V w \<union> S \<and> bv_accepted V w \<subseteq> bv_accepted V w'
     \<and> bv_delivered V w' = bv_delivered V w \<and> ol_EventID ` set (bv_rows V w) \<subseteq> ol_EventID ` set (bv_rows V w')
     \<and> (log_inv (bv_rows V w) \<longrightarrow> log_inv (bv_rows V w'))"

definition quietly :: "'w broker_view \<Rightarrow> ('w \<Rightarrow> 'a \<times> 'w) \<Rightarrow> bool" where
  "quietly V f \<longleftrightarrow> (\<forall>w. moves V {} w (snd (f w)))"

definition connection_ok :: "'w amqp \<Rightarrow> 'w broker_view \<Rightarrow> bool" where
  "connection_ok A V \<longleftrightarrow>
     (\<forall>a c. quietly V (am_DialConfig A a c)) \<and> (\<forall>h. quietly V (am_conn_IsClosed A h)) \<and> (\<forall>h. quietly V (am_conn_Channel A h))
   \<and> (\<forall>h. quietly V (am_conn_Close A h)) \<and> (\<forall>h. quietly V (am_ch_IsClosed A h)) \<and> (\<forall>h. quietly V (am_ch_Close A h))
   \<and> (\<forall>h n k a b c d t. quietly V (am_ExchangeDeclare A h n k a b c d t)) \<and> (\<forall>h n a b c d t. quietly V (am_QueueDeclare A h n a b c d t))
   \<and> (\<forall>h q k e a t. quietly V (am_QueueBind A h q k e a t)) \<and> (\<forall>h b. quietly V (am_Confirm A h b))
   \<and> (\<forall>h n s b. quietly V (am_Qos A h n s b)) \<and> (\<forall>h q n a b c d t. quietly V (am_Consume A h q n a b c d t))
   \<and> quietly V (am_ctx_Err A) \<and> (\<forall>t. quietly V (am_waitContext A t))"

text \<open>A confirmation that was received means that the broker has the message. The propagator leaves the retry count alone.\<close>

definition publishing_ok :: "'w amqp \<Rightarrow> 'w broker_view \<Rightarrow> bool" where
  "publishing_ok A V \<longleftrightarrow>
     (\<forall>h e k a b m. quietly V (am_Publish A h e k a b m)) \<and> (\<forall>h t. quietly V (am_WaitContext A h t))
   \<and> (\<forall>h e k a b m w cf w'. am_Publish A h e k a b m w = (Inr (Some cf), w') \<longrightarrow> bv_sent V w' cf = Some (e, k, m))
   \<and> (\<forall>cf t w w' m. am_WaitContext A cf t w = (Inr True, w') \<longrightarrow> bv_sent V w cf = Some m \<longrightarrow> m \<in> bv_accepted V w')
   \<and> (\<forall>h w. am_inject A h w retryCountHeader = h retryCountHeader)"

text \<open>A delivery tag is not used twice on a channel.\<close>

definition deliveries_ok :: "'w amqp \<Rightarrow> 'w broker_view \<Rightarrow> bool" where
  "deliveries_ok A V \<longleftrightarrow>
     (\<forall>d b w. moves V {delivery_key d} w (snd (am_Ack A d b w))) \<and> (\<forall>d a b. quietly V (am_Nack A d a b))
   \<and> (\<forall>h w event w'. am_select A h w = (event, w') \<longrightarrow>
        (case event of
           Delivered d \<Rightarrow> bv_delivered V w' = insert d (bv_delivered V w) \<and> delivery_key d \<notin> delivery_key ` bv_delivered V w
             \<and> delivery_key d \<notin> bv_acked V w' \<and> bv_acked V w' \<subseteq> bv_acked V w \<and> bv_accepted V w \<subseteq> bv_accepted V w'
             \<and> ol_EventID ` set (bv_rows V w) \<subseteq> ol_EventID ` set (bv_rows V w') \<and> (log_inv (bv_rows V w) \<longrightarrow> log_inv (bv_rows V w'))
         | _ \<Rightarrow> moves V {} w w'))"

text \<open>
  A delivery is accounted for when its event is in the table, when a copy waits in the retry queue with a
  count that is one higher, or when a copy is in the dead-letter queue.
\<close>

definition accounted :: "event_codec \<Rightarrow> RabbitMQOperationLog \<Rightarrow> 'w broker_view \<Rightarrow> 'w \<Rightarrow> delivery \<Rightarrow> bool" where
  "accounted J cfg V w d \<longleftrightarrow>
     (\<exists>event. decodeOperationLog J (dl_Body d) = (event, None) \<and> ev_EventID event \<in> ol_EventID ` set (bv_rows V w))
   \<or> (retryCount (dl_Headers d) < ro_MaxRetries cfg \<and>
       (\<exists>h. (ro_RetryExchange cfg, ro_RetryRoutingKey cfg, republished d h) \<in> bv_accepted V w
         \<and> h retryCountHeader = Some (V_int32 (word_of_int (retryCount (dl_Headers d) + 1)))))
   \<or> (\<exists>h. (ro_DeadLetterExchange cfg, ro_DeadLetterRoutingKey cfg, republished d h) \<in> bv_accepted V w)"

end
