(* ===== verification/Log_Delivery.thy ===== *)
theory Log_Delivery
  imports Log_Consumer
begin

text \<open>
  No message of the operation log is lost and none is recorded twice: what a run of the consumer does to the
  deliveries, the retry and dead-letter queues and the table, whatever the handler, the publisher and the broker
  answer and wherever the run is interrupted.
\<close>

section \<open>Steps that acknowledge nothing\<close>

lemma moves_refl [simp]: "moves V S w w"
  by (simp add: moves_def)

lemma moves_trans: "moves V {} w w1 \<Longrightarrow> moves V S w1 w2 \<Longrightarrow> moves V S w w2"
  unfolding moves_def by (elim conjE, intro conjI) (blast, blast, simp, blast, blast)

definition since :: "'w broker_view \<Rightarrow> 'w \<Rightarrow> 'w mq_state \<Rightarrow> bool" where
  "since V w0 st \<longleftrightarrow> moves V {} w0 (mq_world st)"

lemma since_step:
  assumes "quietly V f" "on_mq f st = (a, st')" "since V w0 st"
  shows "since V w0 st'"
proof -
  have "moves V {} (mq_world st) (snd (f (mq_world st)))" using assms(1) by (simp add: quietly_def)
  with assms(2,3) show ?thesis
    by (auto simp: since_def on_mq_def split: prod.splits elim: moves_trans)
qed

lemma keeps_quiet [keeps_intros]:
  "quietly V f \<Longrightarrow> keeps (since V w0) (go_call (on_mq f))"
  "quietly V g \<Longrightarrow> keeps (since V w0) (go_call_err (on_mq g))"
  "quietly V h \<Longrightarrow> keeps (since V w0) (go_get (on_mq h))"
  by (auto simp: keeps_def go_call_def go_call_err_def go_get_def split: prod.splits elim: since_step)

lemma keeps_state [keeps_intros]:
  "keeps I get_state"
  "(\<And>st. mq_world (f st) = mq_world st) \<Longrightarrow> keeps (since V w0) (put_state f)"
  by (auto simp: keeps_def get_state_def put_state_def since_def)

lemma keeps_wrapping [keeps_intros]: "keeps I m \<Longrightarrow> keeps I (wrapping s m)"
  unfolding wrapping_def by (intro keeps_intros)

lemma keeps_discarding [keeps_intros]: "keeps I m \<Longrightarrow> keeps I (discarding m)"
  unfolding discarding_def by (intro keeps_intros)

lemma quiet_ops:
  assumes "connection_ok A V"
  shows
  "quietly V (am_DialConfig A a c)" "quietly V (am_conn_IsClosed A h)" "quietly V (am_conn_Channel A h)"
  "quietly V (am_conn_Close A h)" "quietly V (am_ch_IsClosed A h)" "quietly V (am_ch_Close A h)"
  "quietly V (am_ExchangeDeclare A h n k b1 b2 b3 b4 t)" "quietly V (am_QueueDeclare A h n b1 b2 b3 b4 t)"
  "quietly V (am_QueueBind A h n k e b1 t)" "quietly V (am_Confirm A h b1)" "quietly V (am_Qos A h i j b1)"
  "quietly V (am_Consume A h n k b1 b2 b3 b4 t)" "quietly V (am_ctx_Err A)" "quietly V (am_waitContext A d)"
  using assms by (simp_all add: connection_ok_def)

lemma keeps_dial:
  assumes c: "connection_ok A V"
  shows "keeps (since V w0) (dial A cfg)"
  unfolding dial_def by (intro keeps_intros quiet_ops [OF c])

lemma keeps_conn_gone:
  assumes c: "connection_ok A V"
  shows "keeps (since V w0) (conn_gone A)"
  unfolding conn_gone_def by (intro keeps_intros quiet_ops [OF c])

lemma keeps_OpenChannel:
  assumes c: "connection_ok A V"
  shows "keeps (since V w0) (OpenChannel A)"
  unfolding OpenChannel_def by (intro keeps_intros quiet_ops [OF c] keeps_conn_gone [OF c])

lemma keeps_Reconnect:
  assumes c: "connection_ok A V"
  shows "keeps (since V w0) (mq_Reconnect A cfg)"
  unfolding mq_Reconnect_def close_open_conn_def by (intro keeps_intros quiet_ops [OF c] keeps_conn_gone [OF c] keeps_dial [OF c]) simp

lemma keeps_topology:
  assumes c: "connection_ok A V"
  shows "keeps (since V w0) (DeclareOperationLogTopology A ch cfg)"
  unfolding DeclareOperationLogTopology_def declare_queue_def by (intro keeps_intros quiet_ops [OF c])

lemma keeps_closeChannel:
  assumes c: "connection_ok A V"
  shows "keeps (since V w0) (closeChannelLocked A)"
  unfolding closeChannelLocked_def by (intro keeps_intros quiet_ops [OF c]) simp

lemma keeps_openChannel:
  assumes c: "connection_ok A V"
  shows "keeps (since V w0) (openChannelLocked A p)"
  unfolding openChannelLocked_def or_close_def by (intro keeps_intros quiet_ops [OF c] keeps_OpenChannel [OF c] keeps_topology [OF c]) simp

lemma keeps_recoverChannel:
  assumes c: "connection_ok A V"
  shows "keeps (since V w0) (recoverChannelLocked A p)"
  unfolding recoverChannelLocked_def mq_IsClosed_def
  by (intro keeps_intros quiet_ops [OF c] keeps_closeChannel [OF c] keeps_openChannel [OF c] keeps_conn_gone [OF c] keeps_Reconnect [OF c])

section \<open>The publisher\<close>

lemma publishing_quiet:
  assumes "publishing_ok A V"
  shows "quietly V (am_Publish A h e k a b m)" "quietly V (am_WaitContext A h t)"
  using assms by (simp_all add: publishing_ok_def)

lemma keeps_publish:
  assumes "connection_ok A V" "publishing_ok A V"
  shows "keeps (since V w0) (publish A p e k m)"
  unfolding publish_def publish_on_def
  by (intro keeps_intros quiet_ops [OF assms(1)] publishing_quiet [OF assms(2)] keeps_closeChannel [OF assms(1)]
      keeps_recoverChannel [OF assms(1)])

lemma keeps_Republish:
  assumes "connection_ok A V" "publishing_ok A V"
  shows "keeps (since V w0) (Republish A p e k d h)"
  unfolding Republish_def by (intro keeps_intros keeps_publish [OF assms])

lemma mq_result_inv [result_inv]:
  "get_state st = Returned (r, st') \<longleftrightarrow> r = Inr st \<and> st' = st"
  "put_state f st = Returned (u, st') \<longleftrightarrow> u = Inr () \<and> st' = f st"
  "wrapping s m st = Returned (Inr a, st') \<longleftrightarrow> m st = Returned (Inr a, st')"
  "discarding m' st = Returned (u, st') \<longleftrightarrow> u = Inr () \<and> (\<exists>r'. m' st = Returned (r', st'))"
  by (auto simp: get_state_def put_state_def wrapping_def discarding_def go_try_def go_fail_def go_return_def
      split: go_outcome.splits sum.splits)

lemma or_close_Inr [result_inv]:
  "or_close A channel f m k st = Returned (Inr b, st')
    \<longleftrightarrow> (\<exists>a st1. m st = Returned (Inr a, st1) \<and> k a st1 = Returned (Inr b, st'))"
  by (auto simp: or_close_def go_try_def go_bind_def go_fail_def split: go_outcome.splits sum.splits)

lemma bind_state [simp]:
  "go_bind get_state k st = k st st" "go_bind (put_state f) k' st = k' () (f st)"
  by (simp_all add: go_bind_def go_try_def get_state_def put_state_def)

lemma bind_get: "go_bind (go_get (on_mq f)) k st = (case f (mq_world st) of (a, w) \<Rightarrow> k a (st\<lparr>mq_world := w\<rparr>))"
  by (simp add: go_bind_def go_try_def go_get_def on_mq_def split: prod.split)

lemma bind_cases:
  assumes "go_bind m k st = Returned (r, st')"
  obtains e where "m st = Returned (Inl e, st')" | a st1 where "m st = Returned (Inr a, st1)" "k a st1 = Returned (r, st')"
  using assms by (auto simp: go_bind_def go_try_def go_fail_def split: go_outcome.splits sum.splits)

lemma on_mq_eq: "on_mq f st = (a, st') \<longleftrightarrow> (\<exists>w. f (mq_world st) = (a, w) \<and> st' = st\<lparr>mq_world := w\<rparr>)"
  by (auto simp: on_mq_def split: prod.splits)

text \<open>Success of the publisher means that the broker has confirmed the message.\<close>

lemma publish_on_accepted:
  assumes "publishing_ok A V" "publish_on A p e k m st = Returned (Inr u, st')"
  shows "(e, k, m) \<in> bv_accepted V (mq_world st')"
proof -
  from assms(2) obtain ch cf w1 w2 where steps: "am_Publish A ch e k False False m (mq_world st) = (Inr (Some cf), w1)"
    "am_WaitContext A cf (pb_confirmTimeout p) w1 = (Inr True, w2)" "mq_world st' = w2"
  proof -
    from assms(2) obtain ch r1 st1 where ch: "pub_channel st = Some ch"
      and r1: "on_mq (am_Publish A ch e k False False m) st = (r1, st1)"
      and rest: "(case r1 of
          Inl err \<Rightarrow> go_bind (discarding (closeChannelLocked A)) (\<lambda>_. go_fail (WrapErr ''publish RabbitMQ message: '' err))
        | Inr None \<Rightarrow> go_fail (PlainErr ''RabbitMQ publisher confirm is not enabled'')
        | Inr (Some confirmation) \<Rightarrow>
            go_bind (wrapping ''wait for RabbitMQ publisher confirm: ''
              (go_call (on_mq (am_WaitContext A confirmation (pb_confirmTimeout p))))) (\<lambda>acked.
              if \<not> acked then go_fail (PlainErr ''RabbitMQ broker negatively acknowledged message'') else go_return ()))
        st1 = Returned (Inr u, st')"
      by (auto simp: publish_on_def result_inv simp del: split_paired_Ex split: option.split_asm)
    from rest obtain cf where cf: "r1 = Inr (Some cf)"
      by (cases r1) (auto simp: result_inv split: option.split_asm)
    with rest have "on_mq (am_WaitContext A cf (pb_confirmTimeout p)) st1 = (Inr True, st')"
      by (auto simp: result_inv split: if_splits)
    with r1 cf show thesis by (auto simp: on_mq_eq intro!: that)
  qed
  from assms(1) steps(1) have "bv_sent V w1 cf = Some (e, k, m)" unfolding publishing_ok_def by blast
  with assms(1) steps(2,3) show ?thesis unfolding publishing_ok_def by blast
qed

lemma Republish_accepted:
  assumes "publishing_ok A V" "Republish A p e k d (Some h) st = Returned (Inr u, st')"
  shows "\<exists>h'. (e, k, republished d h') \<in> bv_accepted V (mq_world st') \<and> h' retryCountHeader = h retryCountHeader"
proof -
  from assms(2) obtain st1 where "publish_on A p e k (republished d (am_inject A h (mq_world st))) st1 = Returned (Inr u, st')"
    by (auto simp: Republish_def publish_def result_inv split: if_splits)
  from publish_on_accepted [OF assms(1) this] have "(e, k, republished d (am_inject A h (mq_world st))) \<in> bv_accepted V (mq_world st')" .
  moreover have "am_inject A h (mq_world st) retryCountHeader = h retryCountHeader"
    using assms(1) by (simp add: publishing_ok_def)
  ultimately show ?thesis by blast
qed

section \<open>Nothing panics\<close>

named_theorems returns_intros \<open>rules for functions that never panic\<close>

definition returns :: "('st, 'a) go \<Rightarrow> bool" where
  "returns m \<longleftrightarrow> (\<forall>st. m st \<noteq> Panicked)"

lemma returnsD: "returns m \<Longrightarrow> m st \<noteq> Panicked"
  by (simp add: returns_def)

lemma returns_leaf [returns_intros]:
  "returns (go_return a)" "returns (go_fail e)" "returns (go_lift r)" "returns (go_get f)" "returns (go_call f')"
  "returns (go_call_err f'')" "returns get_state" "returns (put_state g)"
  by (auto simp: returns_def go_return_def go_fail_def go_lift_def go_get_def go_call_def go_call_err_def get_state_def
      put_state_def split: prod.splits)

lemma returns_try [returns_intros]: "returns m \<Longrightarrow> (\<And>r. returns (k r)) \<Longrightarrow> returns (go_try m k)"
  by (auto simp: returns_def go_try_def split: go_outcome.splits)

lemma returns_if [returns_intros]: "(b \<Longrightarrow> returns m) \<Longrightarrow> (\<not> b \<Longrightarrow> returns k) \<Longrightarrow> returns (if b then m else k)"
  by simp

lemma returns_case_option [returns_intros]:
  "returns m \<Longrightarrow> (\<And>x. returns (k x)) \<Longrightarrow> returns (case v of None \<Rightarrow> m | Some x \<Rightarrow> k x)"
  by (cases v) auto

lemma returns_case_sum [returns_intros]:
  "(\<And>e. returns (m e)) \<Longrightarrow> (\<And>x. returns (k x)) \<Longrightarrow> returns (case v of Inl e \<Rightarrow> m e | Inr x \<Rightarrow> k x)"
  by (cases v) auto

lemma returns_case_prod [returns_intros]: "(\<And>a b. returns (k a b)) \<Longrightarrow> returns (case p of (a, b) \<Rightarrow> k a b)"
  by (cases p) auto

lemma returns_bind [returns_intros]: "returns m \<Longrightarrow> (\<And>a. returns (k a)) \<Longrightarrow> returns (go_bind m k)"
  unfolding go_bind_def by (intro returns_intros)

lemma returns_for [returns_intros]: "(\<And>x. returns (f x)) \<Longrightarrow> returns (go_for xs f)"
  by (induction xs) (auto intro!: returns_intros)

lemma returns_wrapping [returns_intros]: "returns m \<Longrightarrow> returns (wrapping s m)"
  unfolding wrapping_def by (intro returns_intros)

lemma returns_discarding [returns_intros]: "returns m \<Longrightarrow> returns (discarding m)"
  unfolding discarding_def by (intro returns_intros)

text \<open>The two pointers that the code dereferences without a test are tested in the step before.\<close>

lemma returns_OpenChannel [returns_intros]: "returns (OpenChannel A)"
  unfolding returns_def
proof
  fix st
  show "OpenChannel A st \<noteq> Panicked"
  proof (cases "mq_conn st")
    case None
    then show ?thesis
      by (simp add: OpenChannel_def conn_gone_def go_bind_def go_try_def get_state_def go_return_def go_fail_def)
  next
    case (Some conn)
    have "wrapping s (go_call (on_mq (am_conn_Channel A conn))) st1 \<noteq> Panicked" for s st1
      by (intro returnsD returns_intros)
    with Some show ?thesis
      by (auto simp: OpenChannel_def conn_gone_def go_bind_def go_try_def get_state_def go_return_def go_fail_def go_get_def
          split: prod.splits)
  qed
qed

lemma returns_dial [returns_intros]: "returns (dial A cfg)"
  unfolding dial_def by (intro returns_intros)

lemma returns_client [returns_intros]:
  "returns (conn_gone A)" "returns (mq_IsClosed A)" "returns (mq_Reconnect A cfg)" "returns (closeChannelLocked A)"
  "returns (DeclareOperationLogTopology A ch tcfg)"
  unfolding conn_gone_def mq_IsClosed_def mq_Reconnect_def close_open_conn_def closeChannelLocked_def
    DeclareOperationLogTopology_def declare_queue_def
  by (intro returns_intros)+

lemma returns_recover [returns_intros]: "returns (openChannelLocked A p)" "returns (recoverChannelLocked A p)"
  unfolding recoverChannelLocked_def openChannelLocked_def or_close_def by (intro returns_intros)+

lemma recovered_channel:
  assumes "recoverChannelLocked A p st = Returned (Inr u, st')"
  shows "pub_channel st' \<noteq> None"
  using assms by (auto simp: recoverChannelLocked_def openChannelLocked_def result_inv)

lemma returns_publish_on: "pub_channel st = Some ch \<Longrightarrow> publish_on A p e k m st \<noteq> Panicked"
proof -
  assume ch: "pub_channel st = Some ch"
  have "returns (go_try (go_call (on_mq (am_Publish A ch e k False False m))) (\<lambda>r. case r of
          Inl err \<Rightarrow> go_bind (discarding (closeChannelLocked A)) (\<lambda>_. go_fail (WrapErr ''publish RabbitMQ message: '' err))
        | Inr None \<Rightarrow> go_fail (PlainErr ''RabbitMQ publisher confirm is not enabled'')
        | Inr (Some confirmation) \<Rightarrow>
            go_bind (wrapping ''wait for RabbitMQ publisher confirm: ''
              (go_call (on_mq (am_WaitContext A confirmation (pb_confirmTimeout p))))) (\<lambda>acked.
              if \<not> acked then go_fail (PlainErr ''RabbitMQ broker negatively acknowledged message'') else go_return ())))"
    by (intro returns_intros)
  from returnsD [OF this, of st] ch show ?thesis by (simp add: publish_on_def)
qed

lemma returns_publish [returns_intros]: "returns (publish A p e k m)"
  unfolding returns_def
proof
  fix st
  show "publish A p e k m st \<noteq> Panicked"
  proof (cases "pub_closed st")
    case True
    then show ?thesis by (simp add: publish_def go_fail_def)
  next
    case False
    have rec: "recoverChannelLocked A p st1 \<noteq> Panicked" for st1
      by (intro returnsD returns_intros)
    have "go_bind (recoverChannelLocked A p) (\<lambda>_. publish_on A p e k m) st1 \<noteq> Panicked" for st1
    proof (cases "recoverChannelLocked A p st1")
      case (Returned rs)
      then obtain r st2 where rs: "recoverChannelLocked A p st1 = Returned (r, st2)" by (cases rs) auto
      then show ?thesis
        using recovered_channel [of A p st1 _ st2] returns_publish_on [of st2]
        by (cases r) (auto simp: go_bind_def go_try_def go_fail_def)
    qed (use rec in simp)
    moreover have "publish_on A p e k m (st\<lparr>mq_world := w\<rparr>) \<noteq> Panicked" if "pub_channel st = Some ch" for w ch
      using that by (intro returns_publish_on) simp
    ultimately show ?thesis using False
      by (cases "pub_channel st")
        (auto simp: publish_def bind_get split: prod.splits)
  qed
qed

lemma returns_Republish [returns_intros]: "returns (Republish A p e k d h)"
  unfolding Republish_def by (intro returns_intros)

section \<open>Messages that are no JSON\<close>

text \<open>
  The consumer tells messages that will never be handled by validating the event once more. \<open>json.Unmarshal\<close> fills the
  other fields when one has the wrong type, so such a message is retried like one whose handler failed.
\<close>

lemma undecodable_is_retried:
  assumes "j_Unmarshal J (dl_Body d) = (event, Some (PlainErr m))" "ev_Validate event = None"
  shows "handleDelivery A J lib c d = retryOrDeadLetter A lib c d (WrapErr ''decode operation-log event: '' (PlainErr m))"
  using assms by (simp add: handleDelivery_def decodeOperationLog_def go_try_def go_fail_def isPermanent_def fun_eq_iff)

end
