(* ===== verification/Log_Reliability.thy ===== *)
theory Log_Reliability
  imports Log_Delivery
begin

text \<open>
  What the consumer guarantees of every delivery, on the contract \<open>log_consumer\<close> of its handler and its
  publisher, and the interpretation of the contract on \<open>Handle\<close> and \<open>Republish\<close>.
\<close>

section \<open>The invariant of a run\<close>

lemma accounted_grow:
  assumes "accounted J cfg V w d" "bv_accepted V w \<subseteq> bv_accepted V w'"
    "ol_EventID ` set (bv_rows V w) \<subseteq> ol_EventID ` set (bv_rows V w')"
  shows "accounted J cfg V w' d"
  using assms unfolding accounted_def by blast

lemma accounted_mono: "accounted J cfg V w d \<Longrightarrow> moves V S w w' \<Longrightarrow> accounted J cfg V w' d"
  by (auto simp: moves_def intro: accounted_grow)

text \<open>\<open>old\<close> are the deliveries that were acknowledged before the run.\<close>

definition no_loss :: "event_codec \<Rightarrow> RabbitMQOperationLog \<Rightarrow> 'w broker_view \<Rightarrow> (handle \<times> u64) set \<Rightarrow> 'w mq_state \<Rightarrow> bool" where
  "no_loss J cfg V old st \<longleftrightarrow> log_inv (bv_rows V (mq_world st)) \<and> inj_on delivery_key (bv_delivered V (mq_world st))
     \<and> (\<forall>d \<in> bv_delivered V (mq_world st). delivery_key d \<in> bv_acked V (mq_world st)
          \<longrightarrow> delivery_key d \<in> old \<or> accounted J cfg V (mq_world st) d)"

lemma no_loss_moves:
  assumes "no_loss J cfg V old st" "moves V S (mq_world st) (mq_world st')"
    and "\<forall>d \<in> bv_delivered V (mq_world st). delivery_key d \<in> S \<longrightarrow> accounted J cfg V (mq_world st') d"
  shows "no_loss J cfg V old st'"
  unfolding no_loss_def
proof (intro conjI ballI impI)
  show "log_inv (bv_rows V (mq_world st'))" and "inj_on delivery_key (bv_delivered V (mq_world st'))"
    using assms(1,2) by (auto simp: no_loss_def moves_def)
  fix d assume d: "d \<in> bv_delivered V (mq_world st')" and a: "delivery_key d \<in> bv_acked V (mq_world st')"
  from d assms(2) have d': "d \<in> bv_delivered V (mq_world st)" by (simp add: moves_def)
  from a assms(2) have "delivery_key d \<in> bv_acked V (mq_world st) \<or> delivery_key d \<in> S" by (auto simp: moves_def)
  then show "delivery_key d \<in> old \<or> accounted J cfg V (mq_world st') d"
    using assms(1,3) d' accounted_mono [OF _ assms(2)] unfolding no_loss_def by blast
qed

lemma keeps_since_no_loss: "(\<And>w0. keeps (since V w0) m) \<Longrightarrow> keeps (no_loss J cfg V old) m"
  unfolding keeps_def since_def
  by (meson moves_refl no_loss_moves emptyE)

section \<open>The contract\<close>

locale log_consumer =
  fixes good :: "'w amqp \<Rightarrow> 'w broker_view \<Rightarrow> 'w Consumer \<Rightarrow> bool"
  assumes connection: "good A V c \<Longrightarrow> connection_ok A V"
    and deliveries: "good A V c \<Longrightarrow> deliveries_ok A V"
    and handler_moves: "good A V c \<Longrightarrow> quietly V (co_handler c event)"
    and handler_stores: "good A V c \<Longrightarrow> co_handler c event w = (None, w')
        \<Longrightarrow> ev_EventID event \<in> ol_EventID ` set (bv_rows V w')"
    and republish_moves: "good A V c \<Longrightarrow> keeps (since V w0) (co_republish c x k d h)"
    and republish_accepts: "good A V c \<Longrightarrow> co_republish c x k d (Some headers) st = Returned (Inr u, st')
        \<Longrightarrow> \<exists>h'. (x, k, republished d h') \<in> bv_accepted V (mq_world st') \<and> h' retryCountHeader = headers retryCountHeader"
    and republish_returns: "good A V c \<Longrightarrow> returns (co_republish c x k d h)"
begin

lemma acknowledge:
  assumes "good A V c" "discarding (go_call_err (on_mq (am_Ack A d False))) st = Returned (r, st')"
  shows "moves V {delivery_key d} (mq_world st) (mq_world st')"
proof -
  have "moves V {delivery_key d} w (snd (am_Ack A d b w))" for b w
    using deliveries [OF assms(1)] by (simp add: deliveries_ok_def)
  from this [of "mq_world st" False] assms(2) show ?thesis
    by (auto simp: result_inv go_call_err_def on_mq_def split: prod.splits)
qed

lemma settle_moves:
  assumes "good A V c" "settle A d (co_republish c x k d (Some headers)) st = Returned (r, st')"
  obtains "moves V {} (mq_world st) (mq_world st')"
  | h' where "moves V {delivery_key d} (mq_world st) (mq_world st')" "h' retryCountHeader = headers retryCountHeader"
      "(x, k, republished d h') \<in> bv_accepted V (mq_world st')"
proof -
  from assms(2) obtain r1 st1 where r1: "co_republish c x k d (Some headers) st = Returned (r1, st1)"
    and rest: "(case r1 of Inl err \<Rightarrow> discarding (go_call_err (on_mq (am_Nack A d False True)))
        | Inr _ \<Rightarrow> discarding (go_call_err (on_mq (am_Ack A d False)))) st1 = Returned (r, st')"
    by (auto simp: settle_def go_try_eq)
  have first: "moves V {} (mq_world st) (mq_world st1)"
    using keepsD [OF republish_moves [OF assms(1)] r1, of "mq_world st"] by (simp add: since_def)
  show thesis
  proof (cases r1)
    case (Inl err)
    have "quietly V (am_Nack A d False True)" using deliveries [OF assms(1)] by (simp add: deliveries_ok_def)
    then have "keeps (since V (mq_world st1)) (discarding (go_call_err (on_mq (am_Nack A d False True))))"
      by (intro keeps_intros)
    from keepsD [OF this] rest Inl have "moves V {} (mq_world st1) (mq_world st')" by (auto simp: since_def)
    with first show thesis by (blast intro: moves_trans that(1))
  next
    case (Inr u)
    with rest have ack: "moves V {delivery_key d} (mq_world st1) (mq_world st')"
      by (auto intro: acknowledge [OF assms(1)])
    from republish_accepts [OF assms(1) r1 [unfolded Inr]] obtain h' where
      h': "(x, k, republished d h') \<in> bv_accepted V (mq_world st1)" "h' retryCountHeader = headers retryCountHeader" by blast
    moreover from ack h'(1) have "(x, k, republished d h') \<in> bv_accepted V (mq_world st')" by (auto simp: moves_def)
    ultimately show thesis using first ack by (blast intro: moves_trans that(2))
  qed
qed

lemma moveToDeadLetter_moves:
  assumes "good A V c" "moveToDeadLetter A lib c d cause st = Returned (r, st')"
  obtains S where "moves V S (mq_world st) (mq_world st')"
    "S = {} \<or> S = {delivery_key d} \<and> accounted J (rq_OperationLog (co_config c)) V (mq_world st') d"
  using settle_moves [OF assms(1) assms(2) [unfolded moveToDeadLetter_def Let_def]] that
  unfolding accounted_def by metis

lemma retryOrDeadLetter_moves:
  assumes "good A V c" "retryOrDeadLetter A lib c d cause st = Returned (r, st')"
  obtains S where "moves V S (mq_world st) (mq_world st')"
    "S = {} \<or> S = {delivery_key d} \<and> accounted J (rq_OperationLog (co_config c)) V (mq_world st') d"
proof (cases "ro_MaxRetries (rq_OperationLog (co_config c)) \<le> retryCount (dl_Headers d)")
  case True
  with assms(2) have "moveToDeadLetter A lib c d cause st = Returned (r, st')" by (simp add: retryOrDeadLetter_def)
  from moveToDeadLetter_moves [OF assms(1) this] that show thesis by blast
next
  case False
  with assms(2) have "settle A d (co_republish c (ro_RetryExchange (rq_OperationLog (co_config c)))
      (ro_RetryRoutingKey (rq_OperationLog (co_config c))) d
      (Some ((cloneHeaders (dl_Headers d))(retryCountHeader \<mapsto> V_int32 (word_of_int (retryCount (dl_Headers d) + 1)))))) st
    = Returned (r, st')"
    by (simp add: retryOrDeadLetter_def Let_def)
  from settle_moves [OF assms(1) this] show thesis
  proof cases
    case (2 h')
    with False have "accounted J (rq_OperationLog (co_config c)) V (mq_world st') d"
      unfolding accounted_def by (metis fun_upd_same not_le)
    with 2(1) show thesis using that by blast
  qed (use that in blast)
qed

text \<open>One delivery: it is acknowledged only when it is accounted for.\<close>

lemma handleDelivery_moves:
  assumes "good A V c" "handleDelivery A J lib c d st = Returned (r, st')"
  obtains S where "moves V S (mq_world st) (mq_world st')"
    "S = {} \<or> S = {delivery_key d} \<and> accounted J (rq_OperationLog (co_config c)) V (mq_world st') d"
proof -
  obtain event decodeErr where ev: "decodeOperationLog J (dl_Body d) = (event, decodeErr)" by (cases "decodeOperationLog J (dl_Body d)")
  with assms(2) obtain r1 st1 where
    r1: "(case decodeErr of Some err \<Rightarrow> go_fail err | None \<Rightarrow> go_call_err (on_mq (co_handler c event))) st = Returned (r1, st1)"
    and rest: "(case r1 of Inr _ \<Rightarrow> discarding (go_call_err (on_mq (am_Ack A d False)))
        | Inl err \<Rightarrow> if ev_Validate event \<noteq> None \<or> isPermanent (Some err) then moveToDeadLetter A lib c d err
            else retryOrDeadLetter A lib c d err) st1 = Returned (r, st')"
    by (simp only: handleDelivery_def ev prod.case go_try_eq) blast
  have "keeps (since V (mq_world st)) (case decodeErr of Some err \<Rightarrow> go_fail err | None \<Rightarrow> go_call_err (on_mq (co_handler c event)))"
    by (intro keeps_intros handler_moves [OF assms(1)])
  from keepsD [OF this r1] have first: "moves V {} (mq_world st) (mq_world st1)" by (simp add: since_def)
  show thesis
  proof (cases r1)
    case (Inl err)
    have "\<exists>S. moves V S (mq_world st1) (mq_world st')
        \<and> (S = {} \<or> S = {delivery_key d} \<and> accounted J (rq_OperationLog (co_config c)) V (mq_world st') d)"
    proof (cases "ev_Validate event \<noteq> None \<or> isPermanent (Some err)")
      case True
      with rest Inl have "moveToDeadLetter A lib c d err st1 = Returned (r, st')" by auto
      from moveToDeadLetter_moves [OF assms(1) this, where J = J] show ?thesis by blast
    next
      case False
      with rest Inl have "retryOrDeadLetter A lib c d err st1 = Returned (r, st')" by auto
      from retryOrDeadLetter_moves [OF assms(1) this, where J = J] show ?thesis by blast
    qed
    with first show thesis by (blast intro: moves_trans that)
  next
    case (Inr u)
    with r1 ev have decoded: "decodeErr = None" by (cases decodeErr) (auto simp: go_fail_def)
    with r1 Inr have "co_handler c event (mq_world st) = (None, mq_world st1)"
      by (auto simp: result_inv on_mq_eq)
    from handler_stores [OF assms(1) this] have stored: "ev_EventID event \<in> ol_EventID ` set (bv_rows V (mq_world st1))" .
    from Inr rest have ack: "moves V {delivery_key d} (mq_world st1) (mq_world st')" by (auto intro: acknowledge [OF assms(1)])
    with stored have "ev_EventID event \<in> ol_EventID ` set (bv_rows V (mq_world st'))" by (auto simp: moves_def)
    with ev decoded have "accounted J (rq_OperationLog (co_config c)) V (mq_world st') d" by (auto simp: accounted_def)
    with first ack show thesis by (blast intro: moves_trans that)
  qed
qed

lemma handleDelivery_no_loss:
  assumes "good A V c" "handleDelivery A J lib c d st = Returned (r, st')"
    and "no_loss J (rq_OperationLog (co_config c)) V old st" "d \<in> bv_delivered V (mq_world st)"
  shows "no_loss J (rq_OperationLog (co_config c)) V old st'"
proof -
  from handleDelivery_moves [OF assms(1,2)] obtain S where S: "moves V S (mq_world st) (mq_world st')"
    "S = {} \<or> S = {delivery_key d} \<and> accounted J (rq_OperationLog (co_config c)) V (mq_world st') d" by blast
  have "\<forall>d' \<in> bv_delivered V (mq_world st). delivery_key d' = delivery_key d \<longrightarrow> d' = d"
    using assms(3,4) by (auto simp: no_loss_def inj_on_def)
  with S(2) show ?thesis by (intro no_loss_moves [OF assms(3) S(1)]) auto
qed

section \<open>The loops\<close>

lemma keeps_consume_loop:
  assumes "good A V c"
  shows "keeps (no_loss J (rq_OperationLog (co_config c)) V old) (consume_loop n A J lib c channel)"
proof (induction n)
  case 0
  show ?case by (simp add: keeps_return)
next
  case (Suc n)
  show ?case
    unfolding keeps_def
  proof (intro allI impI)
    fix st r st' assume run: "consume_loop (Suc n) A J lib c channel st = Returned (r, st')"
      and inv: "no_loss J (rq_OperationLog (co_config c)) V old st"
    obtain event w1 where sel: "am_select A channel (mq_world st) = (event, w1)" by fastforce
    note ok = deliveries [OF assms, unfolded deliveries_ok_def, THEN conjunct2, THEN conjunct2, rule_format, OF sel]
    let ?st1 = "st\<lparr>mq_world := w1\<rparr>"
    show "no_loss J (rq_OperationLog (co_config c)) V old st'"
    proof (cases event)
      case (Delivered d)
      have inv1: "no_loss J (rq_OperationLog (co_config c)) V old ?st1"
        unfolding no_loss_def
      proof (intro conjI ballI impI)
        show "log_inv (bv_rows V (mq_world ?st1))" using inv ok Delivered by (simp add: no_loss_def)
        show "inj_on delivery_key (bv_delivered V (mq_world ?st1))" using inv ok Delivered by (auto simp: no_loss_def)
        fix d' assume "d' \<in> bv_delivered V (mq_world ?st1)" "delivery_key d' \<in> bv_acked V (mq_world ?st1)"
        with ok Delivered have d': "d' \<in> bv_delivered V (mq_world st)" "delivery_key d' \<in> bv_acked V (mq_world st)" by auto
        with inv have "delivery_key d' \<in> old \<or> accounted J (rq_OperationLog (co_config c)) V (mq_world st) d'"
          by (simp add: no_loss_def)
        with ok Delivered show "delivery_key d' \<in> old \<or> accounted J (rq_OperationLog (co_config c)) V (mq_world ?st1) d'"
          by (auto intro: accounted_grow)
      qed
      from run sel Delivered have run1: "go_bind (handleDelivery A J lib c d) (\<lambda>_. consume_loop n A J lib c channel) ?st1 = Returned (r, st')"
        by (simp add: bind_get)
      have "d \<in> bv_delivered V (mq_world ?st1)" using ok Delivered by simp
      with inv1 have step: "no_loss J (rq_OperationLog (co_config c)) V old st2" if "handleDelivery A J lib c d ?st1 = Returned (r2, st2)" for r2 st2
        using handleDelivery_no_loss [OF assms that] by blast
      from run1 show ?thesis by (cases rule: bind_cases) (auto intro: step keepsD [OF Suc.IH])
    qed (use run sel ok inv in \<open>auto simp: bind_get go_return_def go_fail_def intro!: no_loss_moves [OF inv, of "{}"]\<close>)
  qed
qed

lemma keeps_consume:
  assumes "good A V c"
  shows "keeps (no_loss J (rq_OperationLog (co_config c)) V old) (consume n A J lib c)"
proof -
  note quiet = quiet_ops [OF connection [OF assms]]
  show ?thesis unfolding consume_def
    by (intro keeps_bind keeps_try keeps_if keeps_return keeps_lift keeps_consume_loop [OF assms] keeps_since_no_loss
        keeps_OpenChannel [OF connection [OF assms]] keeps_topology [OF connection [OF assms]]
        keeps_wrapping keeps_discarding keeps_quiet quiet)
qed

lemma keeps_Start:
  assumes "good A V c"
  shows "keeps (no_loss J (rq_OperationLog (co_config c)) V old) (Start k n A J lib c)"
proof -
  note quiet = quiet_ops [OF connection [OF assms]]
  have calls: "keeps (no_loss J cfg V old) (go_call_err (on_mq (am_ctx_Err A)))"
    "keeps (no_loss J cfg V old) (go_call_err (on_mq (am_waitContext A t)))"
    "keeps (no_loss J cfg V old) (mq_Reconnect A acfg)" for cfg t acfg
    by (intro keeps_since_no_loss keeps_quiet quiet keeps_Reconnect [OF connection [OF assms]])+
  show ?thesis
    by (induction k) (auto intro!: keeps_try keeps_if keeps_return keeps_fail keeps_case_sum calls keeps_consume [OF assms])
qed

lemma returns_settle: "good A V c \<Longrightarrow> returns (settle A d (co_republish c x k d h))"
  unfolding settle_def by (intro returns_intros republish_returns)

lemma returns_handleDelivery: "good A V c \<Longrightarrow> returns (handleDelivery A J lib c d)"
  unfolding handleDelivery_def retryOrDeadLetter_def moveToDeadLetter_def Let_def
  by (intro returns_intros returns_settle)

lemma returns_consume: "good A V c \<Longrightarrow> returns (consume n A J lib c)"
proof -
  assume g: "good A V c"
  have "returns (consume_loop n A J lib c ch)" for ch
    by (induction n) (auto intro!: returns_intros returns_handleDelivery [OF g] split: select_event.split)
  then show ?thesis unfolding consume_def by (intro returns_intros)
qed

lemma returns_Start: "good A V c \<Longrightarrow> returns (Start k n A J lib c)"
  by (induction k) (auto intro!: returns_intros returns_consume)

end

section \<open>The handler and the publisher of the service\<close>

text \<open>Work of the database leaves the broker alone.\<close>

definition log_frame_ok :: "'w broker_view \<Rightarrow> 'w OperationLogRepository \<Rightarrow> bool" where
  "log_frame_ok V r \<longleftrightarrow> (\<forall>x w. let w' = snd (g_insert_ignore (lr_logs r) x w) in
     bv_acked V w' = bv_acked V w \<and> bv_accepted V w' = bv_accepted V w \<and> bv_delivered V w' = bv_delivered V w)"

definition admin_consumer :: "'w amqp \<Rightarrow> 'w broker_view \<Rightarrow> 'w Consumer \<Rightarrow> bool" where
  "admin_consumer A V c \<longleftrightarrow> connection_ok A V \<and> publishing_ok A V \<and> deliveries_ok A V
     \<and> (\<exists>ids r p. log_repo_ok ids (bv_rows V) r \<and> log_frame_ok V r \<and> co_handler c = Handle r \<and> co_republish c = Republish A p)"

lemma Handle_quiet:
  assumes "log_repo_ok ids (bv_rows V) r" "log_frame_ok V r"
  shows "quietly V (Handle r event)"
  unfolding quietly_def
proof
  fix w
  let ?x = "log_of_event event"
  obtain e w' where lc: "lr_Create r (Some ?x) w = (e, w')" by fastforce
  then have "w' = snd (g_insert_ignore (lr_logs r) ?x w)"
    by (auto simp: lr_Create_def update_error_def split: prod.splits sum.splits)
  with assms(2) have frame: "bv_acked V w' = bv_acked V w" "bv_accepted V w' = bv_accepted V w" "bv_delivered V w' = bv_delivered V w"
    by (auto simp: log_frame_ok_def Let_def)
  have "log_inv (bv_rows V w) \<longrightarrow> log_inv (bv_rows V w')" "ol_EventID ` set (bv_rows V w) \<subseteq> ol_EventID ` set (bv_rows V w')"
    using Create_rows(1) [OF assms(1) lc] by (auto simp: log_inv_def)
  with frame have "moves V {} w w'" by (simp add: moves_def)
  with lc show "moves V {} w (snd (Handle r event w))" by (simp add: Handle_def split: option.split)
qed

lemma Handle_stores:
  assumes "log_repo_ok ids (bv_rows V) r" "Handle r event w = (None, w')"
  shows "ev_EventID event \<in> ol_EventID ` set (bv_rows V w')"
proof -
  from assms(2) have "lr_Create r (Some (log_of_event event)) w = (None, w')"
    by (auto simp: Handle_def MarkPermanent_def split: option.splits if_splits)
  from Create_rows(2) [OF assms(1) this] show ?thesis by simp
qed

interpretation operation_log: log_consumer admin_consumer
proof
  fix A :: "'a amqp" and V c event
  assume good: "admin_consumer A V c"
  then obtain ids r p where parts: "log_repo_ok ids (bv_rows V) r" "log_frame_ok V r"
    and c: "co_handler c = Handle r" "co_republish c = Republish A p"
    and ok: "connection_ok A V" "publishing_ok A V" "deliveries_ok A V"
    by (auto simp: admin_consumer_def)
  show "connection_ok A V" "deliveries_ok A V" by (rule ok)+
  show "quietly V (co_handler c event)" unfolding c by (rule Handle_quiet [OF parts])
  show "ev_EventID event \<in> ol_EventID ` set (bv_rows V w')" if "co_handler c event w = (None, w')" for w w'
    using Handle_stores [OF parts(1)] that c by simp
  show "keeps (since V w0) (co_republish c x k d h)" for w0 x k d h
    unfolding c by (rule keeps_Republish [OF ok(1,2)])
  show "\<exists>h'. (x, k, republished d h') \<in> bv_accepted V (mq_world st') \<and> h' retryCountHeader = headers retryCountHeader"
    if "co_republish c x k d (Some headers) st = Returned (Inr u, st')" for x k d headers st u st'
    using Republish_accepted [OF ok(2)] that c by simp
  show "returns (co_republish c x k d h)" for x k d h unfolding c by (rule returns_Republish)
qed

text \<open>The count of a retried message.\<close>

lemma retryCount_next:
  assumes "h retryCountHeader = Some (V_int32 (word_of_int (n + 1)))" "0 \<le> n" "n < m" "m < 2 ^ 31"
  shows "retryCount (Some h) = n + 1"
proof -
  have "sint (word_of_int (n + 1) :: 32 word) = n + 1"
    using assms(2-4) by (simp only: signed_of_int) (simp add: signed_take_bit_int_eq_self)
  with assms(1) show ?thesis by (simp add: retryCount_def)
qed

section \<open>No message is lost\<close>

text \<open>C3: whatever the broker, the database and the handler answer, and wherever a run of the consumer is looked at,
  it has not panicked, the table has at most one row for an event however often it was delivered, and every
  delivery that the run acknowledged has its event in the table, or a copy confirmed by the broker in the retry
  exchange, with a count that is one higher and within the limit, or a copy in the dead-letter exchange.\<close>
theorem consumer_loses_nothing:
  assumes "admin_consumer A V c"
    and "log_inv (bv_rows V (mq_world st))" and "inj_on delivery_key (bv_delivered V (mq_world st))"
  shows "\<exists>res st'. Start k n A J lib c st = Returned (res, st') \<and> log_inv (bv_rows V (mq_world st'))
     \<and> (\<forall>d \<in> bv_delivered V (mq_world st'). delivery_key d \<in> bv_acked V (mq_world st') \<longrightarrow>
          delivery_key d \<in> bv_acked V (mq_world st) \<or> accounted J (rq_OperationLog (co_config c)) V (mq_world st') d)"
proof -
  have "no_loss J (rq_OperationLog (co_config c)) V (bv_acked V (mq_world st)) st"
    using assms(2,3) by (simp add: no_loss_def)
  moreover obtain res st' where run: "Start k n A J lib c st = Returned (res, st')"
    using returnsD [OF operation_log.returns_Start [OF assms(1)]] by (metis go_outcome.exhaust surj_pair)
  ultimately have "no_loss J (rq_OperationLog (co_config c)) V (bv_acked V (mq_world st)) st'"
    using keepsD [OF operation_log.keeps_Start [OF assms(1)]] by blast
  with run show ?thesis by (auto simp: no_loss_def)
qed

text \<open>A small broker: publishing succeeds and is confirmed, deliveries come from an inbox.\<close>

record toy =
  ty_rows :: "OperationLogModel list"
  ty_acked :: "(handle \<times> u64) list"
  ty_accepted :: "(string \<times> string \<times> Publishing) list"
  ty_sent :: "(string \<times> string \<times> Publishing) option"
  ty_delivered :: "delivery list"
  ty_inbox :: "delivery list"

definition toy_view :: "toy broker_view" where
  "toy_view = \<lparr>bv_acked = (\<lambda>w. set (ty_acked w)), bv_accepted = (\<lambda>w. set (ty_accepted w)), bv_sent = (\<lambda>w _. ty_sent w),
     bv_delivered = (\<lambda>w. set (ty_delivered w)), bv_rows = ty_rows\<rparr>"

definition toy_select :: "toy \<Rightarrow> select_event \<times> toy" where
  "toy_select w = (case ty_inbox w of
     [] \<Rightarrow> (Ctx_Done, w)
   | d # ds \<Rightarrow> if delivery_key d \<in> set (map delivery_key (ty_delivered w) @ ty_acked w) then (Deliveries_closed, w)
       else (Delivered d, w\<lparr>ty_inbox := ds, ty_delivered := d # ty_delivered w\<rparr>))"

definition toy_amqp :: "toy amqp" where
  "toy_amqp = \<lparr>am_DialConfig = (\<lambda>_ _ w. (Inr 0, w)), am_conn_IsClosed = (\<lambda>_ w. (False, w)), am_conn_Channel = (\<lambda>_ w. (Inr 1, w)),
     am_conn_Close = (\<lambda>_ w. (None, w)), am_ch_IsClosed = (\<lambda>_ w. (False, w)), am_ch_Close = (\<lambda>_ w. (None, w)),
     am_ExchangeDeclare = (\<lambda>_ _ _ _ _ _ _ _ w. (None, w)), am_QueueDeclare = (\<lambda>_ _ _ _ _ _ _ w. (None, w)),
     am_QueueBind = (\<lambda>_ _ _ _ _ _ w. (None, w)), am_Confirm = (\<lambda>_ _ w. (None, w)),
     am_Publish = (\<lambda>_ e k _ _ m w. (Inr (Some 0), w\<lparr>ty_sent := Some (e, k, m)\<rparr>)),
     am_WaitContext = (\<lambda>_ _ w. (Inr True, case ty_sent w of None \<Rightarrow> w | Some m \<Rightarrow> w\<lparr>ty_accepted := m # ty_accepted w\<rparr>)),
     am_Qos = (\<lambda>_ _ _ _ w. (None, w)), am_Consume = (\<lambda>_ _ _ _ _ _ _ _ w. (None, w)), am_select = (\<lambda>_. toy_select),
     am_Ack = (\<lambda>d _ w. (None, w\<lparr>ty_acked := delivery_key d # ty_acked w\<rparr>)), am_Nack = (\<lambda>_ _ _ w. (None, w)),
     am_inject = (\<lambda>h _. h), am_ctx_Err = (\<lambda>w. (None, w)), am_waitContext = (\<lambda>_ w. (None, w)), am_ParseDuration = (\<lambda>_. Inr 1)\<rparr>"

definition toy_repo :: "toy OperationLogRepository" where
  "toy_repo = \<lparr>lr_logs = list_gorm_up ty_rows (\<lambda>rs w. w\<lparr>ty_rows := rs\<rparr>) 5 (log_table (\<lambda>_. 1) ty_rows), lr_now = (\<lambda>w. (5, w))\<rparr>"

definition toy_config :: AdminRabbitMQConfig where
  "toy_config = \<lparr>rq_Enabled = True, rq_Host = ''h'', rq_Port = 5672, rq_Username = [], rq_Password = [], rq_VHost = ''/'',
     rq_ConnectionName = ''admin'', rq_Heartbeat = ''10s'', rq_DialTimeout = ''5s'', rq_ReconnectInterval = ''5s'',
     rq_PublishConfirmTimeout = ''5s'', rq_PrefetchCount = 10, rq_OperationLog =
       \<lparr>ro_Exchange = ''x'', ro_ExchangeType = ''topic'', ro_RoutingKey = ''k'', ro_Queue = ''q'', ro_RetryExchange = ''xr'',
        ro_RetryRoutingKey = ''kr'', ro_RetryQueue = ''qr'', ro_RetryDelay = ''30s'', ro_MaxRetries = 3,
        ro_DeadLetterExchange = ''xd'', ro_DeadLetterRoutingKey = ''kd'', ro_DeadLetterQueue = ''qd''\<rparr>\<rparr>"

definition toy_consumer :: "toy Consumer" where
  "toy_consumer = \<lparr>co_config = toy_config, co_handler = Handle toy_repo,
     co_republish = Republish toy_amqp \<lparr>pb_config = toy_config, pb_confirmTimeout = 1\<rparr>, co_reconnectInterval = 1\<rparr>"

definition toy_event :: OperationLogEvent where
  "toy_event = \<lparr>ev_EventID = ''e1'', ev_EventType = ''admin.operation_log.created'', ev_SchemaVersion = 1, ev_OccurredAt = 7,
     ev_AdminID = 3, ev_AdminName = ''root'', ev_Module = ''admin'', ev_Action = ''update'', ev_Description = [], ev_Success = True,
     ev_ErrorCode = [], ev_RequestID = [], ev_TraceID = [], ev_Method = [], ev_Path = [], ev_ClientIP = [], ev_UserAgent = []\<rparr>"

text \<open>The body \<open>{\<close> is no JSON; every other body is the event.\<close>

definition toy_codec :: event_codec where
  "toy_codec = \<lparr>j_Marshal = (\<lambda>_. Inr ''{}''),
     j_Unmarshal = (\<lambda>s. if s = ''{'' then (toy_event\<lparr>ev_EventID := []\<rparr>, Some (PlainErr ''unexpected end'')) else (toy_event, None))\<rparr>"

definition toy_delivery :: "u64 \<Rightarrow> string \<Rightarrow> delivery" where
  "toy_delivery tag body = \<lparr>dl_Channel = 1, dl_Tag = tag, dl_Headers = None, dl_ContentType = [], dl_ContentEncoding = [],
     dl_Priority = 0, dl_CorrelationId = [], dl_ReplyTo = [], dl_MessageId = [], dl_Timestamp = 7, dl_Type = [],
     dl_UserId = [], dl_AppId = [], dl_Body = body\<rparr>"

definition toy_start :: "toy mq_state" where
  "toy_start = \<lparr>mq_conn = Some 0, mq_closed = False, pub_channel = Some 1, pub_closed = False, mq_world =
     \<lparr>ty_rows = [], ty_acked = [], ty_accepted = [], ty_sent = None, ty_delivered = [],
      ty_inbox = [toy_delivery 1 ''{}'', toy_delivery 2 ''{'', toy_delivery 3 ''{}'']\<rparr>\<rparr>"

lemma toy_ok: "admin_consumer toy_amqp toy_view toy_consumer"
proof -
  have "connection_ok toy_amqp toy_view" by (simp add: connection_ok_def quietly_def toy_amqp_def)
  moreover have "publishing_ok toy_amqp toy_view"
    by (auto simp: publishing_ok_def quietly_def toy_amqp_def toy_view_def moves_def split: option.splits)
  moreover have "deliveries_ok toy_amqp toy_view"
    by (auto simp: deliveries_ok_def quietly_def toy_amqp_def toy_view_def moves_def toy_select_def
        split: option.splits list.splits if_splits)
  moreover have "log_repo_ok (\<lambda>_. 1) (bv_rows toy_view) toy_repo"
    by (simp add: log_repo_ok_def toy_repo_def toy_view_def list_gorm_up_ok)
  moreover have "log_frame_ok toy_view toy_repo"
    by (simp add: log_frame_ok_def toy_repo_def toy_view_def list_gorm_up_simps)
  moreover have "co_handler toy_consumer = Handle toy_repo"
    "co_republish toy_consumer = Republish toy_amqp \<lparr>pb_config = toy_config, pb_confirmTimeout = 1\<rparr>"
    by (simp_all add: toy_consumer_def)
  ultimately show ?thesis unfolding admin_consumer_def by blast
qed

text \<open>Three deliveries, the event twice and a body that is no JSON: all are acknowledged, one row and one dead letter remain.\<close>

definition toy_end :: "(go_error + progress) \<times> toy mq_state" where
  "toy_end = (case Start 1 9 toy_amqp toy_codec (\<lambda>_. []) toy_consumer toy_start of Returned r \<Rightarrow> r | Panicked \<Rightarrow> (Inr Running, toy_start))"

lemma toy_run:
  "map ol_EventID (ty_rows (mq_world (snd toy_end))) = [''e1'']"
  "ty_acked (mq_world (snd toy_end)) = [(1, 3), (1, 2), (1, 1)]"
  "map fst (ty_accepted (mq_world (snd toy_end))) = [''xd'']"
  by code_simp+

theorem consumer_loses_nothing_witness:
  "\<exists>res st'. Start 1 9 toy_amqp toy_codec (\<lambda>_. []) toy_consumer toy_start = Returned (res, st')
     \<and> ty_acked (mq_world st') = [(1, 3), (1, 2), (1, 1)] \<and> map ol_EventID (ty_rows (mq_world st')) = [''e1'']
     \<and> (\<forall>d \<in> set (ty_delivered (mq_world st')). delivery_key d \<in> set (ty_acked (mq_world st')) \<longrightarrow>
          accounted toy_codec (rq_OperationLog toy_config) toy_view (mq_world st') d)"
proof -
  have start: "log_inv (bv_rows toy_view (mq_world toy_start))" "inj_on delivery_key (bv_delivered toy_view (mq_world toy_start))"
    "bv_acked toy_view (mq_world toy_start) = {}" "co_config toy_consumer = toy_config"
    by (simp_all add: toy_view_def toy_start_def log_inv_def toy_consumer_def)
  from consumer_loses_nothing [OF toy_ok start(1,2), of 1 9 toy_codec "\<lambda>_. []"] obtain res st' where
    run: "Start 1 9 toy_amqp toy_codec (\<lambda>_. []) toy_consumer toy_start = Returned (res, st')"
    and all: "\<forall>d \<in> bv_delivered toy_view (mq_world st'). delivery_key d \<in> bv_acked toy_view (mq_world st') \<longrightarrow>
          accounted toy_codec (rq_OperationLog toy_config) toy_view (mq_world st') d"
    unfolding start(3,4) by blast
  have view: "bv_delivered toy_view w = set (ty_delivered w)" "bv_acked toy_view w = set (ty_acked w)" for w
    by (simp_all add: toy_view_def)
  from run have end': "snd toy_end = st'" unfolding toy_end_def by (simp only: go_outcome.case snd_conv)
  show ?thesis
    by (intro exI [of _ res] exI [of _ st'] conjI run toy_run(1,2) [unfolded end'] all [unfolded view])
qed

end
