(* ===== verification/Chain_Client.thy ===== *)
theory Chain_Client
  imports Go_Monad Web3_Config "HOL-Library.AList" "HOL-Library.Signed_Division"
begin

text \<open>
  The pools of EVM nodes, \<open>web3/internal/blockchain/client.go\<close>. The values of \<open>go-ethereum\<close> that the
  service reads are records of what their accessors return, addresses and hashes are their bytes, and
  a node is a record of the calls of the interface \<open>Client\<close> over a world \<open>'w\<close>. The state of an
  operation is the manager, whose pools count their calls, and the world: \<open>'w chain_state\<close>. A call
  that is passed to \<open>Execute\<close> returns the values that the Go closure assigns to the variables it
  captures; the callers read them only after a nil error, when the last call has assigned all of them.
  The receiver and the operation are not nil at any call in the service. \<open>done'\<close> reads \<open>ctx.Err()\<close> off the world.
\<close>

type_synonym Address = "byte list"
type_synonym Hash = "byte list"

record Transaction =
  tx_Hash :: Hash
  tx_To :: "Address option"
  tx_Value :: int
  tx_ChainId :: int
  tx_Raw :: "byte list"

record Receipt =
  rcp_BlockNumber :: "int option"
  rcp_BlockHash :: Hash
  rcp_Status :: u64

record Block =
  bl_Transactions :: "Transaction list"
  bl_Number :: u64
  bl_Hash :: Hash
  bl_Time :: u64

record Header =
  hd_Time :: u64

record Log =
  log_Address :: Address
  log_Topics :: "Hash list"
  log_Data :: "byte list"
  log_TxHash :: Hash
  log_Index :: u64

record FilterQuery =
  fq_FromBlock :: u64
  fq_ToBlock :: u64
  fq_Topics :: "Hash list option list"

record CallMsg =
  cmsg_To :: Address
  cmsg_Data :: "byte list"

record 'w Client =
  cl_BalanceAt :: "Address \<Rightarrow> 'w \<Rightarrow> (go_error + int option) \<times> 'w"
  cl_CallContract :: "CallMsg \<Rightarrow> 'w \<Rightarrow> (go_error + byte list) \<times> 'w"
  cl_TransactionByHash :: "Hash \<Rightarrow> 'w \<Rightarrow> (go_error + Transaction option \<times> bool) \<times> 'w"
  cl_TransactionReceipt :: "Hash \<Rightarrow> 'w \<Rightarrow> (go_error + Receipt option) \<times> 'w"
  cl_BlockNumber :: "'w \<Rightarrow> (go_error + u64) \<times> 'w"
  cl_BlockByNumber :: "u64 \<Rightarrow> 'w \<Rightarrow> (go_error + Block option) \<times> 'w"
  cl_HeaderByNumber :: "int \<Rightarrow> 'w \<Rightarrow> (go_error + Header option) \<times> 'w"
  cl_FilterLogs :: "FilterQuery \<Rightarrow> 'w \<Rightarrow> (go_error + Log list) \<times> 'w"
  cl_Close :: "'w \<Rightarrow> 'w"

record 'w chainPool =
  pool_config :: BlockchainChainConfig
  pool_clients :: "'w Client list"
  pool_next :: u64

record 'w ClientManager =
  cm_chains :: "(u64 \<times> 'w chainPool) list"
  cm_requestTimeout :: int
  cm_retryCount :: int
  cm_closed :: bool

type_synonym 'w chain_state = "'w ClientManager \<times> 'w"

section \<open>Closing and connecting\<close>

text \<open>\<open>m.closeOnce.Do(...)\<close>; \<open>order\<close> is the order of the iteration over the map.\<close>

type_synonym 'w pool_order = "(u64 \<times> 'w chainPool) list \<Rightarrow> (u64 \<times> 'w chainPool) list"

definition cm_Close :: "'w pool_order \<Rightarrow> 'w chain_state \<Rightarrow> 'w chain_state" where
  "cm_Close order st =
    (if cm_closed (fst st) then st
     else ((fst st)\<lparr>cm_closed := True\<rparr>,
           fold cl_Close (concat (map (\<lambda>p. pool_clients (snd p)) (order (cm_chains (fst st))))) (snd st)))"

type_synonym 'w dialFunc = "string \<Rightarrow> 'w \<Rightarrow> (go_error + 'w Client) \<times> 'w"

text \<open>The loop over the RPC URLs of a chain: the clients that could be dialled and the errors.\<close>

primrec dial_urls :: "'w dialFunc \<Rightarrow> string list \<Rightarrow> 'w Client list \<Rightarrow> go_error list \<Rightarrow> 'w
    \<Rightarrow> 'w Client list \<times> go_error list \<times> 'w" where
  "dial_urls dial [] clients dialErrors w = (clients, dialErrors, w)"
| "dial_urls dial (u # us) clients dialErrors w =
    (let rawURL = TrimSpace u
     in if rawURL = [] then dial_urls dial us clients dialErrors w
        else (case dial rawURL w of
            (Inl dialErr, w) \<Rightarrow> dial_urls dial us clients
              (dialErrors @ [WrapErr (''dial '' @ go_quote rawURL @ '': '') dialErr]) w
          | (Inr client, w) \<Rightarrow> dial_urls dial us (clients @ [client]) dialErrors w))"

definition no_endpoint :: "u64 \<Rightarrow> go_error list \<Rightarrow> go_error" where
  "no_endpoint chainID dialErrors =
    AppErr (Wrap (Some (case errors_Join (map Some dialErrors) of
        None \<Rightarrow> PlainErr ''no RPC URL is configured'' | Some cause \<Rightarrow> cause))
      CodeUnavailable (''no RPC endpoint is available for chain '' @ itoa (unat chainID)) 503)"

primrec connect_chains :: "'w pool_order \<Rightarrow> 'w dialFunc \<Rightarrow> BlockchainChainConfig list \<Rightarrow> 'w ClientManager \<Rightarrow> 'w
    \<Rightarrow> (go_error + 'w ClientManager) \<times> 'w" where
  "connect_chains order dial [] m w = (Inr m, w)"
| "connect_chains order dial (chainCfg # cs) m w =
    (if \<not> ch_Enabled chainCfg then connect_chains order dial cs m w
     else (case dial_urls dial (ch_RPCURLs chainCfg) [] [] w of (clients, dialErrors, w) \<Rightarrow>
       if clients = [] then (Inl (no_endpoint (ch_ChainID chainCfg) dialErrors), snd (cm_Close order (m, w)))
       else connect_chains order dial cs
         (m\<lparr>cm_chains := AList.update (ch_ChainID chainCfg)
              \<lparr>pool_config = chainCfg, pool_clients = clients, pool_next = 0\<rparr> (cm_chains m)\<rparr>) w))"

definition newClientManager :: "parse_duration \<Rightarrow> 'w pool_order \<Rightarrow> BlockchainConfig \<Rightarrow> 'w dialFunc option \<Rightarrow> 'w
    \<Rightarrow> (go_error + 'w ClientManager) \<times> 'w" where
  "newClientManager pd order cfg dial w =
    (case dial of
       None \<Rightarrow> (Inl (InvalidArgument ''blockchain RPC dialer is nil''), w)
     | Some d \<Rightarrow>
         (case pd (blk_RequestTimeout cfg) of
            Inl err \<Rightarrow> (Inl (InvalidArgument ''blockchain request timeout is invalid''), w)
          | Inr timeout \<Rightarrow>
              if timeout \<le> 0 then (Inl (InvalidArgument ''blockchain request timeout is invalid''), w)
              else connect_chains order d (blk_Chains cfg)
                \<lparr>cm_chains = [], cm_requestTimeout = timeout, cm_retryCount = blk_RetryCount cfg,
                 cm_closed = False\<rparr> w))"

section \<open>Calls\<close>

text \<open>\<open>pool.clients[i % len(pool.clients)]\<close>: a negative index panics.\<close>

definition client_at :: "'c list \<Rightarrow> int \<Rightarrow> 'c option" where
  "client_at clients i =
    (let idx = i smod int (length clients) in if idx < 0 then None else Some (clients ! nat idx))"

definition all_failed :: "u64 \<Rightarrow> go_error list \<Rightarrow> go_error" where
  "all_failed chainID operationErrors =
    AppErr (Wrap (errors_Join (map Some operationErrors)) CodeUnavailable
      (''all RPC attempts failed for chain '' @ itoa (unat chainID)) 503)"

primrec run_attempts :: "nat \<Rightarrow> ('w \<Rightarrow> go_error option) \<Rightarrow> u64 \<Rightarrow> ('w Client \<Rightarrow> 'w \<Rightarrow> (go_error + 'a) \<times> 'w)
    \<Rightarrow> 'w Client list \<Rightarrow> int \<Rightarrow> int \<Rightarrow> go_error list \<Rightarrow> 'w \<Rightarrow> ((go_error + 'a) \<times> 'w) go_outcome" where
  "run_attempts 0 done' chainID operation clients start attempt operationErrors w =
    Returned (Inl (all_failed chainID operationErrors), w)"
| "run_attempts (Suc n) done' chainID operation clients start attempt operationErrors w =
    (case done' w of
       Some err \<Rightarrow> Returned (Inl err, w)
     | None \<Rightarrow>
         (case client_at clients (start + attempt) of
            None \<Rightarrow> Panicked
          | Some client \<Rightarrow>
              (case operation client w of
                 (Inr a, w) \<Rightarrow> Returned (Inr a, w)
               | (Inl err, w) \<Rightarrow> run_attempts n done' chainID operation clients start (attempt + 1)
                   (operationErrors @ [err]) w)))"

definition attempts_of :: "'w ClientManager \<Rightarrow> nat" where
  "attempts_of m = nat (let attempts = go_int (cm_retryCount m + 1) in if attempts < 1 then 1 else attempts)"

definition Execute :: "('w \<Rightarrow> go_error option) \<Rightarrow> u64 \<Rightarrow> ('w Client \<Rightarrow> 'w \<Rightarrow> (go_error + 'a) \<times> 'w)
    \<Rightarrow> ('w chain_state, 'a) go" where
  "Execute done' chainID operation st =
    (case map_of (cm_chains (fst st)) chainID of
       None \<Rightarrow> Returned (Inl (InvalidArgument ''unsupported or disabled blockchain''), st)
     | Some pool \<Rightarrow>
         if pool_clients pool = [] then Returned (Inl (InvalidArgument ''unsupported or disabled blockchain''), st)
         else
           (let m = (fst st)\<lparr>cm_chains := AList.update chainID (pool\<lparr>pool_next := pool_next pool + 1\<rparr>) (cm_chains (fst st))\<rparr>;
                start = sint (pool_next pool) smod int (length (pool_clients pool))
            in case run_attempts (attempts_of (fst st)) done' chainID operation (pool_clients pool) start 0 [] (snd st) of
                 Panicked \<Rightarrow> Panicked
               | Returned (r, w) \<Rightarrow> Returned (r, (m, w))))"

definition Chain :: "'w ClientManager \<Rightarrow> u64 \<Rightarrow> BlockchainChainConfig option" where
  "Chain m chainID = map_option pool_config (map_of (cm_chains m) chainID)"


section \<open>The rotation\<close>

lemma smod_nonneg: "0 \<le> i \<Longrightarrow> 0 < n \<Longrightarrow> i smod int n = int (nat i mod n)"
  by (simp add: smod_int_alt_def zmod_int sgn_if)

lemma client_at_nonneg:
  "0 \<le> i \<Longrightarrow> clients \<noteq> [] \<Longrightarrow> client_at clients i = Some (clients ! (nat i mod length clients))"
  by (simp add: client_at_def smod_nonneg Let_def)

text \<open>The nodes that \<open>n\<close> attempts try when the pool has served \<open>next\<close> calls.\<close>

definition rotation :: "'c list \<Rightarrow> nat \<Rightarrow> nat \<Rightarrow> 'c list" where
  "rotation clients next n = map (\<lambda>i. clients ! ((next + i) mod length clients)) [0..<n]"

lemma rotation_Suc:
  "rotation clients next (Suc n) = clients ! (next mod length clients) # rotation clients (Suc next) n"
  by (simp add: rotation_def upt_conv_Cons map_Suc_upt [symmetric] del: upt_Suc)

lemma rotation_mod [simp]: "rotation clients (next mod length clients) n = rotation clients next n"
  by (simp add: rotation_def mod_add_left_eq)

lemma rotation_hits_all:
  assumes "c \<in> set clients" "length clients \<le> n"
  shows "c \<in> set (rotation clients next n)"
proof -
  obtain j where j: "j < length clients" "c = clients ! j" using assms(1) by (auto simp: in_set_conv_nth)
  let ?L = "length clients"
  define i where "i = (j + (?L - next mod ?L)) mod ?L"
  have pos: "0 < ?L" using j by (metis gr_implies_not0 gr0I)
  have m: "next mod ?L < ?L" using pos by simp
  have "(next + i) mod ?L = (next mod ?L + (j + (?L - next mod ?L))) mod ?L"
    unfolding i_def by (simp add: mod_add_left_eq mod_add_right_eq)
  also have "\<dots> = (j + ?L) mod ?L" using m by simp
  also have "\<dots> = j" using j by simp
  finally have "(next + i) mod ?L = j" .
  moreover have "i < n" using assms(2) pos unfolding i_def by (meson less_le_trans mod_less_divisor)
  ultimately show ?thesis using j by (force simp: rotation_def)
qed

text \<open>
  Attempts run over the rotation: the log that the operation writes grows by the nodes tried, in
  order, and the attempts stop at the first success, at the end of the context, or when used up.
\<close>

lemma run_attempts_visits:
  assumes "run_attempts n done' chainID operation clients start attempt errs w = Returned (r, w')"
    and "clients \<noteq> []" "0 \<le> start + attempt"
    and "\<And>c w. c \<in> set clients \<Longrightarrow> seen (snd (operation c w)) = seen w @ [name c]"
  shows "\<exists>k \<le> n. seen w' = seen w @ map name (rotation clients (nat (start + attempt)) k)
    \<and> (\<forall>a. r = Inr a \<longrightarrow> 0 < k) \<and> (\<forall>e. r = Inl e \<longrightarrow> k = n \<or> done' w' = Some e)"
  using assms(1,3)
proof (induction n arbitrary: attempt errs w)
  case 0
  then show ?case by (auto simp: rotation_def)
next
  case (Suc n)
  let ?c = "clients ! (nat (start + attempt) mod length clients)"
  have at: "client_at clients (start + attempt) = Some ?c"
    using Suc.prems(2) assms(2) by (simp add: client_at_nonneg)
  show ?case
  proof (cases "done' w")
    case (Some e)
    with Suc.prems(1) have "r = Inl e" "w' = w" by auto
    with Some show ?thesis by (intro exI [of _ 0]) (simp add: rotation_def)
  next
    case None
    obtain res w1 where op: "operation ?c w = (res, w1)" by fastforce
    have seen: "seen w1 = seen w @ [name ?c]" using assms(4) [of ?c w] op assms(2) by simp
    show ?thesis
    proof (cases res)
      case (Inr a)
      with Suc.prems(1) None at op have "r = Inr a" "w' = w1" by auto
      with seen show ?thesis by (intro exI [of _ 1]) (simp add: rotation_def)
    next
      case (Inl err)
      have "run_attempts n done' chainID operation clients start (attempt + 1) (errs @ [err]) w1 = Returned (r, w')"
        using Suc.prems(1) None at op Inl by simp
      moreover have "0 \<le> start + (attempt + 1)" using Suc.prems(2) by simp
      ultimately obtain k where k: "k \<le> n"
        "seen w' = seen w1 @ map name (rotation clients (nat (start + (attempt + 1))) k)"
        "\<forall>a. r = Inr a \<longrightarrow> 0 < k" "\<forall>e. r = Inl e \<longrightarrow> k = n \<or> done' w' = Some e"
        using Suc.IH by blast
      have "nat (start + (attempt + 1)) = Suc (nat (start + attempt))" using Suc.prems(2) by simp
      with k seen show ?thesis by (intro exI [of _ "Suc k"]) (auto simp: rotation_Suc)
    qed
  qed
qed

lemma run_attempts_healthy:
  assumes "c \<in> set (rotation clients (nat (start + attempt)) n)" "clients \<noteq> []" "0 \<le> start + attempt"
    and "\<And>w. done' w = None" "\<And>w. \<exists>a w'. operation c w = (Inr a, w')"
  shows "\<exists>a w'. run_attempts n done' chainID operation clients start attempt errs w = Returned (Inr a, w')"
  using assms(1,3)
proof (induction n arbitrary: attempt errs w)
  case 0
  then show ?case by (simp add: rotation_def)
next
  case (Suc n)
  let ?c = "clients ! (nat (start + attempt) mod length clients)"
  have at: "client_at clients (start + attempt) = Some ?c"
    using Suc.prems(2) assms(2) by (simp add: client_at_nonneg)
  obtain res w1 where op: "operation ?c w = (res, w1)" by fastforce
  show ?case
  proof (cases res)
    case (Inr a)
    with op at assms(4) show ?thesis by simp
  next
    case (Inl err)
    with op assms(5) have "?c \<noteq> c" by (metis Inl_Inr_False fst_conv)
    with Suc.prems(1) have "c \<in> set (rotation clients (Suc (nat (start + attempt))) n)"
      by (simp add: rotation_Suc)
    moreover have n: "nat (start + (attempt + 1)) = Suc (nat (start + attempt))" using Suc.prems(2) by simp
    ultimately have "c \<in> set (rotation clients (nat (start + (attempt + 1))) n)" by simp
    from Suc.IH [OF this, of "errs @ [err]" w1] Suc.prems(2)
    show ?thesis using op at assms(4) Inl by simp
  qed
qed

lemma start_index:
  assumes "unat next < 2 ^ 63" "0 < n"
  shows "sint (next :: u64) smod int n = int (unat next mod n)"
proof -
  have "sint next = int (unat next)" by (rule sint_small [OF assms(1)])
  then show ?thesis using assms(2) by (simp add: smod_nonneg)
qed


section \<open>Properties\<close>

definition pool_of :: "'w ClientManager \<Rightarrow> u64 \<Rightarrow> 'w chainPool \<Rightarrow> bool" where
  "pool_of m chainID pool \<longleftrightarrow> map_of (cm_chains m) chainID = Some pool \<and> pool_clients pool \<noteq> []
     \<and> unat (pool_next pool) < 2 ^ 63"

text \<open>The manager after a call: the counter of the pool is one higher.\<close>

definition advance :: "'w ClientManager \<Rightarrow> u64 \<Rightarrow> 'w chainPool \<Rightarrow> 'w ClientManager" where
  "advance m chainID pool =
    m\<lparr>cm_chains := AList.update chainID (pool\<lparr>pool_next := pool_next pool + 1\<rparr>) (cm_chains m)\<rparr>"

lemma Execute_run:
  assumes "pool_of m chainID pool"
  shows "Execute done' chainID operation (m, w) =
    (case run_attempts (attempts_of m) done' chainID operation (pool_clients pool)
        (int (unat (pool_next pool) mod length (pool_clients pool))) 0 [] w of
       Panicked \<Rightarrow> Panicked | Returned (r, w) \<Rightarrow> Returned (r, (advance m chainID pool, w)))"
  using assms
  by (simp add: Execute_def pool_of_def start_index advance_def Let_def split: go_outcome.split)

text \<open>A call runs once on each node it reaches, in the order of the rotation, so it never panics while
  the counter is below \<open>2 ^ 63\<close>.\<close>

lemma run_attempts_returns:
  assumes "clients \<noteq> []" "0 \<le> start + attempt"
  shows "\<exists>r w'. run_attempts n done' chainID operation clients start attempt errs w = Returned (r, w')"
  using assms(2)
proof (induction n arbitrary: attempt errs w)
  case (Suc n)
  from Suc.IH [of "attempt + 1"] Suc.prems show ?case
    by (auto simp: client_at_nonneg assms(1) split: option.splits prod.splits sum.splits)
qed simp

text \<open>C26: as long as one node of a chain answers, a read of the chain succeeds, whichever node is
  next and whatever the others do, if the attempts allow for one try of every node.\<close>

theorem Execute_reaches_healthy_node:
  assumes "pool_of m chainID pool" "c \<in> set (pool_clients pool)"
    and "\<And>w. \<exists>a w'. operation c w = (Inr a, w')" "\<And>w. done' w = None"
    and "length (pool_clients pool) \<le> attempts_of m"
  shows "\<exists>a w'. Execute done' chainID operation (m, w) = Returned (Inr a, (advance m chainID pool, w'))"
proof -
  let ?start = "int (unat (pool_next pool) mod length (pool_clients pool))"
  have "c \<in> set (rotation (pool_clients pool) (nat (?start + 0)) (attempts_of m))"
    using rotation_hits_all [OF assms(2,5)] by simp
  then have "\<exists>a w'. run_attempts (attempts_of m) done' chainID operation (pool_clients pool) ?start 0 [] w
      = Returned (Inr a, w')"
    using assms(1,3,4) by (intro run_attempts_healthy) (auto simp: pool_of_def)
  then show ?thesis unfolding Execute_run [OF assms(1)] by auto
qed

text \<open>a read of a chain returns; it tries the nodes in rotation from the pool's counter, at most
  one try per attempt, stops at the first success, and gives up only when the attempts are used up or
  the context has ended.\<close>

theorem Execute_visits:
  assumes "pool_of m chainID pool"
    and "\<And>c w. c \<in> set (pool_clients pool) \<Longrightarrow> seen (snd (operation c w)) = seen w @ [name c]"
  shows "\<exists>r w' k. Execute done' chainID operation (m, w) = Returned (r, (advance m chainID pool, w'))
    \<and> k \<le> attempts_of m \<and> seen w' = seen w @ map name (rotation (pool_clients pool) (unat (pool_next pool)) k)
    \<and> (\<forall>a. r = Inr a \<longrightarrow> 0 < k) \<and> (\<forall>e. r = Inl e \<longrightarrow> k = attempts_of m \<or> done' w' = Some e)"
proof -
  let ?start = "int (unat (pool_next pool) mod length (pool_clients pool))"
  have ne: "pool_clients pool \<noteq> []" using assms(1) by (simp add: pool_of_def)
  obtain r w' where run: "run_attempts (attempts_of m) done' chainID operation (pool_clients pool) ?start 0 [] w
      = Returned (r, w')"
    using run_attempts_returns [OF ne, of ?start 0 "attempts_of m" done' chainID operation "[]" w] by auto
  from run_attempts_visits [OF run ne, where seen = seen and name = name, OF _ assms(2)]
  show ?thesis unfolding Execute_run [OF assms(1)] run by auto
qed

text \<open>A chain with two nodes, the first of which is down; the world is the log of the calls.\<close>

definition sample_node :: "nat \<Rightarrow> bool \<Rightarrow> nat list Client" where
  "sample_node i up =
    \<lparr>cl_BalanceAt = (\<lambda>a w. (Inr (Some (int i)), w @ [i])), cl_CallContract = (\<lambda>m w. (Inr [], w @ [i])),
     cl_TransactionByHash = (\<lambda>h w. (Inr (None, False), w @ [i])), cl_TransactionReceipt = (\<lambda>h w. (Inr None, w @ [i])),
     cl_BlockNumber = (\<lambda>w. (if up then Inr (of_nat i) else Inl (PlainErr ''down''), w @ [i])),
     cl_BlockByNumber = (\<lambda>n w. (Inr None, w @ [i])), cl_HeaderByNumber = (\<lambda>n w. (Inr None, w @ [i])),
     cl_FilterLogs = (\<lambda>q w. (Inr [], w @ [i])), cl_Close = (\<lambda>w. w)\<rparr>"

definition plain_chain :: "u64 \<Rightarrow> BlockchainChainConfig" where
  "plain_chain i = \<lparr>ch_ChainID = i, ch_Name = ''chain'', ch_Enabled = True, ch_RPCURLs = [''a'', ''b''],
     ch_NativeSymbol = ''ETH'', ch_NativeDecimals = 18, ch_RequiredConfirmations = 12\<rparr>"

definition sample_pool :: "nat list chainPool" where
  "sample_pool = \<lparr>pool_config = plain_chain 1, pool_clients = [sample_node 0 False, sample_node 1 True], pool_next = 4\<rparr>"

definition sample_manager :: "nat list ClientManager" where
  "sample_manager = \<lparr>cm_chains = [(1, sample_pool)], cm_requestTimeout = 1, cm_retryCount = 1, cm_closed = False\<rparr>"

lemma sample_pool_of: "pool_of sample_manager 1 sample_pool" "length (pool_clients sample_pool) \<le> attempts_of sample_manager"
  by (simp_all add: pool_of_def sample_manager_def sample_pool_def attempts_of_def go_int_def)

lemma sample_attempts: "attempts_of sample_manager = 2"
  by (simp add: sample_manager_def attempts_of_def go_int_def)

theorem Execute_reaches_healthy_node_witness:
  "\<exists>a w'. Execute (\<lambda>_. None) 1 cl_BlockNumber (sample_manager, []) =
    Returned (Inr a, (advance sample_manager 1 sample_pool, w'))"
  by (rule Execute_reaches_healthy_node [where c = "sample_node 1 True", OF sample_pool_of(1)])
    (use sample_pool_of(2) in \<open>auto simp: sample_pool_def sample_node_def\<close>)

theorem Execute_visits_witness:
  "\<exists>r w' k. Execute (\<lambda>_. None) 1 cl_BlockNumber (sample_manager, []) =
      Returned (r, (advance sample_manager 1 sample_pool, w'))
    \<and> k \<le> 2 \<and> w' = [] @ map (\<lambda>c. hd (snd (cl_BlockNumber c []))) (rotation (pool_clients sample_pool) 4 k)
    \<and> (\<forall>a. r = Inr a \<longrightarrow> 0 < k) \<and> (\<forall>e. r = Inl e \<longrightarrow> k = 2 \<or> (None :: go_error option) = Some e)"
proof -
  have "unat (pool_next sample_pool) = 4" by (simp add: sample_pool_def)
  moreover have "c \<in> set (pool_clients sample_pool) \<Longrightarrow>
      id (snd (cl_BlockNumber c w)) = id w @ [hd (snd (cl_BlockNumber c []))]" for c w
    by (auto simp: sample_pool_def sample_node_def)
  note Execute_visits [where seen = id and name = "\<lambda>c. hd (snd (cl_BlockNumber c []))",
      OF sample_pool_of(1) this, where done' = "\<lambda>_. None" and w = "[]"]
  ultimately show ?thesis unfolding sample_attempts id_apply by simp
qed

section \<open>Connecting\<close>

lemma connect_chains_Inr:
  assumes "connect_chains order dial chs m w = (Inr m', w')"
  shows "map_of (cm_chains m') i = (case find (\<lambda>ch. ch_Enabled ch \<and> ch_ChainID ch = i) (rev chs) of
      None \<Rightarrow> map_of (cm_chains m) i
    | Some ch \<Rightarrow> map_of (cm_chains m') i) \<and>
    (\<forall>ch. find (\<lambda>ch. ch_Enabled ch \<and> ch_ChainID ch = i) (rev chs) = Some ch \<longrightarrow>
      (\<exists>clients. clients \<noteq> [] \<and> map_of (cm_chains m') i = Some \<lparr>pool_config = ch, pool_clients = clients, pool_next = 0\<rparr>))
    \<and> cm_retryCount m' = cm_retryCount m"
  using assms
proof (induction chs arbitrary: m w)
  case Nil
  then show ?case by auto
next
  case (Cons ch chs)
  obtain clients errs w1 where d: "dial_urls dial (ch_RPCURLs ch) [] [] w = (clients, errs, w1)"
    by (metis prod_cases3)
  show ?case
  proof (cases "ch_Enabled ch")
    case False
    with Cons.prems have "connect_chains order dial chs m w = (Inr m', w')" by simp
    from Cons.IH [OF this] False show ?thesis by (auto simp: find_append split: option.splits)
  next
    case True
    let ?pool = "\<lparr>pool_config = ch, pool_clients = clients, pool_next = 0\<rparr>"
    from Cons.prems True d have ne: "clients \<noteq> []"
      and next_run: "connect_chains order dial chs
        (m\<lparr>cm_chains := AList.update (ch_ChainID ch) ?pool (cm_chains m)\<rparr>) w1 = (Inr m', w')"
      by (auto split: if_splits)
    from Cons.IH [OF next_run] True ne show ?thesis
      by (auto simp: find_append update_conv' split: option.splits if_splits)
  qed
qed

text \<open>When the manager is created, every enabled chain has a pool with a node, \<open>Chain\<close> returns the
  configuration of exactly the enabled chains (the last entry of a chain wins), and no other chain is
  served.\<close>

theorem newClientManager_serves:
  assumes "newClientManager pd order cfg dial w = (Inr m, w')"
  shows "Chain m i = find (\<lambda>ch. ch_Enabled ch \<and> ch_ChainID ch = i) (rev (blk_Chains cfg))
    \<and> (Chain m i \<noteq> None \<longleftrightarrow> (\<exists>pool. pool_of m i pool))
    \<and> attempts_of m = nat (max 1 (go_int (blk_RetryCount cfg + 1)))"
proof -
  from assms obtain d t where "connect_chains order d (blk_Chains cfg)
      \<lparr>cm_chains = [], cm_requestTimeout = t, cm_retryCount = blk_RetryCount cfg, cm_closed = False\<rparr> w = (Inr m, w')"
    by (auto simp: newClientManager_def split: option.splits sum.splits if_splits)
  from connect_chains_Inr [OF this, of i] show ?thesis
    by (auto simp: Chain_def pool_of_def attempts_of_def Let_def max_def split: option.splits)
qed

definition sample_blockchain :: BlockchainConfig where
  "sample_blockchain = \<lparr>blk_RequestTimeout = ''5s'', blk_RetryCount = 1, blk_BalanceCacheTTL = ''30s'',
     blk_Scanner = \<lparr>scan_Enabled = True, scan_PollInterval = ''10s'', scan_BatchSize = 20, scan_StartBlock = 0\<rparr>,
     blk_Chains = [plain_chain 1]\<rparr>"

lemma sample_connect:
  "newClientManager (\<lambda>s. Inr 5) (\<lambda>ps. ps) sample_blockchain (Some (\<lambda>u w. (Inr (sample_node 1 True), w))) [] =
    (Inr \<lparr>cm_chains = [(1, \<lparr>pool_config = plain_chain 1, pool_clients = [sample_node 1 True, sample_node 1 True],
        pool_next = 0\<rparr>)], cm_requestTimeout = 5, cm_retryCount = 1, cm_closed = False\<rparr>, [])"
proof -
  have "TrimSpace ''a'' = ''a''" "TrimSpace ''b'' = ''b''" by (rule TrimSpace_plain, simp add: plain_char_def)+
  then show ?thesis by (simp add: newClientManager_def sample_blockchain_def plain_chain_def)
qed

theorem newClientManager_serves_witness:
  "\<exists>m w'. newClientManager (\<lambda>s. Inr 5) (\<lambda>ps. ps) sample_blockchain (Some (\<lambda>u w. (Inr (sample_node 1 True), w))) [] = (Inr m, w')
    \<and> Chain m 1 = find (\<lambda>ch. ch_Enabled ch \<and> ch_ChainID ch = 1) (rev (blk_Chains sample_blockchain))"
  using newClientManager_serves [OF sample_connect, of 1] sample_connect by blast

end
