(* ===== verification/Evm.thy ===== *)
theory Evm
  imports Chain_Client Wallet_Service
begin

text \<open>
  What the services that read the chains share: the functions of \<open>go-ethereum\<close> and \<open>google/uuid\<close>
  that they call (a record, like the other third-party code), and operations of the database, Redis
  and the clock as operations on a \<open>'w chain_state\<close>, whose client manager they leave alone.
\<close>

datatype abi_value = AbiBig "int option" | AbiUint8 byte | AbiString string | AbiAddress Address | AbiOther

record evm = ethereum +
  evm_IsHexHash :: "string \<Rightarrow> bool"
  evm_HexToHash :: "string \<Rightarrow> Hash"
  evm_HashHex :: "Hash \<Rightarrow> string"
  evm_HexToAddress :: "string \<Rightarrow> Address"
  evm_AddressHex :: "Address \<Rightarrow> string"
  evm_LeftPadBytes :: "byte list \<Rightarrow> nat \<Rightarrow> byte list"
  evm_BytesToHash :: "byte list \<Rightarrow> Hash"
  evm_BytesToAddress :: "byte list \<Rightarrow> Address"
  evm_Keccak256Hash :: "string \<Rightarrow> Hash"
  evm_Sender :: "int \<Rightarrow> Transaction \<Rightarrow> go_error + Address"
  evm_Pack :: "string \<Rightarrow> abi_value list \<Rightarrow> go_error + byte list"
  evm_Unpack :: "string \<Rightarrow> byte list \<Rightarrow> go_error + abi_value list"
  evm_NewSHA1 :: "string \<Rightarrow> string"

definition in_world :: "('w \<Rightarrow> 'r \<times> 'w) \<Rightarrow> 'w chain_state \<Rightarrow> 'r \<times> 'w chain_state" where
  "in_world f st = (case f (snd st) of (r, w) \<Rightarrow> (r, (fst st, w)))"

lemma in_world_eq [result_inv]:
  "in_world f st = (r, st') \<longleftrightarrow> f (snd st) = (r, snd st') \<and> fst st' = fst st"
  by (cases st') (auto simp: in_world_def split: prod.splits)

text \<open>\<open>s.chains.Chain(chainID)\<close> in the state of the manager.\<close>

definition chain_config :: "u64 \<Rightarrow> ('w chain_state, BlockchainChainConfig option) go" where
  "chain_config chainID = go_get (\<lambda>st. (Chain (fst st) chainID, st))"

lemma chain_config_eq [result_inv]:
  "chain_config i st = Returned (r, st') \<longleftrightarrow> r = Inr (Chain (fst st) i) \<and> st' = st"
  by (auto simp: chain_config_def go_get_def)

lemma chain_config_bind [simp]: "go_bind (chain_config i) f st = f (Chain (fst st) i) st"
  by (simp add: go_bind_def go_try_def chain_config_def go_get_def)

lemma in_world_bind:
  "f (snd st) = (r, w) \<Longrightarrow> go_try (go_call (in_world f)) k st = k r (fst st, w)"
  "g (snd st) = (a, w) \<Longrightarrow> go_bind (go_get (in_world g)) h st = h a (fst st, w)"
  by (simp_all add: go_try_def go_bind_def go_call_def go_get_def in_world_def)

text \<open>\<open>(*big.Int).String()\<close>, also of a nil pointer, and the low 64 bits that \<open>Uint64()\<close> returns.\<close>

definition big_String :: "int option \<Rightarrow> string" where
  "big_String v = (case v of None \<Rightarrow> ''<nil>'' | Some i \<Rightarrow> int_to_string i)"

definition big_Uint64 :: "int \<Rightarrow> u64" where
  "big_Uint64 i = of_int \<bar>i\<bar>"

text \<open>
  \<open>nodes_frame R m\<close>: a call of any node of the manager changes the world within \<open>R\<close>. What such calls
  keep, a read of the chain keeps.
\<close>

definition client_frame :: "('w \<Rightarrow> 'w \<Rightarrow> bool) \<Rightarrow> 'w Client \<Rightarrow> bool" where
  "client_frame R c \<longleftrightarrow>
     (\<forall>a w. R w (snd (cl_BalanceAt c a w))) \<and> (\<forall>m w. R w (snd (cl_CallContract c m w)))
   \<and> (\<forall>h w. R w (snd (cl_TransactionByHash c h w))) \<and> (\<forall>h w. R w (snd (cl_TransactionReceipt c h w)))
   \<and> (\<forall>w. R w (snd (cl_BlockNumber c w))) \<and> (\<forall>n w. R w (snd (cl_BlockByNumber c n w)))
   \<and> (\<forall>n w. R w (snd (cl_HeaderByNumber c n w))) \<and> (\<forall>q w. R w (snd (cl_FilterLogs c q w)))"

lemma client_frameD:
  assumes "client_frame R c"
  shows "cl_BalanceAt c a w = (r1, w') \<Longrightarrow> R w w'" "cl_CallContract c m w = (r2, w') \<Longrightarrow> R w w'"
    "cl_TransactionByHash c h w = (r3, w') \<Longrightarrow> R w w'" "cl_TransactionReceipt c h w = (r4, w') \<Longrightarrow> R w w'"
    "cl_BlockNumber c w = (r5, w') \<Longrightarrow> R w w'" "cl_BlockByNumber c n w = (r6, w') \<Longrightarrow> R w w'"
    "cl_HeaderByNumber c i w = (r7, w') \<Longrightarrow> R w w'" "cl_FilterLogs c q w = (r8, w') \<Longrightarrow> R w w'"
  using assms unfolding client_frame_def by (metis snd_conv)+

definition nodes_frame :: "('w \<Rightarrow> 'w \<Rightarrow> bool) \<Rightarrow> 'w ClientManager \<Rightarrow> bool" where
  "nodes_frame R m \<longleftrightarrow> (\<forall>i pool. map_of (cm_chains m) i = Some pool \<longrightarrow>
     (\<forall>c \<in> set (pool_clients pool). client_frame R c))"

lemma client_at_set:
  assumes "client_at clients i = Some c" "clients \<noteq> []"
  shows "c \<in> set clients"
proof -
  from assms(1) have *: "0 \<le> i smod int (length clients)" "c = clients ! nat (i smod int (length clients))"
    by (auto simp: client_at_def Let_def split: if_splits)
  have "\<bar>i smod int (length clients)\<bar> < int (length clients)"
    using assms(2) by (simp add: smod_int_alt_def abs_mult sgn_if)
  with * show ?thesis by simp
qed

lemma run_attempts_keeps:
  assumes "run_attempts n done' chainID operation clients start attempt errs w = Returned (r, w')" "I w"
    and "clients \<noteq> []" "\<And>c w r w'. c \<in> set clients \<Longrightarrow> operation c w = (r, w') \<Longrightarrow> I w \<Longrightarrow> I w'"
  shows "I w'"
  using assms(1,2)
proof (induction n arbitrary: attempt errs w)
  case (Suc n)
  from Suc.prems show ?case
    by (auto split: option.splits prod.splits sum.splits dest: assms(4) client_at_set [OF _ assms(3)] intro: Suc.IH)
qed simp

lemma keeps_Execute:
  assumes "\<And>c w r w'. client_frame R c \<Longrightarrow> operation c w = (r, w') \<Longrightarrow> I w \<Longrightarrow> I w'"
  shows "keeps (\<lambda>st. nodes_frame R (fst st) \<and> I (snd st)) (Execute done' chainID operation)"
proof (unfold keeps_def, intro allI impI)
  fix st :: "'a chain_state" and r st'
  assume run: "Execute done' chainID operation st = Returned (r, st')" and inv: "nodes_frame R (fst st) \<and> I (snd st)"
  show "nodes_frame R (fst st') \<and> I (snd st')"
  proof (cases "st' = st")
    case False
    with run obtain pool where pool: "map_of (cm_chains (fst st)) chainID = Some pool" "pool_clients pool \<noteq> []"
      and m: "fst st' = (fst st)\<lparr>cm_chains := AList.update chainID (pool\<lparr>pool_next := pool_next pool + 1\<rparr>) (cm_chains (fst st))\<rparr>"
      and go: "run_attempts (attempts_of (fst st)) done' chainID operation (pool_clients pool)
        (sint (pool_next pool) smod int (length (pool_clients pool))) 0 [] (snd st) = Returned (r, snd st')"
      by (auto simp: Execute_def Let_def split: option.splits if_splits go_outcome.splits)
    have "client_frame R c" if "c \<in> set (pool_clients pool)" for c
      using inv pool(1) that by (auto simp: nodes_frame_def)
    then have "I (snd st')"
      using run_attempts_keeps [OF go _ pool(2), of I] inv assms by blast
    moreover have "nodes_frame R (fst st')"
      using inv pool(1) unfolding m nodes_frame_def by (auto simp: update_conv')
    ultimately show ?thesis by blast
  qed (use inv in simp)
qed

lemma Execute_success:
  assumes "Execute done' chainID operation st = Returned (Inr a, st')"
  obtains pool c w where "map_of (cm_chains (fst st)) chainID = Some pool" "c \<in> set (pool_clients pool)"
    "operation c w = (Inr a, snd st')"
proof -
  have run: "run_attempts n done' chainID operation clients start attempt errs w = Returned (Inr a, w') \<Longrightarrow>
      clients \<noteq> [] \<Longrightarrow> \<exists>c \<in> set clients. \<exists>w1. operation c w1 = (Inr a, w')" for n clients start attempt errs w w'
  proof (induction n arbitrary: attempt errs w)
    case (Suc n)
    have "client_at clients i = Some c \<Longrightarrow> c \<in> set clients" for i c
      using client_at_set Suc.prems(2) by metis
    with Suc show ?case by (fastforce split: option.splits prod.splits sum.splits)
  qed simp
  from assms show thesis unfolding Execute_def
    by (auto simp: Let_def split: option.splits if_splits go_outcome.splits dest!: run intro: that)
qed


text \<open>
  What the nodes of a chain say: \<open>said m i f v\<close> if a node of chain \<open>i\<close> in the manager has the answer \<open>v\<close> to \<open>f\<close>. A read
  changes the counters of a manager only, so the nodes and the configuration of a chain stay the same.
\<close>

definition node_of :: "'w ClientManager \<Rightarrow> u64 \<Rightarrow> 'w Client \<Rightarrow> bool" where
  "node_of m i c \<longleftrightarrow> (\<exists>pool. map_of (cm_chains m) i = Some pool \<and> c \<in> set (pool_clients pool))"

definition said :: "'w ClientManager \<Rightarrow> u64 \<Rightarrow> ('w Client \<Rightarrow> 'w \<Rightarrow> (go_error + 'a) \<times> 'w) \<Rightarrow> 'a \<Rightarrow> bool" where
  "said m i f v \<longleftrightarrow> (\<exists>c w w'. node_of m i c \<and> f c w = (Inr v, w'))"

definition same_nodes :: "'w ClientManager \<Rightarrow> 'w ClientManager \<Rightarrow> bool" where
  "same_nodes m m' \<longleftrightarrow> Chain m' = Chain m \<and> node_of m' = node_of m"

lemma same_nodes_refl [simp]: "same_nodes m m"
  by (simp add: same_nodes_def)

lemma same_nodes_trans: "same_nodes m m1 \<Longrightarrow> same_nodes m1 m2 \<Longrightarrow> same_nodes m m2"
  by (simp add: same_nodes_def)

lemma same_nodes_said: "same_nodes m m' \<Longrightarrow> said m' i f v \<longleftrightarrow> said m i f v"
  by (simp add: same_nodes_def said_def)

lemma Execute_same_nodes:
  assumes "Execute done' i f st = Returned (r, st')"
  shows "same_nodes (fst st) (fst st')"
proof (cases "fst st' = fst st")
  case False
  with assms obtain pool where pool: "map_of (cm_chains (fst st)) i = Some pool"
    and m: "fst st' = (fst st)\<lparr>cm_chains := AList.update i (pool\<lparr>pool_next := pool_next pool + 1\<rparr>) (cm_chains (fst st))\<rparr>"
    by (auto simp: Execute_def Let_def split: option.splits if_splits go_outcome.splits)
  have "Chain (fst st') j = Chain (fst st) j" for j using pool by (simp add: m Chain_def update_conv')
  moreover have "node_of (fst st') j c = node_of (fst st) j c" for j c using pool by (simp add: m node_of_def update_conv')
  ultimately show ?thesis by (simp add: same_nodes_def fun_eq_iff)
qed simp

lemma Execute_said:
  assumes "Execute done' i f st = Returned (Inr v, st')"
  shows "said (fst st) i f v"
  using assms by (rule Execute_success) (unfold said_def node_of_def, blast)

section \<open>Concrete instances\<close>

text \<open>A manager with one node that answers and leaves the world alone, and concrete library functions.\<close>

definition quiet_node :: "'w Client" where
  "quiet_node =
    \<lparr>cl_BalanceAt = (\<lambda>a w. (Inr (Some 1500), w)), cl_CallContract = (\<lambda>m w. (Inr [], w)),
     cl_TransactionByHash = (\<lambda>h w. (Inr (None, False), w)), cl_TransactionReceipt = (\<lambda>h w. (Inr None, w)),
     cl_BlockNumber = (\<lambda>w. (Inr 100, w)), cl_BlockByNumber = (\<lambda>n w. (Inr None, w)),
     cl_HeaderByNumber = (\<lambda>n w. (Inr None, w)), cl_FilterLogs = (\<lambda>q w. (Inr [], w)), cl_Close = (\<lambda>w. w)\<rparr>"

definition quiet_manager :: "'w ClientManager" where
  "quiet_manager = \<lparr>cm_chains = [(1, \<lparr>pool_config = plain_chain 1, pool_clients = [quiet_node], pool_next = 0\<rparr>)],
     cm_requestTimeout = 1, cm_retryCount = 0, cm_closed = False\<rparr>"

definition sample_evm :: evm where
  "sample_evm =
    \<lparr>eth_IsHexAddress = (\<lambda>a. length a = 3), eth_Hex = (\<lambda>a. ''ABC''), eth_Keccak256 = (\<lambda>m. m),
     eth_SigToPub = (\<lambda>h s. Inr s), eth_PubkeyHex = (\<lambda>k. ''ABC''),
     evm_IsHexHash = (\<lambda>s. length s = 2), evm_HexToHash = (\<lambda>s. map (\<lambda>c. of_nat (of_char c)) s), evm_HashHex = map (\<lambda>b. char_of (unat b)),
     evm_HexToAddress = (\<lambda>s. map (\<lambda>c. of_nat (of_char c)) s), evm_AddressHex = map (\<lambda>b. char_of (unat b)),
     evm_LeftPadBytes = (\<lambda>b n. replicate (n - length b) 0 @ b), evm_BytesToHash = (\<lambda>b. b), evm_BytesToAddress = (\<lambda>b. b),
     evm_Keccak256Hash = (\<lambda>s. map (\<lambda>c. of_nat (of_char c)) s), evm_Sender = (\<lambda>i tx. Inr (tx_Raw tx)),
     evm_Pack = (\<lambda>m vs. Inr []), evm_Unpack = (\<lambda>m b. Inr []), evm_NewSHA1 = (\<lambda>s. s)\<rparr>"

lemma quiet_frame: "(\<And>w. R w w) \<Longrightarrow> nodes_frame R quiet_manager"
  by (simp add: nodes_frame_def quiet_manager_def client_frame_def quiet_node_def)

lemma quiet_attempts: "attempts_of quiet_manager = Suc 0" "cl_BalanceAt quiet_node = (\<lambda>a w. (Inr (Some 1500), w))"
  by (simp_all add: attempts_of_def quiet_manager_def go_int_def quiet_node_def)

end
