(* ===== verification/Transaction_Repo.thy ===== *)
theory Transaction_Repo
  imports Gorm_Upsert Sharding Wallet_Repo "HOL-Library.Char_ord" "HOL-Library.List_Lexorder"
begin

text \<open>
  The transaction snapshots: \<open>web3/internal/model/transaction.go\<close> and
  \<open>web3/internal/repository/transaction.go\<close>. The rows of a wallet live in one of eight tables;
  \<open>xr_db t\<close> is \<open>db.Table(t)\<close>. \<open>tx_repo_ok\<close> is what the repository relies on: each table behaves as
  the handle promises, and an operation on one table leaves the others alone.
\<close>

type_synonym TransactionStatus = int
type_synonym TransactionDirection = int

definition TransactionStatusPending :: TransactionStatus where "TransactionStatusPending = 1"
definition TransactionStatusConfirmed :: TransactionStatus where "TransactionStatusConfirmed = 2"
definition TransactionStatusFailed :: TransactionStatus where "TransactionStatusFailed = 3"
definition TransactionStatusReorged :: TransactionStatus where "TransactionStatusReorged = 4"

definition TransactionDirectionIncoming :: TransactionDirection where "TransactionDirectionIncoming = 1"
definition TransactionDirectionOutgoing :: TransactionDirection where "TransactionDirectionOutgoing = 2"
definition TransactionDirectionSelf :: TransactionDirection where "TransactionDirectionSelf = 3"

record WalletTransaction =
  wt_ID :: string
  wt_WalletID :: string
  wt_ChainID :: u64
  wt_TransactionHash :: string
  wt_EventIndex :: int
  wt_Direction :: TransactionDirection
  wt_FromAddress :: string
  wt_ToAddress :: string
  wt_ValueRaw :: string
  wt_TokenContract :: "string option"
  wt_BlockNumber :: "int option"
  wt_BlockHash :: "string option"
  wt_Confirmations :: u64
  wt_Status :: TransactionStatus
  wt_BlockTime :: "time option"
  wt_FirstSeenAt :: time
  wt_UpdatedAt :: time

text \<open>The unique index \<open>(wallet_id, chain_id, transaction_hash, event_index)\<close> of each table.\<close>

definition tx_key :: "WalletTransaction \<Rightarrow> string \<times> u64 \<times> string \<times> int" where
  "tx_key x = (wt_WalletID x, wt_ChainID x, wt_TransactionHash x, wt_EventIndex x)"

definition tx_table :: "('db \<Rightarrow> WalletTransaction list) \<Rightarrow> ('db, WalletTransaction) table_spec" where
  "tx_table rows =
    \<lparr>t_rows = rows,
     t_conflict = (\<lambda>x y. wt_ID x = wt_ID y \<or> tx_key x = tx_key y),
     t_fill = (\<lambda>t x. x\<lparr>wt_UpdatedAt := (if wt_UpdatedAt x = zero_time then t else wt_UpdatedAt x)\<rparr>),
     t_touch = (\<lambda>t x. x\<lparr>wt_UpdatedAt := t\<rparr>)\<rparr>"

record 'db TransactionRepository =
  xr_db :: "string \<Rightarrow> ('db, WalletTransaction, unit) gorm_up"
  xr_router :: TransactionRouter

section \<open>Operations\<close>

text \<open>\<open>DoUpdates: clause.AssignmentColumns(...)\<close>\<close>

definition refresh :: "WalletTransaction \<Rightarrow> WalletTransaction \<Rightarrow> WalletTransaction" where
  "refresh x y = x\<lparr>wt_Direction := wt_Direction y, wt_FromAddress := wt_FromAddress y, wt_ToAddress := wt_ToAddress y,
     wt_ValueRaw := wt_ValueRaw y, wt_TokenContract := wt_TokenContract y, wt_BlockNumber := wt_BlockNumber y,
     wt_BlockHash := wt_BlockHash y, wt_Confirmations := wt_Confirmations y, wt_Status := wt_Status y,
     wt_BlockTime := wt_BlockTime y, wt_UpdatedAt := wt_UpdatedAt y\<rparr>"

definition xr_Upsert :: "'db TransactionRepository \<Rightarrow> WalletTransaction \<Rightarrow> 'db \<Rightarrow> go_error option \<times> 'db" where
  "xr_Upsert r transaction db =
    (case tr_TableName (xr_router r) (wt_WalletID transaction) of
       Inl err \<Rightarrow> (Some err, db)
     | Inr table \<Rightarrow> g_upsert (xr_db r table) (\<lambda>x y. tx_key x = tx_key y) refresh transaction db)"

definition event_first :: "WalletTransaction \<Rightarrow> WalletTransaction \<Rightarrow> bool" where
  "event_first a b \<longleftrightarrow> wt_EventIndex a < wt_EventIndex b"

definition xr_FindByHash :: "'db TransactionRepository \<Rightarrow> string \<Rightarrow> u64 \<Rightarrow> string \<Rightarrow> 'db
    \<Rightarrow> (go_error + WalletTransaction) \<times> 'db" where
  "xr_FindByHash r walletID chainID hash db =
    (case tr_TableName (xr_router r) walletID of
       Inl err \<Rightarrow> (Inl err, db)
     | Inr table \<Rightarrow>
         g_first (xr_db r table)
           (\<lambda>x. wt_WalletID x = walletID \<and> wt_ChainID x = chainID \<and> wt_TransactionHash x = hash) event_first db)"

text \<open>\<open>ORDER BY COALESCE(block_time, first_seen_at) DESC, id DESC\<close>\<close>

definition seen_at :: "WalletTransaction \<Rightarrow> time" where
  "seen_at x = (case wt_BlockTime x of Some t \<Rightarrow> t | None \<Rightarrow> wt_FirstSeenAt x)"

definition latest_first :: "WalletTransaction \<Rightarrow> WalletTransaction \<Rightarrow> bool" where
  "latest_first a b \<longleftrightarrow> seen_at b < seen_at a \<or> seen_at a = seen_at b \<and> wt_ID b < wt_ID a"

definition listed :: "string \<Rightarrow> TransactionStatus \<Rightarrow> WalletTransaction \<Rightarrow> bool" where
  "listed walletID status x \<longleftrightarrow> wt_WalletID x = walletID \<and> (status \<noteq> 0 \<longrightarrow> wt_Status x = status)"

definition xr_ListByWallet :: "'db TransactionRepository \<Rightarrow> string \<Rightarrow> TransactionStatus \<Rightarrow> int \<Rightarrow> int \<Rightarrow> 'db
    \<Rightarrow> (go_error + WalletTransaction list \<times> int) \<times> 'db" where
  "xr_ListByWallet r walletID status page pageSize db =
    (case tr_TableName (xr_router r) walletID of
       Inl err \<Rightarrow> (Inl err, db)
     | Inr table \<Rightarrow>
         (case g_count (xr_db r table) (listed walletID status) db of
            (Inl err, db) \<Rightarrow> (Inl err, db)
          | (Inr n, db) \<Rightarrow>
              (case g_page (xr_db r table) (listed walletID status) latest_first
                  (go_int ((page - 1) * pageSize)) pageSize db of
                 (Inl err, db) \<Rightarrow> (Inl err, db)
               | (Inr transactions, db) \<Rightarrow> (Inr (transactions, int n), db))))"

section \<open>What the tables promise\<close>

definition tx_repo_ok :: "'db TransactionRepository \<Rightarrow> (string \<Rightarrow> 'db \<Rightarrow> WalletTransaction list) \<Rightarrow> bool" where
  "tx_repo_ok r rows \<longleftrightarrow> (\<forall>t. gorm_up_ok (xr_db r t) (tx_table (rows t)))
     \<and> (\<forall>t u same assign x db. t \<noteq> u \<longrightarrow> rows u (snd (g_upsert (xr_db r t) same assign x db)) = rows u db)
     \<and> (\<forall>t u P before db. t \<noteq> u \<longrightarrow> rows u (snd (g_first (xr_db r t) P before db)) = rows u db)
     \<and> (\<forall>t u P db. t \<noteq> u \<longrightarrow> rows u (snd (g_count (xr_db r t) P db)) = rows u db)
     \<and> (\<forall>t u P before i j db. t \<noteq> u \<longrightarrow> rows u (snd (g_page (xr_db r t) P before i j db)) = rows u db)"

text \<open>One row per key, and every row in the table of its wallet.\<close>

definition tx_inv :: "'db TransactionRepository \<Rightarrow> (string \<Rightarrow> 'db \<Rightarrow> WalletTransaction list) \<Rightarrow> 'db \<Rightarrow> bool" where
  "tx_inv r rows db \<longleftrightarrow> (\<forall>t. distinct (map tx_key (rows t db))
     \<and> (\<forall>x \<in> set (rows t db). tr_TableName (xr_router r) (wt_WalletID x) = Inr t))"

lemma tx_table_simps [simp]:
  "t_rows (tx_table rows) = rows"
  "t_conflict (tx_table rows) x y \<longleftrightarrow> wt_ID x = wt_ID y \<or> tx_key x = tx_key y"
  "tx_key (t_fill (tx_table rows) t x) = tx_key x"
  "wt_WalletID (t_fill (tx_table rows) t x) = wt_WalletID x"
  by (simp_all add: tx_table_def tx_key_def)

lemma refresh_keys [simp]:
  "tx_key (refresh x y) = tx_key x" "wt_WalletID (refresh x y) = wt_WalletID x" "wt_ID (refresh x y) = wt_ID x"
  "wt_FirstSeenAt (refresh x y) = wt_FirstSeenAt x"
  by (simp_all add: refresh_def tx_key_def)

lemma tx_key_wallet: "tx_key x = tx_key y \<Longrightarrow> wt_WalletID x = wt_WalletID y"
  by (simp add: tx_key_def)

lemma upserted_keys:
  "map tx_key (upserted (\<lambda>x y. tx_key x = tx_key y) refresh y xs) =
    (if tx_key y \<in> tx_key ` set xs then map tx_key xs else map tx_key xs @ [tx_key y])"
proof -
  have "list_ex (\<lambda>x. tx_key x = tx_key y) xs \<longleftrightarrow> tx_key y \<in> tx_key ` set xs"
    unfolding list_ex_iff image_iff by metis
  moreover have "map (tx_key \<circ> (\<lambda>x. if tx_key x = tx_key y then refresh x y else x)) xs = map tx_key xs"
    by auto
  ultimately show ?thesis by (simp add: upserted_def)
qed

lemma upserted_key_unique:
  assumes "distinct (map tx_key xs)"
  shows "distinct (map tx_key (upserted (\<lambda>x y. tx_key x = tx_key y) refresh y xs))"
  using assms unfolding upserted_keys by auto

lemma tx_repo_okD:
  assumes "tx_repo_ok r rows"
  shows "gorm_up_ok (xr_db r t) (tx_table (rows t))"
    and "t \<noteq> u \<Longrightarrow> g_upsert (xr_db r t) same assign x db = (e, db') \<Longrightarrow> rows u db' = rows u db"
    and "t \<noteq> u \<Longrightarrow> g_first (xr_db r t) P before db = (res, db') \<Longrightarrow> rows u db' = rows u db"
    and "t \<noteq> u \<Longrightarrow> g_count (xr_db r t) P db = (n, db') \<Longrightarrow> rows u db' = rows u db"
    and "t \<noteq> u \<Longrightarrow> g_page (xr_db r t) P before i j db = (page, db') \<Longrightarrow> rows u db' = rows u db"
  using assms unfolding tx_repo_ok_def by (metis snd_conv)+

lemma Upsert_cases:
  assumes "tx_repo_ok r rows" "xr_Upsert r x db = (e, db')"
  obtains (failed) "e \<noteq> None" "\<And>t. rows t db' = rows t db"
  | (stored) table and y :: WalletTransaction where "e = None" "tr_TableName (xr_router r) (wt_WalletID x) = Inr table"
    "tx_key y = tx_key x" "wt_ID y = wt_ID x" "\<And>z :: WalletTransaction. refresh z y = (refresh z x)\<lparr>wt_UpdatedAt := wt_UpdatedAt y\<rparr>"
    "rows table db' = upserted (\<lambda>x y. tx_key x = tx_key y) refresh y (rows table db)"
    "\<And>t. t \<noteq> table \<Longrightarrow> rows t db' = rows t db"
proof (cases "tr_TableName (xr_router r) (wt_WalletID x)")
  case (Inl err)
  with assms(2) have "e = Some err" "db' = db" by (simp_all add: xr_Upsert_def)
  then show thesis by (intro failed) simp_all
next
  case (Inr table)
  with assms(2) have up: "g_upsert (xr_db r table) (\<lambda>x y. tx_key x = tx_key y) refresh x db = (e, db')"
    by (simp add: xr_Upsert_def)
  note others = tx_repo_okD(2) [OF assms(1) _ up]
  show thesis
  proof (cases e)
    case None
    with up obtain t where rows: "rows table db' = upserted (\<lambda>x y. tx_key x = tx_key y) refresh
        (t_fill (tx_table (rows table)) t x) (rows table db)"
      by (metis upsert_None [OF tx_repo_okD(1) [OF assms(1)]] tx_table_simps(1))
    show thesis
      by (rule stored [OF None Inr _ _ _ rows]) (use others in \<open>auto simp: tx_table_def refresh_def tx_key_def\<close>)
  next
    case (Some err)
    with up have "rows table db' = rows table db"
      using upsert_Some [OF tx_repo_okD(1) [OF assms(1)]] by force
    with others failed Some show thesis by (metis option.distinct(1))
  qed
qed

lemma Upsert_inv:
  assumes "tx_repo_ok r rows" "xr_Upsert r x db = (e, db')" "tx_inv r rows db"
  shows "tx_inv r rows db'"
  using assms(1,2)
proof (cases rule: Upsert_cases)
  case failed
  with assms(3) show ?thesis by (simp add: tx_inv_def)
next
  case (stored table y)
  have "tr_TableName (xr_router r) (wt_WalletID z) = Inr table" if "z \<in> set (rows table db')" for z
  proof -
    from that stored(6) have "z \<in> set (rows table db) \<or> z = y \<or> (\<exists>x0 \<in> set (rows table db). z = refresh x0 y)"
      by (auto simp: upserted_def split: if_splits)
    moreover have "wt_WalletID y = wt_WalletID x" using tx_key_wallet stored(3) by blast
    ultimately show ?thesis using assms(3) stored(2) by (auto simp: tx_inv_def)
  qed
  moreover have "distinct (map tx_key (rows table db'))"
    using assms(3) upserted_key_unique unfolding stored(6) tx_inv_def by blast
  ultimately show ?thesis using assms(3) stored(7) unfolding tx_inv_def by metis
qed

text \<open>After a successful upsert the key has exactly one row; it carries the new data, and keeps the ID
  and the first observation of the row that was there.\<close>

lemma Upsert_row:
  assumes "tx_repo_ok r rows" "tx_inv r rows db" "xr_Upsert r x db = (None, db')"
  obtains table z where "tr_TableName (xr_router r) (wt_WalletID x) = Inr table" "z \<in> set (rows table db')"
    "tx_key z = tx_key x" "wt_Status z = wt_Status x" "wt_Confirmations z = wt_Confirmations x"
    "\<And>z'. z' \<in> set (rows table db) \<Longrightarrow> tx_key z' = tx_key x \<Longrightarrow> wt_ID z = wt_ID z' \<and> wt_FirstSeenAt z = wt_FirstSeenAt z'"
    "length (rows table db') = length (rows table db) + (if tx_key x \<in> tx_key ` set (rows table db) then 0 else 1)"
  using assms(1,3)
proof (cases rule: Upsert_cases)
  case failed
  then show thesis by simp
next
  case (stored table y)
  have y: "wt_Status y = wt_Status x" "wt_Confirmations y = wt_Confirmations x"
    using arg_cong [OF stored(5) [of x], of wt_Status] arg_cong [OF stored(5) [of x], of wt_Confirmations]
    by (simp_all add: refresh_def)
  have dist: "distinct (map tx_key (rows table db))" using assms(2) by (simp add: tx_inv_def)
  have len: "length (rows table db') = length (rows table db) + (if tx_key x \<in> tx_key ` set (rows table db) then 0 else 1)"
    using arg_cong [OF upserted_keys [of y "rows table db"], of length] unfolding stored(6) stored(3) by (simp split: if_splits)
  show thesis
  proof (cases "\<exists>x0 \<in> set (rows table db). tx_key x0 = tx_key x")
    case True
    then obtain x0 where x0: "x0 \<in> set (rows table db)" "tx_key x0 = tx_key x" by blast
    then have "list_ex (\<lambda>z. tx_key z = tx_key y) (rows table db)" unfolding list_ex_iff stored(3) by blast
    with x0 stored(3) have "refresh x0 y \<in> set (rows table db')"
      unfolding stored(6) upserted_def by (force simp: image_iff)
    then show thesis
    proof (rule that [OF stored(2) _ _ _ _ _ len])
      show "tx_key (refresh x0 y) = tx_key x" using x0(2) by simp
      show "wt_Status (refresh x0 y) = wt_Status x" "wt_Confirmations (refresh x0 y) = wt_Confirmations x"
        using y by (simp_all add: refresh_def)
      show "wt_ID (refresh x0 y) = wt_ID z' \<and> wt_FirstSeenAt (refresh x0 y) = wt_FirstSeenAt z'"
        if "z' \<in> set (rows table db)" "tx_key z' = tx_key x" for z'
        using that x0 dist by (metis distinct_map inj_onD refresh_keys(3,4))
    qed
  next
    case False
    then have "\<not> list_ex (\<lambda>z. tx_key z = tx_key y) (rows table db)" unfolding list_ex_iff stored(3) by blast
    then have "y \<in> set (rows table db')" unfolding stored(6) upserted_def by simp
    with that [OF stored(2) _ _ _ _ _ len, of y] False stored(3) y show thesis by blast
  qed
qed


section \<open>Reading\<close>

lemma strict_weak_latest: "strict_weak latest_first"
  unfolding strict_weak_def latest_first_def by auto

lemma strict_weak_event: "strict_weak event_first"
  unfolding strict_weak_def event_first_def by auto

lemma FindByHash_Inr:
  assumes "tx_repo_ok r rows" "xr_FindByHash r wid i h db = (Inr x, db')"
  obtains table where "tr_TableName (xr_router r) wid = Inr table" "x \<in> set (rows table db)" "wt_WalletID x = wid"
    "wt_ChainID x = i" "wt_TransactionHash x = h"
    "\<And>y. y \<in> set (rows table db) \<Longrightarrow> wt_WalletID y = wid \<Longrightarrow> wt_ChainID y = i \<Longrightarrow> wt_TransactionHash y = h
      \<Longrightarrow> wt_EventIndex x \<le> wt_EventIndex y"
proof (cases "tr_TableName (xr_router r) wid")
  case (Inl e)
  with assms(2) show thesis by (simp add: xr_FindByHash_def)
next
  case (Inr table)
  with assms(2) have "g_first (gorm.truncate (xr_db r table))
      (\<lambda>x. wt_WalletID x = wid \<and> wt_ChainID x = i \<and> wt_TransactionHash x = h) event_first db = (Inr x, db')"
    by (simp add: xr_FindByHash_def)
  from first_Inr [OF up_truncate [OF tx_repo_okD(1) [OF assms(1)]] this] strict_weak_event that [OF Inr]
  show thesis by (force simp: event_first_def)
qed

text \<open>The offset of a page in \<open>int\<close> arithmetic cannot wrap for an \<open>int32\<close> page of at most 100 rows.\<close>

lemma page_offset:
  assumes "1 \<le> page" "page < 2 ^ 31" "1 \<le> n" "n \<le> 100"
  shows "go_int ((page - 1) * n) = (page - 1) * n"
proof -
  have "(page - 1) * n \<le> 2 ^ 31 * 100" using assms by (intro mult_mono) auto
  moreover have "0 \<le> (page - 1) * n" using assms by simp
  ultimately show ?thesis by (intro go_int_id) simp_all
qed

lemma ListByWallet_Inr:
  assumes "tx_repo_ok r rows" "xr_ListByWallet r wid status page n db = (Inr (xs, ttl), db')"
    and "1 \<le> page" "page < 2 ^ 31" "1 \<le> n" "n \<le> 100"
  obtains table ys where "tr_TableName (xr_router r) wid = Inr table"
    "mset ys = mset (filter (listed wid status) (rows table db))" "sorted_wrt (\<lambda>a b. \<not> latest_first b a) ys"
    "xs = take (nat n) (drop (nat ((page - 1) * n)) ys)" "ttl = int (length ys)" "rows table db' = rows table db"
proof (cases "tr_TableName (xr_router r) wid")
  case (Inl e)
  with assms(2) show thesis by (simp add: xr_ListByWallet_def)
next
  case (Inr table)
  note ok = tx_repo_okD(1) [OF assms(1), of table]
  from assms(2) Inr obtain c db1 where c: "g_count (xr_db r table) (listed wid status) db = (Inr c, db1)"
    and pg: "g_page (xr_db r table) (listed wid status) latest_first ((page - 1) * n) n db1 = (Inr xs, db')"
    and ttl: "ttl = int c"
    by (auto simp: xr_ListByWallet_def page_offset [OF assms(3-6)] split: sum.splits prod.splits)
  have c': "rows table db1 = rows table db" "c = length (filter (listed wid status) (rows table db))"
    using count_Inr [OF up_truncate [OF ok]] c by simp_all
  have "0 \<le> (page - 1) * n" "0 < n" using assms(3,5) by simp_all
  from page_Inr [OF ok pg this] obtain ys where ys: "mset ys = mset (filter (listed wid status) (rows table db1))"
    "strict_weak latest_first \<Longrightarrow> sorted_wrt (\<lambda>a b. \<not> latest_first b a) ys"
    "xs = take (nat n) (drop (nat ((page - 1) * n)) ys)" by auto
  moreover have "length ys = c" using ys(1) c' by (metis size_mset)
  ultimately show thesis
    using that [OF Inr, of ys] strict_weak_latest c' ttl page_rows [OF ok pg] by simp
qed

end
