(* ===== verification/Transaction_Service.thy ===== *)
theory Transaction_Service
  imports Evm Transaction_Repo
begin

text \<open>
  The transaction service, \<open>web3/internal/service/transaction.go\<close>: reading the snapshots of a wallet
  page by page, and looking a single transaction up in the tables and then on the chain.
\<close>

record GetTransactionRequest =
  gt_ChainId :: u64
  gt_TransactionHash :: string
  gt_WalletId :: string

record GetTransactionsRequest =
  gts_WalletId :: string
  gts_Page :: int
  gts_PageSize :: int
  gts_Status :: int

record TransactionInfo =
  ti_ChainId :: u64
  ti_TransactionHash :: string
  ti_FromAddress :: string
  ti_ToAddress :: string
  ti_Value :: string
  ti_BlockNumber :: u64
  ti_BlockHash :: string
  ti_Confirmations :: u64
  ti_Status :: int
  ti_BlockTime :: "time option"
  ti_TokenContract :: string
  ti_EventIndex :: int

record GetTransactionsResponse =
  gtr_Transactions :: "TransactionInfo option list"
  gtr_Total :: int
  gtr_Page :: int
  gtr_PageSize :: int

record 'w TransactionService =
  xs_wallets :: "'w WalletRepository"
  xs_transactions :: "'w TransactionRepository"

definition NewTransactionService :: "'w WalletRepository option \<Rightarrow> 'w TransactionRepository option \<Rightarrow> bool
    \<Rightarrow> go_error + 'w TransactionService" where
  "NewTransactionService wallets transactions hasChains =
    (case (wallets, transactions, hasChains) of
       (Some v, Some x, True) \<Rightarrow> Inr \<lparr>xs_wallets = v, xs_transactions = x\<rparr>
     | _ \<Rightarrow> Inl (InvalidArgument ''transaction service dependencies are incomplete''))"

definition defaultTransactionPageSize :: int where "defaultTransactionPageSize = 20"
definition maxTransactionPageSize :: int where "maxTransactionPageSize = 100"

section \<open>Helpers\<close>

definition transactionSender :: "evm \<Rightarrow> Transaction \<Rightarrow> go_error + string" where
  "transactionSender E tx =
    (case evm_Sender E (tx_ChainId tx) tx of Inl err \<Rightarrow> Inl err | Inr address \<Rightarrow> Inr (evm_AddressHex E address))"

definition to_address :: "evm \<Rightarrow> Transaction \<Rightarrow> string" where
  "to_address E tx = (case tx_To tx of None \<Rightarrow> [] | Some a \<Rightarrow> evm_AddressHex E a)"

definition transactionDirection :: "string \<Rightarrow> string \<Rightarrow> string \<Rightarrow> TransactionDirection \<times> bool" where
  "transactionDirection walletAddress from_addr to_addr =
    (let walletAddress = ToLower walletAddress;
         fromMatches = (walletAddress = ToLower from_addr);
         toMatches = (walletAddress = ToLower to_addr)
     in if fromMatches \<and> toMatches then (TransactionDirectionSelf, True)
        else if fromMatches then (TransactionDirectionOutgoing, True)
        else if toMatches then (TransactionDirectionIncoming, True)
        else (0, False))"

definition transactionStatusFromProto :: "int \<Rightarrow> go_error + TransactionStatus" where
  "transactionStatusFromProto status =
    (if status = 0 then Inr 0
     else if status = 1 then Inr TransactionStatusPending
     else if status = 2 then Inr TransactionStatusConfirmed
     else if status = 3 then Inr TransactionStatusFailed
     else if status = 4 then Inr TransactionStatusReorged
     else Inl (InvalidArgument ''transaction status is invalid''))"

definition normalizeTransactionPage :: "int \<Rightarrow> int \<Rightarrow> int \<times> int" where
  "normalizeTransactionPage page pageSize =
    (let page = (if page \<le> 0 then 1 else page);
         pageSize = (if pageSize \<le> 0 then defaultTransactionPageSize else pageSize);
         pageSize = (if pageSize > maxTransactionPageSize then maxTransactionPageSize else pageSize)
     in (page, pageSize))"

definition transactionToProto :: "WalletTransaction option \<Rightarrow> TransactionInfo option" where
  "transactionToProto v = (case v of None \<Rightarrow> None | Some x \<Rightarrow>
     Some \<lparr>ti_ChainId = wt_ChainID x, ti_TransactionHash = wt_TransactionHash x, ti_FromAddress = wt_FromAddress x,
       ti_ToAddress = wt_ToAddress x, ti_Value = wt_ValueRaw x,
       ti_BlockNumber = (case wt_BlockNumber x of None \<Rightarrow> 0 | Some n \<Rightarrow> of_int n),
       ti_BlockHash = (case wt_BlockHash x of None \<Rightarrow> [] | Some h \<Rightarrow> h),
       ti_Confirmations = wt_Confirmations x, ti_Status = wt_Status x, ti_BlockTime = wt_BlockTime x,
       ti_TokenContract = (case wt_TokenContract x of None \<Rightarrow> [] | Some c \<Rightarrow> c), ti_EventIndex = wt_EventIndex x\<rparr>)"

definition activeWallet :: "'w TransactionService \<Rightarrow> string \<Rightarrow> string \<Rightarrow> u64 \<Rightarrow> ('w chain_state, Wallet) go" where
  "activeWallet s subject walletID chainID =
    go_try (go_call (in_world (wr_FindByID (xs_wallets s) subject walletID))) (\<lambda>found. case found of
        Inl err \<Rightarrow> go_fail (normalizeNotFound err)
      | Inr wallet \<Rightarrow>
          if w_Status wallet \<noteq> WalletStatusActive then go_fail (NotFound ''active wallet was not found'')
          else if chainID \<noteq> 0 \<and> w_ChainID wallet \<noteq> chainID then
            go_fail (InvalidArgument ''wallet does not belong to the requested blockchain'')
          else go_return wallet)"

section \<open>Looking a transaction up on the chain\<close>

text \<open>\<open>time.Unix(int64(seconds), 0)\<close>\<close>

definition unix_time :: "u64 \<Rightarrow> time" where
  "unix_time seconds = sint seconds * 10 ^ 9"

text \<open>The end of \<open>enrichMinedTransaction\<close>, when receipt, height and header are known.\<close>

definition mined_snapshot :: "evm \<Rightarrow> WalletTransaction \<Rightarrow> u64 \<Rightarrow> Receipt \<Rightarrow> u64 \<Rightarrow> u64 \<Rightarrow> Header option \<Rightarrow> WalletTransaction" where
  "mined_snapshot E snapshot requiredConfirmations receipt blockNumber latest header =
    (let snapshot = snapshot\<lparr>wt_BlockNumber := Some (sint blockNumber), wt_BlockHash := Some (evm_HashHex E (rcp_BlockHash receipt))\<rparr>;
         snapshot = (if latest \<ge> blockNumber then snapshot\<lparr>wt_Confirmations := latest - blockNumber + 1\<rparr> else snapshot);
         snapshot = (case header of None \<Rightarrow> snapshot | Some h \<Rightarrow> snapshot\<lparr>wt_BlockTime := Some (unix_time (hd_Time h))\<rparr>)
     in if rcp_Status receipt = 0 then snapshot\<lparr>wt_Status := TransactionStatusFailed\<rparr>
        else if requiredConfirmations = 0 \<or> wt_Confirmations snapshot \<ge> requiredConfirmations
        then snapshot\<lparr>wt_Status := TransactionStatusConfirmed\<rparr>
        else snapshot)"

definition enrichMinedTransaction :: "('w \<Rightarrow> go_error option) \<Rightarrow> evm \<Rightarrow> WalletTransaction \<Rightarrow> u64
    \<Rightarrow> ('w chain_state, WalletTransaction) go" where
  "enrichMinedTransaction done' E snapshot requiredConfirmations =
    (let hash = evm_HexToHash E (wt_TransactionHash snapshot); chainID = wt_ChainID snapshot
     in go_try (Execute done' chainID (\<lambda>client. cl_TransactionReceipt client hash)) (\<lambda>res. case res of
          Inl err \<Rightarrow> if errors_Is err EthereumNotFound then go_return snapshot else go_fail err
        | Inr receiptPtr \<Rightarrow>
            (case receiptPtr of
               None \<Rightarrow> go_return snapshot
             | Some receipt \<Rightarrow>
                 (case rcp_BlockNumber receipt of
                    None \<Rightarrow> go_return snapshot
                  | Some number \<Rightarrow>
                      go_bind (Execute done' chainID cl_BlockNumber) (\<lambda>latest.
                      go_bind (Execute done' chainID (\<lambda>client. cl_HeaderByNumber client number)) (\<lambda>header.
                        go_return (mined_snapshot E snapshot requiredConfirmations receipt (big_Uint64 number) latest header)))))))"

definition native_snapshot :: "evm \<Rightarrow> Wallet \<Rightarrow> Hash \<Rightarrow> Transaction \<Rightarrow> TransactionDirection \<Rightarrow> string \<Rightarrow> string \<Rightarrow> string
    \<Rightarrow> time \<Rightarrow> WalletTransaction" where
  "native_snapshot E wallet hash tx direction from_addr to_addr uuid now =
    \<lparr>wt_ID = uuid, wt_WalletID = w_ID wallet, wt_ChainID = w_ChainID wallet, wt_TransactionHash = evm_HashHex E hash,
     wt_EventIndex = - 1, wt_Direction = direction, wt_FromAddress = from_addr, wt_ToAddress = to_addr,
     wt_ValueRaw = int_to_string (tx_Value tx), wt_TokenContract = None, wt_BlockNumber = None, wt_BlockHash = None,
     wt_Confirmations = 0, wt_Status = TransactionStatusPending, wt_BlockTime = None, wt_FirstSeenAt = now,
     wt_UpdatedAt = now\<rparr>"

text \<open>\<open>queryChainTransaction\<close> from the transaction that the node returned on.\<close>

definition record_transaction :: "'w platform \<Rightarrow> ('w \<Rightarrow> go_error option) \<Rightarrow> evm \<Rightarrow> 'w TransactionService \<Rightarrow> Wallet \<Rightarrow> u64
    \<Rightarrow> Hash \<Rightarrow> Transaction \<Rightarrow> bool \<Rightarrow> ('w chain_state, WalletTransaction) go" where
  "record_transaction P done' E s wallet required hash tx pending =
    (case transactionSender E tx of
       Inl err \<Rightarrow> go_fail (InvalidArgument ''transaction sender cannot be recovered'')
     | Inr from_addr \<Rightarrow>
         (case transactionDirection (w_Address wallet) from_addr (to_address E tx) of (direction, belongsToWallet) \<Rightarrow>
            if \<not> belongsToWallet then go_fail (NotFound ''transaction does not belong to the requested wallet'')
            else
              go_bind (go_get (in_world (p_now P))) (\<lambda>now.
              go_bind (go_get (in_world (p_uuid P))) (\<lambda>uuid.
              let snapshot = native_snapshot E wallet hash tx direction from_addr (to_address E tx) uuid now
              in go_bind (if \<not> pending then enrichMinedTransaction done' E snapshot required else go_return snapshot) (\<lambda>snapshot.
                 go_bind (go_call_err (in_world (xr_Upsert (xs_transactions s) snapshot))) (\<lambda>_.
                   go_return snapshot))))))"

definition queryChainTransaction :: "'w platform \<Rightarrow> ('w \<Rightarrow> go_error option) \<Rightarrow> evm \<Rightarrow> 'w TransactionService \<Rightarrow> Wallet \<Rightarrow> Hash
    \<Rightarrow> ('w chain_state, WalletTransaction) go" where
  "queryChainTransaction P done' E s wallet hash =
    go_bind (chain_config (w_ChainID wallet)) (\<lambda>config. case config of
        None \<Rightarrow> go_fail (InvalidArgument ''wallet blockchain is disabled'')
      | Some chainCfg \<Rightarrow>
          go_try (Execute done' (w_ChainID wallet) (\<lambda>client. cl_TransactionByHash client hash)) (\<lambda>res. case res of
              Inl err \<Rightarrow> if errors_Is err EthereumNotFound then go_fail (NotFound ''transaction was not found'') else go_fail err
            | Inr found \<Rightarrow>
                (case found of
                   (None, pending) \<Rightarrow> go_fail (NotFound ''transaction was not found'')
                 | (Some tx, pending) \<Rightarrow>
                     record_transaction P done' E s wallet (ch_RequiredConfirmations chainCfg) hash tx pending)))"

section \<open>The handlers\<close>

definition GetTransaction :: "'w platform \<Rightarrow> ('w \<Rightarrow> go_error option) \<Rightarrow> evm \<Rightarrow> 'w TransactionService \<Rightarrow> ctx
    \<Rightarrow> GetTransactionRequest option \<Rightarrow> ('w chain_state, TransactionInfo option) go" where
  "GetTransaction P done' E s c req =
    go_bind (go_lift (requireIdentity c)) (\<lambda>identity. case req of
        None \<Rightarrow> go_fail (InvalidArgument ''wallet ID is empty'')
      | Some r \<Rightarrow>
          if TrimSpace (gt_WalletId r) = [] then go_fail (InvalidArgument ''wallet ID is empty'')
          else if gt_ChainId r = 0 \<or> \<not> evm_IsHexHash E (gt_TransactionHash r) then
            go_fail (InvalidArgument ''chain ID or transaction hash is invalid'')
          else
            go_bind (activeWallet s (id_Subject identity) (gt_WalletId r) (gt_ChainId r)) (\<lambda>wallet.
            let hash = evm_HexToHash E (gt_TransactionHash r)
            in go_try (go_call (in_world (xr_FindByHash (xs_transactions s) (w_ID wallet) (gt_ChainId r) (evm_HashHex E hash))))
              (\<lambda>res. case res of
                 Inr transaction \<Rightarrow> go_return (transactionToProto (Some transaction))
               | Inl err \<Rightarrow>
                   if \<not> errors_Is err ErrRecordNotFound then go_fail err
                   else go_bind (queryChainTransaction P done' E s wallet hash)
                     (\<lambda>transaction. go_return (transactionToProto (Some transaction))))))"

definition GetTransactions :: "'w TransactionService \<Rightarrow> ctx \<Rightarrow> GetTransactionsRequest option
    \<Rightarrow> ('w chain_state, GetTransactionsResponse) go" where
  "GetTransactions s c req =
    go_bind (go_lift (requireIdentity c)) (\<lambda>identity. case req of
        None \<Rightarrow> go_fail (InvalidArgument ''wallet ID is empty'')
      | Some r \<Rightarrow>
          if TrimSpace (gts_WalletId r) = [] then go_fail (InvalidArgument ''wallet ID is empty'')
          else
            go_bind (activeWallet s (id_Subject identity) (gts_WalletId r) 0) (\<lambda>wallet.
            go_bind (go_lift (transactionStatusFromProto (gts_Status r))) (\<lambda>status.
            case normalizeTransactionPage (gts_Page r) (gts_PageSize r) of (page, pageSize) \<Rightarrow>
            go_bind (go_call (in_world (xr_ListByWallet (xs_transactions s) (w_ID wallet) status page pageSize)))
              (\<lambda>listing. go_return
                \<lparr>gtr_Transactions = map (\<lambda>x. transactionToProto (Some x)) (fst listing), gtr_Total = snd listing,
                 gtr_Page = page, gtr_PageSize = pageSize\<rparr>))))"


section \<open>Inversion\<close>

lemma activeWallet_Inr:
  assumes "repo_ok (xs_wallets s) wrows" "activeWallet s subject wid i st = Returned (Inr x, st')"
  shows "x \<in> set (wrows (snd st))" "w_ID x = wid" "w_UserSubject x = subject" "w_Status x = WalletStatusActive"
    "i \<noteq> 0 \<longrightarrow> w_ChainID x = i" "wr_FindByID (xs_wallets s) subject wid (snd st) = (Inr x, snd st')" "fst st' = fst st"
proof -
  from assms(2) obtain found st1 where g: "wr_FindByID (xs_wallets s) subject wid (snd st) = (found, snd st1)" "fst st1 = fst st"
    and k: "(case found of Inl err \<Rightarrow> go_fail (normalizeNotFound err) | Inr wallet \<Rightarrow>
          if w_Status wallet \<noteq> WalletStatusActive then go_fail (NotFound ''active wallet was not found'')
          else if i \<noteq> 0 \<and> w_ChainID wallet \<noteq> i then
            go_fail (InvalidArgument ''wallet does not belong to the requested blockchain'')
          else go_return wallet) st1 = Returned (Inr x, st')"
    unfolding activeWallet_def go_try_eq go_call_eq in_world_eq by blast
  have f: "wr_FindByID (xs_wallets s) subject wid (snd st) = (Inr x, snd st')" "fst st' = fst st"
    and checks: "w_Status x = WalletStatusActive" "i \<noteq> 0 \<longrightarrow> w_ChainID x = i"
    using g k by (cases found; auto simp: go_fail_eq go_return_eq split: if_splits)+
  then show "w_Status x = WalletStatusActive" "i \<noteq> 0 \<longrightarrow> w_ChainID x = i"
    "wr_FindByID (xs_wallets s) subject wid (snd st) = (Inr x, snd st')" "fst st' = fst st" by blast+
  from wr_first [OF assms(1) f(1) [unfolded wr_FindByID_def]]
  show "x \<in> set (wrows (snd st))" "w_ID x = wid" "w_UserSubject x = subject" by blast+
qed

lemma normalize_bounds:
  assumes "normalizeTransactionPage page size' = (p, n)" "page < 2 ^ 31"
  shows "1 \<le> p" "p < 2 ^ 31" "1 \<le> n" "n \<le> 100"
  using assms by (auto simp: normalizeTransactionPage_def Let_def defaultTransactionPageSize_def
      maxTransactionPageSize_def split: if_splits)

text \<open>What the enrichment of a pending snapshot does not change, and when it confirms it.\<close>

definition same_transaction :: "WalletTransaction \<Rightarrow> WalletTransaction \<Rightarrow> bool" where
  "same_transaction x y \<longleftrightarrow> tx_key x = tx_key y \<and> wt_ID x = wt_ID y \<and> wt_Direction x = wt_Direction y
     \<and> wt_FromAddress x = wt_FromAddress y \<and> wt_ToAddress x = wt_ToAddress y \<and> wt_ValueRaw x = wt_ValueRaw y"

text \<open>
  The state of a snapshot as the nodes know it: not in a block yet, or in the block of the receipt that a node returned,
  with the confirmations by the height that a node reported, failed by the receipt or confirmed by their number.
\<close>

definition mined_as :: "evm \<Rightarrow> 'w ClientManager \<Rightarrow> u64 \<Rightarrow> WalletTransaction \<Rightarrow> bool" where
  "mined_as E m required y \<longleftrightarrow>
     wt_Status y = TransactionStatusPending \<and> wt_BlockNumber y = None \<and> wt_Confirmations y = 0
   \<or> (\<exists>receipt number latest.
        said m (wt_ChainID y) (\<lambda>c. cl_TransactionReceipt c (evm_HexToHash E (wt_TransactionHash y))) (Some receipt)
      \<and> rcp_BlockNumber receipt = Some number \<and> said m (wt_ChainID y) cl_BlockNumber latest
      \<and> wt_BlockNumber y = Some (sint (big_Uint64 number))
      \<and> wt_Confirmations y = (if big_Uint64 number \<le> latest then latest - big_Uint64 number + 1 else 0)
      \<and> wt_Status y = (if rcp_Status receipt = 0 then TransactionStatusFailed
          else if required \<le> wt_Confirmations y then TransactionStatusConfirmed else TransactionStatusPending))"

lemma mined_snapshot_facts:
  assumes "wt_Status x = TransactionStatusPending" "wt_Confirmations x = 0"
    and y_def: "y = mined_snapshot E x required receipt number latest header"
  shows "same_transaction y x" "wt_BlockNumber y = Some (sint number)"
    "wt_Confirmations y = (if number \<le> latest then latest - number + 1 else 0)"
    "wt_Status y = (if rcp_Status receipt = 0 then TransactionStatusFailed
       else if required \<le> wt_Confirmations y then TransactionStatusConfirmed else TransactionStatusPending)"
  using assms(1,2) unfolding y_def mined_snapshot_def
  by (auto simp: Let_def same_transaction_def tx_key_def split: option.splits)

lemma enrich_Inr:
  assumes "enrichMinedTransaction done' E x required st = Returned (Inr y, st')" "wt_Status x = TransactionStatusPending"
    "wt_Confirmations x = 0" "wt_BlockNumber x = None"
  shows "same_transaction y x" "mined_as E (fst st) required y"
proof -
  let ?hash = "evm_HexToHash E (wt_TransactionHash x)"
  have both: "y = x \<or> (\<exists>receipt number latest header.
      said (fst st) (wt_ChainID x) (\<lambda>c. cl_TransactionReceipt c ?hash) (Some receipt) \<and> rcp_BlockNumber receipt = Some number
    \<and> said (fst st) (wt_ChainID x) cl_BlockNumber latest
    \<and> y = mined_snapshot E x required receipt (big_Uint64 number) latest header)"
  proof -
    from assms(1) obtain res st1 where read: "Execute done' (wt_ChainID x) (\<lambda>c. cl_TransactionReceipt c ?hash) st = Returned (res, st1)"
      and k: "(case res of
          Inl err \<Rightarrow> if errors_Is err EthereumNotFound then go_return x else go_fail err
        | Inr None \<Rightarrow> go_return x
        | Inr (Some receipt) \<Rightarrow>
            (case rcp_BlockNumber receipt of
               None \<Rightarrow> go_return x
             | Some number \<Rightarrow>
                 go_bind (Execute done' (wt_ChainID x) cl_BlockNumber) (\<lambda>latest.
                 go_bind (Execute done' (wt_ChainID x) (\<lambda>client. cl_HeaderByNumber client number)) (\<lambda>header.
                   go_return (mined_snapshot E x required receipt (big_Uint64 number) latest header))))) st1 = Returned (Inr y, st')"
      unfolding enrichMinedTransaction_def Let_def go_try_eq by blast
    show ?thesis
    proof (cases res)
      case (Inl e)
      with k show ?thesis by (simp add: go_return_eq go_fail_eq split: if_splits)
    next
      case (Inr receiptPtr)
      show ?thesis
      proof (cases "receiptPtr = None \<or> rcp_BlockNumber (the receiptPtr) = None")
        case True
        with k Inr show ?thesis by (auto simp: go_return_eq split: option.splits)
      next
        case False
        then obtain receipt number where r: "receiptPtr = Some receipt" "rcp_BlockNumber receipt = Some number" by auto
        with k Inr obtain latest header st2 where l: "Execute done' (wt_ChainID x) cl_BlockNumber st1 = Returned (Inr latest, st2)"
          and y: "y = mined_snapshot E x required receipt (big_Uint64 number) latest header"
          by (auto simp: go_bind_Inr go_return_eq)
        have "said (fst st) (wt_ChainID x) (\<lambda>c. cl_TransactionReceipt c ?hash) (Some receipt)"
          by (rule Execute_said [OF read [unfolded Inr r(1)]])
        moreover have "said (fst st) (wt_ChainID x) cl_BlockNumber latest"
          using Execute_said [OF l] unfolding same_nodes_said [OF Execute_same_nodes [OF read]] .
        ultimately show ?thesis using r(2) y by blast
      qed
    qed
  qed
  show same: "same_transaction y x"
    using both mined_snapshot_facts(1) [OF assms(2,3) refl] by (auto simp: same_transaction_def)
  then have ids: "wt_ChainID y = wt_ChainID x" "wt_TransactionHash y = wt_TransactionHash x"
    by (simp_all add: same_transaction_def tx_key_def)
  from both show "mined_as E (fst st) required y"
  proof (elim disjE exE conjE)
    assume "y = x"
    with assms(2-4) show ?thesis by (simp add: mined_as_def)
  next
    fix receipt number latest header
    assume "said (fst st) (wt_ChainID x) (\<lambda>c. cl_TransactionReceipt c ?hash) (Some receipt)" "rcp_BlockNumber receipt = Some number"
      "said (fst st) (wt_ChainID x) cl_BlockNumber latest"
      and y: "y = mined_snapshot E x required receipt (big_Uint64 number) latest header"
    with mined_snapshot_facts(2-4) [OF assms(2,3) y] show ?thesis unfolding mined_as_def ids by blast
  qed
qed

lemma transactionDirection_case:
  "transactionDirection a f t = (d, b) \<Longrightarrow> b \<longleftrightarrow> EqualFold a f \<or> EqualFold a t"
  by (auto simp: transactionDirection_def EqualFold_def Let_def split: if_splits)

lemma upserted_has_key:
  "\<exists>z \<in> set (upserted (\<lambda>x y. tx_key x = tx_key y) refresh y xs). tx_key z = tx_key y"
proof -
  have "tx_key y \<in> set (map tx_key (upserted (\<lambda>x y. tx_key x = tx_key y) refresh y xs))"
    unfolding upserted_keys by auto
  then show ?thesis by (auto simp del: upserted_keys)
qed

lemma record_transaction_Inr:
  assumes "tx_repo_ok (xs_transactions s) rows"
    and "record_transaction P done' E s wallet required hash tx pending st = Returned (Inr x, st')"
  shows "wt_WalletID x = w_ID wallet" "wt_ChainID x = w_ChainID wallet" "wt_TransactionHash x = evm_HashHex E hash"
    "EqualFold (w_Address wallet) (wt_FromAddress x) \<or> EqualFold (w_Address wallet) (wt_ToAddress x)"
    "transactionSender E tx = Inr (wt_FromAddress x)" "wt_ToAddress x = to_address E tx" "wt_ValueRaw x = int_to_string (tx_Value tx)"
    "mined_as E (fst st) required x" "pending \<Longrightarrow> wt_Status x = TransactionStatusPending"
    "\<exists>table. tr_TableName (xr_router (xs_transactions s)) (w_ID wallet) = Inr table
      \<and> (\<exists>z \<in> set (rows table (snd st')). tx_key z = tx_key x)"
proof -
  from assms(2) obtain f where f: "transactionSender E tx = Inr f"
    by (auto simp: record_transaction_def go_fail_eq split: sum.splits)
  obtain d b where d: "transactionDirection (w_Address wallet) f (to_address E tx) = (d, b)" by fastforce
  from assms(2) f d have b: b by (auto simp: record_transaction_def go_fail_eq split: if_splits)
  define new where "new = (\<lambda>uuid now. native_snapshot E wallet hash tx d f (to_address E tx) uuid now)"
  from assms(2) f d b have "go_bind (go_get (in_world (p_now P))) (\<lambda>now. go_bind (go_get (in_world (p_uuid P))) (\<lambda>uuid.
      go_bind (if \<not> pending then enrichMinedTransaction done' E (new uuid now) required else go_return (new uuid now)) (\<lambda>snapshot.
        go_bind (go_call_err (in_world (xr_Upsert (xs_transactions s) snapshot))) (\<lambda>_. go_return snapshot)))) st
      = Returned (Inr x, st')" unfolding new_def by (simp add: record_transaction_def Let_def cong del: if_weak_cong)
  then obtain now st0 where clock1: "p_now P (snd st) = (now, snd st0)" "fst st0 = fst st"
    and rest: "go_bind (go_get (in_world (p_uuid P))) (\<lambda>uuid.
      go_bind (if \<not> pending then enrichMinedTransaction done' E (new uuid now) required else go_return (new uuid now)) (\<lambda>snapshot.
        go_bind (go_call_err (in_world (xr_Upsert (xs_transactions s) snapshot))) (\<lambda>_. go_return snapshot))) st0
      = Returned (Inr x, st')"
    unfolding go_bind_Inr [of "go_get (in_world (p_now P))"] go_get_eq in_world_eq by blast
  then obtain uuid st1 where clock2: "p_uuid P (snd st0) = (uuid, snd st1)" "fst st1 = fst st0"
    and rest: "go_bind (if \<not> pending then enrichMinedTransaction done' E (new uuid now) required else go_return (new uuid now)) (\<lambda>snapshot.
        go_bind (go_call_err (in_world (xr_Upsert (xs_transactions s) snapshot))) (\<lambda>_. go_return snapshot)) st1
      = Returned (Inr x, st')"
    unfolding go_bind_Inr [of "go_get (in_world (p_uuid P))"] go_get_eq in_world_eq by blast
  then obtain y st2 where e': "(if \<not> pending then enrichMinedTransaction done' E (new uuid now) required else go_return (new uuid now)) st1
        = Returned (Inr y, st2)"
    and rest: "go_bind (go_call_err (in_world (xr_Upsert (xs_transactions s) y))) (\<lambda>_. go_return y) st2 = Returned (Inr x, st')"
    by (subst (asm) go_bind_Inr) blast
  then have yx: "y = x" and u: "xr_Upsert (xs_transactions s) x (snd st2) = (None, snd st')"
    by (auto simp: go_bind_Inr go_return_eq go_call_err_Inr in_world_eq)
  note e = e' [unfolded yx]
  have m: "fst st1 = fst st" using clock1(2) clock2(2) by simp
  have pend: "wt_Status (new uuid now) = TransactionStatusPending" "wt_Confirmations (new uuid now) = 0"
    "wt_BlockNumber (new uuid now) = None"
    by (simp_all add: new_def native_snapshot_def)
  have both: "same_transaction x (new uuid now) \<and> mined_as E (fst st) required x \<and> (pending \<longrightarrow> wt_Status x = TransactionStatusPending)"
  proof (cases pending)
    case True
    with e have "x = new uuid now" by (simp add: go_return_eq)
    with pend show ?thesis by (simp add: same_transaction_def mined_as_def)
  next
    case False
    with e have "enrichMinedTransaction done' E (new uuid now) required st1 = Returned (Inr x, st2)" by simp
    from enrich_Inr [OF this pend] False m show ?thesis by simp
  qed
  then have same: "same_transaction x (new uuid now)" by blast
  from both show "mined_as E (fst st) required x" "pending \<Longrightarrow> wt_Status x = TransactionStatusPending" by blast+
  show ids: "wt_WalletID x = w_ID wallet" "wt_ChainID x = w_ChainID wallet" "wt_TransactionHash x = evm_HashHex E hash"
    "transactionSender E tx = Inr (wt_FromAddress x)" "wt_ToAddress x = to_address E tx" "wt_ValueRaw x = int_to_string (tx_Value tx)"
    using same f by (simp_all add: same_transaction_def tx_key_def new_def native_snapshot_def)
  show "EqualFold (w_Address wallet) (wt_FromAddress x) \<or> EqualFold (w_Address wallet) (wt_ToAddress x)"
    using same transactionDirection_case [OF d] b
    by (simp add: same_transaction_def new_def native_snapshot_def)
  from assms(1) u show "\<exists>table. tr_TableName (xr_router (xs_transactions s)) (w_ID wallet) = Inr table
      \<and> (\<exists>z \<in> set (rows table (snd st')). tx_key z = tx_key x)"
    by (cases rule: Upsert_cases) (use upserted_has_key ids(1) in \<open>metis+\<close>)
qed

section \<open>Properties\<close>

text \<open>C28: a listed page belongs to an active wallet of the caller and is exactly that slice of the
  wallet's transactions with the requested status, latest first; a page has between 1 and 100 rows of
  room, the offset never wraps around, and the total is the number of matching rows. So the pages of a
  wallet, put together, are all of its transactions.\<close>

theorem GetTransactions_page:
  assumes "repo_ok (xs_wallets s) wrows" "tx_repo_ok (xs_transactions s) rows"
    and "\<And>u i w t. rows t (snd (wr_FindByID (xs_wallets s) u i w)) = rows t w"
    and "gts_Page r < 2 ^ 31" "GetTransactions s c (Some r) st = Returned (Inr resp, st')"
  shows "\<exists>identity table ys status. \<exists>wallet \<in> set (wrows (snd st)). c = Some identity
    \<and> w_ID wallet = gts_WalletId r \<and> w_UserSubject wallet = id_Subject identity \<and> w_Status wallet = WalletStatusActive
    \<and> tr_TableName (xr_router (xs_transactions s)) (w_ID wallet) = Inr table
    \<and> transactionStatusFromProto (gts_Status r) = Inr status
    \<and> mset ys = mset (filter (listed (w_ID wallet) status) (rows table (snd st)))
    \<and> sorted_wrt (\<lambda>a b. \<not> latest_first b a) ys
    \<and> gtr_Transactions resp = map (\<lambda>x. transactionToProto (Some x))
        (take (nat (gtr_PageSize resp)) (drop (nat ((gtr_Page resp - 1) * gtr_PageSize resp)) ys))
    \<and> gtr_Total resp = int (length ys)
    \<and> normalizeTransactionPage (gts_Page r) (gts_PageSize r) = (gtr_Page resp, gtr_PageSize resp)
    \<and> 1 \<le> gtr_PageSize resp \<and> gtr_PageSize resp \<le> 100"
proof -
  obtain page n where pn: "normalizeTransactionPage (gts_Page r) (gts_PageSize r) = (page, n)" by fastforce
  from assms(5) obtain identity where i: "requireIdentity c = Inr identity"
    by (cases "requireIdentity c") (auto simp: GetTransactions_def go_fail_eq)
  from assms(5) i have "TrimSpace (gts_WalletId r) \<noteq> []" by (auto simp: GetTransactions_def go_fail_eq)
  with assms(5) i have "go_bind (activeWallet s (id_Subject identity) (gts_WalletId r) 0) (\<lambda>wallet.
      go_bind (go_lift (transactionStatusFromProto (gts_Status r))) (\<lambda>status.
      go_bind (go_call (in_world (xr_ListByWallet (xs_transactions s) (w_ID wallet) status page n)))
        (\<lambda>listing. go_return \<lparr>gtr_Transactions = map (\<lambda>x. transactionToProto (Some x)) (fst listing),
           gtr_Total = snd listing, gtr_Page = page, gtr_PageSize = n\<rparr>))) st = Returned (Inr resp, st')"
    by (simp add: GetTransactions_def pn)
  then obtain x status st1 listing where
    w: "activeWallet s (id_Subject identity) (gts_WalletId r) 0 st = Returned (Inr x, st1)"
    and status: "transactionStatusFromProto (gts_Status r) = Inr status"
    and l: "xr_ListByWallet (xs_transactions s) (w_ID x) status page n (snd st1) = (Inr listing, snd st')"
    and resp: "resp = \<lparr>gtr_Transactions = map (\<lambda>x. transactionToProto (Some x)) (fst listing), gtr_Total = snd listing,
      gtr_Page = page, gtr_PageSize = n\<rparr>"
    unfolding go_bind_Inr go_lift_eq go_call_eq in_world_eq go_return_eq by (metis sum.inject(2))
  obtain xs total' where listing: "listing = (xs, total')" by fastforce
  note x = activeWallet_Inr [OF assms(1) w]
  note b = normalize_bounds [OF pn assms(4)]
  have same: "rows t (snd st1) = rows t (snd st)" for t using assms(3) x(6) by (metis snd_conv)
  from ListByWallet_Inr [OF assms(2) l [unfolded listing] b] obtain table ys where
    "tr_TableName (xr_router (xs_transactions s)) (w_ID x) = Inr table"
    "mset ys = mset (filter (listed (w_ID x) status) (rows table (snd st)))" "sorted_wrt (\<lambda>a b. \<not> latest_first b a) ys"
    "xs = take (nat n) (drop (nat ((page - 1) * n)) ys)" "total' = int (length ys)"
    unfolding same by blast
  with x(1-4) i status pn b show ?thesis unfolding resp listing requireIdentity_Inr
    by (intro exI [of _ identity] exI [of _ table] exI [of _ ys] exI [of _ status] bexI [of _ x]) simp_all
qed

text \<open>The rows of a wallet's table that a lookup by hash is about.\<close>

definition asked :: "string \<Rightarrow> u64 \<Rightarrow> string \<Rightarrow> WalletTransaction \<Rightarrow> bool" where
  "asked wid i hash x \<longleftrightarrow> wt_WalletID x = wid \<and> wt_ChainID x = i \<and> wt_TransactionHash x = hash"

lemma FindByHash_missing:
  assumes "tx_repo_ok r rows" "xr_FindByHash r wid i h db = (Inl e, db')" "errors_Is e ErrRecordNotFound"
    "tr_TableName (xr_router r) wid = Inr table" "x \<in> set (rows table db)"
  shows "\<not> asked wid i h x"
proof -
  have "g_first (gorm.truncate (xr_db r table)) (\<lambda>x. wt_WalletID x = wid \<and> wt_ChainID x = i \<and> wt_TransactionHash x = h)
      event_first db = (Inl e, db')"
    using assms(2,4) by (simp add: xr_FindByHash_def)
  from first_missing [OF up_truncate [OF tx_repo_okD(1) [OF assms(1)]] this assms(3)] assms(5) show ?thesis
    by (simp add: asked_def)
qed

text \<open>C29: \<open>GetTransaction\<close> only answers the owner of an active wallet on the requested chain. If the wallet's table
  holds the transaction, the answer is its first stored row and the table stays as it is. If it holds none, a node of the
  chain has returned the transaction; the wallet is its sender or recipient, amount and parties are those of the node's
  transaction, block and confirmations come from a receipt and a height that nodes have reported, it is confirmed exactly if
  the receipt is a success with the confirmations that the configuration of the chain requires, and the answer is stored.\<close>

theorem GetTransaction_own:
  assumes "repo_ok (xs_wallets s) wrows" "tx_repo_ok (xs_transactions s) rows"
    and "\<And>u i w t. rows t (snd (wr_FindByID (xs_wallets s) u i w)) = rows t w"
    and "GetTransaction P done' E s c (Some r) st = Returned (Inr info, st')"
  shows "\<exists>identity table hash x. \<exists>wallet \<in> set (wrows (snd st)). c = Some identity
    \<and> w_ID wallet = gt_WalletId r \<and> w_UserSubject wallet = id_Subject identity \<and> w_Status wallet = WalletStatusActive
    \<and> w_ChainID wallet = gt_ChainId r \<and> info = transactionToProto (Some x)
    \<and> hash = evm_HexToHash E (gt_TransactionHash r) \<and> asked (w_ID wallet) (gt_ChainId r) (evm_HashHex E hash) x
    \<and> tr_TableName (xr_router (xs_transactions s)) (w_ID wallet) = Inr table
    \<and> (if \<exists>z \<in> set (rows table (snd st)). asked (w_ID wallet) (gt_ChainId r) (evm_HashHex E hash) z
       then x \<in> set (rows table (snd st)) \<and> rows table (snd st') = rows table (snd st)
         \<and> (\<forall>z \<in> set (rows table (snd st)). asked (w_ID wallet) (gt_ChainId r) (evm_HashHex E hash) z
              \<longrightarrow> wt_EventIndex x \<le> wt_EventIndex z)
       else (EqualFold (w_Address wallet) (wt_FromAddress x) \<or> EqualFold (w_Address wallet) (wt_ToAddress x))
         \<and> (\<exists>cfg tx pending. Chain (fst st) (gt_ChainId r) = Some cfg
              \<and> said (fst st) (gt_ChainId r) (\<lambda>c. cl_TransactionByHash c hash) (Some tx, pending)
              \<and> transactionSender E tx = Inr (wt_FromAddress x) \<and> wt_ToAddress x = to_address E tx
              \<and> wt_ValueRaw x = int_to_string (tx_Value tx)
              \<and> mined_as E (fst st) (ch_RequiredConfirmations cfg) x \<and> (pending \<longrightarrow> wt_Status x = TransactionStatusPending))
         \<and> (\<exists>z \<in> set (rows table (snd st')). tx_key z = tx_key x))"
proof -
  let ?hash = "evm_HexToHash E (gt_TransactionHash r)"
  from assms(4) obtain identity where i: "requireIdentity c = Inr identity"
    by (cases "requireIdentity c") (auto simp: GetTransaction_def go_fail_eq)
  from assms(4) i have ok: "TrimSpace (gt_WalletId r) \<noteq> []" "gt_ChainId r \<noteq> 0" "evm_IsHexHash E (gt_TransactionHash r)"
    by (auto simp: GetTransaction_def go_fail_eq split: if_splits)
  define lookup where "lookup = (\<lambda>wallet found. (case found of
           Inr transaction \<Rightarrow> go_return (transactionToProto (Some transaction))
         | Inl err \<Rightarrow>
             if \<not> errors_Is err ErrRecordNotFound then go_fail err
             else go_bind (queryChainTransaction P done' E s wallet ?hash)
               (\<lambda>transaction. go_return (transactionToProto (Some transaction)))))"
  from ok assms(4) i have "go_bind (activeWallet s (id_Subject identity) (gt_WalletId r) (gt_ChainId r)) (\<lambda>wallet.
      go_try (go_call (in_world (xr_FindByHash (xs_transactions s) (w_ID wallet) (gt_ChainId r) (evm_HashHex E ?hash))))
        (lookup wallet)) st = Returned (Inr info, st')"
    by (simp add: GetTransaction_def Let_def lookup_def)
  then obtain x st1 found st2 where
    w: "activeWallet s (id_Subject identity) (gt_WalletId r) (gt_ChainId r) st = Returned (Inr x, st1)"
    and f: "xr_FindByHash (xs_transactions s) (w_ID x) (gt_ChainId r) (evm_HashHex E ?hash) (snd st1) = (found, snd st2)"
      "fst st2 = fst st1"
    and rest: "lookup x found st2 = Returned (Inr info, st')"
    unfolding go_bind_Inr go_try_eq go_call_eq in_world_eq by blast
  note x = activeWallet_Inr [OF assms(1) w]
  have chain: "w_ChainID x = gt_ChainId r" using x(5) ok(2) by blast
  have same: "rows t (snd st1) = rows t (snd st)" for t using assms(3) x(6) by (metis snd_conv)
  have c: "c = Some identity" using i by (simp add: requireIdentity_Inr)
  show ?thesis
  proof (cases found)
    case (Inr y)
    with f have f': "xr_FindByHash (xs_transactions s) (w_ID x) (gt_ChainId r) (evm_HashHex E ?hash) (snd st1) = (Inr y, snd st2)"
      by simp
    from FindByHash_Inr [OF assms(2) this] obtain table where
      t: "tr_TableName (xr_router (xs_transactions s)) (w_ID x) = Inr table" "y \<in> set (rows table (snd st1))"
      and y: "asked (w_ID x) (gt_ChainId r) (evm_HashHex E ?hash) y"
      and first: "\<forall>z \<in> set (rows table (snd st1)). asked (w_ID x) (gt_ChainId r) (evm_HashHex E ?hash) z
          \<longrightarrow> wt_EventIndex y \<le> wt_EventIndex z"
      unfolding asked_def by metis
    have "g_first (gorm.truncate (xr_db (xs_transactions s) table)) (\<lambda>z. wt_WalletID z = w_ID x \<and> wt_ChainID z = gt_ChainId r
        \<and> wt_TransactionHash z = evm_HashHex E ?hash) event_first (snd st1) = (Inr y, snd st2)"
      using f' t(1) by (simp add: xr_FindByHash_def)
    from first_rows [OF up_truncate [OF tx_repo_okD(1) [OF assms(2)]] this] have r: "rows table (snd st2) = rows table (snd st)"
      by (simp add: same)
    have st': "st' = st2" "info = transactionToProto (Some y)" using rest Inr by (simp_all add: lookup_def go_return_eq)
    have "\<exists>z \<in> set (rows table (snd st)). asked (w_ID x) (gt_ChainId r) (evm_HashHex E ?hash) z" using t(2) y same by auto
    with t y first st' r c x(1-4) chain show ?thesis
      by (intro exI [of _ identity] exI [of _ table] exI [of _ ?hash] exI [of _ y] bexI [of _ x]) (simp_all add: same)
  next
    case (Inl e)
    with rest obtain y where q: "queryChainTransaction P done' E s x ?hash st2 = Returned (Inr y, st')"
      and info: "info = transactionToProto (Some y)" and missing: "errors_Is e ErrRecordNotFound"
      by (auto simp: lookup_def go_fail_eq go_bind_Inr go_return_eq split: if_splits)
    from q obtain cfg where cfg: "Chain (fst st2) (w_ChainID x) = Some cfg"
      by (cases "Chain (fst st2) (w_ChainID x)") (auto simp: queryChainTransaction_def go_fail_eq)
    with q obtain res st3 where read: "Execute done' (w_ChainID x) (\<lambda>client. cl_TransactionByHash client ?hash) st2 = Returned (res, st3)"
      and k: "(case res of
        Inl err \<Rightarrow> if errors_Is err EthereumNotFound then go_fail (NotFound ''transaction was not found'') else go_fail err
      | Inr found \<Rightarrow>
          (case found of
             (None, pending) \<Rightarrow> go_fail (NotFound ''transaction was not found'')
           | (Some tx, pending) \<Rightarrow>
               record_transaction P done' E s x (ch_RequiredConfirmations cfg) ?hash tx pending)) st3 = Returned (Inr y, st')"
      by (simp add: queryChainTransaction_def go_try_eq) blast
    then obtain tx pending where res: "res = Inr (Some tx, pending)"
      by (cases res; cases "fst (projr res)"; cases "projr res") (auto simp: go_fail_eq split: if_splits)
    with k have rt: "record_transaction P done' E s x (ch_RequiredConfirmations cfg) ?hash tx pending st3 = Returned (Inr y, st')"
      by simp
    note y = record_transaction_Inr [OF assms(2) rt]
    have m: "fst st2 = fst st" using f(2) x(7) by simp
    have nodes: "same_nodes (fst st) (fst st3)" using Execute_same_nodes [OF read] m by simp
    have tx: "said (fst st) (gt_ChainId r) (\<lambda>c. cl_TransactionByHash c ?hash) (Some tx, pending)"
      using Execute_said [OF read [unfolded res]] m chain by simp
    have mined: "mined_as E (fst st) (ch_RequiredConfirmations cfg) y"
      using y(8) unfolding mined_as_def same_nodes_said [OF nodes] .
    have ch: "Chain (fst st) (gt_ChainId r) = Some cfg" using cfg m chain by simp
    obtain table z where t: "tr_TableName (xr_router (xs_transactions s)) (w_ID x) = Inr table"
      "z \<in> set (rows table (snd st'))" "tx_key z = tx_key y" using y(10) by blast
    have none: "\<not> (\<exists>z \<in> set (rows table (snd st)). asked (w_ID x) (gt_ChainId r) (evm_HashHex E ?hash) z)"
      using FindByHash_missing [OF assms(2) f(1) [unfolded Inl] missing t(1)] unfolding same [symmetric] by blast
    have ask: "asked (w_ID x) (gt_ChainId r) (evm_HashHex E ?hash) y" using y(1-3) chain by (simp add: asked_def)
    have evidence: "\<exists>cfg tx pending. Chain (fst st) (gt_ChainId r) = Some cfg
              \<and> said (fst st) (gt_ChainId r) (\<lambda>c. cl_TransactionByHash c ?hash) (Some tx, pending)
              \<and> transactionSender E tx = Inr (wt_FromAddress y) \<and> wt_ToAddress y = to_address E tx
              \<and> wt_ValueRaw y = int_to_string (tx_Value tx)
              \<and> mined_as E (fst st) (ch_RequiredConfirmations cfg) y \<and> (pending \<longrightarrow> wt_Status y = TransactionStatusPending)"
      using ch tx y(5-7,9) mined by blast
    have stored: "\<exists>z \<in> set (rows table (snd st')). tx_key z = tx_key y" using t(2,3) by blast
    show ?thesis
      by (intro exI [of _ identity] exI [of _ table] exI [of _ ?hash] exI [of _ y] bexI [of _ x] conjI)
        (use none ask evidence stored y(4) t(1) c x(1-4) chain info in \<open>simp_all only: if_False simp_thms\<close>)
  qed
qed

text \<open>A world whose last component holds the transaction tables; the wallet of \<open>bound_sample\<close> has two
  transactions, in the table that the router gives.\<close>

type_synonym tx_state = "sample_state \<times> (string \<Rightarrow> WalletTransaction list)"

definition lift_wallets :: "Wallet list \<Rightarrow> tx_state WalletRepository" where
  "lift_wallets ws = \<lparr>wr_db = list_gorm (\<lambda>w. snd (fst w)) (\<lambda>rs w. ((fst (fst w), rs), snd w)) 7 (wallet_table (\<lambda>w. snd (fst w)))\<rparr>"

definition sample_txs :: "tx_state TransactionRepository" where
  "sample_txs = \<lparr>xr_db = (\<lambda>t. list_gorm_up (\<lambda>w. snd w t) (\<lambda>rs w. (fst w, (snd w)(t := rs))) 7 (tx_table (\<lambda>w. snd w t))),
     xr_router = NewTransactionRouter\<rparr>"

definition sample_tx :: "string \<Rightarrow> int \<Rightarrow> time \<Rightarrow> WalletTransaction" where
  "sample_tx i event t = \<lparr>wt_ID = i, wt_WalletID = ''id'', wt_ChainID = 1, wt_TransactionHash = ''aa'', wt_EventIndex = event,
     wt_Direction = 1, wt_FromAddress = [], wt_ToAddress = ''ABC'', wt_ValueRaw = ''1'', wt_TokenContract = None,
     wt_BlockNumber = Some 5, wt_BlockHash = None, wt_Confirmations = 12, wt_Status = 2, wt_BlockTime = Some t,
     wt_FirstSeenAt = t, wt_UpdatedAt = t\<rparr>"

definition sample_tx_service :: "tx_state TransactionService" where
  "sample_tx_service = \<lparr>xs_wallets = lift_wallets [], xs_transactions = sample_txs\<rparr>"

definition sample_tx_world :: tx_state where
  "sample_tx_world = (([], [bound_sample]), \<lambda>t. if Inr t = tr_TableName NewTransactionRouter ''id''
     then [sample_tx ''t1'' (-1) 10, sample_tx ''t2'' 3 20] else [])"

lemma sample_txs_ok: "tx_repo_ok sample_txs (\<lambda>t w. snd w t)"
  unfolding tx_repo_ok_def
proof (intro conjI allI impI)
  show "gorm_up_ok (xr_db sample_txs t) (tx_table (\<lambda>w. snd w t))" for t
    unfolding sample_txs_def TransactionRepository.simps by (rule list_gorm_up_ok) simp_all
qed (auto simp: sample_txs_def list_gorm_up_def gorm.extend_def gorm_up.fields_def list_gorm_def split: list.splits)

lemma sample_wallets_ok: "repo_ok (lift_wallets ws) (\<lambda>w. snd (fst w))"
  by (simp add: repo_ok_def lift_wallets_def list_gorm_ok)

lemma sample_find: "wr_FindByID (lift_wallets ws) u i w = (res, w') \<Longrightarrow> w' = w"
  "wr_FindByID (lift_wallets ws) ''u'' ''id'' sample_tx_world = (Inr bound_sample, sample_tx_world)"
  by (auto simp: wr_FindByID_def lift_wallets_def list_gorm_def sample_tx_world_def bound_sample_def sort_by_def
      split: list.splits)

lemma sample_id_trim: "TrimSpace ''id'' = ''id''" by (rule TrimSpace_plain) (simp add: plain_char_def)

lemma sample_table: "\<exists>t. tr_TableName NewTransactionRouter ''id'' = Inr t"
  by (simp add: tr_TableName_def tr_TableIndex_def sample_id_trim Let_def)

lemma sample_activeWallet:
  "i = 0 \<or> i = 1 \<Longrightarrow> activeWallet sample_tx_service ''u'' ''id'' i (m, sample_tx_world) = Returned (Inr bound_sample, (m, sample_tx_world))"
  by (auto simp: activeWallet_def go_try_def go_call_def in_world_def sample_tx_service_def sample_find(2) bound_sample_def
      go_return_def)

lemma sample_GetTransactions:
  "\<exists>resp st'. GetTransactions sample_tx_service (Some sample_user) (Some \<lparr>gts_WalletId = ''id'', gts_Page = 1, gts_PageSize = 1,
    gts_Status = 0\<rparr>) (quiet_manager, sample_tx_world) = Returned (Inr resp, st') \<and> gtr_Total resp = 2 \<and> gtr_PageSize resp = 1"
proof -
  obtain t where t: "tr_TableName NewTransactionRouter ''id'' = Inr t" using sample_table by blast
  have rows: "snd sample_tx_world t = [sample_tx ''t1'' (-1) 10, sample_tx ''t2'' 3 20]"
    by (simp add: sample_tx_world_def t)
  have db: "g_count (xr_db sample_txs t) P w = (Inr (length (filter P (snd w t))), w)"
    "g_page (xr_db sample_txs t) P before i j w = (Inr (take (nat j) (drop (nat i) (sort_by before (filter P (snd w t))))), w)" for P before i j w
    by (simp_all add: sample_txs_def list_gorm_up_def gorm.extend_def gorm_up.fields_def list_gorm_def)
  have r: "xr_router sample_txs = NewTransactionRouter" by (simp add: sample_txs_def)
  have "\<exists>xs. xr_ListByWallet sample_txs ''id'' 0 1 1 sample_tx_world = (Inr (xs, 2), sample_tx_world)"
    by (simp add: xr_ListByWallet_def r t db rows listed_def sample_tx_def)
  then obtain xs where "xr_ListByWallet sample_txs ''id'' 0 1 1 sample_tx_world = (Inr (xs, 2), sample_tx_world)" by blast
  moreover have "xs_transactions sample_tx_service = sample_txs" by (simp add: sample_tx_service_def)
  moreover have "requireIdentity (Some sample_user) = Inr sample_user" "id_Subject sample_user = ''u''"
    by (simp_all add: requireIdentity_Inr sample_user_def zero_identity_def)
  moreover have "normalizeTransactionPage 1 1 = (1, 1)" by (simp add: normalizeTransactionPage_def maxTransactionPageSize_def)
  ultimately show ?thesis
    by (simp add: GetTransactions_def sample_id_trim transactionStatusFromProto_def go_bind_def [of "activeWallet _ _ _ _"]
        go_bind_def [of "go_call _"] go_try_def sample_activeWallet go_call_def in_world_def go_return_def
        bound_sample_def [THEN arg_cong [where f = w_ID], simplified])
qed

theorem GetTransactions_page_witness:
  "\<exists>resp st' ys status. GetTransactions sample_tx_service (Some sample_user) (Some \<lparr>gts_WalletId = ''id'', gts_Page = 1, gts_PageSize = 1,
      gts_Status = 0\<rparr>) (quiet_manager, sample_tx_world) = Returned (Inr resp, st')
    \<and> gtr_Total resp = 2 \<and> gtr_Transactions resp = map (\<lambda>x. transactionToProto (Some x)) (take 1 (drop 0 ys)) \<and> length ys = 2"
proof -
  from sample_GetTransactions obtain resp st' where run: "GetTransactions sample_tx_service (Some sample_user)
      (Some \<lparr>gts_WalletId = ''id'', gts_Page = 1, gts_PageSize = 1, gts_Status = 0\<rparr>) (quiet_manager, sample_tx_world) = Returned (Inr resp, st')"
    "gtr_Total resp = 2" "gtr_PageSize resp = 1" by blast
  have ok: "repo_ok (xs_wallets sample_tx_service) (\<lambda>w. snd (fst w))" "tx_repo_ok (xs_transactions sample_tx_service) (\<lambda>t w. snd w t)"
    using sample_wallets_ok sample_txs_ok by (simp_all add: sample_tx_service_def)
  have frame: "snd (snd (wr_FindByID (xs_wallets sample_tx_service) u i w)) t = snd w t" for u i w t
    using sample_find(1) [of "[]" u i w] by (cases "wr_FindByID (lift_wallets []) u i w") (simp add: sample_tx_service_def)
  have norm: "normalizeTransactionPage 1 1 = (1, 1)" by (simp add: normalizeTransactionPage_def maxTransactionPageSize_def)
  have "gts_Page \<lparr>gts_WalletId = ''id'', gts_Page = 1, gts_PageSize = 1, gts_Status = 0\<rparr> < 2 ^ 31" by simp
  from GetTransactions_page [OF ok, OF frame this run(1)] obtain ys where
    "gtr_Transactions resp = map (\<lambda>x. transactionToProto (Some x))
        (take (nat (gtr_PageSize resp)) (drop (nat ((gtr_Page resp - 1) * gtr_PageSize resp)) ys))"
    "gtr_Total resp = int (length ys)" "normalizeTransactionPage 1 1 = (gtr_Page resp, gtr_PageSize resp)"
    unfolding GetTransactionsRequest.simps by blast
  with run norm show ?thesis by (intro exI [of _ resp] exI [of _ st'] exI [of _ ys]) simp
qed

definition sample_get :: GetTransactionRequest where
  "sample_get = \<lparr>gt_ChainId = 1, gt_TransactionHash = ''aa'', gt_WalletId = ''id''\<rparr>"

lemma sample_GetTransaction:
  "\<exists>info. GetTransaction sample_platform (\<lambda>_. None) sample_evm sample_tx_service (Some sample_user) (Some sample_get)
    (quiet_manager, sample_tx_world) = Returned (Inr info, (quiet_manager, sample_tx_world))"
proof -
  obtain t where t: "tr_TableName NewTransactionRouter ''id'' = Inr t" using sample_table by blast
  have rows: "snd sample_tx_world t = [sample_tx ''t1'' (-1) 10, sample_tx ''t2'' 3 20]"
    by (simp add: sample_tx_world_def t)
  have r: "xr_router sample_txs = NewTransactionRouter" by (simp add: sample_txs_def)
  have db: "g_first (xr_db sample_txs t) P before w = (case sort_by before (filter P (snd w t)) of [] \<Rightarrow> (Inl not_found, w) | x # _ \<Rightarrow> (Inr x, w))" for P before w
    by (simp add: sample_txs_def list_gorm_up_def gorm.extend_def gorm_up.fields_def list_gorm_def)
  have "evm_HashHex sample_evm (evm_HexToHash sample_evm ''aa'') = ''aa''" by code_simp
  moreover have "evm_IsHexHash sample_evm ''aa''" by (simp add: sample_evm_def)
  ultimately have h: "evm_HashHex sample_evm (evm_HexToHash sample_evm ''aa'') = ''aa''" "evm_IsHexHash sample_evm ''aa''" by blast+
  have f: "xr_FindByHash sample_txs ''id'' 1 ''aa'' sample_tx_world = (Inr (sample_tx ''t1'' (-1) 10), sample_tx_world)"
    by (simp add: xr_FindByHash_def r t db rows sample_tx_def event_first_def sort_by_def)
  have "requireIdentity (Some sample_user) = Inr sample_user" "id_Subject sample_user = ''u''" "w_ID bound_sample = ''id''"
    "xs_transactions sample_tx_service = sample_txs"
    by (simp_all add: requireIdentity_Inr sample_user_def zero_identity_def bound_sample_def sample_tx_service_def)
  then show ?thesis
    by (simp add: GetTransaction_def sample_get_def sample_id_trim go_bind_def [of "activeWallet _ _ _ _"] h Let_def
        go_try_def sample_activeWallet go_call_def in_world_def go_return_def f)
qed

theorem GetTransaction_own_witness:
  "\<exists>info table x. GetTransaction sample_platform (\<lambda>_. None) sample_evm sample_tx_service (Some sample_user) (Some sample_get)
    (quiet_manager, sample_tx_world) = Returned (Inr info, (quiet_manager, sample_tx_world))
    \<and> x \<in> set (snd sample_tx_world table) \<and> wt_WalletID x = ''id'' \<and> wt_EventIndex x = - 1 \<and> info = transactionToProto (Some x)"
proof -
  from sample_GetTransaction obtain info where run: "GetTransaction sample_platform (\<lambda>_. None) sample_evm sample_tx_service
    (Some sample_user) (Some sample_get) (quiet_manager, sample_tx_world) = Returned (Inr info, (quiet_manager, sample_tx_world))" by blast
  have ok: "repo_ok (xs_wallets sample_tx_service) (\<lambda>w. snd (fst w))" "tx_repo_ok (xs_transactions sample_tx_service) (\<lambda>t w. snd w t)"
    using sample_wallets_ok sample_txs_ok by (simp_all add: sample_tx_service_def)
  have frame: "snd (snd (wr_FindByID (xs_wallets sample_tx_service) u i w)) t = snd w t" for u i w t
    using sample_find(1) [of "[]" u i w] by (cases "wr_FindByID (lift_wallets []) u i w") (simp add: sample_tx_service_def)
  have aa: "evm_HashHex sample_evm (evm_HexToHash sample_evm ''aa'') = ''aa''" by code_simp
  from GetTransaction_own [OF ok, OF frame run] obtain table and x :: WalletTransaction where
    t: "tr_TableName NewTransactionRouter ''id'' = Inr table" and info: "info = transactionToProto (Some x)"
    and x: "if \<exists>z \<in> set (snd sample_tx_world table). asked ''id'' 1 ''aa'' z
      then x \<in> set (snd sample_tx_world table) \<and> (\<forall>z \<in> set (snd sample_tx_world table). asked ''id'' 1 ''aa'' z
              \<longrightarrow> wt_EventIndex x \<le> wt_EventIndex z) else True"
    by (auto simp: sample_get_def sample_tx_service_def sample_txs_def aa split: if_splits)
  have rows: "snd sample_tx_world table = [sample_tx ''t1'' (-1) 10, sample_tx ''t2'' 3 20]"
    by (simp add: sample_tx_world_def t)
  have "x = sample_tx ''t1'' (-1) 10" using x unfolding rows by (auto simp: asked_def sample_tx_def)
  then have "x \<in> set (snd sample_tx_world table)" "wt_WalletID x = ''id''" "wt_EventIndex x = - 1"
    unfolding rows by (simp_all add: sample_tx_def)
  with run info show ?thesis by blast
qed

end
