(* ===== verification/Scanner_Repo.thy ===== *)
theory Scanner_Repo
  imports Gorm_Upsert Wallet_Repo
begin

text \<open>
  The scanner's tables: \<open>web3/internal/model/scanner.go\<close> and \<open>web3/internal/repository/scanner.go\<close>. A
  handle per table; \<open>cursor_of\<close> reads the cursor of a chain off the rows.
\<close>

record ChainScanCursor =
  cu_ChainID :: u64
  cu_BlockNumber :: int
  cu_BlockHash :: string
  cu_LastScannedAt :: time
  cu_UpdatedAt :: time

type_synonym ChainEventStatus = int

definition ChainEventStatusPending :: ChainEventStatus where "ChainEventStatusPending = 1"
definition ChainEventStatusProcessed :: ChainEventStatus where "ChainEventStatusProcessed = 2"
definition ChainEventStatusFailed :: ChainEventStatus where "ChainEventStatusFailed = 3"
definition ChainEventStatusReorged :: ChainEventStatus where "ChainEventStatusReorged = 4"

record ChainEventReceipt =
  ev_ID :: string
  ev_ChainID :: u64
  ev_TransactionHash :: string
  ev_LogIndex :: u32
  ev_BlockNumber :: int
  ev_BlockHash :: string
  ev_ContractAddress :: string
  ev_Topic0 :: string
  ev_Payload :: string
  ev_Status :: ChainEventStatus
  ev_RetryCount :: int
  ev_LastError :: string
  ev_ObservedAt :: time
  ev_ProcessedAt :: "time option"
  ev_CreatedAt :: time
  ev_UpdatedAt :: time

definition event_key :: "ChainEventReceipt \<Rightarrow> u64 \<times> string \<times> u32" where
  "event_key e = (ev_ChainID e, ev_TransactionHash e, ev_LogIndex e)"

definition cursor_table :: "('db \<Rightarrow> ChainScanCursor list) \<Rightarrow> ('db, ChainScanCursor) table_spec" where
  "cursor_table rows =
    \<lparr>t_rows = rows, t_conflict = (\<lambda>x y. cu_ChainID x = cu_ChainID y),
     t_fill = (\<lambda>t x. x\<lparr>cu_UpdatedAt := (if cu_UpdatedAt x = zero_time then t else cu_UpdatedAt x)\<rparr>),
     t_touch = (\<lambda>t x. x\<lparr>cu_UpdatedAt := t\<rparr>)\<rparr>"

definition event_table :: "('db \<Rightarrow> ChainEventReceipt list) \<Rightarrow> ('db, ChainEventReceipt) table_spec" where
  "event_table rows =
    \<lparr>t_rows = rows, t_conflict = (\<lambda>x y. ev_ID x = ev_ID y \<or> event_key x = event_key y),
     t_fill = (\<lambda>t x. x\<lparr>ev_CreatedAt := (if ev_CreatedAt x = zero_time then t else ev_CreatedAt x),
                       ev_UpdatedAt := (if ev_UpdatedAt x = zero_time then t else ev_UpdatedAt x)\<rparr>),
     t_touch = (\<lambda>t x. x\<lparr>ev_UpdatedAt := t\<rparr>)\<rparr>"

record 'db ScannerRepository =
  sr_cursors :: "('db, ChainScanCursor, unit) gorm_up"
  sr_events :: "('db, ChainEventReceipt, unit) gorm_up"

section \<open>Operations\<close>

definition sr_GetCursor :: "'db ScannerRepository \<Rightarrow> u64 \<Rightarrow> 'db \<Rightarrow> (go_error + ChainScanCursor) \<times> 'db" where
  "sr_GetCursor r chainID db = g_first (sr_cursors r) (\<lambda>x. cu_ChainID x = chainID) (\<lambda>_ _. False) db"

definition move_cursor :: "ChainScanCursor \<Rightarrow> ChainScanCursor \<Rightarrow> ChainScanCursor" where
  "move_cursor x y = x\<lparr>cu_BlockNumber := cu_BlockNumber y, cu_BlockHash := cu_BlockHash y,
     cu_LastScannedAt := cu_LastScannedAt y, cu_UpdatedAt := cu_UpdatedAt y\<rparr>"

definition sr_SaveCursor :: "'db ScannerRepository \<Rightarrow> ChainScanCursor \<Rightarrow> 'db \<Rightarrow> go_error option \<times> 'db" where
  "sr_SaveCursor r cursor db =
    g_upsert (sr_cursors r) (\<lambda>x y. cu_ChainID x = cu_ChainID y) move_cursor cursor db"

definition sr_CreateEventIfAbsent :: "'db ScannerRepository \<Rightarrow> ChainEventReceipt \<Rightarrow> 'db \<Rightarrow> (go_error + bool) \<times> 'db" where
  "sr_CreateEventIfAbsent r event db =
    (case g_insert_ignore (sr_events r) event db of
       (Inl err, db) \<Rightarrow> (Inl err, db)
     | (Inr rowsAffected, db) \<Rightarrow> (Inr (rowsAffected = 1), db))"

definition sr_MarkEventProcessed :: "'db ScannerRepository \<Rightarrow> string \<Rightarrow> time \<Rightarrow> 'db \<Rightarrow> go_error option \<times> 'db" where
  "sr_MarkEventProcessed r eventID processedAt db =
    (case g_update (sr_events r) (\<lambda>x. ev_ID x = eventID)
        (\<lambda>x. x\<lparr>ev_Status := ChainEventStatusProcessed, ev_ProcessedAt := Some processedAt, ev_LastError := []\<rparr>) db of
       (Inl err, db) \<Rightarrow> (Some err, db)
     | (Inr rowsAffected, db) \<Rightarrow> if rowsAffected = 0 then (Some not_found, db) else (None, db))"

definition sr_MarkEventFailed :: "'db ScannerRepository \<Rightarrow> string \<Rightarrow> string \<Rightarrow> 'db \<Rightarrow> go_error option \<times> 'db" where
  "sr_MarkEventFailed r eventID failure db =
    (case g_update (sr_events r) (\<lambda>x. ev_ID x = eventID)
        (\<lambda>x. x\<lparr>ev_Status := ChainEventStatusFailed, ev_LastError := failure, ev_RetryCount := ev_RetryCount x + 1\<rparr>) db of
       (Inl err, db) \<Rightarrow> (Some err, db)
     | (Inr rowsAffected, db) \<Rightarrow> if rowsAffected = 0 then (Some not_found, db) else (None, db))"

section \<open>Lemmas\<close>

lemma scanner_table_simps [simp]:
  "t_rows (cursor_table rows) = rows" "t_rows (event_table rows') = rows'"
  "t_conflict (event_table rows') x y \<longleftrightarrow> ev_ID x = ev_ID y \<or> event_key x = event_key y"
  "cu_ChainID (t_fill (cursor_table rows) t c) = cu_ChainID c" "cu_BlockNumber (t_fill (cursor_table rows) t c) = cu_BlockNumber c"
  "event_key (t_fill (event_table rows') t e) = event_key e" "event_key (t_touch (event_table rows') t e) = event_key e"
  by (simp_all add: cursor_table_def event_table_def event_key_def)

definition scanner_ok :: "'db ScannerRepository \<Rightarrow> ('db \<Rightarrow> ChainScanCursor list) \<Rightarrow> ('db \<Rightarrow> ChainEventReceipt list) \<Rightarrow> bool" where
  "scanner_ok r curs evs \<longleftrightarrow> gorm_up_ok (sr_cursors r) (cursor_table curs) \<and> gorm_up_ok (sr_events r) (event_table evs)"

text \<open>The position of a chain: the block number of its cursor, if it has one. At most one row per chain.\<close>

definition cursor_of :: "ChainScanCursor list \<Rightarrow> u64 \<Rightarrow> int option" where
  "cursor_of cs i = map_option cu_BlockNumber (find (\<lambda>x. cu_ChainID x = i) cs)"

definition cursors_inv :: "ChainScanCursor list \<Rightarrow> bool" where
  "cursors_inv cs \<longleftrightarrow> distinct (map cu_ChainID cs)"

definition events_inv :: "ChainEventReceipt list \<Rightarrow> bool" where
  "events_inv es \<longleftrightarrow> distinct (map event_key es)"

lemma find_unique:
  assumes "distinct (map f xs)" "x \<in> set xs"
  shows "find (\<lambda>y. f y = f x) xs = Some x"
  using assms by (induction xs) (auto simp: image_iff)

lemma GetCursor_Inr:
  assumes "scanner_ok r curs evs" "sr_GetCursor r i db = (Inr x, db')" "cursors_inv (curs db)"
  shows "cursor_of (curs db) i = Some (cu_BlockNumber x)" "curs db' = curs db"
proof -
  have ok: "gorm_ok (gorm.truncate (sr_cursors r)) (cursor_table curs)"
    using assms(1) by (simp add: scanner_ok_def up_truncate)
  have "g_first (gorm.truncate (sr_cursors r)) (\<lambda>x. cu_ChainID x = i) (\<lambda>_ _. False) db = (Inr x, db')"
    using assms(2) by (simp add: sr_GetCursor_def)
  from first_Inr [OF ok this] have x: "curs db' = curs db" "x \<in> set (curs db)" "cu_ChainID x = i" by simp_all
  with find_unique [of cu_ChainID "curs db" x] assms(3) show "cursor_of (curs db) i = Some (cu_BlockNumber x)" "curs db' = curs db"
    by (simp_all add: cursor_of_def cursors_inv_def)
qed

lemma GetCursor_rows:
  assumes "scanner_ok r curs evs" "sr_GetCursor r i db = (res, db')"
  shows "curs db' = curs db" "res = Inl e \<Longrightarrow> errors_Is e ErrRecordNotFound \<Longrightarrow> cursor_of (curs db) i = None"
proof -
  have ok: "gorm_ok (gorm.truncate (sr_cursors r)) (cursor_table curs)"
    using assms(1) by (simp add: scanner_ok_def up_truncate)
  have g: "g_first (gorm.truncate (sr_cursors r)) (\<lambda>x. cu_ChainID x = i) (\<lambda>_ _. False) db = (res, db')"
    using assms(2) by (simp add: sr_GetCursor_def)
  from first_rows [OF ok g] show "curs db' = curs db" by simp
  show "cursor_of (curs db) i = None" if "res = Inl e" "errors_Is e ErrRecordNotFound"
    using first_missing [OF ok _ that(2)] g that(1) by (fastforce simp: cursor_of_def find_None_iff)
qed

lemma SaveCursor_None:
  assumes "scanner_ok r curs evs" "sr_SaveCursor r c db = (None, db')" "cursors_inv (curs db)"
  shows "cursors_inv (curs db')" "cursor_of (curs db') (cu_ChainID c) = Some (cu_BlockNumber c)"
    "i \<noteq> cu_ChainID c \<Longrightarrow> cursor_of (curs db') i = cursor_of (curs db) i"
proof -
  have up: "gorm_up_ok (sr_cursors r) (cursor_table curs)" using assms(1) by (simp add: scanner_ok_def)
  from upsert_None [OF up assms(2) [unfolded sr_SaveCursor_def]] obtain y where
    y: "cu_ChainID y = cu_ChainID c" "cu_BlockNumber y = cu_BlockNumber c"
    and rows: "curs db' = upserted (\<lambda>x y. cu_ChainID x = cu_ChainID y) move_cursor y (curs db)"
    by (metis scanner_table_simps(1,4,5))
  have id: "cu_ChainID (if cu_ChainID x = cu_ChainID y then move_cursor x y else x) = cu_ChainID x" for x
    by (simp add: move_cursor_def)
  show "cursors_inv (curs db')"
    using assms(3) unfolding rows upserted_def cursors_inv_def
    by (auto simp: list_ex_iff o_def id)
  have find_map: "find (\<lambda>x. cu_ChainID x = i) (map (\<lambda>x. if cu_ChainID x = cu_ChainID y then move_cursor x y else x) cs) =
      map_option (\<lambda>x. if cu_ChainID x = cu_ChainID y then move_cursor x y else x) (find (\<lambda>x. cu_ChainID x = i) cs)" for cs i
    by (induction cs) (auto simp: move_cursor_def)
  show "cursor_of (curs db') (cu_ChainID c) = Some (cu_BlockNumber c)"
  proof (cases "find (\<lambda>x. cu_ChainID x = cu_ChainID c) (curs db)")
    case None
    then have "\<not> list_ex (\<lambda>x. cu_ChainID x = cu_ChainID y) (curs db)" by (auto simp: find_None_iff list_ex_iff y)
    with None show ?thesis unfolding rows upserted_def cursor_of_def by (simp add: find_append y)
  next
    case (Some x)
    then have x: "cu_ChainID x = cu_ChainID c" "x \<in> set (curs db)" by (auto simp: find_Some_iff)
    then have "list_ex (\<lambda>x. cu_ChainID x = cu_ChainID y) (curs db)" by (auto simp: list_ex_iff y)
    with x(1) show ?thesis unfolding rows upserted_def cursor_of_def by (simp add: find_map [unfolded y(1)] Some y move_cursor_def)
  qed
  show "cursor_of (curs db') i = cursor_of (curs db) i" if "i \<noteq> cu_ChainID c"
  proof -
    have "find (\<lambda>x. cu_ChainID x = i) (map (\<lambda>x. if cu_ChainID x = cu_ChainID c then move_cursor x y else x) cs)
        = find (\<lambda>x. cu_ChainID x = i) cs" for cs
      using that by (induction cs) (auto simp: move_cursor_def)
    with that show ?thesis
      unfolding rows upserted_def cursor_of_def y(1) by (simp add: find_append y(1) split: option.split)
  qed
qed

lemma SaveCursor_Some:
  "scanner_ok r curs evs \<Longrightarrow> sr_SaveCursor r c db = (Some e, db') \<Longrightarrow> curs db' = curs db"
  unfolding sr_SaveCursor_def scanner_ok_def using upsert_Some by fastforce

lemma event_ops_inv:
  assumes "scanner_ok r curs evs" "events_inv (evs db)"
  shows "sr_CreateEventIfAbsent r e db = (created, db') \<Longrightarrow> events_inv (evs db')"
    and "sr_MarkEventProcessed r i t db = (err, db') \<Longrightarrow> events_inv (evs db')"
    and "sr_MarkEventFailed r i msg db = (err, db') \<Longrightarrow> events_inv (evs db')"
proof -
  have up: "gorm_up_ok (sr_events r) (event_table evs)" using assms(1) by (simp add: scanner_ok_def)
  have upd: "events_inv (evs db')"
    if "g_update (sr_events r) P f db = (res, db')" "\<And>x. event_key (f x) = event_key x" for P f res db'
  proof (cases res)
    case (Inl e)
    with that(1) update_Inl [OF up_truncate [OF up], of P f db e db'] assms(2) show ?thesis by simp
  next
    case (Inr n)
    with that(1) obtain t where rows: "evs db' = map (\<lambda>r. if P r then t_touch (event_table evs) t (f r) else r) (evs db)"
      using update_Inr [OF up_truncate [OF up], of P f db n db'] by (metis scanner_table_simps(2) truncate_ops(5))
    have "map event_key (evs db') = map event_key (evs db)" unfolding rows using that(2) by simp
    with assms(2) show ?thesis by (simp add: events_inv_def)
  qed
  show "events_inv (evs db')" if create: "sr_CreateEventIfAbsent r e db = (created, db')"
  proof -
    obtain res where ins: "g_insert_ignore (sr_events r) e db = (res, db')"
      using create by (auto simp: sr_CreateEventIfAbsent_def split: prod.splits sum.splits)
    show ?thesis
    proof (cases res)
      case (Inl err)
      with ins insert_ignore_Inl [OF up] assms(2) show ?thesis by fastforce
    next
      case (Inr n)
      with ins have ins: "g_insert_ignore (sr_events r) e db = (Inr n, db')" by simp
      from up ins show ?thesis
      proof (cases rule: insert_ignore_Inr)
        case (present t x)
        with assms(2) show ?thesis by simp
      next
        case (added t)
        with assms(2) show ?thesis by (auto simp: events_inv_def)
      qed
    qed
  qed
  show "events_inv (evs db')" if "sr_MarkEventProcessed r i t db = (err, db')"
  proof -
    obtain res db1 where u: "g_update (sr_events r) (\<lambda>x. ev_ID x = i)
        (\<lambda>x. x\<lparr>ev_Status := ChainEventStatusProcessed, ev_ProcessedAt := Some t, ev_LastError := []\<rparr>) db = (res, db1)" by fastforce
    with that have "db1 = db'" by (cases res) (auto simp: sr_MarkEventProcessed_def split: if_splits)
    with u have u: "g_update (sr_events r) (\<lambda>x. ev_ID x = i) (\<lambda>x. x\<lparr>ev_Status := ChainEventStatusProcessed, ev_ProcessedAt := Some t, ev_LastError := []\<rparr>) db = (res, db')" by simp
    show ?thesis by (rule upd [OF u]) (simp add: event_key_def)
  qed
  show "events_inv (evs db')" if "sr_MarkEventFailed r i msg db = (err, db')"
  proof -
    obtain res db1 where u: "g_update (sr_events r) (\<lambda>x. ev_ID x = i)
        (\<lambda>x. x\<lparr>ev_Status := ChainEventStatusFailed, ev_LastError := msg, ev_RetryCount := ev_RetryCount x + 1\<rparr>) db = (res, db1)" by fastforce
    with that have "db1 = db'" by (cases res) (auto simp: sr_MarkEventFailed_def split: if_splits)
    with u have u: "g_update (sr_events r) (\<lambda>x. ev_ID x = i) (\<lambda>x. x\<lparr>ev_Status := ChainEventStatusFailed, ev_LastError := msg, ev_RetryCount := ev_RetryCount x + 1\<rparr>) db = (res, db')" by simp
    show ?thesis by (rule upd [OF u]) (simp add: event_key_def)
  qed
qed

end
