(* ===== verification/Scanner_Service.thy ===== *)
theory Scanner_Service
  imports Transaction_Service Scanner_Repo
begin

text \<open>
  The chain scanner, \<open>web3/internal/service/scanner.go\<close>: from the cursor of a chain it scans the
  blocks that have the required confirmations, one after the other; native transfers and ERC-20
  \<open>Transfer\<close> logs of bound wallets become transaction snapshots. Go maps are association lists without
  duplicate keys; \<open>ord\<close> is the order of an iteration over the wallets of a transfer. Logging is left
  out. \<open>ScanChainOnce\<close> returns the number of blocks also when it fails.
\<close>

record 'w ScannerService =
  ss_wallets :: "'w WalletRepository"
  ss_transactions :: "'w TransactionRepository"
  ss_cursors :: "'w ScannerRepository"
  ss_config :: ScannerConfig

text \<open>The clock and \<open>uuid\<close>, the library functions, the context, the JSON encoder of string maps and the
  order of map iterations.\<close>

record 'w scanner_env =
  se_platform :: "'w platform"
  se_evm :: evm
  se_done :: "'w \<Rightarrow> go_error option"
  se_marshal :: "(string \<times> string) list \<Rightarrow> go_error + string"
  se_errtext :: "go_error \<Rightarrow> string"
  se_order :: "(string \<times> Wallet) list \<Rightarrow> (string \<times> Wallet) list"

definition NewScannerService :: "'w WalletRepository option \<Rightarrow> 'w TransactionRepository option \<Rightarrow> 'w ScannerRepository option
    \<Rightarrow> bool \<Rightarrow> ScannerConfig \<Rightarrow> go_error + 'w ScannerService" where
  "NewScannerService wallets transactions cursors hasChains scannerConfig =
    (case (wallets, transactions, cursors, hasChains) of
       (Some v, Some x, Some c, True) \<Rightarrow>
         if scan_BatchSize scannerConfig \<le> 0 then Inl (InvalidArgument ''scanner batch size is invalid'')
         else Inr \<lparr>ss_wallets = v, ss_transactions = x, ss_cursors = c, ss_config = scannerConfig\<rparr>
     | _ \<Rightarrow> Inl (InvalidArgument ''scanner service dependencies are incomplete''))"

section \<open>Chain reads\<close>

definition latestBlock :: "'w scanner_env \<Rightarrow> u64 \<Rightarrow> ('w chain_state, u64) go" where
  "latestBlock A chainID = Execute (se_done A) chainID cl_BlockNumber"

definition blockByNumber :: "'w scanner_env \<Rightarrow> u64 \<Rightarrow> u64 \<Rightarrow> ('w chain_state, Block) go" where
  "blockByNumber A chainID blockNumber =
    go_bind (Execute (se_done A) chainID (\<lambda>client. cl_BlockByNumber client blockNumber)) (\<lambda>block. case block of
        None \<Rightarrow> go_fail (NotFound (''block '' @ itoa (unat blockNumber) @ '' was not found''))
      | Some b \<Rightarrow> go_return b)"

definition minedTransactionStatus :: "'w scanner_env \<Rightarrow> u64 \<Rightarrow> Hash \<Rightarrow> ('w chain_state, TransactionStatus) go" where
  "minedTransactionStatus A chainID hash =
    go_bind (Execute (se_done A) chainID (\<lambda>client. cl_TransactionReceipt client hash)) (\<lambda>receipt. case receipt of
        None \<Rightarrow> go_fail (NotFound ''transaction receipt was not found'')
      | Some r \<Rightarrow> if rcp_Status r = 0 then go_return TransactionStatusFailed else go_return TransactionStatusConfirmed)"

section \<open>Native transfers\<close>

text \<open>\<open>for _, address := range []string{from, to}\<close>: the active wallets at the two addresses, by ID.\<close>

primrec collect_wallets :: "'w ScannerService \<Rightarrow> u64 \<Rightarrow> string list \<Rightarrow> (string \<times> Wallet) list
    \<Rightarrow> ('w chain_state, (string \<times> Wallet) list) go" where
  "collect_wallets s chainID [] wallets = go_return wallets"
| "collect_wallets s chainID (address # as) wallets =
    (if TrimSpace address = [] then collect_wallets s chainID as wallets
     else
       go_try (go_call (in_world (wr_FindByChainAddress (ss_wallets s) chainID address))) (\<lambda>found. case found of
           Inl findErr \<Rightarrow>
             if errors_Is findErr ErrRecordNotFound then collect_wallets s chainID as wallets else go_fail findErr
         | Inr wallet \<Rightarrow>
             collect_wallets s chainID as
               (if w_Status wallet = WalletStatusActive then AList.update (w_ID wallet) wallet wallets else wallets)))"

definition mined_native :: "evm \<Rightarrow> u64 \<Rightarrow> u64 \<Rightarrow> Block \<Rightarrow> Transaction \<Rightarrow> string \<Rightarrow> string \<Rightarrow> TransactionStatus \<Rightarrow> Wallet
    \<Rightarrow> TransactionDirection \<Rightarrow> time \<Rightarrow> string \<Rightarrow> WalletTransaction" where
  "mined_native E chainID latest block tx from_addr to_addr status wallet direction now uuid =
    \<lparr>wt_ID = uuid, wt_WalletID = w_ID wallet, wt_ChainID = chainID, wt_TransactionHash = evm_HashHex E (tx_Hash tx),
     wt_EventIndex = - 1, wt_Direction = direction, wt_FromAddress = from_addr, wt_ToAddress = to_addr,
     wt_ValueRaw = int_to_string (tx_Value tx), wt_TokenContract = None, wt_BlockNumber = Some (sint (bl_Number block)),
     wt_BlockHash = Some (evm_HashHex E (bl_Hash block)), wt_Confirmations = latest - bl_Number block + 1,
     wt_Status = status, wt_BlockTime = Some (unix_time (bl_Time block)), wt_FirstSeenAt = now, wt_UpdatedAt = now\<rparr>"

definition scanTransaction :: "'w scanner_env \<Rightarrow> 'w ScannerService \<Rightarrow> u64 \<Rightarrow> u64 \<Rightarrow> Block \<Rightarrow> Transaction
    \<Rightarrow> ('w chain_state, unit) go" where
  "scanTransaction A s chainID latest block tx =
    (case transactionSender (se_evm A) tx of
       Inl err \<Rightarrow> go_return ()
     | Inr from_addr \<Rightarrow>
         (let to_addr = to_address (se_evm A) tx
          in go_bind (collect_wallets s chainID [from_addr, to_addr] []) (\<lambda>wallets.
             if wallets = [] then go_return ()
             else
               go_bind (minedTransactionStatus A chainID (tx_Hash tx)) (\<lambda>status.
               go_for (se_order A wallets) (\<lambda>entry.
                 let wallet = snd entry
                 in case transactionDirection (w_Address wallet) from_addr to_addr of (direction, belongs) \<Rightarrow>
                   if \<not> belongs then go_return ()
                   else
                     go_bind (go_get (in_world (p_now (se_platform A)))) (\<lambda>now.
                     go_bind (go_get (in_world (p_uuid (se_platform A)))) (\<lambda>uuid.
                       go_call_err (in_world (xr_Upsert (ss_transactions s)
                         (mined_native (se_evm A) chainID latest block tx from_addr to_addr status wallet direction now uuid))))))))))"

section \<open>ERC-20 transfers\<close>

definition erc20TransferTopic :: "evm \<Rightarrow> Hash" where
  "erc20TransferTopic E = evm_Keccak256Hash E ''Transfer(address,address,uint256)''"

definition addressTopic :: "evm \<Rightarrow> Address \<Rightarrow> Hash" where
  "addressTopic E address = evm_BytesToHash E (evm_LeftPadBytes E address 32)"

definition topicAddress :: "evm \<Rightarrow> Hash \<Rightarrow> string" where
  "topicAddress E topic = evm_AddressHex E (evm_BytesToAddress E (drop (32 - 20) topic))"

text \<open>\<open>new(big.Int).SetBytes(data).String()\<close>\<close>

definition data_value :: "byte list \<Rightarrow> string" where
  "data_value bs = itoa (foldl (\<lambda>a b. 256 * a + unat b) 0 bs)"

definition log_key :: "evm \<Rightarrow> Log \<Rightarrow> string" where
  "log_key E lg = evm_HashHex E (log_TxHash lg) @ '':'' @ itoa (unat (log_Index lg))"

primrec dedupe_logs :: "evm \<Rightarrow> Log list \<Rightarrow> string list \<times> Log list \<Rightarrow> string list \<times> Log list" where
  "dedupe_logs E [] acc = acc"
| "dedupe_logs E (lg # logs) acc =
    (case acc of (seen, result) \<Rightarrow>
       if log_key E lg \<in> set seen then dedupe_logs E logs (seen, result)
       else dedupe_logs E logs (seen @ [log_key E lg], result @ [lg]))"

primrec run_queries :: "'w scanner_env \<Rightarrow> u64 \<Rightarrow> FilterQuery list \<Rightarrow> string list \<times> Log list
    \<Rightarrow> ('w chain_state, Log list) go" where
  "run_queries A chainID [] acc = go_return (snd acc)"
| "run_queries A chainID (q # qs) acc =
    go_bind (Execute (se_done A) chainID (\<lambda>client. cl_FilterLogs client q)) (\<lambda>logs.
      run_queries A chainID qs (dedupe_logs (se_evm A) logs acc))"

definition transfer_queries :: "evm \<Rightarrow> u64 \<Rightarrow> Hash list \<Rightarrow> FilterQuery list" where
  "transfer_queries E blockNumber walletTopics =
    [\<lparr>fq_FromBlock = blockNumber, fq_ToBlock = blockNumber,
      fq_Topics = [Some [erc20TransferTopic E], Some walletTopics, None]\<rparr>,
     \<lparr>fq_FromBlock = blockNumber, fq_ToBlock = blockNumber,
      fq_Topics = [Some [erc20TransferTopic E], None, Some walletTopics]\<rparr>]"

definition transferLogs :: "'w scanner_env \<Rightarrow> u64 \<Rightarrow> u64 \<Rightarrow> Hash list \<Rightarrow> ('w chain_state, Log list) go" where
  "transferLogs A chainID blockNumber walletTopics =
    run_queries A chainID (transfer_queries (se_evm A) blockNumber walletTopics) ([], [])"

text \<open>The wallets of a log, by ID.\<close>

definition participants :: "(string \<times> Wallet) list \<Rightarrow> string \<Rightarrow> string \<Rightarrow> (string \<times> Wallet) list" where
  "participants walletByAddress from_addr to_addr =
    (let add = (\<lambda>address m. case map_of walletByAddress (ToLower address) of
         None \<Rightarrow> m | Some wallet \<Rightarrow> AList.update (w_ID wallet) wallet m)
     in add to_addr (add from_addr []))"

definition event_receipt :: "evm \<Rightarrow> u64 \<Rightarrow> Block \<Rightarrow> Log \<Rightarrow> string \<Rightarrow> string \<Rightarrow> time \<Rightarrow> ChainEventReceipt" where
  "event_receipt E chainID block lg eventID payload now =
    \<lparr>ev_ID = eventID, ev_ChainID = chainID, ev_TransactionHash = evm_HashHex E (log_TxHash lg),
     ev_LogIndex = ucast (log_Index lg), ev_BlockNumber = sint (bl_Number block),
     ev_BlockHash = evm_HashHex E (bl_Hash block), ev_ContractAddress = evm_AddressHex E (log_Address lg),
     ev_Topic0 = evm_HashHex E (erc20TransferTopic E), ev_Payload = payload, ev_Status = ChainEventStatusPending,
     ev_RetryCount = 0, ev_LastError = [], ev_ObservedAt = now, ev_ProcessedAt = None, ev_CreatedAt = now,
     ev_UpdatedAt = now\<rparr>"

definition mined_token :: "evm \<Rightarrow> u64 \<Rightarrow> u64 \<Rightarrow> Block \<Rightarrow> Log \<Rightarrow> string \<Rightarrow> string \<Rightarrow> TransactionStatus \<Rightarrow> Wallet
    \<Rightarrow> TransactionDirection \<Rightarrow> time \<Rightarrow> string \<Rightarrow> WalletTransaction" where
  "mined_token E chainID latest block lg from_addr to_addr status wallet direction now uuid =
    \<lparr>wt_ID = uuid, wt_WalletID = w_ID wallet, wt_ChainID = chainID, wt_TransactionHash = evm_HashHex E (log_TxHash lg),
     wt_EventIndex = sint (ucast (log_Index lg) :: u32), wt_Direction = direction, wt_FromAddress = from_addr,
     wt_ToAddress = to_addr, wt_ValueRaw = data_value (log_Data lg),
     wt_TokenContract = Some (evm_AddressHex E (log_Address lg)), wt_BlockNumber = Some (sint (bl_Number block)),
     wt_BlockHash = Some (evm_HashHex E (bl_Hash block)), wt_Confirmations = latest - bl_Number block + 1,
     wt_Status = status, wt_BlockTime = Some (unix_time (bl_Time block)), wt_FirstSeenAt = now, wt_UpdatedAt = now\<rparr>"

text \<open>The loop over the participants of a log, and the whole of \<open>persistTransferLog\<close>.\<close>

definition store_transfer :: "'w scanner_env \<Rightarrow> 'w ScannerService \<Rightarrow> u64 \<Rightarrow> u64 \<Rightarrow> Block \<Rightarrow> Log \<Rightarrow> string \<Rightarrow> string
    \<Rightarrow> string \<Rightarrow> TransactionStatus \<Rightarrow> time \<Rightarrow> Wallet \<Rightarrow> ('w chain_state, unit) go" where
  "store_transfer A s chainID latest block lg eventID from_addr to_addr status now wallet =
    (case transactionDirection (w_Address wallet) from_addr to_addr of (direction, belongs) \<Rightarrow>
       if \<not> belongs then go_return ()
       else
         go_bind (go_get (in_world (p_uuid (se_platform A)))) (\<lambda>uuid.
         go_try (go_call_err (in_world (xr_Upsert (ss_transactions s)
             (mined_token (se_evm A) chainID latest block lg from_addr to_addr status wallet direction now uuid))))
           (\<lambda>res. case res of
              Inr u \<Rightarrow> go_return ()
            | Inl err \<Rightarrow>
                go_try (go_call_err (in_world (sr_MarkEventFailed (ss_cursors s) eventID (se_errtext A err))))
                  (\<lambda>_. go_fail err))))"

definition persistTransferLog :: "'w scanner_env \<Rightarrow> 'w ScannerService \<Rightarrow> u64 \<Rightarrow> u64 \<Rightarrow> Block
    \<Rightarrow> (string \<times> Wallet) list \<Rightarrow> Log \<Rightarrow> ('w chain_state, unit) go" where
  "persistTransferLog A s chainID latest block walletByAddress lg =
    (let E = se_evm A
     in if length (log_Topics lg) \<noteq> 3 \<or> log_Topics lg ! 0 \<noteq> erc20TransferTopic E \<or> length (log_Data lg) \<noteq> 32
        then go_return ()
        else
          let from_addr = topicAddress E (log_Topics lg ! 1);
              to_addr = topicAddress E (log_Topics lg ! 2);
              wallets = participants walletByAddress from_addr to_addr
          in if wallets = [] then go_return ()
             else
               let eventID = evm_NewSHA1 E (itoa (unat chainID) @ '':'' @ evm_HashHex E (log_TxHash lg) @ '':''
                     @ itoa (unat (log_Index lg)))
               in go_bind (go_lift (se_marshal A [(''from'', from_addr), (''to'', to_addr), (''value'', data_value (log_Data lg))]))
                 (\<lambda>payload.
                 go_bind (go_get (in_world (p_now (se_platform A)))) (\<lambda>now.
                 go_bind (go_call (in_world (sr_CreateEventIfAbsent (ss_cursors s)
                     (event_receipt E chainID block lg eventID payload now)))) (\<lambda>_.
                 go_bind (minedTransactionStatus A chainID (log_TxHash lg)) (\<lambda>status.
                 go_bind (go_for (se_order A wallets) (\<lambda>entry.
                     store_transfer A s chainID latest block lg eventID from_addr to_addr status now (snd entry))) (\<lambda>_.
                 go_bind (go_get (in_world (p_now (se_platform A)))) (\<lambda>processedAt.
                   go_call_err (in_world (sr_MarkEventProcessed (ss_cursors s) eventID processedAt)))))))))"

definition scanERC20Transfers :: "'w scanner_env \<Rightarrow> 'w ScannerService \<Rightarrow> u64 \<Rightarrow> u64 \<Rightarrow> Block \<Rightarrow> ('w chain_state, unit) go" where
  "scanERC20Transfers A s chainID latest block =
    go_bind (go_call (in_world (wr_ListActiveByChain (ss_wallets s) chainID))) (\<lambda>wallets.
      if wallets = [] then go_return ()
      else
        let E = se_evm A;
            address = (\<lambda>wallet. evm_HexToAddress E (w_Address wallet));
            walletByAddress = fold (\<lambda>wallet m. AList.update (ToLower (evm_AddressHex E (address wallet))) wallet m) wallets [];
            walletTopics = map (\<lambda>wallet. addressTopic E (address wallet)) wallets
        in go_bind (transferLogs A chainID (bl_Number block) walletTopics) (\<lambda>logs.
             go_for logs (\<lambda>lg. persistTransferLog A s chainID latest block walletByAddress lg)))"

definition scanBlock :: "'w scanner_env \<Rightarrow> 'w ScannerService \<Rightarrow> u64 \<Rightarrow> u64 \<Rightarrow> Block \<Rightarrow> ('w chain_state, unit) go" where
  "scanBlock A s chainID latest block =
    go_bind (go_for (bl_Transactions block) (\<lambda>tx. scanTransaction A s chainID latest block tx)) (\<lambda>_.
      scanERC20Transfers A s chainID latest block)"

section \<open>The scan of a chain\<close>

definition save_cursor :: "'w scanner_env \<Rightarrow> 'w ScannerService \<Rightarrow> u64 \<Rightarrow> u64 \<Rightarrow> Block \<Rightarrow> ('w chain_state, unit) go" where
  "save_cursor A s chainID blockNumber block =
    go_bind (go_get (in_world (p_now (se_platform A)))) (\<lambda>now.
      go_call_err (in_world (sr_SaveCursor (ss_cursors s)
        \<lparr>cu_ChainID = chainID, cu_BlockNumber = sint blockNumber, cu_BlockHash = evm_HashHex (se_evm A) (bl_Hash block),
         cu_LastScannedAt = now, cu_UpdatedAt = now\<rparr>)))"

definition nextBlock :: "'w scanner_env \<Rightarrow> 'w ScannerService \<Rightarrow> u64 \<Rightarrow> u64 \<Rightarrow> ('w chain_state, u64 \<times> bool) go" where
  "nextBlock A s chainID safeHead =
    go_try (go_call (in_world (sr_GetCursor (ss_cursors s) chainID))) (\<lambda>found. case found of
        Inr cursor \<Rightarrow>
          if cu_BlockNumber cursor < 0 then go_fail (InvalidArgument ''scanner cursor block number is invalid'')
          else go_return (word_of_int (cu_BlockNumber cursor) + 1, False)
      | Inl err \<Rightarrow>
          if \<not> errors_Is err ErrRecordNotFound then go_fail err
          else if 0 < scan_StartBlock (ss_config s) then go_return (scan_StartBlock (ss_config s), False)
          else
            go_bind (blockByNumber A chainID safeHead) (\<lambda>block.
            go_bind (save_cursor A s chainID safeHead block) (\<lambda>_. go_return (0, True))))"

text \<open>One block: fetch, scan, move the cursor. The loop runs while \<open>fuel = BatchSize - processed\<close> lasts.\<close>

definition process_block :: "'w scanner_env \<Rightarrow> 'w ScannerService \<Rightarrow> u64 \<Rightarrow> u64 \<Rightarrow> u64 \<Rightarrow> ('w chain_state, unit) go" where
  "process_block A s chainID latest blockNumber =
    go_bind (blockByNumber A chainID blockNumber) (\<lambda>block.
    go_bind (scanBlock A s chainID latest block) (\<lambda>_.
      save_cursor A s chainID blockNumber block))"

primrec scan_blocks :: "nat \<Rightarrow> 'w scanner_env \<Rightarrow> 'w ScannerService \<Rightarrow> u64 \<Rightarrow> u64 \<Rightarrow> u64 \<Rightarrow> u64 \<Rightarrow> nat
    \<Rightarrow> ('w chain_state, nat \<times> go_error option) go" where
  "scan_blocks 0 A s chainID latest safeHead blockNumber processed = go_return (processed, None)"
| "scan_blocks (Suc n) A s chainID latest safeHead blockNumber processed =
    (if blockNumber \<le> safeHead then
       go_try (process_block A s chainID latest blockNumber) (\<lambda>res. case res of
           Inl err \<Rightarrow> go_return (processed, Some err)
         | Inr u \<Rightarrow> scan_blocks n A s chainID latest safeHead (blockNumber + 1) (processed + 1))
     else go_return (processed, None))"

text \<open>\<open>safeHead\<close>; none if the chain is too short.\<close>

definition safe_head :: "u64 \<Rightarrow> u64 \<Rightarrow> u64 option" where
  "safe_head required latest =
    (if required > 1 then (let delay = required - 1 in if latest < delay then None else Some (latest - delay))
     else Some latest)"

definition ScanChainOnce :: "'w scanner_env \<Rightarrow> 'w ScannerService \<Rightarrow> u64 \<Rightarrow> ('w chain_state, nat \<times> go_error option) go" where
  "ScanChainOnce A s chainID =
    go_bind (chain_config chainID) (\<lambda>config. case config of
        None \<Rightarrow> go_return (0, Some (InvalidArgument ''scanner blockchain is disabled''))
      | Some chainCfg \<Rightarrow>
          if \<not> ch_Enabled chainCfg then go_return (0, Some (InvalidArgument ''scanner blockchain is disabled''))
          else
            go_try (latestBlock A chainID) (\<lambda>res. case res of
                Inl err \<Rightarrow> go_return (0, Some err)
              | Inr latest \<Rightarrow>
                  (case safe_head (ch_RequiredConfirmations chainCfg) latest of
                     None \<Rightarrow> go_return (0, None)
                   | Some safeHead \<Rightarrow>
                       go_try (nextBlock A s chainID safeHead) (\<lambda>res. case res of
                           Inl err \<Rightarrow> go_return (0, Some err)
                         | Inr (next, initialized) \<Rightarrow>
                             if initialized \<or> safeHead < next then go_return (0, None)
                             else scan_blocks (nat (scan_BatchSize (ss_config s))) A s chainID latest safeHead next 0))))"

section \<open>The background loop\<close>

definition enabledChainIDs :: "BlockchainChainConfig list \<Rightarrow> u64 list" where
  "enabledChainIDs chs = map ch_ChainID (filter ch_Enabled chs)"

primrec scanEnabledChains :: "'w scanner_env \<Rightarrow> 'w ScannerService \<Rightarrow> u64 list \<Rightarrow> ('w chain_state, unit) go" where
  "scanEnabledChains A s [] = go_return ()"
| "scanEnabledChains A s (chainID # is) =
    go_bind (go_get (\<lambda>st. (se_done A (snd st), st))) (\<lambda>cancelled.
      if cancelled \<noteq> None then go_return ()
      else go_bind (ScanChainOnce A s chainID) (\<lambda>_. scanEnabledChains A s is))"

text \<open>What \<open>Start\<close> decides before it starts the goroutine: the chains it scans and the interval.\<close>

definition Start :: "parse_duration \<Rightarrow> 'w ScannerService option \<Rightarrow> BlockchainChainConfig list \<Rightarrow> (u64 list \<times> int) option" where
  "Start pd svc chs =
    (case svc of
       None \<Rightarrow> None
     | Some s \<Rightarrow>
         if \<not> scan_Enabled (ss_config s) then None
         else (case pd (scan_PollInterval (ss_config s)) of
             Inl err \<Rightarrow> None
           | Inr interval \<Rightarrow>
               if interval \<le> 0 then None
               else (let chainIDs = enabledChainIDs chs in if chainIDs = [] then None else Some (chainIDs, interval))))"

text \<open>The goroutine: a scan of all chains at the start and at every tick, other goroutines and the passing
  of time in between (\<open>other\<close>).\<close>

inductive scanner_run :: "('w chain_state \<Rightarrow> 'w chain_state \<Rightarrow> bool) \<Rightarrow> 'w scanner_env \<Rightarrow> 'w ScannerService \<Rightarrow> u64 list
    \<Rightarrow> 'w chain_state \<Rightarrow> 'w chain_state \<Rightarrow> bool"
  for other A s chainIDs where
  idle: "scanner_run other A s chainIDs st st"
| tick: "scanner_run other A s chainIDs st st1 \<Longrightarrow> scanEnabledChains A s chainIDs st1 = Returned (r, st2)
    \<Longrightarrow> scanner_run other A s chainIDs st st2"
| wait: "scanner_run other A s chainIDs st st1 \<Longrightarrow> other st1 st2 \<Longrightarrow> scanner_run other A s chainIDs st st2"


section \<open>Log queries\<close>

lemma dedupe_logs_spec:
  assumes "dedupe_logs E logs (seen, result) = (seen', result')" "set seen = log_key E ` set result"
    "distinct (map (log_key E) result)"
  shows "set seen' = log_key E ` set result'" "distinct (map (log_key E) result')"
    "log_key E ` set result' = log_key E ` (set result \<union> set logs)" "set result \<subseteq> set result'"
    "set result' \<subseteq> set result \<union> set logs"
proof -
  have "set seen' = log_key E ` set result' \<and> distinct (map (log_key E) result')
    \<and> log_key E ` set result' = log_key E ` (set result \<union> set logs) \<and> set result \<subseteq> set result'
    \<and> set result' \<subseteq> set result \<union> set logs"
    using assms
  proof (induction logs arbitrary: seen result)
    case (Cons l logs)
    show ?case
    proof (cases "log_key E l \<in> set seen")
      case True
      with Cons.prems(1) have "dedupe_logs E logs (seen, result) = (seen', result')" by simp
      from Cons.IH [OF this Cons.prems(2,3)] True Cons.prems(2) show ?thesis by auto
    next
      case False
      with Cons.prems(1) have d: "dedupe_logs E logs (seen @ [log_key E l], result @ [l]) = (seen', result')" by simp
      have "set (seen @ [log_key E l]) = log_key E ` set (result @ [l])" "distinct (map (log_key E) (result @ [l]))"
        using Cons.prems(2,3) False by auto
      from Cons.IH [OF d this] show ?thesis by auto
    qed
  qed auto
  then show "set seen' = log_key E ` set result'" "distinct (map (log_key E) result')"
    "log_key E ` set result' = log_key E ` (set result \<union> set logs)" "set result \<subseteq> set result'"
    "set result' \<subseteq> set result \<union> set logs" by blast+
qed

lemma run_queries_Inr:
  fixes A :: "'w scanner_env"
  assumes "run_queries A i qs (seen, result) st = Returned (Inr logs, st')" "set seen = log_key (se_evm A) ` set result"
    "distinct (map (log_key (se_evm A)) result)"
  obtains answers where "length answers = length qs"
    "\<And>k. k < length qs \<Longrightarrow> \<exists>(c :: 'w Client) w w'. cl_FilterLogs c (qs ! k) w = (Inr (answers ! k), w')"
    "distinct (map (log_key (se_evm A)) logs)"
    "log_key (se_evm A) ` set logs = log_key (se_evm A) ` (set result \<union> set (concat answers))"
    "set logs \<subseteq> set result \<union> set (concat answers)"
proof -
  let ?key = "log_key (se_evm A)"
  have "\<exists>answers. length answers = length qs \<and>
    (\<forall>k < length qs. \<exists>(c :: 'w Client) w w'. cl_FilterLogs c (qs ! k) w = (Inr (answers ! k), w')) \<and> distinct (map ?key logs)
    \<and> ?key ` set logs = ?key ` (set result \<union> set (concat answers)) \<and> set logs \<subseteq> set result \<union> set (concat answers)"
    using assms
  proof (induction qs arbitrary: seen result st)
    case Nil
    then show ?case by (simp add: go_return_eq)
  next
    case (Cons q qs)
    from Cons.prems(1) obtain ls st1 where e: "Execute (se_done A) i (\<lambda>client. cl_FilterLogs client q) st = Returned (Inr ls, st1)"
      and r: "run_queries A i qs (dedupe_logs (se_evm A) ls (seen, result)) st1 = Returned (Inr logs, st')"
      unfolding run_queries.simps go_bind_Inr by blast
    obtain seen1 result1 where d: "dedupe_logs (se_evm A) ls (seen, result) = (seen1, result1)" by fastforce
    note spec = dedupe_logs_spec [OF d Cons.prems(2,3)]
    from Cons.IH [OF r [unfolded d] spec(1,2)] obtain answers where
      "length answers = length qs \<and> (\<forall>k < length qs. \<exists>(c :: 'w Client) w w'. cl_FilterLogs c (qs ! k) w = (Inr (answers ! k), w'))
        \<and> distinct (map ?key logs) \<and> ?key ` set logs = ?key ` (set result1 \<union> set (concat answers))
        \<and> set logs \<subseteq> set result1 \<union> set (concat answers)" by (erule exE)
    then have a: "length answers = length qs" "\<And>k. k < length qs \<Longrightarrow> \<exists>(c :: 'w Client) w w'. cl_FilterLogs c (qs ! k) w = (Inr (answers ! k), w')"
        "distinct (map ?key logs)" "?key ` set logs = ?key ` (set result1 \<union> set (concat answers))"
        "set logs \<subseteq> set result1 \<union> set (concat answers)" by simp_all
    obtain c :: "'w Client" and w w' where "cl_FilterLogs c q w = (Inr ls, w')"
      using Execute_success [OF e] by metis
    then have "\<exists>(c :: 'w Client) w w'. cl_FilterLogs c ((q # qs) ! k) w = (Inr ((ls # answers) ! k), w')" if "k < length (q # qs)" for k
    proof (cases k)
      case (Suc j)
      with that a(2) [of j] show ?thesis by simp
    qed (metis nth_Cons_0)
    moreover have "?key ` set logs = ?key ` (set result \<union> set (concat (ls # answers)))"
      unfolding a(4) image_Un spec(3) by auto
    moreover have "set logs \<subseteq> set result \<union> set (concat (ls # answers))" using a(5) spec(5) by auto
    ultimately show ?case using a(1,3) by (intro exI [of _ "ls # answers"] conjI allI impI) (simp_all only: list.size)
  qed
  with that show thesis by blast
qed

section \<open>What a scan keeps\<close>

text \<open>
  \<open>ops_keep A s R I\<close>: every effect of scanning a block, but for the cursor, keeps \<open>I\<close>.
\<close>

definition ops_keep :: "'w scanner_env \<Rightarrow> 'w ScannerService \<Rightarrow> ('w \<Rightarrow> 'w \<Rightarrow> bool) \<Rightarrow> ('w \<Rightarrow> bool) \<Rightarrow> bool" where
  "ops_keep A s R I \<longleftrightarrow>
     (\<forall>w w'. R w w' \<longrightarrow> I w \<longrightarrow> I w')
   \<and> (\<forall>i a w. I w \<longrightarrow> I (snd (wr_FindByChainAddress (ss_wallets s) i a w)))
   \<and> (\<forall>i w. I w \<longrightarrow> I (snd (wr_ListActiveByChain (ss_wallets s) i w)))
   \<and> (\<forall>w. I w \<longrightarrow> I (snd (p_now (se_platform A) w))) \<and> (\<forall>w. I w \<longrightarrow> I (snd (p_uuid (se_platform A) w)))
   \<and> (\<forall>x w. I w \<longrightarrow> I (snd (xr_Upsert (ss_transactions s) x w)))
   \<and> (\<forall>e w. I w \<longrightarrow> I (snd (sr_CreateEventIfAbsent (ss_cursors s) e w)))
   \<and> (\<forall>i t w. I w \<longrightarrow> I (snd (sr_MarkEventProcessed (ss_cursors s) i t w)))
   \<and> (\<forall>i m w. I w \<longrightarrow> I (snd (sr_MarkEventFailed (ss_cursors s) i m w)))"

definition with_nodes :: "('w \<Rightarrow> 'w \<Rightarrow> bool) \<Rightarrow> ('w \<Rightarrow> bool) \<Rightarrow> 'w chain_state \<Rightarrow> bool" where
  "with_nodes R I st \<longleftrightarrow> nodes_frame R (fst st) \<and> I (snd st)"

lemma keeps_in_world:
  assumes "\<And>w. I w \<Longrightarrow> I (snd (f w))"
  shows "keeps (with_nodes R I) (go_call (in_world f))"
  unfolding keeps_def go_call_eq in_world_eq with_nodes_def using assms by (metis snd_conv)

lemma keeps_in_world_err:
  assumes "\<And>w. I w \<Longrightarrow> I (snd (f w))"
  shows "keeps (with_nodes R I) (go_call_err (in_world f))"
proof (unfold keeps_def, intro allI impI)
  fix st r st' assume run: "go_call_err (in_world f) st = Returned (r, st')" and inv: "with_nodes R I st"
  then obtain e where "f (snd st) = (e, snd st')" "fst st' = fst st"
    by (cases st') (auto simp: go_call_err_def in_world_def split: prod.splits)
  with inv assms show "with_nodes R I st'" unfolding with_nodes_def by (metis snd_conv)
qed

lemma keeps_in_world_get:
  assumes "\<And>w. I w \<Longrightarrow> I (snd (f w))"
  shows "keeps (with_nodes R I) (go_get (in_world f))"
  unfolding keeps_def go_get_eq in_world_eq with_nodes_def using assms by (metis snd_conv)

lemma keeps_node_read:
  assumes "\<And>w w'. R w w' \<Longrightarrow> I w \<Longrightarrow> I w'"
    and "\<And>c w r w'. client_frame R c \<Longrightarrow> operation c w = (r, w') \<Longrightarrow> R w w'"
  shows "keeps (with_nodes R I) (Execute done' i operation)"
proof -
  have "keeps (\<lambda>st. nodes_frame R (fst st) \<and> I (snd st)) (Execute done' i operation)"
    by (rule keeps_Execute) (use assms in blast)
  then show ?thesis by (simp add: with_nodes_def [abs_def])
qed

lemma keeps_chain_config: "keeps I (chain_config i)"
  unfolding keeps_def chain_config_eq by simp

lemma ops_keepD:
  assumes "ops_keep A s R I"
  shows "R w w' \<Longrightarrow> I w \<Longrightarrow> I w'"
    and "I w \<Longrightarrow> I (snd (wr_FindByChainAddress (ss_wallets s) i a w))"
    and "I w \<Longrightarrow> I (snd (wr_ListActiveByChain (ss_wallets s) i w))"
    and "I w \<Longrightarrow> I (snd (p_now (se_platform A) w))" and "I w \<Longrightarrow> I (snd (p_uuid (se_platform A) w))"
    and "I w \<Longrightarrow> I (snd (xr_Upsert (ss_transactions s) x w))"
    and "I w \<Longrightarrow> I (snd (sr_CreateEventIfAbsent (ss_cursors s) e w))"
    and "I w \<Longrightarrow> I (snd (sr_MarkEventProcessed (ss_cursors s) j t w))"
    and "I w \<Longrightarrow> I (snd (sr_MarkEventFailed (ss_cursors s) j m w))"
  using assms unfolding ops_keep_def by simp_all

lemma primitive_ops:
  assumes keep: "ops_keep A s R I"
  shows "keeps (with_nodes R I) (go_call (in_world (wr_FindByChainAddress (ss_wallets s) i a)))"
    and "keeps (with_nodes R I) (go_call (in_world (wr_ListActiveByChain (ss_wallets s) i)))"
    and "keeps (with_nodes R I) (go_get (in_world (p_now (se_platform A))))"
    and "keeps (with_nodes R I) (go_get (in_world (p_uuid (se_platform A))))"
    and "keeps (with_nodes R I) (go_call_err (in_world (xr_Upsert (ss_transactions s) x)))"
    and "keeps (with_nodes R I) (go_call (in_world (sr_CreateEventIfAbsent (ss_cursors s) e)))"
    and "keeps (with_nodes R I) (go_call_err (in_world (sr_MarkEventProcessed (ss_cursors s) j t)))"
    and "keeps (with_nodes R I) (go_call_err (in_world (sr_MarkEventFailed (ss_cursors s) j m)))"
  by (rule keeps_in_world keeps_in_world_err keeps_in_world_get, rule ops_keepD [OF keep], assumption)+

lemma node_read:
  assumes "ops_keep A s R I" "\<And>c w r w'. client_frame R c \<Longrightarrow> operation c w = (r, w') \<Longrightarrow> R w w'"
  shows "keeps (with_nodes R I) (Execute done' i operation)"
  by (rule keeps_node_read [OF ops_keepD(1) [OF assms(1)] assms(2)])

lemma keeps_blockByNumber: "ops_keep A s R I \<Longrightarrow> keeps (with_nodes R I) (blockByNumber A i n)"
  unfolding blockByNumber_def by (intro keeps_bind keeps_case_option keeps_fail keeps_return, rule node_read) (auto dest: client_frameD(6))

lemma keeps_latestBlock: "ops_keep A s R I \<Longrightarrow> keeps (with_nodes R I) (latestBlock A i)"
  unfolding latestBlock_def by (rule node_read) (auto dest: client_frameD(5))

lemma keeps_status: "ops_keep A s R I \<Longrightarrow> keeps (with_nodes R I) (minedTransactionStatus A i h)"
  unfolding minedTransactionStatus_def
  by (intro keeps_bind keeps_case_option keeps_if keeps_fail keeps_return, rule node_read) (auto dest: client_frameD(4))

lemma keeps_collect: "ops_keep A s R I \<Longrightarrow> keeps (with_nodes R I) (collect_wallets s i as ws)"
proof (induction as arbitrary: ws)
  case (Cons a as)
  show ?case unfolding collect_wallets.simps
    by (intro keeps_if keeps_try keeps_case_sum keeps_fail Cons primitive_ops(1) [OF Cons.prems])
qed (simp add: keeps_return)

lemma keeps_scanTransaction: "ops_keep A s R I \<Longrightarrow> keeps (with_nodes R I) (scanTransaction A s i latest b tx)"
  unfolding scanTransaction_def Let_def
  by (intro keeps_intros keeps_collect keeps_status primitive_ops)

lemma keeps_queries: "ops_keep A s R I \<Longrightarrow> keeps (with_nodes R I) (run_queries A i qs acc)"
proof (induction qs arbitrary: acc)
  case (Cons q qs)
  have "keeps (with_nodes R I) (Execute (se_done A) i (\<lambda>client. cl_FilterLogs client q))"
    by (rule node_read [OF Cons.prems]) (auto dest: client_frameD(8))
  then show ?case unfolding run_queries.simps by (intro keeps_bind Cons)
qed (simp add: keeps_return)

lemma keeps_store_transfer:
  "ops_keep A s R I \<Longrightarrow> keeps (with_nodes R I) (store_transfer A s i latest b l ev f t status now x)"
  unfolding store_transfer_def by (intro keeps_intros primitive_ops)

lemma keeps_persist: "ops_keep A s R I \<Longrightarrow> keeps (with_nodes R I) (persistTransferLog A s i latest b m l)"
  unfolding persistTransferLog_def Let_def
  by (intro keeps_intros primitive_ops keeps_status keeps_store_transfer)

lemma keeps_scanBlock: "ops_keep A s R I \<Longrightarrow> keeps (with_nodes R I) (scanBlock A s i latest b)"
  unfolding scanBlock_def scanERC20Transfers_def transferLogs_def Let_def
  by (intro keeps_intros keeps_scanTransaction keeps_queries keeps_persist primitive_ops)

end
