(* ===== verification/Scanner_Cursor.thy ===== *)
theory Scanner_Cursor
  imports Scanner_Service
begin

text \<open>
  What a scan does to the cursor and to the tables: blocks are processed one after the other, the cursor
  is the last of them, only blocks with the required confirmations are touched, and no scan, however the
  other goroutines interleave with it, breaks the keys of the tables.
\<close>

section \<open>The tables of a scan\<close>

text \<open>
  \<open>scanner_world\<close>: the transaction, cursor and event tables are what the repositories promise and are
  separate; reading wallets, the clock and \<open>uuid\<close> leave all three alone. \<open>same_tables\<close> is what node
  calls have to respect.
\<close>

definition same_tables :: "(string \<Rightarrow> 'w \<Rightarrow> WalletTransaction list) \<Rightarrow> ('w \<Rightarrow> ChainScanCursor list)
    \<Rightarrow> ('w \<Rightarrow> ChainEventReceipt list) \<Rightarrow> 'w \<Rightarrow> 'w \<Rightarrow> bool" where
  "same_tables rows curs evs w w' \<longleftrightarrow> (\<forall>t. rows t w' = rows t w) \<and> curs w' = curs w \<and> evs w' = evs w"

definition scanner_world :: "'w scanner_env \<Rightarrow> 'w ScannerService \<Rightarrow> (string \<Rightarrow> 'w \<Rightarrow> WalletTransaction list)
    \<Rightarrow> ('w \<Rightarrow> ChainScanCursor list) \<Rightarrow> ('w \<Rightarrow> ChainEventReceipt list) \<Rightarrow> bool" where
  "scanner_world A s rows curs evs \<longleftrightarrow>
     tx_repo_ok (ss_transactions s) rows \<and> scanner_ok (ss_cursors s) curs evs
   \<and> (\<forall>i a w. same_tables rows curs evs w (snd (wr_FindByChainAddress (ss_wallets s) i a w)))
   \<and> (\<forall>i w. same_tables rows curs evs w (snd (wr_ListActiveByChain (ss_wallets s) i w)))
   \<and> (\<forall>w. same_tables rows curs evs w (snd (p_now (se_platform A) w)))
   \<and> (\<forall>w. same_tables rows curs evs w (snd (p_uuid (se_platform A) w)))
   \<and> (\<forall>x w. curs (snd (xr_Upsert (ss_transactions s) x w)) = curs w \<and> evs (snd (xr_Upsert (ss_transactions s) x w)) = evs w)
   \<and> (\<forall>e w t. curs (snd (sr_CreateEventIfAbsent (ss_cursors s) e w)) = curs w
        \<and> rows t (snd (sr_CreateEventIfAbsent (ss_cursors s) e w)) = rows t w)
   \<and> (\<forall>i n w t. curs (snd (sr_MarkEventProcessed (ss_cursors s) i n w)) = curs w
        \<and> rows t (snd (sr_MarkEventProcessed (ss_cursors s) i n w)) = rows t w)
   \<and> (\<forall>i m w t. curs (snd (sr_MarkEventFailed (ss_cursors s) i m w)) = curs w
        \<and> rows t (snd (sr_MarkEventFailed (ss_cursors s) i m w)) = rows t w)
   \<and> (\<forall>i w t. evs (snd (sr_GetCursor (ss_cursors s) i w)) = evs w \<and> rows t (snd (sr_GetCursor (ss_cursors s) i w)) = rows t w)
   \<and> (\<forall>c w t. evs (snd (sr_SaveCursor (ss_cursors s) c w)) = evs w \<and> rows t (snd (sr_SaveCursor (ss_cursors s) c w)) = rows t w)"

text \<open>Unique keys in every table, and every snapshot in the table of its wallet.\<close>

definition tables_inv :: "'w ScannerService \<Rightarrow> (string \<Rightarrow> 'w \<Rightarrow> WalletTransaction list) \<Rightarrow> ('w \<Rightarrow> ChainScanCursor list)
    \<Rightarrow> ('w \<Rightarrow> ChainEventReceipt list) \<Rightarrow> 'w \<Rightarrow> bool" where
  "tables_inv s rows curs evs w \<longleftrightarrow> tx_inv (ss_transactions s) rows w \<and> cursors_inv (curs w) \<and> events_inv (evs w)"

lemma tables_inv_same: "same_tables rows curs evs w w' \<Longrightarrow> tables_inv s rows curs evs w \<Longrightarrow> tables_inv s rows curs evs w'"
  by (simp add: same_tables_def tables_inv_def tx_inv_def)

lemma cursor_ops_keep:
  assumes "scanner_world A s rows curs evs"
  shows "ops_keep A s (same_tables rows curs evs) (\<lambda>w. curs w = X)"
  using assms unfolding scanner_world_def ops_keep_def same_tables_def by simp

lemma table_ops_keep:
  assumes W: "scanner_world A s rows curs evs"
  shows "ops_keep A s (same_tables rows curs evs) (tables_inv s rows curs evs)"
proof -
  have tx: "tx_repo_ok (ss_transactions s) rows" and sc: "scanner_ok (ss_cursors s) curs evs"
    using W by (simp_all add: scanner_world_def)
  have up: "tables_inv s rows curs evs (snd (xr_Upsert (ss_transactions s) x w))" if "tables_inv s rows curs evs w" for x w
    using that W Upsert_inv [OF tx, of x w] unfolding scanner_world_def tables_inv_def by (metis prod.collapse)
  have ev1: "tables_inv s rows curs evs (snd (sr_CreateEventIfAbsent (ss_cursors s) e w))" if "tables_inv s rows curs evs w" for e w
    using that W event_ops_inv(1) [OF sc, of w e] unfolding scanner_world_def tables_inv_def tx_inv_def by (metis prod.collapse)
  have ev2: "tables_inv s rows curs evs (snd (sr_MarkEventProcessed (ss_cursors s) i t w))" if "tables_inv s rows curs evs w" for i t w
    using that W event_ops_inv(2) [OF sc, of w i t] unfolding scanner_world_def tables_inv_def tx_inv_def by (metis prod.collapse)
  have ev3: "tables_inv s rows curs evs (snd (sr_MarkEventFailed (ss_cursors s) i m w))" if "tables_inv s rows curs evs w" for i m w
    using that W event_ops_inv(3) [OF sc, of w i m] unfolding scanner_world_def tables_inv_def tx_inv_def by (metis prod.collapse)
  have same: "same_tables rows curs evs w w' \<Longrightarrow> tables_inv s rows curs evs w \<Longrightarrow> tables_inv s rows curs evs w'" for w w'
    by (rule tables_inv_same)
  note reads = W [unfolded scanner_world_def]
  show ?thesis unfolding ops_keep_def
    using same reads by (intro conjI allI impI up ev1 ev2 ev3) meson+
qed

section \<open>The cursor\<close>

lemma save_cursor_run:
  assumes "save_cursor A s i bn b st = Returned (r, st')"
  obtains now w e where "p_now (se_platform A) (snd st) = (now, w)" "fst st' = fst st"
    "sr_SaveCursor (ss_cursors s) \<lparr>cu_ChainID = i, cu_BlockNumber = sint bn,
       cu_BlockHash = evm_HashHex (se_evm A) (bl_Hash b), cu_LastScannedAt = now, cu_UpdatedAt = now\<rparr> w = (e, snd st')"
    "(e = None) = (r = Inr ())"
proof -
  obtain now w where n: "p_now (se_platform A) (snd st) = (now, w)" by fastforce
  obtain e w' where sv: "sr_SaveCursor (ss_cursors s) \<lparr>cu_ChainID = i, cu_BlockNumber = sint bn,
       cu_BlockHash = evm_HashHex (se_evm A) (bl_Hash b), cu_LastScannedAt = now, cu_UpdatedAt = now\<rparr> w = (e, w')" by fastforce
  have "r = (case e of None \<Rightarrow> Inr () | Some err \<Rightarrow> Inl err) \<and> st' = (fst st, w')"
    using assms n sv by (auto simp: save_cursor_def go_bind_def go_try_def go_get_def in_world_def go_call_err_def)
  then show thesis using that n sv by (cases e) auto
qed

lemma save_cursor_spec:
  assumes W: "scanner_world A s rows curs evs" and inv: "cursors_inv (curs (snd st))"
    and run: "save_cursor A s i bn b st = Returned (r, st')"
  shows "fst st' = fst st" "cursors_inv (curs (snd st'))" "r = Inl e \<Longrightarrow> curs (snd st') = curs (snd st)"
    "r = Inr () \<Longrightarrow> cursor_of (curs (snd st')) i = Some (sint bn)"
    "j \<noteq> i \<Longrightarrow> cursor_of (curs (snd st')) j = cursor_of (curs (snd st)) j"
proof -
  have sc: "scanner_ok (ss_cursors s) curs evs" using W by (simp add: scanner_world_def)
  from save_cursor_run [OF run] obtain now w e' where n: "p_now (se_platform A) (snd st) = (now, w)" and f: "fst st' = fst st"
    and sv: "sr_SaveCursor (ss_cursors s) \<lparr>cu_ChainID = i, cu_BlockNumber = sint bn,
       cu_BlockHash = evm_HashHex (se_evm A) (bl_Hash b), cu_LastScannedAt = now, cu_UpdatedAt = now\<rparr> w = (e', snd st')"
    and r: "(e' = None) = (r = Inr ())" by metis
  have "same_tables rows curs evs (snd st) w" using W n unfolding scanner_world_def by (metis snd_conv)
  then have w: "curs w = curs (snd st)" by (simp add: same_tables_def)
  show "fst st' = fst st" by (rule f)
  show "cursors_inv (curs (snd st'))" "r = Inl e \<Longrightarrow> curs (snd st') = curs (snd st)"
    "r = Inr () \<Longrightarrow> cursor_of (curs (snd st')) i = Some (sint bn)"
    "j \<noteq> i \<Longrightarrow> cursor_of (curs (snd st')) j = cursor_of (curs (snd st)) j"
    using SaveCursor_None [OF sc, of _ w] SaveCursor_Some [OF sc, of _ w] sv r inv w by (cases e'; fastforce)+
qed

lemma process_block_spec:
  assumes W: "scanner_world A s rows curs evs" and inv: "cursors_inv (curs (snd st))"
    and nodes: "nodes_frame (same_tables rows curs evs) (fst st)"
    and run: "process_block A s i latest bn st = Returned (r, st')"
  shows "nodes_frame (same_tables rows curs evs) (fst st') \<and> cursors_inv (curs (snd st'))
    \<and> (case r of Inl e \<Rightarrow> curs (snd st') = curs (snd st)
       | Inr u \<Rightarrow> cursor_of (curs (snd st')) i = Some (sint bn)
          \<and> (\<forall>j. j \<noteq> i \<longrightarrow> cursor_of (curs (snd st')) j = cursor_of (curs (snd st)) j))"
proof -
  let ?I = "with_nodes (same_tables rows curs evs) (\<lambda>w. curs w = curs (snd st))"
  note keep = cursor_ops_keep [OF W, of "curs (snd st)"]
  have st: "?I st" using nodes by (simp add: with_nodes_def)
  have early: "?I st1 \<Longrightarrow> nodes_frame (same_tables rows curs evs) (fst st1) \<and> cursors_inv (curs (snd st1))
    \<and> curs (snd st1) = curs (snd st)" for st1
    using inv by (simp add: with_nodes_def)
  obtain rb st1 where b: "blockByNumber A i bn st = Returned (rb, st1)"
    using run by (auto simp: process_block_def go_bind_def go_try_def split: go_outcome.splits)
  have st1: "?I st1" by (rule keepsD [OF keeps_blockByNumber [OF keep] b st])
  show ?thesis
  proof (cases rb)
    case (Inl e)
    with run b have "r = Inl e" "st' = st1" by (auto simp: process_block_def go_bind_def go_try_def go_fail_def)
    with early [OF st1] inv show ?thesis by simp
  next
    case (Inr blk)
    obtain rs st2 where sb: "scanBlock A s i latest blk st1 = Returned (rs, st2)"
      using run b Inr by (auto simp: process_block_def go_bind_def go_try_def split: go_outcome.splits)
    have st2: "?I st2" by (rule keepsD [OF keeps_scanBlock [OF keep] sb st1])
    show ?thesis
    proof (cases rs)
      case (Inl e)
      with run b \<open>rb = Inr blk\<close> sb have "r = Inl e" "st' = st2"
        by (auto simp: process_block_def go_bind_def go_try_def go_fail_def)
      with early [OF st2] inv show ?thesis by simp
    next
      case rs: (Inr u)
      with run b Inr sb have sv: "save_cursor A s i bn blk st2 = Returned (r, st')"
        by (simp add: process_block_def go_bind_def go_try_def)
      note e2 = early [OF st2]
      have inv2: "cursors_inv (curs (snd st2))" using e2 by blast
      note spec = save_cursor_spec [OF W inv2 sv]
      show ?thesis using spec(1,2) spec(3-5) e2 by (cases r) auto
    qed
  qed
qed

lemma scan_blocks_spec:
  assumes W: "scanner_world A s rows curs evs" and safe: "unat safeHead < 2 ^ 63"
    and "scan_blocks fuel A s i latest safeHead bn k st = Returned (Inr (k', err), st')"
    and "cursors_inv (curs (snd st))" "nodes_frame (same_tables rows curs evs) (fst st)"
    and "cursor_of (curs (snd st)) i = Some c" "int (unat bn) = c + 1"
  shows "\<exists>n. k' = k + n \<and> n \<le> fuel \<and> cursors_inv (curs (snd st')) \<and> cursor_of (curs (snd st')) i = Some (c + int n)
    \<and> (\<forall>j. j \<noteq> i \<longrightarrow> cursor_of (curs (snd st')) j = cursor_of (curs (snd st)) j)
    \<and> (0 < n \<longrightarrow> c + int n \<le> int (unat safeHead))
    \<and> (\<forall>m < n. \<exists>st1 st2. process_block A s i latest (word_of_int (c + 1 + int m)) st1 = Returned (Inr (), st2))"
  using assms(3-)
proof (induction fuel arbitrary: bn k st c)
  case 0
  then show ?case by (intro exI [of _ 0]) (auto simp: go_return_eq)
next
  case (Suc fuel)
  show ?case
  proof (cases "bn \<le> safeHead")
    case False
    with Suc.prems show ?thesis by (intro exI [of _ 0]) (auto simp: go_return_eq)
  next
    case True
    then have small: "unat bn \<le> unat safeHead" by (simp add: word_le_nat_alt)
    with safe have s63: "unat bn < 2 ^ 63" by linarith
    have bn: "bn = word_of_int (c + 1)" using Suc.prems(5) by (metis uint_nat word_of_int_uint)
    from True Suc.prems(1) obtain r st1 where p: "process_block A s i latest bn st = Returned (r, st1)"
      by (auto simp: go_try_def split: go_outcome.splits)
    note spec = process_block_spec [OF W Suc.prems(2,3) p]
    show ?thesis
    proof (cases r)
      case (Inl e)
      with True Suc.prems(1) p have "k' = k" "st' = st1" by (auto simp: go_try_def go_return_def)
      with spec Inl Suc.prems(4) show ?thesis by (intro exI [of _ 0]) auto
    next
      case (Inr u)
      with True Suc.prems(1) p have rest: "scan_blocks fuel A s i latest safeHead (bn + 1) (k + 1) st1 = Returned (Inr (k', err), st')"
        by (simp add: go_try_def)
      have c1: "cursor_of (curs (snd st1)) i = Some (c + 1)"
        using spec Inr sint_small [OF s63] Suc.prems(5) by simp
      have n1: "int (unat (bn + 1)) = (c + 1) + 1" using unat_Suc_small [OF s63] Suc.prems(5) by simp
      from Suc.IH [OF rest _ _ c1 n1] spec obtain n where n: "k' = k + 1 + n" "n \<le> fuel" "cursors_inv (curs (snd st'))"
        "cursor_of (curs (snd st')) i = Some (c + 1 + int n)"
        "\<forall>j. j \<noteq> i \<longrightarrow> cursor_of (curs (snd st')) j = cursor_of (curs (snd st1)) j"
        "0 < n \<longrightarrow> c + 1 + int n \<le> int (unat safeHead)"
        "\<forall>m < n. \<exists>st1 st2. process_block A s i latest (word_of_int (c + 1 + 1 + int m)) st1 = Returned (Inr (), st2)"
        by blast
      have "\<exists>st1 st2. process_block A s i latest (word_of_int (c + 1 + int m)) st1 = Returned (Inr (), st2)" if "m < Suc n" for m
      proof (cases m)
        case 0
        with p Inr bn have "process_block A s i latest (word_of_int (c + 1 + int m)) st = Returned (Inr (), st1)" by simp
        then show ?thesis by blast
      next
        case (Suc m')
        with that n(7) have "\<exists>st1 st2. process_block A s i latest (word_of_int (c + 1 + 1 + int m')) st1 = Returned (Inr (), st2)"
          by simp
        with Suc show ?thesis by (simp add: add.assoc)
      qed
      moreover have "c + int (Suc n) \<le> int (unat safeHead)"
      proof (cases n)
        case 0
        with small Suc.prems(5) show ?thesis by linarith
      next
        case (Suc n')
        with n(6) show ?thesis by linarith
      qed
      moreover have "\<forall>j. j \<noteq> i \<longrightarrow> cursor_of (curs (snd st')) j = cursor_of (curs (snd st)) j"
        using n(5) spec Inr by simp
      ultimately show ?thesis using n(1-4) by (intro exI [of _ "Suc n"]) (simp add: algebra_simps)
    qed
  qed
qed

text \<open>No node of the chain reports a height that does not fit the signed column of the cursor.\<close>

definition reports :: "'w ClientManager \<Rightarrow> u64 \<Rightarrow> u64 \<Rightarrow> bool" where
  "reports m i h \<longleftrightarrow> (\<exists>pool c w w'. map_of (cm_chains m) i = Some pool \<and> c \<in> set (pool_clients pool)
     \<and> cl_BlockNumber c w = (Inr h, w'))"

definition heights_ok :: "'w ClientManager \<Rightarrow> u64 \<Rightarrow> bool" where
  "heights_ok m i \<longleftrightarrow> (\<forall>h. reports m i h \<longrightarrow> unat h < 2 ^ 63)"

lemma safe_head_Some:
  assumes "safe_head required latest = Some h"
  shows "unat h + max 1 (unat required) = unat latest + 1" "unat h \<le> unat latest"
proof -
  have "unat h + max 1 (unat required) = unat latest + 1 \<and> unat h \<le> unat latest"
  proof (cases "required > 1")
    case True
    with assms have h: "h = latest - (required - 1)" "required - 1 \<le> latest"
      by (auto simp: safe_head_def Let_def split: if_splits)
    have "1 \<le> required" "1 < unat required" using True by (simp_all add: word_less_nat_alt word_le_nat_alt)
    then have r: "unat (required - 1) = unat required - 1" by (simp add: unat_sub)
    have "unat h = unat latest - unat (required - 1)" using h by (simp add: unat_sub)
    moreover have "unat (required - 1) \<le> unat latest" using h(2) by (simp add: word_le_nat_alt)
    ultimately show ?thesis using r \<open>1 < unat required\<close> by simp
  next
    case False
    then have "unat required \<le> 1" by (simp add: word_less_nat_alt)
    with False assms show ?thesis by (simp add: safe_head_def)
  qed
  then show "unat h + max 1 (unat required) = unat latest + 1" "unat h \<le> unat latest" by blast+
qed

lemma latestBlock_reports: "latestBlock A i st = Returned (Inr h, st') \<Longrightarrow> reports (fst st) i h"
  unfolding latestBlock_def reports_def by (erule Execute_success) blast

lemma nextBlock_cursor:
  assumes W: "scanner_world A s rows curs evs" and inv: "cursors_inv (curs (snd st))"
    and cur: "cursor_of (curs (snd st)) i = Some c" "0 \<le> c" "c < 2 ^ 63"
    and run: "nextBlock A s i safeHead st = Returned (r, st')"
  shows "fst st' = fst st \<and> curs (snd st') = curs (snd st)
    \<and> (\<forall>n init. r = Inr (n, init) \<longrightarrow> \<not> init \<and> int (unat n) = c + 1)"
proof -
  have sc: "scanner_ok (ss_cursors s) curs evs" using W by (simp add: scanner_world_def)
  obtain res w where g: "sr_GetCursor (ss_cursors s) i (snd st) = (res, w)" by fastforce
  note k = run [unfolded nextBlock_def go_try_eq go_call_eq in_world_eq]
  note rows = GetCursor_rows [OF sc g]
  show ?thesis
  proof (cases res)
    case (Inl e)
    with rows(2) cur(1) have "\<not> errors_Is e ErrRecordNotFound" by auto
    with k g Inl have "r = Inl e \<and> st' = (fst st, w)" by (auto simp: go_fail_eq)
    with rows(1) show ?thesis by simp
  next
    case (Inr x)
    from GetCursor_Inr [OF sc g [unfolded Inr] inv] cur have x: "cu_BlockNumber x = c" "curs w = curs (snd st)" by simp_all
    have "uint (word_of_int c + 1 :: u64) = c + 1" using cur(2,3) by (simp add: uint_word_ariths unsigned_of_int take_bit_int_eq_self)
    then have n: "int (unat (word_of_int c + 1 :: u64)) = c + 1" by simp
    from k g Inr have "r = Inr (word_of_int c + 1, False) \<and> st' = (fst st, w)"
      using cur(2) by (auto simp: x(1) go_return_eq)
    with n x(2) show ?thesis by simp
  qed
qed

text \<open>A scan returns with the cursor untouched, or it comes to the loop.\<close>

lemma ScanChainOnce_cases:
  assumes W: "scanner_world A s rows curs evs" and nodes: "nodes_frame (same_tables rows curs evs) (fst st)"
    and inv: "cursors_inv (curs (snd st))"
    and cur: "cursor_of (curs (snd st)) i = Some c" "0 \<le> c" "c < 2 ^ 63"
    and run: "ScanChainOnce A s i st = Returned (Inr (n, err), st')"
  shows "n = 0 \<and> curs (snd st') = curs (snd st) \<or> (\<exists>cfg latest safeHead next st2. Chain (fst st) i = Some cfg
    \<and> ch_Enabled cfg \<and> reports (fst st) i latest \<and> safe_head (ch_RequiredConfirmations cfg) latest = Some safeHead
    \<and> with_nodes (same_tables rows curs evs) (\<lambda>w. curs w = curs (snd st)) st2 \<and> int (unat next) = c + 1
    \<and> scan_blocks (nat (scan_BatchSize (ss_config s))) A s i latest safeHead next 0 st2 = Returned (Inr (n, err), st'))"
proof -
  let ?I = "with_nodes (same_tables rows curs evs) (\<lambda>w. curs w = curs (snd st))"
  note keep = cursor_ops_keep [OF W, of "curs (snd st)"]
  have st: "?I st" using nodes by (simp add: with_nodes_def)
  show ?thesis
  proof (cases "Chain (fst st) i")
    case None
    with run show ?thesis by (simp add: ScanChainOnce_def go_return_eq)
  next
    case (Some cfg)
    show ?thesis
    proof (cases "ch_Enabled cfg")
      case False
      with run Some show ?thesis by (simp add: ScanChainOnce_def go_return_eq)
    next
      case True
      obtain rl st1 where l: "latestBlock A i st = Returned (rl, st1)"
        using run Some True by (auto simp: ScanChainOnce_def go_try_def split: go_outcome.splits)
      have st1: "?I st1" by (rule keepsD [OF keeps_latestBlock [OF keep] l st])
      show ?thesis
      proof (cases rl)
        case (Inl e)
        with run Some True l st1 show ?thesis by (simp add: ScanChainOnce_def go_try_def l go_return_eq with_nodes_def)
      next
        case latest: (Inr latest)
        show ?thesis
        proof (cases "safe_head (ch_RequiredConfirmations cfg) latest")
          case None
          with run Some True latest st1 show ?thesis
            by (simp add: ScanChainOnce_def go_try_def l go_return_eq with_nodes_def)
        next
          case head: (Some safeHead)
          with run Some True latest obtain rn st2 where nb: "nextBlock A s i safeHead st1 = Returned (rn, st2)"
            by (auto simp: ScanChainOnce_def go_try_def l split: go_outcome.splits)
          have c1: "curs (snd st1) = curs (snd st)" using st1 by (simp add: with_nodes_def)
          note next' = nextBlock_cursor [OF W _ _ cur(2,3) nb, unfolded c1, OF inv cur(1)]
          with st1 have st2: "?I st2" by (simp add: with_nodes_def)
          show ?thesis
          proof (cases rn)
            case (Inl e)
            with run Some True latest head st2 show ?thesis
              by (simp add: ScanChainOnce_def go_try_def l nb go_return_eq with_nodes_def)
          next
            case (Inr p)
            obtain nxt ini where p: "p = (nxt, ini)" by fastforce
            with next' Inr have n1: "\<not> ini" "int (unat nxt) = c + 1" by simp_all
            show ?thesis
            proof (cases "safeHead < nxt")
              case True
              with run Some \<open>ch_Enabled cfg\<close> latest head Inr p st2 show ?thesis
                by (simp add: ScanChainOnce_def go_try_def l nb go_return_eq with_nodes_def)
            next
              case False
              with run Some \<open>ch_Enabled cfg\<close> latest head Inr p n1(1)
              have "scan_blocks (nat (scan_BatchSize (ss_config s))) A s i latest safeHead nxt 0 st2 = Returned (Inr (n, err), st')"
                by (simp add: ScanChainOnce_def go_try_def l nb)
              with Some True head st2 n1(2) latestBlock_reports [OF l [unfolded latest]] show ?thesis by blast
            qed
          qed
        qed
      qed
    qed
  qed
qed

text \<open>C30: A scan of a chain whose cursor is at \<open>c\<close> and that processed \<open>n\<close> blocks, with or without an error,
  leaves the cursor at \<open>c + n\<close> and every other cursor alone. It processed exactly the blocks
  \<open>c + 1, ..., c + n\<close>, at most a batch, each without an error, and all of them have the required
  confirmations under a height that a node of the chain reported.
\<close>

theorem ScanChainOnce_cursor:
  fixes A :: "'w scanner_env"
  assumes W: "scanner_world A s rows curs evs" and nodes: "nodes_frame (same_tables rows curs evs) (fst st)"
    and heights: "heights_ok (fst st) i" and inv: "cursors_inv (curs (snd st))"
    and cur: "cursor_of (curs (snd st)) i = Some c" "0 \<le> c" "c < 2 ^ 63"
    and run: "ScanChainOnce A s i st = Returned (Inr (n, err), st')"
  shows "int n \<le> max 0 (scan_BatchSize (ss_config s)) \<and> cursors_inv (curs (snd st'))
    \<and> cursor_of (curs (snd st')) i = Some (c + int n)
    \<and> (\<forall>j. j \<noteq> i \<longrightarrow> cursor_of (curs (snd st')) j = cursor_of (curs (snd st)) j)
    \<and> (0 < n \<longrightarrow> (\<exists>cfg latest. Chain (fst st) i = Some cfg \<and> ch_Enabled cfg \<and> reports (fst st) i latest
      \<and> c + int n + int (max 1 (unat (ch_RequiredConfirmations cfg))) \<le> int (unat latest) + 1
      \<and> (\<forall>m < n. \<exists>st1 st2. process_block A s i latest (word_of_int (c + 1 + int m)) st1 = Returned (Inr (), st2))))"
proof -
  let ?I = "with_nodes (same_tables rows curs evs) (\<lambda>w. curs w = curs (snd st))"
  from ScanChainOnce_cases [OF W nodes inv cur run]
  show ?thesis
  proof (elim disjE exE conjE)
    assume "n = 0" "curs (snd st') = curs (snd st)"
    with inv cur(1) show ?thesis by simp
  next
    fix cfg latest safeHead nxt st2
    assume cfg: "Chain (fst st) i = Some cfg" "ch_Enabled cfg" "reports (fst st) i latest"
      and head: "safe_head (ch_RequiredConfirmations cfg) latest = Some safeHead" and st2: "?I st2"
      and nxt: "int (unat nxt) = c + 1"
      and scan: "scan_blocks (nat (scan_BatchSize (ss_config s))) A s i latest safeHead nxt 0 st2 = Returned (Inr (n, err), st')"
    note h = safe_head_Some [OF head]
    have small: "unat safeHead < 2 ^ 63" using h(2) heights cfg(3) unfolding heights_ok_def by (metis le_less_trans)
    have c2: "curs (snd st2) = curs (snd st)" and f2: "nodes_frame (same_tables rows curs evs) (fst st2)"
      using st2 by (simp_all add: with_nodes_def)
    from scan_blocks_spec [OF W small scan, unfolded c2, OF inv f2 cur(1) nxt]
    obtain k where "n = 0 + k" and k: "k \<le> nat (scan_BatchSize (ss_config s))" "cursors_inv (curs (snd st'))"
        "cursor_of (curs (snd st')) i = Some (c + int k)"
        "\<forall>j. j \<noteq> i \<longrightarrow> cursor_of (curs (snd st')) j = cursor_of (curs (snd st)) j"
        "0 < k \<longrightarrow> c + int k \<le> int (unat safeHead)"
        "\<forall>m < k. \<exists>st1 st2. process_block A s i latest (word_of_int (c + 1 + int m)) st1 = Returned (Inr (), st2)"
      by blast
    then have kn: "k = n" by simp
    have "c + int n + int (max 1 (unat (ch_RequiredConfirmations cfg))) \<le> int (unat latest) + 1" if "0 < n"
      using k(5) h(1) that unfolding kn by linarith
    moreover have "int n \<le> max 0 (scan_BatchSize (ss_config s))" using k(1) unfolding kn by linarith
    ultimately show ?thesis using k cfg unfolding kn by blast
  qed
qed

section \<open>The keys of the tables\<close>

lemma keeps_scan_blocks:
  assumes "\<And>bn. keeps I (process_block A s i latest bn)"
  shows "keeps I (scan_blocks fuel A s i latest safeHead bn k)"
proof (induction fuel arbitrary: bn k)
  case (Suc fuel)
  show ?case unfolding scan_blocks.simps
    by (intro keeps_if keeps_try keeps_case_sum keeps_return assms Suc)
qed (simp add: keeps_return)

lemma keeps_ScanChainOnce:
  assumes W: "scanner_world A s rows curs evs"
  shows "keeps (with_nodes (same_tables rows curs evs) (tables_inv s rows curs evs)) (ScanChainOnce A s i)"
proof -
  let ?T = "tables_inv s rows curs evs"
  let ?I = "with_nodes (same_tables rows curs evs) ?T"
  note keep = table_ops_keep [OF W]
  have sc: "scanner_ok (ss_cursors s) curs evs" using W by (simp add: scanner_world_def)
  have frame: "evs (snd (sr_SaveCursor (ss_cursors s) c w)) = evs w" "rows t (snd (sr_SaveCursor (ss_cursors s) c w)) = rows t w"
    "evs (snd (sr_GetCursor (ss_cursors s) j w)) = evs w" "rows t (snd (sr_GetCursor (ss_cursors s) j w)) = rows t w" for c w t j
    using W unfolding scanner_world_def by simp_all
  have save: "?T (snd (sr_SaveCursor (ss_cursors s) c w))" if "?T w" for c w
  proof -
    obtain e w' where sv: "sr_SaveCursor (ss_cursors s) c w = (e, w')" by fastforce
    have "cursors_inv (curs w')"
      using SaveCursor_None(1) [OF sc, of c w] SaveCursor_Some [OF sc, of c w] sv that
      by (cases e) (auto simp: tables_inv_def)
    with sv frame(1) [of c w] frame(2) [of _ c w] that show ?thesis by (simp add: tables_inv_def tx_inv_def)
  qed
  have get: "?T (snd (sr_GetCursor (ss_cursors s) j w))" if "?T w" for j w
  proof -
    obtain e w' where g: "sr_GetCursor (ss_cursors s) j w = (e, w')" by fastforce
    with GetCursor_rows(1) [OF sc g] frame(3) [of j w] frame(4) [of _ j w] that show ?thesis by (simp add: tables_inv_def tx_inv_def)
  qed
  have sv: "keeps ?I (save_cursor A s i bn b)" for bn b
    unfolding save_cursor_def by (intro keeps_bind primitive_ops [OF keep] keeps_in_world_err save)
  have nb: "keeps ?I (nextBlock A s i h)" for h
    unfolding nextBlock_def
    by (intro keeps_intros keeps_in_world get sv keeps_blockByNumber [OF keep])
  have pb: "keeps ?I (process_block A s i latest bn)" for latest bn
    unfolding process_block_def by (intro keeps_bind keeps_blockByNumber [OF keep] keeps_scanBlock [OF keep] sv)
  show ?thesis unfolding ScanChainOnce_def
    by (intro keeps_bind keeps_try keeps_case_option keeps_case_sum keeps_case_prod keeps_if keeps_return
        keeps_chain_config keeps_latestBlock [OF keep] nb keeps_scan_blocks pb)
qed

lemma keeps_scanEnabledChains:
  assumes "\<And>i. keeps I (ScanChainOnce A s i)"
  shows "keeps I (scanEnabledChains A s is)"
proof (induction "is")
  case (Cons i "is")
  have "keeps I (go_get (\<lambda>st. (se_done A (snd st), st)))" by (simp add: keeps_def go_get_def)
  then show ?case unfolding scanEnabledChains.simps by (intro keeps_bind keeps_if keeps_return assms Cons)
qed (simp add: keeps_return)

text \<open>What the other goroutines of the service may do between the ticks.\<close>

definition others_keep :: "('w chain_state \<Rightarrow> 'w chain_state \<Rightarrow> bool) \<Rightarrow> ('w chain_state \<Rightarrow> bool) \<Rightarrow> bool" where
  "others_keep other I \<longleftrightarrow> (\<forall>st st'. other st st' \<longrightarrow> I st \<longrightarrow> I st')"


section \<open>The logs of a block\<close>

text \<open>The logs that a block is scanned for are the answers of nodes to the query by sender and the query by
  receiver, and every log that either answer holds is scanned exactly once.
\<close>

theorem transferLogs_once:
  fixes A :: "'w scanner_env"
  assumes "transferLogs A i bn topics st = Returned (Inr logs, st')"
  shows "\<exists>from_logs to_logs. (\<exists>(c :: 'w Client) w w'. cl_FilterLogs c (transfer_queries (se_evm A) bn topics ! 0) w = (Inr from_logs, w'))
    \<and> (\<exists>(c :: 'w Client) w w'. cl_FilterLogs c (transfer_queries (se_evm A) bn topics ! 1) w = (Inr to_logs, w'))
    \<and> distinct (map (log_key (se_evm A)) logs)
    \<and> log_key (se_evm A) ` set logs = log_key (se_evm A) ` (set from_logs \<union> set to_logs)
    \<and> set logs \<subseteq> set from_logs \<union> set to_logs"
proof (rule run_queries_Inr [OF assms [unfolded transferLogs_def]])
  fix answers
  assume a: "length answers = length (transfer_queries (se_evm A) bn topics)"
    "\<And>k. k < length (transfer_queries (se_evm A) bn topics) \<Longrightarrow>
      \<exists>(c :: 'w Client) w w'. cl_FilterLogs c (transfer_queries (se_evm A) bn topics ! k) w = (Inr (answers ! k), w')"
    "distinct (map (log_key (se_evm A)) logs)"
    "log_key (se_evm A) ` set logs = log_key (se_evm A) ` (set [] \<union> set (concat answers))"
    "set logs \<subseteq> set [] \<union> set (concat answers)"
  have two: "length (transfer_queries (se_evm A) bn topics) = 2" by (simp add: transfer_queries_def)
  with a(1) obtain l1 l2 where l: "answers = [l1, l2]" by (auto simp: length_Suc_conv numeral_2_eq_2)
  show ?thesis using a(2) [of 0] a(2) [of 1] a(3-5) unfolding l two
    by (intro exI [of _ l1] exI [of _ l2]) simp
qed simp_all

section \<open>A concrete scan\<close>

text \<open>A node at height 100 whose blocks are empty but for one log, and a cursor at block 87.\<close>

type_synonym scan_state = "(Wallet list \<times> (string \<Rightarrow> WalletTransaction list)) \<times> ChainScanCursor list \<times> ChainEventReceipt list"

definition sample_log :: Log where
  "sample_log = \<lparr>log_Address = [], log_Topics = [], log_Data = [], log_TxHash = [], log_Index = 4\<rparr>"

definition block_node :: "'w Client" where
  "block_node = quiet_node\<lparr>cl_BlockByNumber := (\<lambda>n w. (Inr (Some \<lparr>bl_Transactions = [], bl_Number = n, bl_Hash = [], bl_Time = 9\<rparr>), w)),
     cl_FilterLogs := (\<lambda>q w. (Inr [sample_log], w))\<rparr>"

definition block_manager :: "u64 \<Rightarrow> 'w ClientManager" where
  "block_manager k = \<lparr>cm_chains = [(1, \<lparr>pool_config = plain_chain 1, pool_clients = [block_node], pool_next = k\<rparr>)],
     cm_requestTimeout = 1, cm_retryCount = 0, cm_closed = False\<rparr>"

lemma block_Execute:
  fixes w :: 'w
  assumes "operation block_node w = (Inr r, w)"
  shows "Execute (\<lambda>_. None) 1 operation (block_manager k, w) = Returned (Inr r, (block_manager (k + 1), w))"
proof -
  have "client_at [c] (sint k smod 1 + 0) = Some c" for c :: "'w Client" by (simp add: client_at_def smod_int_alt_def sgn_if)
  moreover have "attempts_of (block_manager k :: 'w ClientManager) = Suc 0"
    by (simp add: attempts_of_def block_manager_def go_int_def)
  ultimately show ?thesis using assms by (simp add: Execute_def block_manager_def Let_def)
qed

definition sample_scanner :: "scan_state ScannerService" where
  "sample_scanner =
    \<lparr>ss_wallets = \<lparr>wr_db = list_gorm (\<lambda>w. fst (fst w)) (\<lambda>rs w. ((rs, snd (fst w)), snd w)) 7 (wallet_table (\<lambda>w. fst (fst w)))\<rparr>,
     ss_transactions = \<lparr>xr_db = (\<lambda>t. list_gorm_up (\<lambda>w. snd (fst w) t) (\<lambda>rs w. ((fst (fst w), (snd (fst w))(t := rs)), snd w)) 7
       (tx_table (\<lambda>w. snd (fst w) t))), xr_router = NewTransactionRouter\<rparr>,
     ss_cursors = \<lparr>sr_cursors = list_gorm_up (\<lambda>w. fst (snd w)) (\<lambda>rs w. (fst w, (rs, snd (snd w)))) 7 (cursor_table (\<lambda>w. fst (snd w))),
       sr_events = list_gorm_up (\<lambda>w. snd (snd w)) (\<lambda>rs w. (fst w, (fst (snd w), rs))) 7 (event_table (\<lambda>w. snd (snd w)))\<rparr>,
     ss_config = \<lparr>scan_Enabled = True, scan_PollInterval = ''15s'', scan_BatchSize = 1, scan_StartBlock = 0\<rparr>\<rparr>"

definition sample_scan_env :: "scan_state scanner_env" where
  "sample_scan_env = \<lparr>se_platform = sample_platform, se_evm = sample_evm, se_done = (\<lambda>_. None), se_marshal = (\<lambda>_. Inr []),
     se_errtext = (\<lambda>_. []), se_order = id\<rparr>"

definition sample_cursor :: "int \<Rightarrow> ChainScanCursor" where
  "sample_cursor n = \<lparr>cu_ChainID = 1, cu_BlockNumber = n, cu_BlockHash = [], cu_LastScannedAt = 5, cu_UpdatedAt = 5\<rparr>"

abbreviation cursor_world :: "int \<Rightarrow> scan_state" where
  "cursor_world n \<equiv> (([], \<lambda>t. []), ([sample_cursor n], []))"

abbreviation scan_txs :: "string \<Rightarrow> scan_state \<Rightarrow> WalletTransaction list" where
  "scan_txs t w \<equiv> snd (fst w) t"

abbreviation scan_cursors :: "scan_state \<Rightarrow> ChainScanCursor list" where
  "scan_cursors w \<equiv> fst (snd w)"

abbreviation scan_events :: "scan_state \<Rightarrow> ChainEventReceipt list" where
  "scan_events w \<equiv> snd (snd w)"

lemma sample_scan_tables: "tx_repo_ok (ss_transactions sample_scanner) scan_txs"
  unfolding tx_repo_ok_def
proof (intro conjI allI impI)
  show "gorm_up_ok (xr_db (ss_transactions sample_scanner) t) (tx_table (scan_txs t))" for t
    unfolding sample_scanner_def ScannerService.simps TransactionRepository.simps by (rule list_gorm_up_ok) simp_all
qed (auto simp: sample_scanner_def list_gorm_up_simps list_gorm_up_def gorm.extend_def gorm_up.fields_def list_gorm_def split: list.splits)

lemma sample_scan_ok: "scanner_ok (ss_cursors sample_scanner) scan_cursors scan_events"
  by (simp add: scanner_ok_def sample_scanner_def list_gorm_up_ok)

lemma sample_scan_world: "scanner_world sample_scan_env sample_scanner scan_txs scan_cursors scan_events"
proof -
  have reads: "snd (wr_FindByChainAddress (ss_wallets sample_scanner) i a w) = w"
    "snd (wr_ListActiveByChain (ss_wallets sample_scanner) i w) = w" "snd (sr_GetCursor (ss_cursors sample_scanner) i w) = w" for i a w
    by (simp_all add: wr_FindByChainAddress_def wr_ListActiveByChain_def sr_GetCursor_def sample_scanner_def
        list_gorm_def list_gorm_up_def gorm.extend_def split: list.splits)
  have frames: "scan_cursors (snd (xr_Upsert (ss_transactions sample_scanner) x w)) = scan_cursors w"
    "scan_events (snd (xr_Upsert (ss_transactions sample_scanner) x w)) = scan_events w" for x w
    by (simp_all add: xr_Upsert_def sample_scanner_def list_gorm_up_simps split: sum.splits)
  have ev: "fst (snd (sr_CreateEventIfAbsent (ss_cursors sample_scanner) e w)) = fst w
      \<and> scan_cursors (snd (sr_CreateEventIfAbsent (ss_cursors sample_scanner) e w)) = scan_cursors w"
    "fst (snd (sr_MarkEventProcessed (ss_cursors sample_scanner) i n w)) = fst w
      \<and> scan_cursors (snd (sr_MarkEventProcessed (ss_cursors sample_scanner) i n w)) = scan_cursors w"
    "fst (snd (sr_MarkEventFailed (ss_cursors sample_scanner) i m w)) = fst w
      \<and> scan_cursors (snd (sr_MarkEventFailed (ss_cursors sample_scanner) i m w)) = scan_cursors w"
    "fst (snd (sr_SaveCursor (ss_cursors sample_scanner) c w)) = fst w
      \<and> scan_events (snd (sr_SaveCursor (ss_cursors sample_scanner) c w)) = scan_events w" for e i n m c w
    by (simp_all add: sr_CreateEventIfAbsent_def sr_MarkEventProcessed_def sr_MarkEventFailed_def sr_SaveCursor_def sample_scanner_def
        list_gorm_up_simps, simp_all add: list_gorm_up_def list_gorm_def gorm.extend_def)
  have "snd (p_now (se_platform sample_scan_env) w) = w" "snd (p_uuid (se_platform sample_scan_env) w) = w" for w
    by (simp_all add: sample_scan_env_def sample_platform_def)
  then show ?thesis unfolding scanner_world_def same_tables_def
    by (simp add: sample_scan_tables sample_scan_ok reads frames ev)
qed

lemma sample_scan: "ScanChainOnce sample_scan_env sample_scanner 1 (block_manager 0, cursor_world 87) =
  Returned (Inr (1, None), (block_manager 2, cursor_world 88))"
proof -
  have ch: "Chain (block_manager 0) 1 = Some (plain_chain 1)" by (simp add: Chain_def block_manager_def)
  have latest: "latestBlock sample_scan_env 1 (block_manager 0, w) = Returned (Inr 100, (block_manager 1, w))" for w
    using block_Execute [of cl_BlockNumber w 100 0]
    by (simp add: latestBlock_def sample_scan_env_def block_node_def quiet_node_def)
  have head: "safe_head (ch_RequiredConfirmations (plain_chain 1)) 100 = Some 89" by code_simp
  have [simp]: "cu_BlockNumber (sample_cursor n) = n" for n by (simp add: sample_cursor_def)
  have cursor: "sr_GetCursor (ss_cursors sample_scanner) 1 (cursor_world 87) = (Inr (sample_cursor 87), cursor_world 87)"
    by (simp add: sr_GetCursor_def sample_scanner_def list_gorm_up_def list_gorm_def gorm.extend_def sort_by_def sample_cursor_def)
  have nxt: "nextBlock sample_scan_env sample_scanner 1 89 (m, cursor_world 87) = Returned (Inr (88, False), (m, cursor_world 87))" for m
    by (simp add: nextBlock_def go_try_def go_call_def in_world_def cursor go_return_def)
  let ?b = "\<lparr>bl_Transactions = [], bl_Number = 88, bl_Hash = [], bl_Time = 9\<rparr>"
  have block: "blockByNumber sample_scan_env 1 88 (block_manager 1, w) = Returned (Inr ?b, (block_manager 2, w))" for w
    using block_Execute [of "\<lambda>c. cl_BlockByNumber c 88" w "Some ?b" 1]
    by (simp add: blockByNumber_def sample_scan_env_def go_bind_def go_try_def) (simp add: block_node_def go_return_def)
  have "wr_ListActiveByChain (ss_wallets sample_scanner) 1 (cursor_world n) = (Inr [], cursor_world n)" for n
    by (simp add: wr_ListActiveByChain_def sample_scanner_def list_gorm_def sort_by_def)
  then have scan: "scanBlock sample_scan_env sample_scanner 1 100 ?b (m, cursor_world n) = Returned (Inr (), (m, cursor_world n))" for m n
    by (simp add: scanBlock_def scanERC20Transfers_def go_bind_def go_try_def go_call_def in_world_def go_return_def)
  have "sint (88 :: u64) = 88" by simp
  then have save: "save_cursor sample_scan_env sample_scanner 1 88 ?b (m, cursor_world 87) = Returned (Inr (), (m, cursor_world 88))" for m
    by (simp add: save_cursor_def go_bind_def go_try_def go_get_def in_world_def sample_scan_env_def sample_platform_def
        go_call_err_def sr_SaveCursor_def sample_scanner_def list_gorm_up_simps upserted_def sample_cursor_def cursor_table_def
        move_cursor_def zero_time_def sample_evm_def)
  have process: "process_block sample_scan_env sample_scanner 1 100 88 (block_manager 1, cursor_world 87)
      = Returned (Inr (), (block_manager 2, cursor_world 88))"
    by (simp add: process_block_def go_bind_def go_try_def block scan save)
  have blocks: "scan_blocks (Suc 0) sample_scan_env sample_scanner 1 100 89 88 0 (block_manager 1, cursor_world 87)
      = Returned (Inr (1, None), (block_manager 2, cursor_world 88))"
    by (simp add: go_try_def process go_return_def)
  have "ch_Enabled (plain_chain 1)" "nat (scan_BatchSize (ss_config sample_scanner)) = Suc 0"
    by (simp_all add: plain_chain_def sample_scanner_def)
  then show ?thesis unfolding ScanChainOnce_def
    by (simp add: ch go_try_def latest head nxt blocks del: scan_blocks.simps)
qed

theorem ScanChainOnce_cursor_witness:
  "cursor_of (scan_cursors (cursor_world 87)) 1 = Some 87
    \<and> ScanChainOnce sample_scan_env sample_scanner 1 (block_manager 0, cursor_world 87)
      = Returned (Inr (1, None), (block_manager 2, cursor_world 88))
    \<and> cursor_of (scan_cursors (cursor_world 88)) 1 = Some (87 + int 1)
    \<and> (\<exists>latest. reports (block_manager 0 :: scan_state ClientManager) 1 latest \<and> 88 + 12 \<le> unat latest + 1)"
proof -
  let ?m = "block_manager 0 :: scan_state ClientManager"
  have frame: "nodes_frame (same_tables scan_txs scan_cursors scan_events) (fst (?m, cursor_world 87))"
    by (simp add: nodes_frame_def block_manager_def client_frame_def block_node_def quiet_node_def same_tables_def)
  have heights: "heights_ok (fst (?m, cursor_world 87)) 1"
    by (simp add: heights_ok_def reports_def block_manager_def block_node_def quiet_node_def)
  have cur: "cursors_inv (scan_cursors (snd (?m, cursor_world n)))" "cursor_of (scan_cursors (snd (?m, cursor_world n))) 1 = Some n" for n
    by (simp_all add: cursors_inv_def cursor_of_def sample_cursor_def)
  note spec = ScanChainOnce_cursor [OF sample_scan_world frame heights cur(1) cur(2) _ _ sample_scan]
  have "Chain ?m 1 = Some (plain_chain 1)" "unat (ch_RequiredConfirmations (plain_chain 1)) = 12"
    by (simp_all add: Chain_def block_manager_def plain_chain_def)
  with spec obtain latest where "reports ?m 1 latest" "87 + int 1 + int (max 1 12) \<le> int (unat latest) + 1"
    by auto
  then have "\<exists>latest. reports ?m 1 latest \<and> 88 + 12 \<le> unat latest + 1"
    by (intro exI [of _ latest]) linarith
  with spec cur(2) [of 87] sample_scan show ?thesis by simp
qed


theorem transferLogs_once_witness:
  "\<exists>logs. transferLogs sample_scan_env 1 88 [] (block_manager 0, cursor_world 87) = Returned (Inr logs, (block_manager 2, cursor_world 87))
    \<and> logs = [sample_log] \<and> distinct (map (log_key sample_evm) logs)"
proof -
  let ?w = "cursor_world 87"
  have ex: "Execute (\<lambda>_. None) 1 (\<lambda>c. cl_FilterLogs c q) (block_manager k, ?w) = Returned (Inr [sample_log], (block_manager (k + 1), ?w))" for q k
    using block_Execute [of "\<lambda>c. cl_FilterLogs c q" ?w "[sample_log]" k] by (simp add: block_node_def)
  have run: "transferLogs sample_scan_env 1 88 [] (block_manager 0, ?w) = Returned (Inr [sample_log], (block_manager 2, ?w))"
    by (simp add: transferLogs_def transfer_queries_def sample_scan_env_def go_bind_def go_try_def ex go_return_def)
  from transferLogs_once [OF run] have "distinct (map (log_key (se_evm sample_scan_env)) [sample_log])" by blast
  with run show ?thesis by (simp add: sample_scan_env_def)
qed

end
