(* ===== verification/User_Auth.thy ===== *)
theory User_Auth
  imports Web3_Auth
begin

text \<open>
  The authentication interceptor of the user service, \<open>user/internal/middleware/auth.go\<close>. It differs
  from that of the Web3 service in the health check, in the configured roles, which keep their spelling,
  and in \<open>roleAllowed\<close>, which tests the wrong argument for emptiness and does not normalize the roles of
  the rule. Its \<open>Identity\<close> has the same fields.
\<close>

definition user_NewAuthInterceptor :: "AuthConfig \<Rightarrow> go_error + string list" where
  "user_NewAuthInterceptor cfg =
    (let access = ac_AccessToken cfg
     in if TrimSpace (at_Algorithm access) \<noteq> ''RS256''
        then Inl (PlainErr (''unsupported JWT algorithm '' @ go_quote (at_Algorithm access)))
        else if TrimSpace (at_Issuer access) = [] \<or> TrimSpace (at_Audience access) = []
        then Inl (PlainErr ''JWT issuer and audience are required'')
        else if TrimSpace (at_JWKSURL access) = [] then Inl (PlainErr ''JWT JWKS URL is required'')
        else
          let roles = map TrimSpace (filter (\<lambda>role. TrimSpace role \<noteq> []) (at_RolePriority access))
          in if roles = [] then Inl (PlainErr ''JWT role priority is required'') else Inr roles)"

definition user_grpcFullMethod :: "string \<Rightarrow> go_error + string" where
  "user_grpcFullMethod fullMethod =
    (case Split (CHR ''/'') (trim_prefix fullMethod ''/'') of
       [service, meth] \<Rightarrow>
         if service = [] \<or> meth = [] then Inl (PlainErr (''invalid grpc method '' @ go_quote fullMethod))
         else Inr (service @ ''.'' @ meth)
     | _ \<Rightarrow> Inl (PlainErr (''invalid grpc method '' @ go_quote fullMethod)))"

definition user_resolveAuthRule :: "(string \<Rightarrow> go_error + descriptor) \<Rightarrow> string \<Rightarrow> go_error + AuthRule" where
  "user_resolveAuthRule registry fullMethod =
    (case user_grpcFullMethod fullMethod of
       Inl err \<Rightarrow> Inl err
     | Inr descriptorName \<Rightarrow>
         (case registry descriptorName of
            Inl err \<Rightarrow> Inl err
          | Inr OtherDescriptor \<Rightarrow> Inl (PlainErr (''descriptor '' @ go_quote descriptorName @ '' is not a method''))
          | Inr NoMethodOptions \<Rightarrow> Inl (PlainErr (''descriptor '' @ go_quote descriptorName @ '' has no options''))
          | Inr NoAuthOption \<Rightarrow> Inr empty_rule
          | Inr (AuthOption None) \<Rightarrow>
              Inl (PlainErr (''protobuf method '' @ go_quote descriptorName @ '' has an invalid auth option''))
          | Inr (AuthOption (Some rule)) \<Rightarrow> Inr rule))"

definition user_authRuleForMethod :: "'w auth_env \<Rightarrow> string \<Rightarrow> ('w auth_state, AuthRule) go" where
  "user_authRuleForMethod E fullMethod = cached_rule (user_resolveAuthRule (ae_registry E)) fullMethod"

definition user_primaryRole :: "string list \<Rightarrow> string list \<Rightarrow> string" where
  "user_primaryRole tokenRoles priority =
    (let available = map (\<lambda>role. replace_char (CHR ''_'') (CHR ''-'') (TrimSpace role)) tokenRoles
     in case find_first (\<lambda>role. replace_char (CHR ''_'') (CHR ''-'') (TrimSpace role) \<in> set available) priority of
          Some role \<Rightarrow> role | None \<Rightarrow> [])"

definition user_roleAllowed :: "string \<Rightarrow> string list \<Rightarrow> bool" where
  "user_roleAllowed role roles =
    (if length role = 0 then True
     else list_ex (\<lambda>allowedRole. replace_char (CHR ''_'') (CHR ''-'') role = allowedRole) roles)"

definition user_authenticate :: "'w auth_env \<Rightarrow> string list \<Rightarrow> string \<Rightarrow> Identity server_ctx
    \<Rightarrow> ('w auth_state, Identity server_ctx) go" where
  "user_authenticate E rolePriority fullMethod ctx =
    (if fullMethod = ''/grpc.health.v1.Health/Check'' then go_return ctx
     else
       go_bind (user_authRuleForMethod E fullMethod) (\<lambda>rule.
         if ar_Public rule then go_return ctx
         else
           go_bind (go_lift (bearerTokenFromMetadata ctx)) (\<lambda>rawToken.
           go_bind (validateJWT E rawToken) (\<lambda>claims.
             let role = user_primaryRole (tc_Roles claims) rolePriority
             in if role = [] then go_fail (Unauthorized ''access token has no application role'')
                else if \<not> user_roleAllowed role (ar_Roles rule)
                then go_fail (Forbidden ''the current role cannot access this method'')
                else go_return (ctx\<lparr>sc_identity := Some (identity_of claims role)\<rparr>)))))"

definition user_Unary :: "'w auth_env \<Rightarrow> string list \<Rightarrow> string \<Rightarrow> (Identity server_ctx \<Rightarrow> 'req \<Rightarrow> ('w auth_state, 'resp) go)
    \<Rightarrow> Identity server_ctx \<Rightarrow> 'req \<Rightarrow> ('w auth_state, 'resp) go" where
  "user_Unary E rolePriority fullMethod handler ctx req =
    go_bind (user_authenticate E rolePriority fullMethod ctx) (\<lambda>authenticatedCtx. handler authenticatedCtx req)"

definition user_Stream :: "'w auth_env \<Rightarrow> string list \<Rightarrow> string \<Rightarrow> (Identity server_ctx \<Rightarrow> ('w auth_state, unit) go)
    \<Rightarrow> Identity server_ctx \<Rightarrow> ('w auth_state, unit) go" where
  "user_Stream E rolePriority fullMethod handler ctx =
    go_bind (user_authenticate E rolePriority fullMethod ctx) handler"

section \<open>Who is admitted\<close>

abbreviation user_cache_ok :: "'w auth_env \<Rightarrow> 'w auth_state \<Rightarrow> bool" where
  "user_cache_ok E \<equiv> rules_ok (user_resolveAuthRule (ae_registry E))"

definition user_priority_ok :: "string list \<Rightarrow> bool" where
  "user_priority_ok roles \<longleftrightarrow> roles \<noteq> [] \<and> [] \<notin> set roles"

text \<open>The identity carries the role as it is spelled in the configuration.\<close>

definition user_entitled :: "string list \<Rightarrow> AuthRule \<Rightarrow> accessTokenClaims \<Rightarrow> Identity \<Rightarrow> bool" where
  "user_entitled priority rule claims i \<longleftrightarrow>
     TrimSpace (tc_Subject claims) \<noteq> [] \<and> TrimSpace (tc_ID claims) \<noteq> []
   \<and> (\<exists>role. best_role (tc_Roles claims) priority = Some role
        \<and> replace_char (CHR ''_'') (CHR ''-'') role \<in> set (ar_Roles rule) \<and> i = identity_of claims role)"

definition user_admits :: "'w auth_env \<Rightarrow> string list \<Rightarrow> 'w auth_state \<Rightarrow> string \<Rightarrow> Identity server_ctx \<Rightarrow> Identity server_ctx \<Rightarrow> bool" where
  "user_admits E priority st m c c' \<longleftrightarrow>
     (if m = ''/grpc.health.v1.Health/Check'' then c' = c
      else (\<exists>rule. user_resolveAuthRule (ae_registry E) m = Inr rule
        \<and> (if ar_Public rule then c' = c
           else (\<exists>token claims i. bearerTokenFromMetadata c = Inr token \<and> fst (ae_verify E token (snd st)) = Inr (Inr claims)
             \<and> user_entitled priority rule claims i \<and> c' = c\<lparr>sc_identity := Some i\<rparr>))))"

definition user_decide :: "string list \<Rightarrow> accessTokenClaims \<Rightarrow> AuthRule \<Rightarrow> go_error + Identity" where
  "user_decide priority claims rule =
    (let role = user_primaryRole (tc_Roles claims) priority
     in if role = [] then Inl (Unauthorized ''access token has no application role'')
        else if \<not> user_roleAllowed role (ar_Roles rule) then Inl (Forbidden ''the current role cannot access this method'')
        else Inr (identity_of claims role))"

lemma user_primaryRole_best:
  assumes "user_priority_ok priority"
  shows "user_primaryRole tokens priority = (case best_role tokens priority of None \<Rightarrow> [] | Some r \<Rightarrow> r)"
    "best_role tokens priority = Some r \<Longrightarrow> r \<noteq> []"
proof -
  have "user_primaryRole tokens priority = (case find (\<lambda>r. normal_role r \<in> set (map normal_role tokens)) priority of
      None \<Rightarrow> [] | Some r \<Rightarrow> r)"
    by (simp add: user_primaryRole_def normal_role_def [symmetric] find_first_find Let_def split: option.split)
  then show "user_primaryRole tokens priority = (case best_role tokens priority of None \<Rightarrow> [] | Some r \<Rightarrow> r)"
    by (simp only: best_role_def set_map)
  show "r \<noteq> []" if "best_role tokens priority = Some r"
    using that assms unfolding best_role_def user_priority_ok_def find_Some_iff by (metis nth_mem)
qed

lemma user_authenticate_gate: "user_authenticate E priority m c = gate (m = ''/grpc.health.v1.Health/Check'')
    (cached_rule (user_resolveAuthRule (ae_registry E)) m) (bearerTokenFromMetadata c) (validateJWT E) (user_decide priority) c"
  unfolding user_authenticate_def gate_def user_decide_def Let_def user_authRuleForMethod_def
  by (intro if_cong refl arg_cong2 [where f = go_bind] ext) simp_all

lemma user_admits_passes:
  assumes "user_priority_ok priority"
  shows "passes (m = ''/grpc.health.v1.Health/Check'') (user_resolveAuthRule (ae_registry E) m) (bearerTokenFromMetadata c)
    (valid_claims E (snd st)) (user_decide priority) c c' \<longleftrightarrow> user_admits E priority st m c c'"
proof -
  have eq: "user_decide priority claims rule = Inr i \<and> valid_claims E (snd st) token = Inr claims \<longleftrightarrow>
      fst (ae_verify E token (snd st)) = Inr (Inr claims) \<and> user_entitled priority rule claims i" for claims rule i token
    using user_primaryRole_best(2) [OF assms, of "tc_Roles claims"]
    by (auto simp: user_decide_def user_entitled_def valid_claims_Inr user_primaryRole_best(1) [OF assms] user_roleAllowed_def
        list_ex_iff Let_def split: option.splits if_splits)
  have "(\<exists>token claims i. bearerTokenFromMetadata c = Inr token \<and> valid_claims E (snd st) token = Inr claims
        \<and> user_decide priority claims rule = Inr i \<and> c' = c\<lparr>sc_identity := Some i\<rparr>)
    \<longleftrightarrow> (\<exists>token claims i. bearerTokenFromMetadata c = Inr token \<and> fst (ae_verify E token (snd st)) = Inr (Inr claims)
        \<and> user_entitled priority rule claims i \<and> c' = c\<lparr>sc_identity := Some i\<rparr>)" for rule
    by (intro iff_exI) (use eq in blast)
  then show ?thesis unfolding passes_def user_admits_def by simp
qed

interpretation user_auth: authenticator "user_authenticate E priority" "user_admits E priority"
    "\<lambda>st. user_cache_ok E st \<and> user_priority_ok priority" for E :: "'w auth_env" and priority
  using user_admits_passes by (intro gate_authenticator) (simp_all add: user_authenticate_gate)

lemma user_NewAuthInterceptor_priority: "user_NewAuthInterceptor cfg = Inr priority \<Longrightarrow> user_priority_ok priority"
  by (auto simp: user_NewAuthInterceptor_def Let_def user_priority_ok_def split: if_splits)

text \<open>C38: The empty list of roles means any identity, says the definition of the option. The user service refuses
  every caller of a method that is not public and lists no roles, whatever token it presents, and never
  runs the handler.\<close>

theorem user_refuses_unrestricted:
  fixes E :: "'w auth_env" and handler :: "Identity server_ctx \<Rightarrow> 'req \<Rightarrow> ('w auth_state, 'resp) go"
  assumes new: "user_NewAuthInterceptor cfg = Inr priority" and cache: "user_cache_ok E st"
    and m: "m \<noteq> ''/grpc.health.v1.Health/Check''" "user_resolveAuthRule (ae_registry E) m = Inr rule"
    and rule: "\<not> ar_Public rule" "ar_Roles rule = []"
  shows "\<exists>e st'. user_Unary E priority m handler c req st = Returned (Inl e, st')"
proof -
  have "\<not> user_admits E priority st m c c'" for c'
    using m rule by (simp add: user_admits_def user_entitled_def)
  moreover have "user_cache_ok E st \<and> user_priority_ok priority" using cache user_NewAuthInterceptor_priority [OF new] by simp
  note user_auth.intercepted [OF this, of m c handler req]
  ultimately show ?thesis unfolding user_Unary_def by blast
qed

theorem user_refuses_unrestricted_witness:
  "\<exists>e st'. user_Unary \<lparr>ae_registry = (\<lambda>n. Inr NoAuthOption), ae_verify = ae_verify sample_rule_env\<rparr> [''super_admin'', ''user''] ''/s/m''
      (\<lambda>c req. go_return ()) sample_call () ([], ()) = Returned (Inl e, st')
    \<and> fst (ae_verify sample_rule_env ''tok'' ()) \<noteq> Inl (PlainErr ''expired'')"
proof -
  have "TrimSpace ''RS256'' = ''RS256''" "TrimSpace ''i'' = ''i''" "TrimSpace ''a'' = ''a''" "TrimSpace ''k'' = ''k''"
    "TrimSpace ''super_admin'' = ''super_admin''" "TrimSpace ''user'' = ''user''"
    by (rule TrimSpace_plain; simp add: plain_char_def)+
  then have new: "user_NewAuthInterceptor sample_auth_config = Inr [''super_admin'', ''user'']"
    by (simp add: user_NewAuthInterceptor_def sample_auth_config_def)
  have "user_grpcFullMethod ''/s/m'' = Inr ''s.m''" by code_simp
  then have res: "user_resolveAuthRule (ae_registry \<lparr>ae_registry = (\<lambda>n. Inr NoAuthOption), ae_verify = ae_verify sample_rule_env\<rparr>) ''/s/m''
      = Inr empty_rule"
    by (simp add: user_resolveAuthRule_def)
  from user_refuses_unrestricted [OF new rules_ok_start _ res, of "\<lambda>c req. go_return ()" sample_call "()" "()"]
  show ?thesis by (simp add: empty_rule_def) (simp add: sample_rule_env_def)
qed

end
