(* ===== verification/Sql_Query.thy ===== *)
theory Sql_Query
  imports Gorm Sharding
begin

text \<open>
  Raw SQL. Where the code composes the text of a query, the model keeps that text, and this theory says what PostgreSQL
  makes of it: \<open>sql_tokens\<close> and \<open>sql_parse\<close> read the queries over a union of tables (with \<open>ORDER BY\<close>, \<open>LIMIT\<close> and
  \<open>OFFSET\<close>, whose placeholders take the arguments in the order of the text), and \<open>select_rows\<close> and \<open>select_sum\<close> are their
  answers. The grammar is the part of SQL that the user service writes; other texts have no meaning here.
\<close>

section \<open>Words\<close>

definition sql_flush :: "string \<Rightarrow> string list" where
  "sql_flush w = (if w = [] then [] else [w])"

definition sql_special :: "char \<Rightarrow> bool" where
  "sql_special c \<longleftrightarrow> c = CHR ''('' \<or> c = CHR '')'' \<or> c = CHR '',''"

fun sql_words :: "string \<Rightarrow> string \<Rightarrow> string list" where
  "sql_words w [] = sql_flush w"
| "sql_words w (c # cs) =
    (if c = CHR '' '' then sql_flush w @ sql_words [] cs
     else if sql_special c then sql_flush w @ [c] # sql_words [] cs
     else sql_words (w @ [c]) cs)"

definition sql_tokens :: "string \<Rightarrow> string list" where
  "sql_tokens s = sql_words [] s"

section \<open>Queries\<close>

datatype sql_item = Star | CountStar string | CoalesceSum string

record sql_query =
  sq_item :: sql_item
  sq_from :: "(sql_item \<times> string) list"
  sq_order :: "(string \<times> bool) list"
  sq_limit :: "nat option"
  sq_offset :: "nat option"

fun sql_expect :: "string list \<Rightarrow> string list \<Rightarrow> string list option" where
  "sql_expect [] ts = Some ts"
| "sql_expect (e # es) [] = None"
| "sql_expect (e # es) (t # ts) = (if t = e then sql_expect es ts else None)"

definition sql_item :: "string list \<Rightarrow> (sql_item \<times> string list) option" where
  "sql_item ts =
    (case sql_expect [''*''] ts of
       Some ts \<Rightarrow> Some (Star, ts)
     | None \<Rightarrow>
         (case sql_expect [''COUNT'', ''('', ''*'', '')'', ''AS''] ts of
            Some (c # ts) \<Rightarrow> Some (CountStar c, ts)
          | _ \<Rightarrow>
              (case sql_expect [''COALESCE'', ''('', ''SUM'', ''(''] ts of
                 Some (c # ts) \<Rightarrow> map_option (\<lambda>ts. (CoalesceSum c, ts)) (sql_expect ['')'', '','', ''0'', '')''] ts)
               | _ \<Rightarrow> None)))"

text \<open>A name that needs no quotes: lower-case letters, digits and underscores.\<close>

definition sql_name :: "string \<Rightarrow> bool" where
  "sql_name s \<longleftrightarrow> s \<noteq> [] \<and> (\<forall>c \<in> set s. prefix_char c)"

text \<open>\<open>SELECT item FROM table\<close>, and the branches of a union.\<close>

definition sql_branch :: "string list \<Rightarrow> ((sql_item \<times> string) \<times> string list) option" where
  "sql_branch ts =
    (case Option.bind (sql_expect [''SELECT''] ts) sql_item of
       None \<Rightarrow> None
     | Some (item, ts) \<Rightarrow>
         (case sql_expect [''FROM''] ts of
            Some (t # ts) \<Rightarrow> if sql_name t then Some ((item, t), ts) else None
          | _ \<Rightarrow> None))"

lemma sql_expect_length: "sql_expect es ts = Some us \<Longrightarrow> length ts = length es + length us"
  by (induction es ts rule: sql_expect.induct) (auto split: if_splits)

lemma sql_item_length: "sql_item ts = Some (item, us) \<Longrightarrow> length us < length ts"
  by (auto simp: sql_item_def split: option.splits list.splits dest!: sql_expect_length)

lemma sql_branch_length: "sql_branch ts = Some (b, us) \<Longrightarrow> length us < length ts"
  by (auto simp: sql_branch_def bind_eq_Some_conv split: option.splits list.splits if_splits
      dest!: sql_expect_length sql_item_length)

function sql_union :: "string list \<Rightarrow> ((sql_item \<times> string) list \<times> string list) option" where
  "sql_union ts =
    (case sql_branch ts of
       None \<Rightarrow> None
     | Some (b, us) \<Rightarrow>
         (case sql_expect [''UNION'', ''ALL''] us of
            None \<Rightarrow> Some ([b], us)
          | Some vs \<Rightarrow> (case sql_union vs of None \<Rightarrow> None | Some (bs, ws) \<Rightarrow> Some (b # bs, ws))))"
  by pat_completeness auto
termination
  by (relation "measure length") (auto dest!: sql_branch_length sql_expect_length)

declare sql_union.simps [simp del]

definition sql_direction :: "string list \<Rightarrow> bool \<times> string list" where
  "sql_direction ts =
    (case sql_expect [''DESC''] ts of
       Some us \<Rightarrow> (True, us)
     | None \<Rightarrow> (case sql_expect [''ASC''] ts of Some us \<Rightarrow> (False, us) | None \<Rightarrow> (False, ts)))"

lemma sql_direction_length: "sql_direction ts = (d, us) \<Longrightarrow> length us \<le> length ts"
  by (auto simp: sql_direction_def split: option.splits dest!: sql_expect_length)

function sql_keys :: "string list \<Rightarrow> ((string \<times> bool) list \<times> string list) option" where
  "sql_keys [] = None"
| "sql_keys (c # ts) =
    (case sql_direction ts of (d, us) \<Rightarrow>
       (case sql_expect ['',''] us of
          None \<Rightarrow> Some ([(c, d)], us)
        | Some vs \<Rightarrow> (case sql_keys vs of None \<Rightarrow> None | Some (ks, ws) \<Rightarrow> Some ((c, d) # ks, ws))))"
  by pat_completeness auto
termination
  by (relation "measure length") (auto dest!: sql_expect_length sql_direction_length [OF sym])

text \<open>\<open>LIMIT ?\<close> and \<open>OFFSET ?\<close> in either order; \<open>n\<close> is the number of the next placeholder.\<close>

fun sql_bounds :: "nat \<Rightarrow> string list \<Rightarrow> sql_query \<Rightarrow> sql_query option" where
  "sql_bounds n [] q = Some q"
| "sql_bounds n [k] q = None"
| "sql_bounds n (k # v # ts) q =
    (if v \<noteq> ''?'' then None
     else if k = ''LIMIT'' then sql_bounds (Suc n) ts (q\<lparr>sq_limit := Some n\<rparr>)
     else if k = ''OFFSET'' then sql_bounds (Suc n) ts (q\<lparr>sq_offset := Some n\<rparr>)
     else None)"

definition sql_order :: "string list \<Rightarrow> ((string \<times> bool) list \<times> string list) option" where
  "sql_order ts = (case sql_expect [''ORDER'', ''BY''] ts of None \<Rightarrow> Some ([], ts) | Some us \<Rightarrow> sql_keys us)"

definition sql_parse :: "string \<Rightarrow> sql_query option" where
  "sql_parse s =
    (case Option.bind (sql_expect [''SELECT''] (sql_tokens s)) sql_item of
       None \<Rightarrow> None
     | Some (item, ts) \<Rightarrow>
         (case Option.bind (sql_expect [''FROM'', ''(''] ts) sql_union of
            None \<Rightarrow> None
          | Some (bs, us) \<Rightarrow>
              (case sql_expect ['')'', ''AS''] us of
                 Some (alias # vs) \<Rightarrow>
                   (case sql_order vs of
                      None \<Rightarrow> None
                    | Some (ks, ws) \<Rightarrow> sql_bounds 0 ws
                        \<lparr>sq_item = item, sq_from = bs, sq_order = ks, sq_limit = None, sq_offset = None\<rparr>)
               | _ \<Rightarrow> None)))"

section \<open>Answers\<close>

text \<open>\<open>cols\<close> gives the sortable columns of a row.\<close>

fun sorts_before :: "(string \<Rightarrow> ('r \<Rightarrow> int) option) \<Rightarrow> (string \<times> bool) list \<Rightarrow> 'r \<Rightarrow> 'r \<Rightarrow> bool" where
  "sorts_before cols [] a b \<longleftrightarrow> False"
| "sorts_before cols ((c, desc) # ks) a b \<longleftrightarrow>
    (case cols c of
       None \<Rightarrow> False
     | Some f \<Rightarrow> (if desc then f b < f a else f a < f b) \<or> f a = f b \<and> sorts_before cols ks a b)"

definition union_rows :: "sql_query \<Rightarrow> (string \<Rightarrow> 'r list) \<Rightarrow> 'r list" where
  "union_rows q rows = concat (map (\<lambda>(_, t). rows t) (sq_from q))"

definition sql_slice :: "sql_query \<Rightarrow> int list \<Rightarrow> 'r list \<Rightarrow> 'r list" where
  "sql_slice q args xs =
    (let xs = (case sq_offset q of None \<Rightarrow> xs | Some i \<Rightarrow> drop (nat (args ! i)) xs)
     in case sq_limit q of None \<Rightarrow> xs | Some i \<Rightarrow> take (nat (args ! i)) xs)"

text \<open>The queries of rows that have a meaning: whole rows, known columns, an argument per placeholder, none of them negative.\<close>

definition rows_query :: "(string \<Rightarrow> ('r \<Rightarrow> int) option) \<Rightarrow> sql_query \<Rightarrow> int list \<Rightarrow> bool" where
  "rows_query cols q args \<longleftrightarrow> sq_item q = Star \<and> list_all (\<lambda>(item, _). item = Star) (sq_from q)
     \<and> list_all (\<lambda>(c, _). cols c \<noteq> None) (sq_order q)
     \<and> (\<forall>i. sq_limit q = Some i \<or> sq_offset q = Some i \<longrightarrow> i < length args) \<and> list_all (\<lambda>a. 0 \<le> a) args"

text \<open>The database may order rows that no key tells apart as it likes.\<close>

definition select_rows :: "(string \<Rightarrow> ('r \<Rightarrow> int) option) \<Rightarrow> sql_query \<Rightarrow> int list \<Rightarrow> (string \<Rightarrow> 'r list) \<Rightarrow> 'r list \<Rightarrow> bool" where
  "select_rows cols q args rows us \<longleftrightarrow>
    (\<exists>ys. mset ys = mset (union_rows q rows) \<and> sorted_wrt (\<lambda>a b. \<not> sorts_before cols (sq_order q) b a) ys
       \<and> us = sql_slice q args ys)"

text \<open>The sum of the counts of the branches; \<open>None\<close> if the query is not of that form.\<close>

definition select_sum :: "sql_query \<Rightarrow> (string \<Rightarrow> 'r list) \<Rightarrow> int option" where
  "select_sum q rows =
    (case sq_item q of
       CoalesceSum c \<Rightarrow>
         if list_all (\<lambda>(item, _). item = CountStar c) (sq_from q) \<and> sq_limit q = None \<and> sq_offset q = None
         then Some (sum_list (map (\<lambda>(_, t). int (length (rows t))) (sq_from q))) else None
     | _ \<Rightarrow> None)"

text \<open>What the driver's raw queries promise for texts that have a meaning; they change no table.\<close>

definition raw_rows_ok :: "(string \<Rightarrow> int list \<Rightarrow> 'db \<Rightarrow> (go_error + 'r list) \<times> 'db) \<Rightarrow> (string \<Rightarrow> ('r \<Rightarrow> int) option)
    \<Rightarrow> (string \<Rightarrow> 'db \<Rightarrow> 'r list) \<Rightarrow> bool" where
  "raw_rows_ok raw cols rows \<longleftrightarrow> (\<forall>sql args db us db' q. raw sql args db = (Inr us, db') \<longrightarrow> sql_parse sql = Some q \<longrightarrow>
     rows_query cols q args \<longrightarrow> select_rows cols q args (\<lambda>t. rows t db) us)"

definition raw_int_ok :: "(string \<Rightarrow> int list \<Rightarrow> 'db \<Rightarrow> (go_error + int) \<times> 'db) \<Rightarrow> (string \<Rightarrow> 'db \<Rightarrow> 'r list) \<Rightarrow> bool" where
  "raw_int_ok raw rows \<longleftrightarrow> (\<forall>sql args db n db' q. raw sql args db = (Inr n, db') \<longrightarrow> sql_parse sql = Some q \<longrightarrow>
     (\<forall>t. rows t db' = rows t db) \<and> (\<forall>m. select_sum q (\<lambda>t. rows t db) = Some m \<longrightarrow> n = m))"

section \<open>Reading composed texts\<close>

text \<open>Tokens of a text come out one by one: words up to a blank or a special character.\<close>

definition word_char :: "char \<Rightarrow> bool" where
  "word_char c \<longleftrightarrow> c \<noteq> CHR '' '' \<and> \<not> sql_special c"

lemma sql_words_word:
  assumes "\<forall>c \<in> set s. word_char c"
  shows "sql_words w (s @ cs) = sql_words (w @ s) cs"
  using assms by (induction s arbitrary: w) (auto simp: word_char_def)

lemma sql_name_words: "sql_name s \<Longrightarrow> sql_words [] (s @ cs) = sql_words s cs"
  by (subst sql_words_word) (auto simp: sql_name_def word_char_def sql_special_def prefix_char_def Let_def)

lemma sql_name_flush: "sql_name s \<Longrightarrow> sql_flush s = [s]"
  by (simp add: sql_name_def sql_flush_def)

text \<open>\<open>strings.Join\<close>, of strings and of token lists.\<close>

fun strings_Join :: "'a list list \<Rightarrow> 'a list \<Rightarrow> 'a list" where
  "strings_Join [] sep = []"
| "strings_Join [x] sep = x"
| "strings_Join (x # y # ys) sep = x @ sep @ strings_Join (y # ys) sep"

lemma sql_words_union:
  assumes "ts \<noteq> []" "list_all sql_name ts"
    and part: "\<And>t cs. sql_name t \<Longrightarrow> sql_words [] (part t @ cs) = toks t @ sql_words t cs"
  shows "sql_words [] (strings_Join (map part ts) '' UNION ALL '' @ '')'' @ cs)
    = strings_Join (map (\<lambda>t. toks t @ [t]) ts) [''UNION'', ''ALL''] @ '')'' # sql_words [] cs"
  using assms(1,2)
proof (induction ts rule: list_nonempty_induct)
  case (single t)
  then show ?case by (simp add: part sql_special_def sql_name_flush)
next
  case (cons t ts)
  obtain u us where ts: "ts = u # us" using cons.hyps by (cases ts) auto
  from cons have t: "sql_name t" and IH: "sql_words [] (strings_Join (map part ts) '' UNION ALL '' @ '')'' @ cs)
    = strings_Join (map (\<lambda>t. toks t @ [t]) ts) [''UNION'', ''ALL''] @ '')'' # sql_words [] cs" by simp_all
  have joined: "strings_Join (map part (t # ts)) '' UNION ALL '' = part t @ '' UNION ALL '' @ strings_Join (map part ts) '' UNION ALL ''"
    by (simp add: ts)
  have "sql_words [] (strings_Join (map part (t # ts)) '' UNION ALL '' @ '')'' @ cs)
      = toks t @ t # ''UNION'' # ''ALL'' # sql_words [] (strings_Join (map part ts) '' UNION ALL '' @ '')'' @ cs)"
    unfolding joined append_assoc part [OF t] by (simp add: sql_special_def sql_flush_def sql_name_flush [OF t, unfolded sql_flush_def])
  then show ?case unfolding IH by (simp add: ts)
qed

text \<open>And the union of the branches is read back.\<close>

lemma sql_union_read:
  assumes "ts \<noteq> []" "list_all sql_name ts" "\<And>t us. sql_name t \<Longrightarrow> sql_branch (toks t @ t # us) = Some ((item, t), us)"
    and stop: "sql_expect [''UNION'', ''ALL''] us = None"
  shows "sql_union (strings_Join (map (\<lambda>t. toks t @ [t]) ts) [''UNION'', ''ALL''] @ us) = Some (map (\<lambda>t. (item, t)) ts, us)"
  using assms(1,2)
proof (induction ts rule: list_nonempty_induct)
  case (single t)
  then show ?case by (subst sql_union.simps) (simp add: assms(3) stop)
next
  case (cons t ts)
  obtain v vs where ts: "ts = v # vs" using cons.hyps by (cases ts) auto
  let ?rest = "strings_Join (map (\<lambda>t. toks t @ [t]) ts) [''UNION'', ''ALL''] @ us"
  have "strings_Join (map (\<lambda>t. toks t @ [t]) (t # ts)) [''UNION'', ''ALL''] @ us
      = toks t @ t # ''UNION'' # ''ALL'' # ?rest" by (simp add: ts)
  then show ?case using cons assms(3) by (subst sql_union.simps) simp
qed

lemma strict_weak_sorts: "strict_weak (sorts_before cols ks)"
proof -
  have asym: "sorts_before cols ks a b \<Longrightarrow> \<not> sorts_before cols ks b a" for a b
    by (induction ks) (auto split: option.splits if_splits)
  moreover have "\<not> sorts_before cols ks b a \<Longrightarrow> \<not> sorts_before cols ks c b \<Longrightarrow> \<not> sorts_before cols ks c a" for a b c
    by (induction ks) (auto split: option.splits if_splits)
  ultimately show ?thesis unfolding strict_weak_def by blast
qed

section \<open>A concrete database\<close>

definition list_raw_rows :: "(string \<Rightarrow> ('r \<Rightarrow> int) option) \<Rightarrow> (string \<Rightarrow> 'db \<Rightarrow> 'r list) \<Rightarrow> string \<Rightarrow> int list \<Rightarrow> 'db \<Rightarrow> (go_error + 'r list) \<times> 'db" where
  "list_raw_rows cols rows sql args db =
    (case sql_parse sql of
       None \<Rightarrow> (Inl (PlainErr ''syntax error''), db)
     | Some q \<Rightarrow> (Inr (sql_slice q args (sort_by (sorts_before cols (sq_order q)) (union_rows q (\<lambda>t. rows t db)))), db))"

definition list_raw_int :: "(string \<Rightarrow> 'db \<Rightarrow> 'r list) \<Rightarrow> string \<Rightarrow> int list \<Rightarrow> 'db \<Rightarrow> (go_error + int) \<times> 'db" where
  "list_raw_int rows sql args db =
    (case Option.bind (sql_parse sql) (\<lambda>q. select_sum q (\<lambda>t. rows t db)) of
       None \<Rightarrow> (Inl (PlainErr ''syntax error''), db) | Some n \<Rightarrow> (Inr n, db))"

lemma list_raw_ok: "raw_rows_ok (list_raw_rows cols rows) cols rows" "raw_int_ok (list_raw_int rows) rows"
proof -
  show "raw_rows_ok (list_raw_rows cols rows) cols rows"
    unfolding raw_rows_ok_def list_raw_rows_def select_rows_def
    using sorted_sort_by_strict_weak [OF strict_weak_sorts] mset_sort_by by fastforce
  show "raw_int_ok (list_raw_int rows) rows"
    by (auto simp: raw_int_ok_def list_raw_int_def split: option.splits)
qed

end
