(* ===== verification/User_Repo.thy ===== *)
theory User_Repo
  imports Gorm_Upsert Sharding Wallet_Repo Sql_Query
begin

text \<open>
  The users: \<open>user/internal/model/user.go\<close> and \<open>user/internal/repository/user.go\<close>. A user row lives in the shard
  that the router chooses for its ID, and one index over all shards maps the Keycloak subject to the ID and the
  shard. The handles of the tables, the transaction over several tables and the raw queries of \<open>List\<close> are
  parameters; the texts of the queries are those of the code, with the meaning that \<open>Sql_Query\<close> gives them. Requests of one subject may run together, and then they interleave between the three phases
  of \<open>FindOrCreateBySubject\<close>: \<open>init_phase\<close> is such a request, \<open>run_inits\<close> any interleaving.
\<close>

section \<open>Rows and handles\<close>

definition UserStatusActive :: int where "UserStatusActive = 1"
definition UserStatusDisabled :: int where "UserStatusDisabled = 2"

record User =
  u_ID :: u64
  u_KeycloakSubject :: string
  u_Username :: string
  u_Email :: "string option"
  u_Nickname :: string
  u_AvatarURL :: string
  u_Phone :: "string option"
  u_Status :: int
  u_LastLoginAt :: "time option"
  u_CreatedAt :: time
  u_UpdatedAt :: time

record UserIdentityIndex =
  ui_KeycloakSubject :: string
  ui_UserID :: u64
  ui_TableIndex :: "16 word"
  ui_CreatedAt :: time

text \<open>A status that is zero gets the default of its column.\<close>

definition user_table :: "('db \<Rightarrow> User list) \<Rightarrow> ('db, User) table_spec" where
  "user_table rows =
    \<lparr>t_rows = rows, t_conflict = (\<lambda>x y. u_ID x = u_ID y),
     t_fill = (\<lambda>t x. x\<lparr>u_Status := (if u_Status x = 0 then 1 else u_Status x),
                       u_CreatedAt := (if u_CreatedAt x = zero_time then t else u_CreatedAt x),
                       u_UpdatedAt := (if u_UpdatedAt x = zero_time then t else u_UpdatedAt x)\<rparr>),
     t_touch = (\<lambda>t x. x\<lparr>u_UpdatedAt := t\<rparr>)\<rparr>"

definition identity_table :: "('db \<Rightarrow> UserIdentityIndex list) \<Rightarrow> ('db, UserIdentityIndex) table_spec" where
  "identity_table rows =
    \<lparr>t_rows = rows,
     t_conflict = (\<lambda>x y. ui_KeycloakSubject x = ui_KeycloakSubject y \<or> ui_UserID x = ui_UserID y),
     t_fill = (\<lambda>t x. x\<lparr>ui_CreatedAt := (if ui_CreatedAt x = zero_time then t else ui_CreatedAt x)\<rparr>),
     t_touch = (\<lambda>t x. x)\<rparr>"

type_synonym ('db, 'v) transaction =
  "('v \<Rightarrow> 'db \<Rightarrow> go_error option \<times> 'v \<times> 'db) \<Rightarrow> 'v \<Rightarrow> 'db \<Rightarrow> go_error option \<times> 'v \<times> 'db"

record 'db UserRepository =
  uu_index :: "('db, UserIdentityIndex, unit) gorm"
  uu_db :: "string \<Rightarrow> ('db, User, unit) gorm"
  uu_transaction :: "('db, User) transaction"
  uu_Raw_int :: "string \<Rightarrow> int list \<Rightarrow> 'db \<Rightarrow> (go_error + int) \<times> 'db"
  uu_Raw_users :: "string \<Rightarrow> int list \<Rightarrow> 'db \<Rightarrow> (go_error + User list) \<times> 'db"
  uu_router :: UserRouter

section \<open>Operations\<close>

text \<open>Following an index row to the user.\<close>

definition user_of_identity :: "'db UserRepository \<Rightarrow> UserIdentityIndex \<Rightarrow> 'db \<Rightarrow> (go_error + User) \<times> 'db" where
  "user_of_identity r identity db =
    (case ur_TableNameByIndex (uu_router r) (sint (ui_TableIndex identity)) of
       Inl err \<Rightarrow> (Inl err, db)
     | Inr tableName \<Rightarrow> g_first (uu_db r tableName) (\<lambda>u. u_ID u = ui_UserID identity) (\<lambda>_ _. False) db)"

definition uu_FindBySubject :: "'db UserRepository \<Rightarrow> string \<Rightarrow> 'db \<Rightarrow> (go_error + User) \<times> 'db" where
  "uu_FindBySubject r subject db =
    (case g_first (uu_index r) (\<lambda>x. ui_KeycloakSubject x = subject) (\<lambda>_ _. False) db of
       (Inl err, db) \<Rightarrow> (Inl err, db)
     | (Inr identity, db) \<Rightarrow> user_of_identity r identity db)"

definition uu_FindByID :: "'db UserRepository \<Rightarrow> u64 \<Rightarrow> 'db \<Rightarrow> (go_error + User) \<times> 'db" where
  "uu_FindByID r userID db =
    (case g_first (uu_index r) (\<lambda>x. ui_UserID x = userID) (\<lambda>_ _. False) db of
       (Inl err, db) \<Rightarrow> (Inl err, db)
     | (Inr identity, db) \<Rightarrow> user_of_identity r identity db)"

text \<open>The two texts of \<open>List\<close>, and the function.\<close>

definition countSQL :: "string list \<Rightarrow> string" where
  "countSQL tables =
    (let counts = map (\<lambda>table. ''SELECT COUNT(*) AS total FROM '' @ table) tables
     in ''SELECT COALESCE(SUM(total), 0) FROM ('' @ strings_Join counts '' UNION ALL '' @ '') AS shard_counts'')"

definition listSQL :: "string list \<Rightarrow> string" where
  "listSQL tables =
    (let selects = map (\<lambda>table. ''SELECT * FROM '' @ table) tables
     in ''SELECT * FROM ('' @ strings_Join selects '' UNION ALL '' @ '') AS shard_users ''
        @ ''ORDER BY created_at DESC, id DESC LIMIT ? OFFSET ?'')"

definition uu_List :: "'db UserRepository \<Rightarrow> int \<Rightarrow> int \<Rightarrow> 'db \<Rightarrow> (go_error + User list \<times> int) \<times> 'db" where
  "uu_List r offset lmt db =
    (if offset < 0 \<or> lmt \<le> 0 then
       (Inl (PlainErr (''invalid pagination offset='' @ int_to_string offset @ '' limit='' @ int_to_string lmt)), db)
     else
       let tables = ur_TableNames (uu_router r)
       in if tables = [] then (Inl (PlainErr ''no user shard tables configured''), db)
          else
            (case uu_Raw_int r (countSQL tables) [] db of
               (Inl err, db) \<Rightarrow> (Inl err, db)
             | (Inr n, db) \<Rightarrow>
                 (case uu_Raw_users r (listSQL tables) [lmt, offset] db of
                    (Inl err, db) \<Rightarrow> (Inl err, db)
                  | (Inr users, db) \<Rightarrow> (Inr (users, n), db))))"

text \<open>The closure of the transaction; \<open>Create\<close> fills in the user it is given.\<close>

definition create_user :: "'db UserRepository \<Rightarrow> User \<Rightarrow> 'db \<Rightarrow> go_error option \<times> User \<times> 'db" where
  "create_user r user tx =
    (case ur_TableIndex (uu_router r) (u_ID user) of
       Inl routeErr \<Rightarrow> (Some routeErr, user, tx)
     | Inr index \<Rightarrow>
         (case ur_TableNameByIndex (uu_router r) (int index) of
            Inl routeErr \<Rightarrow> (Some routeErr, user, tx)
          | Inr table \<Rightarrow>
              (case g_create (uu_db r table) user tx of
                 (Some createErr, user, tx) \<Rightarrow> (Some createErr, user, tx)
               | (None, user, tx) \<Rightarrow>
                   (case g_create (uu_index r) \<lparr>ui_KeycloakSubject = u_KeycloakSubject user, ui_UserID = u_ID user,
                       ui_TableIndex = of_nat index, ui_CreatedAt = zero_time\<rparr> tx of
                      (err, _, tx) \<Rightarrow> (err, user, tx)))))"

definition uu_FindOrCreateBySubject :: "'db UserRepository \<Rightarrow> User \<Rightarrow> 'db \<Rightarrow> (go_error + User \<times> bool) \<times> 'db" where
  "uu_FindOrCreateBySubject r user db =
    (case uu_FindBySubject r (u_KeycloakSubject user) db of
       (Inr existing, db) \<Rightarrow> (Inr (existing, False), db)
     | (Inl err, db) \<Rightarrow>
         if \<not> errors_Is err ErrRecordNotFound then (Inl err, db)
         else
           (case uu_transaction r (create_user r) user db of
              (None, user, db) \<Rightarrow> (Inr (user, True), db)
            | (Some txErr, user, db) \<Rightarrow>
                (case uu_FindBySubject r (u_KeycloakSubject user) db of
                   (Inr existing, db) \<Rightarrow> (Inr (existing, False), db)
                 | (Inl _, db) \<Rightarrow> (Inl txErr, db))))"

section \<open>Requests that run together\<close>

datatype init_phase = Looking User | Creating User | Lost User go_error | Answered "go_error + User \<times> bool"

definition init_step :: "'db UserRepository \<Rightarrow> init_phase \<Rightarrow> 'db \<Rightarrow> init_phase \<times> 'db" where
  "init_step r phase db =
    (case phase of
       Looking user \<Rightarrow>
         (case uu_FindBySubject r (u_KeycloakSubject user) db of
            (Inr existing, db) \<Rightarrow> (Answered (Inr (existing, False)), db)
          | (Inl err, db) \<Rightarrow> (if errors_Is err ErrRecordNotFound then Creating user else Answered (Inl err), db))
     | Creating user \<Rightarrow>
         (case uu_transaction r (create_user r) user db of
            (None, user, db) \<Rightarrow> (Answered (Inr (user, True)), db)
          | (Some txErr, user, db) \<Rightarrow> (Lost user txErr, db))
     | Lost user txErr \<Rightarrow>
         (case uu_FindBySubject r (u_KeycloakSubject user) db of
            (Inr existing, db) \<Rightarrow> (Answered (Inr (existing, False)), db)
          | (Inl _, db) \<Rightarrow> (Answered (Inl txErr), db))
     | Answered result \<Rightarrow> (phase, db))"

text \<open>Three steps without others in between are the function.\<close>

lemma FindOrCreate_phases:
  "(case init_step r (Looking user) db of (p, db) \<Rightarrow> case init_step r p db of (p, db) \<Rightarrow> init_step r p db)
   = (case uu_FindOrCreateBySubject r user db of (res, db) \<Rightarrow> (Answered res, db))"
  by (simp add: init_step_def uu_FindOrCreateBySubject_def split: sum.split prod.split option.split)

text \<open>A schedule lists the request that makes the next step.\<close>

fun run_inits :: "'db UserRepository \<Rightarrow> nat list \<Rightarrow> init_phase list \<Rightarrow> 'db \<Rightarrow> init_phase list \<times> 'db" where
  "run_inits r [] jobs db = (jobs, db)"
| "run_inits r (k # ks) jobs db =
    (if k < length jobs then (case init_step r (jobs ! k) db of (p, db) \<Rightarrow> run_inits r ks (jobs[k := p]) db)
     else run_inits r ks jobs db)"

section \<open>What the repository relies on\<close>

definition user_view :: "('db \<Rightarrow> UserIdentityIndex list) \<Rightarrow> (string \<Rightarrow> 'db \<Rightarrow> User list) \<Rightarrow> 'db
    \<Rightarrow> UserIdentityIndex list \<times> (string \<Rightarrow> User list)" where
  "user_view idx rows db = (idx db, \<lambda>t. rows t db)"

text \<open>\<open>ORDER BY created_at DESC, id DESC\<close>\<close>

definition newest_first :: "User \<Rightarrow> User \<Rightarrow> bool" where
  "newest_first a b \<longleftrightarrow> u_CreatedAt b < u_CreatedAt a \<or> u_CreatedAt a = u_CreatedAt b \<and> sint (u_ID b) < sint (u_ID a)"

definition all_users :: "(string \<Rightarrow> 'db \<Rightarrow> User list) \<Rightarrow> string list \<Rightarrow> 'db \<Rightarrow> User list" where
  "all_users rows tables db = concat (map (\<lambda>t. rows t db) tables)"

text \<open>The columns of a user that a query may sort by, and what the raw queries promise.\<close>

definition user_column :: "string \<Rightarrow> (User \<Rightarrow> int) option" where
  "user_column c =
    (if c = ''created_at'' then Some u_CreatedAt else if c = ''updated_at'' then Some u_UpdatedAt
     else if c = ''id'' then Some (\<lambda>u. sint (u_ID u)) else None)"

definition union_ok :: "'db UserRepository \<Rightarrow> (string \<Rightarrow> 'db \<Rightarrow> User list) \<Rightarrow> bool" where
  "union_ok r rows \<longleftrightarrow> raw_int_ok (uu_Raw_int r) rows \<and> raw_rows_ok (uu_Raw_users r) user_column rows \<and> ur_ok (uu_router r)"

text \<open>The captured variable has the value that the closure left in it, if the closure ran.\<close>

definition captured_ok :: "('db, 'v) transaction \<Rightarrow> bool" where
  "captured_ok transaction \<longleftrightarrow> (\<forall>body v db e v' db'. transaction body v db = (e, v', db') \<longrightarrow>
     v' = v \<or> (\<exists>db1 e1 db2. body v db1 = (e1, v', db2)))"

text \<open>An operation on one table leaves the others alone; a transaction over the tables is atomic.\<close>

definition user_repo_ok :: "'db UserRepository \<Rightarrow> ('db \<Rightarrow> UserIdentityIndex list) \<Rightarrow> (string \<Rightarrow> 'db \<Rightarrow> User list) \<Rightarrow> bool" where
  "user_repo_ok r idx rows \<longleftrightarrow>
     gorm_ok (uu_index r) (identity_table idx) \<and> (\<forall>t. gorm_ok (uu_db r t) (user_table (rows t)))
   \<and> (\<forall>P b db t. rows t (snd (g_first (uu_index r) P b db)) = rows t db)
   \<and> (\<forall>x db t. rows t (snd (snd (g_create (uu_index r) x db))) = rows t db)
   \<and> (\<forall>s P b db. idx (snd (g_first (uu_db r s) P b db)) = idx db \<and> (\<forall>t. rows t (snd (g_first (uu_db r s) P b db)) = rows t db))
   \<and> (\<forall>s x db. idx (snd (snd (g_create (uu_db r s) x db))) = idx db
        \<and> (\<forall>t. t \<noteq> s \<longrightarrow> rows t (snd (snd (g_create (uu_db r s) x db))) = rows t db))
   \<and> atomic_ok (uu_transaction r) (user_view idx rows) \<and> captured_ok (uu_transaction r) \<and> ur_ok (uu_router r)"

text \<open>
  Subjects and IDs are unique in the index, IDs are unique in a shard, and an index row leads to the user with its
  subject.
\<close>

definition user_inv :: "string list \<Rightarrow> UserIdentityIndex list \<times> (string \<Rightarrow> User list) \<Rightarrow> bool" where
  "user_inv tables v \<longleftrightarrow> distinct (map ui_KeycloakSubject (fst v)) \<and> distinct (map ui_UserID (fst v))
     \<and> (\<forall>t. distinct (map u_ID (snd v t)))
     \<and> (\<forall>x \<in> set (fst v). 0 \<le> sint (ui_TableIndex x) \<and> sint (ui_TableIndex x) < int (length tables)
          \<and> (\<exists>u \<in> set (snd v (tables ! nat (sint (ui_TableIndex x)))).
               u_ID u = ui_UserID x \<and> u_KeycloakSubject u = ui_KeycloakSubject x))"

section \<open>Consequences, one rule per operation\<close>

lemma user_table_simps [simp]:
  "t_rows (user_table rows) = rows" "t_conflict (user_table rows) x y \<longleftrightarrow> u_ID x = u_ID y"
  "u_ID (t_fill (user_table rows) t x) = u_ID x" "u_KeycloakSubject (t_fill (user_table rows) t x) = u_KeycloakSubject x"
  by (simp_all add: user_table_def)

lemma identity_table_simps [simp]:
  "t_rows (identity_table rows) = rows"
  "t_conflict (identity_table rows) x y \<longleftrightarrow> ui_KeycloakSubject x = ui_KeycloakSubject y \<or> ui_UserID x = ui_UserID y"
  "ui_KeycloakSubject (t_fill (identity_table rows) t z) = ui_KeycloakSubject z"
  "ui_UserID (t_fill (identity_table rows) t z) = ui_UserID z"
  "ui_TableIndex (t_fill (identity_table rows) t z) = ui_TableIndex z"
  by (simp_all add: identity_table_def)

lemma user_repo_okD:
  assumes "user_repo_ok r idx rows"
  shows "gorm_ok (uu_index r) (identity_table idx)" "gorm_ok (uu_db r t) (user_table (rows t))"
    "atomic_ok (uu_transaction r) (user_view idx rows)" "captured_ok (uu_transaction r)" "ur_ok (uu_router r)"
  using assms by (simp_all add: user_repo_ok_def)

lemma index_first_view:
  assumes "user_repo_ok r idx rows" "g_first (uu_index r) P b db = (res, db')"
  shows "user_view idx rows db' = user_view idx rows db"
proof -
  have "rows t db' = rows t db" for t using assms by (metis snd_conv user_repo_ok_def)
  then show ?thesis
    using first_rows [OF user_repo_okD(1) [OF assms(1)] assms(2)] by (simp add: user_view_def)
qed

lemma shard_first_view:
  assumes "user_repo_ok r idx rows" "g_first (uu_db r s) P b db = (res, db')"
  shows "user_view idx rows db' = user_view idx rows db"
proof -
  have "\<forall>s P b db. idx (snd (g_first (uu_db r s) P b db)) = idx db \<and> (\<forall>t. rows t (snd (g_first (uu_db r s) P b db)) = rows t db)"
    using assms(1) unfolding user_repo_ok_def by (elim conjE)
  from this [rule_format, of s P b db] assms(2) show ?thesis by (simp add: user_view_def)
qed

lemma viewD: "user_view idx rows db' = user_view idx rows db \<Longrightarrow> idx db' = idx db \<and> rows t db' = rows t db"
  unfolding user_view_def by (metis prod.inject)

lemma user_of_identity_view:
  assumes "user_repo_ok r idx rows" "user_of_identity r x db = (res, db')"
  shows "user_view idx rows db' = user_view idx rows db"
  using assms by (auto simp: user_of_identity_def split: sum.splits intro: shard_first_view)

text \<open>An index row of a table that keeps the invariant leads to its user.\<close>

lemma user_of_identity_Inr:
  assumes ok: "user_repo_ok r idx rows" and run: "user_of_identity r x db = (Inr u, db')"
    and inv: "user_inv (ur_TableNames (uu_router r)) (user_view idx rows db)" and x: "x \<in> set (idx db)"
  shows "u_ID u = ui_UserID x \<and> u_KeycloakSubject u = ui_KeycloakSubject x"
proof -
  let ?t = "ur_TableNames (uu_router r) ! nat (sint (ui_TableIndex x))"
  from inv x have bound: "0 \<le> sint (ui_TableIndex x)" "sint (ui_TableIndex x) < int (length (ur_TableNames (uu_router r)))"
    and "\<exists>u \<in> set (rows ?t db). u_ID u = ui_UserID x \<and> u_KeycloakSubject u = ui_KeycloakSubject x"
    by (auto simp: user_inv_def user_view_def)
  then obtain u0 where u0: "u0 \<in> set (rows ?t db)" "u_ID u0 = ui_UserID x" "u_KeycloakSubject u0 = ui_KeycloakSubject x" by blast
  have "g_first (uu_db r ?t) (\<lambda>u. u_ID u = ui_UserID x) (\<lambda>_ _. False) db = (Inr u, db')"
    using run user_shards.by_index [OF bound] by (simp add: user_of_identity_def)
  from first_Inr [OF user_repo_okD(2) [OF ok] this] have u: "u \<in> set (rows ?t db)" "u_ID u = ui_UserID x" by auto
  have "distinct (map u_ID (rows ?t db))" using inv by (simp add: user_inv_def user_view_def)
  then have "u = u0" using u u0(1,2) by (auto simp: distinct_map inj_on_def)
  with u0 show ?thesis by simp
qed

lemma FindBySubject_view:
  assumes "user_repo_ok r idx rows" "uu_FindBySubject r s db = (res, db')"
  shows "user_view idx rows db' = user_view idx rows db"
  using assms index_first_view [OF assms(1)] user_of_identity_view [OF assms(1)]
  unfolding uu_FindBySubject_def by (auto split: prod.splits sum.splits)

lemma index_first_row:
  assumes "user_repo_ok r idx rows" "g_first (uu_index r) P (\<lambda>_ _. False) db = (Inr x, db1)"
  shows "x \<in> set (idx db1)" "P x"
  using first_Inr [OF user_repo_okD(1) [OF assms(1)] assms(2)] by auto

lemma FindBySubject_Inr:
  assumes ok: "user_repo_ok r idx rows" and run: "uu_FindBySubject r s db = (Inr u, db')"
    and inv: "user_inv (ur_TableNames (uu_router r)) (user_view idx rows db)"
  shows "u_KeycloakSubject u = s \<and> (\<exists>x \<in> set (idx db). ui_KeycloakSubject x = s \<and> ui_UserID x = u_ID u)"
proof -
  from run obtain x db1 where first: "g_first (uu_index r) (\<lambda>x. ui_KeycloakSubject x = s) (\<lambda>_ _. False) db = (Inr x, db1)"
    and rest: "user_of_identity r x db1 = (Inr u, db')"
    by (auto simp: uu_FindBySubject_def split: prod.splits sum.splits)
  note view = index_first_view [OF ok first]
  have "u_ID u = ui_UserID x \<and> u_KeycloakSubject u = ui_KeycloakSubject x"
    using user_of_identity_Inr [OF ok rest _ index_first_row(1) [OF ok first]] inv view by simp
  moreover have "x \<in> set (idx db)" using index_first_row(1) [OF ok first] viewD [OF view] by simp
  ultimately show ?thesis using index_first_row(2) [OF ok first] by auto
qed

lemma FindByID_Inr:
  assumes ok: "user_repo_ok r idx rows" and run: "uu_FindByID r i db = (Inr u, db')"
    and inv: "user_inv (ur_TableNames (uu_router r)) (user_view idx rows db)"
  shows "u_ID u = i"
proof -
  from run obtain x db1 where first: "g_first (uu_index r) (\<lambda>x. ui_UserID x = i) (\<lambda>_ _. False) db = (Inr x, db1)"
    and rest: "user_of_identity r x db1 = (Inr u, db')"
    by (auto simp: uu_FindByID_def split: prod.splits sum.splits)
  have "u_ID u = ui_UserID x"
    using user_of_identity_Inr [OF ok rest _ index_first_row(1) [OF ok first]] inv index_first_view [OF ok first] by simp
  with index_first_row(2) [OF ok first] show ?thesis by simp
qed

section \<open>The listing\<close>

text \<open>The database reads the texts as the queries that they are meant to be: the table names need no quotes.\<close>

lemma sql_name_shards:
  assumes "ur_ok r"
  shows "ur_TableNames r \<noteq> []" "list_all sql_name (ur_TableNames r)"
proof -
  from assms obtain cfg where "NewUserRouter cfg = Inr r" unfolding ur_ok_def by blast
  then have p: "validTablePrefix (sc_TablePrefix cfg)"
    and names: "ur_tableNames r = map (\<lambda>i. sc_TablePrefix cfg @ pad2 i) [0..<8]"
    by (auto simp: NewUserRouter_def split: if_splits)
  from names show "ur_TableNames r \<noteq> []" by (simp add: ur_TableNames_def)
  have first: "\<forall>c \<in> set (sc_TablePrefix cfg). prefix_char c"
    using p by (cases "sc_TablePrefix cfg") (auto simp: validTablePrefix_def prefix_char_def Let_def)
  have digits: "\<forall>c \<in> set (pad2 i). prefix_char c" for i
    using itoa_digits [of i] by (auto simp: pad2_def prefix_char_def is_digit_def Let_def)
  have "sc_TablePrefix cfg \<noteq> []" using p by (auto simp: validTablePrefix_def)
  with first digits show "list_all sql_name (ur_TableNames r)"
    unfolding ur_TableNames_def names list_all_iff sql_name_def by auto
qed

lemma words_literal:
  "sql_words [] (''SELECT * FROM '' @ cs) = [''SELECT'', ''*'', ''FROM''] @ sql_words [] cs"
  "sql_words [] (''SELECT COUNT(*) AS total FROM '' @ cs) = [''SELECT'', ''COUNT'', ''('', ''*'', '')'', ''AS'', ''total'', ''FROM''] @ sql_words [] cs"
  "sql_words [] (''SELECT COALESCE(SUM(total), 0) FROM ('' @ cs)
    = [''SELECT'', ''COALESCE'', ''('', ''SUM'', ''('', ''total'', '')'', '','', ''0'', '')'', ''FROM'', ''(''] @ sql_words [] cs"
  "sql_words [] (''SELECT * FROM ('' @ cs) = [''SELECT'', ''*'', ''FROM'', ''(''] @ sql_words [] cs"
  by (simp_all add: sql_special_def sql_flush_def)

lemma words_tail:
  "sql_words [] ('' AS shard_counts'') = [''AS'', ''shard_counts'']"
  "sql_words [] ('' AS shard_users ORDER BY created_at DESC, id DESC LIMIT ? OFFSET ?'')
    = [''AS'', ''shard_users'', ''ORDER'', ''BY'', ''created_at'', ''DESC'', '','', ''id'', ''DESC'', ''LIMIT'', ''?'', ''OFFSET'', ''?'']"
  by (simp_all add: sql_special_def sql_flush_def)

lemma parse_countSQL:
  assumes "ts \<noteq> []" "list_all sql_name ts"
  shows "sql_parse (countSQL ts) = Some \<lparr>sq_item = CoalesceSum ''total'', sq_from = map (\<lambda>t. (CountStar ''total'', t)) ts,
    sq_order = [], sq_limit = None, sq_offset = None\<rparr>"
proof -
  let ?toks = "\<lambda>t :: string. [''SELECT'', ''COUNT'', ''('', ''*'', '')'', ''AS'', ''total'', ''FROM'']"
  have part: "sql_words [] ((''SELECT COUNT(*) AS total FROM '' @ t) @ cs) = ?toks t @ sql_words t cs" if "sql_name t" for t cs
    unfolding append_assoc words_literal(2) sql_name_words [OF that] ..
  have branch: "sql_branch (?toks t @ t # us) = Some ((CountStar ''total'', t), us)" if "sql_name t" for t us
    using that by (simp add: sql_branch_def sql_item_def)
  have tokens: "sql_tokens (countSQL ts) = [''SELECT'', ''COALESCE'', ''('', ''SUM'', ''('', ''total'', '')'', '','', ''0'', '')'', ''FROM'', ''('']
      @ strings_Join (map (\<lambda>t. ?toks t @ [t]) ts) [''UNION'', ''ALL''] @ [ '')'', ''AS'', ''shard_counts'']"
  proof -
    have tail: "'') AS shard_counts'' = '')'' @ '' AS shard_counts''" by simp
    show ?thesis unfolding sql_tokens_def countSQL_def Let_def words_literal(3) tail
      by (simp only: sql_words_union [OF assms part] words_tail(1))
  qed
  note union = sql_union_read [OF assms branch, of "[ '')'', ''AS'', ''shard_counts'']"]
  show ?thesis unfolding sql_parse_def tokens using union by (simp add: sql_item_def sql_order_def)
qed

lemma parse_listSQL:
  assumes "ts \<noteq> []" "list_all sql_name ts"
  shows "sql_parse (listSQL ts) = Some \<lparr>sq_item = Star, sq_from = map (\<lambda>t. (Star, t)) ts,
    sq_order = [(''created_at'', True), (''id'', True)], sq_limit = Some 0, sq_offset = Some 1\<rparr>"
proof -
  let ?toks = "\<lambda>t :: string. [''SELECT'', ''*'', ''FROM'']"
  let ?tail = "[''AS'', ''shard_users'', ''ORDER'', ''BY'', ''created_at'', ''DESC'', '','', ''id'', ''DESC'', ''LIMIT'', ''?'', ''OFFSET'', ''?'']"
  have part: "sql_words [] ((''SELECT * FROM '' @ t) @ cs) = ?toks t @ sql_words t cs" if "sql_name t" for t cs
    unfolding append_assoc words_literal(1) sql_name_words [OF that] ..
  have branch: "sql_branch (?toks t @ t # us) = Some ((Star, t), us)" if "sql_name t" for t us
    using that by (simp add: sql_branch_def sql_item_def)
  have tokens: "sql_tokens (listSQL ts) = [''SELECT'', ''*'', ''FROM'', ''('']
      @ strings_Join (map (\<lambda>t. ?toks t @ [t]) ts) [''UNION'', ''ALL''] @ '')'' # ?tail"
  proof -
    have tail: "'') AS shard_users '' @ ''ORDER BY created_at DESC, id DESC LIMIT ? OFFSET ?''
        = '')'' @ '' AS shard_users ORDER BY created_at DESC, id DESC LIMIT ? OFFSET ?''" by simp
    show ?thesis unfolding sql_tokens_def listSQL_def Let_def words_literal(4) tail
      by (simp only: sql_words_union [OF assms part] words_tail(2))
  qed
  note union = sql_union_read [OF assms branch, of "'')'' # ?tail"]
  show ?thesis unfolding sql_parse_def tokens using union by (simp add: sql_item_def sql_order_def sql_direction_def)
qed

lemma newest_first_sorts: "newest_first = sorts_before user_column [(''created_at'', True), (''id'', True)]"
  by (auto simp: fun_eq_iff newest_first_def user_column_def)

lemma List_Inr:
  assumes ok: "union_ok r rows" and run: "uu_List r offset lmt db = (Inr (us, n), db')"
  obtains ys where "0 \<le> offset" "0 < lmt" "mset ys = mset (all_users rows (ur_TableNames (uu_router r)) db)"
    "sorted_wrt (\<lambda>a b. \<not> newest_first b a) ys" "us = take (nat lmt) (drop (nat offset) ys)" "n = int (length ys)"
proof -
  let ?ts = "ur_TableNames (uu_router r)"
  note raw = ok [unfolded union_ok_def raw_int_ok_def raw_rows_ok_def]
  have ts: "?ts \<noteq> []" "list_all sql_name ?ts" using sql_name_shards raw by blast+
  from run obtain db1 where args: "0 \<le> offset" "0 < lmt"
    and cnt: "uu_Raw_int r (countSQL ?ts) [] db = (Inr n, db1)"
    and lst: "uu_Raw_users r (listSQL ?ts) [lmt, offset] db1 = (Inr us, db')"
    by (auto simp: uu_List_def Let_def split: if_splits sum.splits prod.splits)
  have sum: "select_sum \<lparr>sq_item = CoalesceSum ''total'', sq_from = map (\<lambda>t. (CountStar ''total'', t)) ts, sq_order = [], sq_limit = None,
      sq_offset = None\<rparr> (\<lambda>t. rows t db) = Some (int (length (all_users rows ts db)))" for ts
    by (simp add: select_sum_def list_all_iff all_users_def length_concat comp_def sum_list_of_nat [symmetric])
  have n: "n = int (length (all_users rows ?ts db))" "\<forall>t. rows t db1 = rows t db"
    using raw cnt parse_countSQL [OF ts] sum by blast+
  let ?q = "\<lparr>sq_item = Star, sq_from = map (\<lambda>t. (Star, t)) ?ts, sq_order = [(''created_at'', True), (''id'', True)],
    sq_limit = Some 0, sq_offset = Some 1\<rparr>"
  have "rows_query user_column ?q [lmt, offset]"
    using args by (auto simp: rows_query_def list_all_iff user_column_def)
  with raw lst parse_listSQL [OF ts] have "select_rows user_column ?q [lmt, offset] (\<lambda>t. rows t db1) us" by blast
  then obtain ys where ys: "mset ys = mset (all_users rows ?ts db)" "sorted_wrt (\<lambda>a b. \<not> newest_first b a) ys"
    "us = take (nat lmt) (drop (nat offset) ys)"
    unfolding select_rows_def newest_first_sorts
    by (auto simp: union_rows_def all_users_def comp_def n(2) sql_slice_def Let_def)
  have "length ys = length (all_users rows ?ts db)" using ys(1) by (metis size_mset)
  with n(1) ys args show thesis by (intro that [of ys]) simp_all
qed

end
