(* ===== verification/User_Init.thy ===== *)
theory User_Init
  imports User_Repo
begin

text \<open>
  The first request of a user creates exactly one account, however many requests run together: the creation keeps the
  tables consistent, and all requests of a subject are answered with the same user.
\<close>

section \<open>The transaction\<close>

lemma create_user_steps:
  assumes "create_user r user db = (None, user', db')"
  obtains i t db1 x where "ur_TableIndex (uu_router r) (u_ID user) = Inr i" "ur_TableNameByIndex (uu_router r) (int i) = Inr t"
    "g_create (uu_db r t) user db = (None, user', db1)"
    "g_create (uu_index r) \<lparr>ui_KeycloakSubject = u_KeycloakSubject user', ui_UserID = u_ID user', ui_TableIndex = of_nat i,
       ui_CreatedAt = zero_time\<rparr> db1 = (None, x, db')"
  using assms by (auto simp: create_user_def split: sum.splits prod.splits option.splits)

lemma create_user_captured:
  assumes "user_repo_ok r idx rows" "create_user r user db = (e, user', db')"
  shows "u_KeycloakSubject user' = u_KeycloakSubject user"
proof (cases "user' = user")
  case False
  with assms(2) obtain t e1 db1 where g: "g_create (uu_db r t) user db = (e1, user', db1)"
    by (auto simp: create_user_def split: sum.splits prod.splits option.splits)
  have "create_ok (uu_db r t) (user_table (rows t))" using user_repo_okD(2) [OF assms(1)] by (simp add: gorm_ok_def)
  from this [unfolded create_ok_def, rule_format, OF g] show ?thesis by auto
qed simp

text \<open>What a successful creation does: one row in the shard of the ID, one row in the index, and the invariant holds.\<close>

definition adds_user :: "User \<Rightarrow> UserIdentityIndex list \<times> (string \<Rightarrow> User list) \<Rightarrow> UserIdentityIndex list \<times> (string \<Rightarrow> User list) \<Rightarrow> bool" where
  "adds_user u v v' \<longleftrightarrow> (\<exists>x. fst v' = fst v @ [x] \<and> ui_KeycloakSubject x = u_KeycloakSubject u \<and> ui_UserID x = u_ID u
     \<and> (\<forall>y \<in> set (fst v). ui_KeycloakSubject y \<noteq> u_KeycloakSubject u))"

lemma user_inv_add:
  assumes inv: "user_inv tables (xs, f)"
    and x: "\<forall>y \<in> set xs. ui_KeycloakSubject y \<noteq> ui_KeycloakSubject x \<and> ui_UserID y \<noteq> ui_UserID x"
    and i: "sint (ui_TableIndex x) = int i" "i < length tables"
    and u: "u_ID u = ui_UserID x" "u_KeycloakSubject u = ui_KeycloakSubject x" "\<forall>y \<in> set (f (tables ! i)). u_ID y \<noteq> u_ID u"
    and f': "f' (tables ! i) = f (tables ! i) @ [u]" "\<forall>t. t \<noteq> tables ! i \<longrightarrow> f' t = f t"
  shows "user_inv tables (xs @ [x], f')"
proof -
  have sub: "set (f t) \<subseteq> set (f' t)" for t using f' by (cases "t = tables ! i") auto
  have "distinct (map u_ID (f' t))" for t
    using inv u(3) f' by (cases "t = tables ! i") (auto simp: user_inv_def)
  moreover have "\<exists>w \<in> set (f' (tables ! nat (sint (ui_TableIndex y)))). u_ID w = ui_UserID y \<and> u_KeycloakSubject w = ui_KeycloakSubject y"
    if "y \<in> set xs" for y
    using inv that sub unfolding user_inv_def by (metis fst_conv snd_conv subsetD)
  ultimately show ?thesis
    using inv x i u(1,2) f'(1) unfolding user_inv_def by auto
qed

lemma create_user_None:
  assumes ok: "user_repo_ok r idx rows" and run: "create_user r user db = (None, user', db')"
    and inv: "user_inv (ur_TableNames (uu_router r)) (user_view idx rows db)"
  shows "user_inv (ur_TableNames (uu_router r)) (user_view idx rows db')
     \<and> adds_user user' (user_view idx rows db) (user_view idx rows db')
     \<and> u_ID user' = u_ID user \<and> u_KeycloakSubject user' = u_KeycloakSubject user"
proof -
  let ?names = "ur_TableNames (uu_router r)"
  from run obtain i t db1 x where i: "ur_TableIndex (uu_router r) (u_ID user) = Inr i"
    and t: "ur_TableNameByIndex (uu_router r) (int i) = Inr t" and c1: "g_create (uu_db r t) user db = (None, user', db1)"
    and c2: "g_create (uu_index r) \<lparr>ui_KeycloakSubject = u_KeycloakSubject user', ui_UserID = u_ID user', ui_TableIndex = of_nat i,
       ui_CreatedAt = zero_time\<rparr> db1 = (None, x, db')" by (rule create_user_steps)
  note router = user_repo_okD(5) [OF ok]
  have bound: "i < length ?names" by (rule user_shards.index_bound [OF router i])
  have small: "i < 8" using ur_index_bound [OF router i] .
  have name: "?names ! i = t" using t user_shards.by_index [of "int i" "uu_router r"] bound by simp
  obtain ti where u': "user' = t_fill (user_table (rows t)) ti user" "rows t db1 = rows t db @ [user']"
    "\<forall>y \<in> set (rows t db). u_ID y \<noteq> u_ID user'"
    using create_None [OF user_repo_okD(2) [OF ok] c1] by (metis user_table_simps(1,2))
  obtain tx where x: "x = t_fill (identity_table idx) tx \<lparr>ui_KeycloakSubject = u_KeycloakSubject user', ui_UserID = u_ID user',
       ui_TableIndex = of_nat i, ui_CreatedAt = zero_time\<rparr>" "idx db' = idx db1 @ [x]"
    "\<forall>y \<in> set (idx db1). \<not> t_conflict (identity_table idx) y x"
    using create_None [OF user_repo_okD(1) [OF ok] c2] by (metis identity_table_simps(1))
  have xf: "ui_KeycloakSubject x = u_KeycloakSubject user'" "ui_UserID x = u_ID user'" "ui_TableIndex x = of_nat i"
    by (simp_all add: x(1))
  have frame: "idx db1 = idx db" "\<forall>s. s \<noteq> t \<longrightarrow> rows s db1 = rows s db" "\<forall>s. rows s db' = rows s db1"
    using ok c1 c2 unfolding user_repo_ok_def by (metis snd_conv)+
  have "sint (of_nat i :: 16 word) = int i"
    using small by (simp only: signed_of_nat) (simp add: signed_take_bit_int_eq_self)
  moreover have "user_inv ?names (idx db, \<lambda>t. rows t db)" using inv by (simp add: user_view_def)
  ultimately have "user_inv ?names (idx db @ [x], \<lambda>t. rows t db')"
    using bound x(3) xf u'(2,3) frame name by (intro user_inv_add [where i = i and u = user' and f = "\<lambda>t. rows t db"]) auto
  moreover have "adds_user user' (user_view idx rows db) (user_view idx rows db')"
    using x(2,3) frame(1) xf by (auto simp: adds_user_def user_view_def)
  ultimately show ?thesis using x(2) frame(1) u'(1) by (simp add: user_view_def)
qed

lemma user_transaction_None:
  assumes ok: "user_repo_ok r idx rows" and run: "uu_transaction r (create_user r) user db = (None, user', db')"
    and inv: "user_inv (ur_TableNames (uu_router r)) (user_view idx rows db)"
  shows "user_inv (ur_TableNames (uu_router r)) (user_view idx rows db')
     \<and> adds_user user' (user_view idx rows db) (user_view idx rows db')
     \<and> u_ID user' = u_ID user \<and> u_KeycloakSubject user' = u_KeycloakSubject user"
proof -
  from user_repo_okD(3) [OF ok, unfolded atomic_ok_def, rule_format, OF run] obtain db1 db2 where
    v: "user_view idx rows db1 = user_view idx rows db" "user_view idx rows db' = user_view idx rows db2"
    and body: "create_user r user db1 = (None, user', db2)" by auto
  show ?thesis using create_user_None [OF ok body] inv unfolding v by simp
qed

lemma user_transaction_Some:
  assumes ok: "user_repo_ok r idx rows" and run: "uu_transaction r (create_user r) user db = (Some err, user', db')"
  shows "user_view idx rows db' = user_view idx rows db" "u_KeycloakSubject user' = u_KeycloakSubject user"
proof -
  show "user_view idx rows db' = user_view idx rows db"
    using user_repo_okD(3) [OF ok, unfolded atomic_ok_def, rule_format, OF run] by simp
  from user_repo_okD(4) [OF ok, unfolded captured_ok_def, rule_format, OF run] show "u_KeycloakSubject user' = u_KeycloakSubject user"
    by (auto dest: create_user_captured [OF ok])
qed

section \<open>One step of one request\<close>

fun phase_subject :: "init_phase \<Rightarrow> string option" where
  "phase_subject (Looking u) = Some (u_KeycloakSubject u)"
| "phase_subject (Creating u) = Some (u_KeycloakSubject u)"
| "phase_subject (Lost u e) = Some (u_KeycloakSubject u)"
| "phase_subject (Answered (Inr (u, c))) = Some (u_KeycloakSubject u)"
| "phase_subject (Answered (Inl e)) = None"

definition indexed :: "UserIdentityIndex list \<Rightarrow> User \<Rightarrow> bool" where
  "indexed xs u \<longleftrightarrow> (\<exists>x \<in> set xs. ui_KeycloakSubject x = u_KeycloakSubject u \<and> ui_UserID x = u_ID u)"

text \<open>An answer is in the index, and a request that created the user found no row of its subject.\<close>

definition good_step :: "UserIdentityIndex list \<Rightarrow> UserIdentityIndex list \<Rightarrow> init_phase \<Rightarrow> init_phase \<Rightarrow> bool" where
  "good_step xs xs' p p' \<longleftrightarrow> set xs \<subseteq> set xs' \<and> (phase_subject p' = phase_subject p \<or> phase_subject p' = None)
     \<and> (\<forall>u c. p' = Answered (Inr (u, c)) \<longrightarrow> p' = p \<or> indexed xs' u \<and>
          (c \<longrightarrow> (\<forall>y \<in> set xs. ui_KeycloakSubject y \<noteq> u_KeycloakSubject u)))"

lemma find_step:
  assumes ok: "user_repo_ok r idx rows" and inv: "user_inv (ur_TableNames (uu_router r)) (user_view idx rows db)"
    and find: "uu_FindBySubject r (u_KeycloakSubject u0) db = (res, db')"
    and p: "phase_subject p = Some (u_KeycloakSubject u0)"
    and p': "case res of Inr u \<Rightarrow> p' = Answered (Inr (u, False)) | Inl _ \<Rightarrow> phase_subject p' = phase_subject p \<and> (\<forall>r. p' \<noteq> Answered r)
        \<or> (\<exists>e. p' = Answered (Inl e))"
  shows "user_inv (ur_TableNames (uu_router r)) (user_view idx rows db') \<and> good_step (idx db) (idx db') p p'"
proof -
  note view = FindBySubject_view [OF ok find]
  have "good_step (idx db) (idx db') p p'"
  proof (cases res)
    case (Inl e)
    then show ?thesis using p' viewD [OF view] by (auto simp: good_step_def)
  next
    case (Inr u)
    from FindBySubject_Inr [OF ok find [unfolded Inr] inv] Inr p p' viewD [OF view] show ?thesis
      by (auto simp: good_step_def indexed_def)
  qed
  with view inv show ?thesis by simp
qed

lemma init_step_good:
  assumes ok: "user_repo_ok r idx rows" and inv: "user_inv (ur_TableNames (uu_router r)) (user_view idx rows db)"
    and step: "init_step r p db = (p', db')"
  shows "user_inv (ur_TableNames (uu_router r)) (user_view idx rows db') \<and> good_step (idx db) (idx db') p p'"
proof (cases p)
  case (Looking u0)
  obtain res db1 where find: "uu_FindBySubject r (u_KeycloakSubject u0) db = (res, db1)" by fastforce
  with step Looking have same: "db1 = db'" by (auto simp: init_step_def split: sum.splits)
  show ?thesis
    by (rule find_step [OF ok inv find [unfolded same]]) (use step Looking find in \<open>auto simp: init_step_def split: sum.splits if_splits\<close>)
next
  case (Lost u0 e)
  obtain res db1 where find: "uu_FindBySubject r (u_KeycloakSubject u0) db = (res, db1)" by fastforce
  with step Lost have same: "db1 = db'" by (auto simp: init_step_def split: sum.splits)
  show ?thesis
    by (rule find_step [OF ok inv find [unfolded same]]) (use step Lost find in \<open>auto simp: init_step_def split: sum.splits if_splits\<close>)
next
  case (Creating u0)
  obtain e u' db1 where tx: "uu_transaction r (create_user r) u0 db = (e, u', db1)" by (metis surj_pair)
  show ?thesis
  proof (cases e)
    case None
    with step Creating tx have p': "p' = Answered (Inr (u', True))" "db1 = db'" by (simp_all add: init_step_def)
    from user_transaction_None [OF ok tx [unfolded None] inv] p' Creating show ?thesis
      by (auto simp: good_step_def adds_user_def indexed_def user_view_def)
  next
    case (Some err)
    with step Creating tx have p': "p' = Lost u' err" "db1 = db'" by (simp_all add: init_step_def)
    note view = user_transaction_Some [OF ok tx [unfolded Some]]
    from viewD [OF view(1)] view(2) p' Creating inv view(1) show ?thesis by (auto simp: good_step_def)
  qed
qed (use step inv in \<open>auto simp: init_step_def good_step_def\<close>)

section \<open>All interleavings\<close>

definition jobs_ok :: "User list \<Rightarrow> UserIdentityIndex list \<Rightarrow> init_phase list \<Rightarrow> bool" where
  "jobs_ok users xs jobs \<longleftrightarrow> length jobs = length users
     \<and> (\<forall>k < length users. phase_subject (jobs ! k) = Some (u_KeycloakSubject (users ! k)) \<or> phase_subject (jobs ! k) = None)
     \<and> (\<forall>k < length users. \<forall>u c. jobs ! k = Answered (Inr (u, c)) \<longrightarrow> indexed xs u)
     \<and> (\<forall>i < length users. \<forall>j < length users. \<forall>u u'. jobs ! i = Answered (Inr (u, True)) \<longrightarrow> jobs ! j = Answered (Inr (u', True))
          \<longrightarrow> u_KeycloakSubject u = u_KeycloakSubject u' \<longrightarrow> i = j)"

lemma jobs_ok_step:
  assumes "jobs_ok users xs jobs" "good_step xs xs' (jobs ! k) p'" "k < length jobs"
  shows "jobs_ok users xs' (jobs[k := p'])"
proof -
  have grow: "indexed xs u \<Longrightarrow> indexed xs' u" for u using assms(2) unfolding good_step_def indexed_def by blast
  have kept: "\<forall>i < length users. \<forall>u c. jobs ! i = Answered (Inr (u, c)) \<longrightarrow> indexed xs u" using assms(1) by (simp add: jobs_ok_def)
  have new: "p' = Answered (Inr (u, c)) \<Longrightarrow> p' = jobs ! k \<or> indexed xs' u \<and> (c \<longrightarrow> (\<forall>y \<in> set xs. ui_KeycloakSubject y \<noteq> u_KeycloakSubject u))" for u c
    using assms(2) unfolding good_step_def by blast
  have fresh: "i = k" if "i < length users" "jobs ! i = Answered (Inr (u, True))" "p' = Answered (Inr (u', True))"
    "u_KeycloakSubject u = u_KeycloakSubject u'" "p' \<noteq> jobs ! k" for i u u'
    using new [OF that(3)] kept that unfolding indexed_def by metis
  show ?thesis
  proof (cases "p' \<noteq> jobs ! k")
    case False
    with assms(1) grow show ?thesis by (auto simp: jobs_ok_def)
  next
    case True
    show ?thesis
    unfolding jobs_ok_def
  proof (intro conjI allI impI)
    fix i assume i: "i < length users"
    show "phase_subject (jobs[k := p'] ! i) = Some (u_KeycloakSubject (users ! i)) \<or> phase_subject (jobs[k := p'] ! i) = None"
      using assms i by (cases "i = k") (auto simp: jobs_ok_def good_step_def)
    fix u c assume "jobs[k := p'] ! i = Answered (Inr (u, c))"
    then show "indexed xs' u" using assms(3) i kept new grow by (cases "i = k") (metis nth_list_update_eq, metis nth_list_update_neq)
  next
    fix i j u u' assume ij: "i < length users" "j < length users" and created: "jobs[k := p'] ! i = Answered (Inr (u, True))"
      "jobs[k := p'] ! j = Answered (Inr (u', True))" and subj: "u_KeycloakSubject u = u_KeycloakSubject u'"
    consider "i = j" | "i = k" "j \<noteq> k" | "i \<noteq> k" "j = k" | "i \<noteq> k" "j \<noteq> k" by blast
    then show "i = j"
    proof cases
      case 2
      with created assms(3) have "p' = Answered (Inr (u, True))" "jobs ! j = Answered (Inr (u', True))" by simp_all
      from fresh [OF ij(2) this(2,1) subj [symmetric] True] 2 show ?thesis by simp
    next
      case 3
      with created assms(3) have "p' = Answered (Inr (u', True))" "jobs ! i = Answered (Inr (u, True))" by simp_all
      from fresh [OF ij(1) this(2,1) subj True] 3 show ?thesis by simp
    next
      case 4
      with created have "jobs ! i = Answered (Inr (u, True))" "jobs ! j = Answered (Inr (u', True))" by simp_all
      with assms(1) ij subj show ?thesis unfolding jobs_ok_def by blast
    qed
  qed (use assms in \<open>simp add: jobs_ok_def\<close>)
  qed
qed

lemma run_inits_ok:
  assumes ok: "user_repo_ok r idx rows"
  shows "run_inits r ks jobs db = (jobs', db') \<Longrightarrow> user_inv (ur_TableNames (uu_router r)) (user_view idx rows db)
    \<Longrightarrow> jobs_ok users (idx db) jobs \<Longrightarrow> user_inv (ur_TableNames (uu_router r)) (user_view idx rows db') \<and> jobs_ok users (idx db') jobs'"
proof (induction ks arbitrary: jobs db)
  case (Cons k ks)
  show ?case
  proof (cases "k < length jobs")
    case True
    obtain p db1 where step: "init_step r (jobs ! k) db = (p, db1)" by fastforce
    note good = init_step_good [OF ok Cons.prems(2) step]
    from Cons.prems(1) True step have "run_inits r ks (jobs[k := p]) db1 = (jobs', db')" by simp
    from Cons.IH [OF this] good jobs_ok_step [OF Cons.prems(3) _ True] show ?thesis by blast
  qed (use Cons in auto)
qed simp

lemma indexed_unique:
  assumes "user_inv tables (user_view idx rows db)" "indexed (idx db) u" "indexed (idx db) u'"
  shows "u_ID u = u_ID u' \<longleftrightarrow> u_KeycloakSubject u = u_KeycloakSubject u'"
proof -
  from assms(2,3) obtain x y where xy: "x \<in> set (idx db)" "ui_KeycloakSubject x = u_KeycloakSubject u" "ui_UserID x = u_ID u"
    "y \<in> set (idx db)" "ui_KeycloakSubject y = u_KeycloakSubject u'" "ui_UserID y = u_ID u'" unfolding indexed_def by blast
  have "inj_on ui_KeycloakSubject (set (idx db))" "inj_on ui_UserID (set (idx db))"
    using assms(1) by (auto simp: user_inv_def user_view_def distinct_map)
  with xy show ?thesis by (metis inj_onD)
qed

text \<open>C4: when any number of first requests run together, in any interleaving of their look-ups and transactions and
  with any database errors, the index and the shards stay consistent; every request that is answered gets the user of
  its own subject, two answers have the same user ID exactly when they are for the same subject, and at most one
  request of a subject is told that it created the user.\<close>
theorem initialize_once:
  assumes "user_repo_ok r idx rows" "user_inv (ur_TableNames (uu_router r)) (user_view idx rows db)"
    and "run_inits r ks (map Looking users) db = (jobs, db')"
  shows "user_inv (ur_TableNames (uu_router r)) (user_view idx rows db') \<and>
    (\<forall>i < length users. \<forall>j < length users. \<forall>u c u' c'.
       jobs ! i = Answered (Inr (u, c)) \<longrightarrow> jobs ! j = Answered (Inr (u', c')) \<longrightarrow>
         u_KeycloakSubject u = u_KeycloakSubject (users ! i)
       \<and> (u_ID u = u_ID u' \<longleftrightarrow> u_KeycloakSubject (users ! i) = u_KeycloakSubject (users ! j))
       \<and> (c \<longrightarrow> c' \<longrightarrow> u_ID u = u_ID u' \<longrightarrow> i = j))"
proof -
  have "jobs_ok users (idx db) (map Looking users)" by (simp add: jobs_ok_def)
  from run_inits_ok [OF assms(1,3,2) this] have inv: "user_inv (ur_TableNames (uu_router r)) (user_view idx rows db')"
    and jobs: "jobs_ok users (idx db') jobs" by auto
  have answer: "u_KeycloakSubject u = u_KeycloakSubject (users ! i)" "indexed (idx db') u"
    if "i < length users" "jobs ! i = Answered (Inr (u, c))" for i u c
    using jobs that unfolding jobs_ok_def by fastforce+
  show ?thesis
  proof (intro conjI inv allI impI)
    fix i j u c u' c' assume ij: "i < length users" "j < length users"
      and a: "jobs ! i = Answered (Inr (u, c))" "jobs ! j = Answered (Inr (u', c'))"
    note ui = answer [OF ij(1) a(1)] and uj = answer [OF ij(2) a(2)]
    show "u_KeycloakSubject u = u_KeycloakSubject (users ! i)" by (rule ui)
    show same: "u_ID u = u_ID u' \<longleftrightarrow> u_KeycloakSubject (users ! i) = u_KeycloakSubject (users ! j)"
      using indexed_unique [OF inv ui(2) uj(2)] ui(1) uj(1) by simp
    show "i = j" if "c" "c'" "u_ID u = u_ID u'"
      using jobs ij a that same ui(1) uj(1) unfolding jobs_ok_def by metis
  qed
qed

text \<open>A concrete database: the index and a function from table names to rows.\<close>

definition list_user_repo :: "(UserIdentityIndex list \<times> (string \<Rightarrow> User list)) UserRepository" where
  "list_user_repo =
    \<lparr>uu_index = list_gorm fst (\<lambda>xs db. (xs, snd db)) 5 (identity_table fst),
     uu_db = (\<lambda>t. list_gorm (\<lambda>db. snd db t) (\<lambda>us db. (fst db, (snd db)(t := us))) 5 (user_table (\<lambda>db. snd db t))),
     uu_transaction = (\<lambda>body v db. case body v db of (None, v', db') \<Rightarrow> (None, v', db') | (Some e, v', _) \<Rightarrow> (Some e, v', db)),
     uu_Raw_int = list_raw_int (\<lambda>t db. snd db t), uu_Raw_users = list_raw_rows user_column (\<lambda>t db. snd db t),
     uu_router = (case NewUserRouter \<lparr>sc_Enabled = True, sc_TableCount = 8, sc_TablePrefix = ''users_''\<rparr> of Inr r \<Rightarrow> r)\<rparr>"

definition new_user :: "u64 \<Rightarrow> string \<Rightarrow> User" where
  "new_user i subject = \<lparr>u_ID = i, u_KeycloakSubject = subject, u_Username = [], u_Email = None, u_Nickname = [], u_AvatarURL = [],
     u_Phone = None, u_Status = 1, u_LastLoginAt = None, u_CreatedAt = 5, u_UpdatedAt = 5\<rparr>"

lemma list_user_router: "ur_ok (uu_router list_user_repo)"
proof -
  let ?c = "\<lparr>sc_Enabled = True, sc_TableCount = 8, sc_TablePrefix = ''users_''\<rparr>"
  have "validTablePrefix ''users_''" by code_simp
  then have "NewUserRouter ?c = Inr (uu_router list_user_repo)" by (simp add: list_user_repo_def NewUserRouter_def)
  then show ?thesis unfolding ur_ok_def by blast
qed

lemma list_user_repo_ok: "user_repo_ok list_user_repo fst (\<lambda>t db. snd db t)"
proof -
  have "gorm_ok (uu_index list_user_repo) (identity_table fst)"
    by (simp add: list_user_repo_def list_gorm_ok)
  moreover have "gorm_ok (uu_db list_user_repo t) (user_table (\<lambda>db. snd db t))" for t
    by (simp add: list_user_repo_def list_gorm_ok)
  moreover have "atomic_ok (uu_transaction list_user_repo) (user_view fst (\<lambda>t db. snd db t))"
    by (auto simp: atomic_ok_def list_user_repo_def user_view_def split: prod.splits option.splits)
  moreover have "captured_ok (uu_transaction list_user_repo)"
    by (auto simp: captured_ok_def list_user_repo_def split: prod.splits option.splits)
  moreover have "snd (snd (g_first (uu_index list_user_repo) P b db)) t = snd db t"
    "snd (snd (snd (g_create (uu_index list_user_repo) x db))) t = snd db t" for P b db t x
    by (simp_all add: list_user_repo_def list_gorm_def split: list.split)
  moreover have "fst (snd (g_first (uu_db list_user_repo s) P b db)) = fst db"
    "snd (snd (g_first (uu_db list_user_repo s) P b db)) t = snd db t"
    "fst (snd (snd (g_create (uu_db list_user_repo s) x db))) = fst db"
    "t \<noteq> s \<Longrightarrow> snd (snd (snd (g_create (uu_db list_user_repo s) x db))) t = snd db t" for s P b db t x
    by (simp_all add: list_user_repo_def list_gorm_def split: list.split)
  ultimately show ?thesis
    using list_user_router unfolding user_repo_ok_def by simp
qed

text \<open>Two requests of one subject race, a third is for another subject.\<close>

definition raced_users :: "User list" where
  "raced_users = [new_user 5 ''s'', new_user 6 ''s'', new_user 7 ''t'']"

definition raced :: "init_phase list" where
  "raced = fst (run_inits list_user_repo [0, 1, 0, 1, 1, 2, 2] (map Looking raced_users) ([], \<lambda>_. []))"

definition raced_db :: "UserIdentityIndex list \<times> (string \<Rightarrow> User list)" where
  "raced_db = snd (run_inits list_user_repo [0, 1, 0, 1, 1, 2, 2] (map Looking raced_users) ([], \<lambda>_. []))"

lemma raced_db_inv: "user_inv (ur_TableNames (uu_router list_user_repo)) (user_view fst (\<lambda>t db. snd db t) raced_db)"
proof -
  have "user_inv (ur_TableNames (uu_router list_user_repo)) (user_view fst (\<lambda>t db. snd db t) ([], \<lambda>_. []))"
    "jobs_ok raced_users (fst ([], \<lambda>_::string. []::User list)) (map Looking raced_users)"
    by (simp_all add: user_inv_def user_view_def jobs_ok_def)
  from run_inits_ok [OF list_user_repo_ok _ this] show ?thesis unfolding raced_db_def by (metis prod.collapse)
qed

lemma raced_answers:
  "map (\<lambda>p. case p of Answered (Inr (u, c)) \<Rightarrow> Some (u_ID u, c) | _ \<Rightarrow> None) raced = [Some (5, True), Some (5, False), Some (7, True)]"
  by code_simp

theorem initialize_once_witness:
  "\<exists>jobs db'. run_inits list_user_repo [0, 1, 0, 1, 1, 2, 2]
      (map Looking raced_users) ([], \<lambda>_. []) = (jobs, db')
    \<and> map (\<lambda>p. case p of Answered (Inr (u, c)) \<Rightarrow> Some (u_ID u, c) | _ \<Rightarrow> None) jobs = [Some (5, True), Some (5, False), Some (7, True)]
    \<and> user_inv (ur_TableNames (uu_router list_user_repo)) (user_view fst (\<lambda>t db. snd db t) db')"
proof -
  obtain jobs db' where run: "run_inits list_user_repo [0, 1, 0, 1, 1, 2, 2]
      (map Looking raced_users) ([], \<lambda>_. []) = (jobs, db')" by (metis surj_pair)
  have "user_inv (ur_TableNames (uu_router list_user_repo)) (user_view fst (\<lambda>t db. snd db t) ([], \<lambda>_. []))"
    by (simp add: user_inv_def user_view_def)
  from initialize_once [OF list_user_repo_ok this run] run raced_answers show ?thesis by (auto simp: raced_def)
qed

end
