(* ===== verification/User_Service.thy ===== *)
theory User_Service
  imports User_Init Wallet_Service
begin

text \<open>
  The user service, \<open>user/internal/service/user.go\<close> and \<open>admin_user.go\<close>. The clock and the ID generator are
  fields of the service (the generator of the service is the one of \<open>Snowflake\<close>). \<open>Identity\<close> is the record of
  \<open>user/internal/auth/context.go\<close>, which has the fields of the Web3 service's. Spans are left out; a protobuf time stamp
  is the time.
\<close>

section \<open>Messages\<close>

record UserInfo =
  pu_Id :: string
  pu_Username :: string
  pu_CreatedAt :: time
  pu_Status :: int
  pu_Nickname :: string
  pu_AvatarUrl :: string
  pu_Phone :: string
  pu_UpdatedAt :: time
  pu_LastLoginAt :: "time option"
  pu_Email :: string

record InitializeUserResponse =
  iu_UserInfo :: UserInfo
  iu_NewlyCreated :: bool

record GetUserInfoRequest =
  gq_UserId :: string

record GetUserInfoResponse =
  gi_Success :: bool
  gi_UserInfo :: UserInfo

record GetUserListRequest =
  gl_Page :: u32
  gl_PageSize :: u32

record GetUserListResponse =
  ll_Success :: bool
  ll_UserList :: "UserInfo list"
  ll_Total :: int
  ll_Page :: u32
  ll_PageSize :: u32

section \<open>The service\<close>

record 'db UserService =
  uv_repository :: "'db UserRepository"
  uv_NextID :: "'db \<Rightarrow> (go_error + u64) \<times> 'db"
  uv_now :: "'db \<Rightarrow> time \<times> 'db"

definition authenticatedIdentity :: "ctx \<Rightarrow> go_error + Identity" where
  "authenticatedIdentity c =
    (case FromContext c of (identity, ok) \<Rightarrow>
       if \<not> ok \<or> TrimSpace (id_Subject identity) = [] then Inl (Unauthorized ''authenticated identity is missing'')
       else Inr identity)"

definition optionalString :: "string \<Rightarrow> string option" where
  "optionalString value = (let value = TrimSpace value in if value = [] then None else Some value)"

definition toProtoUser :: "User \<Rightarrow> UserInfo" where
  "toProtoUser user =
    \<lparr>pu_Id = int_to_string (sint (u_ID user)), pu_Username = u_Username user, pu_CreatedAt = u_CreatedAt user,
     pu_Status = u_Status user, pu_Nickname = u_Nickname user, pu_AvatarUrl = u_AvatarURL user,
     pu_Phone = (case u_Phone user of None \<Rightarrow> [] | Some p \<Rightarrow> p), pu_UpdatedAt = u_UpdatedAt user,
     pu_LastLoginAt = u_LastLoginAt user, pu_Email = (case u_Email user of None \<Rightarrow> [] | Some e \<Rightarrow> e)\<rparr>"

text \<open>The user that a first request stores.\<close>

definition user_of_claims :: "u64 \<Rightarrow> time \<Rightarrow> Identity \<Rightarrow> User" where
  "user_of_claims i now identity =
    \<lparr>u_ID = i, u_KeycloakSubject = id_Subject identity, u_Username = id_Username identity,
     u_Email = optionalString (id_Email identity), u_Nickname = id_Username identity, u_AvatarURL = [], u_Phone = None,
     u_Status = UserStatusActive, u_LastLoginAt = Some now, u_CreatedAt = zero_time, u_UpdatedAt = zero_time\<rparr>"

definition InitializeUser :: "'db UserService \<Rightarrow> ctx \<Rightarrow> 'db \<Rightarrow> (go_error + InitializeUserResponse) \<times> 'db" where
  "InitializeUser s c db =
    (case authenticatedIdentity c of
       Inl err \<Rightarrow> (Inl err, db)
     | Inr identity \<Rightarrow>
         (case uv_NextID s db of
            (Inl err, db) \<Rightarrow> (Inl err, db)
          | (Inr i, db) \<Rightarrow>
              (case uv_now s db of (now, db) \<Rightarrow>
                 (case uu_FindOrCreateBySubject (uv_repository s) (user_of_claims i now identity) db of
                    (Inl err, db) \<Rightarrow> (Inl err, db)
                  | (Inr (user, created), db) \<Rightarrow>
                      (Inr \<lparr>iu_UserInfo = toProtoUser user, iu_NewlyCreated = created\<rparr>, db)))))"

definition isAdminRole :: "string \<Rightarrow> bool" where
  "isAdminRole role \<longleftrightarrow> role = ''admin'' \<or> role = ''super-admin''"

text \<open>\<open>strconv.ParseInt(s, 10, 64)\<close>, an error being \<open>None\<close>.\<close>

definition ParseInt64 :: "string \<Rightarrow> int option" where
  "ParseInt64 s =
    (let neg = (s \<noteq> [] \<and> hd s = CHR ''-'');
         digits = (if s \<noteq> [] \<and> (hd s = CHR ''-'' \<or> hd s = CHR ''+'') then tl s else s)
     in if digits = [] \<or> \<not> list_all is_digit digits then None
        else
          let v = (if neg then - int (digits_value digits) else int (digits_value digits))
          in if v < - (2 ^ 63) \<or> 2 ^ 63 \<le> v then None else Some v)"

definition GetUserInfo :: "'db UserService \<Rightarrow> ctx \<Rightarrow> GetUserInfoRequest option \<Rightarrow> 'db \<Rightarrow> (go_error + GetUserInfoResponse) \<times> 'db" where
  "GetUserInfo s c req db =
    (case authenticatedIdentity c of
       Inl err \<Rightarrow> (Inl err, db)
     | Inr identity \<Rightarrow>
         let targetID = (case req of None \<Rightarrow> [] | Some r \<Rightarrow> TrimSpace (gq_UserId r));
             found =
               (if targetID = [] then
                  if isAdminRole (id_Role identity) then
                    (Inl (InvalidArgument ''user_id is required for an administrator query''), db)
                  else uu_FindBySubject (uv_repository s) (id_Subject identity) db
                else if \<not> isAdminRole (id_Role identity) then
                  (Inl (Forbidden ''only administrators may query another user''), db)
                else
                  (case ParseInt64 targetID of
                     None \<Rightarrow> (Inl (InvalidArgument ''user_id must be a positive integer''), db)
                   | Some userID \<Rightarrow>
                       if userID \<le> 0 then (Inl (InvalidArgument ''user_id must be a positive integer''), db)
                       else uu_FindByID (uv_repository s) (word_of_int userID) db))
         in (case found of
               (Inl err, db) \<Rightarrow>
                 (Inl (if errors_Is err ErrRecordNotFound then NotFound ''local user was not found'' else err), db)
             | (Inr user, db) \<Rightarrow> (Inr \<lparr>gi_Success = True, gi_UserInfo = toProtoUser user\<rparr>, db)))"

definition defaultUserListPageSize :: u32 where "defaultUserListPageSize = 20"
definition maxUserListPageSize :: u32 where "maxUserListPageSize = 100"

definition normalizeUserPage :: "GetUserListRequest option \<Rightarrow> go_error + u32 \<times> u32" where
  "normalizeUserPage req =
    (case req of
       None \<Rightarrow> Inr (1, defaultUserListPageSize)
     | Some r \<Rightarrow>
         let page = (if gl_Page r = 0 then 1 else gl_Page r);
             pageSize = (if gl_PageSize r = 0 then defaultUserListPageSize else gl_PageSize r)
         in if sint page < 1 \<or> sint pageSize < 1 \<or> sint maxUserListPageSize < sint pageSize then
              Inl (InvalidArgument ''page must be positive and page_size must be between 1 and 100'')
            else Inr (page, pageSize))"

text \<open>\<open>int((page - 1) * pageSize)\<close>: the product is an \<open>int32\<close>.\<close>

definition page_offset :: "u32 \<Rightarrow> u32 \<Rightarrow> int" where
  "page_offset page pageSize = sint ((page - 1) * pageSize)"

definition GetUserList :: "'db UserService \<Rightarrow> ctx \<Rightarrow> GetUserListRequest option \<Rightarrow> 'db \<Rightarrow> (go_error + GetUserListResponse) \<times> 'db" where
  "GetUserList s c req db =
    (case authenticatedIdentity c of
       Inl err \<Rightarrow> (Inl err, db)
     | Inr identity \<Rightarrow>
         if \<not> isAdminRole (id_Role identity) then (Inl (Forbidden ''only administrators may list users''), db)
         else
           (case normalizeUserPage req of
              Inl err \<Rightarrow> (Inl err, db)
            | Inr (page, pageSize) \<Rightarrow>
                (case uu_List (uv_repository s) (page_offset page pageSize) (sint pageSize) db of
                   (Inl err, db) \<Rightarrow> (Inl err, db)
                 | (Inr (users, n), db) \<Rightarrow>
                     (Inr \<lparr>ll_Success = True, ll_UserList = map toProtoUser users, ll_Total = n, ll_Page = page,
                           ll_PageSize = pageSize\<rparr>, db))))"

section \<open>Who sees whom\<close>

lemma authenticatedIdentity_Inr:
  "authenticatedIdentity c = Inr identity \<longleftrightarrow> c = Some identity \<and> TrimSpace (id_Subject identity) \<noteq> []"
  by (auto simp: authenticatedIdentity_def FromContext_def split: option.splits)

lemma ParseInt64_range: "ParseInt64 s = Some v \<Longrightarrow> - (2 ^ 63) \<le> v \<and> v < 2 ^ 63"
  by (auto simp: ParseInt64_def Let_def split: if_splits)

lemma int64_round: "- (2 ^ 63) \<le> v \<Longrightarrow> v < 2 ^ 63 \<Longrightarrow> sint (word_of_int v :: 64 word) = v"
  by (simp add: signed_of_int signed_take_bit_int_eq_self)

text \<open>C11: a caller who is not an administrator reads the user of the subject in the verified token, whatever the request says;
  an administrator reads the user with the requested ID, which is the ID in the answer.\<close>
theorem GetUserInfo_scope:
  assumes "user_repo_ok (uv_repository s) idx rows"
    and "user_inv (ur_TableNames (uu_router (uv_repository s))) (user_view idx rows db)"
    and "GetUserInfo s c req db = (Inr response, db')"
  shows "\<exists>identity u. c = Some identity \<and> TrimSpace (id_Subject identity) \<noteq> [] \<and> gi_UserInfo response = toProtoUser u \<and>
    (if isAdminRole (id_Role identity)
     then \<exists>r v. req = Some r \<and> ParseInt64 (TrimSpace (gq_UserId r)) = Some v \<and> 0 < v \<and> sint (u_ID u) = v
     else u_KeycloakSubject u = id_Subject identity)"
proof -
  from assms(3) obtain identity where auth: "authenticatedIdentity c = Inr identity"
    by (auto simp: GetUserInfo_def split: sum.splits)
  then have c: "c = Some identity" "TrimSpace (id_Subject identity) \<noteq> []" by (simp_all add: authenticatedIdentity_Inr)
  show ?thesis
  proof (cases "isAdminRole (id_Role identity)")
    case True
    with assms(3) auth obtain r v u where r: "req = Some r" and v: "ParseInt64 (TrimSpace (gq_UserId r)) = Some v" "0 < v"
      and u: "uu_FindByID (uv_repository s) (word_of_int v) db = (Inr u, db')" "gi_UserInfo response = toProtoUser u"
      by (auto simp: GetUserInfo_def Let_def split: option.splits if_splits sum.splits prod.splits)
    have "u_ID u = word_of_int v" by (rule FindByID_Inr [OF assms(1) u(1) assms(2)])
    with ParseInt64_range [OF v(1)] have "sint (u_ID u) = v" by (simp add: int64_round)
    with True c r v u(2) show ?thesis by auto
  next
    case False
    with assms(3) auth obtain u where u: "uu_FindBySubject (uv_repository s) (id_Subject identity) db = (Inr u, db')"
      "gi_UserInfo response = toProtoUser u"
      by (auto simp: GetUserInfo_def Let_def split: option.splits if_splits sum.splits prod.splits)
    from FindBySubject_Inr [OF assms(1) u(1) assms(2)] False c u(2) show ?thesis by auto
  qed
qed

section \<open>Pages of users\<close>

lemma page_offset_small:
  assumes "1 \<le> sint page" "1 \<le> sint psize" "(sint page - 1) * sint psize < 2 ^ 31"
  shows "page_offset page psize = (sint page - 1) * sint psize"
proof -
  have eq: "(page - 1) * psize = word_of_int ((sint page - 1) * sint psize)" by simp
  have "0 \<le> (sint page - 1) * sint psize" using assms(1,2) by simp
  with assms(3) show ?thesis
    unfolding page_offset_def eq by (simp only: signed_of_int) (simp add: signed_take_bit_int_eq_self)
qed

text \<open>The product wraps for pages that a request may ask for.\<close>

lemma page_offset_wraps: "normalizeUserPage (Some \<lparr>gl_Page = 42949674, gl_PageSize = 100\<rparr>) = Inr (42949674, 100)"
    "page_offset 42949674 100 = 4" "page_offset 21474838 100 < 0"
  by code_simp+

text \<open>C40: only an administrator lists users; a page has between 1 and 100 users of room and shows, of all users of all shards in the
  order of creation, newest first, the slice at the offset that the 32-bit product gives, which is the offset of the page as long
  as the product is below 2 ^ 31; the total counts all users.\<close>
theorem GetUserList_page:
  assumes "union_ok (uv_repository s) rows" and "GetUserList s c req db = (Inr response, db')"
  shows "\<exists>identity page psize ys. c = Some identity \<and> isAdminRole (id_Role identity) \<and> normalizeUserPage req = Inr (page, psize)
    \<and> 1 \<le> sint psize \<and> sint psize \<le> 100 \<and> 0 \<le> page_offset page psize
    \<and> ((sint page - 1) * sint psize < 2 ^ 31 \<longrightarrow> page_offset page psize = (sint page - 1) * sint psize)
    \<and> mset ys = mset (all_users rows (ur_TableNames (uu_router (uv_repository s))) db) \<and> sorted_wrt (\<lambda>a b. \<not> newest_first b a) ys
    \<and> ll_UserList response = map toProtoUser (take (nat (sint psize)) (drop (nat (page_offset page psize)) ys))
    \<and> ll_Total response = int (length ys)"
proof -
  let ?names = "ur_TableNames (uu_router (uv_repository s))"
  from assms(2) obtain identity page psize users n where auth: "authenticatedIdentity c = Inr identity"
    and admin: "isAdminRole (id_Role identity)" and norm: "normalizeUserPage req = Inr (page, psize)"
    and list: "uu_List (uv_repository s) (page_offset page psize) (sint psize) db = (Inr (users, n), db')"
    and res: "ll_UserList response = map toProtoUser users" "ll_Total response = n"
    by (auto simp: GetUserList_def split: sum.splits if_splits prod.splits)
  have bounds: "1 \<le> sint page" "1 \<le> sint psize" "sint psize \<le> 100"
    using norm by (auto simp: normalizeUserPage_def Let_def maxUserListPageSize_def defaultUserListPageSize_def
        split: option.splits if_splits)
  from List_Inr [OF assms(1) list] obtain ys where off: "0 \<le> page_offset page psize" "0 < sint psize"
    and ys: "mset ys = mset (all_users rows ?names db)" "sorted_wrt (\<lambda>a b. \<not> newest_first b a) ys"
    "users = take (nat (sint psize)) (drop (nat (page_offset page psize)) ys)" "n = int (length ys)" by blast
  with auth admin norm bounds off page_offset_small [OF bounds(1,2)] ys res show ?thesis
    by (intro exI [of _ identity] exI [of _ page] exI [of _ psize] exI [of _ ys])
      (simp add: authenticatedIdentity_Inr)
qed

section \<open>A concrete service\<close>

definition list_user_service :: "(UserIdentityIndex list \<times> (string \<Rightarrow> User list)) UserService" where
  "list_user_service = \<lparr>uv_repository = list_user_repo, uv_NextID = (\<lambda>db. (Inr 9, db)), uv_now = (\<lambda>db. (6, db))\<rparr>"

definition caller :: "string \<Rightarrow> string \<Rightarrow> ctx" where
  "caller subject role = Some \<lparr>id_Subject = subject, id_Username = [], id_Email = [], id_Role = role, id_SessionID = [], id_TokenID = []\<rparr>"

lemma own_info: "case GetUserInfo list_user_service (caller ''s'' ''user'') None raced_db of
    (Inr r, _) \<Rightarrow> pu_Id (gi_UserInfo r) = ''5'' | _ \<Rightarrow> False"
  by code_simp

theorem GetUserInfo_scope_witness:
  "\<exists>response db'. GetUserInfo list_user_service (caller ''s'' ''user'') None raced_db = (Inr response, db')
    \<and> pu_Id (gi_UserInfo response) = ''5'' \<and> (\<exists>u. gi_UserInfo response = toProtoUser u \<and> u_KeycloakSubject u = ''s'')"
proof -
  from own_info obtain response db' where run: "GetUserInfo list_user_service (caller ''s'' ''user'') None raced_db = (Inr response, db')"
    and i: "pu_Id (gi_UserInfo response) = ''5''" by (auto split: prod.splits sum.splits)
  have "uv_repository list_user_service = list_user_repo" by (simp add: list_user_service_def)
  with GetUserInfo_scope [OF _ _ run, of fst "\<lambda>t db. snd db t"] list_user_repo_ok raced_db_inv have
    "\<exists>u. gi_UserInfo response = toProtoUser u \<and> u_KeycloakSubject u = ''s''"
    by (auto simp: caller_def isAdminRole_def)
  with run i show ?thesis by blast
qed

lemma list_union_ok: "union_ok list_user_repo (\<lambda>t db. snd db t)"
proof -
  let ?rows = "\<lambda>t (db :: UserIdentityIndex list \<times> (string \<Rightarrow> User list)). snd db t"
  have "uu_Raw_int list_user_repo = list_raw_int ?rows" "uu_Raw_users list_user_repo = list_raw_rows user_column ?rows"
    by (simp_all add: list_user_repo_def)
  with list_raw_ok(1) [of user_column ?rows] list_raw_ok(2) [of ?rows] list_user_router show ?thesis by (simp add: union_ok_def)
qed

lemma admin_list: "case GetUserList list_user_service (caller ''r'' ''admin'') None raced_db of
    (Inr r, _) \<Rightarrow> map pu_Id (ll_UserList r) = [''7'', ''5''] \<and> ll_Total r = 2 | _ \<Rightarrow> False"
  by code_simp

theorem GetUserList_page_witness:
  "\<exists>response db'. GetUserList list_user_service (caller ''r'' ''admin'') None raced_db = (Inr response, db')
    \<and> map pu_Id (ll_UserList response) = [''7'', ''5''] \<and> (\<exists>ys::User list. ll_Total response = int (length ys))"
proof -
  from admin_list obtain response db' where run: "GetUserList list_user_service (caller ''r'' ''admin'') None raced_db = (Inr response, db')"
    and i: "map pu_Id (ll_UserList response) = [''7'', ''5'']" by (auto split: prod.splits sum.splits)
  have "uv_repository list_user_service = list_user_repo" by (simp add: list_user_service_def)
  with GetUserList_page [OF _ run, of "\<lambda>t db. snd db t"] list_union_ok have "\<exists>ys::User list. ll_Total response = int (length ys)"
    by auto
  with run i show ?thesis by (intro exI [of _ response] exI [of _ db'] conjI)
qed

end
