(* ===== verification/Tron_Client.thy ===== *)
theory Tron_Client
  imports Tron_Address Nonce
begin

text \<open>
  The read-only client of TRONSCAN and TronGrid, \<open>web3/internal/tron/client.go\<close>, \<open>tronscan.go\<close> and
  \<open>usdt.go\<close>. Sending a request, parsing a URL and decoding the JSON of an answer are parameters; what the
  client sends, how it treats the status of an answer and what it reads from the decoded answer is the model.
\<close>

section \<open>Answers of the providers\<close>

record TokenInfo =
  tk_TokenID :: string
  tk_TokenDecimal :: int
  tk_TokenLevel :: string

record ApprovalRecord =
  rec_Amount :: string
  rec_Unlimited :: bool
  rec_FromAddress :: string
  rec_ToAddress :: string
  rec_ContractAddress :: string
  rec_TokenInfo :: TokenInfo
  rec_ProjectName :: string
  rec_OperateTime :: int

record AddressInfo =
  ai_Tag1 :: string
  ai_Name :: string
  ai_PublicTag :: string
  ai_PublicTagDesc :: string
  ai_Risk :: string

record ApprovalPage =
  pg_Total :: int
  pg_RangeTotal :: int
  pg_Data :: "ApprovalRecord list"
  pg_ContractMap :: "string \<rightharpoonup> bool"
  pg_ContractInfo :: "string \<rightharpoonup> AddressInfo"
  pg_NormalAddressInfo :: "string \<rightharpoonup> AddressInfo"

record constant_response =
  cr_Result :: bool
  cr_Code :: string
  cr_Message :: string
  cr_ConstantResult :: "string list"

section \<open>The transport\<close>

record url =
  url_Scheme :: string
  url_Host :: string
  url_User :: "string option"
  url_Path :: string
  url_Query :: "(string \<times> string) list"

record http_request =
  hr_Method :: string
  hr_URL :: url
  hr_Header :: "(string \<times> string) list"
  hr_Body :: "(string \<times> string) list option"

record http_response =
  hp_StatusCode :: int
  hp_Body :: string

record tron_json =
  json_page :: "string \<Rightarrow> go_error + ApprovalPage"
  json_risk :: "string \<Rightarrow> go_error + ApprovalRecord list"
  json_constant :: "string \<Rightarrow> go_error + constant_response"

record 'w TronClient =
  tc_enabled :: bool
  tc_tronScanBase :: url
  tc_tronGridBase :: url
  tc_apiKey :: string
  tc_usdtContract :: string
  tc_timeout :: int
  tc_Do :: "http_request \<Rightarrow> 'w \<Rightarrow> (go_error + http_response) \<times> 'w"
  tc_json :: tron_json

definition parseHTTPSBaseURL :: "(string \<Rightarrow> go_error + url) \<Rightarrow> string \<Rightarrow> go_error + url" where
  "parseHTTPSBaseURL parse v =
    (case parse (TrimSpace v) of
       Inl err \<Rightarrow> Inl err
     | Inr parsed \<Rightarrow>
         if url_Scheme parsed \<noteq> ''https'' \<or> url_Host parsed = [] \<or> url_User parsed \<noteq> None
         then Inl (PlainErr ''base URL must be an HTTPS origin without user info'')
         else Inr parsed)"

definition NewClient :: "parse_duration \<Rightarrow> (string \<Rightarrow> go_error + url) \<Rightarrow> (http_request \<Rightarrow> 'w \<Rightarrow> (go_error + http_response) \<times> 'w)
    \<Rightarrow> tron_json \<Rightarrow> TronApprovalConfig \<Rightarrow> go_error + 'w TronClient" where
  "NewClient pd parse do_request json cfg =
    (case pd (ta_RequestTimeout cfg) of
       Inl err \<Rightarrow> Inl (PlainErr ''invalid TRON request timeout'')
     | Inr requestTimeout \<Rightarrow>
         if requestTimeout \<le> 0 then Inl (PlainErr ''invalid TRON request timeout'')
         else
           case parseHTTPSBaseURL parse (ta_TronScanBaseURL cfg) of
             Inl err \<Rightarrow> Inl (WrapErr ''invalid TRONSCAN base URL'' err)
           | Inr tronScanBase \<Rightarrow>
               (case parseHTTPSBaseURL parse (ta_TronGridBaseURL cfg) of
                  Inl err \<Rightarrow> Inl (WrapErr ''invalid TronGrid base URL'' err)
                | Inr tronGridBase \<Rightarrow>
                    (case DecodeMainnetAddress (ta_USDTContract cfg) of
                       Inl err \<Rightarrow> Inl (WrapErr ''invalid TRON USDT contract'' err)
                     | Inr _ \<Rightarrow>
                         Inr \<lparr>tc_enabled = ta_Enabled cfg, tc_tronScanBase = tronScanBase, tc_tronGridBase = tronGridBase,
                           tc_apiKey = TrimSpace (ta_APIKey cfg), tc_usdtContract = TrimSpace (ta_USDTContract cfg),
                           tc_timeout = requestTimeout, tc_Do = do_request, tc_json = json\<rparr>)))"

definition Enabled :: "'w TronClient option \<Rightarrow> bool" where
  "Enabled c = (case c of None \<Rightarrow> False | Some c \<Rightarrow> tc_enabled c)"

definition USDTContract :: "'w TronClient option \<Rightarrow> string" where
  "USDTContract c = (case c of None \<Rightarrow> [] | Some c \<Rightarrow> tc_usdtContract c)"

definition resolve :: "url \<Rightarrow> string \<Rightarrow> url" where
  "resolve base path = base\<lparr>url_Path := trim_right_char (CHR ''/'') (url_Path base) @ path, url_Query := []\<rparr>"

definition request_headers :: "'w TronClient \<Rightarrow> (string \<times> string) list option \<Rightarrow> (string \<times> string) list" where
  "request_headers c body =
     [(''Accept'', ''application/json'')]
   @ (if body \<noteq> None then [(''Content-Type'', ''application/json'')] else [])
   @ (if tc_apiKey c \<noteq> [] then [(''TRON-PRO-API-KEY'', tc_apiKey c)] else [])"

definition doJSON :: "'w TronClient \<Rightarrow> string \<Rightarrow> url \<Rightarrow> (string \<times> string) list option \<Rightarrow> (string \<Rightarrow> go_error + 'a)
    \<Rightarrow> 'w \<Rightarrow> (go_error + 'a) \<times> 'w" where
  "doJSON c meth endpoint body decode w =
    (case tc_Do c \<lparr>hr_Method = meth, hr_URL = endpoint, hr_Header = request_headers c body, hr_Body = body\<rparr> w of
       (Inl err, w) \<Rightarrow> (Inl err, w)
     | (Inr response, w) \<Rightarrow>
         if hp_StatusCode response < 200 \<or> 300 \<le> hp_StatusCode response
         then (Inl (PlainErr (''TRON upstream returned HTTP '' @ int_to_string (hp_StatusCode response))), w)
         else
           (case decode (take (4 * 2 ^ 20) (hp_Body response)) of
              Inl err \<Rightarrow> (Inl (WrapErr ''decode TRON upstream response'' err), w)
            | Inr v \<Rightarrow> (Inr v, w)))"

section \<open>TRONSCAN\<close>

definition tron_ListApprovals :: "'w TronClient \<Rightarrow> string \<Rightarrow> int \<Rightarrow> int \<Rightarrow> 'w \<Rightarrow> (go_error + ApprovalPage) \<times> 'w" where
  "tron_ListApprovals c address start limit =
    doJSON c ''GET'' ((resolve (tc_tronScanBase c) ''/api/account/approve/list'')
        \<lparr>url_Query := [(''address'', address), (''limit'', int_to_string limit), (''start'', int_to_string start), (''type'', ''token'')]\<rparr>)
      None (json_page (tc_json c))"

text \<open>A Go set is the list of its members.\<close>

definition tron_RiskySpenders :: "'w TronClient \<Rightarrow> string \<Rightarrow> 'w \<Rightarrow> (go_error + string go_set) \<times> 'w" where
  "tron_RiskySpenders c address w =
    (case doJSON c ''GET'' ((resolve (tc_tronScanBase c) ''/api/security/auth/data'')\<lparr>url_Query := [(''address'', address)]\<rparr>)
        None (json_risk (tc_json c)) w of
       (Inl err, w) \<Rightarrow> (Inl err, w)
     | (Inr riskApprove, w) \<Rightarrow>
         (Inr (remdups (map rec_ToAddress (filter (\<lambda>a. rec_ContractAddress a = tc_usdtContract c) riskApprove))), w))"

section \<open>TronGrid\<close>

text \<open>\<open>(*big.Int).SetString(s, 16)\<close>: an optional sign and hexadecimal digits of either case.\<close>

fun hex_nat :: "nat \<Rightarrow> string \<Rightarrow> nat option" where
  "hex_nat v [] = Some v"
| "hex_nat v (c # cs) = (case hex_value c of None \<Rightarrow> None | Some d \<Rightarrow> hex_nat (16 * v + d) cs)"

definition big_SetString16 :: "string \<Rightarrow> int option" where
  "big_SetString16 s =
    (let negative = has_prefix s ''-'';
         digits = (if negative \<or> has_prefix s ''+'' then tl s else s)
     in if digits = [] then None
        else map_option (\<lambda>n. if negative then - int n else int n) (hex_nat 0 digits))"

definition constantUint256 :: "'w TronClient \<Rightarrow> (string \<times> string) list \<Rightarrow> 'w \<Rightarrow> (go_error + int) \<times> 'w" where
  "constantUint256 c body w =
    (case doJSON c ''POST'' (resolve (tc_tronGridBase c) ''/wallet/triggerconstantcontract'') (Some body) (json_constant (tc_json c)) w of
       (Inl err, w) \<Rightarrow> (Inl err, w)
     | (Inr response, w) \<Rightarrow>
         if \<not> cr_Result response \<or> length (cr_ConstantResult response) = 0
         then (Inl (PlainErr (''TRON constant contract call failed: '' @ cr_Code response @ '' '' @ cr_Message response)), w)
         else
           (case big_SetString16 (trim_prefix (cr_ConstantResult response ! 0) ''0x'') of
              None \<Rightarrow> (Inl (PlainErr ''TRON constant contract response is not valid hexadecimal''), w)
            | Some v \<Rightarrow> (Inr v, w)))"

text \<open>The body is a JSON object; every value but the boolean \<open>visible\<close> is a string.\<close>

definition tron_Allowance :: "'w TronClient \<Rightarrow> string \<Rightarrow> string \<Rightarrow> 'w \<Rightarrow> (go_error + int) \<times> 'w" where
  "tron_Allowance c owner spender w =
    (case ABIAddressParameter owner of
       Inl err \<Rightarrow> (Inl (WrapErr ''encode allowance owner'' err), w)
     | Inr ownerParameter \<Rightarrow>
         (case ABIAddressParameter spender of
            Inl err \<Rightarrow> (Inl (WrapErr ''encode allowance spender'' err), w)
          | Inr spenderParameter \<Rightarrow>
              constantUint256 c
                [(''contract_address'', tc_usdtContract c), (''function_selector'', ''allowance(address,address)''),
                 (''parameter'', ownerParameter @ spenderParameter), (''owner_address'', owner), (''visible'', ''true'')] w))"

definition tron_USDTDecimals :: "'w TronClient \<Rightarrow> string \<Rightarrow> 'w \<Rightarrow> (go_error + u32) \<times> 'w" where
  "tron_USDTDecimals c owner w =
    (case constantUint256 c
        [(''contract_address'', tc_usdtContract c), (''function_selector'', ''decimals()''), (''owner_address'', owner),
         (''visible'', ''true'')] w of
       (Inl err, w) \<Rightarrow> (Inl err, w)
     | (Inr v, w) \<Rightarrow>
         if v < 0 \<or> 2 ^ 64 \<le> v \<or> 255 < v then (Inl (PlainErr ''TRON USDT decimals is outside uint8 range''), w)
         else (Inr (word_of_int v), w))"

end
