(* ===== verification/Usage_Repo.thy ===== *)
theory Usage_Repo
  imports Gorm_Upsert Wallet_Repo
begin

text \<open>
  The budget of the approval check: \<open>web3/internal/model/usage.go\<close> and
  \<open>web3/internal/repository/usage.go\<close>. A handle per table and the clock; both tables take part in the
  transaction of \<open>ReserveQuery\<close>. The specification is \<open>usage_budget\<close>: per UTC day the number of
  reserved queries, the set of address HMACs and the number of reserved upstream calls.
\<close>

record TronUsageDaily =
  ud_UsageDate :: time
  ud_QueryCount :: int
  ud_DistinctAddressCount :: int
  ud_UpstreamCallCount :: int
  ud_CacheHitCount :: int
  ud_SuccessCount :: int
  ud_PartialCount :: int
  ud_FailedCount :: int
  ud_CreatedAt :: time
  ud_UpdatedAt :: time

record TronUsageAddressDaily =
  ua_UsageDate :: time
  ua_AddressHMAC :: string
  ua_CreatedAt :: time

text \<open>Every \<open>Updates\<close> of the daily table sets \<open>updated_at\<close> itself, so GORM adds no time stamp.\<close>

definition daily_table :: "('db \<Rightarrow> TronUsageDaily list) \<Rightarrow> ('db, TronUsageDaily) table_spec" where
  "daily_table rows =
    \<lparr>t_rows = rows, t_conflict = (\<lambda>x y. ud_UsageDate x = ud_UsageDate y),
     t_fill = (\<lambda>t x. x\<lparr>ud_CreatedAt := (if ud_CreatedAt x = zero_time then t else ud_CreatedAt x),
                       ud_UpdatedAt := (if ud_UpdatedAt x = zero_time then t else ud_UpdatedAt x)\<rparr>),
     t_touch = (\<lambda>t x. x)\<rparr>"

definition address_key :: "TronUsageAddressDaily \<Rightarrow> time \<times> string" where
  "address_key a = (ua_UsageDate a, ua_AddressHMAC a)"

definition address_table :: "('db \<Rightarrow> TronUsageAddressDaily list) \<Rightarrow> ('db, TronUsageAddressDaily) table_spec" where
  "address_table rows =
    \<lparr>t_rows = rows, t_conflict = (\<lambda>x y. address_key x = address_key y),
     t_fill = (\<lambda>t x. x\<lparr>ua_CreatedAt := (if ua_CreatedAt x = zero_time then t else ua_CreatedAt x)\<rparr>),
     t_touch = (\<lambda>t x. x)\<rparr>"

record 'db UsageRepository =
  us_daily :: "('db, TronUsageDaily, unit) gorm_up"
  us_addresses :: "('db, TronUsageAddressDaily, unit) gorm_up"
  us_now :: "'db \<Rightarrow> time \<times> 'db"

definition utcDay :: "time \<Rightarrow> time" where
  "utcDay t = t - t mod (86400 * 10 ^ 9)"

definition fresh_day :: "time \<Rightarrow> time \<Rightarrow> TronUsageDaily" where
  "fresh_day day now =
    \<lparr>ud_UsageDate = day, ud_QueryCount = 0, ud_DistinctAddressCount = 0, ud_UpstreamCallCount = 0, ud_CacheHitCount = 0,
     ud_SuccessCount = 0, ud_PartialCount = 0, ud_FailedCount = 0, ud_CreatedAt = now, ud_UpdatedAt = now\<rparr>"

text \<open>The closure of \<open>ReserveQuery\<close>, from the look-up of the address on and as a whole.\<close>

definition reserve_address :: "'db UsageRepository \<Rightarrow> time \<Rightarrow> string \<Rightarrow> int \<Rightarrow> time \<Rightarrow> TronUsageDaily \<Rightarrow> unit \<Rightarrow> 'db
    \<Rightarrow> go_error option \<times> unit \<times> 'db" where
  "reserve_address r day addressHMAC addressLimit now daily v tx =
    (case g_first (us_addresses r) (\<lambda>x. ua_UsageDate x = day \<and> ua_AddressHMAC x = addressHMAC) (\<lambda>_ _. False) tx of
       (Inr address, tx) \<Rightarrow>
         check_err (update_error (g_update (us_daily r) (\<lambda>x. ud_UsageDate x = day)
           (\<lambda>x. x\<lparr>ud_QueryCount := ud_QueryCount x + 1, ud_UpdatedAt := now\<rparr>) tx)) v (\<lambda>tx. (None, v, tx))
     | (Inl findErr, tx) \<Rightarrow>
         if \<not> errors_Is findErr ErrRecordNotFound then (Some findErr, v, tx)
         else if addressLimit \<le> ud_DistinctAddressCount daily then (Some (Sentinel ErrDailyAddressLimit), v, tx)
         else
           (case g_create (us_addresses r) \<lparr>ua_UsageDate = day, ua_AddressHMAC = addressHMAC, ua_CreatedAt = now\<rparr> tx of
              (Some err, _, tx) \<Rightarrow> (Some err, v, tx)
            | (None, _, tx) \<Rightarrow>
                check_err (update_error (g_update (us_daily r) (\<lambda>x. ud_UsageDate x = day)
                  (\<lambda>x. x\<lparr>ud_QueryCount := ud_QueryCount x + 1, ud_UpdatedAt := now,
                         ud_DistinctAddressCount := ud_DistinctAddressCount x + 1\<rparr>) tx)) v (\<lambda>tx. (None, v, tx))))"

definition reserve_query :: "'db UsageRepository \<Rightarrow> time \<Rightarrow> string \<Rightarrow> int \<Rightarrow> int \<Rightarrow> unit \<Rightarrow> 'db
    \<Rightarrow> go_error option \<times> unit \<times> 'db" where
  "reserve_query r day addressHMAC queryLimit addressLimit v tx =
    (case us_now r tx of (now, tx) \<Rightarrow>
       check_res (g_insert_ignore (us_daily r) (fresh_day day now) tx) v (\<lambda>_ tx.
       check_res (g_first (us_daily r) (\<lambda>x. ud_UsageDate x = day) (\<lambda>_ _. False) tx) v (\<lambda>daily tx.
         if queryLimit \<le> ud_QueryCount daily then (Some (Sentinel ErrDailyQueryLimit), v, tx)
         else reserve_address r day addressHMAC addressLimit now daily v tx)))"

definition us_ReserveQuery :: "'db UsageRepository \<Rightarrow> time \<Rightarrow> string \<Rightarrow> int \<Rightarrow> int \<Rightarrow> 'db \<Rightarrow> go_error option \<times> 'db" where
  "us_ReserveQuery r day addressHMAC queryLimit addressLimit db =
    (case g_transaction (us_daily r) (reserve_query r (utcDay day) addressHMAC queryLimit addressLimit) () db of
       (err, _, db) \<Rightarrow> (err, db))"

definition us_ReserveUpstreamCall :: "'db UsageRepository \<Rightarrow> time \<Rightarrow> int \<Rightarrow> 'db \<Rightarrow> go_error option \<times> 'db" where
  "us_ReserveUpstreamCall r day limit db =
    (case us_now r db of (now, db) \<Rightarrow>
       (case g_update (us_daily r) (\<lambda>x. ud_UsageDate x = utcDay day \<and> ud_UpstreamCallCount x < limit)
           (\<lambda>x. x\<lparr>ud_UpstreamCallCount := ud_UpstreamCallCount x + 1, ud_UpdatedAt := now\<rparr>) db of
          (Inl err, db) \<Rightarrow> (Some err, db)
        | (Inr rowsAffected, db) \<Rightarrow>
            if rowsAffected = 0 then (Some (Sentinel ErrDailyUpstreamLimit), db) else (None, db)))"

definition record_updates :: "string \<Rightarrow> bool \<Rightarrow> time \<Rightarrow> TronUsageDaily \<Rightarrow> TronUsageDaily" where
  "record_updates status cached now x =
    (let x = x\<lparr>ud_UpdatedAt := now\<rparr>;
         x = (if cached then x\<lparr>ud_CacheHitCount := ud_CacheHitCount x + 1\<rparr> else x)
     in if status = ''success'' then x\<lparr>ud_SuccessCount := ud_SuccessCount x + 1\<rparr>
        else if status = ''partial'' then x\<lparr>ud_PartialCount := ud_PartialCount x + 1\<rparr>
        else if status = ''failed'' then x\<lparr>ud_FailedCount := ud_FailedCount x + 1\<rparr>
        else x)"

definition us_RecordResult :: "'db UsageRepository \<Rightarrow> time \<Rightarrow> string \<Rightarrow> bool \<Rightarrow> 'db \<Rightarrow> go_error option \<times> 'db" where
  "us_RecordResult r day status cached db =
    (case us_now r db of (now, db) \<Rightarrow>
       update_error (g_update (us_daily r) (\<lambda>x. ud_UsageDate x = utcDay day) (record_updates status cached now) db))"

section \<open>The specification\<close>

record usage_budget =
  ub_queries :: "time \<Rightarrow> int"
  ub_addresses :: "time \<Rightarrow> string set"
  ub_calls :: "time \<Rightarrow> int"

definition daily_count :: "(TronUsageDaily \<Rightarrow> int) \<Rightarrow> TronUsageDaily list \<Rightarrow> time \<Rightarrow> int" where
  "daily_count f days d = (case find (\<lambda>x. ud_UsageDate x = d) days of None \<Rightarrow> 0 | Some x \<Rightarrow> f x)"

definition day_addresses :: "TronUsageAddressDaily list \<Rightarrow> time \<Rightarrow> string set" where
  "day_addresses addrs d = ua_AddressHMAC ` {a \<in> set addrs. ua_UsageDate a = d}"

definition budget_of :: "TronUsageDaily list \<Rightarrow> TronUsageAddressDaily list \<Rightarrow> usage_budget" where
  "budget_of days addrs =
    \<lparr>ub_queries = daily_count ud_QueryCount days, ub_addresses = day_addresses addrs,
     ub_calls = daily_count ud_UpstreamCallCount days\<rparr>"

definition spec_reserve :: "time \<Rightarrow> string \<Rightarrow> int \<Rightarrow> int \<Rightarrow> usage_budget \<Rightarrow> sentinel + usage_budget" where
  "spec_reserve d h queryLimit addressLimit b =
    (if queryLimit \<le> ub_queries b d then Inl ErrDailyQueryLimit
     else if h \<notin> ub_addresses b d \<and> addressLimit \<le> int (card (ub_addresses b d)) then Inl ErrDailyAddressLimit
     else Inr (b\<lparr>ub_queries := (ub_queries b)(d := ub_queries b d + 1),
                 ub_addresses := (ub_addresses b)(d := insert h (ub_addresses b d))\<rparr>))"

definition spec_call :: "time \<Rightarrow> usage_budget \<Rightarrow> usage_budget" where
  "spec_call d b = b\<lparr>ub_calls := (ub_calls b)(d := ub_calls b d + 1)\<rparr>"

text \<open>One row per day and per day and address; the counter of distinct addresses counts them.\<close>

definition usage_inv :: "TronUsageDaily list \<Rightarrow> TronUsageAddressDaily list \<Rightarrow> bool" where
  "usage_inv days addrs \<longleftrightarrow>
     distinct (map ud_UsageDate days) \<and> distinct (map address_key addrs)
   \<and> ua_UsageDate ` set addrs \<subseteq> ud_UsageDate ` set days
   \<and> (\<forall>x \<in> set days. ud_DistinctAddressCount x = int (card (day_addresses addrs (ud_UsageDate x))))"

text \<open>Both tables behave as documented, are separate, and are rolled back together.\<close>

definition usage_ok :: "'db UsageRepository \<Rightarrow> ('db \<Rightarrow> TronUsageDaily list) \<Rightarrow> ('db \<Rightarrow> TronUsageAddressDaily list) \<Rightarrow> bool" where
  "usage_ok r days addrs \<longleftrightarrow>
     gorm_up_ok (us_daily r) (daily_table days) \<and> gorm_up_ok (us_addresses r) (address_table addrs)
   \<and> (\<forall>db. days (snd (us_now r db)) = days db \<and> addrs (snd (us_now r db)) = addrs db)
   \<and> (\<forall>x db. addrs (snd (g_insert_ignore (us_daily r) x db)) = addrs db)
   \<and> (\<forall>P before db. addrs (snd (g_first (us_daily r) P before db)) = addrs db)
   \<and> (\<forall>P f db. addrs (snd (g_update (us_daily r) P f db)) = addrs db)
   \<and> (\<forall>P before db. days (snd (g_first (us_addresses r) P before db)) = days db)
   \<and> (\<forall>x db. days (snd (snd (g_create (us_addresses r) x db))) = days db)
   \<and> atomic_ok (g_transaction (us_daily r)) (\<lambda>db. (days db, addrs db))"

section \<open>Rows and counters\<close>

lemma usage_table_simps [simp]:
  "t_rows (daily_table days) = days" "t_conflict (daily_table days) x y \<longleftrightarrow> ud_UsageDate x = ud_UsageDate y"
  "t_touch (daily_table days) t x = x" "t_rows (address_table addrs) = addrs"
  "ud_UsageDate (t_fill (daily_table days) t x) = ud_UsageDate x"
  "ud_QueryCount (t_fill (daily_table days) t x) = ud_QueryCount x"
  "ud_DistinctAddressCount (t_fill (daily_table days) t x) = ud_DistinctAddressCount x"
  "ud_UpstreamCallCount (t_fill (daily_table days) t x) = ud_UpstreamCallCount x"
  "address_key (t_fill (address_table addrs) t a) = address_key a"
  "t_conflict (address_table addrs) a b \<longleftrightarrow> address_key a = address_key b"
  by (simp_all add: daily_table_def address_table_def address_key_def)

lemma fresh_day_simps [simp]:
  "ud_UsageDate (fresh_day d t) = d" "ud_QueryCount (fresh_day d t) = 0" "ud_DistinctAddressCount (fresh_day d t) = 0"
  "ud_UpstreamCallCount (fresh_day d t) = 0"
  by (simp_all add: fresh_day_def)

lemma find_day_map:
  "(\<And>x. ud_UsageDate (g x) = ud_UsageDate x) \<Longrightarrow> find (\<lambda>x. ud_UsageDate x = e) (map (\<lambda>x. if P x then g x else x) xs) =
    map_option (\<lambda>x. if P x then g x else x) (find (\<lambda>x. ud_UsageDate x = e) xs)"
  by (induction xs) auto

lemma find_day_None: "find (\<lambda>x. ud_UsageDate x = d) xs = None \<longleftrightarrow> d \<notin> ud_UsageDate ` set xs"
  by (auto simp: find_None_iff)

lemma daily_count_map:
  assumes "\<And>x. ud_UsageDate (g x) = ud_UsageDate x"
  shows "daily_count f (map (\<lambda>x. if P x then g x else x) xs) e = daily_count (\<lambda>x. if P x then f (g x) else f x) xs e"
  unfolding daily_count_def find_day_map [of g, OF assms] by (auto split: option.splits)

lemma daily_count_same: "(\<And>x. f (g x) = f x) \<Longrightarrow> (\<And>x. ud_UsageDate (g x) = ud_UsageDate x)
    \<Longrightarrow> daily_count f (map (\<lambda>x. if P x then g x else x) xs) = daily_count f xs"
  by (rule ext) (simp add: daily_count_map cong: if_cong)

lemma daily_count_add:
  assumes "\<And>x. ud_UsageDate (g x) = ud_UsageDate x" "\<And>x. f (g x) = f x + 1" "\<And>x. P x \<Longrightarrow> ud_UsageDate x = d"
    "find (\<lambda>x. ud_UsageDate x = d) xs = Some x" "P x"
  shows "daily_count f (map (\<lambda>x. if P x then g x else x) xs) = (daily_count f xs)(d := daily_count f xs d + 1)"
proof (rule ext)
  fix e
  show "daily_count f (map (\<lambda>x. if P x then g x else x) xs) e = ((daily_count f xs)(d := daily_count f xs d + 1)) e"
  proof (cases "e = d")
    case True
    then show ?thesis using assms(4,5) by (simp add: daily_count_map assms(1)) (simp add: daily_count_def assms(2))
  next
    case False
    have "\<not> P y" if "find (\<lambda>x. ud_UsageDate x = e) xs = Some y" for y
      using that assms(3) [of y] False by (auto simp: find_Some_iff)
    then show ?thesis using False by (simp add: daily_count_map assms(1)) (simp add: daily_count_def split: option.split)
  qed
qed

lemma daily_count_fresh:
  "f (t_fill (daily_table rows) s (fresh_day d t)) = 0 \<Longrightarrow> daily_count f (xs @ [t_fill (daily_table rows) s (fresh_day d t)]) = daily_count f xs"
proof (rule ext)
  have "find p (ys @ [y]) = (case find p ys of None \<Rightarrow> if p y then Some y else None | Some z \<Rightarrow> Some z)" for p ys and y :: TronUsageDaily
    by (induction ys) auto
  then show "f (t_fill (daily_table rows) s (fresh_day d t)) = 0 \<Longrightarrow>
      daily_count f (xs @ [t_fill (daily_table rows) s (fresh_day d t)]) e = daily_count f xs e" for e
    by (auto simp: daily_count_def split: option.split)
qed

lemma find_day_unique:
  "distinct (map ud_UsageDate xs) \<Longrightarrow> x \<in> set xs \<Longrightarrow> find (\<lambda>y. ud_UsageDate y = ud_UsageDate x) xs = Some x"
  by (induction xs) (auto simp: image_iff)

lemma finite_day_addresses [simp]: "finite (day_addresses addrs d)"
  by (simp add: day_addresses_def)

lemma day_addresses_append: "day_addresses (addrs @ [a]) = (day_addresses addrs)
    (ua_UsageDate a := insert (ua_AddressHMAC a) (day_addresses addrs (ua_UsageDate a)))"
  by (rule ext) (auto simp: day_addresses_def)

lemma day_addresses_key: "h \<in> day_addresses addrs d \<longleftrightarrow> (d, h) \<in> address_key ` set addrs"
  by (force simp: day_addresses_def address_key_def image_iff)

lemma usage_okD:
  assumes "usage_ok r days addrs"
  shows "gorm_up_ok (us_daily r) (daily_table days)" "gorm_up_ok (us_addresses r) (address_table addrs)"
    "us_now r db = (now, db1) \<Longrightarrow> days db1 = days db \<and> addrs db1 = addrs db"
    "g_insert_ignore (us_daily r) x db = (ri, db1) \<Longrightarrow> addrs db1 = addrs db"
    "g_first (us_daily r) P before db = (rf, db1) \<Longrightarrow> addrs db1 = addrs db \<and> days db1 = days db"
    "g_update (us_daily r) P f db = (ru, db1) \<Longrightarrow> addrs db1 = addrs db"
    "g_first (us_addresses r) Q before' db = (ra, db1) \<Longrightarrow> days db1 = days db \<and> addrs db1 = addrs db"
    "g_create (us_addresses r) a db = (rc, a', db1) \<Longrightarrow> days db1 = days db"
proof -
  show g: "gorm_up_ok (us_daily r) (daily_table days)" "gorm_up_ok (us_addresses r) (address_table addrs)"
    using assms by (simp_all add: usage_ok_def)
  have f: "days db1 = days db" if "g_first (us_daily r) P before db = (rf, db1)"
    using first_rows [OF up_truncate [OF g(1)], of P before db rf db1] that by simp
  have f': "addrs db1 = addrs db" if "g_first (us_addresses r) Q before' db = (ra, db1)"
    using first_rows [OF up_truncate [OF g(2)], of Q before' db ra db1] that by simp
  show "us_now r db = (now, db1) \<Longrightarrow> days db1 = days db \<and> addrs db1 = addrs db"
    "g_insert_ignore (us_daily r) x db = (ri, db1) \<Longrightarrow> addrs db1 = addrs db"
    "g_first (us_daily r) P before db = (rf, db1) \<Longrightarrow> addrs db1 = addrs db \<and> days db1 = days db"
    "g_update (us_daily r) P f db = (ru, db1) \<Longrightarrow> addrs db1 = addrs db"
    "g_first (us_addresses r) Q before' db = (ra, db1) \<Longrightarrow> days db1 = days db \<and> addrs db1 = addrs db"
    "g_create (us_addresses r) a db = (rc, a', db1) \<Longrightarrow> days db1 = days db"
    using assms f f' unfolding usage_ok_def by (metis snd_conv)+
qed

section \<open>Refinement\<close>

lemma insert_day:
  assumes ok: "usage_ok r days addrs" and inv: "usage_inv (days db) (addrs db)"
    and run: "g_insert_ignore (us_daily r) (fresh_day d now) db = (Inr n, db')"
  shows "usage_inv (days db') (addrs db')" "budget_of (days db') (addrs db') = budget_of (days db) (addrs db)"
    "addrs db' = addrs db" "d \<in> ud_UsageDate ` set (days db')"
proof -
  note up = usage_okD(1) [OF ok]
  have a: "addrs db' = addrs db" by (rule usage_okD(4) [OF ok run])
  have "usage_inv (days db') (addrs db') \<and> budget_of (days db') (addrs db') = budget_of (days db) (addrs db)
    \<and> d \<in> ud_UsageDate ` set (days db')"
    using up run
  proof (cases rule: insert_ignore_Inr)
    case (present t x)
    then show ?thesis using inv a by (auto simp: image_iff)
  next
    case (added t)
    have "daily_count f (days db') = daily_count f (days db)" if "f (t_fill (daily_table days) t (fresh_day d now)) = 0" for f
      using added(2) daily_count_fresh [of f days t d now, OF that] by simp
    moreover have d: "d \<notin> ud_UsageDate ` set (days db)" using added(3) by auto
    moreover have "day_addresses (addrs db) d = {}"
      using inv d by (auto simp: usage_inv_def day_addresses_def)
    ultimately show ?thesis using inv added(2) a by (auto simp: usage_inv_def budget_of_def)
  qed
  with a show "usage_inv (days db') (addrs db')" "budget_of (days db') (addrs db') = budget_of (days db) (addrs db)"
    "addrs db' = addrs db" "d \<in> ud_UsageDate ` set (days db')" by blast+
qed

lemma update_day:
  assumes ok: "usage_ok r days addrs" and run: "g_update (us_daily r) P g db = (Inr n, db')"
  shows "n = length (filter P (days db))" "days db' = map (\<lambda>x. if P x then g x else x) (days db)" "addrs db' = addrs db"
proof -
  have run': "g_update (gorm.truncate (us_daily r)) P g db = (Inr n, db')" using run by simp
  from up_truncate [OF usage_okD(1) [OF ok]] run' obtain t where
    "t_rows (daily_table days) db' = map (\<lambda>x. if P x then t_touch (daily_table days) t (g x) else x) (t_rows (daily_table days) db)"
    "n = length (filter P (t_rows (daily_table days) db))" by (rule update_Inr)
  then show "n = length (filter P (days db))" "days db' = map (\<lambda>x. if P x then g x else x) (days db)" by simp_all
  show "addrs db' = addrs db" by (rule usage_okD(6) [OF ok run])
qed

lemma usage_inv_map:
  assumes "usage_inv ds as" "\<And>x. ud_UsageDate (g x) = ud_UsageDate x" "\<And>x. ud_DistinctAddressCount (g x) = ud_DistinctAddressCount x"
  shows "usage_inv (map (\<lambda>x. if P x then g x else x) ds) as"
proof -
  have dates: "map ud_UsageDate (map (\<lambda>x. if P x then g x else x) ds) = map ud_UsageDate ds" using assms(2) by simp
  then have "ud_UsageDate ` set (map (\<lambda>x. if P x then g x else x) ds) = ud_UsageDate ` set ds" by (metis set_map)
  with dates assms show ?thesis unfolding usage_inv_def by (simp only:) auto
qed

lemma budget_query:
  assumes "\<And>x. ud_UsageDate (g x) = ud_UsageDate x" "\<And>x. ud_QueryCount (g x) = ud_QueryCount x + 1"
    "\<And>x. ud_UpstreamCallCount (g x) = ud_UpstreamCallCount x" "find (\<lambda>x. ud_UsageDate x = d) ds = Some x"
    "day_addresses as' = (day_addresses as)(d := insert h (day_addresses as d))"
  shows "budget_of (map (\<lambda>x. if ud_UsageDate x = d then g x else x) ds) as' = (budget_of ds as)
    \<lparr>ub_queries := (ub_queries (budget_of ds as))(d := ub_queries (budget_of ds as) d + 1),
     ub_addresses := (ub_addresses (budget_of ds as))(d := insert h (ub_addresses (budget_of ds as) d))\<rparr>"
proof -
  have "ud_UsageDate x = d" using assms(4) by (auto simp: find_Some_iff)
  then show ?thesis
    using daily_count_add [of g ud_QueryCount "\<lambda>x. ud_UsageDate x = d" d ds x] daily_count_same [of ud_UpstreamCallCount g] assms
    by (simp add: budget_of_def)
qed

lemma reserve_address_None:
  assumes ok: "usage_ok r days addrs" and inv: "usage_inv (days db) (addrs db)"
    and row: "find (\<lambda>x. ud_UsageDate x = d) (days db) = Some daily"
    and run: "reserve_address r d h al now daily v db = (None, v', db')"
  shows "usage_inv (days db') (addrs db')"
    "h \<in> day_addresses (addrs db) d \<or> int (card (day_addresses (addrs db) d)) < al"
    "budget_of (days db') (addrs db') = (budget_of (days db) (addrs db))
      \<lparr>ub_queries := (ub_queries (budget_of (days db) (addrs db)))(d := ub_queries (budget_of (days db) (addrs db)) d + 1),
       ub_addresses := (ub_addresses (budget_of (days db) (addrs db)))(d := insert h (ub_addresses (budget_of (days db) (addrs db)) d))\<rparr>"
proof -
  have x: "daily \<in> set (days db)" "ud_UsageDate daily = d" using row by (auto simp: find_Some_iff)
  have gok: "gorm_ok (gorm.truncate (us_addresses r)) (address_table addrs)" by (rule up_truncate [OF usage_okD(2) [OF ok]])
  obtain found db1 where f: "g_first (us_addresses r) (\<lambda>x. ua_UsageDate x = d \<and> ua_AddressHMAC x = h) (\<lambda>_ _. False) db = (found, db1)"
    by fastforce
  note f1 = usage_okD(7) [OF ok f]
  have "usage_inv (days db') (addrs db') \<and> (h \<in> day_addresses (addrs db) d \<or> int (card (day_addresses (addrs db) d)) < al)
    \<and> budget_of (days db') (addrs db') = (budget_of (days db) (addrs db))
      \<lparr>ub_queries := (ub_queries (budget_of (days db) (addrs db)))(d := ub_queries (budget_of (days db) (addrs db)) d + 1),
       ub_addresses := (ub_addresses (budget_of (days db) (addrs db)))(d := insert h (ub_addresses (budget_of (days db) (addrs db)) d))\<rparr>"
  proof (cases found)
    case (Inr a)
    with f first_Inr [OF gok, of _ _ db a db1] have "a \<in> set (addrs db)" "ua_UsageDate a = d \<and> ua_AddressHMAC a = h" by auto
    then have h: "h \<in> day_addresses (addrs db) d" by (auto simp: day_addresses_def)
    from run f Inr obtain n where u: "g_update (us_daily r) (\<lambda>x. ud_UsageDate x = d)
        (\<lambda>x. x\<lparr>ud_QueryCount := ud_QueryCount x + 1, ud_UpdatedAt := now\<rparr>) db1 = (Inr n, db')"
      by (auto simp: reserve_address_def check_err_None update_error_None)
    from update_day(2,3) [OF ok u] f1 have rows: "days db' = map (\<lambda>x. if ud_UsageDate x = d
        then x\<lparr>ud_QueryCount := ud_QueryCount x + 1, ud_UpdatedAt := now\<rparr> else x) (days db)" "addrs db' = addrs db" by simp_all
    have "day_addresses (addrs db) = (day_addresses (addrs db))(d := insert h (day_addresses (addrs db) d))"
      using h by (simp add: insert_absorb)
    with h show ?thesis unfolding rows
      by (intro conjI disjI1 usage_inv_map [OF inv] budget_query [OF _ _ _ row]) simp_all
  next
    case (Inl e)
    then have new: "h \<notin> day_addresses (addrs db) d" and lim: "ud_DistinctAddressCount daily < al"
      and c: "\<exists>a db2. g_create (us_addresses r) \<lparr>ua_UsageDate = d, ua_AddressHMAC = h, ua_CreatedAt = now\<rparr> db1 = (None, a, db2)
        \<and> (\<exists>n. g_update (us_daily r) (\<lambda>x. ud_UsageDate x = d) (\<lambda>x. x\<lparr>ud_QueryCount := ud_QueryCount x + 1, ud_UpdatedAt := now,
                         ud_DistinctAddressCount := ud_DistinctAddressCount x + 1\<rparr>) db2 = (Inr n, db'))"
      using run f first_missing [OF gok, of _ _ db e db1]
      by (auto simp: reserve_address_def check_err_None update_error_None day_addresses_def split: if_splits prod.splits option.splits)
    then obtain a db2 n where cr: "g_create (us_addresses r) \<lparr>ua_UsageDate = d, ua_AddressHMAC = h, ua_CreatedAt = now\<rparr> db1 = (None, a, db2)"
      and u: "g_update (us_daily r) (\<lambda>x. ud_UsageDate x = d) (\<lambda>x. x\<lparr>ud_QueryCount := ud_QueryCount x + 1, ud_UpdatedAt := now,
                         ud_DistinctAddressCount := ud_DistinctAddressCount x + 1\<rparr>) db2 = (Inr n, db')" by blast
    obtain t where a: "address_key a = (d, h)" "addrs db2 = addrs db @ [a]"
    proof -
      have "g_create (gorm.truncate (us_addresses r)) \<lparr>ua_UsageDate = d, ua_AddressHMAC = h, ua_CreatedAt = now\<rparr> db1 = (None, a, db2)"
        using cr by simp
      from create_None [OF gok this] obtain t where
        "a = t_fill (address_table addrs) t \<lparr>ua_UsageDate = d, ua_AddressHMAC = h, ua_CreatedAt = now\<rparr>" "addrs db2 = addrs db @ [a]"
        using f1 by auto
      moreover from this(1) have "address_key a = (d, h)" by (simp only: usage_table_simps) (simp add: address_key_def)
      ultimately show thesis using that by blast
    qed
    let ?g = "\<lambda>x. x\<lparr>ud_QueryCount := ud_QueryCount x + 1, ud_UpdatedAt := now, ud_DistinctAddressCount := ud_DistinctAddressCount x + 1\<rparr>"
    from update_day(2,3) [OF ok u] usage_okD(8) [OF ok cr] f1 a have rows:
      "days db' = map (\<lambda>x. if ud_UsageDate x = d then ?g x else x) (days db)" "addrs db' = addrs db @ [a]" by simp_all
    have ad: "day_addresses (addrs db @ [a]) = (day_addresses (addrs db))(d := insert h (day_addresses (addrs db) d))"
      using a(1) by (simp add: day_addresses_append address_key_def)
    have dates: "map ud_UsageDate (days db') = map ud_UsageDate (days db)" unfolding rows by simp
    then have dset: "ud_UsageDate ` set (days db') = ud_UsageDate ` set (days db)" by (metis set_map)
    have "usage_inv (days db') (addrs db')"
      unfolding usage_inv_def dates dset
    proof (intro conjI ballI)
      show "distinct (map ud_UsageDate (days db))" using inv by (simp add: usage_inv_def)
      show "distinct (map address_key (addrs db'))" using inv new a(1) unfolding rows day_addresses_key by (auto simp: usage_inv_def)
      show "ua_UsageDate ` set (addrs db') \<subseteq> ud_UsageDate ` set (days db)"
        using inv a(1) x unfolding rows by (auto simp: usage_inv_def address_key_def)
      show "ud_DistinctAddressCount y = int (card (day_addresses (addrs db') (ud_UsageDate y)))" if "y \<in> set (days db')" for y
      proof -
        from that obtain z where z: "z \<in> set (days db)" "y = (if ud_UsageDate z = d then ?g z else z)" by (auto simp: rows)
        then have "ud_DistinctAddressCount z = int (card (day_addresses (addrs db) (ud_UsageDate z)))"
          using inv by (simp add: usage_inv_def)
        with z(2) new show ?thesis by (simp add: rows(2) ad)
      qed
    qed
    moreover have "int (card (day_addresses (addrs db) d)) < al" using lim inv x by (auto simp: usage_inv_def)
    moreover have "budget_of (days db') (addrs db') = (budget_of (days db) (addrs db))
      \<lparr>ub_queries := (ub_queries (budget_of (days db) (addrs db)))(d := ub_queries (budget_of (days db) (addrs db)) d + 1),
       ub_addresses := (ub_addresses (budget_of (days db) (addrs db)))(d := insert h (ub_addresses (budget_of (days db) (addrs db)) d))\<rparr>"
      unfolding rows by (rule budget_query [OF _ _ _ row ad]) simp_all
    ultimately show ?thesis by blast
  qed
  then show "usage_inv (days db') (addrs db')"
    "h \<in> day_addresses (addrs db) d \<or> int (card (day_addresses (addrs db) d)) < al"
    "budget_of (days db') (addrs db') = (budget_of (days db) (addrs db))
      \<lparr>ub_queries := (ub_queries (budget_of (days db) (addrs db)))(d := ub_queries (budget_of (days db) (addrs db)) d + 1),
       ub_addresses := (ub_addresses (budget_of (days db) (addrs db)))(d := insert h (ub_addresses (budget_of (days db) (addrs db)) d))\<rparr>"
    by blast+
qed

lemma reserve_query_None:
  assumes ok: "usage_ok r days addrs" and inv: "usage_inv (days db) (addrs db)"
    and run: "reserve_query r d h ql al v db = (None, v', db')"
  shows "usage_inv (days db') (addrs db')"
    "spec_reserve d h ql al (budget_of (days db) (addrs db)) = Inr (budget_of (days db') (addrs db'))"
proof -
  let ?P = "\<lambda>x. ud_UsageDate x = d"
  obtain now db1 where n: "us_now r db = (now, db1)" by fastforce
  note n' = usage_okD(3) [OF ok n]
  from run [unfolded reserve_query_def n prod.case check_res_None] obtain i db2 daily db3 where
    ins: "g_insert_ignore (us_daily r) (fresh_day d now) db1 = (Inr i, db2)"
    and fst: "g_first (us_daily r) ?P (\<lambda>_ _. False) db2 = (Inr daily, db3)"
    and lim: "ud_QueryCount daily < ql" and rest: "reserve_address r d h al now daily v db3 = (None, v', db')"
    by (auto split: if_splits)
  have inv1: "usage_inv (days db1) (addrs db1)" using inv n' by simp
  note day = insert_day [OF ok inv1 ins]
  have db3: "days db3 = days db2" "addrs db3 = addrs db2" using usage_okD(5) [OF ok fst] by simp_all
  have x: "daily \<in> set (days db3)" "ud_UsageDate daily = d"
    using first_Inr [OF up_truncate [OF usage_okD(1) [OF ok]], of ?P _ db2 daily db3] fst db3 by auto
  have inv3: "usage_inv (days db3) (addrs db3)" using day(1) db3 by simp
  have row: "find ?P (days db3) = Some daily"
    using find_day_unique [OF _ x(1)] inv3 x(2) by (simp add: usage_inv_def)
  have b: "budget_of (days db) (addrs db) = budget_of (days db3) (addrs db3)" using day(2) n' db3 by simp
  have q: "ub_queries (budget_of (days db3) (addrs db3)) d = ud_QueryCount daily"
    using row by (simp add: budget_of_def daily_count_def)
  note res = reserve_address_None [OF ok inv3 row rest]
  show "usage_inv (days db') (addrs db')" by (rule res(1))
  show "spec_reserve d h ql al (budget_of (days db) (addrs db)) = Inr (budget_of (days db') (addrs db'))"
    using lim res(2) unfolding b spec_reserve_def q res(3) by (auto simp: budget_of_def)
qed

text \<open>
  A reservation of a query refines the specification: when it succeeds, the limits allowed it and exactly
  the query and the address are charged; when it fails, nothing is.
\<close>

lemma ReserveQuery_rows:
  assumes ok: "usage_ok r days addrs" and inv: "usage_inv (days db) (addrs db)"
    and run: "us_ReserveQuery r day h ql al db = (err, db')"
  shows "usage_inv (days db') (addrs db')"
    "err = None \<Longrightarrow> spec_reserve (utcDay day) h ql al (budget_of (days db) (addrs db)) = Inr (budget_of (days db') (addrs db'))"
    "err \<noteq> None \<Longrightarrow> budget_of (days db') (addrs db') = budget_of (days db) (addrs db)"
    "spec_reserve (utcDay day) h ql al (budget_of (days db) (addrs db)) = Inl limit \<Longrightarrow> err \<noteq> None"
proof -
  let ?body = "reserve_query r (utcDay day) h ql al"
  obtain v where tx: "g_transaction (us_daily r) ?body () db = (err, v, db')"
    using run by (auto simp: us_ReserveQuery_def split: prod.splits)
  have at: "atomic_ok (g_transaction (us_daily r)) (\<lambda>db. (days db, addrs db))" using ok by (simp add: usage_ok_def)
  have "usage_inv (days db') (addrs db') \<and> (if err = None
      then spec_reserve (utcDay day) h ql al (budget_of (days db) (addrs db)) = Inr (budget_of (days db') (addrs db'))
      else budget_of (days db') (addrs db') = budget_of (days db) (addrs db))"
  proof (cases err)
    case (Some e)
    with at [unfolded atomic_ok_def, rule_format, OF tx] inv show ?thesis by simp
  next
    case None
    with at [unfolded atomic_ok_def, rule_format, OF tx] obtain db1 db2 where b: "days db1 = days db" "addrs db1 = addrs db"
      "?body () db1 = (None, v, db2)" "days db' = days db2" "addrs db' = addrs db2" by auto
    have "usage_inv (days db1) (addrs db1)" using inv b(1,2) by simp
    from reserve_query_None [OF ok this b(3)] None b(1,2,4,5) show ?thesis by simp
  qed
  then show "usage_inv (days db') (addrs db')"
    "err = None \<Longrightarrow> spec_reserve (utcDay day) h ql al (budget_of (days db) (addrs db)) = Inr (budget_of (days db') (addrs db'))"
    "err \<noteq> None \<Longrightarrow> budget_of (days db') (addrs db') = budget_of (days db) (addrs db)"
    "spec_reserve (utcDay day) h ql al (budget_of (days db) (addrs db)) = Inl limit \<Longrightarrow> err \<noteq> None"
    by (auto split: if_splits)
qed

lemma ReserveUpstreamCall_rows:
  assumes ok: "usage_ok r days addrs" and inv: "usage_inv (days db) (addrs db)"
    and run: "us_ReserveUpstreamCall r day limit db = (err, db')"
  shows "usage_inv (days db') (addrs db')"
    "err \<noteq> None \<Longrightarrow> budget_of (days db') (addrs db') = budget_of (days db) (addrs db)"
    "err = None \<Longrightarrow> ub_calls (budget_of (days db) (addrs db)) (utcDay day) < limit"
    "err = None \<Longrightarrow> budget_of (days db') (addrs db') = spec_call (utcDay day) (budget_of (days db) (addrs db))"
proof -
  let ?P = "\<lambda>x. ud_UsageDate x = utcDay day \<and> ud_UpstreamCallCount x < limit"
  obtain now db1 where n: "us_now r db = (now, db1)" by fastforce
  note n' = usage_okD(3) [OF ok n]
  let ?g = "\<lambda>x. x\<lparr>ud_UpstreamCallCount := ud_UpstreamCallCount x + 1, ud_UpdatedAt := now\<rparr>"
  obtain ru db2 where u: "g_update (us_daily r) ?P ?g db1 = (ru, db2)" by fastforce
  have "usage_inv (days db') (addrs db') \<and> (if err = None
      then ub_calls (budget_of (days db) (addrs db)) (utcDay day) < limit
        \<and> budget_of (days db') (addrs db') = spec_call (utcDay day) (budget_of (days db) (addrs db))
      else budget_of (days db') (addrs db') = budget_of (days db) (addrs db))"
  proof (cases ru)
    case (Inl e)
    with run n u have r: "err = Some e" "db' = db2" by (simp_all add: us_ReserveUpstreamCall_def)
    have "g_update (gorm.truncate (us_daily r)) ?P ?g db1 = (Inl e, db2)" using u Inl by simp
    from update_Inl [OF up_truncate [OF usage_okD(1) [OF ok]] this] usage_okD(6) [OF ok u] n' inv r show ?thesis by simp
  next
    case (Inr n)
    note rows = update_day [OF ok u [unfolded Inr], unfolded conjunct1 [OF n'] conjunct2 [OF n']]
    from run n u Inr have r: "db' = db2" "(err = None) = (n \<noteq> 0)" by (auto simp: us_ReserveUpstreamCall_def split: if_splits)
    have inv': "usage_inv (days db') (addrs db')"
      unfolding r rows by (rule usage_inv_map [OF inv]) simp_all
    show ?thesis
    proof (cases "n = 0")
      case True
      then have "\<forall>x \<in> set (days db). \<not> ?P x" using rows(1) by (simp add: filter_empty_conv)
      then have "days db' = days db" unfolding r rows by (auto intro!: map_idI)
      moreover obtain e where "err = Some e" using True r(2) by blast
      ultimately show ?thesis using inv' r(1) rows(3) by simp
    next
      case False
      then have "filter ?P (days db) \<noteq> []" using rows(1) by auto
      then obtain x where x: "x \<in> set (days db)" "?P x" by (auto simp: filter_empty_conv)
      then have f: "find (\<lambda>y. ud_UsageDate y = utcDay day) (days db) = Some x"
        using find_day_unique [of "days db" x] inv by (simp add: usage_inv_def)
      have "daily_count ud_UpstreamCallCount (days db') = (daily_count ud_UpstreamCallCount (days db))
          (utcDay day := daily_count ud_UpstreamCallCount (days db) (utcDay day) + 1)"
        unfolding r rows by (rule daily_count_add [where x = x]) (use f x(2) in simp_all)
      moreover have "daily_count ud_QueryCount (days db') = daily_count ud_QueryCount (days db)"
        unfolding r rows by (rule daily_count_same) simp_all
      moreover have "daily_count ud_UpstreamCallCount (days db) (utcDay day) < limit" using f x(2) by (simp add: daily_count_def)
      ultimately show ?thesis using inv' False r rows(3) by (simp add: budget_of_def spec_call_def)
    qed
  qed
  then show "usage_inv (days db') (addrs db')"
    "err \<noteq> None \<Longrightarrow> budget_of (days db') (addrs db') = budget_of (days db) (addrs db)"
    "err = None \<Longrightarrow> ub_calls (budget_of (days db) (addrs db)) (utcDay day) < limit"
    "err = None \<Longrightarrow> budget_of (days db') (addrs db') = spec_call (utcDay day) (budget_of (days db) (addrs db))"
    by (auto split: if_splits)
qed

lemma record_updates_simps [simp]:
  "ud_UsageDate (record_updates s c now x) = ud_UsageDate x" "ud_QueryCount (record_updates s c now x) = ud_QueryCount x"
  "ud_DistinctAddressCount (record_updates s c now x) = ud_DistinctAddressCount x"
  "ud_UpstreamCallCount (record_updates s c now x) = ud_UpstreamCallCount x"
  by (simp_all add: record_updates_def Let_def)

lemma RecordResult_rows:
  assumes ok: "usage_ok r days addrs" and inv: "usage_inv (days db) (addrs db)"
    and run: "us_RecordResult r day status cached db = (err, db')"
  shows "usage_inv (days db') (addrs db')" "budget_of (days db') (addrs db') = budget_of (days db) (addrs db)"
proof -
  obtain now db1 where n: "us_now r db = (now, db1)" by fastforce
  note n' = usage_okD(3) [OF ok n]
  obtain ru db2 where u: "g_update (us_daily r) (\<lambda>x. ud_UsageDate x = utcDay day) (record_updates status cached now) db1 = (ru, db2)"
    by fastforce
  have "usage_inv (days db') (addrs db') \<and> budget_of (days db') (addrs db') = budget_of (days db) (addrs db)"
  proof (cases ru)
    case (Inl e)
    with run n u have "db' = db2" by (simp add: us_RecordResult_def update_error_def)
    moreover have "g_update (gorm.truncate (us_daily r)) (\<lambda>x. ud_UsageDate x = utcDay day) (record_updates status cached now) db1 = (Inl e, db2)"
      using u Inl by simp
    note update_Inl [OF up_truncate [OF usage_okD(1) [OF ok]] this]
    ultimately show ?thesis using usage_okD(6) [OF ok u] n' inv by simp
  next
    case (Inr k)
    with run n u have "db' = db2" by (simp add: us_RecordResult_def update_error_def)
    with update_day(2,3) [OF ok u [unfolded Inr]] n' have rows: "days db' = map (\<lambda>x. if ud_UsageDate x = utcDay day
      then record_updates status cached now x else x) (days db)" "addrs db' = addrs db" by simp_all
    show ?thesis unfolding rows budget_of_def
      using usage_inv_map [OF inv, of "record_updates status cached now"] by (simp add: daily_count_same)
  qed
  then show "usage_inv (days db') (addrs db')" "budget_of (days db') (addrs db') = budget_of (days db) (addrs db)" by blast+
qed

section \<open>Histories\<close>

text \<open>Any interleaving of the operations of any number of requests, with the reservations that succeeded.\<close>

inductive usage_run :: "'db UsageRepository \<Rightarrow> int \<Rightarrow> int \<Rightarrow> int \<Rightarrow> 'db \<Rightarrow> (time \<times> string) list \<Rightarrow> time list \<Rightarrow> 'db \<Rightarrow> bool"
  for r ql al ul db0 where
  start: "usage_run r ql al ul db0 [] [] db0"
| query: "usage_run r ql al ul db0 qs cs db \<Longrightarrow> us_ReserveQuery r day h ql al db = (err, db')
    \<Longrightarrow> usage_run r ql al ul db0 (if err = None then (utcDay day, h) # qs else qs) cs db'"
| call: "usage_run r ql al ul db0 qs cs db \<Longrightarrow> us_ReserveUpstreamCall r day ul db = (err, db')
    \<Longrightarrow> usage_run r ql al ul db0 qs (if err = None then utcDay day # cs else cs) db'"
| result: "usage_run r ql al ul db0 qs cs db \<Longrightarrow> us_RecordResult r day status cached db = (err, db')
    \<Longrightarrow> usage_run r ql al ul db0 qs cs db'"

definition charged :: "(time \<times> string) list \<Rightarrow> time list \<Rightarrow> usage_budget" where
  "charged qs cs = \<lparr>ub_queries = (\<lambda>d. int (length (filter (\<lambda>q. fst q = d) qs))), ub_addresses = (\<lambda>d. {h. (d, h) \<in> set qs}),
     ub_calls = (\<lambda>d. int (length (filter (\<lambda>c. c = d) cs)))\<rparr>"

definition within_limits :: "int \<Rightarrow> int \<Rightarrow> int \<Rightarrow> usage_budget \<Rightarrow> bool" where
  "within_limits ql al ul b \<longleftrightarrow> (\<forall>d. ub_queries b d \<le> max 0 ql \<and> int (card (ub_addresses b d)) \<le> max 0 al \<and> ub_calls b d \<le> max 0 ul)"

lemma charged_query: "charged ((d, h) # qs) cs = (charged qs cs)\<lparr>ub_queries := (ub_queries (charged qs cs))(d := ub_queries (charged qs cs) d + 1),
    ub_addresses := (ub_addresses (charged qs cs))(d := insert h (ub_addresses (charged qs cs) d))\<rparr>"
  by (auto simp: charged_def fun_eq_iff)

lemma charged_call: "charged qs (d # cs) = spec_call d (charged qs cs)"
  by (auto simp: charged_def spec_call_def fun_eq_iff)

lemma within_reserve:
  assumes "within_limits ql al ul b" "spec_reserve d h ql al b = Inr b'"
  shows "within_limits ql al ul b'"
proof -
  have b': "b' = b\<lparr>ub_queries := (ub_queries b)(d := ub_queries b d + 1), ub_addresses := (ub_addresses b)(d := insert h (ub_addresses b d))\<rparr>"
    and q: "ub_queries b d < ql" and a: "h \<in> ub_addresses b d \<or> int (card (ub_addresses b d)) < al"
    using assms(2) by (auto simp: spec_reserve_def split: if_splits)
  have "card (insert h (ub_addresses b d)) \<le> (if h \<in> ub_addresses b d then card (ub_addresses b d) else card (ub_addresses b d) + 1)"
    by (cases "finite (ub_addresses b d)") (auto simp: insert_absorb card_insert_if)
  with a assms(1) have "int (card (insert h (ub_addresses b d))) \<le> max 0 al"
    unfolding within_limits_def by (smt (verit) of_nat_1 of_nat_add of_nat_le_iff)
  with q assms(1) show ?thesis unfolding b' within_limits_def by auto
qed

lemma usage_run_charged:
  assumes ok: "usage_ok r days addrs" and run: "usage_run r ql al ul db0 qs cs db" and start: "days db0 = []" "addrs db0 = []"
  shows "usage_inv (days db) (addrs db) \<and> budget_of (days db) (addrs db) = charged qs cs \<and> within_limits ql al ul (charged qs cs)"
  using run
proof induction
  case start
  then show ?case using assms(3,4)
    by (auto simp: usage_inv_def budget_of_def charged_def daily_count_def day_addresses_def within_limits_def)
next
  case (query qs cs db day h err db')
  then have inv: "usage_inv (days db) (addrs db)" and b: "budget_of (days db) (addrs db) = charged qs cs"
    and w: "within_limits ql al ul (charged qs cs)" by simp_all
  note ref = ReserveQuery_rows [OF ok inv query.hyps(2)]
  show ?case
  proof (cases err)
    case None
    with ref(2) b have spec: "spec_reserve (utcDay day) h ql al (charged qs cs) = Inr (budget_of (days db') (addrs db'))" by simp
    then have "budget_of (days db') (addrs db') = charged ((utcDay day, h) # qs) cs"
      by (auto simp: spec_reserve_def charged_query split: if_splits)
    with ref(1) None within_reserve [OF w spec] show ?thesis by simp
  next
    case (Some e)
    with ref(1,3) b w show ?thesis by simp
  qed
next
  case (call qs cs db day err db')
  then have inv: "usage_inv (days db) (addrs db)" and b: "budget_of (days db) (addrs db) = charged qs cs"
    and w: "within_limits ql al ul (charged qs cs)" by simp_all
  note rows = ReserveUpstreamCall_rows [OF ok inv call.hyps(2)]
  show ?case
  proof (cases err)
    case None
    have "within_limits ql al ul (charged qs (utcDay day # cs))"
      using w rows(3) [OF None] unfolding b charged_call by (auto simp: within_limits_def spec_call_def)
    with rows(1,4) None b show ?thesis by (simp add: charged_call)
  next
    case (Some e)
    with rows(1,2) b w show ?thesis by simp
  qed
next
  case (result qs cs db day status cached err db')
  then show ?case using RecordResult_rows [OF ok _ result.hyps(2)] by simp
qed


text \<open>
  Tables in lists: two queries of different addresses with room for one address, then an upstream call.
\<close>

type_synonym usage_world = "TronUsageDaily list \<times> TronUsageAddressDaily list"

definition sample_usage :: "usage_world UsageRepository" where
  "sample_usage = \<lparr>us_daily = (list_gorm_up fst (\<lambda>rs w. (rs, snd w)) 7 (daily_table fst)),
     us_addresses = list_gorm_up snd (\<lambda>rs w. (fst w, rs)) 7 (address_table snd), us_now = (\<lambda>w. (5, w))\<rparr>"

lemma sample_usage_ok: "usage_ok sample_usage fst snd"
proof -
  have up: "gorm_up_ok (us_daily sample_usage) (daily_table fst)" "gorm_up_ok (us_addresses sample_usage) (address_table snd)"
    by (simp_all add: sample_usage_def list_gorm_up_ok)
  have "atomic_ok (g_transaction (us_daily sample_usage)) (\<lambda>db. (fst db, snd db))"
    by (auto simp: atomic_ok_def sample_usage_def list_gorm_up_def gorm.extend_def list_gorm_def
        split: option.splits prod.splits if_splits)
  with up show ?thesis unfolding usage_ok_def
    by (auto simp: sample_usage_def list_gorm_up_def gorm.extend_def gorm_up.fields_def list_gorm_def split: list.splits if_splits)
qed

lemma sample_reserve:
  "us_ReserveQuery sample_usage 30 ''h1'' 5 1 ([], []) =
     (None, ([(fresh_day 0 5)\<lparr>ud_QueryCount := 1, ud_DistinctAddressCount := 1\<rparr>], [\<lparr>ua_UsageDate = 0, ua_AddressHMAC = ''h1'', ua_CreatedAt = 5\<rparr>]))"
  "\<exists>w. us_ReserveQuery sample_usage 40 ''h2'' 5 1
     ([(fresh_day 0 5)\<lparr>ud_QueryCount := 1, ud_DistinctAddressCount := 1\<rparr>], [\<lparr>ua_UsageDate = 0, ua_AddressHMAC = ''h1'', ua_CreatedAt = 5\<rparr>])
     = (Some (Sentinel ErrDailyAddressLimit), w)"
  by (simp_all add: us_ReserveQuery_def sample_usage_def list_gorm_up_def gorm.extend_def gorm_up.fields_def list_gorm_def
      reserve_query_def reserve_address_def check_res_def check_err_def update_error_def utcDay_def daily_table_def address_table_def
      fresh_day_def sort_by_def zero_time_def not_found_def address_key_def errors_Is_def)


end
