(* ===== verification/Balance_Service.thy ===== *)
theory Balance_Service
  imports Evm
begin

text \<open>
  The balance service, \<open>web3/internal/service/balance.go\<close>: ownership of the wallet, the short-lived
  cache, native and ERC-20 balances and their exact decimal form. The ERC-20 ABI is the pair of
  functions \<open>evm_Pack\<close> and \<open>evm_Unpack\<close>; the JSON codec of the cache entries is a parameter.
\<close>

record GetBalanceRequest =
  gb_WalletId :: string
  gb_TokenContract :: string

record GetBalanceResponse =
  gbr_ChainId :: u64
  gbr_Address :: string
  gbr_TokenContract :: string
  gbr_Symbol :: string
  gbr_Decimals :: u32
  gbr_RawBalance :: string
  gbr_FormattedBalance :: string
  gbr_ObservedAt :: time

record cachedBalance =
  cb_ChainID :: u64
  cb_Address :: string
  cb_TokenContract :: string
  cb_Symbol :: string
  cb_Decimals :: u32
  cb_RawBalance :: string
  cb_FormattedBalance :: string
  cb_ObservedAt :: time

record balance_codec =
  bc_Marshal :: "cachedBalance \<Rightarrow> go_error + string"
  bc_Unmarshal :: "string \<Rightarrow> go_error + cachedBalance"

record 'w BalanceService =
  bs_repository :: "'w WalletRepository"
  bs_cache :: "'w redis_client"
  bs_cacheTTL :: int

definition NewBalanceService :: "parse_duration \<Rightarrow> go_error option \<Rightarrow> 'w WalletRepository option \<Rightarrow> bool
    \<Rightarrow> 'w redis_client option \<Rightarrow> BlockchainConfig \<Rightarrow> go_error + 'w BalanceService" where
  "NewBalanceService pd abi_error repository hasChains cache cfg =
    (case (repository, hasChains, cache) of
       (Some r, True, Some c) \<Rightarrow>
         (case pd (blk_BalanceCacheTTL cfg) of
            Inl err \<Rightarrow> Inl (InvalidArgument ''balance cache TTL is invalid'')
          | Inr cacheTTL \<Rightarrow>
              if cacheTTL \<le> 0 then Inl (InvalidArgument ''balance cache TTL is invalid'')
              else (case abi_error of
                 Some err \<Rightarrow> Inl (AppErr (Wrap (Some err) CodeInternal ''parse ERC20 ABI'' 500))
               | None \<Rightarrow> Inr \<lparr>bs_repository = r, bs_cache = c, bs_cacheTTL = cacheTTL\<rparr>))
     | _ \<Rightarrow> Inl (InvalidArgument ''balance service dependencies are incomplete''))"

section \<open>Decimal form\<close>

function zero_pad :: "nat \<Rightarrow> string \<Rightarrow> string" where
  "zero_pad decimals digits =
    (if length digits \<le> decimals then zero_pad decimals (CHR ''0'' # digits) else digits)"
  by pat_completeness auto
termination by (relation "measure (\<lambda>(d, s). Suc d - length s)") auto

declare zero_pad.simps [simp del]

definition formatUnits :: "int option \<Rightarrow> u32 \<Rightarrow> string" where
  "formatUnits v decimals =
    (case v of
       None \<Rightarrow> ''0''
     | Some i \<Rightarrow>
         if decimals = 0 then big_String v
         else
           let digits = big_String v;
               negative = has_prefix digits ''-'';
               digits = (if negative then trim_prefix digits ''-'' else digits);
               digits = zero_pad (unat decimals) digits;
               split = length digits - unat decimals;
               formatted = take split digits @ ''.'' @ drop split digits;
               formatted = trim_right_char (CHR ''.'') (trim_right_char (CHR ''0'') formatted);
               formatted = (if formatted = [] then ''0'' else formatted)
           in if negative \<and> formatted \<noteq> ''0'' then ''-'' @ formatted else formatted)"

section \<open>The cache\<close>

definition balanceCacheKey :: "u64 \<Rightarrow> string \<Rightarrow> string \<Rightarrow> string" where
  "balanceCacheKey chainID address tokenContract =
    (let tokenContract = (if tokenContract = [] then ''native'' else tokenContract)
     in ''balance:'' @ itoa (unat chainID) @ '':'' @ ToLower address @ '':'' @ ToLower tokenContract)"

definition from_cached :: "cachedBalance \<Rightarrow> GetBalanceResponse" where
  "from_cached v =
    \<lparr>gbr_ChainId = cb_ChainID v, gbr_Address = cb_Address v, gbr_TokenContract = cb_TokenContract v,
     gbr_Symbol = cb_Symbol v, gbr_Decimals = cb_Decimals v, gbr_RawBalance = cb_RawBalance v,
     gbr_FormattedBalance = cb_FormattedBalance v, gbr_ObservedAt = cb_ObservedAt v\<rparr>"

definition cached :: "balance_codec \<Rightarrow> 'w BalanceService \<Rightarrow> string \<Rightarrow> ('w chain_state, GetBalanceResponse option) go" where
  "cached J s key = go_try (go_call (in_world (rc_Get (bs_cache s) key))) (\<lambda>res. case res of
      Inl err \<Rightarrow> go_return None
    | Inr payload \<Rightarrow>
        if payload = [] then go_return None
        else (case bc_Unmarshal J payload of
            Inl err \<Rightarrow> go_return None
          | Inr v \<Rightarrow> go_return (Some (from_cached v))))"

definition to_cached :: "GetBalanceResponse \<Rightarrow> time \<Rightarrow> cachedBalance" where
  "to_cached response observedAt =
    \<lparr>cb_ChainID = gbr_ChainId response, cb_Address = gbr_Address response,
     cb_TokenContract = gbr_TokenContract response, cb_Symbol = gbr_Symbol response,
     cb_Decimals = gbr_Decimals response, cb_RawBalance = gbr_RawBalance response,
     cb_FormattedBalance = gbr_FormattedBalance response, cb_ObservedAt = observedAt\<rparr>"

definition storeCache :: "balance_codec \<Rightarrow> 'w BalanceService \<Rightarrow> string \<Rightarrow> GetBalanceResponse \<Rightarrow> time
    \<Rightarrow> ('w chain_state, unit) go" where
  "storeCache J s key response observedAt =
    (case bc_Marshal J (to_cached response observedAt) of
       Inl err \<Rightarrow> go_return ()
     | Inr payload \<Rightarrow> go_try (go_call_err (in_world (rc_Set (bs_cache s) key payload (bs_cacheTTL s))))
         (\<lambda>_. go_return ()))"

section \<open>Chain reads\<close>

definition nativeBalance :: "('w \<Rightarrow> go_error option) \<Rightarrow> evm \<Rightarrow> u64 \<Rightarrow> string \<Rightarrow> ('w chain_state, int option) go" where
  "nativeBalance done' E chainID address =
    Execute done' chainID (\<lambda>client. cl_BalanceAt client (evm_HexToAddress E address))"

definition errorsNewUnexpected :: "string \<Rightarrow> go_error" where
  "errorsNewUnexpected method = PlainErr (''ERC20 '' @ method @ '' returned an unexpected value'')"

text \<open>
  One of the three contract calls: call, unpack, exactly one value, and the type assertion \<open>sel\<close>.
\<close>

definition contract_read :: "evm \<Rightarrow> 'w Client \<Rightarrow> Address \<Rightarrow> byte list \<Rightarrow> string \<Rightarrow> (abi_value \<Rightarrow> 'a option) \<Rightarrow> 'w
    \<Rightarrow> (go_error + 'a) \<times> 'w" where
  "contract_read E client contract call method sel w =
    (case cl_CallContract client \<lparr>cmsg_To = contract, cmsg_Data = call\<rparr> w of
       (Inl err, w) \<Rightarrow> (Inl err, w)
     | (Inr raw, w) \<Rightarrow>
         (case evm_Unpack E method raw of
            Inl err \<Rightarrow> (Inl (WrapErr (''decode ERC20 '' @ method @ '' result: '') err), w)
          | Inr values \<Rightarrow>
              (case values of
                 [v] \<Rightarrow> (case sel v of None \<Rightarrow> Inl (errorsNewUnexpected method) | Some a \<Rightarrow> Inr a, w)
               | _ \<Rightarrow> (Inl (errorsNewUnexpected method), w))))"

definition as_big :: "abi_value \<Rightarrow> int option option" where
  "as_big v = (case v of AbiBig b \<Rightarrow> Some b | _ \<Rightarrow> None)"

definition as_uint8 :: "abi_value \<Rightarrow> byte option" where
  "as_uint8 v = (case v of AbiUint8 b \<Rightarrow> Some b | _ \<Rightarrow> None)"

definition as_string :: "abi_value \<Rightarrow> string option" where
  "as_string v = (case v of AbiString b \<Rightarrow> Some b | _ \<Rightarrow> None)"

definition erc20_calls :: "evm \<Rightarrow> Address \<Rightarrow> byte list \<Rightarrow> byte list \<Rightarrow> byte list \<Rightarrow> 'w Client \<Rightarrow> 'w
    \<Rightarrow> (go_error + int option \<times> u32 \<times> string) \<times> 'w" where
  "erc20_calls E contract balanceCall decimalsCall symbolCall client w =
    (case contract_read E client contract balanceCall ''balanceOf'' as_big w of
       (Inl err, w) \<Rightarrow> (Inl err, w)
     | (Inr balance, w) \<Rightarrow>
         (case contract_read E client contract decimalsCall ''decimals'' as_uint8 w of
            (Inl err, w) \<Rightarrow> (Inl err, w)
          | (Inr decimals, w) \<Rightarrow>
              (case contract_read E client contract symbolCall ''symbol'' as_string w of
                 (Inl err, w) \<Rightarrow> (Inl err, w)
               | (Inr symbol, w) \<Rightarrow> (Inr (balance, ucast decimals, symbol), w))))"

definition erc20Balance :: "('w \<Rightarrow> go_error option) \<Rightarrow> evm \<Rightarrow> u64 \<Rightarrow> string \<Rightarrow> string
    \<Rightarrow> ('w chain_state, int option \<times> u32 \<times> string) go" where
  "erc20Balance done' E chainID walletAddress tokenContract =
    go_bind (go_lift (evm_Pack E ''balanceOf'' [AbiAddress (evm_HexToAddress E walletAddress)])) (\<lambda>balanceCall.
    go_bind (go_lift (evm_Pack E ''decimals'' [])) (\<lambda>decimalsCall.
    go_bind (go_lift (evm_Pack E ''symbol'' [])) (\<lambda>symbolCall.
      Execute done' chainID
        (erc20_calls E (evm_HexToAddress E tokenContract) balanceCall decimalsCall symbolCall))))"

section \<open>The handler\<close>

text \<open>\<open>strings.TrimSpace(req.GetTokenContract())\<close> in checksum form, or empty.\<close>

definition token_address :: "evm \<Rightarrow> string \<Rightarrow> go_error + string" where
  "token_address E tokenContract =
    (let tokenContract = TrimSpace tokenContract
     in if tokenContract = [] then Inr []
        else if \<not> eth_IsHexAddress E tokenContract then Inl (InvalidArgument ''invalid ERC20 token contract address'')
        else Inr (evm_AddressHex E (evm_HexToAddress E tokenContract)))"

definition chain_balance :: "('w \<Rightarrow> go_error option) \<Rightarrow> evm \<Rightarrow> Wallet \<Rightarrow> BlockchainChainConfig \<Rightarrow> string
    \<Rightarrow> ('w chain_state, int option \<times> u32 \<times> string) go" where
  "chain_balance done' E boundWallet chainCfg tokenContract =
    (if tokenContract = [] then
       go_bind (nativeBalance done' E (w_ChainID boundWallet) (w_Address boundWallet)) (\<lambda>rawBalance.
         go_return (rawBalance, of_int (ch_NativeDecimals chainCfg), ch_NativeSymbol chainCfg))
     else erc20Balance done' E (w_ChainID boundWallet) (w_Address boundWallet) tokenContract)"

definition balance_response :: "Wallet \<Rightarrow> string \<Rightarrow> int option \<times> u32 \<times> string \<Rightarrow> time \<Rightarrow> GetBalanceResponse" where
  "balance_response boundWallet tokenContract b observedAt =
    (case b of (rawBalance, decimals, symbol) \<Rightarrow>
      \<lparr>gbr_ChainId = w_ChainID boundWallet, gbr_Address = w_Address boundWallet,
       gbr_TokenContract = tokenContract, gbr_Symbol = symbol, gbr_Decimals = decimals,
       gbr_RawBalance = big_String rawBalance, gbr_FormattedBalance = formatUnits rawBalance decimals,
       gbr_ObservedAt = observedAt\<rparr>)"

text \<open>The handler from the cache key on, from the loaded wallet on, and from the start.\<close>

definition query_balance :: "'w platform \<Rightarrow> ('w \<Rightarrow> go_error option) \<Rightarrow> evm \<Rightarrow> balance_codec \<Rightarrow> 'w BalanceService
    \<Rightarrow> Wallet \<Rightarrow> BlockchainChainConfig \<Rightarrow> string \<Rightarrow> ('w chain_state, GetBalanceResponse) go" where
  "query_balance P done' E J s boundWallet chainCfg tokenContract =
    (let cacheKey = balanceCacheKey (w_ChainID boundWallet) (w_Address boundWallet) tokenContract
     in go_bind (cached J s cacheKey) (\<lambda>hit. case hit of
          Some response \<Rightarrow> go_return response
        | None \<Rightarrow>
            go_bind (chain_balance done' E boundWallet chainCfg tokenContract) (\<lambda>b.
            go_bind (go_get (in_world (p_now P))) (\<lambda>observedAt.
            let response = balance_response boundWallet tokenContract b observedAt
            in go_bind (storeCache J s cacheKey response observedAt) (\<lambda>_. go_return response)))))"

definition wallet_balance :: "'w platform \<Rightarrow> ('w \<Rightarrow> go_error option) \<Rightarrow> evm \<Rightarrow> balance_codec \<Rightarrow> 'w BalanceService
    \<Rightarrow> string \<Rightarrow> Wallet \<Rightarrow> ('w chain_state, GetBalanceResponse) go" where
  "wallet_balance P done' E J s requestedToken boundWallet =
    (if w_Status boundWallet \<noteq> WalletStatusActive then go_fail (NotFound ''active wallet was not found'')
     else
       go_bind (chain_config (w_ChainID boundWallet)) (\<lambda>config. case config of
           None \<Rightarrow> go_fail (InvalidArgument ''wallet blockchain is disabled'')
         | Some chainCfg \<Rightarrow>
             go_bind (go_lift (token_address E requestedToken))
               (\<lambda>tokenContract. query_balance P done' E J s boundWallet chainCfg tokenContract)))"

definition GetBalance :: "'w platform \<Rightarrow> ('w \<Rightarrow> go_error option) \<Rightarrow> evm \<Rightarrow> balance_codec \<Rightarrow> 'w BalanceService \<Rightarrow> ctx
    \<Rightarrow> GetBalanceRequest option \<Rightarrow> ('w chain_state, GetBalanceResponse) go" where
  "GetBalance P done' E J s c req =
    go_bind (go_lift (requireIdentity c)) (\<lambda>identity. case req of
        None \<Rightarrow> go_fail (InvalidArgument ''wallet ID is empty'')
      | Some r \<Rightarrow>
          if TrimSpace (gb_WalletId r) = [] then go_fail (InvalidArgument ''wallet ID is empty'')
          else
            go_try (go_call (in_world (wr_FindByID (bs_repository s) (id_Subject identity) (gb_WalletId r))))
              (\<lambda>found. case found of
                 Inl err \<Rightarrow> go_fail (normalizeNotFound err)
               | Inr boundWallet \<Rightarrow> wallet_balance P done' E J s (gb_TokenContract r) boundWallet))"

section \<open>The decimal form is exact\<close>

lemma zero_pad_replicate: "zero_pad d s = replicate (Suc d - length s) (CHR ''0'') @ s"
proof (induction d s rule: zero_pad.induct)
  case (1 d s)
  show ?case
  proof (cases "length s \<le> d")
    case True
    then have "Suc d - length s = Suc (d - length s)" by simp
    with 1 [OF True] True show ?thesis
      by (subst zero_pad.simps) (simp add: replicate_append_same [symmetric])
  next
    case False
    then show ?thesis by (subst zero_pad.simps) simp
  qed
qed

lemma zero_digit: "is_digit (CHR ''0'')" "char_digit (CHR ''0'') = 0" "\<not> is_digit (CHR ''.'')" "\<not> is_digit (CHR ''-'')"
  by (simp_all add: is_digit_def char_digit_def)

lemma digits_value_zeros [simp]: "digits_value (replicate n (CHR ''0'')) = 0"
  by (induction n) (simp_all add: digits_value_Cons zero_digit)

definition decimal_string :: "bool \<Rightarrow> string \<Rightarrow> string \<Rightarrow> string" where
  "decimal_string negative ip fp =
    (if negative then ''-'' else []) @ ip @ (if fp = [] then [] else CHR ''.'' # fp)"

text \<open>No leading zero but that of a lone zero, no trailing zero in the fraction.\<close>

definition canonical_decimal :: "string \<Rightarrow> string \<Rightarrow> bool" where
  "canonical_decimal ip fp \<longleftrightarrow> ip \<noteq> [] \<and> (\<forall>c \<in> set (ip @ fp). is_digit c)
     \<and> (hd ip = CHR ''0'' \<longrightarrow> length ip = 1) \<and> (fp \<noteq> [] \<longrightarrow> last fp \<noteq> CHR ''0'')"

text \<open>The integer in smallest units that the two parts denote at \<open>d\<close> decimals.\<close>

definition units :: "nat \<Rightarrow> string \<Rightarrow> string \<Rightarrow> nat" where
  "units d ip fp = digits_value (ip @ fp @ replicate (d - length fp) (CHR ''0''))"

lemma trim_right_char_Nil [simp]: "trim_right_char c [] = []"
  by (simp add: trim_right_char_def)

lemma trim_right_char_append:
  "trim_right_char c (xs @ [y]) = (if y = c then trim_right_char c xs else xs @ [y])"
  by (simp add: trim_right_char_def)

lemma trim_right_char_split:
  obtains n where "s = trim_right_char c s @ replicate n c" "trim_right_char c s = [] \<or> last (trim_right_char c s) \<noteq> c"
proof -
  have "(\<exists>n. s = trim_right_char c s @ replicate n c) \<and> (trim_right_char c s = [] \<or> last (trim_right_char c s) \<noteq> c)"
  proof (induction s rule: rev_induct)
    case (snoc y s)
    then obtain n where n: "s = trim_right_char c s @ replicate n c" by blast
    show ?case
    proof (cases "y = c")
      case True
      have "s @ [c] = trim_right_char c s @ replicate (Suc n) c"
        by (subst n) (simp add: replicate_append_same)
      with True snoc show ?thesis by (metis trim_right_char_append)
    qed (simp add: trim_right_char_append)
  qed simp
  with that show thesis by blast
qed

lemma trim_right_char_last: "s \<noteq> [] \<Longrightarrow> last s \<noteq> c \<Longrightarrow> trim_right_char c s = s"
  by (cases s rule: rev_cases) (simp_all add: trim_right_char_append)

lemma trim_right_char_keep:
  assumes "y \<noteq> c"
  shows "trim_right_char c (xs @ y # zs) = xs @ y # trim_right_char c zs"
proof (induction zs rule: rev_induct)
  case Nil
  show ?case using assms trim_right_char_append [of c xs y] by simp
next
  case (snoc z zs)
  have "trim_right_char c (xs @ y # zs @ [z]) = (if z = c then trim_right_char c (xs @ y # zs) else (xs @ y # zs) @ [z])"
    using trim_right_char_append [of c "xs @ y # zs" z] by simp
  with snoc show ?case by (simp add: trim_right_char_append)
qed

lemma formatted_digits:
  assumes "ip \<noteq> []" "\<forall>c \<in> set ip. is_digit c" "\<forall>c \<in> set fp. is_digit c"
  shows "trim_right_char (CHR ''.'') (trim_right_char (CHR ''0'') (ip @ ''.'' @ fp)) =
    decimal_string False ip (trim_right_char (CHR ''0'') fp)"
proof -
  let ?fp = "trim_right_char (CHR ''0'') fp"
  have t: "trim_right_char (CHR ''0'') (ip @ ''.'' @ fp) = ip @ CHR ''.'' # ?fp"
    using trim_right_char_keep [of "CHR ''.''" "CHR ''0''" ip fp] by simp
  have sub: "set ?fp \<subseteq> set fp"
    by (metis Un_iff set_append subsetI trim_right_char_split)
  show ?thesis
  proof (cases "?fp = []")
    case True
    have "last ip \<noteq> CHR ''.''" using assms(1,2) zero_digit(3) last_in_set by metis
    then have "trim_right_char (CHR ''.'') ip = ip"
      using assms(1) by (rule trim_right_char_last [rotated])
    with True show ?thesis unfolding t by (simp add: trim_right_char_append decimal_string_def)
  next
    case False
    then obtain ys y where f: "?fp = ys @ [y]" by (metis rev_exhaust)
    with sub assms(3) zero_digit(3) have "y \<noteq> CHR ''.''" by auto
    then have "trim_right_char (CHR ''.'') ((ip @ CHR ''.'' # ys) @ [y]) = (ip @ CHR ''.'' # ys) @ [y]"
      by (simp only: trim_right_char_append if_False)
    then show ?thesis unfolding t f by (simp add: decimal_string_def)
  qed
qed

text \<open>The digits of a natural number, padded and split at the decimal point.\<close>

lemma padded_parts:
  fixes n :: nat
  assumes "0 < d"
  defines "digits \<equiv> zero_pad d (itoa n)"
  defines "ip \<equiv> take (length digits - d) digits" and "fp \<equiv> drop (length digits - d) digits"
  shows "canonical_decimal ip (trim_right_char (CHR ''0'') fp)" "\<forall>c \<in> set fp. is_digit c"
    "length (trim_right_char (CHR ''0'') fp) \<le> d" "units d ip (trim_right_char (CHR ''0'') fp) = n"
proof -
  let ?fp = "trim_right_char (CHR ''0'') fp"
  have pad: "digits = replicate (Suc d - length (itoa n)) (CHR ''0'') @ itoa n"
    unfolding digits_def by (rule zero_pad_replicate)
  then have len: "d < length digits" by auto
  have digs: "\<forall>c \<in> set digits. is_digit c" unfolding pad using itoa_digits zero_digit(1) by auto
  then show fpd: "\<forall>c \<in> set fp. is_digit c" unfolding fp_def by (meson in_set_dropD)
  have ip: "ip \<noteq> []" "\<forall>c \<in> set ip. is_digit c"
    using len digs unfolding ip_def by (auto dest: in_set_takeD)
  have lfp: "length fp = d" using len by (simp add: fp_def)
  obtain k where k: "fp = ?fp @ replicate k (CHR ''0'')" "?fp = [] \<or> last ?fp \<noteq> CHR ''0''"
    by (rule trim_right_char_split)
  have lk: "length ?fp + k = d" using k(1) lfp by (metis length_append length_replicate)
  then show "length ?fp \<le> d" by simp
  have "d - length ?fp = k" using lk by simp
  then have "units d ip ?fp = digits_value (ip @ fp)" unfolding units_def using k(1) by simp
  also have "ip @ fp = digits" by (simp add: ip_def fp_def)
  also have "digits_value digits = n" unfolding pad by simp
  finally show "units d ip ?fp = n" .
  have "length ip = 1" if "hd ip = CHR ''0''"
  proof (cases "length (itoa n) \<le> d")
    case True
    then have "length digits = Suc d" unfolding pad by simp
    then show ?thesis by (simp add: ip_def)
  next
    case False
    then have dg: "digits = itoa n" unfolding pad by simp
    have "0 < n" using False assms(1) by (cases n) (simp_all add: itoa.simps)
    then have "hd digits \<noteq> CHR ''0''" unfolding dg by (rule itoa_hd)
    moreover have "hd ip = hd digits" using len by (simp add: ip_def)
    ultimately show ?thesis using that by simp
  qed
  moreover have "\<forall>c \<in> set ?fp. is_digit c" using fpd k(1) by (metis Un_iff set_append)
  ultimately show "canonical_decimal ip ?fp" using ip k(2) by (auto simp: canonical_decimal_def)
qed

lemma big_String_digits:
  "(if has_prefix (big_String (Some v)) ''-'' then trim_prefix (big_String (Some v)) ''-'' else big_String (Some v))
    = itoa (nat \<bar>v\<bar>)" "has_prefix (big_String (Some v)) ''-'' \<longleftrightarrow> v < 0"
proof -
  have "take 1 (itoa k) \<noteq> ''-''" for k
  proof
    assume "take 1 (itoa k) = ''-''"
    then have "CHR ''-'' \<in> set (itoa k)" by (metis in_set_takeD list.set_intros(1))
    then show False using itoa_digits zero_digit(4) by blast
  qed
  then show *: "has_prefix (big_String (Some v)) ''-'' \<longleftrightarrow> v < 0"
    by (auto simp: big_String_def int_to_string_def has_prefix_def)
  show "(if has_prefix (big_String (Some v)) ''-'' then trim_prefix (big_String (Some v)) ''-'' else big_String (Some v))
    = itoa (nat \<bar>v\<bar>)"
    unfolding * trim_prefix_def by (simp add: big_String_def int_to_string_def)
qed

text \<open>C25: the displayed amount is the exact value: it is a canonical decimal with at most
  \<open>decimals\<close> fraction digits whose value in smallest units is the balance; its sign is that of the
  balance.\<close>

theorem formatUnits_exact:
  "\<exists>ip fp. formatUnits (Some v) decimals = decimal_string (v < 0) ip fp \<and> canonical_decimal ip fp
    \<and> length fp \<le> unat decimals \<and> int (units (unat decimals) ip fp) = \<bar>v\<bar>"
proof (cases "decimals = 0")
  case True
  have "formatUnits (Some v) decimals = decimal_string (v < 0) (itoa (nat \<bar>v\<bar>)) []"
    using True by (simp add: formatUnits_def big_String_def int_to_string_def decimal_string_def)
  moreover have "canonical_decimal (itoa (nat \<bar>v\<bar>)) []"
    using itoa_digits itoa_hd [of "nat \<bar>v\<bar>"] by (cases "v = 0") (auto simp: canonical_decimal_def itoa.simps [of 0])
  moreover have "int (units (unat decimals) (itoa (nat \<bar>v\<bar>)) []) = \<bar>v\<bar>" using True by (simp add: units_def)
  ultimately show ?thesis by (intro exI conjI) auto
next
  case False
  then have d: "0 < unat decimals" by (simp add: unat_gt_0)
  define digits where "digits = zero_pad (unat decimals) (itoa (nat \<bar>v\<bar>))"
  define ip where "ip = take (length digits - unat decimals) digits"
  define fp where "fp = drop (length digits - unat decimals) digits"
  let ?fp = "trim_right_char (CHR ''0'') fp"
  note parts = padded_parts [OF d, of "nat \<bar>v\<bar>", folded digits_def, folded ip_def fp_def]
  have ip: "ip \<noteq> []" "\<forall>c \<in> set ip. is_digit c" using parts(1) by (auto simp: canonical_decimal_def)
  have f: "trim_right_char (CHR ''.'') (trim_right_char (CHR ''0'') (ip @ ''.'' @ fp)) = decimal_string False ip ?fp"
    using ip parts(2) by (rule formatted_digits)
  have ne: "decimal_string False ip ?fp \<noteq> []" using ip(1) by (simp add: decimal_string_def)
  have nz: "decimal_string False ip ?fp \<noteq> ''0''" if "v < 0"
  proof
    assume "decimal_string False ip ?fp = ''0''"
    with ip(1) have "ip = ''0''" "?fp = []" by (cases ip; auto simp: decimal_string_def split: if_splits)+
    then have "units (unat decimals) ip ?fp = 0" by (simp add: units_def digits_value_Cons zero_digit)
    with parts(4) that show False by simp
  qed
  have "formatUnits (Some v) decimals =
      (if v < 0 \<and> decimal_string False ip ?fp \<noteq> ''0'' then ''-'' @ decimal_string False ip ?fp
       else decimal_string False ip ?fp)"
    using False ne unfolding formatUnits_def option.case Let_def big_String_digits(1)
    unfolding big_String_digits(2) digits_def [symmetric] ip_def [symmetric] fp_def [symmetric] f
    by (simp only: if_False)
  also have "\<dots> = decimal_string (v < 0) ip ?fp"
    using nz by (cases "v < 0") (simp_all add: decimal_string_def)
  finally show ?thesis using parts by (intro exI [of _ ip] exI [of _ ?fp] conjI) simp_all
qed


section \<open>Cache entries answer for their key\<close>

lemma colon_free_split:
  assumes "CHR '':'' \<notin> set a" "CHR '':'' \<notin> set b" "a @ '':'' @ x = b @ '':'' @ y"
  shows "a = b \<and> x = y"
  using assms
proof (induction a arbitrary: b)
  case Nil
  then show ?case by (cases b) auto
next
  case (Cons c a)
  then obtain b' where "b = c # b'" by (cases b) auto
  with Cons show ?case by auto
qed

lemma lower_char_colon [simp]: "lower_char c = CHR '':'' \<longleftrightarrow> c = CHR '':''"
  by (rule lower_char_eq_iff) (simp add: ascii_letter_def)

lemma colon_free_lower [simp]: "CHR '':'' \<in> set (ToLower s) \<longleftrightarrow> CHR '':'' \<in> set s"
proof -
  have "CHR '':'' \<in> set (ToLower s) \<longleftrightarrow> (\<exists>c \<in> set s. lower_char c = CHR '':'')"
    unfolding ToLower_def by (metis (no_types, lifting) image_iff list.set_map)
  then show ?thesis by auto
qed

lemma colon_free_itoa: "CHR '':'' \<notin> set (itoa n)"
proof
  assume "CHR '':'' \<in> set (itoa n)"
  then have "is_digit (CHR '':'')" using itoa_digits by blast
  then show False by (simp add: is_digit_def)
qed

text \<open>What \<open>token_address\<close> yields: nothing for the native coin, and an address in its printed form otherwise.\<close>

definition token_form :: "string \<Rightarrow> bool" where
  "token_form t \<longleftrightarrow> t = [] \<or> (\<exists>u. t = ''0x'' @ u)"

lemma balanceCacheKey_inj:
  assumes "balanceCacheKey i a t = balanceCacheKey j b u" "CHR '':'' \<notin> set a" "CHR '':'' \<notin> set b" "token_form t" "token_form u"
  shows "i = j" "EqualFold a b" "EqualFold t u"
proof -
  define tl where "tl = (\<lambda>t. ToLower (if t = [] then ''native'' else t))"
  have k: "balanceCacheKey i a t = ''balance:'' @ itoa (unat i) @ '':'' @ ToLower a @ '':'' @ tl t" for i a t
    by (simp add: balanceCacheKey_def tl_def)
  have e: "itoa (unat i) @ '':'' @ ToLower a @ '':'' @ tl t = itoa (unat j) @ '':'' @ ToLower b @ '':'' @ tl u"
    using assms(1) unfolding k by simp
  note s1 = colon_free_split [OF colon_free_itoa colon_free_itoa e]
  then have "unat i = unat j" by simp
  then show "i = j" by (simp add: word_unat_eq_iff)
  from s1 have e2: "ToLower a @ '':'' @ tl t = ToLower b @ '':'' @ tl u" by blast
  note s2 = colon_free_split [OF _ _ e2]
  have "ToLower a = ToLower b" "tl t = tl u" using s2 assms(2,3) by simp_all
  then show "EqualFold a b" by (simp add: EqualFold_def)
  have "ToLower ''native'' = ''native''" "ToLower (''0x'' @ v) = ''0x'' @ ToLower v" for v
    by (simp_all add: ToLower_def) (simp_all add: lower_char_def)
  with \<open>tl t = tl u\<close> assms(4,5) show "EqualFold t u" unfolding token_form_def tl_def EqualFold_def
    by (auto split: if_splits)
qed

text \<open>The key prefix of the client cannot be mistaken for the start of a balance key.\<close>

definition cache_prefix_ok :: "'w redis_client \<Rightarrow> bool" where
  "cache_prefix_ok c \<longleftrightarrow> (rc_keyPrefix c = [] \<or> hd (rc_keyPrefix c) \<noteq> CHR ''b'')"

lemma rc_key_balance:
  assumes "cache_prefix_ok c"
  shows "rc_key c (balanceCacheKey i a t) = rc_keyPrefix c @ balanceCacheKey i a t"
proof (cases "rc_keyPrefix c")
  case Nil
  then show ?thesis by (simp add: rc_key_def has_prefix_def)
next
  case (Cons x xs)
  have k: "balanceCacheKey i a t = CHR ''b'' # tl (balanceCacheKey i a t)"
    by (simp add: balanceCacheKey_def Let_def)
  have "\<not> has_prefix (balanceCacheKey i a t) (rc_keyPrefix c)"
    using assms Cons k unfolding cache_prefix_ok_def has_prefix_def by (metis list.sel(1) length_Cons list.distinct(1) take_Suc_Cons)
  then show ?thesis by (simp add: rc_key_def)
qed

text \<open>
  The balances that the nodes of a chain report, of an address in the native coin (\<open>token = []\<close>) or in an ERC-20 token:
  there one node has all three answers of the contract. \<open>balance_of\<close> is a response that shows such a balance.
\<close>

definition contract_says :: "evm \<Rightarrow> 'w Client \<Rightarrow> Address \<Rightarrow> string \<Rightarrow> abi_value list \<Rightarrow> abi_value \<Rightarrow> bool" where
  "contract_says E c contract method args v \<longleftrightarrow> (\<exists>call raw w w'. evm_Pack E method args = Inr call
     \<and> cl_CallContract c \<lparr>cmsg_To = contract, cmsg_Data = call\<rparr> w = (Inr raw, w') \<and> evm_Unpack E method raw = Inr [v])"

definition reported_balance :: "evm \<Rightarrow> 'w ClientManager \<Rightarrow> u64 \<Rightarrow> string \<Rightarrow> string \<Rightarrow> int option \<Rightarrow> u32 \<Rightarrow> string \<Rightarrow> bool" where
  "reported_balance E m i address token v decimals symbol \<longleftrightarrow>
     (if token = []
      then said m i (\<lambda>c. cl_BalanceAt c (evm_HexToAddress E address)) v
        \<and> (\<exists>cfg. Chain m i = Some cfg \<and> decimals = of_int (ch_NativeDecimals cfg) \<and> symbol = ch_NativeSymbol cfg)
      else \<exists>c d. node_of m i c
        \<and> contract_says E c (evm_HexToAddress E token) ''balanceOf'' [AbiAddress (evm_HexToAddress E address)] (AbiBig v)
        \<and> contract_says E c (evm_HexToAddress E token) ''decimals'' [] (AbiUint8 d) \<and> decimals = ucast d
        \<and> contract_says E c (evm_HexToAddress E token) ''symbol'' [] (AbiString symbol))"

definition balance_of :: "evm \<Rightarrow> 'w ClientManager \<Rightarrow> u64 \<Rightarrow> string \<Rightarrow> string \<Rightarrow> GetBalanceResponse \<Rightarrow> bool" where
  "balance_of E m i address token resp \<longleftrightarrow>
     gbr_ChainId resp = i \<and> EqualFold (gbr_Address resp) address \<and> EqualFold (gbr_TokenContract resp) token
     \<and> (\<exists>v. reported_balance E m i address token v (gbr_Decimals resp) (gbr_Symbol resp)
          \<and> gbr_RawBalance resp = big_String v \<and> gbr_FormattedBalance resp = formatUnits v (gbr_Decimals resp))"

text \<open>Reading an address from its hexadecimal form ignores the case, and the printed form starts with \<open>0x\<close>.\<close>

definition hex_ok :: "evm \<Rightarrow> bool" where
  "hex_ok E \<longleftrightarrow> (\<forall>a b. EqualFold a b \<longrightarrow> evm_HexToAddress E a = evm_HexToAddress E b)
     \<and> (\<forall>x. \<exists>u. evm_AddressHex E x = ''0x'' @ u)"

lemma balance_of_fold:
  assumes "hex_ok E" "EqualFold a b" "EqualFold t u" "balance_of E m i a t resp"
  shows "balance_of E m i b u resp"
proof -
  have addr: "evm_HexToAddress E a = evm_HexToAddress E b" "evm_HexToAddress E t = evm_HexToAddress E u"
    using assms(1-3) unfolding hex_ok_def by blast+
  have "t = [] \<longleftrightarrow> u = []" using assms(3) by (auto simp: EqualFold_def ToLower_def)
  with assms(2-4) addr show ?thesis by (auto simp: balance_of_def reported_balance_def EqualFold_def)
qed

text \<open>
  \<open>cache_inv\<close>: an entry under the key of a chain, an address and a token decodes to a balance of these that a node of the
  chain has reported. JSON decoding inverts encoding.
\<close>

definition cache_inv :: "evm \<Rightarrow> 'w ClientManager \<Rightarrow> balance_codec \<Rightarrow> 'w redis_client \<Rightarrow> (string \<rightharpoonup> string) \<Rightarrow> bool" where
  "cache_inv E m J c kv \<longleftrightarrow> (\<forall>i a t payload v. CHR '':'' \<notin> set a \<longrightarrow> token_form t
     \<longrightarrow> kv (rc_key c (balanceCacheKey i a t)) = Some payload
     \<longrightarrow> bc_Unmarshal J payload = Inr v \<longrightarrow> balance_of E m i a t (from_cached v))"

definition codec_ok :: "balance_codec \<Rightarrow> bool" where
  "codec_ok J \<longleftrightarrow> (\<forall>v s. bc_Marshal J v = Inr s \<longrightarrow> s \<noteq> [] \<and> bc_Unmarshal J s = Inr v)"

lemma cache_inv_mono: "cache_inv E m J c kv \<Longrightarrow> kv' \<subseteq>\<^sub>m kv \<Longrightarrow> cache_inv E m J c kv'"
  unfolding cache_inv_def map_le_def by (metis domI)

lemma cache_invD:
  "cache_inv E m J c kv \<Longrightarrow> CHR '':'' \<notin> set a \<Longrightarrow> token_form t \<Longrightarrow> kv (rc_key c (balanceCacheKey i a t)) = Some payload
    \<Longrightarrow> bc_Unmarshal J payload = Inr v \<Longrightarrow> balance_of E m i a t (from_cached v)"
  unfolding cache_inv_def by blast

lemma cache_inv_update:
  assumes "cache_inv E m J c kv" "codec_ok J" "cache_prefix_ok c" "hex_ok E" "CHR '':'' \<notin> set a" "token_form t"
    "bc_Marshal J v = Inr s" "balance_of E m i a t (from_cached v)"
  shows "cache_inv E m J c (kv(rc_key c (balanceCacheKey i a t) \<mapsto> s))"
proof (unfold cache_inv_def, intro allI impI)
  fix j b u payload v'
  assume b: "CHR '':'' \<notin> set b" "token_form u"
    "(kv(rc_key c (balanceCacheKey i a t) \<mapsto> s)) (rc_key c (balanceCacheKey j b u)) = Some payload"
    "bc_Unmarshal J payload = Inr v'"
  show "balance_of E m j b u (from_cached v')"
  proof (cases "rc_key c (balanceCacheKey j b u) = rc_key c (balanceCacheKey i a t)")
    case True
    then have "balanceCacheKey i a t = balanceCacheKey j b u" unfolding rc_key_balance [OF assms(3)] by simp
    note k = balanceCacheKey_inj [OF this assms(5) b(1) assms(6) b(2)]
    have "v' = v" using b(3,4) True assms(2,7) by (auto simp: codec_ok_def)
    with balance_of_fold [OF assms(4) k(2,3) assms(8)] k(1) show ?thesis by simp
  next
    case False
    then have "kv (rc_key c (balanceCacheKey j b u)) = Some payload" using b(3) by simp
    from cache_invD [OF assms(1) b(1,2) this b(4)] show ?thesis .
  qed
qed

text \<open>
  What \<open>GetBalance\<close> relies on: lookups in the wallet table, reads of the clock and node calls add no
  Redis key and leave the table as it is; so does the table's Redis client; addresses have no colon
  (they are in checksum form).
\<close>

definition calm :: "('w \<Rightarrow> Wallet list) \<Rightarrow> ('w \<Rightarrow> string \<rightharpoonup> string) \<Rightarrow> 'w \<Rightarrow> 'w \<Rightarrow> bool" where
  "calm rows store w w' \<longleftrightarrow> rows w' = rows w \<and> store w' \<subseteq>\<^sub>m store w"

definition balance_world :: "'w platform \<Rightarrow> 'w BalanceService \<Rightarrow> ('w \<Rightarrow> Wallet list) \<Rightarrow> ('w \<Rightarrow> string \<rightharpoonup> string) \<Rightarrow> bool" where
  "balance_world P s rows store \<longleftrightarrow> repo_ok (bs_repository s) rows \<and> redis_ok (bs_cache s) store
     \<and> cache_prefix_ok (bs_cache s)
     \<and> (\<forall>u i w. calm rows store w (snd (wr_FindByID (bs_repository s) u i w)))
     \<and> (\<forall>w. calm rows store w (snd (p_now P w)))"

text \<open>The states in which a lookup is answered from coherent entries, for the chains and nodes of the manager \<open>m\<close>.\<close>

definition coherent :: "evm \<Rightarrow> 'w ClientManager \<Rightarrow> balance_codec \<Rightarrow> 'w BalanceService \<Rightarrow> ('w \<Rightarrow> Wallet list)
    \<Rightarrow> ('w \<Rightarrow> string \<rightharpoonup> string) \<Rightarrow> 'w chain_state \<Rightarrow> bool" where
  "coherent E m J s rows store st \<longleftrightarrow> same_nodes m (fst st) \<and> nodes_frame (calm rows store) (fst st)
     \<and> cache_inv E m J (bs_cache s) (store (snd st))"

lemma coherent_calm:
  "coherent E m J s rows store st \<Longrightarrow> fst st' = fst st \<Longrightarrow> calm rows store (snd st) (snd st') \<Longrightarrow> coherent E m J s rows store st'"
  unfolding coherent_def calm_def using cache_inv_mono by metis

lemma keeps_chain_read:
  assumes "\<And>c w r w'. client_frame (calm rows store) c \<Longrightarrow> operation c w = (r, w') \<Longrightarrow> store w' \<subseteq>\<^sub>m store w"
  shows "keeps (coherent E m J s rows store) (Execute done' i operation)"
proof -
  have "keeps (\<lambda>st. nodes_frame (calm rows store) (fst st) \<and> cache_inv E m J (bs_cache s) (store (snd st))) (Execute done' i operation)"
    by (rule keeps_Execute) (rule cache_inv_mono, assumption, rule assms)
  then show ?thesis using Execute_same_nodes same_nodes_trans unfolding keeps_def coherent_def by blast
qed

lemma calm_store: "calm rows store w w' \<Longrightarrow> store w' \<subseteq>\<^sub>m store w"
  by (simp add: calm_def)

lemma contract_read_calm:
  assumes "client_frame (calm rows store) c" "contract_read E c a d m sel w = (r, w')"
  shows "store w' \<subseteq>\<^sub>m store w"
proof -
  obtain r1 w1 where c: "cl_CallContract c \<lparr>cmsg_To = a, cmsg_Data = d\<rparr> w = (r1, w1)" by fastforce
  with assms(2) have "w' = w1" by (auto simp: contract_read_def split: sum.splits list.splits)
  with calm_store [OF client_frameD(2) [OF assms(1) c]] show ?thesis by simp
qed

lemma erc20_calls_calm:
  assumes "client_frame (calm rows store) c" "erc20_calls E a b d sy c w = (r, w')"
  shows "store w' \<subseteq>\<^sub>m store w"
  using assms(2) unfolding erc20_calls_def
  by (auto split: sum.splits prod.splits dest!: contract_read_calm [OF assms(1)] intro: map_le_trans)

lemma keeps_chain_balance: "keeps (coherent E m J s rows store) (chain_balance done' E x cfg t)"
proof -
  have "keeps (coherent E m J s rows store) (nativeBalance done' E i a)" for i a
    unfolding nativeBalance_def by (rule keeps_chain_read) (auto dest: client_frameD(1) calm_store)
  moreover have "keeps (coherent E m J s rows store) (erc20Balance done' E i a t)" for i a t
    unfolding erc20Balance_def by (intro keeps_intros keeps_chain_read) (rule erc20_calls_calm)
  ultimately show ?thesis unfolding chain_balance_def by (intro keeps_intros) auto
qed

lemma keeps_store:
  assumes "balance_world P s rows store" "codec_ok J" "hex_ok E" "CHR '':'' \<notin> set a" "token_form t" "balance_of E m i a t resp"
  shows "keeps (coherent E m J s rows store) (storeCache J s (balanceCacheKey i a t) resp now)"
proof (cases "bc_Marshal J (to_cached resp now)")
  case (Inl e)
  then show ?thesis by (simp add: storeCache_def keeps_return)
next
  case (Inr payload)
  let ?k = "balanceCacheKey i a t"
  have bw: "redis_ok (bs_cache s) store" "cache_prefix_ok (bs_cache s)" using assms(1) by (auto simp: balance_world_def)
  have entry: "balance_of E m i a t (from_cached (to_cached resp now))"
    using assms(6) by (simp add: balance_of_def from_cached_def to_cached_def)
  have *: "cache_inv E m J (bs_cache s) (store w')" if i: "cache_inv E m J (bs_cache s) (store w)"
    and set: "rc_Set (bs_cache s) ?k payload ttl w = (e, w')" for w e w' ttl
  proof -
    have "cache_inv E m J (bs_cache s) ((store w)(rc_key (bs_cache s) ?k \<mapsto> payload))"
      by (rule cache_inv_update [OF i assms(2) bw(2) assms(3,4,5) Inr entry])
    with rc_Set_bound [OF bw(1) set] i cache_inv_mono show ?thesis by metis
  qed
  have "keeps (coherent E m J s rows store) (go_call_err (in_world (rc_Set (bs_cache s) ?k payload ttl)))" for ttl
    unfolding keeps_def
  proof (intro allI impI)
    fix st :: "'a chain_state" and r st'
    assume run: "go_call_err (in_world (rc_Set (bs_cache s) ?k payload ttl)) st = Returned (r, st')"
      and inv: "coherent E m J s rows store st"
    then obtain e where "rc_Set (bs_cache s) ?k payload ttl (snd st) = (e, snd st')" "fst st' = fst st"
      by (cases st') (auto simp: go_call_err_def in_world_def split: prod.splits)
    with inv * show "coherent E m J s rows store st'" unfolding coherent_def by metis
  qed
  then show ?thesis unfolding storeCache_def Inr sum.case by (intro keeps_intros)
qed

text \<open>What the nodes answered is what the handler shows.\<close>

lemma contract_read_says:
  assumes "contract_read E c contract call method sel w = (Inr a, w')" "evm_Pack E method args = Inr call"
  obtains v where "sel v = Some a" "contract_says E c contract method args v"
  using assms unfolding contract_read_def contract_says_def
  by (auto split: sum.splits list.splits option.splits prod.splits)

lemma chain_balance_reported:
  assumes "chain_balance done' E x cfg token st = Returned (Inr (v, d, symb), st')" "same_nodes m (fst st)"
    "Chain (fst st) (w_ChainID x) = Some cfg"
  shows "reported_balance E m (w_ChainID x) (w_Address x) token v d symb"
proof (cases "token = []")
  case True
  with assms(1) have "nativeBalance done' E (w_ChainID x) (w_Address x) st = Returned (Inr v, st')"
    "d = of_int (ch_NativeDecimals cfg)" "symb = ch_NativeSymbol cfg"
    by (auto simp: chain_balance_def go_bind_Inr go_return_eq)
  moreover have "Chain m (w_ChainID x) = Some cfg" using assms(2,3) by (simp add: same_nodes_def)
  ultimately show ?thesis using True Execute_said same_nodes_said [OF assms(2)]
    unfolding reported_balance_def nativeBalance_def by metis
next
  case False
  with assms(1) have "erc20Balance done' E (w_ChainID x) (w_Address x) token st = Returned (Inr (v, d, symb), st')"
    by (simp add: chain_balance_def)
  then obtain bc dc sc where calls': "Inr bc = evm_Pack E ''balanceOf'' [AbiAddress (evm_HexToAddress E (w_Address x))]"
    "Inr dc = evm_Pack E ''decimals'' []" "Inr sc = evm_Pack E ''symbol'' []"
    and run: "Execute done' (w_ChainID x) (erc20_calls E (evm_HexToAddress E token) bc dc sc) st = Returned (Inr (v, d, symb), st')"
    unfolding erc20Balance_def go_bind_Inr go_lift_eq by blast
  note calls = calls' [symmetric]
  from Execute_said [OF run] have "said m (w_ChainID x) (erc20_calls E (evm_HexToAddress E token) bc dc sc) (v, d, symb)"
    unfolding same_nodes_said [OF assms(2)] .
  then obtain c w w' where c: "node_of m (w_ChainID x) c"
    and e: "erc20_calls E (evm_HexToAddress E token) bc dc sc c w = (Inr (v, d, symb), w')" unfolding said_def by blast
  from e obtain w1 w2 d8 where
    r: "contract_read E c (evm_HexToAddress E token) bc ''balanceOf'' as_big w = (Inr v, w1)"
      "contract_read E c (evm_HexToAddress E token) dc ''decimals'' as_uint8 w1 = (Inr d8, w2)"
      "contract_read E c (evm_HexToAddress E token) sc ''symbol'' as_string w2 = (Inr symb, w')" "d = ucast d8"
    unfolding erc20_calls_def by (auto split: sum.splits prod.splits)
  obtain v1 where v1: "as_big v1 = Some v" "contract_says E c (evm_HexToAddress E token) ''balanceOf''
      [AbiAddress (evm_HexToAddress E (w_Address x))] v1" by (rule contract_read_says [OF r(1) calls(1)])
  obtain v2 where v2: "as_uint8 v2 = Some d8" "contract_says E c (evm_HexToAddress E token) ''decimals'' [] v2"
    by (rule contract_read_says [OF r(2) calls(2)])
  obtain v3 where v3: "as_string v3 = Some symb" "contract_says E c (evm_HexToAddress E token) ''symbol'' [] v3"
    by (rule contract_read_says [OF r(3) calls(3)])
  have "v1 = AbiBig v" "v2 = AbiUint8 d8" "v3 = AbiString symb"
    using v1(1) v2(1) v3(1) by (cases v1; cases v2; cases v3; simp add: as_big_def as_uint8_def as_string_def)+
  with v1(2) v2(2) v3(2) c r(4) False show ?thesis unfolding reported_balance_def by auto
qed

lemma response_balance_of:
  assumes "chain_balance done' E x cfg token st = Returned (Inr b, st')" "same_nodes m (fst st)"
    "Chain (fst st) (w_ChainID x) = Some cfg"
  shows "balance_of E m (w_ChainID x) (w_Address x) token (balance_response x token b now)"
proof (cases b)
  case (fields v d symb)
  from chain_balance_reported [OF assms(1) [unfolded fields] assms(2,3)] show ?thesis
    unfolding fields by (auto simp: balance_of_def balance_response_def EqualFold_def)
qed

lemma token_address_form: "hex_ok E \<Longrightarrow> token_address E rt = Inr t \<Longrightarrow> token_form t"
  by (auto simp: token_address_def token_form_def hex_ok_def Let_def split: if_splits)

lemma keeps_calm:
  assumes "\<And>w. calm rows store w (snd (f w))"
  shows "keeps (coherent E m J s rows store) (go_call (in_world f))" "keeps (coherent E m J s rows store) (go_get (in_world g))
    \<longleftrightarrow> keeps (coherent E m J s rows store) (go_get (in_world g))"
proof -
  show "keeps (coherent E m J s rows store) (go_call (in_world f))"
    unfolding keeps_def go_call_eq in_world_eq using coherent_calm assms by (metis snd_conv)
qed simp

lemma keeps_clock:
  assumes "\<And>w. calm rows store w (snd (f w))"
  shows "keeps (coherent E m J s rows store) (go_get (in_world f))"
  unfolding keeps_def go_get_eq in_world_eq using coherent_calm assms by (metis snd_conv)

lemma cached_cases:
  assumes "balance_world P s rows store" "cached J s key st = Returned (res, st')"
  obtains o' where "res = Inr o'" "fst st' = fst st" "store (snd st') \<subseteq>\<^sub>m store (snd st)"
    "\<And>resp. o' = Some resp \<Longrightarrow> \<exists>payload v. store (snd st) (rc_key (bs_cache s) key) = Some payload
      \<and> bc_Unmarshal J payload = Inr v \<and> resp = from_cached v"
proof -
  have ok: "redis_ok (bs_cache s) store" using assms(1) by (simp add: balance_world_def)
  from assms(2) obtain got st1 where g: "rc_Get (bs_cache s) key (snd st) = (got, snd st1)" "fst st1 = fst st"
    and rest: "(case got of Inl err \<Rightarrow> go_return None | Inr payload \<Rightarrow>
        if payload = [] then go_return None else (case bc_Unmarshal J payload of
            Inl err \<Rightarrow> go_return None | Inr v \<Rightarrow> go_return (Some (from_cached v)))) st1 = Returned (res, st')"
    unfolding cached_def go_try_eq go_call_eq in_world_eq by blast
  from rest have "st' = st1" "\<exists>o'. res = Inr o' \<and> (\<forall>resp. o' = Some resp \<longrightarrow>
      (\<exists>payload v. got = Inr payload \<and> payload \<noteq> [] \<and> bc_Unmarshal J payload = Inr v \<and> resp = from_cached v))"
    by (auto simp: go_return_eq split: sum.splits if_splits)
  with g rc_Get_store [OF ok g(1)] show thesis by (metis that)
qed

text \<open>Inversion of the parts of the handler.\<close>

lemma wallet_balance_cases:
  assumes "wallet_balance P done' E J s rt x st = Returned (res, st')"
  obtains (failed) e where "res = Inl e" "st' = st"
  | (query) cfg token where "w_Status x = WalletStatusActive" "Chain (fst st) (w_ChainID x) = Some cfg"
    "token_address E rt = Inr token" "query_balance P done' E J s x cfg token st = Returned (res, st')"
proof (cases "w_Status x = WalletStatusActive")
  case False
  with assms failed show thesis by (auto simp: wallet_balance_def go_fail_eq)
next
  case True
  note run = assms [unfolded wallet_balance_def, simplified True simp_thms if_False chain_config_bind not_not]
  show thesis
  proof (cases "Chain (fst st) (w_ChainID x)")
    case None
    with run failed show thesis by (auto simp: go_fail_eq)
  next
    case (Some cfg)
    with run query [OF True Some] failed show thesis
      by (cases "token_address E rt") (auto simp: go_fail_eq)
  qed
qed

lemma GetBalance_cases:
  assumes "GetBalance P done' E J s c req st = Returned (res, st')"
  obtains (refused) e where "res = Inl e" "st' = st"
  | (lookup) e u i where "wr_FindByID (bs_repository s) u i (snd st) = (Inl e, snd st')"
    "fst st' = fst st" "\<exists>e. res = Inl e"
  | (wallet) identity :: Identity and r :: GetBalanceRequest and x :: Wallet and st1
    where "c = Some identity" "id_Subject identity \<noteq> []" "req = Some r"
    "wr_FindByID (bs_repository s) (id_Subject identity) (gb_WalletId r) (snd st) = (Inr x, snd st1)" "fst st1 = fst st"
    "wallet_balance P done' E J s (gb_TokenContract r) x st1 = Returned (res, st')"
proof (cases "\<exists>identity r. requireIdentity c = Inr identity \<and> req = Some r \<and> TrimSpace (gb_WalletId r) \<noteq> []")
  case False
  with assms refused show thesis
    by (cases "requireIdentity c"; cases req) (auto simp: GetBalance_def go_fail_eq)
next
  case True
  then obtain identity r where i: "requireIdentity c = Inr identity" "req = Some r" "TrimSpace (gb_WalletId r) \<noteq> []"
    by blast
  obtain found w1 where f: "wr_FindByID (bs_repository s) (id_Subject identity) (gb_WalletId r) (snd st) = (found, w1)"
    by fastforce
  note run = assms [unfolded GetBalance_def i(1,2) go_bind_lift option.case, simplified i(3) if_False]
  note run = run [unfolded in_world_bind(1) [where f = "wr_FindByID (bs_repository s) (id_Subject identity) (gb_WalletId r)", OF f]]
  show thesis
  proof (cases found)
    case (Inl e)
    with run f lookup show thesis by (auto simp: go_fail_eq)
  next
    case (Inr x)
    with run f i wallet [of identity r x "(fst st, w1)"] show thesis by (simp add: requireIdentity_Inr)
  qed
qed

text \<open>A computation keeps an invariant, and its value, if it has one, has a property.\<close>

definition assures :: "('st \<Rightarrow> bool) \<Rightarrow> ('st, 'a) go \<Rightarrow> ('a \<Rightarrow> bool) \<Rightarrow> bool" where
  "assures I m Q \<longleftrightarrow> (\<forall>st r st'. m st = Returned (r, st') \<longrightarrow> I st \<longrightarrow> I st' \<and> (\<forall>a. r = Inr a \<longrightarrow> Q a))"

lemma assures_keeps: "keeps I m \<Longrightarrow> (\<And>st a st'. m st = Returned (Inr a, st') \<Longrightarrow> I st \<Longrightarrow> Q a) \<Longrightarrow> assures I m Q"
  unfolding assures_def keeps_def by blast

lemma assures_return: "Q a \<Longrightarrow> assures I (go_return a) Q"
  by (auto simp: assures_def go_return_def)

lemma assures_bind:
  assumes "assures I m P" "\<And>a. P a \<Longrightarrow> assures I (f a) Q"
  shows "assures I (go_bind m f) Q"
  unfolding assures_def
proof (intro allI impI)
  fix st r st' assume run: "go_bind m f st = Returned (r, st')" and inv: "I st"
  then obtain r1 st1 where m: "m st = Returned (r1, st1)" and k: "(case r1 of Inl e \<Rightarrow> go_fail e | Inr a \<Rightarrow> f a) st1 = Returned (r, st')"
    unfolding go_bind_def go_try_eq by blast
  show "I st' \<and> (\<forall>a. r = Inr a \<longrightarrow> Q a)"
  proof (cases r1)
    case (Inl e)
    with k m assms(1) inv show ?thesis by (auto simp: assures_def go_fail_eq)
  next
    case (Inr a)
    with m assms(1) inv have "I st1" "P a" by (auto simp: assures_def)
    with k Inr assms(2) show ?thesis by (auto simp: assures_def)
  qed
qed

lemma query_balance_assures:
  assumes W: "balance_world P s rows store" "codec_ok J" "hex_ok E" "CHR '':'' \<notin> set (w_Address x)" "token_form token"
    and cfg: "Chain m (w_ChainID x) = Some cfg"
  shows "assures (coherent E m J s rows store) (query_balance P done' E J s x cfg token)
    (balance_of E m (w_ChainID x) (w_Address x) token)"
proof -
  let ?I = "coherent E m J s rows store" and ?ok = "balance_of E m (w_ChainID x) (w_Address x) token"
  let ?key = "balanceCacheKey (w_ChainID x) (w_Address x) token"
  have hit: "assures ?I (cached J s ?key) (\<lambda>hit. \<forall>resp. hit = Some resp \<longrightarrow> ?ok resp)"
  proof (rule assures_keeps)
    show "keeps ?I (cached J s ?key)"
      unfolding keeps_def using cached_cases [OF W(1)] unfolding coherent_def by (metis cache_inv_mono)
  next
    fix st hit st' assume run: "cached J s ?key st = Returned (Inr hit, st')" and inv: "?I st"
    show "\<forall>resp. hit = Some resp \<longrightarrow> ?ok resp"
    proof (intro allI impI)
      fix resp assume "hit = Some resp"
      with cached_cases [OF W(1) run] obtain payload v where
        v: "store (snd st) (rc_key (bs_cache s) ?key) = Some payload" "bc_Unmarshal J payload = Inr v" "resp = from_cached v"
        by (metis sum.inject(2))
      from inv have "cache_inv E m J (bs_cache s) (store (snd st))" by (simp add: coherent_def)
      from cache_invD [OF this W(4,5) v(1,2)] v(3) show "?ok resp" by simp
    qed
  qed
  have read: "assures ?I (chain_balance done' E x cfg token) (\<lambda>b. \<forall>now. ?ok (balance_response x token b now))"
  proof (rule assures_keeps [OF keeps_chain_balance])
    fix st b st' assume run: "chain_balance done' E x cfg token st = Returned (Inr b, st')" and inv: "?I st"
    then have "same_nodes m (fst st)" "Chain (fst st) (w_ChainID x) = Some cfg" using cfg by (simp_all add: coherent_def same_nodes_def)
    from response_balance_of [OF run this] show "\<forall>now. ?ok (balance_response x token b now)" by blast
  qed
  have calm: "calm rows store w (snd (p_now P w))" for w using W(1) by (simp add: balance_world_def)
  have clock: "assures ?I (go_get (in_world (p_now P))) (\<lambda>_. True)"
    by (rule assures_keeps [OF keeps_clock [OF calm]]) simp
  have store: "assures ?I (storeCache J s ?key resp now) (\<lambda>_. True)" if "?ok resp" for resp now
    by (rule assures_keeps [OF keeps_store [OF W that]]) simp
  have miss: "assures ?I (go_bind (chain_balance done' E x cfg token) (\<lambda>b. go_bind (go_get (in_world (p_now P))) (\<lambda>now.
      go_bind (storeCache J s ?key (balance_response x token b now) now) (\<lambda>_. go_return (balance_response x token b now))))) ?ok"
  proof (rule assures_bind [OF read], rule assures_bind [OF clock], rule assures_bind)
    fix b now u assume ok: "\<forall>now. ?ok (balance_response x token b now)"
    from ok have r: "?ok (balance_response x token b now)" by blast
    show "assures ?I (storeCache J s ?key (balance_response x token b now) now) (\<lambda>_. True)" by (rule store [OF r])
    show "assures ?I (go_return (balance_response x token b now)) ?ok" by (rule assures_return) (rule r)
  qed
  show ?thesis unfolding query_balance_def Let_def
  proof (rule assures_bind [OF hit])
    fix hit assume "\<forall>resp. hit = Some resp \<longrightarrow> ?ok resp"
    then show "assures ?I (case hit of None \<Rightarrow> go_bind (chain_balance done' E x cfg token) (\<lambda>b. go_bind (go_get (in_world (p_now P))) (\<lambda>now.
        go_bind (storeCache J s ?key (balance_response x token b now) now) (\<lambda>_. go_return (balance_response x token b now))))
      | Some response \<Rightarrow> go_return response) ?ok"
      using miss by (cases hit) (auto intro: assures_return)
  qed
qed

section \<open>Property\<close>

text \<open>C24: a balance is only given to the owner of an active wallet, of a chain that is enabled. It is that of the wallet's
  address on its chain, in the token of the request: a node of the chain has reported that amount (for a token, the amount,
  the decimals and the symbol that the contract answered; for the native coin, decimals and symbol of the configuration),
  whether it is read from the cache or from the node now. And the cache stays coherent in this sense, however often and in
  whatever order the handler is called.\<close>

theorem GetBalance_answers_for_wallet:
  assumes "balance_world P s rows store" "codec_ok J" "hex_ok E" "\<forall>x \<in> set (rows (snd st)). CHR '':'' \<notin> set (w_Address x)"
    and "coherent E m J s rows store st" "GetBalance P done' E J s c req st = Returned (res, st')"
  shows "coherent E m J s rows store st' \<and> (case res of Inl e \<Rightarrow> True | Inr resp \<Rightarrow>
    \<exists>identity r token. \<exists>x \<in> set (rows (snd st)). c = Some identity \<and> id_Subject identity \<noteq> [] \<and> req = Some r
      \<and> w_ID x = gb_WalletId r \<and> w_UserSubject x = id_Subject identity \<and> w_Status x = WalletStatusActive
      \<and> Chain (fst st) (w_ChainID x) \<noteq> None \<and> token_address E (gb_TokenContract r) = Inr token
      \<and> balance_of E m (w_ChainID x) (w_Address x) token resp)"
  using assms(6)
proof (cases rule: GetBalance_cases)
  case refused
  with assms(5) show ?thesis by simp
next
  case (lookup e u i)
  have "calm rows store (snd st) (snd st')"
    using assms(1) lookup(1) unfolding balance_world_def by (metis snd_conv)
  with coherent_calm [OF assms(5) lookup(2)] lookup(3) show ?thesis by auto
next
  case (wallet identity r x st1)
  have repo: "repo_ok (bs_repository s) rows" using assms(1) by (simp add: balance_world_def)
  have calm: "calm rows store (snd st) (snd st1)"
    using assms(1) wallet(4) unfolding balance_world_def by (metis snd_conv)
  have inv1: "coherent E m J s rows store st1" by (rule coherent_calm [OF assms(5) wallet(5) calm])
  have x: "x \<in> set (rows (snd st))" "w_ID x = gb_WalletId r" "w_UserSubject x = id_Subject identity"
    using wr_first [OF repo] wallet(4) unfolding wr_FindByID_def by blast+
  have colon: "CHR '':'' \<notin> set (w_Address x)" using assms(4) x(1) by blast
  from wallet(6) show ?thesis
  proof (cases rule: wallet_balance_cases)
    case failed
    with inv1 show ?thesis by simp
  next
    case (query cfg token)
    have "Chain m (w_ChainID x) = Some cfg" using query(2) inv1 by (simp add: coherent_def same_nodes_def)
    note q = query_balance_assures [OF assms(1-3) colon token_address_form [OF assms(3) query(3)] this]
    from q query(4) inv1 have inv: "coherent E m J s rows store st'"
      and resp: "\<And>resp. res = Inr resp \<Longrightarrow> balance_of E m (w_ChainID x) (w_Address x) token resp"
      unfolding assures_def by blast+
    have "Chain (fst st) (w_ChainID x) \<noteq> None" using query(2) wallet(5) by simp
    with inv resp x wallet(1,2,3) query(1,3) show ?thesis by (cases res) auto
  qed
qed

text \<open>A world with a wallet of user \<open>u\<close>, one node and an empty cache.\<close>

definition sample_cached :: cachedBalance where
  "sample_cached = to_cached (balance_response bound_sample [] (Some 1500, 18, ''ETH'') 5) 5"

definition sample_codec :: balance_codec where
  "sample_codec = \<lparr>bc_Marshal = (\<lambda>v. if v = sample_cached then Inr ''{}'' else Inl (PlainErr [])),
     bc_Unmarshal = (\<lambda>s. if s = ''{}'' then Inr sample_cached else Inl (PlainErr []))\<rparr>"

definition hex_evm :: evm where
  "hex_evm = sample_evm\<lparr>evm_HexToAddress := (\<lambda>s. map (\<lambda>c. of_nat (of_char c)) (ToLower s)),
     evm_AddressHex := (\<lambda>a. ''0x'' @ map (\<lambda>b. char_of (unat b)) a)\<rparr>"

lemma hex_evm_ok: "hex_ok hex_evm"
  by (simp add: hex_ok_def hex_evm_def EqualFold_def)

definition sample_balance :: "sample_state BalanceService" where
  "sample_balance = \<lparr>bs_repository = ws_repository sample_service, bs_cache = lift_client mem_client, bs_cacheTTL = 30\<rparr>"

lemma sample_balance_world: "balance_world sample_platform sample_balance snd (\<lambda>w. map_of (fst w))"
  "codec_ok sample_codec" "coherent hex_evm quiet_manager sample_codec sample_balance snd (\<lambda>w. map_of (fst w)) (quiet_manager, ([], ws))"
proof -
  have "calm snd (\<lambda>w. map_of (fst w)) w (snd (wr_FindByID (bs_repository sample_balance) u i w))" for u i and w :: sample_state
    by (auto simp: calm_def wr_FindByID_def sample_balance_def sample_service_def list_gorm_def split: list.splits)
  then show "balance_world sample_platform sample_balance snd (\<lambda>w. map_of (fst w))"
    using sample_service_ok(1) lift_client_ok [OF mem_client_ok]
    by (simp add: balance_world_def sample_balance_def cache_prefix_ok_def lift_client_def mem_client_def calm_def sample_platform_def)
  show "codec_ok sample_codec" by (simp add: codec_ok_def sample_codec_def)
  show "coherent hex_evm quiet_manager sample_codec sample_balance snd (\<lambda>w. map_of (fst w)) (quiet_manager, ([], ws))"
    by (simp add: coherent_def cache_inv_def quiet_frame calm_def)
qed

lemma sample_native: "nativeBalance (\<lambda>_. None) hex_evm 1 a (quiet_manager, w) =
  Returned (Inr (Some 1500), (advance quiet_manager 1 \<lparr>pool_config = plain_chain 1, pool_clients = [quiet_node], pool_next = 0\<rparr>, w))"
proof -
  have "pool_of quiet_manager 1 \<lparr>pool_config = plain_chain 1, pool_clients = [quiet_node], pool_next = 0\<rparr>"
    by (simp add: pool_of_def quiet_manager_def)
  note run = Execute_run [OF this]
  show ?thesis unfolding nativeBalance_def run by (simp add: client_at_nonneg quiet_attempts)
qed

lemma sample_GetBalance:
  "\<exists>st'. GetBalance sample_platform (\<lambda>_. None) hex_evm sample_codec sample_balance (Some sample_user)
    (Some \<lparr>gb_WalletId = ''id'', gb_TokenContract = []\<rparr>) (quiet_manager, ([], [bound_sample])) =
    Returned (Inr (balance_response bound_sample [] (Some 1500, 18, ''ETH'') 5), st')"
proof -
  have i: "requireIdentity (Some sample_user) = Inr sample_user" by (simp add: requireIdentity_Inr sample_user_def zero_identity_def)
  have t: "TrimSpace ''id'' = ''id''" by (rule TrimSpace_plain) (simp add: plain_char_def)
  let ?w = "([], [bound_sample]) :: sample_state"
  have f: "wr_FindByID (bs_repository sample_balance) (id_Subject sample_user) ''id'' ?w = (Inr bound_sample, ?w)"
    by (simp add: wr_FindByID_def sample_balance_def sample_service_def list_gorm_def bound_sample_def sample_user_def
        sort_by_def)
  have ch: "Chain quiet_manager 1 = Some (plain_chain 1)" by (simp add: Chain_def quiet_manager_def)
  have b: "w_Status bound_sample = WalletStatusActive" "w_ChainID bound_sample = 1"
    by (simp_all add: bound_sample_def)
  let ?key = "balanceCacheKey 1 (w_Address bound_sample) []"
  have g: "cached sample_codec sample_balance ?key (quiet_manager, ?w) = Returned (Inr None, (quiet_manager, ?w))"
  proof -
    have "rc_Get (lift_client mem_client) k ?w = (Inr [], ?w)" for k
      by (simp add: rc_Get_def lift_client_def lift_redis_def mem_client_def mem_redis_def on_fst_def errors_Is_def)
    then show ?thesis
      by (simp add: cached_def in_world_bind(1) [where w = ?w] sample_balance_def go_return_def)
  qed
  obtain m' where cb: "chain_balance (\<lambda>_. None) hex_evm bound_sample (plain_chain 1) [] (quiet_manager, ?w) =
      Returned (Inr (Some 1500, 18, ''ETH''), (m', ?w))"
  proof (rule that)
    show "chain_balance (\<lambda>_. None) hex_evm bound_sample (plain_chain 1) [] (quiet_manager, ?w) =
      Returned (Inr (Some 1500, 18, ''ETH''), (advance quiet_manager 1
        \<lparr>pool_config = plain_chain 1, pool_clients = [quiet_node], pool_next = 0\<rparr>, ?w))"
      unfolding chain_balance_def b by (simp add: go_bind_def go_try_def sample_native go_return_def plain_chain_def)
  qed
  have n: "p_now sample_platform ?w = (5, ?w)" by (simp add: sample_platform_def)
  have "\<exists>st'. storeCache sample_codec sample_balance ?key resp 5 st = Returned (Inr (), st')" for resp st
    by (cases st) (auto simp: storeCache_def go_return_def go_try_def go_call_err_def in_world_def split: sum.splits prod.splits)
  then obtain st' where sc: "storeCache sample_codec sample_balance ?key
      (balance_response bound_sample [] (Some 1500, 18, ''ETH'') 5) 5 (m', ?w) = Returned (Inr (), st')" by blast
  have "query_balance sample_platform (\<lambda>_. None) hex_evm sample_codec sample_balance bound_sample (plain_chain 1) []
      (quiet_manager, ?w) = Returned (Inr (balance_response bound_sample [] (Some 1500, 18, ''ETH'') 5), st')"
    unfolding query_balance_def Let_def b
    by (simp add: go_bind_def go_try_def g cb go_get_def in_world_def n sc go_return_def)
  moreover have "token_address hex_evm [] = Inr []" by (simp add: token_address_def)
  ultimately have "wallet_balance sample_platform (\<lambda>_. None) hex_evm sample_codec sample_balance [] bound_sample
      (quiet_manager, ?w) = Returned (Inr (balance_response bound_sample [] (Some 1500, 18, ''ETH'') 5), st')"
    by (simp add: wallet_balance_def b ch)
  then show ?thesis
    by (cases st') (simp add: GetBalance_def i t in_world_bind(1) [where f = "wr_FindByID (bs_repository sample_balance) (id_Subject sample_user) ''id''"] f)
qed

theorem GetBalance_answers_for_wallet_witness:
  "\<exists>st'. coherent hex_evm quiet_manager sample_codec sample_balance snd (\<lambda>w. map_of (fst w)) st'
    \<and> GetBalance sample_platform (\<lambda>_. None) hex_evm sample_codec sample_balance (Some sample_user)
        (Some \<lparr>gb_WalletId = ''id'', gb_TokenContract = []\<rparr>) (quiet_manager, ([], [bound_sample])) =
      Returned (Inr (balance_response bound_sample [] (Some 1500, 18, ''ETH'') 5), st')
    \<and> balance_of hex_evm (quiet_manager :: sample_state ClientManager) 1 (w_Address bound_sample) []
        (balance_response bound_sample [] (Some 1500, 18, ''ETH'') 5)"
proof -
  from sample_GetBalance obtain st' where run: "GetBalance sample_platform (\<lambda>_. None) hex_evm sample_codec sample_balance (Some sample_user)
    (Some \<lparr>gb_WalletId = ''id'', gb_TokenContract = []\<rparr>) (quiet_manager, ([], [bound_sample])) =
    Returned (Inr (balance_response bound_sample [] (Some 1500, 18, ''ETH'') 5), st')" by blast
  have "\<forall>x \<in> set (snd (snd (quiet_manager :: sample_state ClientManager, ([], [bound_sample]) :: sample_state))). CHR '':'' \<notin> set (w_Address x)"
    by (simp add: bound_sample_def)
  note answer = GetBalance_answers_for_wallet [OF sample_balance_world(1,2) hex_evm_ok this sample_balance_world(3) run]
  from answer obtain x :: Wallet and token where x: "x = bound_sample" "token_address hex_evm [] = Inr token"
    "balance_of hex_evm (quiet_manager :: sample_state ClientManager) (w_ChainID x) (w_Address x) token (balance_response bound_sample [] (Some 1500, 18, ''ETH'') 5)"
    by auto
  have "token = []" using x(2) by (simp add: token_address_def)
  with x(1,3) have "balance_of hex_evm (quiet_manager :: sample_state ClientManager) 1 (w_Address bound_sample) []
      (balance_response bound_sample [] (Some 1500, 18, ''ETH'') 5)" by (simp add: bound_sample_def)
  with answer run show ?thesis by blast
qed

end
