(* ===== verification/Approval_Service.thy ===== *)
theory Approval_Service
  imports Tron_Client Usage_Repo Balance_Service
begin

text \<open>
  The check of TRON USDT approvals, \<open>web3/internal/service/approval.go\<close>: pages of approvals from TRONSCAN,
  the current allowance of every spender, risk labels, a cache and daily budgets. The upstream, the cache, the
  usage tables, clock, UUIDs and the \<open>protojson\<close> codec are fields of the service. Workers verify allowances
  concurrently: a schedule says in which order their steps happen. \<open>inflight\<close> has the addresses that are
  being checked; waiting for such a check is a parameter.
\<close>

section \<open>Messages\<close>

text \<open>The Chinese texts, in UTF-8.\<close>

definition utf8 :: "nat list \<Rightarrow> string" where
  "utf8 bs = map char_of bs"

definition reason_enumeration_failed :: string where
  "reason_enumeration_failed = utf8 [230, 156, 170, 232, 131, 189, 229, 174, 140, 230, 136, 144, 32, 84, 82, 79, 78, 83, 67, 65, 78, 32, 230,
     142, 136, 230, 157, 131, 229, 175, 185, 232, 177, 161, 230, 159, 165, 232, 175, 162, 239, 188, 140, 232, 175,
     183, 231, 168, 141, 229, 144, 142, 233, 135, 141, 232, 175, 149]"

definition reason_success :: string where
  "reason_success = utf8 [230, 156, 172, 230, 172, 161, 230, 149, 176, 230, 141, 174, 230, 186, 144, 232, 191, 148, 229, 155, 158,
     232, 140, 131, 229, 155, 180, 229, 183, 178, 230, 159, 165, 232, 175, 162, 229, 174, 140, 230, 136, 144, 239,
     188, 155, 230, 156, 170, 230, 163, 128, 230, 159, 165, 232, 180, 166, 230, 136, 183, 230, 142, 167, 229, 136,
     182, 230, 157, 131, 233, 153, 144, 229, 143, 138, 229, 133, 182, 228, 187, 150, 232, 181, 132, 228, 186, 167]"

definition reason_partial :: string where
  "reason_partial = utf8 [231, 187, 147, 230, 158, 156, 230, 156, 170, 229, 174, 140, 230, 149, 180, 232, 142, 183, 229, 143, 150,
     239, 188, 155, 230, 156, 170, 230, 163, 128, 230, 159, 165, 232, 180, 166, 230, 136, 183, 230, 142, 167, 229,
     136, 182, 230, 157, 131, 233, 153, 144, 229, 143, 138, 229, 133, 182, 228, 187, 150, 232, 181, 132, 228, 186,
     167]"

definition msg_risk :: string where
  "msg_risk = utf8 [233, 163, 142, 233, 153, 169, 230, 160, 135, 231, 173, 190, 230, 154, 130, 230, 151, 182, 228, 184, 141,
     229, 143, 175, 231, 148, 168]"

definition msg_decimals :: string where
  "msg_decimals = utf8 [85, 83, 68, 84, 32, 231, 178, 190, 229, 186, 166, 230, 156, 170, 232, 131, 189, 228, 187, 142, 229, 144,
     136, 231, 186, 166, 232, 175, 187, 229, 155, 158]"

definition msg_allowance :: string where
  "msg_allowance = utf8 [229, 189, 147, 229, 137, 141, 230, 142, 136, 230, 157, 131, 233, 162, 157, 229, 186, 166, 230, 156, 170,
     230, 160, 184, 229, 174, 158]"

definition msg_budget :: string where
  "msg_budget = utf8 [228, 184, 138, 230, 184, 184, 232, 176, 131, 231, 148, 168, 233, 162, 132, 231, 174, 151, 229, 183, 178,
     231, 148, 168, 229, 176, 189]"

definition msg_page :: string where
  "msg_page = utf8 [230, 142, 136, 230, 157, 131, 229, 136, 151, 232, 161, 168, 229, 136, 134, 233, 161, 181, 230, 159, 165,
     232, 175, 162, 229, 164, 177, 232, 180, 165]"

definition msg_limit :: string where
  "msg_limit = utf8 [229, 183, 178, 232, 190, 190, 229, 136, 176, 230, 156, 141, 229, 138, 161, 231, 171, 175, 230, 142, 136,
     230, 157, 131, 230, 137, 171, 230, 143, 143, 228, 184, 138, 233, 153, 144]"

definition unrecognised :: string where
  "unrecognised = utf8 [230, 156, 170, 232, 175, 134, 229, 136, 171]"

datatype TronApprovalCheckStatus = StatusUnspecified | StatusSuccess | StatusPartial | StatusFailed
datatype TronSpenderType = SpenderUnspecified | SpenderAddress | SpenderContract | SpenderUnknown
datatype TronUnlimitedStatus = UnlimitedUnspecified | UnlimitedFinite | UnlimitedUnlimited | UnlimitedConflict | UnlimitedUnknown

record TronUSDTApproval =
  au_Spender :: string
  au_SpenderType :: TronSpenderType
  au_DisplayName :: string
  au_RawAllowance :: string
  au_Decimals :: u32
  au_DisplayAllowance :: string
  au_UnlimitedStatus :: TronUnlimitedStatus
  au_AllowanceVerifiedAt :: "time option"
  au_RiskLabels :: "string list"
  au_RiskSource :: string
  au_RiskCheckedAt :: "time option"
  au_AllowanceVerified :: bool
  au_Active :: bool
  au_OfficialDetailUrl :: string

record TronApprovalPartialError =
  pe_Code :: string
  pe_Message :: string
  pe_Retryable :: bool
  pe_Spender :: string

record CheckResponse =
  ck_RequestId :: string
  ck_Network :: string
  ck_Address :: string
  ck_TokenContract :: string
  ck_Status :: TronApprovalCheckStatus
  ck_EnumerationComplete :: bool
  ck_AllowanceVerificationComplete :: bool
  ck_RiskDataAvailable :: bool
  ck_Truncated :: bool
  ck_Reason :: string
  ck_IsCached :: bool
  ck_QueriedAt :: "time option"
  ck_Approvals :: "TronUSDTApproval list"
  ck_PartialErrors :: "TronApprovalPartialError list"

section \<open>The service\<close>

record 'w approvalUpstream =
  up_Enabled :: bool
  up_USDTContract :: string
  up_ListApprovals :: "string \<Rightarrow> int \<Rightarrow> int \<Rightarrow> 'w \<Rightarrow> (go_error + ApprovalPage) \<times> 'w"
  up_RiskySpenders :: "string \<Rightarrow> 'w \<Rightarrow> (go_error + string go_set) \<times> 'w"
  up_Allowance :: "string \<Rightarrow> string \<Rightarrow> 'w \<Rightarrow> (go_error + int) \<times> 'w"
  up_USDTDecimals :: "string \<Rightarrow> 'w \<Rightarrow> (go_error + u32) \<times> 'w"

text \<open>The client of TRONSCAN and TronGrid as the upstream; its calls are made on a client that is not nil.\<close>

definition tron_upstream :: "'w TronClient \<Rightarrow> 'w approvalUpstream" where
  "tron_upstream c = \<lparr>up_Enabled = Enabled (Some c), up_USDTContract = USDTContract (Some c), up_ListApprovals = tron_ListApprovals c,
     up_RiskySpenders = tron_RiskySpenders c, up_Allowance = tron_Allowance c, up_USDTDecimals = tron_USDTDecimals c\<rparr>"

record 'w approvalCache =
  ca_Get :: "string \<Rightarrow> 'w \<Rightarrow> (go_error + string) \<times> 'w"
  ca_Set :: "string \<Rightarrow> string \<Rightarrow> int \<Rightarrow> 'w \<Rightarrow> go_error option \<times> 'w"

record 'w approvalUsage =
  uu_ReserveQuery :: "time \<Rightarrow> string \<Rightarrow> int \<Rightarrow> int \<Rightarrow> 'w \<Rightarrow> go_error option \<times> 'w"
  uu_ReserveUpstreamCall :: "time \<Rightarrow> int \<Rightarrow> 'w \<Rightarrow> go_error option \<times> 'w"
  uu_RecordResult :: "time \<Rightarrow> string \<Rightarrow> bool \<Rightarrow> 'w \<Rightarrow> go_error option \<times> 'w"

datatype log_severity = Warn | Error

record 'w TronApprovalService =
  as_upstream :: "'w approvalUpstream"
  as_cache :: "'w approvalCache"
  as_usage :: "'w approvalUsage"
  as_logger :: "log_severity \<Rightarrow> string \<Rightarrow> go_error \<Rightarrow> 'w \<Rightarrow> 'w"
  as_usageHMACKey :: string
  as_dailyQueryLimit :: int
  as_dailyAddressLimit :: int
  as_dailyUpstreamLimit :: int
  as_cacheTTL :: int
  as_pageSize :: int
  as_maxPages :: int
  as_maxSpenders :: int
  as_verifyWorkers :: int
  as_now :: "'w \<Rightarrow> time \<times> 'w"
  as_uuid :: "'w \<Rightarrow> string \<times> 'w"
  as_schedule :: "int \<Rightarrow> nat \<Rightarrow> 'w \<Rightarrow> nat list \<times> 'w"
  as_marshal :: "CheckResponse \<Rightarrow> go_error + string"
  as_unmarshal :: "string \<Rightarrow> go_error + CheckResponse"

text \<open>The constructor; \<open>platform\<close> has the clock, UUIDs, the schedule and the codec.\<close>

definition NewTronApprovalService :: "parse_duration \<Rightarrow> 'w approvalUpstream option \<Rightarrow> 'w approvalCache option \<Rightarrow> 'w approvalUsage option
    \<Rightarrow> (log_severity \<Rightarrow> string \<Rightarrow> go_error \<Rightarrow> 'w \<Rightarrow> 'w) option \<Rightarrow> TronApprovalConfig \<Rightarrow> 'w TronApprovalService \<Rightarrow> go_error + 'w TronApprovalService" where
  "NewTronApprovalService pd upstream cache usage logger cfg platform =
    (case (upstream, cache, usage, logger) of
       (Some upstream, Some cache, Some usage, Some logger) \<Rightarrow>
         (case pd (ta_CacheTTL cfg) of
            Inl err \<Rightarrow> Inl (InvalidArgument ''TRON approval cache TTL is invalid'')
          | Inr cacheTTL \<Rightarrow>
              if cacheTTL \<le> 0 then Inl (InvalidArgument ''TRON approval cache TTL is invalid'')
              else if ta_PageSize cfg < 1 \<or> 50 < ta_PageSize cfg \<or> ta_MaxPages cfg < 1 \<or> ta_MaxSpenders cfg < 1 \<or> ta_VerifyWorkers cfg < 1
              then Inl (InvalidArgument ''TRON approval query limits are invalid'')
              else if ta_Enabled cfg \<and> (length (ta_UsageHMACKey cfg) < 32 \<or> ta_DailyQueryLimit cfg \<le> 0
                  \<or> ta_DailyAddressLimit cfg \<le> 0 \<or> ta_DailyUpstreamCallLimit cfg \<le> 0)
              then Inl (InvalidArgument ''TRON approval usage budget configuration is invalid'')
              else Inr (platform\<lparr>as_upstream := upstream, as_cache := cache, as_usage := usage, as_logger := logger,
                as_usageHMACKey := ta_UsageHMACKey cfg, as_dailyQueryLimit := ta_DailyQueryLimit cfg,
                as_dailyAddressLimit := ta_DailyAddressLimit cfg, as_dailyUpstreamLimit := ta_DailyUpstreamCallLimit cfg,
                as_cacheTTL := cacheTTL, as_pageSize := ta_PageSize cfg, as_maxPages := ta_MaxPages cfg,
                as_maxSpenders := ta_MaxSpenders cfg, as_verifyWorkers := ta_VerifyWorkers cfg\<rparr>))
     | _ \<Rightarrow> Inl (InvalidArgument ''TRON approval service dependencies are incomplete''))"

section \<open>Helpers\<close>

definition maxUint256 :: int where
  "maxUint256 = 2 ^ 256 - 1"

primrec firstNonEmpty :: "string list \<Rightarrow> string" where
  "firstNonEmpty [] = []"
| "firstNonEmpty (v # vs) = (if TrimSpace v \<noteq> [] then TrimSpace v else firstNonEmpty vs)"

definition is_budget_error :: "go_error \<Rightarrow> bool" where
  "is_budget_error err \<longleftrightarrow> errors_Is err ErrDailyQueryLimit \<or> errors_Is err ErrDailyAddressLimit \<or> errors_Is err ErrDailyUpstreamLimit"

definition usageError :: "go_error \<Rightarrow> go_error" where
  "usageError err =
    (if is_budget_error err then TooManyRequests ''TRON daily query budget is exhausted''
     else Unavailable ''TRON usage budget storage is unavailable'')"

definition approvalStatusName :: "TronApprovalCheckStatus \<Rightarrow> string" where
  "approvalStatusName status =
    (case status of StatusSuccess \<Rightarrow> ''success'' | StatusPartial \<Rightarrow> ''partial'' | _ \<Rightarrow> ''failed'')"

definition partialError :: "go_error \<Rightarrow> string \<Rightarrow> string \<Rightarrow> string \<Rightarrow> TronApprovalPartialError" where
  "partialError err c message spender =
    \<lparr>pe_Code = (if errors_Is err ContextDeadlineExceeded then ''UPSTREAM_TIMEOUT'' else c), pe_Message = message,
     pe_Retryable = (\<not> errors_Is err ContextCanceled), pe_Spender = spender\<rparr>"

definition logBudgetError :: "'w TronApprovalService \<Rightarrow> string \<Rightarrow> go_error \<Rightarrow> 'w \<Rightarrow> 'w" where
  "logBudgetError s operation err w = as_logger s (if is_budget_error err then Warn else Error) operation err w"

text \<open>HMAC with SHA-256, block size 64; a string is its bytes.\<close>

definition bytes_of :: "string \<Rightarrow> byte list" where
  "bytes_of s = map (\<lambda>c. of_nat (of_char c)) s"

definition hmac_sha256 :: "byte list \<Rightarrow> byte list \<Rightarrow> byte list" where
  "hmac_sha256 key message =
    (let key = (if 64 < length key then Sum256 key else key);
         key = key @ replicate (64 - length key) 0
     in Sum256 (map (\<lambda>b. b XOR 0x5c) key @ Sum256 (map (\<lambda>b. b XOR 0x36) key @ message)))"

definition addressHMAC :: "'w TronApprovalService \<Rightarrow> string \<Rightarrow> string" where
  "addressHMAC s address = hex_EncodeToString (hmac_sha256 (bytes_of (as_usageHMACKey s)) (bytes_of address))"

definition approvalCacheKey :: "string \<Rightarrow> string" where
  "approvalCacheKey address = ''tron:usdt:approvals:'' @ hex_EncodeToString (Sum256 (bytes_of address))"

definition reserveUpstream :: "'w TronApprovalService \<Rightarrow> 'w \<Rightarrow> go_error option \<times> 'w" where
  "reserveUpstream s w =
    (let (now, w) = as_now s w;
         (err, w) = uu_ReserveUpstreamCall (as_usage s) now (as_dailyUpstreamLimit s) w
     in case err of None \<Rightarrow> (None, w) | Some e \<Rightarrow> (Some e, logBudgetError s ''reserve upstream budget'' e w))"

text \<open>An upstream call that is made only after its reservation.\<close>

definition reserved_call :: "'w TronApprovalService \<Rightarrow> ('w \<Rightarrow> (go_error + 'a) \<times> 'w) \<Rightarrow> 'w \<Rightarrow> (go_error + 'a) \<times> 'w" where
  "reserved_call s call w =
    (case reserveUpstream s w of (Some err, w) \<Rightarrow> (Inl err, w) | (None, w) \<Rightarrow> call w)"

section \<open>Enumeration\<close>

record enumeration =
  en_bySpender :: "(string \<times> ApprovalRecord) list"
  en_addressTypes :: "string \<rightharpoonup> TronSpenderType"
  en_names :: "string \<rightharpoonup> string"
  en_truncated :: bool
  en_errors :: "TronApprovalPartialError list"

definition name_of :: "(string \<rightharpoonup> string) \<Rightarrow> string \<Rightarrow> string" where
  "name_of names address = (case names address of None \<Rightarrow> [] | Some name \<Rightarrow> name)"

definition page_types :: "ApprovalPage \<Rightarrow> (string \<rightharpoonup> TronSpenderType) \<Rightarrow> (string \<rightharpoonup> TronSpenderType)" where
  "page_types page types = (\<lambda>address.
    case pg_ContractMap page address of
      None \<Rightarrow> types address
    | Some isContract \<Rightarrow> Some (if isContract then SpenderContract else SpenderAddress))"

definition page_names :: "ApprovalPage \<Rightarrow> (string \<rightharpoonup> string) \<Rightarrow> (string \<rightharpoonup> string)" where
  "page_names page names = (\<lambda>address.
    case pg_NormalAddressInfo page address of
      Some info \<Rightarrow> Some (firstNonEmpty [ai_PublicTag info, ai_Tag1 info, ai_Name info])
    | None \<Rightarrow>
        (case pg_ContractInfo page address of
           Some info \<Rightarrow> Some (firstNonEmpty [ai_Tag1 info, ai_PublicTag info, ai_Name info])
         | None \<Rightarrow> names address))"

text \<open>The body of the loop over the approvals of a page.\<close>

definition add_approval :: "'w TronApprovalService \<Rightarrow> string \<Rightarrow> ApprovalRecord \<Rightarrow> enumeration \<Rightarrow> enumeration" where
  "add_approval s owner approval e =
    (if rec_ContractAddress approval \<noteq> up_USDTContract (as_upstream s) \<or> rec_FromAddress approval \<noteq> owner then e
     else
       let spender = TrimSpace (rec_ToAddress approval)
       in if spender = [] \<or> spender = up_USDTContract (as_upstream s) then e
          else if map_of (en_bySpender e) spender \<noteq> None then e
          else if as_maxSpenders s \<le> int (length (en_bySpender e)) then e\<lparr>en_truncated := True\<rparr>
          else e\<lparr>en_bySpender := en_bySpender e @ [(spender, approval)],
                 en_names := (if name_of (en_names e) spender = [] then (en_names e)(spender \<mapsto> rec_ProjectName approval)
                   else en_names e)\<rparr>)"

definition add_page :: "'w TronApprovalService \<Rightarrow> string \<Rightarrow> ApprovalPage \<Rightarrow> enumeration \<Rightarrow> enumeration" where
  "add_page s owner page e =
    fold (add_approval s owner) (pg_Data page)
      (e\<lparr>en_addressTypes := page_types page (en_addressTypes e), en_names := page_names page (en_names e)\<rparr>)"

text \<open>The loop over the pages, with the number of pages left; the result says whether it is complete.\<close>

primrec enumerate_pages :: "nat \<Rightarrow> 'w TronApprovalService \<Rightarrow> string \<Rightarrow> int \<Rightarrow> enumeration \<Rightarrow> 'w \<Rightarrow> (enumeration \<times> bool) \<times> 'w" where
  "enumerate_pages 0 s owner start e w = ((e, False), w)"
| "enumerate_pages (Suc pagesLeft) s owner start e w =
    (case reserveUpstream s w of
       (Some err, w) \<Rightarrow>
         ((e\<lparr>en_errors := en_errors e @ [partialError err ''UPSTREAM_BUDGET_EXHAUSTED'' msg_budget []]\<rparr>, False), w)
     | (None, w) \<Rightarrow>
         (case up_ListApprovals (as_upstream s) owner start (as_pageSize s) w of
            (Inl err, w) \<Rightarrow>
              ((e\<lparr>en_errors := en_errors e @ [partialError err ''APPROVAL_ENUMERATION_FAILED'' msg_page []]\<rparr>, False), w)
          | (Inr page, w) \<Rightarrow>
              let e = add_page s owner page e;
                  count = length (pg_Data page);
                  start = start + int count
              in if count = 0 \<or> pg_Total page \<le> start then ((e, \<not> en_truncated e), w)
                 else enumerate_pages pagesLeft s owner start (if pagesLeft = 0 then e\<lparr>en_truncated := True\<rparr> else e) w))"

definition no_enumeration :: enumeration where
  "no_enumeration = \<lparr>en_bySpender = [], en_addressTypes = Map.empty, en_names = Map.empty, en_truncated = False, en_errors = []\<rparr>"

text \<open>The keys of the map are distinct, so that the order of its iteration does not matter to the sort.\<close>

definition by_address :: "ApprovalRecord \<Rightarrow> ApprovalRecord \<Rightarrow> bool" where
  "by_address a b \<longleftrightarrow> rec_ToAddress a < rec_ToAddress b"

definition enumerate_approvals :: "'w TronApprovalService \<Rightarrow> string \<Rightarrow> 'w \<Rightarrow> (enumeration \<times> ApprovalRecord list \<times> bool) \<times> 'w" where
  "enumerate_approvals s owner w =
    (case enumerate_pages (nat (as_maxPages s)) s owner 0 no_enumeration w of
       ((e, finished), w) \<Rightarrow>
         let (e, finished) =
           (if en_truncated e
            then (e\<lparr>en_errors := en_errors e @ [\<lparr>pe_Code = ''SCAN_LIMIT_REACHED'', pe_Message = msg_limit, pe_Retryable = False, pe_Spender = []\<rparr>]\<rparr>, False)
            else (e, finished))
         in ((e, sort_by by_address (map snd (en_bySpender e)), finished), w))"

section \<open>Verification\<close>

text \<open>The result before the allowance is known, and with it.\<close>

definition unverified :: "(string \<rightharpoonup> TronSpenderType) \<Rightarrow> (string \<rightharpoonup> string) \<Rightarrow> string go_set \<Rightarrow> bool \<Rightarrow> u32 \<Rightarrow> time \<Rightarrow> ApprovalRecord \<Rightarrow> TronUSDTApproval" where
  "unverified addressTypes names risky riskAvailable decimals checkedAt candidate =
    (let spender = rec_ToAddress candidate
     in \<lparr>au_Spender = spender,
         au_SpenderType = (case addressTypes spender of None \<Rightarrow> SpenderUnknown
           | Some t \<Rightarrow> if t = SpenderUnspecified then SpenderUnknown else t),
         au_DisplayName = firstNonEmpty [name_of names spender, unrecognised],
         au_RawAllowance = [], au_Decimals = decimals, au_DisplayAllowance = [], au_UnlimitedStatus = UnlimitedUnknown,
         au_AllowanceVerifiedAt = None,
         au_RiskLabels = (if riskAvailable \<and> spender \<in> set risky then [''TRONSCAN_KNOWN_RISK''] else []),
         au_RiskSource = (if riskAvailable then ''TRONSCAN'' else []),
         au_RiskCheckedAt = (if riskAvailable then Some checkedAt else None),
         au_AllowanceVerified = False, au_Active = False,
         au_OfficialDetailUrl = ''https://tronscan.org/#/address/'' @ spender\<rparr>)"

definition verified :: "time \<Rightarrow> ApprovalRecord \<Rightarrow> int \<Rightarrow> TronUSDTApproval \<Rightarrow> TronUSDTApproval" where
  "verified checkedAt candidate allowance result =
    result\<lparr>au_RawAllowance := int_to_string allowance,
      au_DisplayAllowance := formatUnits (Some allowance) (au_Decimals result),
      au_AllowanceVerified := True, au_AllowanceVerifiedAt := Some checkedAt, au_Active := 0 < allowance,
      au_UnlimitedStatus :=
        (let isMaximum = allowance = maxUint256
         in if isMaximum \<noteq> rec_Unlimited candidate then UnlimitedConflict
            else if isMaximum then UnlimitedUnlimited else UnlimitedFinite)\<rparr>"

text \<open>The steps of \<open>verifyOne\<close>: reserve, then read the allowance.\<close>

datatype verify_job = NotStarted | CallReserved | Verified TronUSDTApproval

definition verify_step :: "'w TronApprovalService \<Rightarrow> string \<Rightarrow> time \<Rightarrow> (ApprovalRecord \<Rightarrow> TronUSDTApproval) \<Rightarrow> ApprovalRecord
    \<Rightarrow> verify_job \<Rightarrow> 'w \<Rightarrow> verify_job \<times> 'w" where
  "verify_step s owner checkedAt base candidate job w =
    (case job of
       NotStarted \<Rightarrow>
         (case reserveUpstream s w of
            (Some err, w) \<Rightarrow> (Verified (base candidate), w)
          | (None, w) \<Rightarrow> (CallReserved, w))
     | CallReserved \<Rightarrow>
         (case up_Allowance (as_upstream s) owner (rec_ToAddress candidate) w of
            (Inl err, w) \<Rightarrow> (Verified (base candidate), w)
          | (Inr allowance, w) \<Rightarrow> (Verified (verified checkedAt candidate allowance (base candidate)), w))
     | Verified result \<Rightarrow> (job, w))"

definition verifyOne :: "'w TronApprovalService \<Rightarrow> string \<Rightarrow> time \<Rightarrow> (ApprovalRecord \<Rightarrow> TronUSDTApproval) \<Rightarrow> ApprovalRecord
    \<Rightarrow> 'w \<Rightarrow> verify_job \<times> 'w" where
  "verifyOne s owner checkedAt base candidate w =
    (case verify_step s owner checkedAt base candidate NotStarted w of (job, w) \<Rightarrow> verify_step s owner checkedAt base candidate job w)"

text \<open>The workers take the jobs in some interleaving of their steps, and every job is finished.\<close>

primrec run_schedule :: "nat list \<Rightarrow> (ApprovalRecord \<Rightarrow> verify_job \<Rightarrow> 'w \<Rightarrow> verify_job \<times> 'w) \<Rightarrow> ApprovalRecord list
    \<Rightarrow> verify_job list \<Rightarrow> 'w \<Rightarrow> verify_job list \<times> 'w" where
  "run_schedule [] step candidates jobs w = (jobs, w)"
| "run_schedule (i # is) step candidates jobs w =
    (if i < length candidates
     then case step (candidates ! i) (jobs ! i) w of (job, w) \<Rightarrow> run_schedule is step candidates (jobs[i := job]) w
     else run_schedule is step candidates jobs w)"

definition job_result :: "verify_job \<Rightarrow> TronUSDTApproval option" where
  "job_result job = (case job of Verified result \<Rightarrow> Some result | _ \<Rightarrow> None)"

definition by_risk :: "TronUSDTApproval \<Rightarrow> TronUSDTApproval \<Rightarrow> bool" where
  "by_risk a b \<longleftrightarrow>
    (let aRisk = 0 < length (au_RiskLabels a); bRisk = 0 < length (au_RiskLabels b)
     in if aRisk \<noteq> bRisk then aRisk else au_Spender a < au_Spender b)"

definition verifyAllowances :: "'w TronApprovalService \<Rightarrow> string \<Rightarrow> time \<Rightarrow> (ApprovalRecord \<Rightarrow> TronUSDTApproval) \<Rightarrow> ApprovalRecord list
    \<Rightarrow> 'w \<Rightarrow> (TronUSDTApproval list \<times> bool) \<times> 'w" where
  "verifyAllowances s owner checkedAt base candidates w =
    (let n = length candidates;
         workers = (if int n < as_verifyWorkers s then int n else as_verifyWorkers s);
         (schedule, w) = as_schedule s workers n w;
         (jobs, w) = run_schedule (schedule @ concat (map (\<lambda>i. [i, i]) [0..<n])) (verify_step s owner checkedAt base) candidates
           (replicate n NotStarted) w;
         approvals = map job_result jobs;
         finished = list_all (\<lambda>a. case a of None \<Rightarrow> False | Some a \<Rightarrow> au_AllowanceVerified a) approvals
     in ((sort_by by_risk (map the approvals), finished), w))"

section \<open>The check\<close>

definition loadCache :: "'w TronApprovalService \<Rightarrow> string \<Rightarrow> 'w \<Rightarrow> CheckResponse option \<times> 'w" where
  "loadCache s address w =
    (case ca_Get (as_cache s) (approvalCacheKey address) w of
       (Inl err, w) \<Rightarrow> (None, w)
     | (Inr payload, w) \<Rightarrow>
         if payload = [] then (None, w)
         else (case as_unmarshal s payload of Inl err \<Rightarrow> (None, w) | Inr response \<Rightarrow> (Some response, w)))"

definition storeCache :: "'w TronApprovalService \<Rightarrow> string \<Rightarrow> CheckResponse \<Rightarrow> 'w \<Rightarrow> 'w" where
  "storeCache s address response w =
    (case as_marshal s response of
       Inl err \<Rightarrow> w
     | Inr payload \<Rightarrow> snd (ca_Set (as_cache s) (approvalCacheKey address) payload (as_cacheTTL s) w))"

text \<open>The response before the verification and with its results.\<close>

definition started :: "'w TronApprovalService \<Rightarrow> string \<Rightarrow> string \<Rightarrow> time \<Rightarrow> enumeration \<Rightarrow> bool \<Rightarrow> CheckResponse" where
  "started s address requestID queriedAt e enumerationComplete =
    \<lparr>ck_RequestId = requestID, ck_Network = ''TRON_MAINNET'', ck_Address = address,
     ck_TokenContract = up_USDTContract (as_upstream s), ck_Status = StatusUnspecified,
     ck_EnumerationComplete = enumerationComplete, ck_AllowanceVerificationComplete = False, ck_RiskDataAvailable = False,
     ck_Truncated = en_truncated e, ck_Reason = [], ck_IsCached = False, ck_QueriedAt = Some queriedAt,
     ck_Approvals = [], ck_PartialErrors = en_errors e\<rparr>"

definition finished_with :: "CheckResponse \<Rightarrow> go_error + string go_set \<Rightarrow> go_error + u32 \<Rightarrow> TronUSDTApproval list \<Rightarrow> bool \<Rightarrow> CheckResponse" where
  "finished_with response risk dec approvals allowanceComplete =
    (let riskErrors = (case risk of Inr _ \<Rightarrow> [] | Inl err \<Rightarrow> [partialError err ''RISK_DATA_UNAVAILABLE'' msg_risk []]);
         decimalsErrors = (case dec of Inr _ \<Rightarrow> [] | Inl err \<Rightarrow> [partialError err ''TOKEN_DECIMALS_UNAVAILABLE'' msg_decimals []]);
         verificationComplete = (allowanceComplete \<and> (case dec of Inr _ \<Rightarrow> True | Inl err \<Rightarrow> False));
         allowanceErrors = map (\<lambda>a. \<lparr>pe_Code = ''ALLOWANCE_UNAVAILABLE'', pe_Message = msg_allowance, pe_Retryable = True,
           pe_Spender = au_Spender a\<rparr>) (filter (\<lambda>a. \<not> au_AllowanceVerified a) approvals);
         success = (ck_EnumerationComplete response \<and> verificationComplete)
     in response\<lparr>ck_RiskDataAvailable := (case risk of Inr _ \<Rightarrow> True | Inl _ \<Rightarrow> False), ck_Approvals := approvals,
          ck_AllowanceVerificationComplete := verificationComplete,
          ck_PartialErrors := ck_PartialErrors response @ riskErrors @ decimalsErrors @ allowanceErrors,
          ck_Status := (if success then StatusSuccess else StatusPartial),
          ck_Reason := (if success then reason_success else reason_partial)\<rparr>)"

text \<open>The risk labels and the decimals are read behind a reservation each; 6 decimals are the fallback.\<close>

definition check :: "'w TronApprovalService \<Rightarrow> string \<Rightarrow> 'w \<Rightarrow> (go_error + CheckResponse) \<times> 'w" where
  "check s address w =
    (if \<not> up_Enabled (as_upstream s) then (Inl (Unavailable ''TRON approval query is not enabled''), w)
     else
       let (queriedAt, w) = as_now s w;
           (requestID, w) = as_uuid s w;
           ((e, candidates, enumerationComplete), w) = enumerate_approvals s address w;
           response = started s address requestID queriedAt e enumerationComplete
       in if length candidates = 0 \<and> \<not> enumerationComplete
          then (Inr (response\<lparr>ck_Status := StatusFailed, ck_Reason := reason_enumeration_failed\<rparr>), w)
          else
            let (risk, w) = reserved_call s (up_RiskySpenders (as_upstream s) address) w;
                (dec, w) = reserved_call s (up_USDTDecimals (as_upstream s) address) w;
                ((approvals, allowanceComplete), w) = verifyAllowances s address queriedAt
                  (unverified (en_addressTypes e) (en_names e) (case risk of Inr spenders \<Rightarrow> spenders | Inl _ \<Rightarrow> [])
                    (case risk of Inr _ \<Rightarrow> True | Inl _ \<Rightarrow> False) (case dec of Inr d \<Rightarrow> d | Inl _ \<Rightarrow> 6) queriedAt) candidates w;
                response = finished_with response risk dec approvals allowanceComplete
            in (Inr response, storeCache s address response w))"

section \<open>The entry point\<close>

text \<open>
  The state has the addresses under check and the world. \<open>await\<close> waits for the active check of an address:
  the context ends first, or the check ends with an error or a response. The check itself runs with the mutex
  released, so that other requests find the address in the map.
\<close>

type_synonym 'w approval_state = "string list \<times> 'w"
type_synonym 'w await = "string \<Rightarrow> 'w approval_state \<Rightarrow> (go_error + (go_error + CheckResponse)) \<times> 'w approval_state"

definition record_result :: "'w TronApprovalService \<Rightarrow> time \<Rightarrow> string \<Rightarrow> bool \<Rightarrow> 'w \<Rightarrow> 'w" where
  "record_result s queryTime status isCached w = snd (uu_RecordResult (as_usage s) queryTime status isCached w)"

definition result_name :: "go_error + CheckResponse \<Rightarrow> string" where
  "result_name r = (case r of Inl err \<Rightarrow> ''failed'' | Inr response \<Rightarrow> approvalStatusName (ck_Status response))"

text \<open>A request that follows an active check, and one that makes the check.\<close>

definition follow :: "'w await \<Rightarrow> 'w TronApprovalService \<Rightarrow> string \<Rightarrow> time \<Rightarrow> 'w approval_state \<Rightarrow> (go_error + CheckResponse) \<times> 'w approval_state" where
  "follow await s address queryTime st =
    (case await address st of
       (Inl err, st) \<Rightarrow> (Inl err, st)
     | (Inr (Inl err), inflight, w) \<Rightarrow> (Inl err, inflight, record_result s queryTime ''failed'' False w)
     | (Inr (Inr response), inflight, w) \<Rightarrow>
         (case as_uuid s w of
            (requestID, w) \<Rightarrow>
              (Inr (response\<lparr>ck_RequestId := requestID\<rparr>), inflight,
               record_result s queryTime (approvalStatusName (ck_Status response)) False w)))"

definition lead :: "'w TronApprovalService \<Rightarrow> string \<Rightarrow> time \<Rightarrow> 'w approval_state \<Rightarrow> (go_error + CheckResponse) \<times> 'w approval_state" where
  "lead s address queryTime st =
    (let (inflight, w) = (address # fst st, snd st);
         (result, w) = check s address w
     in (result, removeAll address inflight, record_result s queryTime (result_name result) False w))"

definition CheckTronUSDTApprovals :: "'w await \<Rightarrow> 'w TronApprovalService \<Rightarrow> string option \<Rightarrow> 'w approval_state
    \<Rightarrow> (go_error + CheckResponse) \<times> 'w approval_state" where
  "CheckTronUSDTApprovals await s req st =
    (case req of
       None \<Rightarrow> (Inl (InvalidArgument ''request is nil''), st)
     | Some reqAddress \<Rightarrow>
         let address = TrimSpace reqAddress
         in case DecodeMainnetAddress address of
              Inl err \<Rightarrow> (Inl (InvalidArgument ''invalid TRON Base58Check address''), st)
            | Inr _ \<Rightarrow>
                if \<not> up_Enabled (as_upstream s) then (Inl (Unavailable ''TRON approval query is not enabled''), st)
                else
                  let (inflight, w) = st;
                      (queryTime, w) = as_now s w
                  in case uu_ReserveQuery (as_usage s) queryTime (addressHMAC s address) (as_dailyQueryLimit s) (as_dailyAddressLimit s) w of
                       (Some err, w) \<Rightarrow> (Inl (usageError err), inflight, logBudgetError s ''reserve query budget'' err w)
                     | (None, w) \<Rightarrow>
                         (case loadCache s address w of
                            (Some hit, w) \<Rightarrow>
                              (case as_uuid s w of
                                 (requestID, w) \<Rightarrow>
                                   (Inr (hit\<lparr>ck_RequestId := requestID, ck_IsCached := True\<rparr>), inflight,
                                    record_result s queryTime (approvalStatusName (ck_Status hit)) True w))
                          | (None, w) \<Rightarrow>
                              if address \<in> set inflight then follow await s address queryTime (inflight, w)
                              else lead s address queryTime (inflight, w)))"

end
