(* ===== verification/Approval_Check.thy ===== *)
theory Approval_Check
  imports Approval_Service
begin

text \<open>
  What an answer of the approval check means: the enumeration against the list of approvals that the provider
  holds, and the verification of every spender under every interleaving of the workers.
\<close>

section \<open>Enumeration\<close>

text \<open>The approvals that count: of the owner, on the token, to somebody else than the token.\<close>

definition relevant :: "'w TronApprovalService \<Rightarrow> string \<Rightarrow> ApprovalRecord \<Rightarrow> bool" where
  "relevant s owner a \<longleftrightarrow> rec_ContractAddress a = up_USDTContract (as_upstream s) \<and> rec_FromAddress a = owner
     \<and> TrimSpace (rec_ToAddress a) \<notin> {[], up_USDTContract (as_upstream s)}"

definition spender_of :: "ApprovalRecord \<Rightarrow> string" where
  "spender_of a = TrimSpace (rec_ToAddress a)"

definition spenders_of :: "'w TronApprovalService \<Rightarrow> string \<Rightarrow> ApprovalRecord list \<Rightarrow> string set" where
  "spenders_of s owner L = spender_of ` {a \<in> set L. relevant s owner a}"

text \<open>The enumeration after the records \<open>L\<close>.\<close>

definition enumerates :: "'w TronApprovalService \<Rightarrow> string \<Rightarrow> ApprovalRecord list \<Rightarrow> enumeration \<Rightarrow> bool" where
  "enumerates s owner L e \<longleftrightarrow>
     distinct (map fst (en_bySpender e)) \<and> int (length (en_bySpender e)) \<le> max 0 (as_maxSpenders s)
   \<and> (\<forall>(k, a) \<in> set (en_bySpender e). k = spender_of a \<and> relevant s owner a \<and> a \<in> set L)
   \<and> (\<not> en_truncated e \<longrightarrow> spenders_of s owner L \<subseteq> fst ` set (en_bySpender e))"

lemma enumerates_start: "enumerates s owner [] no_enumeration"
  by (simp add: enumerates_def no_enumeration_def spenders_of_def)

lemma enumerates_truncate: "enumerates s owner L e \<Longrightarrow> enumerates s owner L (e\<lparr>en_truncated := True\<rparr>)"
  by (auto simp: enumerates_def)

lemma spenders_snoc: "spenders_of s owner (L @ [a]) = (if relevant s owner a then {spender_of a} else {}) \<union> spenders_of s owner L"
  by (auto simp: spenders_of_def)

lemma add_approval_cases:
  "add_approval s owner a e =
    (if \<not> relevant s owner a then e
     else if map_of (en_bySpender e) (spender_of a) \<noteq> None then e
     else if as_maxSpenders s \<le> int (length (en_bySpender e)) then e\<lparr>en_truncated := True\<rparr>
     else e\<lparr>en_bySpender := en_bySpender e @ [(spender_of a, a)],
        en_names := (if name_of (en_names e) (spender_of a) = [] then (en_names e)(spender_of a \<mapsto> rec_ProjectName a) else en_names e)\<rparr>)"
  by (auto simp: add_approval_def relevant_def spender_of_def Let_def)

lemma enumerates_add:
  assumes "enumerates s owner L e"
  shows "enumerates s owner (L @ [a]) (add_approval s owner a e)"
proof (cases "relevant s owner a \<and> map_of (en_bySpender e) (spender_of a) = None")
  case True
  then have "spender_of a \<notin> fst ` set (en_bySpender e)" by (simp add: map_of_eq_None_iff)
  with True assms show ?thesis
    by (auto simp: add_approval_cases enumerates_def spenders_snoc)
next
  case False
  then have "relevant s owner a \<Longrightarrow> spender_of a \<in> fst ` set (en_bySpender e)" by (simp add: map_of_eq_None_iff)
  with False assms show ?thesis
    by (auto simp: add_approval_cases enumerates_def spenders_snoc)
qed

lemma enumerates_page:
  assumes "enumerates s owner L e"
  shows "enumerates s owner (L @ pg_Data page) (add_page s owner page e)"
proof -
  have "enumerates s owner (L @ as) (fold (add_approval s owner) as e)" if "enumerates s owner L e" for as e L
    using that
  proof (induction as arbitrary: e L)
    case (Cons a as)
    from Cons.IH [OF enumerates_add [OF Cons.prems], of a] show ?case by simp
  qed simp
  moreover have "enumerates s owner L (e\<lparr>en_addressTypes := t, en_names := n\<rparr>)" for t n
    using assms by (simp add: enumerates_def)
  ultimately show ?thesis unfolding add_page_def by blast
qed

text \<open>
  The provider holds the approvals \<open>L\<close> of the owner: it answers with a part of \<open>L\<close> from the requested position,
  empty only at the end, and with the length of \<open>L\<close>.
\<close>

definition lists_approvals :: "'w TronApprovalService \<Rightarrow> string \<Rightarrow> ApprovalRecord list \<Rightarrow> bool" where
  "lists_approvals s owner L \<longleftrightarrow>
     (\<forall>start w page w'. 0 \<le> start \<longrightarrow> up_ListApprovals (as_upstream s) owner start (as_pageSize s) w = (Inr page, w') \<longrightarrow>
        (\<exists>k. pg_Data page = take k (drop (nat start) L)) \<and> pg_Total page = int (length L)
      \<and> (pg_Data page = [] \<longrightarrow> length L \<le> nat start))"

lemma enumerate_pages_lists:
  assumes "lists_approvals s owner L" "enumerates s owner (take start L) e" "start \<le> length L"
    "enumerate_pages n s owner (int start) e w = ((e', finished), w')"
  shows "\<exists>m. enumerates s owner (take m L) e' \<and> (finished \<longrightarrow> length L \<le> m \<and> \<not> en_truncated e')"
  using assms(2-4)
proof (induction n arbitrary: start e w)
  case 0
  then show ?case by auto
next
  case (Suc n)
  obtain err w1 where r: "reserveUpstream s w = (err, w1)" by fastforce
  obtain res w2 where l: "up_ListApprovals (as_upstream s) owner (int start) (as_pageSize s) w1 = (res, w2)" by fastforce
  show ?case
  proof (cases "err = None \<and> (\<exists>page. res = Inr page)")
    case False
    with Suc.prems r l have "e' = e\<lparr>en_errors := en_errors e'\<rparr>" "\<not> finished"
      by (auto split: option.splits sum.splits)
    then have "enumerates s owner (take start L) e'" using Suc.prems(1)
      by (cases e; cases e') (simp add: enumerates_def)
    with \<open>\<not> finished\<close> show ?thesis by blast
  next
    case True
    then obtain page where page: "err = None" "res = Inr page" by blast
    obtain k where k: "pg_Data page = take k (drop start L)" and tot: "pg_Total page = int (length L)"
      and empty: "pg_Data page = [] \<longrightarrow> length L \<le> start"
      using assms(1) l unfolding page lists_approvals_def by (metis nat_int of_nat_0_le_iff)
    define stop where "stop = start + length (pg_Data page)"
    have stop: "stop \<le> length L" "take start L @ pg_Data page = take stop L"
      using Suc.prems(2) by (auto simp: stop_def k take_add min_def)
    have e1: "enumerates s owner (take stop L) (add_page s owner page e)"
      using enumerates_page [OF Suc.prems(1)] unfolding stop(2) [symmetric] .
    show ?thesis
    proof (cases "length (pg_Data page) = 0 \<or> pg_Total page \<le> int start + int (length (pg_Data page))")
      case True
      with Suc.prems(3) r l page have fin: "e' = add_page s owner page e" "finished = (\<not> en_truncated e')"
        by (auto simp: Let_def)
      have "length L \<le> stop" using True empty tot by (auto simp: stop_def)
      with e1 fin show ?thesis by blast
    next
      case False
      define e2 where "e2 = (if n = 0 then (add_page s owner page e)\<lparr>en_truncated := True\<rparr> else add_page s owner page e)"
      have "enumerate_pages n s owner (int stop) e2 w2 = ((e', finished), w')"
        using Suc.prems(3) r l page False by (simp add: Let_def stop_def e2_def)
      moreover have "enumerates s owner (take stop L) e2" using e1 enumerates_truncate [OF e1] by (simp add: e2_def)
      ultimately show ?thesis using Suc.IH stop(1) by blast
    qed
  qed
qed

lemma enumerate_approvals_lists:
  assumes lists: "lists_approvals s owner L" and run: "enumerate_approvals s owner w = ((e, candidates, finished), w')"
  shows "int (length candidates) \<le> max 0 (as_maxSpenders s)" "inj_on spender_of (set candidates)" "distinct candidates"
    "\<forall>a \<in> set candidates. relevant s owner a \<and> a \<in> set L"
    "finished \<Longrightarrow> spender_of ` set candidates = spenders_of s owner L \<and> \<not> en_truncated e"
proof -
  obtain e1 fin1 w1 where pages: "enumerate_pages (nat (as_maxPages s)) s owner (int 0) no_enumeration w = ((e1, fin1), w1)"
    by (metis surj_pair)
  have "enumerates s owner (take 0 L) no_enumeration" using enumerates_start by simp
  from enumerate_pages_lists [OF lists this _ pages] obtain m where m: "enumerates s owner (take m L) e1"
    and fin: "fin1 \<longrightarrow> length L \<le> m \<and> \<not> en_truncated e1" by auto
  have c: "candidates = sort_by by_address (map snd (en_bySpender e1))"
    and f: "finished = (fin1 \<and> \<not> en_truncated e1)" "en_truncated e = en_truncated e1"
    using run pages by (auto simp: enumerate_approvals_def Let_def split: if_splits)
  have inv: "distinct (map fst (en_bySpender e1))" "int (length (en_bySpender e1)) \<le> max 0 (as_maxSpenders s)"
    "\<And>k a. (k, a) \<in> set (en_bySpender e1) \<Longrightarrow> k = spender_of a \<and> relevant s owner a \<and> a \<in> set (take m L)"
    "\<not> en_truncated e1 \<longrightarrow> spenders_of s owner (take m L) \<subseteq> fst ` set (en_bySpender e1)"
    using m by (auto simp: enumerates_def)
  have fst_eq: "map fst (en_bySpender e1) = map spender_of (map snd (en_bySpender e1))"
    using inv(3) by (auto simp: map_eq_conv)
  have d: "distinct (map spender_of (map snd (en_bySpender e1)))" using inv(1) unfolding fst_eq .
  then show "distinct candidates" unfolding c distinct_sort_by by (simp only: distinct_map)
  from d show "inj_on spender_of (set candidates)" unfolding c set_sort_by distinct_map by blast
  show "int (length candidates) \<le> max 0 (as_maxSpenders s)" using inv(2) by (simp add: c)
  show "\<forall>a \<in> set candidates. relevant s owner a \<and> a \<in> set L"
    using inv(3) by (fastforce simp: c dest: in_set_takeD)
  have im: "spender_of ` set candidates = fst ` set (en_bySpender e1)"
    using arg_cong [OF fst_eq, of set] by (simp add: c image_image)
  show "spender_of ` set candidates = spenders_of s owner L \<and> \<not> en_truncated e" if finished
  proof -
    have "take m L = L" "\<not> en_truncated e1" using that f fin by auto
    with inv(3,4) show ?thesis unfolding im f(2) spenders_of_def by fastforce
  qed
qed

section \<open>Verification\<close>

text \<open>What a result of a candidate can be: the candidate without its allowance, or with one that the upstream gave.\<close>

definition result_of :: "'w TronApprovalService \<Rightarrow> string \<Rightarrow> time \<Rightarrow> (ApprovalRecord \<Rightarrow> TronUSDTApproval) \<Rightarrow> ApprovalRecord
    \<Rightarrow> TronUSDTApproval \<Rightarrow> bool" where
  "result_of s owner t base c r \<longleftrightarrow> r = base c
     \<or> (\<exists>allowance w w'. up_Allowance (as_upstream s) owner (rec_ToAddress c) w = (Inr allowance, w') \<and> r = verified t c allowance (base c))"

definition job_ok :: "'w TronApprovalService \<Rightarrow> string \<Rightarrow> time \<Rightarrow> (ApprovalRecord \<Rightarrow> TronUSDTApproval) \<Rightarrow> ApprovalRecord \<Rightarrow> verify_job \<Rightarrow> bool" where
  "job_ok s owner t base c job \<longleftrightarrow> (\<forall>r. job = Verified r \<longrightarrow> result_of s owner t base c r)"

text \<open>The steps that a job still needs.\<close>

definition steps_left :: "verify_job \<Rightarrow> nat" where
  "steps_left job = (case job of NotStarted \<Rightarrow> 2 | CallReserved \<Rightarrow> 1 | Verified r \<Rightarrow> 0)"

lemma verify_step_job:
  assumes "verify_step s owner t base c job w = (job', w')"
  shows "job_ok s owner t base c job \<Longrightarrow> job_ok s owner t base c job'" "steps_left job' \<le> steps_left job - 1"
proof -
  show "job_ok s owner t base c job'" if "job_ok s owner t base c job"
  proof (cases job)
    case CallReserved
    obtain r w1 where "up_Allowance (as_upstream s) owner (rec_ToAddress c) w = (r, w1)" by fastforce
    with assms CallReserved show ?thesis
      by (cases r) (auto simp: verify_step_def job_ok_def result_of_def)
  qed (use assms that in \<open>auto simp: verify_step_def job_ok_def result_of_def split: prod.splits option.splits\<close>)
  show "steps_left job' \<le> steps_left job - 1"
    using assms by (auto simp: verify_step_def steps_left_def split: prod.splits option.splits sum.splits verify_job.splits)
qed

lemma run_schedule_jobs:
  assumes "run_schedule is (verify_step s owner t base) cs jobs w = (jobs', w')" "length jobs = length cs"
    "\<forall>i < length cs. job_ok s owner t base (cs ! i) (jobs ! i)"
  shows "length jobs' = length cs \<and> (\<forall>i < length cs. job_ok s owner t base (cs ! i) (jobs' ! i)
    \<and> steps_left (jobs' ! i) \<le> steps_left (jobs ! i) - count_list is i)"
  using assms
proof (induction "is" arbitrary: jobs w)
  case (Cons j "is")
  show ?case
  proof (cases "j < length cs")
    case False
    with Cons show ?thesis by fastforce
  next
    case True
    obtain job w1 where st: "verify_step s owner t base (cs ! j) (jobs ! j) w = (job, w1)" by fastforce
    note step = verify_step_job [OF st]
    have run: "run_schedule is (verify_step s owner t base) cs (jobs[j := job]) w1 = (jobs', w')"
      using Cons.prems(1) True st by simp
    have ok: "\<forall>i < length cs. job_ok s owner t base (cs ! i) (jobs[j := job] ! i)"
      using Cons.prems(2,3) step(1) True by (auto simp: nth_list_update)
    from Cons.IH [OF run _ ok] Cons.prems(2)
    have IH: "length jobs' = length cs" "\<And>i. i < length cs \<Longrightarrow> job_ok s owner t base (cs ! i) (jobs' ! i)
        \<and> steps_left (jobs' ! i) \<le> steps_left (jobs[j := job] ! i) - count_list is i" by auto
    have "steps_left (jobs' ! i) \<le> steps_left (jobs ! i) - count_list (j # is) i" if "i < length cs" for i
    proof (cases "i = j")
      case True
      with IH(2) [OF that] step(2) that Cons.prems(2)
      have "steps_left (jobs' ! j) \<le> steps_left job - count_list is j" "steps_left job \<le> steps_left (jobs ! j) - 1" by simp_all
      then have "steps_left (jobs' ! j) \<le> steps_left (jobs ! j) - Suc (count_list is j)" by linarith
      with True show ?thesis by simp
    next
      case False
      with IH(2) [OF that] show ?thesis by simp
    qed
    with IH show ?thesis by blast
  qed
qed simp

lemma count_twice: "i < n \<Longrightarrow> 2 \<le> count_list (concat (map (\<lambda>i. [i, i]) [0..<n])) i"
  by (induction n) (auto simp: less_Suc_eq)

lemma steps_left_0: "steps_left job = 0 \<longleftrightarrow> (\<exists>r. job = Verified r)"
  by (cases job) (auto simp: steps_left_def)

text \<open>Risky spenders first, then by address: a strict weak order.\<close>

lemma by_risk_order: "by_risk a b \<Longrightarrow> \<not> by_risk b a" "\<not> by_risk b a \<Longrightarrow> \<not> by_risk c b \<Longrightarrow> \<not> by_risk c a"
  by (auto simp: by_risk_def Let_def split: if_splits)

lemma verifyAllowances_results:
  assumes "verifyAllowances s owner t base cs w = ((approvals, finished), w')"
  shows "\<exists>results. approvals = sort_by by_risk results \<and> length results = length cs
    \<and> (\<forall>i < length cs. result_of s owner t base (cs ! i) (results ! i))
    \<and> finished = (\<forall>r \<in> set results. au_AllowanceVerified r)"
proof -
  let ?n = "length cs"
  define workers where "workers = (if int ?n < as_verifyWorkers s then int ?n else as_verifyWorkers s)"
  obtain schedule w1 where sched: "as_schedule s workers ?n w = (schedule, w1)" by fastforce
  let ?all = "schedule @ concat (map (\<lambda>i. [i, i]) [0..<?n])"
  obtain jobs w2 where run: "run_schedule ?all (verify_step s owner t base) cs (replicate ?n NotStarted) w1 = (jobs, w2)" by fastforce
  from run_schedule_jobs [OF run] have jobs: "length jobs = ?n"
    and each: "\<And>i. i < ?n \<Longrightarrow> job_ok s owner t base (cs ! i) (jobs ! i) \<and> steps_left (jobs ! i) \<le> 2 - count_list ?all i"
    by (auto simp: job_ok_def steps_left_def)
  have ended: "\<exists>r. jobs ! i = Verified r \<and> result_of s owner t base (cs ! i) r" if "i < ?n" for i
  proof -
    have "steps_left (jobs ! i) = 0" using each [OF that] count_twice [OF that] by simp
    with each [OF that] show ?thesis by (auto simp: steps_left_0 job_ok_def)
  qed
  define results where "results = map (the \<circ> job_result) jobs"
  have r: "result_of s owner t base (cs ! i) (results ! i)" if "i < ?n" for i
    using ended [OF that] that jobs by (auto simp: results_def job_result_def)
  have "map job_result jobs = map Some results"
  proof (rule nth_equalityI)
    show "map job_result jobs ! i = map Some results ! i" if "i < length (map job_result jobs)" for i
      using ended [of i] that jobs by (auto simp: results_def job_result_def)
  qed (simp add: results_def)
  moreover have "approvals = sort_by by_risk (map the (map job_result jobs))"
    "finished = list_all (\<lambda>a. case a of None \<Rightarrow> False | Some a \<Rightarrow> au_AllowanceVerified a) (map job_result jobs)"
    using assms sched run by (simp_all add: verifyAllowances_def Let_def workers_def [symmetric])
  ultimately have "approvals = sort_by by_risk results" "finished = (\<forall>r \<in> set results. au_AllowanceVerified r)"
    by (simp_all add: list_all_iff comp_def)
  with r jobs show ?thesis by (intro exI [of _ results]) (simp add: results_def)
qed

section \<open>The answer\<close>

text \<open>The two ways a check answers: the enumeration failed, or the candidates were verified.\<close>

definition failed_check :: "CheckResponse \<Rightarrow> bool" where
  "failed_check r \<longleftrightarrow> ck_Status r = StatusFailed \<and> \<not> ck_EnumerationComplete r \<and> ck_Approvals r = []"

definition verified_check :: "bool \<Rightarrow> TronUSDTApproval list \<Rightarrow> bool \<Rightarrow> CheckResponse \<Rightarrow> bool" where
  "verified_check finished approvals all_verified r \<longleftrightarrow>
     ck_EnumerationComplete r = finished \<and> ck_Approvals r = approvals \<and> (ck_AllowanceVerificationComplete r \<longrightarrow> all_verified)
   \<and> ck_Status r = (if ck_EnumerationComplete r \<and> ck_AllowanceVerificationComplete r then StatusSuccess else StatusPartial)
   \<and> (\<forall>a \<in> set approvals. \<not> au_AllowanceVerified a \<longrightarrow>
        (\<exists>p \<in> set (ck_PartialErrors r). pe_Code p = ''ALLOWANCE_UNAVAILABLE'' \<and> pe_Spender p = au_Spender a))"

lemma finished_with_check:
  "verified_check finished approvals all_verified (finished_with (started s address i t e finished) risk dec approvals all_verified)"
  "ck_Truncated (finished_with (started s address i t e finished) risk dec approvals all_verified) = en_truncated e"
proof -
  show "verified_check finished approvals all_verified (finished_with (started s address i t e finished) risk dec approvals all_verified)"
    unfolding verified_check_def finished_with_def started_def Let_def
    by (auto intro!: bexI [where x = "\<lparr>pe_Code = ''ALLOWANCE_UNAVAILABLE'', pe_Message = msg_allowance, pe_Retryable = True,
      pe_Spender = au_Spender a\<rparr>" for a])
qed (simp add: finished_with_def started_def Let_def)

lemma check_cases:
  assumes "check s address w = (Inr r, w')"
  shows "\<exists>w1 e cs finished w2. enumerate_approvals s address w1 = ((e, cs, finished), w2) \<and> ck_Truncated r = en_truncated e
    \<and> (failed_check r
      \<or> (\<exists>t base w3 approvals all_verified w4. verifyAllowances s address t base cs w3 = ((approvals, all_verified), w4)
          \<and> (\<forall>c. au_Spender (base c) = rec_ToAddress c \<and> \<not> au_AllowanceVerified (base c))
          \<and> verified_check finished approvals all_verified r))"
proof -
  obtain queriedAt wa where a: "as_now s w = (queriedAt, wa)" by fastforce
  obtain requestID w1 where b: "as_uuid s wa = (requestID, w1)" by fastforce
  obtain e cs finished w2 where en: "enumerate_approvals s address w1 = ((e, cs, finished), w2)" by (metis surj_pair)
  obtain risk w3 where risk: "reserved_call s (up_RiskySpenders (as_upstream s) address) w2 = (risk, w3)" by fastforce
  obtain dec w4 where dec: "reserved_call s (up_USDTDecimals (as_upstream s) address) w3 = (dec, w4)" by fastforce
  define base where "base = unverified (en_addressTypes e) (en_names e) (case risk of Inr spenders \<Rightarrow> spenders | Inl _ \<Rightarrow> [])
    (case risk of Inr _ \<Rightarrow> True | Inl _ \<Rightarrow> False) (case dec of Inr d \<Rightarrow> d | Inl _ \<Rightarrow> 6) queriedAt"
  obtain approvals all_verified w5 where ver: "verifyAllowances s address queriedAt base cs w4 = ((approvals, all_verified), w5)"
    by (metis surj_pair)
  have base: "\<forall>c. au_Spender (base c) = rec_ToAddress c \<and> \<not> au_AllowanceVerified (base c)"
    by (simp add: base_def unverified_def Let_def)
  note eq = assms [unfolded check_def Let_def a b en risk dec prod.case, folded base_def, unfolded ver prod.case]
  have en': "up_Enabled (as_upstream s)" using eq by (auto split: if_splits)
  show ?thesis
  proof (cases "cs = [] \<and> \<not> finished")
    case True
    with eq en' have "failed_check r \<and> ck_Truncated r = en_truncated e" by (auto simp: failed_check_def started_def)
    with en show ?thesis by blast
  next
    case False
    with eq en' have r: "r = finished_with (started s address requestID queriedAt e finished) risk dec approvals all_verified"
      by simp
    have "verified_check finished approvals all_verified r \<and> ck_Truncated r = en_truncated e"
      unfolding r using finished_with_check by blast
    with en ver base show ?thesis by blast
  qed
qed

text \<open>What is shown of a spender: an allowance that the upstream gave for it, or none.\<close>

definition shows_allowance :: "'w TronApprovalService \<Rightarrow> string \<Rightarrow> TronUSDTApproval \<Rightarrow> bool" where
  "shows_allowance s owner a \<longleftrightarrow> au_AllowanceVerified a \<longrightarrow>
     (\<exists>allowance w w'. up_Allowance (as_upstream s) owner (au_Spender a) w = (Inr allowance, w')
        \<and> au_RawAllowance a = int_to_string allowance \<and> au_DisplayAllowance a = formatUnits (Some allowance) (au_Decimals a)
        \<and> (au_Active a \<longleftrightarrow> 0 < allowance))"

text \<open>C34: A check succeeds exactly if both the enumeration and the verification are complete, and then it shows
  every spender that the provider lists for the owner's USDT, each with an allowance read from the upstream. In
  any case it shows relevant spenders only, each once, at most the configured number, risky ones first and then
  by address, and it reports every spender whose allowance could not be verified.\<close>

theorem check_complete:
  assumes new: "NewTronApprovalService pd up ca us lg cfg platform = Inr s"
    and lists: "lists_approvals s address L" and run: "check s address w = (Inr r, w')"
  shows "(ck_Status r = StatusSuccess \<longleftrightarrow> ck_EnumerationComplete r \<and> ck_AllowanceVerificationComplete r)
    \<and> (ck_Status r = StatusSuccess \<longrightarrow> TrimSpace ` au_Spender ` set (ck_Approvals r) = spenders_of s address L
        \<and> (\<forall>a \<in> set (ck_Approvals r). au_AllowanceVerified a) \<and> \<not> ck_Truncated r)
    \<and> TrimSpace ` au_Spender ` set (ck_Approvals r) \<subseteq> spenders_of s address L
    \<and> distinct (map au_Spender (ck_Approvals r)) \<and> int (length (ck_Approvals r)) \<le> as_maxSpenders s
    \<and> sorted_wrt (\<lambda>a b. \<not> by_risk b a) (ck_Approvals r)
    \<and> (\<forall>a \<in> set (ck_Approvals r). shows_allowance s address a \<and> (\<not> au_AllowanceVerified a \<longrightarrow>
        (\<exists>p \<in> set (ck_PartialErrors r). pe_Code p = ''ALLOWANCE_UNAVAILABLE'' \<and> pe_Spender p = au_Spender a)))"
proof -
  have max: "1 \<le> as_maxSpenders s"
    using new by (auto simp: NewTronApprovalService_def split: option.splits sum.splits if_splits)
  obtain w1 e cs finished w2 where en: "enumerate_approvals s address w1 = ((e, cs, finished), w2)"
    and tr: "ck_Truncated r = en_truncated e"
    and cases: "failed_check r \<or> (\<exists>t base w3 approvals all_verified w4. verifyAllowances s address t base cs w3 = ((approvals, all_verified), w4)
          \<and> (\<forall>c. au_Spender (base c) = rec_ToAddress c \<and> \<not> au_AllowanceVerified (base c))
          \<and> verified_check finished approvals all_verified r)"
    using check_cases [OF run] by blast
  note enum = enumerate_approvals_lists [OF lists en]
  show ?thesis using cases
  proof (elim disjE exE conjE)
    assume "failed_check r"
    with max show ?thesis by (simp add: failed_check_def)
  next
    fix t base w3 approvals all_verified w4
    assume ver: "verifyAllowances s address t base cs w3 = ((approvals, all_verified), w4)"
      and base: "\<forall>c. au_Spender (base c) = rec_ToAddress c \<and> \<not> au_AllowanceVerified (base c)"
      and r: "verified_check finished approvals all_verified r"
    from verifyAllowances_results [OF ver] obtain results where res: "approvals = sort_by by_risk results" "length results = length cs"
      "\<And>i. i < length cs \<Longrightarrow> result_of s address t base (cs ! i) (results ! i)"
      "all_verified = (\<forall>a \<in> set results. au_AllowanceVerified a)" by blast
    have sp: "au_Spender (results ! i) = rec_ToAddress (cs ! i)" "shows_allowance s address (results ! i)" if "i < length cs" for i
      using res(3) [OF that] base by (auto simp: result_of_def shows_allowance_def verified_def) blast
    have map_sp: "map au_Spender results = map rec_ToAddress cs"
      by (rule nth_equalityI) (simp_all add: res(2) sp)
    have trim: "TrimSpace ` au_Spender ` set approvals = spender_of ` set cs"
      using arg_cong [OF map_sp, of "\<lambda>xs. TrimSpace ` set xs"] by (simp add: res(1) spender_of_def [abs_def] image_image)
    have "inj_on rec_ToAddress (set cs)" using enum(2) by (auto simp: inj_on_def spender_of_def)
    then have d: "distinct (map au_Spender results)" unfolding map_sp distinct_map using enum(3) by blast
    then have "distinct (map au_Spender approvals)" unfolding res(1) distinct_map set_sort_by distinct_sort_by .
    moreover have "sorted_wrt (\<lambda>a b. \<not> by_risk b a) approvals"
      unfolding res(1) using by_risk_order by (rule sorted_sort_by)
    moreover have "\<forall>a \<in> set approvals. shows_allowance s address a"
      using sp(2) by (auto simp: res(1,2) in_set_conv_nth)
    moreover have "spender_of ` set cs \<subseteq> spenders_of s address L" using enum(4) by (auto simp: spenders_of_def)
    moreover have "finished \<longrightarrow> spender_of ` set cs = spenders_of s address L \<and> \<not> en_truncated e" using enum(5) by blast
    moreover have "int (length approvals) \<le> as_maxSpenders s" using enum(1) max by (simp add: res(1,2))
    moreover have "all_verified \<longrightarrow> (\<forall>a \<in> set approvals. au_AllowanceVerified a)" by (simp add: res)
    ultimately show ?thesis using r trim tr unfolding verified_check_def by (auto split: if_splits)
  qed
qed

text \<open>Two approvals to two spenders on one page, one of them risky, with two workers.\<close>

definition sample_record :: "string \<Rightarrow> bool \<Rightarrow> ApprovalRecord" where
  "sample_record spender unlimited = \<lparr>rec_Amount = [], rec_Unlimited = unlimited, rec_FromAddress = ''me'', rec_ToAddress = spender,
     rec_ContractAddress = ''usdt'', rec_TokenInfo = \<lparr>tk_TokenID = [], tk_TokenDecimal = 6, tk_TokenLevel = []\<rparr>,
     rec_ProjectName = ''dex'', rec_OperateTime = 0\<rparr>"

definition sample_upstream :: "'w approvalUpstream" where
  "sample_upstream = \<lparr>up_Enabled = True, up_USDTContract = ''usdt'',
     up_ListApprovals = (\<lambda>owner start n w. (Inr \<lparr>pg_Total = 2, pg_RangeTotal = 2,
       pg_Data = drop (nat start) [sample_record ''a'' False, sample_record ''b'' True],
       pg_ContractMap = [''a'' \<mapsto> True], pg_ContractInfo = Map.empty, pg_NormalAddressInfo = Map.empty\<rparr>, w)),
     up_RiskySpenders = (\<lambda>owner w. (Inr [''b''], w)),
     up_Allowance = (\<lambda>owner spender w. (Inr (if spender = ''b'' then 7 else 15), w)),
     up_USDTDecimals = (\<lambda>owner w. (Inr 6, w))\<rparr>"

definition sample_usage_of :: "'w approvalUsage" where
  "sample_usage_of = \<lparr>uu_ReserveQuery = (\<lambda>t h a b w. (None, w)), uu_ReserveUpstreamCall = (\<lambda>t l w. (None, w)),
     uu_RecordResult = (\<lambda>t n c w. (None, w))\<rparr>"

definition sample_cache_of :: "'w approvalCache" where
  "sample_cache_of = \<lparr>ca_Get = (\<lambda>k w. (Inl (Sentinel RedisNil), w)), ca_Set = (\<lambda>k v t w. (None, w))\<rparr>"

definition sample_approval_config :: TronApprovalConfig where
  "sample_approval_config = \<lparr>ta_Enabled = True, ta_TronScanBaseURL = [], ta_TronGridBaseURL = [], ta_APIKey = [], ta_USDTContract = ''usdt'',
     ta_CacheTTL = ''60s'', ta_RequestTimeout = ''5s'', ta_PageSize = 50, ta_MaxPages = 2, ta_MaxSpenders = 10, ta_VerifyWorkers = 2,
     ta_UsageHMACKey = replicate 32 (CHR ''k''), ta_DailyQueryLimit = 5, ta_DailyAddressLimit = 5, ta_DailyUpstreamCallLimit = 50\<rparr>"

definition sample_approval_service :: "'w approvalUsage \<Rightarrow> 'w TronApprovalService" where
  "sample_approval_service usage = \<lparr>as_upstream = sample_upstream, as_cache = sample_cache_of, as_usage = usage, as_logger = (\<lambda>l o' e w. w),
     as_usageHMACKey = replicate 32 (CHR ''k''), as_dailyQueryLimit = 5, as_dailyAddressLimit = 5, as_dailyUpstreamLimit = 50,
     as_cacheTTL = 60, as_pageSize = 50, as_maxPages = 2, as_maxSpenders = 10, as_verifyWorkers = 2, as_now = (\<lambda>w. (0, w)),
     as_uuid = (\<lambda>w. (''id'', w)), as_schedule = (\<lambda>k n w. ([1, 0, 1, 0], w)), as_marshal = (\<lambda>r. Inl (PlainErr [])),
     as_unmarshal = (\<lambda>s. Inl (PlainErr []))\<rparr>"

lemma sample_new_approval:
  "NewTronApprovalService (\<lambda>s. Inr 60) (Some sample_upstream) (Some sample_cache_of) (Some usage) (Some (\<lambda>l o' e w. w))
    sample_approval_config (sample_approval_service usage) = Inr (sample_approval_service usage)"
  by (simp add: NewTronApprovalService_def sample_approval_config_def sample_approval_service_def)

lemma sample_check:
  "(case fst (check (sample_approval_service sample_usage_of) ''me'' ()) of Inl e \<Rightarrow> None | Inr r \<Rightarrow> Some (ck_Status r, map au_Spender (ck_Approvals r)))
    = Some (StatusSuccess, [''b'', ''a''])"
  by code_simp

theorem check_complete_witness:
  "\<exists>r w'. check (sample_approval_service sample_usage_of) ''me'' () = (Inr r, w') \<and> ck_Status r = StatusSuccess
    \<and> map au_Spender (ck_Approvals r) = [''b'', ''a'']
    \<and> spenders_of (sample_approval_service sample_usage_of :: unit TronApprovalService) ''me'' [sample_record ''a'' False, sample_record ''b'' True]
        = TrimSpace ` {''a'', ''b''}"
proof -
  let ?s = "sample_approval_service sample_usage_of :: unit TronApprovalService"
  have lists: "lists_approvals ?s ''me'' [sample_record ''a'' False, sample_record ''b'' True]"
  proof -
    have "\<exists>k. drop n xs = take k (drop n xs)" for n and xs :: "ApprovalRecord list" by (metis take_all order_refl)
    then show ?thesis
      unfolding lists_approvals_def sample_approval_service_def sample_upstream_def by (auto simp del: drop_Cons' drop_Suc_Cons)
  qed
  obtain r w' where run: "check ?s ''me'' () = (Inr r, w')" and r: "ck_Status r = StatusSuccess" "map au_Spender (ck_Approvals r) = [''b'', ''a'']"
    using sample_check by (cases "check ?s ''me'' ()"; cases "fst (check ?s ''me'' ())") auto
  have "set (map au_Spender (ck_Approvals r)) = {''a'', ''b''}" unfolding r(2) by auto
  then have "au_Spender ` set (ck_Approvals r) = {''a'', ''b''}" by simp
  moreover have "TrimSpace ` au_Spender ` set (ck_Approvals r)
      = spenders_of ?s ''me'' [sample_record ''a'' False, sample_record ''b'' True]"
    using check_complete [OF sample_new_approval lists run] r(1) by blast
  ultimately show ?thesis using run r by (intro exI [of _ r] exI [of _ w']) simp
qed

end
