(* ===== verification/Approval_Budget.thy ===== *)
theory Approval_Budget
  imports Approval_Check
begin

text \<open>
  The calls that the approval service makes to the paid providers against the reservations in the usage tables.
  \<open>approval_usage\<close> is the interface between them: a limit on the reservations of a day, and a total of what has
  been reserved. The service never makes a call that was not reserved, however its workers interleave.
\<close>

section \<open>The interface\<close>

locale approval_usage =
  fixes U :: "'w approvalUsage" and good :: "'w \<Rightarrow> bool" and spent :: "'w \<Rightarrow> int" and limit :: int
  assumes query: "good w \<Longrightarrow> uu_ReserveQuery U t h ql al w = (err, w') \<Longrightarrow> good w' \<and> spent w' = spent w"
    and reserve: "good w \<Longrightarrow> uu_ReserveUpstreamCall U t limit w = (err, w') \<Longrightarrow>
      good w' \<and> spent w' = spent w + (if err = None then 1 else 0)"
    and result: "good w \<Longrightarrow> uu_RecordResult U t status hit w = (err, w') \<Longrightarrow> good w' \<and> spent w' = spent w"

text \<open>
  A counter of provider calls: every call of the upstream is one at most, and nothing else is. The rest of the
  world leaves the tables alone.
\<close>

definition quiet :: "('w \<Rightarrow> bool) \<Rightarrow> ('w \<Rightarrow> int) \<Rightarrow> ('w \<Rightarrow> int) \<Rightarrow> int \<Rightarrow> 'w \<Rightarrow> 'w \<Rightarrow> bool" where
  "quiet good spent made n w w' \<longleftrightarrow> (good w \<longrightarrow> good w' \<and> spent w' = spent w) \<and> made w \<le> made w' \<and> made w' \<le> made w + n"

definition counts_calls :: "'w TronApprovalService \<Rightarrow> ('w \<Rightarrow> bool) \<Rightarrow> ('w \<Rightarrow> int) \<Rightarrow> ('w \<Rightarrow> int) \<Rightarrow> bool" where
  "counts_calls s good spent made \<longleftrightarrow>
     (\<forall>a i n w. quiet good spent made 1 w (snd (up_ListApprovals (as_upstream s) a i n w)))
   \<and> (\<forall>a w. quiet good spent made 1 w (snd (up_RiskySpenders (as_upstream s) a w)))
   \<and> (\<forall>a b w. quiet good spent made 1 w (snd (up_Allowance (as_upstream s) a b w)))
   \<and> (\<forall>a w. quiet good spent made 1 w (snd (up_USDTDecimals (as_upstream s) a w)))
   \<and> (\<forall>k w. quiet good spent made 0 w (snd (ca_Get (as_cache s) k w)))
   \<and> (\<forall>k v t w. quiet good spent made 0 w (snd (ca_Set (as_cache s) k v t w)))
   \<and> (\<forall>l op e w. quiet good spent made 0 w (as_logger s l op e w))
   \<and> (\<forall>w. quiet good spent made 0 w (snd (as_now s w)))
   \<and> (\<forall>w. quiet good spent made 0 w (snd (as_uuid s w)))
   \<and> (\<forall>k n w. quiet good spent made 0 w (snd (as_schedule s k n w)))
   \<and> (\<forall>t h ql al w. made (snd (uu_ReserveQuery (as_usage s) t h ql al w)) = made w)
   \<and> (\<forall>t l w. made (snd (uu_ReserveUpstreamCall (as_usage s) t l w)) = made w)
   \<and> (\<forall>t st h w. made (snd (uu_RecordResult (as_usage s) t st h w)) = made w)"

text \<open>The client of the providers counts its HTTP requests: it makes one per call, or none for a bad address.\<close>

lemma quiet_refl: "quiet good spent made 0 w w" "quiet good spent made 1 w w"
  by (simp_all add: quiet_def)

lemma doJSON_calls:
  assumes "\<And>req w. quiet good spent made 1 w (snd (tc_Do c req w))"
  shows "quiet good spent made 1 w (snd (doJSON c meth endpoint body decode w))"
proof -
  have "snd (doJSON c meth endpoint body decode w)
      = snd (tc_Do c \<lparr>hr_Method = meth, hr_URL = endpoint, hr_Header = request_headers c body, hr_Body = body\<rparr> w)"
    by (auto simp: doJSON_def split: prod.split sum.split)
  with assms show ?thesis by simp
qed

lemma tron_client_calls:
  assumes do_request: "\<And>req w. quiet good spent made 1 w (snd (tc_Do c req w))"
  shows "quiet good spent made 1 w (snd (up_ListApprovals (tron_upstream c) a i n w))"
    "quiet good spent made 1 w (snd (up_RiskySpenders (tron_upstream c) a w))"
    "quiet good spent made 1 w (snd (up_Allowance (tron_upstream c) a b w))"
    "quiet good spent made 1 w (snd (up_USDTDecimals (tron_upstream c) a w))"
proof -
  note json = doJSON_calls [where good = good and spent = spent and made = made, OF do_request]
  have const: "quiet good spent made 1 w (snd (constantUint256 c body w))" for body w
  proof -
    have "snd (constantUint256 c body w) = snd (doJSON c ''POST'' (resolve (tc_tronGridBase c) ''/wallet/triggerconstantcontract'')
        (Some body) (json_constant (tc_json c)) w)"
      by (auto simp: constantUint256_def split: prod.split sum.split option.split)
    with json show ?thesis by simp
  qed
  show "quiet good spent made 1 w (snd (up_ListApprovals (tron_upstream c) a i n w))"
    using json by (simp add: tron_upstream_def tron_ListApprovals_def)
  show "quiet good spent made 1 w (snd (up_RiskySpenders (tron_upstream c) a w))"
    by (simp add: tron_upstream_def tron_RiskySpenders_def case_prod_beta doJSON_calls [OF do_request] split: sum.split)
  show "quiet good spent made 1 w (snd (up_Allowance (tron_upstream c) a b w))"
    using const quiet_refl(2) by (auto simp: tron_upstream_def tron_Allowance_def split: sum.split)
  show "quiet good spent made 1 w (snd (up_USDTDecimals (tron_upstream c) a w))"
    using const by (simp add: tron_upstream_def tron_USDTDecimals_def case_prod_beta split: sum.split)
qed

text \<open>A step frees \<open>d\<close> reservations at least and makes \<open>m\<close> calls at most.\<close>

definition ledger :: "('w \<Rightarrow> bool) \<Rightarrow> ('w \<Rightarrow> int) \<Rightarrow> ('w \<Rightarrow> int) \<Rightarrow> int \<Rightarrow> int \<Rightarrow> 'w \<Rightarrow> 'w \<Rightarrow> bool" where
  "ledger good spent made d m w w' \<longleftrightarrow>
     (good w \<longrightarrow> good w' \<and> spent w - made w + d \<le> spent w' - made w' \<and> made w' \<le> made w + m)"

lemma ledger_refl: "ledger good spent made 0 0 w w"
  by (simp add: ledger_def)

lemma ledger_trans: "ledger good spent made d m w w1 \<Longrightarrow> ledger good spent made d' m' w1 w2 \<Longrightarrow> ledger good spent made (d + d') (m + m') w w2"
  by (auto simp: ledger_def)

lemma ledger_weaken: "ledger good spent made d m w w1 \<Longrightarrow> d' \<le> d \<Longrightarrow> m \<le> m' \<Longrightarrow> ledger good spent made d' m' w w1"
  by (auto simp: ledger_def)

lemma quiet_ledger: "quiet good spent made n w w' \<Longrightarrow> ledger good spent made (- n) n w w'"
  by (simp add: quiet_def ledger_def)

section \<open>The operations of the service\<close>

definition reserved_jobs :: "verify_job list \<Rightarrow> int" where
  "reserved_jobs jobs = sum_list (map (\<lambda>j. if j = CallReserved then 1 else 0) jobs)"

definition open_jobs :: "verify_job list \<Rightarrow> int" where
  "open_jobs jobs = sum_list (map (\<lambda>j. if steps_left j = 0 then 0 else 1) jobs)"

lemma jobs_update:
  assumes "i < length jobs"
  shows "reserved_jobs (jobs[i := j]) = reserved_jobs jobs + (if j = CallReserved then 1 else 0) - (if jobs ! i = CallReserved then 1 else 0)"
    "open_jobs (jobs[i := j]) = open_jobs jobs + (if steps_left j = 0 then 0 else 1) - (if steps_left (jobs ! i) = 0 then 0 else 1)"
proof -
  have "sum_list (map f (jobs[i := j])) = sum_list (map f jobs) + f j - f (jobs ! i)" for f :: "verify_job \<Rightarrow> int"
    using assms by (induction jobs arbitrary: i) (auto simp: nth_Cons split: nat.splits)
  then show "reserved_jobs (jobs[i := j]) = reserved_jobs jobs + (if j = CallReserved then 1 else 0) - (if jobs ! i = CallReserved then 1 else 0)"
    "open_jobs (jobs[i := j]) = open_jobs jobs + (if steps_left j = 0 then 0 else 1) - (if steps_left (jobs ! i) = 0 then 0 else 1)"
    unfolding reserved_jobs_def open_jobs_def by blast+
qed

lemma jobs_bounds: "0 \<le> reserved_jobs jobs" "0 \<le> open_jobs jobs"
  by (auto simp: reserved_jobs_def open_jobs_def intro!: sum_list_nonneg)

lemma jobs_start: "reserved_jobs (replicate n NotStarted) = 0" "open_jobs (replicate n NotStarted) = int n"
  by (induction n) (simp_all add: reserved_jobs_def open_jobs_def steps_left_def)

text \<open>The candidates of an enumeration are bounded whatever the provider answers.\<close>

lemma enumerate_pages_enumerates:
  "enumerates s owner L e \<Longrightarrow> enumerate_pages n s owner start e w = ((e', f), w') \<Longrightarrow> \<exists>L'. enumerates s owner L' e'"
proof (induction n arbitrary: L start e w)
  case (Suc n)
  obtain err w1 where r: "reserveUpstream s w = (err, w1)" by fastforce
  obtain res w2 where l: "up_ListApprovals (as_upstream s) owner start (as_pageSize s) w1 = (res, w2)" by fastforce
  have errs: "enumerates s owner L (e\<lparr>en_errors := x\<rparr>)" for x using Suc.prems(1) by (simp add: enumerates_def)
  show ?case
  proof (cases "err = None \<and> (\<exists>page. res = Inr page)")
    case False
    with Suc.prems(2) r l errs show ?thesis by (auto split: option.splits sum.splits)
  next
    case True
    then obtain page where page: "err = None" "res = Inr page" by blast
    note e1 = enumerates_page [OF Suc.prems(1), of page]
    note e2 = e1 enumerates_truncate [OF e1]
    from Suc.prems(2) r l page e2 Suc.IH [OF e2(1)] Suc.IH [OF e2(2)] show ?thesis
      by (auto simp: Let_def split: if_splits)
  qed
qed auto

lemma enumerate_approvals_bound:
  assumes "enumerate_approvals s owner w = ((e, cs, finished), w')"
  shows "int (length cs) \<le> max 0 (as_maxSpenders s)"
proof -
  obtain e1 f w1 where pages: "enumerate_pages (nat (as_maxPages s)) s owner 0 no_enumeration w = ((e1, f), w1)" by (metis surj_pair)
  from enumerate_pages_enumerates [OF enumerates_start this] obtain L where "enumerates s owner L e1" by blast
  moreover have "cs = sort_by by_address (map snd (en_bySpender e1))"
    using assms pages by (auto simp: enumerate_approvals_def Let_def split: if_splits)
  ultimately show ?thesis by (simp add: enumerates_def)
qed

context approval_usage begin

lemma reserveUpstream_ledger:
  assumes s: "as_usage s = U" "as_dailyUpstreamLimit s = limit" "counts_calls s good spent made"
    and run: "reserveUpstream s w = (err, w')"
  shows "ledger good spent made (if err = None then 1 else 0) 0 w w'"
proof -
  obtain now w1 where n: "as_now s w = (now, w1)" by fastforce
  obtain err1 w2 where r: "uu_ReserveUpstreamCall U now limit w1 = (err1, w2)" by fastforce
  have q: "quiet good spent made 0 w w1" using s(3) n unfolding counts_calls_def by (metis snd_conv)
  have m: "made w2 = made w1" using s(1,3) r unfolding counts_calls_def by (metis snd_conv)
  have l: "quiet good spent made 0 w2 (logBudgetError s opn e w2)" for opn e
    using s(3) by (simp add: counts_calls_def logBudgetError_def)
  have e: "err = err1" "w' = (case err1 of None \<Rightarrow> w2 | Some e \<Rightarrow> logBudgetError s ''reserve upstream budget'' e w2)"
    using run by (auto simp: reserveUpstream_def n s r split: option.splits)
  show ?thesis
  proof (cases err1)
    case None
    with e q m reserve [OF _ r] show ?thesis by (auto simp: ledger_def quiet_def)
  next
    case (Some x)
    with e q m reserve [OF _ r] l [of "''reserve upstream budget''" x] show ?thesis by (auto simp: ledger_def quiet_def)
  qed
qed

lemma reserved_call_ledger:
  assumes s: "as_usage s = U" "as_dailyUpstreamLimit s = limit" "counts_calls s good spent made"
    and call: "\<And>w. quiet good spent made 1 w (snd (call w))" and run: "reserved_call s call w = (r, w')"
  shows "ledger good spent made 0 1 w w'"
proof -
  obtain err w1 where res: "reserveUpstream s w = (err, w1)" by fastforce
  note l = reserveUpstream_ledger [OF s res]
  show ?thesis
  proof (cases err)
    case None
    with run res have "w' = snd (call w1)" by (simp add: reserved_call_def)
    with call have "ledger good spent made (- 1) 1 w1 w'" by (auto intro: quiet_ledger)
    with l None show ?thesis using ledger_trans by fastforce
  next
    case (Some e)
    with run res l show ?thesis by (auto simp: reserved_call_def elim: ledger_weaken)
  qed
qed

lemma enumerate_pages_ledger:
  assumes s: "as_usage s = U" "as_dailyUpstreamLimit s = limit" "counts_calls s good spent made"
  shows "enumerate_pages n s owner start e w = (r, w') \<Longrightarrow> ledger good spent made 0 (int n) w w'"
proof (induction n arbitrary: start e w)
  case 0
  then show ?case by (simp add: ledger_refl)
next
  case (Suc n)
  obtain err w1 where res: "reserveUpstream s w = (err, w1)" by fastforce
  note l = reserveUpstream_ledger [OF s res]
  show ?case
  proof (cases err)
    case (Some x)
    with Suc.prems res l show ?thesis by (auto elim: ledger_weaken)
  next
    case None
    obtain page w2 where p: "up_ListApprovals (as_upstream s) owner start (as_pageSize s) w1 = (page, w2)" by fastforce
    have "quiet good spent made 1 w1 w2" using s(3) p unfolding counts_calls_def by (metis snd_conv)
    from ledger_trans [OF l quiet_ledger [OF this]] None have l2: "ledger good spent made 0 1 w w2" by simp
    have "w' = w2 \<or> (\<exists>start e. enumerate_pages n s owner start e w2 = (r, w'))"
      using Suc.prems res None p by (auto simp: Let_def split: sum.splits if_splits)
    then show ?thesis
    proof
      assume "w' = w2"
      with l2 show ?thesis by (auto elim: ledger_weaken)
    next
      assume "\<exists>start e. enumerate_pages n s owner start e w2 = (r, w')"
      with Suc.IH have "ledger good spent made 0 (int n) w2 w'" by blast
      from ledger_trans [OF l2 this] show ?thesis by (simp add: algebra_simps)
    qed
  qed
qed

lemma verify_step_ledger:
  assumes s: "as_usage s = U" "as_dailyUpstreamLimit s = limit" "counts_calls s good spent made"
    and run: "verify_step s owner t base c job w = (job', w')"
  shows "ledger good spent made ((if job' = CallReserved then 1 else 0) - (if job = CallReserved then 1 else 0))
    ((if steps_left job = 0 then 0 else 1) - (if steps_left job' = 0 then 0 else 1)) w w'"
proof (cases job)
  case NotStarted
  obtain err w1 where res: "reserveUpstream s w = (err, w1)" by fastforce
  note l = reserveUpstream_ledger [OF s res]
  from NotStarted run res l show ?thesis
    by (cases err) (auto simp: verify_step_def steps_left_def elim: ledger_weaken)
next
  case CallReserved
  obtain a w1 where call: "up_Allowance (as_upstream s) owner (rec_ToAddress c) w = (a, w1)" by fastforce
  have "quiet good spent made 1 w w1" using s(3) call unfolding counts_calls_def by (metis snd_conv)
  with CallReserved run call show ?thesis
    by (cases a) (auto simp: verify_step_def steps_left_def dest: quiet_ledger)
next
  case (Verified r)
  with run show ?thesis by (simp add: verify_step_def ledger_refl)
qed

lemma run_schedule_ledger:
  assumes s: "as_usage s = U" "as_dailyUpstreamLimit s = limit" "counts_calls s good spent made"
  shows "run_schedule is (verify_step s owner t base) cs jobs w = (jobs', w') \<Longrightarrow> length jobs = length cs \<Longrightarrow>
    ledger good spent made (reserved_jobs jobs' - reserved_jobs jobs) (open_jobs jobs - open_jobs jobs') w w'"
proof (induction "is" arbitrary: jobs w)
  case Nil
  then show ?case by (simp add: ledger_refl)
next
  case (Cons i "is")
  show ?case
  proof (cases "i < length cs")
    case False
    with Cons show ?thesis by simp
  next
    case True
    obtain job w1 where st: "verify_step s owner t base (cs ! i) (jobs ! i) w = (job, w1)" by fastforce
    have "run_schedule is (verify_step s owner t base) cs (jobs[i := job]) w1 = (jobs', w')" using Cons.prems(1) True st by simp
    from ledger_trans [OF verify_step_ledger [OF s st] Cons.IH [OF this]] Cons.prems(2) True
    show ?thesis by (simp add: jobs_update algebra_simps)
  qed
qed

lemma verifyAllowances_ledger:
  assumes s: "as_usage s = U" "as_dailyUpstreamLimit s = limit" "counts_calls s good spent made"
    and run: "verifyAllowances s owner t base cs w = (r, w')"
  shows "ledger good spent made 0 (int (length cs)) w w'"
proof -
  let ?n = "length cs"
  obtain schedule w1 where sched: "as_schedule s (if int ?n < as_verifyWorkers s then int ?n else as_verifyWorkers s) ?n w = (schedule, w1)"
    by fastforce
  obtain jobs w2 where jobs: "run_schedule (schedule @ concat (map (\<lambda>i. [i, i]) [0..<?n])) (verify_step s owner t base) cs
    (replicate ?n NotStarted) w1 = (jobs, w2)" by fastforce
  have "quiet good spent made 0 w w1" using s(3) sched unfolding counts_calls_def by (metis snd_conv)
  from ledger_trans [OF quiet_ledger [OF this] run_schedule_ledger [OF s jobs]]
  have "ledger good spent made (reserved_jobs jobs) (int ?n - open_jobs jobs) w w2" by (simp add: jobs_start)
  moreover have "w' = w2" using run sched jobs by (simp add: verifyAllowances_def Let_def)
  ultimately show ?thesis using jobs_bounds [of jobs] by (auto elim: ledger_weaken)
qed

lemma storeCache_ledger:
  "counts_calls s good spent made \<Longrightarrow> ledger good spent made 0 0 w (storeCache s address response w)"
  by (auto simp: storeCache_def counts_calls_def split: sum.split dest: quiet_ledger [where n = 0]) (metis quiet_ledger minus_zero ledger_refl)+

lemma check_ledger:
  assumes s: "as_usage s = U" "as_dailyUpstreamLimit s = limit" "counts_calls s good spent made"
    and pos: "0 \<le> as_maxPages s" "0 \<le> as_maxSpenders s" and run: "check s address w = (r, w')"
  shows "ledger good spent made 0 (as_maxPages s + as_maxSpenders s + 2) w w'"
proof (cases "up_Enabled (as_upstream s)")
  case False
  with run have "w' = w" by (simp add: check_def)
  with pos show ?thesis by (auto intro: ledger_weaken [OF ledger_refl])
next
  case True
  obtain t wa where a: "as_now s w = (t, wa)" by fastforce
  obtain i wb where b: "as_uuid s wa = (i, wb)" by fastforce
  obtain e cs fin w1 where en: "enumerate_approvals s address wb = ((e, cs, fin), w1)" by (metis surj_pair)
  obtain risk w2 where risk: "reserved_call s (up_RiskySpenders (as_upstream s) address) w1 = (risk, w2)" by fastforce
  obtain dec w3 where dec: "reserved_call s (up_USDTDecimals (as_upstream s) address) w2 = (dec, w3)" by fastforce
  let ?base = "unverified (en_addressTypes e) (en_names e) (case risk of Inr spenders \<Rightarrow> spenders | Inl _ \<Rightarrow> [])
    (case risk of Inr _ \<Rightarrow> True | Inl _ \<Rightarrow> False) (case dec of Inr d \<Rightarrow> d | Inl _ \<Rightarrow> 6) t"
  obtain v w4 where ver: "verifyAllowances s address t ?base cs w3 = (v, w4)" by fastforce
  obtain p w1' where pages: "enumerate_pages (nat (as_maxPages s)) s address 0 no_enumeration wb = (p, w1')" by fastforce
  have "w1' = w1" using en pages by (auto simp: enumerate_approvals_def Let_def split: prod.splits if_splits)
  with enumerate_pages_ledger [OF s pages] pos have l1: "ledger good spent made 0 (as_maxPages s) wb w1" by simp
  have "quiet good spent made 0 w wa" "quiet good spent made 0 wa wb"
    using s(3) a b unfolding counts_calls_def by (metis snd_conv)+
  from ledger_trans [OF quiet_ledger [OF this(1)] ledger_trans [OF quiet_ledger [OF this(2)] l1]]
  have l: "ledger good spent made 0 (as_maxPages s) w w1" by simp
  have "\<And>w. quiet good spent made 1 w (snd (up_RiskySpenders (as_upstream s) address w))"
    "\<And>w. quiet good spent made 1 w (snd (up_USDTDecimals (as_upstream s) address w))"
    using s(3) by (simp_all add: counts_calls_def)
  note calls = reserved_call_ledger [OF s this(1) risk] reserved_call_ledger [OF s this(2) dec] verifyAllowances_ledger [OF s ver]
  from ledger_trans [OF l ledger_trans [OF calls(1) ledger_trans [OF calls(2) calls(3)]]] enumerate_approvals_bound [OF en] pos
  have l4: "ledger good spent made 0 (as_maxPages s + as_maxSpenders s + 2) w w4" by (auto elim: ledger_weaken)
  note eq = run [unfolded check_def Let_def a b en risk dec ver prod.case]
  show ?thesis
  proof (cases "length cs = 0 \<and> \<not> fin")
    case True
    with eq \<open>up_Enabled (as_upstream s)\<close> have "w' = w1" by auto
    with l pos show ?thesis by (auto elim: ledger_weaken)
  next
    case False
    with eq \<open>up_Enabled (as_upstream s)\<close> have "\<exists>resp. w' = storeCache s address resp w4" by (auto split: prod.splits)
    then obtain resp where "w' = storeCache s address resp w4" by blast
    with ledger_trans [OF l4 storeCache_ledger [OF s(3)]] show ?thesis by simp
  qed
qed

text \<open>A request, while other requests go on: waiting for one of them does not overdraw the reservations, either.\<close>

lemma request_ledger:
  assumes s: "as_usage s = U" "as_dailyUpstreamLimit s = limit" "counts_calls s good spent made"
    and pos: "0 \<le> as_maxPages s" "0 \<le> as_maxSpenders s"
    and await: "\<And>a st r st'. await a st = (r, st') \<Longrightarrow> good (snd st) \<Longrightarrow>
      good (snd st') \<and> spent (snd st) - made (snd st) \<le> spent (snd st') - made (snd st')"
    and run: "CheckTronUSDTApprovals await s (Some a) st = (r, st')" and good: "good (snd st)"
  shows "good (snd st') \<and> spent (snd st) - made (snd st) \<le> spent (snd st') - made (snd st')
    \<and> (TrimSpace a \<notin> set (fst st) \<longrightarrow> made (snd st') \<le> made (snd st) + (as_maxPages s + as_maxSpenders s + 2)
        \<and> (\<forall>e. r = Inl e \<longrightarrow> made (snd st') \<le> made (snd st)))"
proof (cases "(\<exists>p. DecodeMainnetAddress (TrimSpace a) = Inr p) \<and> up_Enabled (as_upstream s)")
  case False
  with run have "st' = st" by (auto simp: CheckTronUSDTApprovals_def Let_def split: sum.splits if_splits)
  with good pos show ?thesis by simp
next
  case True
  then obtain p where p: "DecodeMainnetAddress (TrimSpace a) = Inr p" and en: "up_Enabled (as_upstream s)" by blast
  let ?a = "TrimSpace a" and ?M = "as_maxPages s + as_maxSpenders s + 2"
  define L where "L = ledger good spent made"
  obtain inflight w where st: "st = (inflight, w)" by fastforce
  obtain t w1 where t: "as_now s w = (t, w1)" by fastforce
  obtain err w2 where q: "uu_ReserveQuery (as_usage s) t (addressHMAC s ?a) (as_dailyQueryLimit s) (as_dailyAddressLimit s) w1 = (err, w2)"
    by fastforce
  have l1: "L 0 0 w w1" using s(3) t unfolding counts_calls_def L_def by (metis quiet_ledger minus_zero snd_conv)
  have "made w2 = made w1" using s(3) q unfolding counts_calls_def by (metis snd_conv)
  then have "L 0 0 w1 w2" using query [OF _ q [unfolded s(1)]] by (simp add: L_def ledger_def)
  with l1 have l2: "L 0 0 w w2" unfolding L_def using ledger_trans by fastforce
  have same: "L 0 0 w3 w3' \<Longrightarrow> L d m w w3 \<Longrightarrow> L d m w w3'" for w3 w3' d m
    unfolding L_def using ledger_trans by fastforce
  have res: "L 0 0 x (record_result s t n h x)" for n h x
  proof -
    obtain y z where r: "uu_RecordResult (as_usage s) t n h x = (y, z)" by fastforce
    have "made z = made x" using s(3) r unfolding counts_calls_def by (metis snd_conv)
    then show ?thesis using result [OF _ r [unfolded s(1)]] r by (simp add: L_def ledger_def record_result_def)
  qed
  have log: "L 0 0 x (logBudgetError s o' e x)" for o' e x
    using s(3) quiet_ledger [of good spent made 0] unfolding counts_calls_def logBudgetError_def L_def by fastforce
  have uid: "L 0 0 x y" if "as_uuid s x = (i, y)" for x y i
    using s(3) that quiet_ledger [of good spent made 0] unfolding counts_calls_def L_def by (metis minus_zero snd_conv)
  have fin: "L 0 0 w w' \<Longrightarrow> snd st' = w' \<Longrightarrow> ?thesis" for w'
    using pos good by (auto simp: L_def ledger_def st)
  note def = run [unfolded CheckTronUSDTApprovals_def Let_def option.case p sum.case st prod.case t]
  show ?thesis
  proof (cases err)
    case (Some e)
    with def en q have "snd st' = logBudgetError s ''reserve query budget'' e w2" by auto
    with same [OF log l2] fin show ?thesis by blast
  next
    case None
    obtain hit w3 where c: "loadCache s ?a w2 = (hit, w3)" by fastforce
    have "w3 = snd (ca_Get (as_cache s) (approvalCacheKey ?a) w2)"
      using c by (auto simp: loadCache_def split: prod.splits sum.splits if_splits)
    then have "L 0 0 w2 w3" using s(3) quiet_ledger [of good spent made 0] by (simp add: counts_calls_def L_def)
    from same [OF this l2] have l3: "L 0 0 w w3" .
    show ?thesis
    proof (cases hit)
      case (Some resp)
      obtain i w4 where i: "as_uuid s w3 = (i, w4)" by fastforce
      with def en q None c Some have "snd st' = record_result s t (approvalStatusName (ck_Status resp)) True w4" by auto
      with same [OF res same [OF uid [OF i] l3]] fin show ?thesis by blast
    next
      case miss: None
      show ?thesis
      proof (cases "?a \<in> set inflight")
        case True
        with def en q None c miss have f: "follow await s ?a t (inflight, w3) = (r, st')" by auto
        obtain x inf' w4 where x: "await ?a (inflight, w3) = (x, inf', w4)" by (metis surj_pair)
        have g3: "good w3" "spent w - made w \<le> spent w3 - made w3" using l3 good by (simp_all add: L_def ledger_def st)
        from await [OF x] g3 have g4: "good w4" "spent w - made w \<le> spent w4 - made w4" by simp_all
        have "L 0 0 w4 (snd st')"
        proof (cases x)
          case (Inl e)
          with f x show ?thesis by (simp add: follow_def L_def) (use ledger_refl in auto)
        next
          case (Inr y)
          show ?thesis
          proof (cases y)
            case (Inl e)
            with f x Inr res show ?thesis by (auto simp: follow_def)
          next
            case resp: (Inr resp)
            obtain i w5 where i: "as_uuid s w4 = (i, w5)" by fastforce
            have "snd st' = record_result s t (approvalStatusName (ck_Status resp)) False w5"
              using f x Inr resp i by (auto simp: follow_def)
            with res uid [OF i] show ?thesis unfolding L_def using ledger_trans by fastforce
          qed
        qed
        with g4 True show ?thesis by (auto simp: L_def ledger_def st)
      next
        case False
        with def en q None c miss have f: "lead s ?a t (inflight, w3) = (r, st')" by auto
        obtain y w4 where y: "check s ?a w3 = (y, w4)" by fastforce
        have ry: "r = y" "snd st' = record_result s t (result_name y) False w4" using f y by (auto simp: lead_def Let_def)
        have "L 0 ?M w3 w4" unfolding L_def by (rule check_ledger [OF s pos y])
        with l3 have "L 0 ?M w w4" unfolding L_def using ledger_trans by fastforce
        from same [OF res this] have l: "L 0 ?M w (snd st')" unfolding ry .
        have "\<exists>resp. y = Inr resp" using y en by (auto simp: check_def Let_def split: prod.splits if_splits)
        with l good pos ry(1) show ?thesis by (auto simp: L_def ledger_def st)
      qed
    qed
  qed
qed

end

section \<open>The usage tables as the provider\<close>

definition usage_repository :: "'w UsageRepository \<Rightarrow> 'w approvalUsage" where
  "usage_repository r = \<lparr>uu_ReserveQuery = us_ReserveQuery r, uu_ReserveUpstreamCall = us_ReserveUpstreamCall r,
     uu_RecordResult = us_RecordResult r\<rparr>"

definition usage_good :: "'w UsageRepository \<Rightarrow> ('w \<Rightarrow> TronUsageDaily list) \<Rightarrow> ('w \<Rightarrow> TronUsageAddressDaily list) \<Rightarrow> int \<Rightarrow> 'w \<Rightarrow> bool" where
  "usage_good r days addrs limit w \<longleftrightarrow> usage_ok r days addrs \<and> usage_inv (days w) (addrs w)
     \<and> (\<forall>d. daily_count ud_UpstreamCallCount (days w) d \<le> max 0 limit)"

definition total_calls :: "('w \<Rightarrow> TronUsageDaily list) \<Rightarrow> 'w \<Rightarrow> int" where
  "total_calls days w = sum_list (map ud_UpstreamCallCount (days w))"

lemma total_calls_days:
  assumes "distinct (map ud_UsageDate rows)" "finite D" "ud_UsageDate ` set rows \<subseteq> D"
  shows "sum_list (map ud_UpstreamCallCount rows) = (\<Sum>d \<in> D. daily_count ud_UpstreamCallCount rows d)"
proof -
  have zero: "daily_count ud_UpstreamCallCount rows d = 0" if "d \<notin> ud_UsageDate ` set rows" for d
    using that find_day_None [of d rows] by (simp add: daily_count_def)
  have row: "daily_count ud_UpstreamCallCount rows (ud_UsageDate x) = ud_UpstreamCallCount x" if "x \<in> set rows" for x
    using find_day_unique [OF assms(1) that] by (simp add: daily_count_def)
  have "(\<Sum>d \<in> D. daily_count ud_UpstreamCallCount rows d) = (\<Sum>d \<in> ud_UsageDate ` set rows. daily_count ud_UpstreamCallCount rows d)"
    using assms(2,3) zero by (intro sum.mono_neutral_right) auto
  also have "\<dots> = (\<Sum>x \<in> set rows. ud_UpstreamCallCount x)"
    using assms(1) row by (subst sum.reindex) (auto simp: distinct_map)
  also have "\<dots> = sum_list (map ud_UpstreamCallCount rows)"
    using assms(1) by (subst sum_list_distinct_conv_sum_set) (auto simp: distinct_map)
  finally show ?thesis by simp
qed

lemma total_calls_step:
  assumes "usage_inv (days w) (addrs w)" "usage_inv (days w') (addrs w')"
    "daily_count ud_UpstreamCallCount (days w') = (daily_count ud_UpstreamCallCount (days w))(d := daily_count ud_UpstreamCallCount (days w) d + n)"
  shows "total_calls days w' = total_calls days w + n"
proof -
  let ?D = "insert d (ud_UsageDate ` set (days w) \<union> ud_UsageDate ` set (days w'))"
  have "total_calls days w' = (\<Sum>x \<in> ?D. daily_count ud_UpstreamCallCount (days w') x)"
    "total_calls days w = (\<Sum>x \<in> ?D. daily_count ud_UpstreamCallCount (days w) x)"
    using assms(1,2) unfolding total_calls_def usage_inv_def by (intro total_calls_days; auto)+
  then show ?thesis unfolding assms(3) by (simp add: sum.insert_remove)
qed

lemma usage_good_step:
  assumes "usage_good r days addrs limit w" "usage_inv (days w') (addrs w')"
    "ub_calls (budget_of (days w') (addrs w')) = ub_calls (budget_of (days w) (addrs w))"
  shows "usage_good r days addrs limit w' \<and> total_calls days w' = total_calls days w"
  using assms total_calls_step [of days w addrs w' undefined 0] by (auto simp: usage_good_def budget_of_def)

interpretation repo_usage: approval_usage "usage_repository r" "usage_good r days addrs limit" "total_calls days" limit
  for r :: "'w UsageRepository" and days addrs limit
proof unfold_locales
  fix w w' :: 'w and t h ql al err
  assume good: "usage_good r days addrs limit w" and "uu_ReserveQuery (usage_repository r) t h ql al w = (err, w')"
  then have run: "us_ReserveQuery r t h ql al w = (err, w')" by (simp add: usage_repository_def)
  have ok: "usage_ok r days addrs" "usage_inv (days w) (addrs w)" using good by (simp_all add: usage_good_def)
  note rows = ReserveQuery_rows [OF ok run]
  have "ub_calls (budget_of (days w') (addrs w')) = ub_calls (budget_of (days w) (addrs w))"
  proof (cases err)
    case None
    from rows(2) [OF None] show ?thesis by (auto simp: spec_reserve_def split: if_splits dest!: arg_cong [where f = ub_calls])
  qed (use rows(3) in simp)
  from usage_good_step [OF good rows(1) this] show "usage_good r days addrs limit w' \<and> total_calls days w' = total_calls days w" .
next
  fix w w' :: 'w and t status hit err
  assume good: "usage_good r days addrs limit w" and "uu_RecordResult (usage_repository r) t status hit w = (err, w')"
  then have run: "us_RecordResult r t status hit w = (err, w')" by (simp add: usage_repository_def)
  have ok: "usage_ok r days addrs" "usage_inv (days w) (addrs w)" using good by (simp_all add: usage_good_def)
  from usage_good_step [OF good RecordResult_rows(1) [OF ok run]] RecordResult_rows(2) [OF ok run]
  show "usage_good r days addrs limit w' \<and> total_calls days w' = total_calls days w" by simp
next
  fix w w' :: 'w and t err
  assume good: "usage_good r days addrs limit w" and "uu_ReserveUpstreamCall (usage_repository r) t limit w = (err, w')"
  then have run: "us_ReserveUpstreamCall r t limit w = (err, w')" by (simp add: usage_repository_def)
  have ok: "usage_ok r days addrs" "usage_inv (days w) (addrs w)" using good by (simp_all add: usage_good_def)
  note rows = ReserveUpstreamCall_rows [OF ok run]
  show "usage_good r days addrs limit w' \<and> total_calls days w' = total_calls days w + (if err = None then 1 else 0)"
  proof (cases err)
    case (Some e)
    with usage_good_step [OF good rows(1)] rows(2) show ?thesis by simp
  next
    case None
    have c: "daily_count ud_UpstreamCallCount (days w') = (daily_count ud_UpstreamCallCount (days w))
        (utcDay t := daily_count ud_UpstreamCallCount (days w) (utcDay t) + 1)"
      using rows(4) [OF None] by (simp add: budget_of_def spec_call_def)
    moreover have "daily_count ud_UpstreamCallCount (days w) (utcDay t) < limit" using rows(3) [OF None] by (simp add: budget_of_def)
    ultimately show ?thesis using None good rows(1) total_calls_step [OF ok(2) rows(1) c] by (auto simp: usage_good_def)
  qed
qed

text \<open>C35: The service never makes a call to a provider that the usage tables have not reserved, however its workers
  interleave, and the tables never count more calls on a day than the limit. A request that is the only one for its
  address makes a bounded number of calls, and none at all if it ends with an error.\<close>

theorem approval_calls_reserved:
  assumes new: "NewTronApprovalService pd up ca (Some (usage_repository r)) lg cfg platform = Inr s"
    and counts: "counts_calls s (usage_good r days addrs (as_dailyUpstreamLimit s)) (total_calls days) made"
    and await: "\<forall>a st x st'. await a st = (x, st') \<longrightarrow> usage_good r days addrs (as_dailyUpstreamLimit s) (snd st) \<longrightarrow>
      usage_good r days addrs (as_dailyUpstreamLimit s) (snd st')
      \<and> total_calls days (snd st) - made (snd st) \<le> total_calls days (snd st') - made (snd st')"
    and start: "usage_good r days addrs (as_dailyUpstreamLimit s) (snd st)" "made (snd st) \<le> total_calls days (snd st)"
    and run: "CheckTronUSDTApprovals await s (Some a) st = (result, st')"
  shows "made (snd st') \<le> total_calls days (snd st')
    \<and> (\<forall>d. daily_count ud_UpstreamCallCount (days (snd st')) d \<le> max 0 (as_dailyUpstreamLimit s))
    \<and> (TrimSpace a \<notin> set (fst st) \<longrightarrow> made (snd st') \<le> made (snd st) + (as_maxPages s + as_maxSpenders s + 2)
        \<and> (\<forall>e. result = Inl e \<longrightarrow> made (snd st') \<le> made (snd st)))"
proof -
  have s: "as_usage s = usage_repository r" "0 \<le> as_maxPages s" "0 \<le> as_maxSpenders s"
    using new by (auto simp: NewTronApprovalService_def split: option.splits sum.splits if_splits)
  note repo_usage.request_ledger [OF s(1) refl counts s(2,3) _ run start(1)]
  with await start(2) show ?thesis unfolding usage_good_def by (smt (verit))
qed

text \<open>A provider that is counted beside the tables, for an address and a day without reservations.\<close>

type_synonym counted_world = "usage_world \<times> int"

definition counted_usage :: "counted_world UsageRepository" where
  "counted_usage = \<lparr>us_daily = list_gorm_up (\<lambda>w. fst (fst w)) (\<lambda>rs w. ((rs, snd (fst w)), snd w)) 7 (daily_table (\<lambda>w. fst (fst w))),
     us_addresses = list_gorm_up (\<lambda>w. snd (fst w)) (\<lambda>rs w. ((fst (fst w), rs), snd w)) 7 (address_table (\<lambda>w. snd (fst w))),
     us_now = (\<lambda>w. (5, w))\<rparr>"

definition counted_upstream :: "counted_world approvalUpstream" where
  "counted_upstream = sample_upstream
     \<lparr>up_ListApprovals := (\<lambda>owner start n w. (Inl (PlainErr ''timeout''), (fst w, snd w + 1))),
      up_RiskySpenders := (\<lambda>owner w. (Inr [''b''], (fst w, snd w + 1))),
      up_Allowance := (\<lambda>owner spender w. (Inr 15, (fst w, snd w + 1))),
      up_USDTDecimals := (\<lambda>owner w. (Inr 6, (fst w, snd w + 1)))\<rparr>"

lemma counted_usage_ok: "usage_ok counted_usage (\<lambda>w. fst (fst w)) (\<lambda>w. snd (fst w))"
proof -
  have up: "gorm_up_ok (us_daily counted_usage) (daily_table (\<lambda>w. fst (fst w)))"
    "gorm_up_ok (us_addresses counted_usage) (address_table (\<lambda>w. snd (fst w)))"
    by (simp_all add: counted_usage_def list_gorm_up_ok)
  have "atomic_ok (g_transaction (us_daily counted_usage)) (\<lambda>db. (fst (fst db), snd (fst db)))"
    by (auto simp: atomic_ok_def counted_usage_def list_gorm_up_def gorm.extend_def list_gorm_def
        split: option.splits prod.splits if_splits)
  with up show ?thesis unfolding usage_ok_def
    by (auto simp: counted_usage_def list_gorm_up_def gorm.extend_def gorm_up.fields_def list_gorm_def split: list.splits if_splits)
qed

definition counted_service :: "counted_world TronApprovalService" where
  "counted_service = (sample_approval_service (usage_repository counted_usage))\<lparr>as_upstream := counted_upstream\<rparr>"

lemma counted_frame:
  "us_now counted_usage w = (x, w') \<Longrightarrow> snd w' = snd w" "g_insert_ignore (us_daily counted_usage) r w = (y, w') \<Longrightarrow> snd w' = snd w"
  "g_first (us_daily counted_usage) P before w = (z, w') \<Longrightarrow> snd w' = snd w"
  "g_first (us_addresses counted_usage) Q before' w = (z', w') \<Longrightarrow> snd w' = snd w"
  "g_create (us_addresses counted_usage) r' w = (e, r'', w') \<Longrightarrow> snd w' = snd w"
  "update_error (g_update (us_daily counted_usage) P f w) = (e, w') \<Longrightarrow> snd w' = snd w"
  "g_update (us_daily counted_usage) P f w = (u, w') \<Longrightarrow> snd w' = snd w"
  by (auto simp: counted_usage_def list_gorm_up_def gorm.extend_def gorm_up.fields_def list_gorm_def update_error_def
      split: list.splits if_splits)

lemma counted_tables:
  "snd (snd (us_ReserveQuery counted_usage t h ql al w)) = snd w" "snd (snd (us_ReserveUpstreamCall counted_usage t l w)) = snd w"
  "snd (snd (us_RecordResult counted_usage t n c w)) = snd w"
proof -
  have addr: "snd w' = snd w" if "reserve_address counted_usage d h al now day v w = (e, v', w')" for d now day v w e v' w'
    using that unfolding reserve_address_def check_err_def
    by (auto split: prod.splits sum.splits option.splits if_splits dest!: counted_frame)
  have query: "snd w' = snd w" if "reserve_query counted_usage d h ql al v w = (e, v', w')" for d v w e v' w'
    using that unfolding reserve_query_def check_res_def
    by (auto split: prod.splits sum.splits if_splits dest!: counted_frame addr)
  have tx: "g_transaction (us_daily counted_usage) body v w = (case body v w of
      (None, v', w') \<Rightarrow> (None, v', w') | (Some e, v', w') \<Rightarrow> (Some e, v', w))" for body and v :: unit and w
    by (simp add: counted_usage_def list_gorm_up_def gorm.extend_def list_gorm_def)
  obtain e v w' where r: "reserve_query counted_usage (utcDay t) h ql al () w = (e, v, w')" by (metis surj_pair)
  from query [OF this] show "snd (snd (us_ReserveQuery counted_usage t h ql al w)) = snd w"
    by (cases e) (simp_all add: us_ReserveQuery_def tx r)
  note collapse = prod.collapse [symmetric]
  note frame = counted_frame(1) [OF collapse] counted_frame(6) [OF collapse] counted_frame(7) [OF collapse]
  show "snd (snd (us_ReserveUpstreamCall counted_usage t l w)) = snd w" "snd (snd (us_RecordResult counted_usage t n c w)) = snd w"
    by (simp_all add: us_ReserveUpstreamCall_def us_RecordResult_def case_prod_beta frame split: sum.split)
qed

theorem approval_calls_reserved_witness:
  "let (result, st') = CheckTronUSDTApprovals (\<lambda>a st. (Inl (Sentinel ContextCanceled), st)) counted_service
      (Some ''TR7NHqjeKQxGTCi8q8ZY4pL8otSzgjLj6t'') ([], (([], []), 0))
    in snd (snd st') \<le> total_calls (\<lambda>w. fst (fst w)) (snd st') \<and> snd (snd st') \<le> 14"
proof -
  let ?await = "\<lambda>a st. (Inl (Sentinel ContextCanceled), st)" and ?st = "([], (([], []), 0)) :: counted_world approval_state"
  obtain result st' where run: "CheckTronUSDTApprovals ?await counted_service (Some ''TR7NHqjeKQxGTCi8q8ZY4pL8otSzgjLj6t'') ?st = (result, st')"
    by (metis surj_pair)
  have new: "NewTronApprovalService (\<lambda>s. Inr 60) (Some counted_upstream) (Some sample_cache_of) (Some (usage_repository counted_usage))
      (Some (\<lambda>l o' e w. w)) sample_approval_config counted_service = Inr counted_service"
    by (simp add: NewTronApprovalService_def sample_approval_config_def counted_service_def sample_approval_service_def)
  have counts: "counts_calls counted_service (usage_good counted_usage (\<lambda>w. fst (fst w)) (\<lambda>w. snd (fst w)) (as_dailyUpstreamLimit counted_service))
      (total_calls (\<lambda>w. fst (fst w))) snd"
    using counted_tables
    by (auto simp: counts_calls_def quiet_def counted_service_def sample_approval_service_def counted_upstream_def sample_cache_of_def
        usage_good_def total_calls_def usage_repository_def)
  have good: "usage_good counted_usage (\<lambda>w. fst (fst w)) (\<lambda>w. snd (fst w)) (as_dailyUpstreamLimit counted_service) (snd ?st)"
    using counted_usage_ok by (simp add: usage_good_def usage_inv_def daily_count_def)
  have limits: "as_maxPages counted_service + as_maxSpenders counted_service + 2 = 14"
    by (simp add: counted_service_def sample_approval_service_def)
  from approval_calls_reserved [OF new counts _ good _ run] limits run show ?thesis by (simp add: total_calls_def)
qed

end
