(* ===== verification/Web3_Chain.thy ===== *)
theory Web3_Chain
  imports Web3_Auth
begin

text \<open>
  The chain of unary interceptors of the Web3 gRPC server, \<open>web3/internal/middleware/\<close> in the order
  of \<open>web3/internal/server/grpc.go\<close>: request ID, access log, panic recovery, error conversion, rate and
  concurrency limit, authentication. A handler may panic, and deferred code then still runs, so a call
  is a function to a completion, with or without a panic, and the state it leaves. The state has the
  log, the slots in use and the state of the authentication; UUIDs, the clock, the token bucket
  (\<open>golang.org/x/time/rate\<close>), transport headers and spans are parameters on the world.
\<close>

section \<open>Calls, contexts, state\<close>

datatype 'a completion = Panics string | Completes "go_error + 'a"

datatype log_level = Debug_level | Info_level | Warn_level | Error_level

record log_entry =
  le_logger :: string
  le_level :: log_level
  le_message :: string
  le_method :: string
  le_grpc_code :: "grpc_code option"
  le_duration :: "int option"
  le_request_id :: "string option"
  le_span :: "(string \<times> string) option"
  le_error :: "go_error option"
  le_panic :: "string option"

record call_ctx =
  cc_server :: "Identity server_ctx"
  cc_requestID :: "string option"
  cc_span :: "(string \<times> string) option"

record 'w server_state =
  sv_auth :: "'w auth_state"
  sv_slots :: int
  sv_log :: "log_entry list"

record 'w RateLimit =
  rl_enabled :: bool
  rl_request :: "'w \<Rightarrow> bool \<times> 'w"
  rl_capacity :: int

record 'w chain_env =
  ce_auth :: "'w auth_env"
  ce_uuid :: "'w \<Rightarrow> string \<times> 'w"
  ce_SetAttributes :: "call_ctx \<Rightarrow> string \<Rightarrow> string \<Rightarrow> 'w \<Rightarrow> 'w"
  ce_SetHeader :: "call_ctx \<Rightarrow> string \<Rightarrow> string \<Rightarrow> 'w \<Rightarrow> go_error option \<times> 'w"
  ce_RecordError :: "call_ctx \<Rightarrow> go_error \<Rightarrow> string \<Rightarrow> 'w \<Rightarrow> 'w"
  ce_now :: "'w \<Rightarrow> int \<times> 'w"
  ce_Err :: "call_ctx \<Rightarrow> 'w \<Rightarrow> sentinel option"
  ce_select :: "'w \<Rightarrow> bool \<times> 'w"
  ce_logger :: bool

type_synonym ('w, 'req, 'resp) handler = "call_ctx \<Rightarrow> 'req \<Rightarrow> 'w server_state \<Rightarrow> 'resp completion \<times> 'w server_state"

text \<open>A step on the world.\<close>

definition on_world :: "('w \<Rightarrow> 'a \<times> 'w) \<Rightarrow> 'w server_state \<Rightarrow> 'a \<times> 'w server_state" where
  "on_world f st = (case f (snd (sv_auth st)) of (a, w) \<Rightarrow> (a, st\<lparr>sv_auth := (fst (sv_auth st), w)\<rparr>))"

text \<open>A logger that is nil is replaced by one that drops its entries.\<close>

definition write_log :: "'w chain_env \<Rightarrow> log_entry \<Rightarrow> 'w server_state \<Rightarrow> 'w server_state" where
  "write_log E entry st = (if ce_logger E then st\<lparr>sv_log := sv_log st @ [entry]\<rparr> else st)"

text \<open>\<open>status.Code\<close>: the code of the first status of the chain.\<close>

definition status_Code :: "go_error option \<Rightarrow> grpc_code" where
  "status_Code err =
    (case err of
       None \<Rightarrow> Codes_OK
     | Some e \<Rightarrow> (case find_first is_status_err (errors_chain e) of Some (StatusErr c m) \<Rightarrow> c | _ \<Rightarrow> Codes_Unknown))"

definition error_of :: "go_error + 'a \<Rightarrow> go_error option" where
  "error_of r = (case r of Inl e \<Rightarrow> Some e | Inr a \<Rightarrow> None)"

section \<open>Request ID\<close>

definition maxRequestIDLength :: nat where
  "maxRequestIDLength = 128"

definition requestIDFromMetadata :: "call_ctx \<Rightarrow> string" where
  "requestIDFromMetadata ctx =
    (case sc_metadata (cc_server ctx) of
       None \<Rightarrow> []
     | Some md \<Rightarrow> (case md_Get md ''x-request-id'' of [] \<Rightarrow> [] | v # _ \<Rightarrow> TrimSpace v))"

definition RequestIDFromContext :: "call_ctx \<Rightarrow> string" where
  "RequestIDFromContext ctx = (case cc_requestID ctx of None \<Rightarrow> [] | Some requestID \<Rightarrow> requestID)"

definition with_request_id :: "'w chain_env \<Rightarrow> call_ctx \<Rightarrow> 'w server_state \<Rightarrow> call_ctx \<times> 'w server_state" where
  "with_request_id E ctx st =
    (let requestID = requestIDFromMetadata ctx;
         (requestID, st) = (if requestID = [] \<or> maxRequestIDLength < length requestID then on_world (ce_uuid E) st
           else (requestID, st));
         ctx = ctx\<lparr>cc_requestID := Some requestID\<rparr>;
         (_, st) = on_world (\<lambda>w. ((), ce_SetAttributes E ctx ''request.id'' requestID w)) st;
         (_, st) = on_world (ce_SetHeader E ctx ''x-request-id'' requestID) st
     in (ctx, st))"

definition RequestID :: "'w chain_env \<Rightarrow> ('w, 'req, 'resp) handler \<Rightarrow> ('w, 'req, 'resp) handler" where
  "RequestID E handler ctx req st = (case with_request_id E ctx st of (ctx, st) \<Rightarrow> handler ctx req st)"

section \<open>Access log\<close>

definition observabilityFields :: "call_ctx \<Rightarrow> string option \<times> (string \<times> string) option" where
  "observabilityFields ctx =
    (if RequestIDFromContext ctx \<noteq> [] then Some (RequestIDFromContext ctx) else None, cc_span ctx)"

definition access_entry :: "string \<Rightarrow> call_ctx \<Rightarrow> go_error option \<Rightarrow> int \<Rightarrow> log_entry" where
  "access_entry fullMethod ctx err duration =
    (let code = status_Code err;
         health = has_prefix fullMethod ''/grpc.health.v1.Health/''
     in \<lparr>le_logger = ''grpc'',
         le_level =
           (if health then Debug_level
            else if code = Codes_OK then Info_level
            else if code \<in> {Codes_InvalidArgument, Codes_NotFound, Codes_AlreadyExists, Codes_Unauthenticated,
                Codes_PermissionDenied, Codes_ResourceExhausted} then Warn_level
            else Error_level),
         le_message = (if health then ''gRPC health request completed'' else ''gRPC request completed''),
         le_method = fullMethod, le_grpc_code = Some code, le_duration = Some duration,
         le_request_id = fst (observabilityFields ctx), le_span = snd (observabilityFields ctx),
         le_error = err, le_panic = None\<rparr>)"

definition AccessLog :: "'w chain_env \<Rightarrow> string \<Rightarrow> ('w, 'req, 'resp) handler \<Rightarrow> ('w, 'req, 'resp) handler" where
  "AccessLog E fullMethod handler ctx req st =
    (let (startedAt, st) = on_world (ce_now E) st
     in case handler ctx req st of
          (Panics v, st) \<Rightarrow> (Panics v, st)
        | (Completes response, st) \<Rightarrow>
            let (now, st) = on_world (ce_now E) st
            in (Completes response, write_log E (access_entry fullMethod ctx (error_of response) (now - startedAt)) st))"

section \<open>Recovery and errors\<close>

definition Recovery :: "'w chain_env \<Rightarrow> string \<Rightarrow> ('w, 'req, 'resp) handler \<Rightarrow> ('w, 'req, 'resp) handler" where
  "Recovery E fullMethod handler ctx req st =
    (case handler ctx req st of
       (Completes response, st) \<Rightarrow> (Completes response, st)
     | (Panics recovered, st) \<Rightarrow>
         let (_, st) = on_world (\<lambda>w. ((), ce_RecordError E ctx (PlainErr (''panic: '' @ recovered)) ''gRPC handler panic'' w)) st;
             st = write_log E \<lparr>le_logger = ''recovery'', le_level = Error_level, le_message = ''gRPC panic recovered'',
               le_method = fullMethod, le_grpc_code = None, le_duration = None,
               le_request_id = fst (observabilityFields ctx), le_span = snd (observabilityFields ctx),
               le_error = None, le_panic = Some recovered\<rparr> st
         in (Completes (Inl (StatusErr Codes_Internal ''internal server error'')), st))"

definition nil_dereference :: string where
  "nil_dereference = ''runtime error: invalid memory address or nil pointer dereference''"

definition ErrorHandler :: "'w chain_env \<Rightarrow> string \<Rightarrow> ('w, 'req, 'resp) handler \<Rightarrow> ('w, 'req, 'resp) handler" where
  "ErrorHandler E fullMethod handler ctx req st =
    (case handler ctx req st of
       (Panics v, st) \<Rightarrow> (Panics v, st)
     | (Completes (Inr response), st) \<Rightarrow> (Completes (Inr response), st)
     | (Completes (Inl err), st) \<Rightarrow>
         (case ToGRPC (Some err) of
            Returned (Some converted) \<Rightarrow>
              let code = status_Code (Some converted);
                  st = (if code \<in> {Codes_Internal, Codes_Unavailable, Codes_DataLoss, Codes_DeadlineExceeded}
                    then write_log E \<lparr>le_logger = ''error'', le_level = Error_level, le_message = ''gRPC handler failed'',
                        le_method = fullMethod, le_grpc_code = Some code, le_duration = None,
                        le_request_id = fst (observabilityFields ctx), le_span = snd (observabilityFields ctx),
                        le_error = Some err, le_panic = None\<rparr> st
                    else st)
              in (Completes (Inl converted), st)
          | _ \<Rightarrow> (Panics nil_dereference, st)))"

section \<open>Rate and concurrency limit\<close>

text \<open>\<open>make(chan struct{}, n)\<close> panics for a negative \<open>n\<close>; \<open>limiter\<close> is \<open>rate.NewLimiter(r, burst).Allow\<close>.\<close>

definition NewRateLimit :: "('r \<Rightarrow> int \<Rightarrow> 'w \<Rightarrow> bool \<times> 'w) \<Rightarrow> bool \<Rightarrow> 'r \<Rightarrow> int \<Rightarrow> int \<Rightarrow> 'w RateLimit go_outcome" where
  "NewRateLimit limiter enabled requestsPerSecond burst maxConcurrency =
    (if \<not> enabled then Returned \<lparr>rl_enabled = False, rl_request = (\<lambda>w. (True, w)), rl_capacity = 0\<rparr>
     else if maxConcurrency < 0 then Panicked
     else Returned \<lparr>rl_enabled = True, rl_request = limiter requestsPerSecond burst, rl_capacity = maxConcurrency\<rparr>)"

text \<open>The decision before the handler: no limit, a slot taken, or refused. When a slot is free and the
  context is done, \<open>select\<close> picks either.\<close>

datatype admission = Unlimited | Slot | Refused go_error

definition FromContextError :: "sentinel \<Rightarrow> go_error" where
  "FromContextError s =
    (if s = ContextDeadlineExceeded then StatusErr Codes_DeadlineExceeded ''context deadline exceeded''
     else if s = ContextCanceled then StatusErr Codes_Canceled ''context canceled''
     else StatusErr Codes_Unknown [])"

definition admission_of :: "'w chain_env \<Rightarrow> 'w RateLimit \<Rightarrow> string \<Rightarrow> call_ctx \<Rightarrow> 'w server_state \<Rightarrow> admission \<times> 'w server_state" where
  "admission_of E m fullMethod ctx st =
    (if \<not> rl_enabled m \<or> has_prefix fullMethod ''/grpc.health.v1.Health/'' then (Unlimited, st)
     else case on_world (rl_request m) st of
         (False, st) \<Rightarrow> (Refused (StatusErr Codes_ResourceExhausted ''rate limit exceeded''), st)
       | (True, st) \<Rightarrow>
           let sent = (Slot, st\<lparr>sv_slots := sv_slots st + 1\<rparr>)
           in case (ce_Err E ctx (snd (sv_auth st)), sv_slots st < rl_capacity m) of
                (None, True) \<Rightarrow> sent
              | (None, False) \<Rightarrow> (Refused (StatusErr Codes_ResourceExhausted ''concurrency limit exceeded''), st)
              | (Some err, False) \<Rightarrow> (Refused (FromContextError err), st)
              | (Some err, True) \<Rightarrow>
                  (case on_world (ce_select E) st of
                     (True, st) \<Rightarrow> (Slot, st\<lparr>sv_slots := sv_slots st + 1\<rparr>)
                   | (False, st) \<Rightarrow> (Refused (FromContextError err), st)))"

definition release :: "'a \<times> 'w server_state \<Rightarrow> 'a \<times> 'w server_state" where
  "release r = (case r of (a, st) \<Rightarrow> (a, st\<lparr>sv_slots := sv_slots st - 1\<rparr>))"

definition limited :: "'w chain_env \<Rightarrow> 'w RateLimit \<Rightarrow> string \<Rightarrow> ('w, 'req, 'resp) handler \<Rightarrow> ('w, 'req, 'resp) handler" where
  "limited E m fullMethod handler ctx req st =
    (case admission_of E m fullMethod ctx st of
       (Unlimited, st) \<Rightarrow> handler ctx req st
     | (Refused err, st) \<Rightarrow> (Completes (Inl err), st)
     | (Slot, st) \<Rightarrow> release (handler ctx req st))"

section \<open>The chain\<close>

text \<open>Authentication as an interceptor of the chain.\<close>

definition authenticated :: "'w chain_env \<Rightarrow> string list \<Rightarrow> string \<Rightarrow> ('w, 'req, 'resp) handler \<Rightarrow> ('w, 'req, 'resp) handler" where
  "authenticated E rolePriority fullMethod handler ctx req st =
    (case authenticate (ce_auth E) rolePriority fullMethod (cc_server ctx) (sv_auth st) of
       Panicked \<Rightarrow> (Panics nil_dereference, st)
     | Returned (Inl err, a) \<Rightarrow> (Completes (Inl err), st\<lparr>sv_auth := a\<rparr>)
     | Returned (Inr c, a) \<Rightarrow> handler (ctx\<lparr>cc_server := c\<rparr>) req (st\<lparr>sv_auth := a\<rparr>))"

definition unary_chain :: "'w chain_env \<Rightarrow> 'w RateLimit \<Rightarrow> string list \<Rightarrow> string \<Rightarrow> ('w, 'req, 'resp) handler \<Rightarrow> ('w, 'req, 'resp) handler" where
  "unary_chain E m rolePriority fullMethod handler =
    RequestID E (AccessLog E fullMethod (Recovery E fullMethod (ErrorHandler E fullMethod
      (limited E m fullMethod (authenticated E rolePriority fullMethod handler)))))"

section \<open>What every layer keeps\<close>

lemma on_world_keeps [simp]:
  "sv_slots (snd (on_world f st)) = sv_slots st" "sv_log (snd (on_world f st)) = sv_log st"
  "fst (sv_auth (snd (on_world f st))) = fst (sv_auth st)"
  by (simp_all add: on_world_def split: prod.split)

lemma write_log_keeps [simp]:
  "sv_slots (write_log E entry st) = sv_slots st" "sv_auth (write_log E entry st) = sv_auth st"
  by (simp_all add: write_log_def)

text \<open>The request ID: not blank and short, whatever the caller sent, if UUIDs are.\<close>

definition request_id_ok :: "string \<Rightarrow> bool" where
  "request_id_ok s \<longleftrightarrow> s \<noteq> [] \<and> length s \<le> maxRequestIDLength"

lemma with_request_id_ok:
  assumes "\<And>w. request_id_ok (fst (ce_uuid E w))" "with_request_id E c st = (c1, st1)"
  shows "\<exists>requestID. cc_requestID c1 = Some requestID \<and> request_id_ok requestID" "cc_server c1 = cc_server c"
    "sv_slots st1 = sv_slots st" "sv_log st1 = sv_log st" "fst (sv_auth st1) = fst (sv_auth st)"
proof -
  define own where "own = requestIDFromMetadata c"
  define p where "p = (if own = [] \<or> maxRequestIDLength < length own then on_world (ce_uuid E) st else (own, st))"
  have ok: "request_id_ok (fst p)"
    using assms(1) by (auto simp: p_def request_id_ok_def on_world_def split: prod.split)
      (metis fst_conv)+
  have p: "sv_slots (snd p) = sv_slots st" "sv_log (snd p) = sv_log st" "fst (sv_auth (snd p)) = fst (sv_auth st)"
    by (simp_all add: p_def)
  note eq = assms(2) [unfolded with_request_id_def Let_def, folded own_def, folded p_def]
  from eq have c1: "c1 = c\<lparr>cc_requestID := Some (fst p)\<rparr>" by (auto simp: case_prod_beta)
  with ok show "\<exists>requestID. cc_requestID c1 = Some requestID \<and> request_id_ok requestID" "cc_server c1 = cc_server c"
    by simp_all
  from eq p show "sv_slots st1 = sv_slots st" "sv_log st1 = sv_log st" "fst (sv_auth st1) = fst (sv_auth st)"
    by (auto simp: case_prod_beta)
qed

section \<open>The specification of an answer\<close>

text \<open>A panic is an internal error; an error is converted; converting a typed nil panics, too.\<close>

definition answer :: "'a completion \<Rightarrow> go_error + 'a" where
  "answer r =
    (case r of
       Panics v \<Rightarrow> Inl (StatusErr Codes_Internal ''internal server error'')
     | Completes (Inr a) \<Rightarrow> Inr a
     | Completes (Inl e) \<Rightarrow>
         (case ToGRPC (Some e) of Returned (Some x) \<Rightarrow> Inl x | _ \<Rightarrow> Inl (StatusErr Codes_Internal ''internal server error'')))"

lemma answer_status: "answer r = Inl e \<Longrightarrow> status_FromError e"
  by (auto simp: answer_def dest!: ToGRPC_Returned_status split: completion.splits sum.splits go_outcome.splits option.splits)

lemma answer_refused: "status_FromError e \<Longrightarrow> answer (Completes (Inl e)) = Inl e"
  by (simp add: answer_def ToGRPC_def)

lemma answer_error: "\<exists>e'. answer (Completes (Inl e)) = Inl e'"
  by (auto simp: answer_def split: go_outcome.split option.split)

text \<open>Recovery and error conversion depend on what the inner call did only.\<close>

lemma converted:
  "\<exists>st2. Recovery E fm (ErrorHandler E fm inner) c req st = (Completes (answer (fst (inner c req st))), st2)
    \<and> sv_slots st2 = sv_slots (snd (inner c req st))"
  "inner c req st = inner' c req st \<Longrightarrow>
    Recovery E fm (ErrorHandler E fm inner) c req st = Recovery E fm (ErrorHandler E fm inner') c req st"
proof -
  show "\<exists>st2. Recovery E fm (ErrorHandler E fm inner) c req st = (Completes (answer (fst (inner c req st))), st2)
    \<and> sv_slots st2 = sv_slots (snd (inner c req st))"
    by (cases "inner c req st"; cases "fst (inner c req st)")
      (auto simp: Recovery_def ErrorHandler_def answer_def Let_def case_prod_beta split: sum.split go_outcome.split option.split)
qed (simp add: Recovery_def ErrorHandler_def)

lemma logged:
  assumes "inner c req (snd (on_world (ce_now E) st)) = (Completes r, st2)"
  shows "\<exists>d st3. AccessLog E fm inner c req st = (Completes r, st3) \<and> sv_slots st3 = sv_slots st2
    \<and> sv_log st3 = sv_log st2 @ (if ce_logger E then [access_entry fm c (error_of r) d] else [])"
  using assms by (simp add: AccessLog_def Let_def case_prod_beta) (auto simp: write_log_def)

section \<open>One call through the chain\<close>

definition limits :: "'w RateLimit \<Rightarrow> string \<Rightarrow> bool" where
  "limits m fullMethod \<longleftrightarrow> rl_enabled m \<and> \<not> has_prefix fullMethod ''/grpc.health.v1.Health/''"

lemma NewRateLimit_limits:
  "NewRateLimit limiter enabled r burst cap = Returned m \<Longrightarrow> limits m fm \<Longrightarrow> enabled \<and> 0 \<le> cap \<and> rl_capacity m = cap"
  by (auto simp: NewRateLimit_def limits_def split: if_splits)

text \<open>The admission takes a slot only when one is free, and takes nothing else.\<close>

lemma admission_of_cases:
  assumes "admission_of E m fm c st = (adm, st1)"
  shows "fst (sv_auth st1) = fst (sv_auth st) \<and>
    (case adm of
       Unlimited \<Rightarrow> \<not> limits m fm \<and> sv_slots st1 = sv_slots st
     | Slot \<Rightarrow> limits m fm \<and> sv_slots st < rl_capacity m \<and> sv_slots st1 = sv_slots st + 1
     | Refused e \<Rightarrow> limits m fm \<and> status_FromError e \<and> sv_slots st1 = sv_slots st)"
proof (cases "limits m fm")
  case False
  with assms show ?thesis by (auto simp: admission_of_def limits_def)
next
  case True
  obtain ok st2 where a: "on_world (rl_request m) st = (ok, st2)" by fastforce
  have st2: "sv_slots st2 = sv_slots st" "fst (sv_auth st2) = fst (sv_auth st)"
    using on_world_keeps [of "rl_request m" st] a by simp_all
  obtain pick st3 where s: "on_world (ce_select E) st2 = (pick, st3)" by fastforce
  have st3: "sv_slots st3 = sv_slots st" "fst (sv_auth st3) = fst (sv_auth st)"
    using on_world_keeps [of "ce_select E" st2] s st2 by simp_all
  show ?thesis using assms True st2 st3
    by (auto simp: admission_of_def limits_def a s Let_def FromContextError_def split: bool.splits option.splits if_splits)
qed

text \<open>Authentication and the handler behind it.\<close>

lemma authenticated_cases:
  fixes E :: "'w chain_env" and req :: 'req
  assumes cache: "cache_ok (ce_auth E) (sv_auth st)" and prio: "priority_ok priority"
  shows "(\<exists>c' a. admits (ce_auth E) priority (sv_auth st) fm (cc_server c) c'
      \<and> (\<forall>h :: ('w, 'req, 'resp) handler. authenticated E priority fm h c req st = h (c\<lparr>cc_server := c'\<rparr>) req (st\<lparr>sv_auth := a\<rparr>)))
    \<or> (\<exists>e a. (\<forall>c'. \<not> admits (ce_auth E) priority (sv_auth st) fm (cc_server c) c')
      \<and> (\<forall>h :: ('w, 'req, 'resp) handler. authenticated E priority fm h c req st = (Completes (Inl e), st\<lparr>sv_auth := a\<rparr>)))"
proof -
  obtain r a where run: "authenticate (ce_auth E) priority fm (cc_server c) (sv_auth st) = Returned (r, a)"
    and iff: "\<forall>c'. r = Inr c' \<longleftrightarrow> admits (ce_auth E) priority (sv_auth st) fm (cc_server c) c'"
    using web3_auth.outcome [of "ce_auth E" "sv_auth st" priority fm "cc_server c"] cache prio by blast
  show ?thesis
  proof (cases r)
    case (Inl e)
    with run iff show ?thesis by (intro disjI2 exI [of _ e] exI [of _ a]) (simp add: authenticated_def)
  next
    case (Inr c')
    with iff have "admits (ce_auth E) priority (sv_auth st) fm (cc_server c) c'" by blast
    with run Inr show ?thesis by (intro disjI1 exI [of _ c'] exI [of _ a]) (simp add: authenticated_def)
  qed
qed

text \<open>A request that reaches the handler, in the context and the state it reaches it in.\<close>

definition reaches :: "'w chain_env \<Rightarrow> 'w RateLimit \<Rightarrow> string list \<Rightarrow> string \<Rightarrow> call_ctx \<Rightarrow> 'w server_state \<Rightarrow> call_ctx \<Rightarrow> 'w server_state \<Rightarrow> bool" where
  "reaches E m priority fm c st c' st' \<longleftrightarrow>
     (\<exists>a. fst a = fst (sv_auth st) \<and> admits (ce_auth E) priority a fm (cc_server c) (cc_server c'))
   \<and> (\<exists>requestID. cc_requestID c' = Some requestID \<and> request_id_ok requestID)
   \<and> (if limits m fm then sv_slots st < rl_capacity m \<and> sv_slots st' = sv_slots st + 1 else sv_slots st' = sv_slots st)"

text \<open>The reasons for a refusal: the limits, or a caller that is not admitted.\<close>

definition may_refuse :: "'w chain_env \<Rightarrow> 'w RateLimit \<Rightarrow> string list \<Rightarrow> string \<Rightarrow> call_ctx \<Rightarrow> 'w server_state \<Rightarrow> bool" where
  "may_refuse E m priority fm c st \<longleftrightarrow>
     limits m fm \<or> (\<exists>a. fst a = fst (sv_auth st) \<and> (\<forall>c'. \<not> admits (ce_auth E) priority a fm (cc_server c) c'))"

text \<open>The last entry of the log is the access entry of the call: its error, and a sound request ID.\<close>

definition logs_access :: "string \<Rightarrow> call_ctx \<Rightarrow> go_error option \<Rightarrow> 'w server_state \<Rightarrow> bool" where
  "logs_access fm c err st \<longleftrightarrow> (\<exists>requestID d. request_id_ok requestID \<and> sv_log st \<noteq> []
     \<and> last (sv_log st) = access_entry fm (c\<lparr>cc_requestID := Some requestID\<rparr>) err d)"

lemma limited_cases:
  fixes E :: "'w chain_env" and H :: "('w, 'req, 'resp) handler set"
  assumes cache: "cache_ok (ce_auth E) (sv_auth st)" and prio: "priority_ok priority"
    and slots: "\<forall>h \<in> H. \<forall>c st. sv_slots (snd (h c req st)) = sv_slots st"
  shows "(\<exists>c' st'. (\<exists>a. fst a = fst (sv_auth st) \<and> admits (ce_auth E) priority a fm (cc_server c) (cc_server c'))
      \<and> cc_requestID c' = cc_requestID c
      \<and> (if limits m fm then sv_slots st < rl_capacity m \<and> sv_slots st' = sv_slots st + 1 else sv_slots st' = sv_slots st)
      \<and> (\<forall>h \<in> H. fst (limited E m fm (authenticated E priority fm h) c req st) = fst (h c' req st')
          \<and> sv_slots (snd (limited E m fm (authenticated E priority fm h) c req st)) = sv_slots st))
    \<or> (\<exists>e st'. may_refuse E m priority fm c st
      \<and> sv_slots st' = sv_slots st \<and> (\<forall>h :: ('w, 'req, 'resp) handler. limited E m fm (authenticated E priority fm h) c req st = (Completes (Inl e), st')))"
proof -
  obtain adm st1 where adm: "admission_of E m fm c st = (adm, st1)" by fastforce
  note facts = admission_of_cases [OF adm]
  have cache1: "cache_ok (ce_auth E) (sv_auth st1)" using cache facts by (simp add: rules_ok_def)
  show ?thesis
  proof (cases "\<exists>e. adm = Refused e")
    case True
    with adm facts show ?thesis by (intro disjI2) (auto simp: limited_def may_refuse_def)
  next
    case go: False
    define close :: "'resp completion \<times> 'w server_state \<Rightarrow> 'resp completion \<times> 'w server_state"
      where "close = (if adm = Slot then release else id)"
    have eq: "limited E m fm (authenticated E priority fm h) c req st = close (authenticated E priority fm h c req st1)" for h
      using go adm by (cases adm) (auto simp: limited_def close_def)
    have close: "fst (close r) = fst r" "sv_slots (snd (close r)) = sv_slots (snd r) - (if adm = Slot then 1 else 0)" for r
      by (auto simp: close_def release_def split: prod.split)
    have st1: "sv_slots st1 = sv_slots st + (if adm = Slot then 1 else 0)" "fst (sv_auth st1) = fst (sv_auth st)"
      "adm = Slot \<longleftrightarrow> limits m fm" "adm = Slot \<Longrightarrow> sv_slots st < rl_capacity m"
      using go facts by (cases adm; simp)+
    from authenticated_cases [where 'resp = 'resp, OF cache1 prio, of fm c req]
    show ?thesis
    proof (elim disjE exE conjE)
      fix c' a
      assume ad: "admits (ce_auth E) priority (sv_auth st1) fm (cc_server c) c'"
        and h: "\<forall>h :: ('w, 'req, 'resp) handler. authenticated E priority fm h c req st1 = h (c\<lparr>cc_server := c'\<rparr>) req (st1\<lparr>sv_auth := a\<rparr>)"
      show ?thesis
      proof (intro disjI1 exI [of _ "c\<lparr>cc_server := c'\<rparr>"] exI [of _ "st1\<lparr>sv_auth := a\<rparr>"] conjI ballI)
        show "\<exists>a. fst a = fst (sv_auth st) \<and> admits (ce_auth E) priority a fm (cc_server c) (cc_server (c\<lparr>cc_server := c'\<rparr>))"
          using ad st1(2) by (intro exI [of _ "sv_auth st1"]) simp
        show "if limits m fm then sv_slots st < rl_capacity m \<and> sv_slots (st1\<lparr>sv_auth := a\<rparr>) = sv_slots st + 1
          else sv_slots (st1\<lparr>sv_auth := a\<rparr>) = sv_slots st" using st1 by simp
        fix k assume "k \<in> H"
        then have "sv_slots (snd (k (c\<lparr>cc_server := c'\<rparr>) req (st1\<lparr>sv_auth := a\<rparr>))) = sv_slots st1" by (simp add: slots)
        then show "sv_slots (snd (limited E m fm (authenticated E priority fm k) c req st)) = sv_slots st"
          unfolding eq close h [rule_format, of k] by (simp add: st1(1))
      qed (simp_all add: eq close h)
    next
      fix e a
      assume no: "\<forall>c'. \<not> admits (ce_auth E) priority (sv_auth st1) fm (cc_server c) c'"
        and h: "\<forall>h :: ('w, 'req, 'resp) handler. authenticated E priority fm h c req st1 = (Completes (Inl e), st1\<lparr>sv_auth := a\<rparr>)"
      have "limited E m fm (authenticated E priority fm h) c req st
          = (Completes (Inl e), snd (close (Completes (Inl e), st1\<lparr>sv_auth := a\<rparr>)))" for h :: "('w, 'req, 'resp) handler"
        by (simp add: eq h prod_eq_iff close(1))
      moreover have "sv_slots (snd (close (Completes (Inl e), st1\<lparr>sv_auth := a\<rparr>))) = sv_slots st"
        by (simp add: close st1(1))
      moreover have "may_refuse E m priority fm c st" using no st1(2) unfolding may_refuse_def by blast
      ultimately show ?thesis by (intro disjI2) blast
    qed
  qed
qed

text \<open>A call through the chain: what the handler did, if the request reaches it, or a refusal.\<close>

lemma chain_call:
  fixes E :: "'w chain_env" and H :: "('w, 'req, 'resp) handler set"
  assumes uuid: "\<And>w. request_id_ok (fst (ce_uuid E w))" and prio: "priority_ok priority" and cache: "cache_ok (ce_auth E) (sv_auth st)"
    and slots: "\<forall>h \<in> H. \<forall>c st. sv_slots (snd (h c req st)) = sv_slots st"
  shows "(\<exists>c' st'. reaches E m priority fm c st c' st'
      \<and> (\<forall>h \<in> H. \<exists>st2. unary_chain E m priority fm h c req st = (Completes (answer (fst (h c' req st'))), st2)
          \<and> sv_slots st2 = sv_slots st
          \<and> (ce_logger E \<longrightarrow> logs_access fm c (error_of (answer (fst (h c' req st')))) st2)))
    \<or> (\<exists>e st2. may_refuse E m priority fm c st
      \<and> status_FromError e \<and> sv_slots st2 = sv_slots st \<and> (ce_logger E \<longrightarrow> logs_access fm c (Some e) st2)
      \<and> (\<forall>h :: ('w, 'req, 'resp) handler. unary_chain E m priority fm h c req st = (Completes (Inl e), st2)))"
proof -
  obtain c1 st1 where id: "with_request_id E c st = (c1, st1)" by fastforce
  note c1 = with_request_id_ok [OF uuid id]
  have c1eq: "c1 = c\<lparr>cc_requestID := cc_requestID c1\<rparr>"
    using id by (auto simp: with_request_id_def Let_def case_prod_beta)
  define st0 where "st0 = snd (on_world (ce_now E) st1)"
  have st0: "sv_slots st0 = sv_slots st" "fst (sv_auth st0) = fst (sv_auth st)" using c1 by (simp_all add: st0_def)
  have cache0: "cache_ok (ce_auth E) (sv_auth st0)" using cache st0 by (simp add: rules_ok_def)
  let ?in = "\<lambda>h. limited E m fm (authenticated E priority fm h)"
  have chain: "unary_chain E m priority fm h c req st
      = AccessLog E fm (Recovery E fm (ErrorHandler E fm (?in h))) c1 req st1" for h :: "('w, 'req, 'resp) handler"
    by (simp add: unary_chain_def RequestID_def id)
  have fin: "\<exists>st2. unary_chain E m priority fm h c req st = (Completes (answer r), st2)
      \<and> sv_slots st2 = sv_slots (snd (?in h c1 req st0))
      \<and> (ce_logger E \<longrightarrow> logs_access fm c (error_of (answer r)) st2)"
    if inner: "fst (?in h c1 req st0) = r" for h :: "('w, 'req, 'resp) handler" and r
  proof -
    obtain st2 where st2: "Recovery E fm (ErrorHandler E fm (?in h)) c1 req st0 = (Completes (answer r), st2)"
      "sv_slots st2 = sv_slots (snd (?in h c1 req st0))" using converted(1) [of E fm "?in h" c1 req st0] unfolding inner by blast
    from logged [of "Recovery E fm (ErrorHandler E fm (?in h))" c1 req E st1, folded st0_def, OF st2(1), of fm] st2(2)
    show ?thesis unfolding chain logs_access_def using c1eq c1(1) by fastforce
  qed
  from limited_cases [OF cache0 prio, where H = H and req = req and c = c1 and m = m and fm = fm, OF slots]
  show ?thesis
  proof (elim disjE exE conjE)
    fix c' st' a
    assume a: "fst a = fst (sv_auth st0)" "admits (ce_auth E) priority a fm (cc_server c1) (cc_server c')"
      and c': "cc_requestID c' = cc_requestID c1"
      and lim: "if limits m fm then sv_slots st0 < rl_capacity m \<and> sv_slots st' = sv_slots st0 + 1 else sv_slots st' = sv_slots st0"
      and res: "\<forall>h \<in> H. fst (?in h c1 req st0) = fst (h c' req st') \<and> sv_slots (snd (?in h c1 req st0)) = sv_slots st0"
    have "reaches E m priority fm c st c' st'" using a lim c' c1(1,2) st0 unfolding reaches_def by metis
    moreover have "\<exists>st2. unary_chain E m priority fm h c req st = (Completes (answer (fst (h c' req st'))), st2)
        \<and> sv_slots st2 = sv_slots st
        \<and> (ce_logger E \<longrightarrow> logs_access fm c (error_of (answer (fst (h c' req st')))) st2)"
      if "h \<in> H" for h
    proof -
      have r: "fst (?in h c1 req st0) = fst (h c' req st')" "sv_slots (snd (?in h c1 req st0)) = sv_slots st"
        using res that st0(1) by simp_all
      from fin [OF r(1)] r(2) show ?thesis by simp
    qed
    ultimately show ?thesis by blast
  next
    fix e st'
    assume why: "may_refuse E m priority fm c1 st0"
      and st': "sv_slots st' = sv_slots st0"
      and res: "\<forall>h :: ('w, 'req, 'resp) handler. ?in h c1 req st0 = (Completes (Inl e), st')"
    define h0 :: "('w, 'req, 'resp) handler" where "h0 = (\<lambda>c req st. (Panics [], st))"
    have same: "unary_chain E m priority fm h c req st = unary_chain E m priority fm h0 c req st" for h :: "('w, 'req, 'resp) handler"
    proof -
      have "Recovery E fm (ErrorHandler E fm (?in h)) c1 req st0 = Recovery E fm (ErrorHandler E fm (?in h0)) c1 req st0"
        by (rule converted(2)) (simp add: res)
      then show ?thesis unfolding chain AccessLog_def case_prod_beta Let_def st0_def [symmetric] by (simp only:)
    qed
    obtain e' where e': "answer (Completes (Inl e) :: 'resp completion) = Inl e'"
      using answer_error by blast
    have h0: "fst (?in h0 c1 req st0) = Completes (Inl e)" "sv_slots (snd (?in h0 c1 req st0)) = sv_slots st"
      using res st' st0(1) by simp_all
    obtain st2 where run: "unary_chain E m priority fm h0 c req st = (Completes (Inl e'), st2)" "sv_slots st2 = sv_slots st"
      and entry: "ce_logger E \<longrightarrow> logs_access fm c (Some e') st2"
      using fin [OF h0(1)] h0(2) unfolding e' by (auto simp: error_of_def)
    have "may_refuse E m priority fm c st" using why st0(2) c1(2) by (simp add: may_refuse_def)
    then show ?thesis using answer_status [OF e'] run entry same
      by (intro disjI2 exI [of _ e'] exI [of _ st2]) simp
  qed
qed

text \<open>C33: A call of the Web3 service always completes, even if its handler panics, and its errors carry a gRPC
  status. It gives back the concurrency slot that it took, and the log ends with its access entry, under a
  request ID that is not empty and not long. Either the request reached the handler, for an admitted caller
  and with a free slot, and the answer is the handler's; or it was refused, and no handler could matter.\<close>

theorem web3_call:
  fixes E :: "'w chain_env" and h :: "('w, 'req, 'resp) handler"
  assumes auth: "NewAuthInterceptor cfg = Inr priority" and limit: "NewRateLimit limiter enabled r burst cap = Returned m"
    and uuid: "\<forall>w. request_id_ok (fst (ce_uuid E w))" and logger: "ce_logger E" and cache: "cache_ok (ce_auth E) (sv_auth st)"
    and slots: "\<forall>c st. sv_slots (snd (h c req st)) = sv_slots st"
  shows "\<exists>result st2. unary_chain E m priority fm h c req st = (Completes result, st2)
    \<and> sv_slots st2 = sv_slots st \<and> logs_access fm c (error_of result) st2 \<and> (\<forall>e. result = Inl e \<longrightarrow> status_FromError e)
    \<and> ((\<exists>c' st'. reaches E m priority fm c st c' st' \<and> result = answer (fst (h c' req st'))
          \<and> (limits m fm \<longrightarrow> sv_slots st' \<le> cap))
      \<or> may_refuse E m priority fm c st
        \<and> (\<exists>e. result = Inl e \<and> (\<forall>h' :: ('w, 'req, 'resp) handler. unary_chain E m priority fm h' c req st = (Completes (Inl e), st2))))"
proof -
  have "\<forall>h \<in> {h}. \<forall>c st. sv_slots (snd (h c req st)) = sv_slots st" using slots by simp
  from chain_call [OF uuid [rule_format] NewAuthInterceptor_priority [OF auth] cache this, of m fm c]
  show ?thesis
  proof (elim disjE exE conjE)
    fix c' st'
    assume r: "reaches E m priority fm c st c' st'" and res: "\<forall>h \<in> {h}. \<exists>st2. unary_chain E m priority fm h c req st =
          (Completes (answer (fst (h c' req st'))), st2) \<and> sv_slots st2 = sv_slots st
        \<and> (ce_logger E \<longrightarrow> logs_access fm c (error_of (answer (fst (h c' req st')))) st2)"
    have "limits m fm \<longrightarrow> sv_slots st' \<le> cap" using r NewRateLimit_limits [OF limit] by (auto simp: reaches_def)
    with r res logger answer_status show ?thesis by blast
  next
    fix e st2
    assume "may_refuse E m priority fm c st" "status_FromError e" "sv_slots st2 = sv_slots st"
      "ce_logger E \<longrightarrow> logs_access fm c (Some e) st2"
      "\<forall>h :: ('w, 'req, 'resp) handler. unary_chain E m priority fm h c req st = (Completes (Inl e), st2)"
    with logger show ?thesis by (intro exI [of _ "Inl e"] exI [of _ st2]) (simp add: error_of_def)
  qed
qed

text \<open>A panic behind an enabled limit with one slot.\<close>

definition sample_chain_env :: "unit chain_env" where
  "sample_chain_env = \<lparr>ce_auth = sample_rule_env, ce_uuid = (\<lambda>w. (''uuid'', w)), ce_SetAttributes = (\<lambda>c k v w. w),
     ce_SetHeader = (\<lambda>c k v w. (None, w)), ce_RecordError = (\<lambda>c e d w. w), ce_now = (\<lambda>w. (0, w)), ce_Err = (\<lambda>c w. None),
     ce_select = (\<lambda>w. (True, w)), ce_logger = True\<rparr>"

definition sample_limit :: "unit RateLimit" where
  "sample_limit = \<lparr>rl_enabled = True, rl_request = (\<lambda>w. (True, w)), rl_capacity = 1\<rparr>"

definition sample_request :: call_ctx where
  "sample_request = \<lparr>cc_server = sample_call, cc_requestID = None, cc_span = None\<rparr>"

definition sample_start :: "unit server_state" where
  "sample_start = \<lparr>sv_auth = ([], ()), sv_slots = 0, sv_log = []\<rparr>"

definition sample_answer :: "unit completion \<Rightarrow> unit completion" where
  "sample_answer r = fst (unary_chain sample_chain_env sample_limit [''super-admin'', ''user''] ''/s/m''
     (\<lambda>c (req :: unit) st. (r, st)) sample_request () sample_start)"

lemma sample_answers:
  "sample_answer (Panics ''boom'') = Completes (Inl (StatusErr Codes_Internal ''internal server error''))"
  "sample_answer (Completes (Inr ())) = Completes (Inr ())"
  by code_simp+

theorem web3_call_witness:
  "\<exists>st2. unary_chain sample_chain_env sample_limit [''super-admin'', ''user''] ''/s/m'' (\<lambda>c (req :: unit) st. (Panics ''boom'', st))
      sample_request () sample_start = (Completes (Inl (StatusErr Codes_Internal ''internal server error'') :: go_error + unit), st2)
    \<and> sv_slots st2 = 0 \<and> (\<exists>d. le_request_id (last (sv_log st2)) = Some d)"
proof -
  let ?h = "\<lambda>c (req :: unit) (st :: unit server_state). (Panics ''boom'' :: unit completion, st)"
  have limit: "NewRateLimit (\<lambda>r b w. (True, w)) True () 1 1 = Returned sample_limit"
    by (simp add: NewRateLimit_def sample_limit_def)
  have uuid: "\<forall>w. request_id_ok (fst (ce_uuid sample_chain_env w))"
    by (simp add: sample_chain_env_def request_id_ok_def maxRequestIDLength_def)
  have rest: "ce_logger sample_chain_env" "cache_ok (ce_auth sample_chain_env) (sv_auth sample_start)"
    by (simp_all add: sample_chain_env_def sample_start_def rules_ok_start)
  from web3_call [OF sample_priority limit uuid rest, of ?h "()" "''/s/m''" sample_request]
  obtain result st2 where run: "unary_chain sample_chain_env sample_limit [''super-admin'', ''user''] ''/s/m'' ?h sample_request () sample_start
      = (Completes result, st2)" "sv_slots st2 = sv_slots sample_start" "logs_access ''/s/m'' sample_request (error_of result) st2"
    by auto
  from run(1) sample_answers(1) have "result = Inl (StatusErr Codes_Internal ''internal server error'')" by (simp add: sample_answer_def)
  with run show ?thesis
    by (intro exI [of _ st2]) (auto simp: logs_access_def sample_start_def access_entry_def observabilityFields_def Let_def
        RequestIDFromContext_def request_id_ok_def)
qed

end
