(* ===== verification/Web3_Wiring.thy ===== *)
theory Web3_Wiring
  imports Approval_Budget Transaction_Service Scanner_Service Web3_Chain
begin

text \<open>
  The construction of the services from a configuration, \<open>web3/internal/svc/servicecontext.go\<close>, with what a
  configuration that \<open>Validate\<close> accepts guarantees for it. Connections to databases, Redis and Consul are made
  elsewhere; the repositories are made from the write connection of the database, which may be missing.
\<close>

record 'w repositories =
  rp_wallets :: "'w WalletRepository"
  rp_transactions :: "'w TransactionRepository"
  rp_scanner :: "'w ScannerRepository"
  rp_usage :: "'w UsageRepository"

record 'w ServiceContext =
  sx_Config :: Config
  sx_Redis :: "'w redis_client"
  sx_Wallets :: "'w WalletService"
  sx_Balances :: "'w BalanceService"
  sx_Transactions :: "'w TransactionService"
  sx_Approvals :: "'w TronApprovalService"
  sx_Scanner :: "'w ScannerService"
  sx_Blockchain :: "'w ClientManager"
  sx_Tron :: "'w TronClient"

text \<open>What the constructors take from libraries and from the runtime.\<close>

record 'w wiring =
  wi_platform :: "'w platform"
  wi_order :: "'w pool_order"
  wi_dial :: "'w dialFunc"
  wi_parse_url :: "string \<Rightarrow> go_error + url"
  wi_Do :: "http_request \<Rightarrow> 'w \<Rightarrow> (go_error + http_response) \<times> 'w"
  wi_json :: tron_json
  wi_abi_error :: "go_error option"
  wi_approval_platform :: "'w TronApprovalService"
  wi_approval_logger :: "log_severity \<Rightarrow> string \<Rightarrow> go_error \<Rightarrow> 'w \<Rightarrow> 'w"

definition redis_cache :: "'w redis_client \<Rightarrow> 'w approvalCache" where
  "redis_cache rc = \<lparr>ca_Get = rc_Get rc, ca_Set = rc_Set rc\<rparr>"

definition NewServiceContext :: "'w wiring \<Rightarrow> Config option \<Rightarrow> 'w redis_client option \<Rightarrow> 'w repositories option option \<Rightarrow> bool
    \<Rightarrow> 'w \<Rightarrow> (go_error + 'w ServiceContext) \<times> 'w" where
  "NewServiceContext A cfg redisClient database logger w =
    (case (cfg, redisClient, database, logger) of
       (Some cfg, Some redis, Some db, True) \<Rightarrow>
         (case db of
            None \<Rightarrow> (Inl (InvalidArgument ''Web3 database is not initialized''), w)
          | Some repos \<Rightarrow>
              let pd = p_ParseDuration (wi_platform A)
              in case NewNonceStore (wi_platform A) (Some redis) (cfg_WalletSignature cfg) of
                   Inl err \<Rightarrow> (Inl err, w)
                 | Inr nonceStore \<Rightarrow>
              (case NewWalletService (Some (rp_wallets repos)) (Some nonceStore) True (cfg_Blockchain cfg) of
                 Inl err \<Rightarrow> (Inl err, w)
               | Inr walletService \<Rightarrow>
              (case newClientManager pd (wi_order A) (cfg_Blockchain cfg) (Some (wi_dial A)) w of
                 (Inl err, w) \<Rightarrow> (Inl err, w)
               | (Inr blockchainClients, w) \<Rightarrow>
              (let close = (\<lambda>err. (Inl err, snd (cm_Close (wi_order A) (blockchainClients, w))))
               in case NewBalanceService pd (wi_abi_error A) (Some (rp_wallets repos)) True (Some redis) (cfg_Blockchain cfg) of
                 Inl err \<Rightarrow> close err
               | Inr balanceService \<Rightarrow>
              (case NewTransactionService (Some (rp_wallets repos)) (Some (rp_transactions repos)) True of
                 Inl err \<Rightarrow> close err
               | Inr transactionService \<Rightarrow>
              (case NewClient pd (wi_parse_url A) (wi_Do A) (wi_json A) (cfg_TronApprovals cfg) of
                 Inl err \<Rightarrow> close err
               | Inr tronClient \<Rightarrow>
              (case NewTronApprovalService pd (Some (tron_upstream tronClient)) (Some (redis_cache redis))
                  (Some (usage_repository (rp_usage repos))) (Some (wi_approval_logger A)) (cfg_TronApprovals cfg) (wi_approval_platform A) of
                 Inl err \<Rightarrow> close err
               | Inr approvalService \<Rightarrow>
              (case NewScannerService (Some (rp_wallets repos)) (Some (rp_transactions repos)) (Some (rp_scanner repos)) True
                  (blk_Scanner (cfg_Blockchain cfg)) of
                 Inl err \<Rightarrow> close err
               | Inr scannerService \<Rightarrow>
                   (Inr \<lparr>sx_Config = cfg, sx_Redis = redis, sx_Wallets = walletService, sx_Balances = balanceService,
                      sx_Transactions = transactionService, sx_Approvals = approvalService, sx_Scanner = scannerService,
                      sx_Blockchain = blockchainClients, sx_Tron = tronClient\<rparr>, w)))))))))
     | _ \<Rightarrow> (Inl (InvalidArgument ''Web3 service context dependencies are incomplete''), w))"

section \<open>From an accepted configuration\<close>

text \<open>What \<open>Validate\<close> cannot know: the nodes answer, the URLs are HTTPS origins, the contract is an address.\<close>

definition reachable_chains :: "'w wiring \<Rightarrow> Config \<Rightarrow> bool" where
  "reachable_chains A cfg \<longleftrightarrow> (\<forall>u w. \<exists>c w'. wi_dial A u w = (Inr c, w'))
     \<and> (\<forall>ch \<in> set (blk_Chains (cfg_Blockchain cfg)). ch_Enabled ch \<longrightarrow> (\<exists>u \<in> set (ch_RPCURLs ch). \<not> blank u))"

definition tron_endpoints :: "'w wiring \<Rightarrow> TronApprovalConfig \<Rightarrow> bool" where
  "tron_endpoints A t \<longleftrightarrow> (\<exists>a b p. parseHTTPSBaseURL (wi_parse_url A) (ta_TronScanBaseURL t) = Inr a
     \<and> parseHTTPSBaseURL (wi_parse_url A) (ta_TronGridBaseURL t) = Inr b \<and> DecodeMainnetAddress (ta_USDTContract t) = Inr p)"

text \<open>\<open>Validate\<close> checks the approval and the scanner sections only if they are enabled; the constructors always do.\<close>

definition sections_filled :: "parse_duration \<Rightarrow> Config \<Rightarrow> bool" where
  "sections_filled pd cfg \<longleftrightarrow> (let t = cfg_TronApprovals cfg in
     (ta_Enabled t \<or> positive_duration pd (ta_CacheTTL t) \<and> positive_duration pd (ta_RequestTimeout t) \<and> 1 \<le> ta_PageSize t
       \<and> ta_PageSize t \<le> 50 \<and> 1 \<le> ta_MaxPages t \<and> 1 \<le> ta_MaxSpenders t \<and> 1 \<le> ta_VerifyWorkers t)
   \<and> (scan_Enabled (blk_Scanner (cfg_Blockchain cfg)) \<or> 0 < scan_BatchSize (blk_Scanner (cfg_Blockchain cfg))))"

lemma dial_urls_clients:
  fixes dial :: "'w dialFunc"
  assumes "\<forall>u w. \<exists>c w'. dial u w = (Inr c, w')"
  shows "\<exists>u \<in> set us. \<not> blank u \<Longrightarrow> fst (dial_urls dial us cs es w) \<noteq> []"
    "cs \<noteq> [] \<Longrightarrow> fst (dial_urls dial us cs es w) \<noteq> []"
proof (induction us arbitrary: cs es w)
  case (Cons u us)
  { case (1 cs es w)
    obtain c w' where "dial (TrimSpace u) w = (Inr c, w')" using assms by blast
    with 1 Cons.IH show ?case by (auto simp: Let_def blank_def) }
  { case (2 cs es w)
    obtain c w' where "dial (TrimSpace u) w = (Inr c, w')" using assms by blast
    with 2 Cons.IH(2) show ?case by (auto simp: Let_def) }
qed simp_all

lemma connect_chains_ok:
  fixes dial :: "'w dialFunc"
  assumes "\<forall>u w. \<exists>c w'. dial u w = (Inr c, w')"
  shows "\<forall>ch \<in> set cs. ch_Enabled ch \<longrightarrow> (\<exists>u \<in> set (ch_RPCURLs ch). \<not> blank u) \<Longrightarrow>
    \<exists>m' w'. connect_chains order dial cs m w = (Inr m', w')"
proof (induction cs arbitrary: m w)
  case (Cons ch cs)
  obtain clients es w1 where d: "dial_urls dial (ch_RPCURLs ch) [] [] w = (clients, es, w1)" by (metis surj_pair)
  show ?case
  proof (cases "ch_Enabled ch")
    case True
    with Cons.prems dial_urls_clients(1) [OF assms, where us = "ch_RPCURLs ch" and cs = "[]" and es = "[]" and w = w] d have "clients \<noteq> []" by simp
    with Cons True d show ?thesis by simp
  qed (use Cons in simp)
qed simp

text \<open>What an accepted configuration says of the sections that the constructors read.\<close>

lemma Validate_sections:
  assumes "Validate pd perm cfg = None" "map_order_ok perm"
  shows "positive_duration pd (wsc_NonceTTL (cfg_WalletSignature cfg))" "16 \<le> wsc_NonceBytes (cfg_WalletSignature cfg)"
    "positive_duration pd (blk_RequestTimeout (cfg_Blockchain cfg))" "positive_duration pd (blk_BalanceCacheTTL (cfg_Blockchain cfg))"
    "scan_Enabled (blk_Scanner (cfg_Blockchain cfg)) \<Longrightarrow> 0 < scan_BatchSize (blk_Scanner (cfg_Blockchain cfg))"
    "validate_tron pd (cfg_TronApprovals cfg) = None"
    "validate_auth cfg = None" "validate_runtime cfg = None" "validate_chains [] (blk_Chains (cfg_Blockchain cfg)) = None"
proof -
  have parts: "validate_timing pd perm cfg = None" "validate_wallet cfg = None" "validate_tron pd (cfg_TronApprovals cfg) = None"
    "validate_auth cfg = None" "validate_runtime cfg = None" "validate_chains [] (blk_Chains (cfg_Blockchain cfg)) = None"
    using assms(1) unfolding Validate_def by simp_all
  from parts(1) show "positive_duration pd (wsc_NonceTTL (cfg_WalletSignature cfg))"
    "positive_duration pd (blk_RequestTimeout (cfg_Blockchain cfg))" "positive_duration pd (blk_BalanceCacheTTL (cfg_Blockchain cfg))"
    using durations_None [OF assms(2)] by (simp_all add: validate_timing_def)
  from parts(2) show "16 \<le> wsc_NonceBytes (cfg_WalletSignature cfg)"
    "scan_Enabled (blk_Scanner (cfg_Blockchain cfg)) \<Longrightarrow> 0 < scan_BatchSize (blk_Scanner (cfg_Blockchain cfg))"
    by (simp_all add: validate_wallet_def Let_def)
qed (use assms(1) in \<open>simp_all add: Validate_def\<close>)

lemma approval_section:
  assumes "validate_tron pd t = None"
    "ta_Enabled t \<or> positive_duration pd (ta_CacheTTL t) \<and> positive_duration pd (ta_RequestTimeout t) \<and> 1 \<le> ta_PageSize t
       \<and> ta_PageSize t \<le> 50 \<and> 1 \<le> ta_MaxPages t \<and> 1 \<le> ta_MaxSpenders t \<and> 1 \<le> ta_VerifyWorkers t"
  shows "positive_duration pd (ta_CacheTTL t)" "positive_duration pd (ta_RequestTimeout t)"
    "1 \<le> ta_PageSize t" "ta_PageSize t \<le> 50" "1 \<le> ta_MaxPages t" "1 \<le> ta_MaxSpenders t" "1 \<le> ta_VerifyWorkers t"
    "ta_Enabled t \<Longrightarrow> 32 \<le> length (ta_UsageHMACKey t) \<and> 0 < ta_DailyQueryLimit t \<and> 0 < ta_DailyAddressLimit t \<and> 0 < ta_DailyUpstreamCallLimit t"
  using assms by (auto simp: validate_tron_def not_less split: if_splits)

lemma positive_durationE: "positive_duration pd v \<Longrightarrow> (\<And>d. pd v = Inr d \<Longrightarrow> 0 < d \<Longrightarrow> thesis) \<Longrightarrow> thesis"
  by (auto simp: positive_duration_def)

lemma NewClient_ok:
  assumes "tron_endpoints A t" "positive_duration pd (ta_RequestTimeout t)"
  shows "\<exists>c. NewClient pd (wi_parse_url A) do_request json t = Inr c \<and> tc_enabled c = ta_Enabled t"
  using assms by (auto simp: NewClient_def tron_endpoints_def elim!: positive_durationE)

lemma NewTronApprovalService_ok:
  assumes "positive_duration pd (ta_CacheTTL t)" "1 \<le> ta_PageSize t" "ta_PageSize t \<le> 50" "1 \<le> ta_MaxPages t" "1 \<le> ta_MaxSpenders t"
    "1 \<le> ta_VerifyWorkers t"
    "ta_Enabled t \<Longrightarrow> 32 \<le> length (ta_UsageHMACKey t) \<and> 0 < ta_DailyQueryLimit t \<and> 0 < ta_DailyAddressLimit t \<and> 0 < ta_DailyUpstreamCallLimit t"
  shows "\<exists>s. NewTronApprovalService pd (Some up) (Some ca) (Some us) (Some lg) t platform = Inr s \<and> as_upstream s = up \<and> as_usage s = us"
  using assms(1) by (rule positive_durationE) (use assms(2-) in \<open>auto simp: NewTronApprovalService_def not_less\<close>)

lemma served_chain:
  assumes "newClientManager pd order cfg dial w = (Inr m, w')" "distinct (map ch_ChainID (blk_Chains cfg))"
    "ch \<in> set (blk_Chains cfg)" "ch_Enabled ch"
  shows "Chain m (ch_ChainID ch) = Some ch"
proof -
  have "find (\<lambda>c. ch_Enabled c \<and> ch_ChainID c = ch_ChainID ch) (rev (blk_Chains cfg)) = Some ch"
  proof -
    have "\<exists>c. find (\<lambda>c. ch_Enabled c \<and> ch_ChainID c = ch_ChainID ch) (rev (blk_Chains cfg)) = Some c"
      using assms(3,4) by (cases "find (\<lambda>c. ch_Enabled c \<and> ch_ChainID c = ch_ChainID ch) (rev (blk_Chains cfg))")
        (auto simp: find_None_iff)
    then obtain c where c: "find (\<lambda>c. ch_Enabled c \<and> ch_ChainID c = ch_ChainID ch) (rev (blk_Chains cfg)) = Some c" by blast
    then have "c \<in> set (blk_Chains cfg)" "ch_ChainID c = ch_ChainID ch"
      by (auto simp: find_Some_iff) (metis length_rev nth_mem set_rev)
    with assms(2,3) have "c = ch" by (auto simp: distinct_map inj_on_def)
    with c show ?thesis by simp
  qed
  then show ?thesis using newClientManager_serves [OF assms(1), of "ch_ChainID ch"] by simp
qed

lemma auth_interceptor_built:
  assumes "validate_auth cfg = None"
  shows "(\<exists>priority. NewAuthInterceptor (cfg_Auth cfg) = Inr priority)
    = (\<exists>r \<in> set (at_RolePriority (ac_AccessToken (cfg_Auth cfg))). \<not> blank r)"
proof -
  have "TrimSpace ''RS256'' = ''RS256''" by (rule TrimSpace_plain) (simp add: plain_char_def)
  moreover have "filter (\<lambda>r. r \<noteq> []) (map normalizeRole (at_RolePriority (ac_AccessToken (cfg_Auth cfg)))) \<noteq> []
      \<longleftrightarrow> (\<exists>r \<in> set (at_RolePriority (ac_AccessToken (cfg_Auth cfg))). \<not> blank r)"
    by (auto simp: filter_empty_conv normalizeRole_def replace_char_def blank_def)
  ultimately show ?thesis using assms by (auto simp: NewAuthInterceptor_def validate_auth_def Let_def blank_def)
qed


text \<open>A configuration with one chain, without database, Redis, Consul and RabbitMQ, and with approvals disabled.\<close>

definition sample_contract :: string where
  "sample_contract = EncodeAddress (0x41 # replicate 20 7)"

definition sample_tron_section :: TronApprovalConfig where
  "sample_tron_section = sample_approval_config\<lparr>ta_Enabled := False, ta_USDTContract := sample_contract\<rparr>"

definition sample_config :: Config where
  "sample_config = \<lparr>cfg_Environment = ''test'', cfg_Name = ''web3'', cfg_Version = ''1'', cfg_Host = ''h'', cfg_GRPCPort = 9000,
     cfg_AdvertiseHost = ''h'',
     cfg_Database = \<lparr>db_Enabled = False, db_Driver = [], db_Host = [], db_Port = 0, db_Username = [], db_Password = [], db_DBName = [],
       db_SSLMode = [], db_TimeZone = [], db_ConnectTimeout = [], db_ReadWriteSplitEnabled = False, db_ReplicaAddresses = [],
       db_MaxIdleConns = 0, db_MaxOpenConns = 0, db_ConnMaxIdleTime = [], db_ConnMaxLifetime = []\<rparr>,
     cfg_Redis = \<lparr>rd_Enabled = False, rd_Host = [], rd_Port = 0, rd_ClusterAddresses = [], rd_Password = [], rd_DB = 0, rd_KeyPrefix = [],
       rd_PoolSize = 0, rd_MinIdleConns = 0, rd_MaxIdleConns = 0, rd_ConnMaxIdleTime = [], rd_ConnMaxLifetime = [], rd_DialTimeout = [],
       rd_ReadTimeout = [], rd_WriteTimeout = [], rd_PoolTimeout = [], rd_HealthRequired = False\<rparr>,
     cfg_RabbitMQ = \<lparr>mq_Enabled = False, mq_Host = [], mq_Port = 0, mq_Username = [], mq_Password = [], mq_VHost = [],
       mq_ConnectionName = [], mq_Heartbeat = [], mq_DialTimeout = [], mq_ReconnectInterval = [], mq_PublishConfirmTimeout = [],
       mq_PrefetchCount = 0, mq_ChainEvent = \<lparr>mqe_Exchange = [], mqe_ExchangeType = [], mqe_RoutingKey = [], mqe_Queue = [],
         mqe_RetryExchange = [], mqe_RetryRoutingKey = [], mqe_RetryQueue = [], mqe_RetryDelay = [], mqe_MaxRetries = 0,
         mqe_DeadLetterExchange = [], mqe_DeadLetterRoutingKey = [], mqe_DeadLetterQueue = []\<rparr>\<rparr>,
     cfg_Auth = sample_auth_config,
     cfg_GRPC = \<lparr>gc_UseTLS = False, gc_TLSServerName = [], gc_CertFile = [], gc_KeyFile = [], gc_ClientCAFile = [],
       gc_Health = \<lparr>gh_Enabled = True, gh_Service = []\<rparr>, gc_MaxRecvMessageSize = 0, gc_MaxSendMessageSize = 0\<rparr>,
     cfg_Consul = \<lparr>cc_Enabled = False, cc_Host = [], cc_Port = 0, cc_Token = [], cc_Scheme = [], cc_CheckHost = [], cc_CheckInterval = [],
       cc_CheckTimeout = [], cc_DeregisterCriticalAfter = [], cc_RuntimeConfigKey = [], cc_RuntimeConfigRequired = False,
       cc_RegistrationRequired = False, cc_DeregisterOnShutdown = False,
       cc_RegistrationMaintenance = \<lparr>rm_Enabled = False, rm_Interval = [], rm_MaxBackoff = []\<rparr>\<rparr>,
     cfg_WalletSignature = \<lparr>wsc_Domain = ''d'', wsc_URI = ''u'', wsc_Statement = ''s'', wsc_NonceTTL = ''5m'', wsc_NonceBytes = 32,
       wsc_AllowedClockSkew = ''5s''\<rparr>,
     cfg_Blockchain = sample_blockchain, cfg_TronApprovals = sample_tron_section,
     cfg_Logger = \<lparr>lg_Level = [], lg_Format = [], lg_Filename = [], lg_MaxSize = 0, lg_MaxBackups = 0, lg_MaxAge = 0, lg_Compress = False\<rparr>,
     cfg_Tracing = \<lparr>tc_Enabled = False, tc_ServiceName = [], tc_Endpoint = [], tc_SamplerType = [], tc_SamplerParam = 0, tc_UseTLS = False,
       tc_CAFile = [], tc_CertFile = [], tc_KeyFile = [], tc_ServerName = []\<rparr>,
     cfg_RateLimit = \<lparr>rl_Enabled = True, rl_RequestsPerSecond = 10, rl_Burst = 20, rl_MaxUnaryConcurrency = 8, rl_MaxStreamConcurrency = 1\<rparr>,
     cfg_Pprof = \<lparr>pp_Enabled = False, pp_Host = [], pp_Port = 0, pp_AllowRemote = False, pp_BlockProfileRate = 0, pp_MutexProfileFraction = 0\<rparr>,
     cfg_Shutdown = \<lparr>sd_Timeout = ''5s''\<rparr>\<rparr>"

definition sample_wiring :: "nat list wiring" where
  "sample_wiring = \<lparr>wi_platform = sample_platform\<lparr>p_ParseDuration := (\<lambda>s. Inr 60)\<rparr>, wi_order = (\<lambda>ps. ps),
     wi_dial = (\<lambda>u w. (Inr (sample_node 1 True), w)),
     wi_parse_url = (\<lambda>s. Inr \<lparr>url_Scheme = ''https'', url_Host = ''tron'', url_User = None, url_Path = [], url_Query = []\<rparr>),
     wi_Do = (\<lambda>r w. (Inl (PlainErr ''refused''), w)), wi_json = \<lparr>json_page = (\<lambda>s. Inl (PlainErr [])), json_risk = (\<lambda>s. Inl (PlainErr [])),
       json_constant = (\<lambda>s. Inl (PlainErr []))\<rparr>,
     wi_abi_error = None, wi_approval_platform = sample_approval_service sample_usage_of, wi_approval_logger = (\<lambda>l op e w. w)\<rparr>"

lemma blank_plain: "s \<noteq> [] \<Longrightarrow> \<forall>c \<in> set s. plain_char c \<Longrightarrow> \<not> blank s"
  by (simp add: blank_def TrimSpace_plain)

lemma sample_config_valid: "Validate (\<lambda>s. Inr 60) (\<lambda>kvs. kvs) sample_config = None"
proof -
  have b: "\<not> blank ''web3''" "\<not> blank ''h''" "\<not> blank ''d''" "\<not> blank ''u''" "\<not> blank ''s''" "\<not> blank ''i''" "\<not> blank ''a''"
    "\<not> blank ''k''" "\<not> blank ''chain''"
    by (rule blank_plain; simp add: plain_char_def)+
  show ?thesis
    by (simp add: Validate_def sample_config_def validate_identity_def validPort_def b validate_database_def validate_redis_def
        validate_rabbitmq_def validate_auth_def sample_auth_config_def validate_consul_def validate_timing_def durations_def
        positive_duration_def validate_wallet_def sample_blockchain_def validate_tron_def sample_tron_section_def validate_runtime_def
        plain_chain_def Let_def)
qed


text \<open>A configuration without role priority is accepted, and the authentication interceptor is not built.\<close>

lemma unchecked_roles:
  "Validate (\<lambda>s. Inr 60) (\<lambda>kvs. kvs)
     (sample_config\<lparr>cfg_Auth := \<lparr>ac_AccessToken = (ac_AccessToken sample_auth_config)\<lparr>at_RolePriority := []\<rparr>\<rparr>\<rparr>) = None"
  "NewAuthInterceptor \<lparr>ac_AccessToken = (ac_AccessToken sample_auth_config)\<lparr>at_RolePriority := []\<rparr>\<rparr> \<noteq> Inr priority"
  using sample_config_valid
  by (simp_all add: Validate_def sample_config_def validate_tron_def validate_identity_def validate_auth_def sample_auth_config_def
      validate_timing_def validate_wallet_def validate_runtime_def NewAuthInterceptor_def Let_def)

text \<open>
  Disabled is not enough: with approvals disabled and their section left empty, the configuration is accepted and
  the program does not start.
\<close>

lemma disabled_section_required:
  assumes "ta_PageSize (cfg_TronApprovals cfg) < 1"
  shows "\<not> (\<exists>sx w'. NewServiceContext A (Some cfg) redis repos logger w = (Inr sx, w'))"
proof -
  have "NewTronApprovalService pd (Some up) (Some ca) (Some us) (Some lg) (cfg_TronApprovals cfg) p \<noteq> Inr s" for pd and up :: "'a approvalUpstream" and ca us lg p s
    using assms by (auto simp: NewTronApprovalService_def split: sum.split)
  then show ?thesis
    by (auto simp: NewServiceContext_def Let_def split: option.splits bool.splits sum.splits prod.splits)
qed

lemma disabled_section_accepted:
  "Validate (\<lambda>s. Inr 60) (\<lambda>kvs. kvs) (sample_config\<lparr>cfg_TronApprovals := sample_tron_section\<lparr>ta_PageSize := 0\<rparr>\<rparr>) = None"
  using sample_config_valid
  by (simp add: Validate_def sample_config_def validate_tron_def sample_tron_section_def validate_identity_def validate_auth_def
      validate_timing_def validate_wallet_def validate_runtime_def Let_def)

end
