(* ===== verification/Spec2Isabelle.thy ===== *)
theory Spec2Isabelle
  imports Admin_Info Admin_Limit Client_Manager Gateway_Http Grpc_Discovery Log_Reliability Scanner_Cursor User_Auth User_Service Web3_Wiring
begin

text \<open>
  Verification library of the Go services of the repository: the Web3 service (\<^verbatim>\<open>src/web3\<close>), the user
  service (\<^verbatim>\<open>src/user\<close>), the admin service (\<^verbatim>\<open>src/admin\<close>) and the HTTP gateway (\<^verbatim>\<open>src/gateway\<close>). Paths below
  are under \<^verbatim>\<open>src/\<close>.

  THE PROGRAM. Clients reach the system through an HTTP gateway that checks the token, the roles and the rate limit of
  a request and forwards it as a gRPC call to the user, admin or LLM service; the user service forwards to the Web3 service. A call of the Web3 service passes the interceptors of \<^verbatim>\<open>web3/internal/middleware\<close>
  (request ID, access log, recovery from panics, error conversion, rate limit, authentication) before one of
  four services handles it: wallets (binding of an address by a signed one-time challenge), balances (EVM nodes
  and a Redis cache), transactions (EVM nodes and eight sharded tables) and the check of TRON USDT approvals
  (paid providers under a daily budget). A scanner follows the enabled chains in the background. The user
  service stores the user of a verified subject in the shard of its Snowflake ID. The admin service answers an administrator
  who binds an account at the first login, consumes
  the operation log from RabbitMQ, limits the calls of an administrator by a sliding window in Redis, and takes
  these limits from a configuration that it watches in Consul. Services call each other over connections that a
  manager shares between requests.

  THE LIBRARY, from the bottom up.

  \<^item> \<^theory_text>\<open>Go_Prelude\<close>: byte strings, the functions of \<^verbatim>\<open>strings\<close>, \<^verbatim>\<open>strconv\<close> and \<^verbatim>\<open>sort\<close> that the code calls, Go's
    \<^verbatim>\<open>int\<close>, \<^verbatim>\<open>int64\<close> and \<^verbatim>\<open>uint64\<close> with their wrap-around. \<^theory_text>\<open>Go_Monad\<close>: functions with effects that may return an
    error or panic, with \<^verbatim>\<open>keeps\<close> lemmas for the invariants they preserve.
  \<^item> \<^theory_text>\<open>App_Error\<close> is \<^verbatim>\<open>web3/pkg/apperror/apperror.go\<close>: the error chains of \<^verbatim>\<open>errors.Is\<close> and \<^verbatim>\<open>errors.As\<close>, the
    constructors and the conversion to a gRPC status.
  \<^item> \<^theory_text>\<open>Gorm\<close> and \<^theory_text>\<open>Gorm_Upsert\<close>: the database handle as a record of functions over an abstract world with the
    documented laws as predicates (\<^verbatim>\<open>gorm_ok\<close>), and a list as an instance. \<^theory_text>\<open>Redis_Client\<close> is
    \<^verbatim>\<open>web3/internal/redis/client.go\<close> over a go-redis client with the same treatment.
  \<^item> \<^theory_text>\<open>Web3_Config\<close> is \<^verbatim>\<open>web3/internal/config/config.go\<close> (records and \<^verbatim>\<open>Validate\<close>).
  \<^item> \<^theory_text>\<open>Sharding\<close> and \<^theory_text>\<open>Snowflake\<close> are the routers of both services and \<^verbatim>\<open>user/internal/idgen/snowflake.go\<close>;
    \<^theory_text>\<open>Tron_Address\<close> is \<^verbatim>\<open>web3/internal/tron/address.go\<close> with Base58, SHA-256 and hexadecimal digits computed.
  \<^item> \<^theory_text>\<open>Nonce\<close> (\<^verbatim>\<open>web3/internal/wallet\<close>), \<^theory_text>\<open>Wallet_Repo\<close> and \<^theory_text>\<open>Wallet_Service\<close>: wallets, from the challenge to the table.
  \<^item> \<^theory_text>\<open>Chain_Client\<close> (\<^verbatim>\<open>web3/internal/blockchain/client.go\<close>), \<^theory_text>\<open>Evm\<close> and \<^theory_text>\<open>Balance_Service\<close>: reads of a chain with
    rotation over its nodes, and balances with their cache.
  \<^item> \<^theory_text>\<open>Transaction_Repo\<close> and \<^theory_text>\<open>Transaction_Service\<close>: snapshots of transactions and their pages.
  \<^item> \<^theory_text>\<open>Scanner_Repo\<close>, \<^theory_text>\<open>Scanner_Service\<close> and \<^theory_text>\<open>Scanner_Cursor\<close>: the scan of a chain and what it does to the cursor,
    the event receipts and the snapshots.
  \<^item> \<^theory_text>\<open>Usage_Repo\<close>, \<^theory_text>\<open>Tron_Client\<close>, \<^theory_text>\<open>Approval_Service\<close>, \<^theory_text>\<open>Approval_Check\<close> and \<^theory_text>\<open>Approval_Budget\<close>: the check of TRON
    approvals, its providers, its workers under every interleaving, and its budget.
  \<^item> \<^theory_text>\<open>Auth_Common\<close>, \<^theory_text>\<open>Web3_Auth\<close> and \<^theory_text>\<open>User_Auth\<close>: authentication; \<^theory_text>\<open>Web3_Chain\<close>: all interceptors composed around
    a handler; \<^theory_text>\<open>Web3_Wiring\<close>: \<^verbatim>\<open>web3/internal/svc/servicecontext.go\<close>, the construction from a configuration.

  \<^item> \<^theory_text>\<open>User_Repo\<close>, \<^theory_text>\<open>User_Init\<close> and \<^theory_text>\<open>User_Service\<close>: \<^verbatim>\<open>user/internal/repository/user.go\<close> over the index and the shards, the
    interleavings of first requests, and \<^verbatim>\<open>user/internal/service\<close>.
  \<^item> \<^theory_text>\<open>Operation_Log\<close>, \<^theory_text>\<open>Rabbit_Client\<close>, \<^theory_text>\<open>Log_Consumer\<close>, \<^theory_text>\<open>Log_Delivery\<close> and \<^theory_text>\<open>Log_Reliability\<close>: the operation log of the
    admin service (\<^verbatim>\<open>admin/internal/mqhandler\<close>, \<^verbatim>\<open>admin/internal/repository/operation_log.go\<close>), the client and the consumer
    of \<^verbatim>\<open>admin/internal/mq\<close>, one delivery, and whole runs of the consumer. \<^theory_text>\<open>Admin_Repo\<close>: the administrators
    (\<^verbatim>\<open>admin/internal/repository/admin.go\<close>). \<^theory_text>\<open>Admin_Redis\<close> (\<^verbatim>\<open>admin/internal/redis/redis.go\<close>) and \<^theory_text>\<open>Admin_Info\<close>
    (\<^verbatim>\<open>admin/internal/service\<close>): the administrator's own account with its cache.
  \<^item> \<^theory_text>\<open>Sliding_Window\<close> (\<^verbatim>\<open>admin/internal/ratelimit\<close>, its Lua script included), \<^theory_text>\<open>Runtime_Config\<close> (\<^verbatim>\<open>admin/internal/runtimeconfig\<close>
    and \<^verbatim>\<open>admin/internal/config/runtime.go\<close>), \<^theory_text>\<open>Admin_Auth\<close> and \<^theory_text>\<open>Admin_Limit\<close> (\<^verbatim>\<open>admin/internal/middleware\<close>): limits and
    authentication of the admin service.
  \<^item> \<^theory_text>\<open>Client_Manager\<close>: \<^verbatim>\<open>gateway/internal/grpc/client.go\<close> and the same file of the user service, with the interleavings of
    \<^verbatim>\<open>GetClient\<close> and \<^verbatim>\<open>Close\<close>. \<^theory_text>\<open>Grpc_Discovery\<close>: the resolver that follows the instances of a service in Consul
    (\<^verbatim>\<open>gateway/internal/consul\<close>, \<^verbatim>\<open>user/internal/consul/discovery.go\<close>).
  \<^item> \<^theory_text>\<open>Gateway_Runtime\<close> (\<^verbatim>\<open>gateway/internal/config/runtime.go\<close>, \<^verbatim>\<open>gateway/internal/runtimeconfig\<close>) and \<^theory_text>\<open>Gateway_Http\<close>
    (\<^verbatim>\<open>gateway/internal/middleware\<close>, \<^verbatim>\<open>gateway/internal/handler\<close>, \<^verbatim>\<open>gateway/internal/server\<close>): a request from its headers to the
    metadata of the gRPC call and back to the status of the response.

  INTERFACES. A locale states each contract and is interpreted on the definitions of the code: \<^verbatim>\<open>shard_router\<close>
  (both routers), \<^verbatim>\<open>id_generator\<close> (the Snowflake generator), \<^verbatim>\<open>nonce_manager\<close> (the challenge store),
  \<^verbatim>\<open>table_repository\<close> (the wallet and the administrator repository), \<^verbatim>\<open>authenticator\<close> (the interceptors of three services), \<^verbatim>\<open>log_consumer\<close> (the handler of the operation log) and \<^verbatim>\<open>approval_usage\<close> (the usage
  repository as the approval service sees it).

  CONVENTIONS. A Go string is a list of bytes, \<^verbatim>\<open>error\<close> is an optional value of \<^verbatim>\<open>go_error\<close>, a pair of a value and an
  error is a sum, a panic is a value of its own, times are integers of nanoseconds. What is not under \<^verbatim>\<open>src/\<close> (GORM and the
  database, go-redis, go-ethereum, the OIDC verifier, HTTP, JSON, UUIDs, the clock) is an argument, and the
  predicates that name what the code relies on are hypotheses; every property with hypotheses is applied to
  concrete instances by its witness. The order in which Go visits a map is an argument too. Where goroutines
  run together (the workers of an approval check, repository calls of several requests, the scanner beside
  requests, calls of the connection manager) the statements hold for every sequence of their steps.

  WHAT IS SHOWN. Wallets: only a signature of the address on a fresh challenge of the caller binds it, a
  challenge is consumed once, and no sequence of requests breaks the keys of the table or gives a user two
  defaults. Chains: a read succeeds if one node answers. Balances and transactions: only the owner of an active
  wallet is answered, with data of that wallet. Scanner: the cursor moves over exactly the processed, confirmed
  blocks. Approvals: an answer that says it is complete is complete, and no provider is called without a
  reservation. Errors: what leaves the service is a gRPC status without internal causes. Administrators: a bound identity stays bound, and a
  caller sees only the own account. Users: concurrent first requests create one
  user. Operation log: no event is lost or recorded twice. Requests: a slot of
  the rate limit is always given back, and no window holds more calls than its limit. Connections: one per
  service, none open after the closing, with the addresses of the valid instances. Gateway: only a verified token with a role of
  the route reaches a service, with its own identity. Configuration: what \<^verbatim>\<open>Validate\<close> accepts can be built. Identifiers: Snowflake IDs
  increase, and generators with different nodes never collide.

  BOUNDS AND FUEL. Loops over lists, pages, attempts and workers are structural recursions over the bound that the
  code has. The wait of the Snowflake generator for the next millisecond is a search with an optional result,
  and \<^verbatim>\<open>snowflake_returns\<close> shows that it ends when the clock advances. The endless loops (the scanner, the consumer, the
  watch of the configuration) are lists of steps of any length, and their results hold for all of them. Nothing else needs fuel.

  FINDINGS. \<^verbatim>\<open>redisError\<close> turns success into an error; the user service refuses methods without roles;
  reactivating a default wallet drops the default; the first Snowflake ID can be zero; disabled sections of a
  valid configuration stop the start-up; failed operations are recorded as successful; a large page wraps its
  offset; a reset index of Consul stops the updates of the configuration; a window below a millisecond limits
  nothing; the manager of the user service closes a nil connection and its
  resolver prefers the address of the node; a conflict leaves the gateway as an internal error; an
  administrator that is created as disabled is stored as enabled; a failed lookup of an
  administrator is answered as a missing account. Each is a theorem of the theory that models the code.

  NOT MODELLED. Reading configuration through viper, Consul's HTTP API, listeners, logging, tracing and metrics: they call
  libraries and decide nothing that the modelled parts depend on. The forwarders copy requests to other services,
  and the role and permission repositories of the admin service have no caller. The rate limiter and the configuration manager of the gateway, the
  middleware of the user and admin services and their error packages are the code of the modelled packages of another
  service with other names, or its variant for streams. The Python LLM service is outside the development.
\<close>

end
